(* ===== verification/Cfs_Prelude.thy ===== *)
theory Cfs_Prelude
  imports Main "HOL-Library.Word" "HOL-Library.Multiset"
begin

text \<open>
  The vocabulary that every component shares: the C integer types of the program (a
  \<open>size_t\<close> and an \<open>off_t\<close> are 64-bit words, a byte is an 8-bit word), the outcome of a C
  function that can also crash, leave the process or never return, C strings copied into
  fixed arrays, and the byte buffers that \<open>pread\<close> and \<open>memcpy\<close> fill.
\<close>

section \<open>C types\<close>

type_synonym byte = "8 word"
type_synonym size_t = "64 word"
type_synonym off_t = "64 word"

text \<open>
  The conversion of a wider integer to the 32-bit \<open>int\<close> and to the 64-bit signed integer
  that \<open>sqlite3_bind_int64\<close> takes: the low bits, read as two's complement.
\<close>

definition c_int :: "int \<Rightarrow> int" where
  "c_int x = signed_take_bit 31 x"

definition c_int64 :: "size_t \<Rightarrow> int" where
  "c_int64 x = sint x"

lemma c_int_id [simp]: "- (2 ^ 31) \<le> x \<Longrightarrow> x < 2 ^ 31 \<Longrightarrow> c_int x = x"
  by (simp add: c_int_def signed_take_bit_int_eq_self_iff)

lemma c_int_0 [simp]: "c_int 0 = 0"
  by (simp add: c_int_def)

lemma of_int_c_int64 [simp]: "word_of_int (c_int64 x) = x"
  by (simp add: c_int64_def)

lemma c_int64_inject [simp]: "c_int64 x = c_int64 y \<longleftrightarrow> x = y"
  by (metis of_int_c_int64)

section \<open>Outcomes\<close>

text \<open>
  What a call can end in. \<open>Crash\<close> stands for undefined behaviour that the C code does not
  guard against, \<open>Exit\<close> for a call of \<open>exit\<close> or \<open>abort\<close>, \<open>Hang\<close> for a loop that never
  ends.
\<close>

datatype crash = BufferOverflow | OverRead | DivByZero | BadHandle

datatype 'a outcome = Ret 'a | Crash crash | Exit int | Hang

primrec obind :: "'a outcome \<Rightarrow> ('a \<Rightarrow> 'b outcome) \<Rightarrow> 'b outcome" where
  "obind (Ret x) f = f x"
| "obind (Crash c) f = Crash c"
| "obind (Exit n) f = Exit n"
| "obind Hang f = Hang"

lemma obind_eq_Ret: "obind p f = Ret y \<longleftrightarrow> (\<exists>x. p = Ret x \<and> f x = Ret y)"
  by (cases p) simp_all

lemma obind_RetE: "obind p f = Ret y \<Longrightarrow> (\<And>x. p = Ret x \<Longrightarrow> f x = Ret y \<Longrightarrow> P) \<Longrightarrow> P"
  by (auto simp: obind_eq_Ret)

lemma obind_assoc: "obind (obind p f) g = obind p (\<lambda>x. obind (f x) g)"
  by (cases p) simp_all

section \<open>C strings in fixed arrays\<close>

text \<open>
  \<open>strcpy\<close> and \<open>strncat\<close> into an array of \<open>cap\<close> bytes. The string is the character list
  before the terminator, which needs one more byte.
\<close>

definition c_strcpy :: "nat \<Rightarrow> string \<Rightarrow> string outcome" where
  "c_strcpy cap s = (if length s < cap then Ret s else Crash BufferOverflow)"

definition c_strncat :: "nat \<Rightarrow> string \<Rightarrow> string \<Rightarrow> nat \<Rightarrow> string outcome" where
  "c_strncat cap dst s n =
     (let r = dst @ take n s in if length r < cap then Ret r else Crash BufferOverflow)"

lemma c_strcpy_Ret [simp]: "c_strcpy cap s = Ret r \<longleftrightarrow> r = s \<and> length s < cap"
  by (auto simp: c_strcpy_def)

lemma c_strncat_Ret [simp]:
  "c_strncat cap d s n = Ret r \<longleftrightarrow> r = d @ take n s \<and> length r < cap"
  by (auto simp: c_strncat_def Let_def)

section \<open>Byte buffers\<close>

text \<open>\<open>slice i n b\<close> is the \<open>n\<close> bytes at \<open>i\<close>; \<open>buf_put\<close> stores bytes inside a buffer.\<close>

definition slice :: "nat \<Rightarrow> nat \<Rightarrow> 'a list \<Rightarrow> 'a list" where
  "slice i n b = take n (drop i b)"

definition buf_put :: "nat \<Rightarrow> 'a list \<Rightarrow> 'a list \<Rightarrow> 'a list" where
  "buf_put i d b = take i b @ d @ drop (i + length d) b"

lemma length_slice [simp]: "i + n \<le> length b \<Longrightarrow> length (slice i n b) = n"
  by (simp add: slice_def)

lemma length_slice_le: "length (slice i n b) \<le> n"
  by (simp add: slice_def)

lemma nth_slice [simp]: "k < n \<Longrightarrow> i + k < length b \<Longrightarrow> slice i n b ! k = b ! (i + k)"
  by (simp add: slice_def)

lemma length_buf_put [simp]: "i + length d \<le> length b \<Longrightarrow> length (buf_put i d b) = length b"
  by (simp add: buf_put_def)

lemma nth_buf_put:
  assumes "i + length d \<le> length b" "k < length b"
  shows "buf_put i d b ! k =
     (if i \<le> k \<and> k < i + length d then d ! (k - i) else b ! k)"
  using assms by (auto simp: buf_put_def nth_append min_def)

lemma buf_put_Nil [simp]: "buf_put i [] b = b"
  by (simp add: buf_put_def)

section \<open>Maps and words\<close>

lemma fun_upd_eq_same [simp]: "f(a := x) = f(a := y) \<longleftrightarrow> x = y"
  by (metis fun_upd_same)

lemma sum_list_filter_not:
  "sum_list (map g (filter (\<lambda>x. \<not> P x) xs)) = sum_list (map g xs) - sum_list (map g (filter P xs))"
  for g :: "'a \<Rightarrow> int"
  by (induction xs) auto

text \<open>Changing the one element with a given key changes a sum by the difference.\<close>

lemma sum_list_update_key:
  fixes v :: "'a \<Rightarrow> int"
  assumes "distinct (map k xs)" "x \<in> set xs" "\<And>y. k y \<noteq> k x \<Longrightarrow> v (h y) = v y"
  shows "(\<Sum>y\<leftarrow>xs. v (h y)) = (\<Sum>y\<leftarrow>xs. v y) + (v (h x) - v x)"
  using assms(1,2)
proof (induction xs)
  case (Cons z zs)
  show ?case
  proof (cases "z = x")
    case True
    with Cons.prems have "\<forall>y \<in> set zs. k y \<noteq> k x"
      by (auto simp: image_iff)
    with assms(3) have "(\<Sum>y\<leftarrow>zs. v (h y)) = (\<Sum>y\<leftarrow>zs. v y)"
      by (intro arg_cong [where f = sum_list] map_cong) auto
    with True show ?thesis by simp
  next
    case False
    with Cons.prems have "k z \<noteq> k x" "x \<in> set zs" by (auto simp: image_iff)
    with Cons assms(3) show ?thesis by simp
  qed
qed simp

lemma option_eqI: "(\<And>i. x = Some i \<longleftrightarrow> y = Some i) \<Longrightarrow> x = y"
  by (cases x; cases y) auto

lemma unat_sub_mod: "unat (x - x mod y) = unat x - unat x mod unat y" for x y :: "'a::len word"
proof -
  have "x mod y \<le> x"
    by (simp add: word_le_nat_alt unat_mod)
  then show ?thesis
    by (simp add: unat_sub unat_mod)
qed

lemma unat_div_mult [simp]: "unat (x div y * y) = unat x div unat y * unat y"
  for x y :: "'a::len word"
  using unat_sub_mod [of x y] by (simp add: minus_mod_eq_div_mult)

lemma unat_pos: "x \<noteq> 0 \<Longrightarrow> 0 < unat x" for x :: "'a::len word"
  by (simp add: unat_gt_0)

end
