(* ===== verification/Cache_Help.thy ===== *)
theory Cache_Help
  imports Cfs_Prelude
begin

text \<open>
  \<open>src/cacheHelp.c\<close>: the two routines that round a file offset to the block grid. The
  global \<open>block_size\<close> is an argument. In \<open>offset % block_size\<close> the \<open>off_t\<close> operand is
  converted to the unsigned 64-bit type, so the arithmetic is that of 64-bit words; a
  zero block size is a division by zero.
\<close>

definition alignLowerOffset :: "size_t \<Rightarrow> off_t \<Rightarrow> off_t outcome" where
  "alignLowerOffset block_size offset =
     (if block_size = 0 then Crash DivByZero else Ret (offset - offset mod block_size))"

definition alignUpperOffset :: "size_t \<Rightarrow> off_t \<Rightarrow> off_t outcome" where
  "alignUpperOffset block_size offset =
     (if block_size = 0 then Crash DivByZero else Ret (offset + offset mod block_size))"

lemma alignLowerOffset_Ret:
  "alignLowerOffset bs x = Ret r \<longleftrightarrow> bs \<noteq> 0 \<and> r = x div bs * bs"
  by (auto simp: alignLowerOffset_def minus_mod_eq_div_mult)

text \<open>
  C17: The lower alignment is the greatest multiple of the block size that is not above the
  offset: it is a multiple, it is at most the offset, and the offset lies less than one
  block above it.
\<close>

theorem alignLowerOffset_greatest_multiple:
  assumes "block_size \<noteq> 0"
  shows "\<exists>r. alignLowerOffset block_size offset = Ret r \<and> unat block_size dvd unat r \<and>
     unat r \<le> unat offset \<and> unat offset < unat r + unat block_size"
proof -
  let ?r = "offset div block_size * block_size"
  have "0 < unat block_size"
    using assms by (rule unat_pos)
  then have "unat ?r \<le> unat offset" and "unat offset < unat ?r + unat block_size"
    using dividend_less_div_times [of "unat block_size" "unat offset"] by simp_all
  moreover have "unat block_size dvd unat ?r"
    by simp
  ultimately show ?thesis
    using assms by (auto simp: alignLowerOffset_Ret)
qed

theorem alignLowerOffset_greatest_multiple_witness:
  "(1024 :: size_t) \<noteq> 0 \<and> (\<exists>r. alignLowerOffset 1024 5000 = Ret r \<and>
     unat (1024 :: size_t) dvd unat r \<and> unat r \<le> unat (5000 :: off_t) \<and>
     unat (5000 :: off_t) < unat r + unat (1024 :: size_t))"
  using alignLowerOffset_greatest_multiple [of 1024 5000] by simp

text \<open>
  The routine named upper alignment agrees with rounding up exactly where the distance
  to the block below is zero or half a block; elsewhere it leaves the block grid, as one
  byte past a boundary shows.
\<close>

theorem alignUpperOffset_on_grid_iff:
  assumes "block_size \<noteq> 0" and "unat offset + unat (offset mod block_size) < 2 ^ 64"
  shows "(\<exists>r. alignUpperOffset block_size offset = Ret r \<and> unat block_size dvd unat r) \<longleftrightarrow>
     unat offset mod unat block_size = 0 \<or> 2 * (unat offset mod unat block_size) = unat block_size"
proof -
  let ?b = "unat block_size" and ?m = "unat offset mod unat block_size"
  have b: "0 < ?b" and m: "?m < ?b"
    using assms(1) by (simp_all add: unat_pos)
  have "unat (offset + offset mod block_size) = unat offset + ?m"
    using assms(2) unat_add_lem [of offset "offset mod block_size"] by (simp add: unat_mod)
  also have "\<dots> = unat offset div ?b * ?b + 2 * ?m"
    by (metis add.assoc div_mult_mod_eq mult_2)
  finally have "?b dvd unat (offset + offset mod block_size) \<longleftrightarrow> ?b dvd 2 * ?m"
    by (simp add: dvd_add_right_iff)
  also have "\<dots> \<longleftrightarrow> ?m = 0 \<or> 2 * ?m = ?b"
  proof
    assume "?b dvd 2 * ?m"
    then obtain k where k: "2 * ?m = ?b * k" ..
    have "?b * k < ?b * 2"
      using k m by linarith
    then have "k = 0 \<or> k = 1"
      by auto
    with k b show "?m = 0 \<or> 2 * ?m = ?b"
      by auto
  qed (use b in auto)
  finally show ?thesis
    using assms(1) by (simp add: alignUpperOffset_def)
qed

theorem alignUpperOffset_on_grid_iff_witness:
  "\<not> (\<exists>r. alignUpperOffset 1024 1 = Ret r \<and> unat (1024 :: size_t) dvd unat r)"
  using alignUpperOffset_on_grid_iff [of 1024 1] by simp

end
