(* ===== verification/Cfs_Paths.thy ===== *)
theory Cfs_Paths
  imports Cfs_Prelude
begin

text \<open>
  The names under which a file is found: \<open>cfs_fullNasPath\<close>, \<open>cfs_fullCachePath\<close> and
  \<open>cfs_pathToFileName\<close> of \<open>src/cachefs.c\<close>, and the two directories of \<open>struct cfs_state\<close>
  (\<open>src/params.h\<close>). All three copy into arrays of \<open>PATH_MAX\<close> bytes.
\<close>

record cfs_state =
  nasdir :: string
  cachedir :: string

definition PATH_MAX :: nat where
  "PATH_MAX = 4096"

abbreviation NUL :: char where
  "NUL \<equiv> CHR 0x00"

section \<open>Full paths\<close>

definition cfs_fullNasPath :: "cfs_state \<Rightarrow> string \<Rightarrow> string outcome" where
  "cfs_fullNasPath s path =
     obind (c_strcpy PATH_MAX (nasdir s)) (\<lambda>nasPath. c_strncat PATH_MAX nasPath path PATH_MAX)"

definition cfs_fullCachePath :: "cfs_state \<Rightarrow> string \<Rightarrow> string outcome" where
  "cfs_fullCachePath s path =
     obind (c_strcpy PATH_MAX (cachedir s)) (\<lambda>cachePath. c_strncat PATH_MAX cachePath path PATH_MAX)"

lemma full_path_Ret:
  "obind (c_strcpy n d) (\<lambda>p. c_strncat n p path n) = Ret r \<longleftrightarrow>
     r = d @ path \<and> length d + length path < n"
  by (auto simp: obind_eq_Ret)

section \<open>The flat name of a cached file\<close>

text \<open>
  The loop of \<open>cfs_pathToFileName\<close> over the array \<open>pathFileName\<close>: \<open>src\<close> reads, \<open>dst\<close>
  writes behind it, and a slash keeps its place only at the first position. After the loop
  the terminator is stored at \<open>dst\<close>.
\<close>

function pathToFileName_loop :: "string \<Rightarrow> nat \<Rightarrow> nat \<Rightarrow> string" where
  "pathToFileName_loop b src dst =
     (if src < length b \<and> b ! src \<noteq> NUL then
        let b' = b[dst := b ! src];
            dst' = (if b' ! dst \<noteq> CHR ''/'' \<or> src = 0 then Suc dst else dst)
        in pathToFileName_loop b' (Suc src) dst'
      else b[dst := NUL])"
  by pat_completeness auto
termination
  by (relation "measure (\<lambda>(b, src, dst). length b - src)") (auto simp: Let_def)

declare pathToFileName_loop.simps [simp del]

definition cfs_pathToFileName :: "string \<Rightarrow> string outcome" where
  "cfs_pathToFileName path =
     obind (c_strcpy PATH_MAX path)
       (\<lambda>s. Ret (takeWhile (\<lambda>c. c \<noteq> NUL) (pathToFileName_loop (s @ [NUL]) 0 0)))"

text \<open>The reference: the first character, then everything but the slashes.\<close>

fun file_key :: "string \<Rightarrow> string" where
  "file_key [] = []"
| "file_key (c # cs) = c # filter (\<lambda>x. x \<noteq> CHR ''/'') cs"

lemma length_file_key: "length (file_key p) \<le> length p"
  by (cases p) auto

lemma set_file_key: "set (file_key p) \<subseteq> set p"
  by (cases p) auto

lemma takeWhile_stop:
  "dst < length b \<Longrightarrow> NUL \<notin> set (take dst b) \<Longrightarrow>
     takeWhile (\<lambda>c. c \<noteq> NUL) (b[dst := NUL]) = take dst b"
  by (subst upd_conv_take_nth_drop) (auto simp: takeWhile_tail)

lemma loop_rest:
  assumes "drop src b = rest @ [NUL]" "dst \<le> src" "0 < src"
    "NUL \<notin> set rest" "NUL \<notin> set (take dst b)"
  shows "takeWhile (\<lambda>c. c \<noteq> NUL) (pathToFileName_loop b src dst) =
     take dst b @ filter (\<lambda>x. x \<noteq> CHR ''/'') rest"
  using assms
proof (induction rest arbitrary: b src dst)
  case Nil
  then have "src < length b"
    by (cases "src < length b") auto
  with Nil have "b ! src = NUL" and "dst < length b"
    by (auto simp: Cons_nth_drop_Suc [symmetric])
  with Nil show ?case
    by (simp add: pathToFileName_loop.simps [of b] takeWhile_stop)
next
  case (Cons c cs)
  then have l: "src < length b"
    by (cases "src < length b") auto
  with Cons.prems have c: "b ! src = c" "drop (Suc src) b = cs @ [NUL]" and d: "dst < length b"
    by (auto simp: Cons_nth_drop_Suc [symmetric])
  let ?b = "b[dst := c]" and ?d = "if c \<noteq> CHR ''/'' then Suc dst else dst"
  have t: "take ?d ?b = take dst b @ (if c \<noteq> CHR ''/'' then [c] else [])"
    using d by (simp add: take_Suc_conv_app_nth)
  have "takeWhile (\<lambda>c. c \<noteq> NUL) (pathToFileName_loop ?b (Suc src) ?d) =
      take ?d ?b @ filter (\<lambda>x. x \<noteq> CHR ''/'') cs"
    using Cons.prems c t by (intro Cons.IH) (auto simp: drop_update_cancel)
  with Cons.prems l c d t show ?case
    by (auto simp: pathToFileName_loop.simps [of b] Let_def split: if_splits)
qed

lemma loop_file_key:
  assumes "NUL \<notin> set path"
  shows "takeWhile (\<lambda>c. c \<noteq> NUL) (pathToFileName_loop (path @ [NUL]) 0 0) = file_key path"
proof (cases path)
  case Nil
  then show ?thesis by (simp add: pathToFileName_loop.simps [of "[NUL]"])
next
  case (Cons c cs)
  with assms have "takeWhile (\<lambda>c. c \<noteq> NUL) (pathToFileName_loop (path @ [NUL]) 1 1) = file_key path"
    using loop_rest [of 1 "path @ [NUL]" cs 1] by auto
  with Cons assms show ?thesis
    by (auto simp: pathToFileName_loop.simps [of "c # cs @ [NUL]" 0])
qed

text \<open>
  C16: The in-place compaction returns the path with every slash but a leading one removed.
  It fails only where the path with its terminator does not fit \<open>PATH_MAX\<close> bytes, and then
  the copy overruns the array.
\<close>

theorem cfs_pathToFileName_correct:
  assumes "NUL \<notin> set path"
  shows "cfs_pathToFileName path =
     (if length path < PATH_MAX then Ret (file_key path) else Crash BufferOverflow)"
  using loop_file_key [OF assms] by (simp add: cfs_pathToFileName_def c_strcpy_def)

theorem cfs_pathToFileName_correct_witness:
  "cfs_pathToFileName ''/dir/sub/a.txt'' = Ret ''/dirsuba.txt''"
  using cfs_pathToFileName_correct [of "''/dir/sub/a.txt''"] by (simp add: PATH_MAX_def)

lemma pathToFileName_Ret:
  "NUL \<notin> set path \<Longrightarrow> cfs_pathToFileName path = Ret k \<longleftrightarrow>
     k = file_key path \<and> length path < PATH_MAX"
  using loop_file_key [of path] by (auto simp: cfs_pathToFileName_def obind_eq_Ret)

text \<open>
  The flat name identifies a file only up to the slashes: two paths below the root have the
  same name exactly when they are equal after their slashes are removed, so the cache keeps
  one entry for different files such as \<open>/a/b\<close> and \<open>/ab\<close>.
\<close>

theorem file_name_collision_iff:
  assumes "NUL \<notin> set p" "NUL \<notin> set q" "length p < PATH_MAX - 1" "length q < PATH_MAX - 1"
  shows "cfs_pathToFileName (CHR ''/'' # p) = cfs_pathToFileName (CHR ''/'' # q) \<longleftrightarrow>
     filter (\<lambda>x. x \<noteq> CHR ''/'') p = filter (\<lambda>x. x \<noteq> CHR ''/'') q"
  using assms loop_file_key [of "CHR ''/'' # p"] loop_file_key [of "CHR ''/'' # q"]
  by (auto simp: cfs_pathToFileName_def c_strcpy_def)

theorem file_name_collision_iff_witness:
  "''/a/b'' \<noteq> ''/ab'' \<and> cfs_pathToFileName ''/a/b'' = cfs_pathToFileName ''/ab''"
  using file_name_collision_iff [of "''a/b''" "''ab''"] by (simp add: PATH_MAX_def)

end
