(* ===== verification/C_Numerals.thy ===== *)
theory C_Numerals
  imports Cfs_Prelude
begin

text \<open>
  Decimal numerals as the program meets them: SQLite hands an integer column to the row
  callback as decimal text, and \<open>str_to_num\<close> of \<open>src/metadata/meta.c\<close> reads it back with
  \<open>strtoul\<close>, which is the C standard's: white space, an optional sign, the longest run of
  digits, saturation with \<open>ERANGE\<close>.
\<close>

section \<open>Printing\<close>

definition digit_char :: "nat \<Rightarrow> char" where
  "digit_char d = char_of (48 + d)"

fun show_nat :: "nat \<Rightarrow> string" where
  "show_nat n = (if n < 10 then [digit_char n] else show_nat (n div 10) @ [digit_char (n mod 10)])"

declare show_nat.simps [simp del]

definition show_int :: "int \<Rightarrow> string" where
  "show_int x = (if x < 0 then CHR ''-'' # show_nat (nat (- x)) else show_nat (nat x))"

section \<open>Reading\<close>

definition is_digit :: "char \<Rightarrow> bool" where
  "is_digit c = (48 \<le> (of_char c :: nat) \<and> (of_char c :: nat) \<le> 57)"

definition is_space :: "char \<Rightarrow> bool" where
  "is_space c = ((of_char c :: nat) = 32 \<or> (9 \<le> (of_char c :: nat) \<and> (of_char c :: nat) \<le> 13))"

definition digit_val :: "char \<Rightarrow> nat" where
  "digit_val c = of_char c - 48"

definition digits_val :: "string \<Rightarrow> nat" where
  "digits_val s = foldl (\<lambda>v c. 10 * v + digit_val c) 0 s"

datatype strtoul_result = NoDigits | OutOfRange | Number size_t

text \<open>
  \<open>strtoul(str, &endptr, 10)\<close>: \<open>NoDigits\<close> is \<open>endptr == str\<close>, \<open>OutOfRange\<close> is \<open>errno\<close> set to
  \<open>ERANGE\<close>. A minus sign negates the value in the unsigned type.
\<close>

definition strtoul :: "string \<Rightarrow> strtoul_result" where
  "strtoul str =
     (let s = dropWhile is_space str;
          neg = (s \<noteq> [] \<and> hd s = CHR ''-'');
          s = (if s \<noteq> [] \<and> (hd s = CHR ''-'' \<or> hd s = CHR ''+'') then tl s else s);
          ds = takeWhile is_digit s;
          v = digits_val ds
      in if ds = [] then NoDigits
         else if 2 ^ 64 \<le> v then OutOfRange
         else Number (if neg then - of_nat v else of_nat v))"

section \<open>Round trip\<close>

lemma of_char_digit [simp]: "d < 10 \<Longrightarrow> (of_char (digit_char d) :: nat) = 48 + d"
  by (simp add: digit_char_def)

lemma is_digit_digit_char [simp]: "d < 10 \<Longrightarrow> is_digit (digit_char d)"
  by (simp add: is_digit_def)

lemma digit_val_digit_char [simp]: "d < 10 \<Longrightarrow> digit_val (digit_char d) = d"
  by (simp add: digit_val_def)

lemma show_nat_digits: "\<forall>c \<in> set (show_nat n). is_digit c"
proof (induction n rule: show_nat.induct)
  case (1 n)
  then show ?case by (subst show_nat.simps) auto
qed

lemma show_nat_nonempty [simp]: "show_nat n \<noteq> []"
  by (subst show_nat.simps) auto

lemma digits_val_show_nat: "digits_val (show_nat n) = n"
proof (induction n rule: show_nat.induct)
  case (1 n)
  show ?case
  proof (cases "n < 10")
    case True
    then show ?thesis by (subst show_nat.simps) (simp add: digits_val_def)
  next
    case False
    with 1 have "digits_val (show_nat (n div 10)) = n div 10"
      by simp
    with False show ?thesis by (subst show_nat.simps) (simp add: digits_val_def)
  qed
qed

lemma digit_not_special:
  "is_digit c \<Longrightarrow> \<not> is_space c \<and> c \<noteq> CHR ''-'' \<and> c \<noteq> CHR ''+''"
  by (auto simp: is_digit_def is_space_def)

lemma show_nat_Cons: "\<exists>c cs. show_nat n = c # cs \<and> is_digit c"
  using show_nat_digits [of n] by (cases "show_nat n") auto

lemma takeWhile_show_nat: "takeWhile is_digit (show_nat n) = show_nat n"
  using show_nat_digits by (auto simp: takeWhile_eq_all_conv)

lemma strtoul_show_nat:
  assumes "n < 2 ^ 64"
  shows "strtoul (show_nat n) = Number (of_nat n)"
proof -
  obtain c cs where c: "show_nat n = c # cs" "is_digit c"
    using show_nat_Cons by blast
  with digit_not_special have "dropWhile is_space (show_nat n) = show_nat n"
    and "hd (show_nat n) \<noteq> CHR ''-''" "hd (show_nat n) \<noteq> CHR ''+''"
    by auto
  then show ?thesis
    using assms by (simp add: strtoul_def Let_def takeWhile_show_nat digits_val_show_nat)
qed

end
