(* ===== verification/Sqlite_Api.thy ===== *)
theory Sqlite_Api
  imports C_Numerals "HOL-Library.AList"
begin

text \<open>
  What the program relies on of SQLite. The library itself is not part of the repository,
  so it is a parameter: a record \<open>sqlite3\<close> of the interface functions that \<open>meta.c\<close> calls,
  over an arbitrary connection state \<open>'db\<close>. The two tables of \<open>create_tables\<close> and the SQL
  text that the program sends are part of the repository: they are the records \<open>file_row\<close>
  and \<open>block_row\<close>, the type \<open>sql\<close> (one constructor per statement text, with its bound
  values) and the relation \<open>sql_run\<close> (what a statement may do to the tables). The locale
  \<open>sqlite_engine\<close> states the documented behaviour of the interface: a statement that
  succeeds does what its text says, one that fails changes nothing, and any step may fail.
  \<open>sqlite_reliable\<close> adds that no step fails without a reason in the tables. Both are
  interpreted on an executable engine, which also injects faults.
\<close>

section \<open>The schema\<close>

record file_row =
  file_id :: int
  relative_path :: string
  remote_size :: int
  local_size :: int

record block_row =
  block_id :: int
  blk_start_offset :: int
  valid :: int
  timestamp :: int
  blk_file_id :: int

record tables =
  files :: "file_row list"
  datablocks :: "block_row list"
  has_files :: bool
  has_datablocks :: bool
  foreign_keys :: bool

definition block_key :: "block_row \<Rightarrow> int \<times> int" where
  "block_key b = (blk_start_offset b, blk_file_id b)"

text \<open>The subselect \<open>(SELECT file_id from Files WHERE relative_path=?)\<close>; \<open>None\<close> is NULL.\<close>

definition path_id :: "string \<Rightarrow> tables \<Rightarrow> int option" where
  "path_id p t = map_option file_id (find (\<lambda>f. relative_path f = p) (files t))"

definition block_at :: "int \<Rightarrow> string \<Rightarrow> tables \<Rightarrow> block_row \<Rightarrow> bool" where
  "block_at off p t b = (blk_start_offset b = off \<and> path_id p t = Some (blk_file_id b))"

text \<open>
  The constraints of the schema: \<open>UNIQUE\<close> and \<open>PRIMARY KEY\<close> columns are distinct, the foreign
  key of every block names a file.
\<close>

definition wf_tables :: "tables \<Rightarrow> bool" where
  "wf_tables t \<longleftrightarrow>
     distinct (map relative_path (files t)) \<and> distinct (map file_id (files t)) \<and>
     distinct (map block_key (datablocks t)) \<and> distinct (map block_id (datablocks t)) \<and>
     blk_file_id ` set (datablocks t) \<subseteq> file_id ` set (files t)"

section \<open>The statements\<close>

datatype sqlval = VNull | VInt int | VText string

datatype sql =
    CreateFiles | CreateDatablocks | ForeignKeysOn
  | InsertFile string int
  | InsertBlock int string
  | AddLocal int string
  | SubLocal int string
  | SelectLocal string
  | DeleteFile string
  | DeleteBlock int string
  | SelectFileId string
  | SelectBlockId int string
  | TouchBlock int string
  | SelectOldest int
  | SelectPath int
  | SumLocal

definition in_int64 :: "int \<Rightarrow> bool" where
  "in_int64 x \<longleftrightarrow> - (2 ^ 63) \<le> x \<and> x < 2 ^ 63"

definition set_local :: "string \<Rightarrow> (int \<Rightarrow> int) \<Rightarrow> tables \<Rightarrow> tables" where
  "set_local p g t = t\<lparr>files :=
     map (\<lambda>f. if relative_path f = p then f\<lparr>local_size := g (local_size f)\<rparr> else f) (files t)\<rparr>"

definition delete_file_rows :: "string \<Rightarrow> tables \<Rightarrow> tables" where
  "delete_file_rows p t = t\<lparr>files := filter (\<lambda>f. relative_path f \<noteq> p) (files t),
     datablocks := (if foreign_keys t
       then filter (\<lambda>b. path_id p t \<noteq> Some (blk_file_id b)) (datablocks t)
       else datablocks t)\<rparr>"

definition touch_rows :: "int \<Rightarrow> string \<Rightarrow> int \<Rightarrow> tables \<Rightarrow> tables" where
  "touch_rows off p now t = t\<lparr>datablocks :=
     map (\<lambda>b. if block_at off p t b then b\<lparr>timestamp := now\<rparr> else b) (datablocks t)\<rparr>"

text \<open>
  \<open>sql_run q t rows t'\<close>: the statement \<open>q\<close> succeeds on the tables \<open>t\<close>, returns \<open>rows\<close> and
  leaves \<open>t'\<close>. The clock of \<open>DATETIME('now')\<close>, the fresh row ids, the order of rows with
  equal timestamps and the value of an integer sum outside 64 bits are left open. A statement
  whose constraint is violated has no rule.
\<close>

inductive sql_run :: "sql \<Rightarrow> tables \<Rightarrow> sqlval list list \<Rightarrow> tables \<Rightarrow> bool" where
  create_files: "\<not> has_files t \<Longrightarrow>
    sql_run CreateFiles t [] (t\<lparr>has_files := True, files := []\<rparr>)"
| create_datablocks: "\<not> has_datablocks t \<Longrightarrow>
    sql_run CreateDatablocks t [] (t\<lparr>has_datablocks := True, datablocks := []\<rparr>)"
| foreign_keys_on: "sql_run ForeignKeysOn t [] (t\<lparr>foreign_keys := True\<rparr>)"
| insert_file: "has_files t \<Longrightarrow> p \<notin> set (map relative_path (files t)) \<Longrightarrow>
    i \<notin> set (map file_id (files t)) \<Longrightarrow>
    sql_run (InsertFile p n) t [] (t\<lparr>files := files t @
      [\<lparr>file_id = i, relative_path = p, remote_size = n, local_size = 0\<rparr>]\<rparr>)"
| insert_block: "has_datablocks t \<Longrightarrow> path_id p t = Some i \<Longrightarrow>
    (off, i) \<notin> set (map block_key (datablocks t)) \<Longrightarrow>
    bid \<notin> set (map block_id (datablocks t)) \<Longrightarrow>
    sql_run (InsertBlock off p) t [] (t\<lparr>datablocks := datablocks t @
      [\<lparr>block_id = bid, blk_start_offset = off, valid = 1, timestamp = now, blk_file_id = i\<rparr>]\<rparr>)"
| add_local: "has_files t \<Longrightarrow> (\<And>x. in_int64 (x + n) \<Longrightarrow> g x = x + n) \<Longrightarrow>
    sql_run (AddLocal n p) t [] (set_local p g t)"
| sub_local: "has_files t \<Longrightarrow> (\<And>x. in_int64 (x - n) \<Longrightarrow> g x = x - n) \<Longrightarrow>
    sql_run (SubLocal n p) t [] (set_local p g t)"
| select_local: "has_files t \<Longrightarrow>
    sql_run (SelectLocal p) t
      (map (\<lambda>f. [VInt (local_size f)]) (filter (\<lambda>f. relative_path f = p) (files t))) t"
| delete_file: "has_files t \<Longrightarrow> sql_run (DeleteFile p) t [] (delete_file_rows p t)"
| delete_block: "has_datablocks t \<Longrightarrow>
    sql_run (DeleteBlock off p) t []
      (t\<lparr>datablocks := filter (\<lambda>b. \<not> block_at off p t b) (datablocks t)\<rparr>)"
| select_file_id: "has_files t \<Longrightarrow>
    sql_run (SelectFileId p) t
      (map (\<lambda>f. [VInt (file_id f)]) (filter (\<lambda>f. relative_path f = p) (files t))) t"
| select_block_id: "has_datablocks t \<Longrightarrow>
    sql_run (SelectBlockId off p) t
      (map (\<lambda>b. [VInt (block_id b)]) (filter (block_at off p t) (datablocks t))) t"
| touch_block: "has_datablocks t \<Longrightarrow> sql_run (TouchBlock off p) t [] (touch_rows off p now t)"
| select_oldest: "has_datablocks t \<Longrightarrow> mset bs = mset (datablocks t) \<Longrightarrow>
    sorted (map timestamp bs) \<Longrightarrow>
    sql_run (SelectOldest n) t
      (map (\<lambda>b. [VInt (blk_start_offset b), VInt (blk_file_id b)])
        (if n < 0 then bs else take (nat n) bs)) t"
| select_path: "has_files t \<Longrightarrow>
    sql_run (SelectPath i) t
      (map (\<lambda>f. [VText (relative_path f)]) (filter (\<lambda>f. file_id f = i) (files t))) t"
| sum_local_null: "has_files t \<Longrightarrow> files t = [] \<Longrightarrow> sql_run SumLocal t [[VNull]] t"
| sum_local: "has_files t \<Longrightarrow> files t \<noteq> [] \<Longrightarrow> in_int64 (sum_list (map local_size (files t))) \<Longrightarrow>
    sql_run SumLocal t [[VInt (sum_list (map local_size (files t)))]] t"

inductive_cases run_create_filesE: "sql_run CreateFiles t rs t'"
inductive_cases run_create_datablocksE: "sql_run CreateDatablocks t rs t'"
inductive_cases run_foreign_keysE: "sql_run ForeignKeysOn t rs t'"
inductive_cases run_insert_fileE: "sql_run (InsertFile p n) t rs t'"
inductive_cases run_insert_blockE: "sql_run (InsertBlock off p) t rs t'"
inductive_cases run_add_localE: "sql_run (AddLocal n p) t rs t'"
inductive_cases run_sub_localE: "sql_run (SubLocal n p) t rs t'"
inductive_cases run_select_localE: "sql_run (SelectLocal p) t rs t'"
inductive_cases run_delete_fileE: "sql_run (DeleteFile p) t rs t'"
inductive_cases run_delete_blockE: "sql_run (DeleteBlock off p) t rs t'"
inductive_cases run_select_file_idE: "sql_run (SelectFileId p) t rs t'"
inductive_cases run_select_block_idE: "sql_run (SelectBlockId off p) t rs t'"
inductive_cases run_touch_blockE: "sql_run (TouchBlock off p) t rs t'"
inductive_cases run_select_oldestE: "sql_run (SelectOldest n) t rs t'"
inductive_cases run_select_pathE: "sql_run (SelectPath i) t rs t'"
inductive_cases run_sum_localE: "sql_run SumLocal t rs t'"

section \<open>The interface\<close>

abbreviation (input) SQLITE_OK :: int where "SQLITE_OK \<equiv> 0"
abbreviation (input) SQLITE_MISUSE :: int where "SQLITE_MISUSE \<equiv> 21"
abbreviation (input) SQLITE_ROW :: int where "SQLITE_ROW \<equiv> 100"
abbreviation (input) SQLITE_DONE :: int where "SQLITE_DONE \<equiv> 101"

text \<open>
  The functions of \<open>sqlite3.h\<close> that the program calls. \<open>sq_prepare\<close> is
  \<open>sqlite3_prepare_v2\<close> followed by the \<open>sqlite3_bind\<close> calls for the values that the
  statement carries; its result is the statement handle, 0 for NULL. \<open>sq_exec\<close> is
  \<open>sqlite3_exec\<close>: each row reaches the callback as its column names and texts.
\<close>

record 'db sqlite3 =
  sq_open :: "string \<Rightarrow> int \<times> 'db"
  sq_exec :: "sql list \<Rightarrow> 'db \<Rightarrow> int \<times> (string \<times> string option) list list \<times> 'db"
  sq_prepare :: "sql \<Rightarrow> 'db \<Rightarrow> nat \<times> 'db"
  sq_step :: "nat \<Rightarrow> 'db \<Rightarrow> int \<times> 'db"
  sq_column_int64 :: "nat \<Rightarrow> nat \<Rightarrow> 'db \<Rightarrow> int"
  sq_column_text :: "nat \<Rightarrow> nat \<Rightarrow> 'db \<Rightarrow> string"
  sq_finalize :: "nat \<Rightarrow> 'db \<Rightarrow> int \<times> 'db"

text \<open>
  A prepared statement is fresh, on a row (with the tables it started from and the rows
  still to come), finished, or failed. A step on a finished or failed statement starts it again.
\<close>

datatype cursor =
    Ready sql
  | AtRow sql tables "sqlval list" "sqlval list list"
  | Finished sql
  | Failed sql

fun restart :: "cursor \<Rightarrow> sql option" where
  "restart (Ready q) = Some q"
| "restart (AtRow q t r rs) = None"
| "restart (Finished q) = Some q"
| "restart (Failed q) = Some q"

fun cursor_sql :: "cursor \<Rightarrow> sql" where
  "cursor_sql (Ready q) = q"
| "cursor_sql (AtRow q t r rs) = q"
| "cursor_sql (Finished q) = q"
| "cursor_sql (Failed q) = q"

text \<open>The rows of a running query are only specified while the tables stay as they were.\<close>

fun undisturbed :: "cursor \<Rightarrow> tables \<Rightarrow> bool" where
  "undisturbed (AtRow q t r rs) t' = (t' = t)"
| "undisturbed c t' = True"

inductive cursor_step :: "cursor \<Rightarrow> tables \<Rightarrow> int \<Rightarrow> cursor \<Rightarrow> tables \<Rightarrow> bool" where
  start_row: "restart c = Some q \<Longrightarrow> sql_run q t (r # rs) t' \<Longrightarrow>
    cursor_step c t SQLITE_ROW (AtRow q t' r rs) t'"
| start_done: "restart c = Some q \<Longrightarrow> sql_run q t [] t' \<Longrightarrow>
    cursor_step c t SQLITE_DONE (Finished q) t'"
| next_row: "cursor_step (AtRow q t r (r' # rs)) t SQLITE_ROW (AtRow q t r' rs) t"
| next_done: "cursor_step (AtRow q t r []) t SQLITE_DONE (Finished q) t"
| step_fail: "rc \<noteq> SQLITE_ROW \<Longrightarrow> rc \<noteq> SQLITE_DONE \<Longrightarrow>
    cursor_step c t rc (Failed (cursor_sql c)) t"

inductive_cases step_from_readyE: "cursor_step (Ready q) t rc c' t'"
inductive_cases step_from_rowE: "cursor_step (AtRow q t r rs) t rc c' t'"
inductive_cases step_from_finishedE: "cursor_step (Finished q) t rc c' t'"

lemma restart_cursor_sql: "restart c = Some q \<Longrightarrow> cursor_sql c = q"
  by (cases c) auto

text \<open>\<open>sqlite3_exec\<close> runs the statements in order and stops at the first that fails.\<close>

fun columns :: "sql \<Rightarrow> string list" where
  "columns SumLocal = [''SUM(local_size)'']"
| "columns (SelectLocal p) = [''local_size'']"
| "columns (SelectFileId p) = [''file_id'']"
| "columns (SelectBlockId off p) = [''block_id'']"
| "columns (SelectOldest n) = [''blk_start_offset'', ''file_id'']"
| "columns (SelectPath i) = [''relative_path'']"
| "columns q = []"

fun val_text :: "sqlval \<Rightarrow> string option" where
  "val_text VNull = None"
| "val_text (VInt x) = Some (show_int x)"
| "val_text (VText s) = Some s"

definition callback_rows :: "sql \<Rightarrow> sqlval list list \<Rightarrow> (string \<times> string option) list list" where
  "callback_rows q rows = map (\<lambda>r. zip (columns q) (map val_text r)) rows"

inductive exec_run ::
  "sql list \<Rightarrow> tables \<Rightarrow> int \<Rightarrow> (string \<times> string option) list list \<Rightarrow> tables \<Rightarrow> bool" where
  exec_nil: "exec_run [] t SQLITE_OK [] t"
| exec_ok: "sql_run q t rows t' \<Longrightarrow> exec_run qs t' rc out t'' \<Longrightarrow>
    exec_run (q # qs) t rc (callback_rows q rows @ out) t''"
| exec_err: "rc \<noteq> SQLITE_OK \<Longrightarrow> exec_run (q # qs) t rc [] t"

inductive_cases exec_nilE: "exec_run [] t rc out t'"
inductive_cases exec_consE: "exec_run (q # qs) t rc out t'"

section \<open>The documented behaviour\<close>

text \<open>
  \<open>tabs\<close> reads the two tables off a connection and \<open>stmts\<close> its prepared statements that are
  not finalized. These two are the only view the laws take of the state.
\<close>

locale sqlite_engine =
  fixes E :: "'db sqlite3"
    and tabs :: "'db \<Rightarrow> tables"
    and stmts :: "'db \<Rightarrow> nat \<Rightarrow> cursor option"
  assumes null_stmt: "stmts d 0 = None"
    and prepare_law: "sq_prepare E q d = (h, d') \<Longrightarrow> tabs d' = tabs d \<and>
      (h = 0 \<and> stmts d' = stmts d \<or>
       h \<noteq> 0 \<and> stmts d h = None \<and> stmts d' = (stmts d)(h \<mapsto> Ready q))"
    and step_null: "sq_step E 0 d = (rc, d') \<Longrightarrow>
      rc \<noteq> SQLITE_ROW \<and> rc \<noteq> SQLITE_DONE \<and> tabs d' = tabs d \<and> stmts d' = stmts d"
    and step_law: "sq_step E h d = (rc, d') \<Longrightarrow> stmts d h = Some c \<Longrightarrow> undisturbed c (tabs d) \<Longrightarrow>
      \<exists>c'. cursor_step c (tabs d) rc c' (tabs d') \<and> stmts d' = (stmts d)(h \<mapsto> c')"
    and column_int64_law: "stmts d h = Some (AtRow q t r rs) \<Longrightarrow> i < length r \<Longrightarrow>
      r ! i = VInt x \<Longrightarrow> sq_column_int64 E h i d = x"
    and column_text_law: "stmts d h = Some (AtRow q t r rs) \<Longrightarrow> i < length r \<Longrightarrow>
      r ! i = VText s \<Longrightarrow> sq_column_text E h i d = s"
    and finalize_law: "sq_finalize E h d = (rc, d') \<Longrightarrow> stmts d h = Some c \<Longrightarrow>
      tabs d' = tabs d \<and> stmts d' = (stmts d)(h := None) \<and>
      ((\<forall>q. c \<noteq> Failed q) \<longrightarrow> rc = SQLITE_OK)"
    and exec_law: "sq_exec E qs d = (rc, out, d') \<Longrightarrow>
      exec_run qs (tabs d) rc out (tabs d') \<and> stmts d' = stmts d"

locale sqlite_reliable = sqlite_engine E tabs stmts
  for E :: "'db sqlite3" and tabs :: "'db \<Rightarrow> tables"
    and stmts :: "'db \<Rightarrow> nat \<Rightarrow> cursor option" +
  assumes prepare_reliable: "has_files (tabs d) \<Longrightarrow> has_datablocks (tabs d) \<Longrightarrow>
      fst (sq_prepare E q d) \<noteq> 0"
    and step_reliable: "stmts d h = Some c \<Longrightarrow> restart c = Some q \<Longrightarrow>
      sql_run q (tabs d) rows t' \<Longrightarrow> fst (sq_step E h d) \<in> {SQLITE_ROW, SQLITE_DONE}"
    and row_reliable: "stmts d h = Some (AtRow q (tabs d) r rs) \<Longrightarrow>
      fst (sq_step E h d) \<in> {SQLITE_ROW, SQLITE_DONE}"
    and exec_reliable: "sql_run q (tabs d) rows t' \<Longrightarrow> fst (sq_exec E [q] d) = SQLITE_OK"

end
