(* ===== verification/Meta_Store.thy ===== *)
theory Meta_Store
  imports Sqlite_Api
begin

text \<open>
  \<open>src/metadata/meta.c\<close>: the record of which blocks of which files are cached. The state is
  the database connection and the two counters of \<open>meta.h\<close>; every function takes the SQLite
  interface \<open>E\<close> and the state and returns the C result with the new state. Messages to
  standard output are left out, every early return is kept.
\<close>

record 'db meta =
  metaDataBase :: 'db
  meta_block_size :: size_t
  cache_used_size :: size_t

section \<open>Counters\<close>

definition set_block_size :: "size_t \<Rightarrow> ('db, 'z) meta_scheme \<Rightarrow> ('db, 'z) meta_scheme" where
  "set_block_size blk_size m = m\<lparr>meta_block_size := blk_size\<rparr>"

definition get_cache_used_size :: "('db, 'z) meta_scheme \<Rightarrow> size_t" where
  "get_cache_used_size m = cache_used_size m"

definition str_to_num :: "string \<Rightarrow> size_t outcome" where
  "str_to_num str =
     (if str \<noteq> [] \<and> hd str = CHR ''-'' then Exit 1
      else case strtoul str of
             OutOfRange \<Rightarrow> Exit 1
           | NoDigits \<Rightarrow> Exit 1
           | Number val \<Rightarrow> Ret val)"

definition callback ::
  "(string \<times> string option) list \<Rightarrow> ('db, 'z) meta_scheme \<Rightarrow> ('db, 'z) meta_scheme outcome" where
  "callback row m =
     (if length row = 1 \<and> fst (hd row) = ''SUM(local_size)'' then
        (case snd (hd row) of
           None \<Rightarrow> Ret m
         | Some s \<Rightarrow> obind (str_to_num s) (\<lambda>n. Ret (m\<lparr>cache_used_size := n\<rparr>)))
      else Ret m)"

fun run_callbacks ::
  "(string \<times> string option) list list \<Rightarrow> ('db, 'z) meta_scheme \<Rightarrow> ('db, 'z) meta_scheme outcome"
where
  "run_callbacks [] m = Ret m"
| "run_callbacks (r # rs) m = obind (callback r m) (run_callbacks rs)"

definition init_cache_used_size ::
  "'db sqlite3 \<Rightarrow> ('db, 'z) meta_scheme \<Rightarrow> ('db, 'z) meta_scheme outcome" where
  "init_cache_used_size E m =
     (case sq_exec E [SumLocal] (metaDataBase m) of
        (ret, out, d) \<Rightarrow> run_callbacks out (m\<lparr>metaDataBase := d\<rparr>))"

section \<open>Opening\<close>

definition open_db ::
  "'db sqlite3 \<Rightarrow> string \<Rightarrow> ('db, 'z) meta_scheme \<Rightarrow> (int \<times> ('db, 'z) meta_scheme) outcome" where
  "open_db E db_name m =
     (case sq_open E db_name of
        (ret, d) \<Rightarrow>
          if ret \<noteq> SQLITE_OK then Exit 1
          else (case sq_exec E [ForeignKeysOn] d of
                  (ret, out, d) \<Rightarrow>
                    if ret \<noteq> SQLITE_OK then Ret (- 1, m\<lparr>metaDataBase := d\<rparr>)
                    else Ret (0, m\<lparr>metaDataBase := d\<rparr>)))"

definition create_tables ::
  "'db sqlite3 \<Rightarrow> ('db, 'z) meta_scheme \<Rightarrow> (int \<times> ('db, 'z) meta_scheme) outcome" where
  "create_tables E m =
     (case sq_exec E [CreateFiles, CreateDatablocks] (metaDataBase m) of
        (ret, out, d) \<Rightarrow>
          obind (run_callbacks out (m\<lparr>metaDataBase := d\<rparr>))
            (\<lambda>m. if ret \<noteq> SQLITE_OK then Ret (- 1, m) else Ret (0, m)))"

section \<open>Single statements\<close>

text \<open>
  The sequence prepare, bind, step, check for \<open>SQLITE_DONE\<close>, finalize, check for
  \<open>SQLITE_OK\<close> that every modifying function repeats. On a failed step the function returns
  before the statement is finalized.
\<close>

definition stmt_exec :: "'db sqlite3 \<Rightarrow> sql \<Rightarrow> 'db \<Rightarrow> int \<times> 'db" where
  "stmt_exec E q d =
     (case sq_prepare E q d of (stmt, d) \<Rightarrow>
      case sq_step E stmt d of (ret, d) \<Rightarrow>
        if ret \<noteq> SQLITE_DONE then (- 1, d)
        else (case sq_finalize E stmt d of (ret, d) \<Rightarrow>
                if ret \<noteq> SQLITE_OK then (- 1, d) else (0, d)))"

definition create_file ::
  "'db sqlite3 \<Rightarrow> string \<Rightarrow> size_t \<Rightarrow> ('db, 'z) meta_scheme \<Rightarrow> int \<times> ('db, 'z) meta_scheme" where
  "create_file E filename rsize m =
     (case stmt_exec E (InsertFile filename (c_int64 rsize)) (metaDataBase m) of
        (ret, d) \<Rightarrow> (ret, m\<lparr>metaDataBase := d\<rparr>))"

definition insert_block ::
  "'db sqlite3 \<Rightarrow> string \<Rightarrow> size_t \<Rightarrow> ('db, 'z) meta_scheme \<Rightarrow> int \<times> ('db, 'z) meta_scheme" where
  "insert_block E filename blk_offset m =
     (case stmt_exec E (InsertBlock (c_int64 blk_offset) filename) (metaDataBase m) of
        (ret, d) \<Rightarrow>
          if ret \<noteq> 0 then (- 1, m\<lparr>metaDataBase := d\<rparr>)
          else (case stmt_exec E (AddLocal (c_int64 (meta_block_size m)) filename) d of
                  (ret, d) \<Rightarrow>
                    if ret \<noteq> 0 then (- 1, m\<lparr>metaDataBase := d\<rparr>)
                    else (0, m\<lparr>metaDataBase := d,
                               cache_used_size := cache_used_size m + meta_block_size m\<rparr>)))"

fun insert_blocks ::
  "'db sqlite3 \<Rightarrow> string \<Rightarrow> size_t list \<Rightarrow> ('db, 'z) meta_scheme \<Rightarrow> int \<times> ('db, 'z) meta_scheme"
where
  "insert_blocks E filename [] m = (0, m)"
| "insert_blocks E filename (b # bs) m =
     insert_blocks E filename bs (snd (insert_block E filename b m))"

definition delete_file ::
  "'db sqlite3 \<Rightarrow> string \<Rightarrow> ('db, 'z) meta_scheme \<Rightarrow> int \<times> ('db, 'z) meta_scheme" where
  "delete_file E filename m =
     (case sq_prepare E (SelectLocal filename) (metaDataBase m) of (stmt, d) \<Rightarrow>
      case sq_step E stmt d of (ret, d) \<Rightarrow>
      (let used = cache_used_size m - word_of_int (sq_column_int64 E stmt 0 d);
           m = m\<lparr>cache_used_size := used\<rparr>
       in case sq_step E stmt d of (ret, d) \<Rightarrow>
          if ret \<noteq> SQLITE_DONE then (- 1, m\<lparr>metaDataBase := d\<rparr>)
          else (case sq_finalize E stmt d of (ret, d) \<Rightarrow>
                  if ret \<noteq> SQLITE_OK then (- 1, m\<lparr>metaDataBase := d\<rparr>)
                  else (case stmt_exec E (DeleteFile filename) d of (ret, d) \<Rightarrow>
                          (ret, m\<lparr>metaDataBase := d\<rparr>)))))"

definition delete_block ::
  "'db sqlite3 \<Rightarrow> string \<Rightarrow> size_t \<Rightarrow> ('db, 'z) meta_scheme \<Rightarrow> int \<times> ('db, 'z) meta_scheme" where
  "delete_block E filename blk_offset m =
     (case stmt_exec E (DeleteBlock (c_int64 blk_offset) filename) (metaDataBase m) of
        (ret, d) \<Rightarrow>
          if ret \<noteq> 0 then (- 1, m\<lparr>metaDataBase := d\<rparr>)
          else (case stmt_exec E (SubLocal (c_int64 (meta_block_size m)) filename) d of
                  (ret, d) \<Rightarrow>
                    if ret \<noteq> 0 then (- 1, m\<lparr>metaDataBase := d\<rparr>)
                    else (0, m\<lparr>metaDataBase := d,
                               cache_used_size := cache_used_size m - meta_block_size m\<rparr>)))"

fun delete_blocks ::
  "'db sqlite3 \<Rightarrow> string \<Rightarrow> size_t list \<Rightarrow> ('db, 'z) meta_scheme \<Rightarrow> int \<times> ('db, 'z) meta_scheme"
where
  "delete_blocks E filename [] m = (0, m)"
| "delete_blocks E filename (b # bs) m =
     delete_blocks E filename bs (snd (delete_block E filename b m))"

definition update_blk_time ::
  "'db sqlite3 \<Rightarrow> string \<Rightarrow> size_t \<Rightarrow> ('db, 'z) meta_scheme \<Rightarrow> int \<times> ('db, 'z) meta_scheme" where
  "update_blk_time E filename blk_offset m =
     (case stmt_exec E (TouchBlock (c_int64 blk_offset) filename) (metaDataBase m) of
        (ret, d) \<Rightarrow> (ret, m\<lparr>metaDataBase := d\<rparr>))"

definition update_lru_blk ::
  "'db sqlite3 \<Rightarrow> string \<Rightarrow> size_t \<Rightarrow> ('db, 'z) meta_scheme \<Rightarrow> int \<times> ('db, 'z) meta_scheme" where
  "update_lru_blk E filename blk_offset m = (0, m)"

section \<open>Cache hits\<close>

text \<open>
  The body that \<open>is_file_in_cache\<close> and \<open>is_blk_in_cache\<close> share: 1 when the query has exactly
  one row, 0 when it has none (returning before the statement is finalized), -1 on an error.
\<close>

definition row_exists :: "'db sqlite3 \<Rightarrow> sql \<Rightarrow> 'db \<Rightarrow> int \<times> 'db" where
  "row_exists E q d =
     (case sq_prepare E q d of (stmt, d) \<Rightarrow>
      case sq_step E stmt d of (ret, d) \<Rightarrow>
        if ret \<noteq> SQLITE_ROW then (if ret = SQLITE_DONE then (0, d) else (- 1, d))
        else (case sq_step E stmt d of (ret, d) \<Rightarrow>
                if ret \<noteq> SQLITE_DONE then (- 1, d)
                else (case sq_finalize E stmt d of (ret, d) \<Rightarrow>
                        if ret \<noteq> SQLITE_OK then (- 1, d) else (1, d))))"

definition is_file_in_cache ::
  "'db sqlite3 \<Rightarrow> string \<Rightarrow> ('db, 'z) meta_scheme \<Rightarrow> int \<times> ('db, 'z) meta_scheme" where
  "is_file_in_cache E filename m =
     (case row_exists E (SelectFileId filename) (metaDataBase m) of
        (ret, d) \<Rightarrow> (ret, m\<lparr>metaDataBase := d\<rparr>))"

definition is_blk_in_cache ::
  "'db sqlite3 \<Rightarrow> string \<Rightarrow> size_t \<Rightarrow> ('db, 'z) meta_scheme \<Rightarrow> int \<times> ('db, 'z) meta_scheme" where
  "is_blk_in_cache E filename blk_offset m =
     (case row_exists E (SelectBlockId (c_int64 blk_offset) filename) (metaDataBase m) of
        (ret, d) \<Rightarrow> (ret, m\<lparr>metaDataBase := d\<rparr>))"

text \<open>The result is \<open>total_hit\<close>, the array \<open>bool_arr\<close> and the state.\<close>

fun blocks_loop ::
  "'db sqlite3 \<Rightarrow> string \<Rightarrow> size_t list \<Rightarrow> int \<Rightarrow> ('db, 'z) meta_scheme \<Rightarrow>
     int \<times> int list \<times> ('db, 'z) meta_scheme"
where
  "blocks_loop E filename [] total_hit m = (total_hit, [], m)"
| "blocks_loop E filename (b # bs) total_hit m =
     (case is_blk_in_cache E filename b m of (hit, m) \<Rightarrow>
      case blocks_loop E filename bs (if hit = 0 then 0 else total_hit) m of
        (tot, arr, m) \<Rightarrow> (tot, hit # arr, m))"

definition are_blocks_in_cache ::
  "'db sqlite3 \<Rightarrow> string \<Rightarrow> size_t list \<Rightarrow> ('db, 'z) meta_scheme \<Rightarrow>
     int \<times> int list \<times> ('db, 'z) meta_scheme" where
  "are_blocks_in_cache E filename blk_arr m = blocks_loop E filename blk_arr 1 m"

fun write_loop ::
  "'db sqlite3 \<Rightarrow> string \<Rightarrow> (size_t \<times> int) list \<Rightarrow> ('db, 'z) meta_scheme \<Rightarrow> ('db, 'z) meta_scheme"
where
  "write_loop E filename [] m = m"
| "write_loop E filename ((b, hit) # bs) m =
     write_loop E filename bs
       (snd (if hit \<noteq> 0 then update_blk_time E filename b m else insert_block E filename b m))"

definition write_blks ::
  "'db sqlite3 \<Rightarrow> string \<Rightarrow> size_t list \<Rightarrow> ('db, 'z) meta_scheme \<Rightarrow> int \<times> ('db, 'z) meta_scheme" where
  "write_blks E filename blk_arr m =
     (case are_blocks_in_cache E filename blk_arr m of
        (total_hit, bool_arr, m) \<Rightarrow> (0, write_loop E filename (zip blk_arr bool_arr) m))"

section \<open>Eviction\<close>

text \<open>The three caller-allocated arrays; a \<open>None\<close> in \<open>ev_filenames\<close> is a NULL pointer.\<close>

record evict_arrays =
  ev_file_ids :: "int list"
  ev_filenames :: "string option list"
  ev_offsets :: "size_t list"

text \<open>
  \<open>malloc(sizeof(filename_on_stack))\<close> allocates the size of a pointer, 8 bytes, and \<open>strcpy\<close>
  copies the whole name into it.
\<close>

definition get_filename_from_fileid ::
  "'db sqlite3 \<Rightarrow> int \<Rightarrow> 'db \<Rightarrow> (int \<times> string option \<times> 'db) outcome" where
  "get_filename_from_fileid E fid d =
     (case sq_prepare E (SelectPath fid) d of (stmt, d) \<Rightarrow>
      case sq_step E stmt d of (ret, d) \<Rightarrow>
      obind (if ret = SQLITE_ROW
             then obind (c_strcpy 8 (sq_column_text E stmt 0 d)) (\<lambda>s. Ret (Some s))
             else Ret None)
        (\<lambda>filename.
           case sq_step E stmt d of (ret, d) \<Rightarrow>
             if ret \<noteq> SQLITE_DONE then Ret (- 1, filename, d)
             else (case sq_finalize E stmt d of (ret, d) \<Rightarrow>
                     if ret \<noteq> SQLITE_OK then Ret (- 1, filename, d)
                     else Ret (0, filename, d))))"

definition evict_row ::
  "'db sqlite3 \<Rightarrow> nat \<Rightarrow> nat \<Rightarrow> evict_arrays \<Rightarrow> 'db \<Rightarrow> (evict_arrays \<times> 'db) outcome" where
  "evict_row E stmt row a d =
     (if length (ev_offsets a) \<le> row \<or> length (ev_file_ids a) \<le> row then Crash BufferOverflow
      else
        let off = word_of_int (sq_column_int64 E stmt 0 d);
            fid = c_int (sq_column_int64 E stmt 1 d);
            a = a\<lparr>ev_offsets := (ev_offsets a)[row := off], ev_file_ids := (ev_file_ids a)[row := fid]\<rparr>
        in if fid < 0 \<or> int (length (ev_filenames a)) \<le> fid then Crash OverRead
           else if ev_filenames a ! nat fid \<noteq> None then Ret (a, d)
           else obind (get_filename_from_fileid E fid d)
             (\<lambda>(ret, filename, d).
                case filename of
                  None \<Rightarrow> Ret (a, d)
                | Some s \<Rightarrow>
                    if length (ev_filenames a) \<le> row then Crash BufferOverflow
                    else Ret (a\<lparr>ev_filenames := (ev_filenames a)[row := Some s]\<rparr>, d)))"

partial_function (option) evict_loop ::
  "'db sqlite3 \<Rightarrow> nat \<Rightarrow> nat \<Rightarrow> evict_arrays \<Rightarrow> 'db \<Rightarrow> (int \<times> evict_arrays \<times> 'db) outcome option"
where
  "evict_loop E stmt row a d =
     (case sq_step E stmt d of (ret, d) \<Rightarrow>
        if ret \<noteq> SQLITE_ROW then Some (Ret (ret, a, d))
        else (case evict_row E stmt row a d of
                Ret (a, d) \<Rightarrow> evict_loop E stmt (Suc row) a d
              | Crash c \<Rightarrow> Some (Crash c)
              | Exit n \<Rightarrow> Some (Exit n)
              | Hang \<Rightarrow> Some Hang))"

definition evict_blocks ::
  "'db sqlite3 \<Rightarrow> size_t \<Rightarrow> evict_arrays \<Rightarrow> ('db, 'z) meta_scheme \<Rightarrow>
     (int \<times> evict_arrays \<times> ('db, 'z) meta_scheme) outcome option" where
  "evict_blocks E num_blks a m =
     (case sq_prepare E (SelectOldest (c_int64 num_blks)) (metaDataBase m) of (stmt, d) \<Rightarrow>
      map_option (\<lambda>res. obind res
        (\<lambda>(ret, a, d).
           if ret \<noteq> SQLITE_DONE then Ret (- 1, a, m\<lparr>metaDataBase := d\<rparr>)
           else (case sq_finalize E stmt d of (ret, d) \<Rightarrow>
                   if ret \<noteq> SQLITE_OK then Ret (- 1, a, m\<lparr>metaDataBase := d\<rparr>)
                   else Ret (0, a, m\<lparr>metaDataBase := d\<rparr>))))
        (evict_loop E stmt 0 a d))"

end
