(* ===== verification/Cache_Tables.thy ===== *)
theory Cache_Tables
  imports Sqlite_Api
begin

text \<open>
  What the two tables mean: the set of files and the set of blocks that are recorded as
  cached, and the accounting of their sizes. Each successful statement is characterised by
  its effect on this abstract view; the component theories use only these facts.
\<close>

definition known :: "string \<Rightarrow> tables \<Rightarrow> bool" where
  "known p t = (path_id p t \<noteq> None)"

definition is_cached :: "string \<Rightarrow> int \<Rightarrow> tables \<Rightarrow> bool" where
  "is_cached p off t = list_ex (block_at off p t) (datablocks t)"

text \<open>The abstract cache: the files with a row and the blocks with a row.\<close>

definition cache_view :: "tables \<Rightarrow> string set \<times> (string \<times> int) set" where
  "cache_view t = ({p. known p t}, {(p, off). is_cached p off t})"

definition block_count :: "int \<Rightarrow> tables \<Rightarrow> int" where
  "block_count i t = int (length (filter (\<lambda>b. blk_file_id b = i) (datablocks t)))"

definition total_local :: "tables \<Rightarrow> int" where
  "total_local t = sum_list (map local_size (files t))"

text \<open>Every file is charged one block size for each of its blocks.\<close>

definition accounted :: "int \<Rightarrow> tables \<Rightarrow> bool" where
  "accounted bs t \<longleftrightarrow> (\<forall>f \<in> set (files t). local_size f = bs * block_count (file_id f) t)"

section \<open>Looking up a path\<close>

lemma wf_foreign_key:
  "wf_tables t \<Longrightarrow> b \<in> set (datablocks t) \<Longrightarrow> \<exists>f \<in> set (files t). file_id f = blk_file_id b"
  by (force simp: wf_tables_def)

lemma path_id_Some:
  assumes "wf_tables t"
  shows "path_id p t = Some i \<longleftrightarrow> (\<exists>f \<in> set (files t). relative_path f = p \<and> file_id f = i)"
proof
  assume "path_id p t = Some i"
  then show "\<exists>f \<in> set (files t). relative_path f = p \<and> file_id f = i"
    unfolding path_id_def find_Some_iff by (auto simp: find_Some_iff intro: nth_mem)
next
  assume "\<exists>f \<in> set (files t). relative_path f = p \<and> file_id f = i"
  then obtain f where f: "f \<in> set (files t)" "relative_path f = p" "file_id f = i"
    by blast
  then obtain g where g: "find (\<lambda>f. relative_path f = p) (files t) = Some g"
    by (cases "find (\<lambda>f. relative_path f = p) (files t)") (auto simp: find_None_iff)
  then have "g \<in> set (files t)" "relative_path g = p"
    by (auto simp: find_Some_iff)
  with f assms have "g = f"
    by (auto simp: wf_tables_def distinct_map inj_on_def)
  with f g show "path_id p t = Some i"
    by (simp add: path_id_def)
qed

lemma path_id_None: "path_id p t = None \<longleftrightarrow> (\<forall>f \<in> set (files t). relative_path f \<noteq> p)"
  by (auto simp: path_id_def find_None_iff)

lemma path_id_inj:
  "wf_tables t \<Longrightarrow> path_id p t = Some i \<Longrightarrow> path_id q t = Some i \<Longrightarrow> p = q"
  by (auto simp: path_id_Some) (metis (no_types) wf_tables_def distinct_map inj_on_def)

lemma known_iff: "known p t \<longleftrightarrow> (\<exists>f \<in> set (files t). relative_path f = p)"
  by (auto simp: known_def path_id_None)

lemma is_cached_iff:
  "is_cached p off t \<longleftrightarrow> (\<exists>i. path_id p t = Some i \<and> (off, i) \<in> block_key ` set (datablocks t))"
  by (force simp: is_cached_def list_ex_iff block_at_def block_key_def)

lemma cached_known: "is_cached p off t \<Longrightarrow> known p t"
  by (auto simp: is_cached_iff known_def)

lemma path_id_datablocks [simp]: "path_id p (t\<lparr>datablocks := bs\<rparr>) = path_id p t"
  by (simp add: path_id_def)

lemma known_datablocks [simp]: "known p (t\<lparr>datablocks := bs\<rparr>) = known p t"
  by (simp add: known_def)

section \<open>Insertions\<close>

lemma find_append:
  "find P (xs @ [x]) = (case find P xs of Some y \<Rightarrow> Some y | None \<Rightarrow> if P x then Some x else None)"
  by (induction xs) auto

lemma path_id_append:
  "path_id q (t\<lparr>files := files t @ [f]\<rparr>) =
     (case path_id q t of Some i \<Rightarrow> Some i
      | None \<Rightarrow> if relative_path f = q then Some (file_id f) else None)"
  by (auto simp: path_id_def find_append split: option.splits)

lemma run_insert_file:
  assumes "sql_run (InsertFile p n) t rs t'" "wf_tables t"
  shows "rs = []" "\<not> known p t" "wf_tables t'" "cache_view t' = (insert p (fst (cache_view t)), snd (cache_view t))"
    "foreign_keys t' = foreign_keys t" "accounted bs t \<Longrightarrow> accounted bs t'"
    "total_local t' = total_local t"
proof -
  from assms(1) obtain i where rs: "rs = []" and p: "p \<notin> relative_path ` set (files t)"
    and i: "i \<notin> file_id ` set (files t)"
    and t': "t' = t\<lparr>files := files t @
      [\<lparr>file_id = i, relative_path = p, remote_size = n, local_size = 0\<rparr>]\<rparr>"
    by (auto elim: run_insert_fileE)
  have orphan: "\<forall>b \<in> set (datablocks t). blk_file_id b \<noteq> i"
    using assms(2) i by (auto simp: wf_tables_def)
  show "rs = []" by fact
  show np: "\<not> known p t" using p by (auto simp: known_iff)
  show "wf_tables t'" using assms(2) p i by (auto simp: wf_tables_def t')
  have "known q t' \<longleftrightarrow> q = p \<or> known q t" for q
    by (auto simp: known_iff t')
  moreover have "is_cached q off t' \<longleftrightarrow> is_cached q off t" for q off
    using orphan np
    by (auto simp: is_cached_iff t' path_id_append block_key_def known_def split: option.splits)
  ultimately show "cache_view t' = (insert p (fst (cache_view t)), snd (cache_view t))"
    by (auto simp: cache_view_def)
  show "foreign_keys t' = foreign_keys t" by (simp add: t')
  show "accounted bs t'" if "accounted bs t"
    using that orphan by (auto simp: accounted_def t' block_count_def)
  show "total_local t' = total_local t" by (simp add: total_local_def t')
qed

lemma run_insert_block:
  assumes "sql_run (InsertBlock off p) t rs t'" "wf_tables t"
  shows "rs = []" "known p t" "\<not> is_cached p off t" "wf_tables t'"
    "cache_view t' = (fst (cache_view t), insert (p, off) (snd (cache_view t)))"
    "foreign_keys t' = foreign_keys t" "files t' = files t"
    "block_count i t' = (if path_id p t = Some i then 1 else 0) + block_count i t"
    "length (datablocks t') = Suc (length (datablocks t))"
proof -
  from assms(1) obtain j bid now where rs: "rs = []" and j: "path_id p t = Some j"
    and key: "(off, j) \<notin> block_key ` set (datablocks t)" and bid: "bid \<notin> block_id ` set (datablocks t)"
    and t': "t' = t\<lparr>datablocks := datablocks t @ [\<lparr>block_id = bid, blk_start_offset = off,
      valid = 1, timestamp = now, blk_file_id = j\<rparr>]\<rparr>"
    by (auto elim: run_insert_blockE)
  show "rs = []" by fact
  show "known p t" using j by (simp add: known_def)
  show "\<not> is_cached p off t" using j key by (auto simp: is_cached_iff)
  have "j \<in> file_id ` set (files t)"
    using j assms(2) by (auto simp: path_id_Some)
  then show "wf_tables t'" using assms(2) key bid by (auto simp: wf_tables_def t' block_key_def)
  have "is_cached q o' t' \<longleftrightarrow> is_cached q o' t \<or> q = p \<and> o' = off" for q o'
    using j assms(2) by (auto simp: is_cached_iff t' block_key_def dest: path_id_inj)
  then show "cache_view t' = (fst (cache_view t), insert (p, off) (snd (cache_view t)))"
    by (auto simp: cache_view_def t')
  show "foreign_keys t' = foreign_keys t" "files t' = files t" by (simp_all add: t')
  show "block_count i t' = (if path_id p t = Some i then 1 else 0) + block_count i t"
    using j by (auto simp: block_count_def t')
  show "length (datablocks t') = Suc (length (datablocks t))" by (simp add: t')
qed

section \<open>Deletions\<close>

lemma filter_at_most_one:
  assumes "distinct (map k xs)" "\<And>x. x \<in> set xs \<Longrightarrow> P x \<Longrightarrow> k x = c"
  shows "length (filter P xs) \<le> 1"
  using assms
proof (induction xs)
  case (Cons x xs)
  show ?case
  proof (cases "P x")
    case True
    have "\<not> P y" if "y \<in> set xs" for y
    proof
      assume "P y"
      with that True Cons.prems(2) have "k y = k x" by simp
      with that Cons.prems(1) show False by (metis distinct.simps(2) image_eqI list.simps(9) list.set_map)
    qed
    with True show ?thesis by (simp add: filter_empty_conv)
  next
    case False
    with Cons show ?thesis by simp
  qed
qed simp

lemma file_rows_le_1: "wf_tables t \<Longrightarrow> length (filter (\<lambda>f. relative_path f = p) (files t)) \<le> 1"
  by (rule filter_at_most_one [where k = relative_path and c = p]) (auto simp: wf_tables_def)

lemma id_rows_le_1: "wf_tables t \<Longrightarrow> length (filter (\<lambda>f. file_id f = i) (files t)) \<le> 1"
  by (rule filter_at_most_one [where k = file_id and c = i]) (auto simp: wf_tables_def)

lemma block_rows_le_1: "wf_tables t \<Longrightarrow> length (filter (block_at off p t) (datablocks t)) \<le> 1"
  by (rule filter_at_most_one [where k = block_key and c = "(off, the (path_id p t))"])
    (auto simp: wf_tables_def block_at_def block_key_def)

lemma file_rows_empty_iff: "filter (\<lambda>f. relative_path f = p) (files t) = [] \<longleftrightarrow> \<not> known p t"
  by (auto simp: known_iff filter_empty_conv)

lemma block_rows_empty_iff: "filter (block_at off p t) (datablocks t) = [] \<longleftrightarrow> \<not> is_cached p off t"
  by (auto simp: is_cached_def filter_empty_conv list_ex_iff)

lemma wf_tables_filter:
  assumes "wf_tables t" "\<forall>b \<in> set (datablocks t). Q b \<longrightarrow> (\<exists>f \<in> set (files t). P f \<and> file_id f = blk_file_id b)"
  shows "wf_tables (t\<lparr>files := filter P (files t), datablocks := filter Q (datablocks t)\<rparr>)"
  using assms by (fastforce simp: wf_tables_def distinct_map_filter image_iff subset_iff)

lemma delete_file_other:
  assumes "wf_tables t" "f \<in> set (files t)" "relative_path f \<noteq> p"
  shows "path_id p t \<noteq> Some (file_id f)"
  using assms path_id_inj [of t p "file_id f" "relative_path f"] path_id_Some by blast

lemma run_delete_file:
  assumes "sql_run (DeleteFile p) t rs t'" "wf_tables t" "foreign_keys t"
  shows "rs = []" "wf_tables t'" "foreign_keys t'"
    "cache_view t' = (fst (cache_view t) - {p}, {x \<in> snd (cache_view t). fst x \<noteq> p})"
    "accounted bs t \<Longrightarrow> accounted bs t'"
    "total_local t' =
       total_local t - sum_list (map local_size (filter (\<lambda>f. relative_path f = p) (files t)))"
proof -
  from assms have rs: "rs = []" and t': "t' = t\<lparr>files := filter (\<lambda>f. relative_path f \<noteq> p) (files t),
      datablocks := filter (\<lambda>b. path_id p t \<noteq> Some (blk_file_id b)) (datablocks t)\<rparr>"
    by (auto elim!: run_delete_fileE simp: delete_file_rows_def)
  note other = delete_file_other [OF assms(2)]
  show "rs = []" by fact
  show "foreign_keys t'" using assms(3) by (simp add: t')
  show wf: "wf_tables t'"
    unfolding t' using assms(2)
    by (rule wf_tables_filter) (use wf_foreign_key [OF assms(2)] path_id_Some [OF assms(2)] in fastforce)
  have fs: "set (files t') = {f \<in> set (files t). relative_path f \<noteq> p}"
    by (auto simp: t')
  have path: "path_id q t' = (if q = p then None else path_id q t)" for q
    by (rule option_eqI) (auto simp: path_id_Some [OF wf] path_id_Some [OF assms(2)] fs)
  have keys: "(o', i) \<in> block_key ` set (datablocks t') \<longleftrightarrow>
      (o', i) \<in> block_key ` set (datablocks t) \<and> path_id p t \<noteq> Some i" for o' i
    by (auto simp: t' block_key_def image_iff)
  have "is_cached q o' t' \<longleftrightarrow> q \<noteq> p \<and> is_cached q o' t" for q o'
    using path_id_inj [OF assms(2)] by (auto simp: is_cached_iff path keys)
  then show "cache_view t' = (fst (cache_view t) - {p}, {x \<in> snd (cache_view t). fst x \<noteq> p})"
    by (auto simp: cache_view_def known_def path)
  show "accounted bs t'" if "accounted bs t"
  proof -
    have "block_count (file_id f) t' = block_count (file_id f) t"
      if "f \<in> set (files t)" "relative_path f \<noteq> p" for f
      using other [OF that] by (auto simp: block_count_def t' intro!: arg_cong [where f = length] filter_cong)
    with that show ?thesis by (auto simp: accounted_def t')
  qed
  show "total_local t' =
      total_local t - sum_list (map local_size (filter (\<lambda>f. relative_path f = p) (files t)))"
    by (simp add: total_local_def t' sum_list_filter_not)
qed

lemma run_delete_block:
  assumes "sql_run (DeleteBlock off p) t rs t'" "wf_tables t"
  shows "rs = []" "wf_tables t'" "foreign_keys t' = foreign_keys t" "files t' = files t"
    "cache_view t' = (fst (cache_view t), snd (cache_view t) - {(p, off)})"
    "block_count i t' =
       block_count i t - (if is_cached p off t \<and> path_id p t = Some i then 1 else 0)"
proof -
  from assms have rs: "rs = []"
    and t': "t' = t\<lparr>datablocks := filter (\<lambda>b. \<not> block_at off p t b) (datablocks t)\<rparr>"
    by (auto elim!: run_delete_blockE)
  show "rs = []" by fact
  show "foreign_keys t' = foreign_keys t" "files t' = files t" by (simp_all add: t')
  have "wf_tables (t\<lparr>files := filter (\<lambda>f. True) (files t),
      datablocks := filter (\<lambda>b. \<not> block_at off p t b) (datablocks t)\<rparr>)"
    using assms(2) by (rule wf_tables_filter) (use wf_foreign_key [OF assms(2)] in auto)
  then show "wf_tables t'" by (simp add: t')
  have "is_cached q o' t' \<longleftrightarrow> is_cached q o' t \<and> (q, o') \<noteq> (p, off)" for q o'
    using path_id_inj [OF assms(2)] by (auto simp: is_cached_def list_ex_iff t' block_at_def)
  then show "cache_view t' = (fst (cache_view t), snd (cache_view t) - {(p, off)})"
    by (auto simp: cache_view_def t')
  have "length (filter (\<lambda>b. blk_file_id b = i) (filter (\<lambda>b. \<not> Q b) bs)) +
      length (filter (\<lambda>b. blk_file_id b = i) (filter Q bs)) = length (filter (\<lambda>b. blk_file_id b = i) bs)"
    for Q bs
    by (induction bs) auto
  from this [of "block_at off p t" "datablocks t"]
  have split: "block_count i t' +
      int (length (filter (\<lambda>b. blk_file_id b = i) (filter (block_at off p t) (datablocks t)))) = block_count i t"
    unfolding block_count_def t' by (simp flip: of_nat_add)
  have part: "filter (\<lambda>b. blk_file_id b = i) (filter (block_at off p t) (datablocks t)) =
      (if path_id p t = Some i then filter (block_at off p t) (datablocks t) else [])"
    by (auto simp: block_at_def filter_empty_conv intro!: filter_cong)
  have one: "int (length (filter (block_at off p t) (datablocks t))) = (if is_cached p off t then 1 else 0)"
    using block_rows_le_1 [OF assms(2), of off p] block_rows_empty_iff [of off p t]
    by (cases "filter (block_at off p t) (datablocks t)") auto
  show "block_count i t' =
      block_count i t - (if is_cached p off t \<and> path_id p t = Some i then 1 else 0)"
    using split one unfolding part by (auto split: if_split_asm)
qed

section \<open>Updates\<close>

lemma path_id_map:
  "(\<And>f. relative_path (h f) = relative_path f) \<Longrightarrow> (\<And>f. file_id (h f) = file_id f) \<Longrightarrow>
     path_id q (t\<lparr>files := map h (files t)\<rparr>) = path_id q t"
proof -
  assume h: "\<And>f. relative_path (h f) = relative_path f" "\<And>f. file_id (h f) = file_id f"
  have "map_option file_id (find (\<lambda>f. relative_path f = q) (map h fs)) =
      map_option file_id (find (\<lambda>f. relative_path f = q) fs)" for fs
    by (induction fs) (auto simp: h)
  then show ?thesis by (simp add: path_id_def)
qed

lemma set_local_frame [simp]:
  "path_id q (set_local p g t) = path_id q t" "datablocks (set_local p g t) = datablocks t"
  "foreign_keys (set_local p g t) = foreign_keys t"
  "block_count i (set_local p g t) = block_count i t"
  "map relative_path (files (set_local p g t)) = map relative_path (files t)"
  "map file_id (files (set_local p g t)) = map file_id (files t)"
  by (auto simp: set_local_def path_id_map block_count_def)

lemma set_local_view [simp]: "cache_view (set_local p g t) = cache_view t"
  by (auto simp: cache_view_def known_def is_cached_iff)

lemma accounted_set_local:
  "accounted n (set_local p g t) \<longleftrightarrow> (\<forall>f \<in> set (files t).
     (if relative_path f = p then g (local_size f) else local_size f) = n * block_count (file_id f) t)"
proof -
  let ?h = "\<lambda>f. if relative_path f = p then f\<lparr>local_size := g (local_size f)\<rparr> else f"
  have "files (set_local p g t) = map ?h (files t)"
    by (simp add: set_local_def)
  then have "set (files (set_local p g t)) = ?h ` set (files t)"
    by (simp only: set_map)
  then have acc: "accounted n (set_local p g t) \<longleftrightarrow>
      (\<forall>f \<in> set (files t). local_size (?h f) = n * block_count (file_id (?h f)) t)"
    by (simp only: accounted_def ball_simps(9) set_local_frame(4))
  show ?thesis
    unfolding acc by (rule ball_cong) auto
qed

lemma same_path_same_file:
  "wf_tables t \<Longrightarrow> f \<in> set (files t) \<Longrightarrow> f' \<in> set (files t) \<Longrightarrow>
     file_id f' = file_id f \<longleftrightarrow> relative_path f' = relative_path f"
  by (auto simp: wf_tables_def distinct_map inj_on_def)

lemma path_id_file: "wf_tables t \<Longrightarrow> f \<in> set (files t) \<Longrightarrow> path_id (relative_path f) t = Some (file_id f)"
  by (auto simp: path_id_Some)

lemma wf_set_local: "wf_tables t \<Longrightarrow> wf_tables (set_local p g t)"
proof -
  have "file_id ` set (files (set_local p g t)) = file_id ` set (files t)"
    by (metis list.set_map set_local_frame(6))
  then show "wf_tables t \<Longrightarrow> wf_tables (set_local p g t)"
    by (simp add: wf_tables_def)
qed

lemma total_set_local:
  assumes "wf_tables t" "f \<in> set (files t)" "relative_path f = p"
  shows "total_local (set_local p g t) = total_local t + (g (local_size f) - local_size f)"
  using assms sum_list_update_key [of relative_path "files t" f local_size
    "\<lambda>f. if relative_path f = p then f\<lparr>local_size := g (local_size f)\<rparr> else f"]
  by (simp add: total_local_def set_local_def wf_tables_def comp_def)

end
