(* ===== verification/Sqlite_Engine.thy ===== *)
theory Sqlite_Engine
  imports Sqlite_Api
begin

text \<open>
  An executable engine that obeys the interface laws, so that they are satisfiable and every
  property can be run. A connection keeps the tables, the open statements, a clock for
  \<open>DATETIME('now')\<close> and a list of faults: result codes that the next steps return instead of
  running (0 is no fault). With the flag off the faults are ignored, which makes the engine reliable.
\<close>

record tdb =
  td_tables :: tables
  td_stmts :: "(nat \<times> cursor) list"
  td_now :: int
  td_faults :: "int list"

definition fresh_id :: "int list \<Rightarrow> int" where
  "fresh_id xs = 1 + fold max xs 0"

definition fresh_handle :: "(nat \<times> cursor) list \<Rightarrow> nat" where
  "fresh_handle l = Suc (fold max (map fst l) 0)"

fun sql_eval :: "int \<Rightarrow> sql \<Rightarrow> tables \<Rightarrow> (sqlval list list \<times> tables) option" where
  "sql_eval now CreateFiles t =
     (if has_files t then None else Some ([], t\<lparr>has_files := True, files := []\<rparr>))"
| "sql_eval now CreateDatablocks t =
     (if has_datablocks t then None else Some ([], t\<lparr>has_datablocks := True, datablocks := []\<rparr>))"
| "sql_eval now ForeignKeysOn t = Some ([], t\<lparr>foreign_keys := True\<rparr>)"
| "sql_eval now (InsertFile p n) t =
     (if \<not> has_files t \<or> p \<in> set (map relative_path (files t)) then None
      else Some ([], t\<lparr>files := files t @
        [\<lparr>file_id = fresh_id (map file_id (files t)), relative_path = p, remote_size = n, local_size = 0\<rparr>]\<rparr>))"
| "sql_eval now (InsertBlock off p) t =
     (case path_id p t of None \<Rightarrow> None
      | Some i \<Rightarrow>
         if \<not> has_datablocks t \<or> (off, i) \<in> set (map block_key (datablocks t)) then None
         else Some ([], t\<lparr>datablocks := datablocks t @
           [\<lparr>block_id = fresh_id (map block_id (datablocks t)), blk_start_offset = off, valid = 1,
             timestamp = now, blk_file_id = i\<rparr>]\<rparr>))"
| "sql_eval now (AddLocal n p) t =
     (if has_files t then Some ([], set_local p (\<lambda>x. x + n) t) else None)"
| "sql_eval now (SubLocal n p) t =
     (if has_files t then Some ([], set_local p (\<lambda>x. x - n) t) else None)"
| "sql_eval now (SelectLocal p) t =
     (if has_files t then
        Some (map (\<lambda>f. [VInt (local_size f)]) (filter (\<lambda>f. relative_path f = p) (files t)), t)
      else None)"
| "sql_eval now (DeleteFile p) t =
     (if has_files t then Some ([], delete_file_rows p t) else None)"
| "sql_eval now (DeleteBlock off p) t =
     (if has_datablocks t then
        Some ([], t\<lparr>datablocks := filter (\<lambda>b. \<not> block_at off p t b) (datablocks t)\<rparr>)
      else None)"
| "sql_eval now (SelectFileId p) t =
     (if has_files t then
        Some (map (\<lambda>f. [VInt (file_id f)]) (filter (\<lambda>f. relative_path f = p) (files t)), t)
      else None)"
| "sql_eval now (SelectBlockId off p) t =
     (if has_datablocks t then
        Some (map (\<lambda>b. [VInt (block_id b)]) (filter (block_at off p t) (datablocks t)), t)
      else None)"
| "sql_eval now (TouchBlock off p) t =
     (if has_datablocks t then Some ([], touch_rows off p now t) else None)"
| "sql_eval now (SelectOldest n) t =
     (if has_datablocks t then
        Some (let bs = sort_key timestamp (datablocks t)
          in map (\<lambda>b. [VInt (blk_start_offset b), VInt (blk_file_id b)])
               (if n < 0 then bs else take (nat n) bs), t)
      else None)"
| "sql_eval now (SelectPath i) t =
     (if has_files t then
        Some (map (\<lambda>f. [VText (relative_path f)]) (filter (\<lambda>f. file_id f = i) (files t)), t)
      else None)"
| "sql_eval now SumLocal t =
     (if \<not> has_files t then None
      else if files t = [] then Some ([[VNull]], t)
      else if in_int64 (sum_list (map local_size (files t)))
        then Some ([[VInt (sum_list (map local_size (files t)))]], t) else None)"

definition td_lookup :: "tdb \<Rightarrow> nat \<Rightarrow> cursor option" where
  "td_lookup d h = (if h = 0 then None else map_of (td_stmts d) h)"

definition td_put :: "nat \<Rightarrow> cursor \<Rightarrow> tdb \<Rightarrow> tdb" where
  "td_put h c d = d\<lparr>td_stmts := AList.update h c (td_stmts d)\<rparr>"

definition td_prepare :: "sql \<Rightarrow> tdb \<Rightarrow> nat \<times> tdb" where
  "td_prepare q d = (let h = fresh_handle (td_stmts d) in (h, td_put h (Ready q) d))"

definition is_fault :: "int \<Rightarrow> bool" where
  "is_fault rc = (rc \<noteq> 0 \<and> rc \<noteq> SQLITE_ROW \<and> rc \<noteq> SQLITE_DONE)"

fun td_run :: "nat \<Rightarrow> cursor \<Rightarrow> tdb \<Rightarrow> int \<times> tdb" where
  "td_run h (AtRow q t r []) d = (SQLITE_DONE, td_put h (Finished q) d)"
| "td_run h (AtRow q t r (r' # rs)) d = (SQLITE_ROW, td_put h (AtRow q t r' rs) d)"
| "td_run h c d =
     (case sql_eval (td_now d) (cursor_sql c) (td_tables d) of
        None \<Rightarrow> (19, td_put h (Failed (cursor_sql c)) d)
      | Some ([], t) \<Rightarrow> (SQLITE_DONE, td_put h (Finished (cursor_sql c)) (d\<lparr>td_tables := t\<rparr>))
      | Some (r # rs, t) \<Rightarrow>
          (SQLITE_ROW, td_put h (AtRow (cursor_sql c) t r rs) (d\<lparr>td_tables := t\<rparr>)))"

definition td_step :: "bool \<Rightarrow> nat \<Rightarrow> tdb \<Rightarrow> int \<times> tdb" where
  "td_step faulty h d =
     (case td_lookup d h of
        None \<Rightarrow> (SQLITE_MISUSE, d)
      | Some c \<Rightarrow>
          (let d' = d\<lparr>td_faults := tl (td_faults d)\<rparr>
           in if faulty \<and> td_faults d \<noteq> [] \<and> is_fault (hd (td_faults d))
              then (hd (td_faults d), td_put h (Failed (cursor_sql c)) d')
              else td_run h c d'))"

definition td_finalize :: "nat \<Rightarrow> tdb \<Rightarrow> int \<times> tdb" where
  "td_finalize h d =
     ((case td_lookup d h of Some (Failed q) \<Rightarrow> 1 | _ \<Rightarrow> SQLITE_OK),
      d\<lparr>td_stmts := AList.delete h (td_stmts d)\<rparr>)"

fun td_row :: "cursor option \<Rightarrow> nat \<Rightarrow> sqlval" where
  "td_row (Some (AtRow q t r rs)) i = (if i < length r then r ! i else VNull)"
| "td_row c i = VNull"

definition td_column_int64 :: "nat \<Rightarrow> nat \<Rightarrow> tdb \<Rightarrow> int" where
  "td_column_int64 h i d = (case td_row (td_lookup d h) i of VInt x \<Rightarrow> x | _ \<Rightarrow> 0)"

definition td_column_text :: "nat \<Rightarrow> nat \<Rightarrow> tdb \<Rightarrow> string" where
  "td_column_text h i d = (case td_row (td_lookup d h) i of VText s \<Rightarrow> s | _ \<Rightarrow> [])"

fun td_exec :: "sql list \<Rightarrow> tdb \<Rightarrow> int \<times> (string \<times> string option) list list \<times> tdb" where
  "td_exec [] d = (SQLITE_OK, [], d)"
| "td_exec (q # qs) d =
     (case sql_eval (td_now d) q (td_tables d) of
        None \<Rightarrow> (1, [], d)
      | Some (rows, t) \<Rightarrow>
          (case td_exec qs (d\<lparr>td_tables := t\<rparr>) of
             (rc, out, d') \<Rightarrow> (rc, callback_rows q rows @ out, d')))"

definition no_tables :: tables where
  "no_tables = \<lparr>files = [], datablocks = [], has_files = False, has_datablocks = False,
     foreign_keys = False\<rparr>"

definition td_open :: "string \<Rightarrow> int \<times> tdb" where
  "td_open name = (SQLITE_OK,
     \<lparr>td_tables = no_tables, td_stmts = [], td_now = 0, td_faults = []\<rparr>)"

definition tdb_engine :: "bool \<Rightarrow> tdb sqlite3" where
  "tdb_engine faulty =
     \<lparr>sq_open = td_open, sq_exec = td_exec, sq_prepare = td_prepare, sq_step = td_step faulty,
      sq_column_int64 = td_column_int64, sq_column_text = td_column_text,
      sq_finalize = td_finalize\<rparr>"

section \<open>The engine obeys the laws\<close>

lemma fold_max_ge: "x \<in> set xs \<Longrightarrow> x \<le> fold max xs (a :: 'a :: linorder)" 
  and fold_max_ge_init: "a \<le> fold max xs (a :: 'a :: linorder)"
proof (induction xs arbitrary: a)
  case (Cons y ys)
  { case 1
    then show ?case using Cons.IH [of "max y a"] by (fastforce intro: order_trans [of _ "max y a"])
  next
    case 2
    show ?case using Cons.IH(2) [of "max y a"] by (auto intro: order_trans)
  }
qed simp_all

lemma fresh_id_new: "fresh_id xs \<notin> set xs"
  using fold_max_ge [of "fresh_id xs" xs 0] by (auto simp: fresh_id_def)

lemma fresh_handle_new: "map_of l (fresh_handle l) = None" "fresh_handle l \<noteq> 0"
proof -
  have "fresh_handle l \<notin> fst ` set l"
    using fold_max_ge [of "fresh_handle l" "map fst l" 0] by (auto simp: fresh_handle_def)
  then show "map_of l (fresh_handle l) = None"
    by (simp add: map_of_eq_None_iff)
qed (simp add: fresh_handle_def)

lemma fresh_id_image [simp]: "fresh_id (map f xs) \<notin> f ` set xs"
  using fresh_id_new [of "map f xs"] by simp

lemma sql_eval_oldest: "sql_eval now (SelectOldest n) t = Some (rows, t') \<Longrightarrow>
    sql_run (SelectOldest n) t rows t'"
  using sql_run.select_oldest [of t "sort_key timestamp (datablocks t)" n]
  by (simp add: Let_def split: if_split_asm)

lemma sql_eval_inserts:
  "sql_eval now (InsertFile p n) t = Some (rows, t') \<Longrightarrow> sql_run (InsertFile p n) t rows t'"
  "sql_eval now (InsertBlock off p) t = Some (rows, t') \<Longrightarrow> sql_run (InsertBlock off p) t rows t'"
  using sql_run.insert_file [of t p "fresh_id (map file_id (files t))" n]
    sql_run.insert_block [of t p _ off "fresh_id (map block_id (datablocks t))" now]
  by (auto split: if_splits option.splits)

lemma sql_eval_run: "sql_eval now q t = Some (rows, t') \<Longrightarrow> sql_run q t rows t'"
  by (cases q)
    (auto simp del: sql_eval.simps(4,5,14) intro: sql_eval_inserts sql_eval_oldest
      intro!: sql_run.intros split: if_split_asm)

text \<open>Whenever the documented behaviour lets a statement succeed, the engine runs it.\<close>

lemma sql_run_eval: "sql_run q t rows t' \<Longrightarrow> sql_eval now q t \<noteq> None"
  by (induction rule: sql_run.induct) auto

lemma td_lookup_put [simp]: "h \<noteq> 0 \<Longrightarrow> td_lookup (td_put h c d) = (td_lookup d)(h \<mapsto> c)"
  by (auto simp: td_lookup_def td_put_def AList.update_conv')

lemma td_lookup_cong [simp]:
  "td_lookup (d\<lparr>td_tables := t\<rparr>) = td_lookup d" "td_lookup (d\<lparr>td_faults := fs\<rparr>) = td_lookup d"
  by (auto simp: td_lookup_def)

lemma td_lookup_nz: "td_lookup d h = Some c \<Longrightarrow> h \<noteq> 0"
  by (auto simp: td_lookup_def split: if_splits)

lemma td_tables_put [simp]: "td_tables (td_put h c d) = td_tables d"
  by (simp add: td_put_def)

lemma td_run_restart:
  "restart c = Some q \<Longrightarrow> td_run h c d =
     (case sql_eval (td_now d) q (td_tables d) of
        None \<Rightarrow> (19, td_put h (Failed q) d)
      | Some ([], t) \<Rightarrow> (SQLITE_DONE, td_put h (Finished q) (d\<lparr>td_tables := t\<rparr>))
      | Some (r # rs, t) \<Rightarrow> (SQLITE_ROW, td_put h (AtRow q t r rs) (d\<lparr>td_tables := t\<rparr>)))"
  by (cases c) (auto split: option.splits list.splits prod.splits)

lemma td_run_step:
  assumes "td_run h c d = (rc, d')" "h \<noteq> 0" "undisturbed c (td_tables d)"
  shows "\<exists>c'. cursor_step c (td_tables d) rc c' (td_tables d') \<and> td_lookup d' = (td_lookup d)(h \<mapsto> c')"
proof (cases "restart c")
  case None
  then obtain q t r rs where "c = AtRow q t r rs"
    by (cases c) auto
  with assms show ?thesis
    by (cases rs) (auto intro: cursor_step.intros)
next
  case (Some q)
  then show ?thesis
  proof (cases "sql_eval (td_now d) q (td_tables d)")
    case None
    with Some assms show ?thesis
      using cursor_step.step_fail [of 19 c] by (auto simp: td_run_restart restart_cursor_sql)
  next
    case (Some x)
    obtain rows t where x: "x = (rows, t)" by (cases x)
    with Some have "sql_run q (td_tables d) rows t"
      by (simp add: sql_eval_run)
    with Some x assms \<open>restart c = Some q\<close> show ?thesis
      by (cases rows) (auto simp: td_run_restart intro: cursor_step.intros)
  qed
qed

lemma td_step_law:
  assumes "td_step faulty h d = (rc, d')" "td_lookup d h = Some c" "undisturbed c (td_tables d)"
  shows "\<exists>c'. cursor_step c (td_tables d) rc c' (td_tables d') \<and> td_lookup d' = (td_lookup d)(h \<mapsto> c')"
proof -
  let ?d = "d\<lparr>td_faults := tl (td_faults d)\<rparr>"
  from assms(2) have h: "h \<noteq> 0" by (rule td_lookup_nz)
  show ?thesis
  proof (cases "faulty \<and> td_faults d \<noteq> [] \<and> is_fault (hd (td_faults d))")
    case True
    with assms h show ?thesis
      by (auto simp: td_step_def Let_def is_fault_def intro: cursor_step.step_fail)
  next
    case False
    with assms have "td_run h c ?d = (rc, d')"
      by (auto simp: td_step_def Let_def)
    from td_run_step [OF this h] assms(3) show ?thesis by simp
  qed
qed

lemma td_exec_law:
  "td_exec qs d = (rc, out, d') \<Longrightarrow> exec_run qs (td_tables d) rc out (td_tables d') \<and>
     td_lookup d' = td_lookup d"
proof (induction qs arbitrary: d rc out d')
  case Nil
  then show ?case by (auto intro: exec_run.intros)
next
  case (Cons q qs)
  show ?case
  proof (cases "sql_eval (td_now d) q (td_tables d)")
    case None
    with Cons.prems show ?thesis by (auto intro: exec_run.intros)
  next
    case (Some x)
    obtain rows t where x: "x = (rows, t)" by (cases x)
    obtain rc' out' d'' where e: "td_exec qs (d\<lparr>td_tables := t\<rparr>) = (rc', out', d'')"
      by (cases "td_exec qs (d\<lparr>td_tables := t\<rparr>)") auto
    have "sql_run q (td_tables d) rows t"
      using Some x by (simp add: sql_eval_run)
    with Cons.IH [OF e] Cons.prems Some x e show ?thesis
      by (auto intro: exec_run.exec_ok)
  qed
qed

interpretation td: sqlite_engine "tdb_engine faulty" td_tables td_lookup for faulty
proof (unfold_locales, goal_cases)
  case (2 q d h d')
  then show ?case
    using fresh_handle_new [of "td_stmts d"]
    by (auto simp: tdb_engine_def td_prepare_def Let_def td_lookup_def)
next
  case (3 d rc d')
  then show ?case by (auto simp: tdb_engine_def td_step_def td_lookup_def)
next
  case (4 h d rc d' c)
  then show ?case using td_step_law [of faulty h d rc d' c] by (simp add: tdb_engine_def)
next
  case (7 h d rc d' c)
  then have "h \<noteq> 0" by (auto dest: td_lookup_nz)
  with 7 show ?case
    by (auto simp: tdb_engine_def td_finalize_def td_lookup_def AList.delete_conv' fun_eq_iff
        split: cursor.splits option.splits)
next
  case (8 qs d rc out d')
  then show ?case using td_exec_law by (simp add: tdb_engine_def)
qed (auto simp: tdb_engine_def td_column_int64_def td_column_text_def td_lookup_def)

lemma td_step_reliable:
  assumes "td_lookup d h = Some c" "restart c = Some q" "sql_run q (td_tables d) rows t'"
  shows "fst (td_step False h d) \<in> {SQLITE_ROW, SQLITE_DONE}"
  using assms sql_run_eval [OF assms(3), of "td_now d"]
  by (auto simp: td_step_def Let_def td_run_restart split: list.splits)

interpretation rel: sqlite_reliable "tdb_engine False" td_tables td_lookup
proof (unfold_locales, goal_cases)
  case (1 d q)
  then show ?case
    by (simp add: tdb_engine_def td_prepare_def Let_def fresh_handle_new)
next
  case (2 d h c q rows t')
  then show ?case using td_step_reliable by (simp add: tdb_engine_def)
next
  case (3 d h q r rs)
  then show ?case by (cases rs) (simp_all add: tdb_engine_def td_step_def Let_def)
next
  case (4 q d rows t')
  then show ?case
    using sql_run_eval [OF 4, of "td_now d"] by (auto simp: tdb_engine_def)
qed

end
