(* ===== verification/Meta_Facts.thy ===== *)
theory Meta_Facts
  imports Meta_Store Cache_Tables Sqlite_Engine
begin

text \<open>
  What the functions of \<open>meta.c\<close> do, under the laws of the SQLite interface. Inside the
  locale the two statement idioms are characterised once: a modifying statement either takes
  effect and returns 0, or changes no table and returns -1; a query that should find one row
  answers 0 or 1 truthfully, or -1. The functions are then followed through every branch.
\<close>

section \<open>The invariant of the store\<close>

definition tables_of :: "('db \<Rightarrow> tables) \<Rightarrow> ('db, 'z) meta_scheme \<Rightarrow> tables" where
  "tables_of tabs m = tabs (metaDataBase m)"

definition view_of :: "('db \<Rightarrow> tables) \<Rightarrow> ('db, 'z) meta_scheme \<Rightarrow> string set \<times> (string \<times> int) set" where
  "view_of tabs m = cache_view (tables_of tabs m)"

text \<open>
  The tables satisfy their constraints with foreign keys enforced, every file is charged for
  its blocks, and \<open>cache_used_size\<close> is the sum of the charges.
\<close>

definition store_inv :: "('db \<Rightarrow> tables) \<Rightarrow> ('db, 'z) meta_scheme \<Rightarrow> bool" where
  "store_inv tabs m \<longleftrightarrow>
     wf_tables (tables_of tabs m) \<and> foreign_keys (tables_of tabs m) \<and>
     accounted (c_int64 (meta_block_size m)) (tables_of tabs m) \<and>
     cache_used_size m = word_of_int (total_local (tables_of tabs m))"

text \<open>The sizes stay within SQLite's 64-bit integers when \<open>k\<close> more blocks are recorded.\<close>

definition room_for :: "nat \<Rightarrow> ('db \<Rightarrow> tables) \<Rightarrow> ('db, 'z) meta_scheme \<Rightarrow> bool" where
  "room_for k tabs m \<longleftrightarrow> 0 \<le> c_int64 (meta_block_size m) \<and>
     c_int64 (meta_block_size m) * int (length (datablocks (tables_of tabs m)) + k) < 2 ^ 63"

lemma tables_of_simps [simp]:
  "tables_of tabs (m\<lparr>metaDataBase := d\<rparr>) = tabs d"
  "tables_of tabs (m\<lparr>cache_used_size := u\<rparr>) = tables_of tabs m"
  "tables_of tabs (m\<lparr>metaDataBase := d, cache_used_size := u\<rparr>) = tabs d"
  by (simp_all add: tables_of_def)

lemma accounted_bound:
  assumes "accounted n t" "f \<in> set (files t)" "0 \<le> n" "n * int (length (datablocks t) + k) < 2 ^ 63"
    "1 \<le> k"
  shows "in_int64 (local_size f + n)"
proof -
  have c: "0 \<le> block_count (file_id f) t" "block_count (file_id f) t \<le> int (length (datablocks t))"
    by (auto simp: block_count_def)
  have "local_size f + n = n * (block_count (file_id f) t + 1)"
    using assms by (simp add: accounted_def distrib_left)
  also have "\<dots> \<le> n * int (length (datablocks t) + k)"
    using assms c by (intro mult_left_mono) auto
  finally have "local_size f + n < 2 ^ 63"
    using assms(4) by linarith
  moreover have "0 \<le> local_size f"
    using assms(1,2,3) c by (simp add: accounted_def)
  ultimately show ?thesis
    using assms(3) by (simp add: in_int64_def)
qed

text \<open>A block row and its charge together keep the accounts.\<close>

lemma accounted_insert:
  assumes ins: "sql_run (InsertBlock off p) t rs t1" and add: "sql_run (AddLocal n p) t1 rs' t2"
    and wf: "wf_tables t" and acc: "accounted n t"
    and room: "0 \<le> n" "n * int (length (datablocks t) + k) < 2 ^ 63" "1 \<le> k"
  shows "accounted n t2" "total_local t2 = total_local t + n"
proof -
  note i = run_insert_block [OF ins wf]
  from add obtain g where g: "\<And>x. in_int64 (x + n) \<Longrightarrow> g x = x + n" and t2: "t2 = set_local p g t1"
    by (auto elim: run_add_localE)
  from i(2) obtain f where f: "f \<in> set (files t)" "relative_path f = p"
    by (auto simp: known_iff)
  have gl: "g (local_size f) = local_size f + n"
    using g accounted_bound [OF acc f(1) room] by blast
  have same: "f' = f" if "f' \<in> set (files t)" "relative_path f' = p" for f'
    using that f wf by (auto simp: wf_tables_def distinct_map inj_on_def)
  have "(if relative_path f' = p then g (local_size f') else local_size f') =
      n * block_count (file_id f') t1" if f': "f' \<in> set (files t)" for f'
  proof -
    have bc: "block_count (file_id f') t1 =
        (if relative_path f' = p then 1 else 0) + block_count (file_id f') t"
      using i(8) [of "file_id f'"] path_id_file [OF wf f(1)] same_path_same_file [OF wf f(1) f'] f(2)
      by auto
    have "local_size f' = n * block_count (file_id f') t"
      using acc f' by (simp add: accounted_def)
    with bc gl same [OF f'] show ?thesis by (auto simp: distrib_left)
  qed
  then show "accounted n t2"
    by (simp add: t2 accounted_set_local i(7))
  show "total_local t2 = total_local t + n"
    using total_set_local [of t1 f p g] f gl i(4,7) by (simp add: t2 total_local_def)
qed

lemma accounted_delete:
  assumes del: "sql_run (DeleteBlock off p) t rs t1" and sub: "sql_run (SubLocal n p) t1 rs' t2"
    and wf: "wf_tables t" and acc: "accounted n t" and cached: "is_cached p off t"
    and room: "0 \<le> n" "n * int (length (datablocks t) + k) < 2 ^ 63"
  shows "accounted n t2" "total_local t2 = total_local t - n"
proof -
  note d = run_delete_block [OF del wf]
  from sub obtain g where g: "\<And>x. in_int64 (x - n) \<Longrightarrow> g x = x - n" and t2: "t2 = set_local p g t1"
    by (auto elim: run_sub_localE)
  from cached_known [OF cached] obtain f where f: "f \<in> set (files t)" "relative_path f = p"
    by (auto simp: known_iff)
  have bc: "block_count (file_id f') t1 =
      block_count (file_id f') t - (if relative_path f' = p then 1 else 0)"
    if "f' \<in> set (files t)" for f'
    using d(6) [of "file_id f'"] path_id_file [OF wf f(1)] same_path_same_file [OF wf f(1) that] f(2)
      cached by auto
  have c: "0 \<le> block_count (file_id f) t1" "block_count (file_id f) t1 + 1 \<le> int (length (datablocks t))"
    using bc [OF f(1)] f(2) by (auto simp: block_count_def)
  have size: "local_size f = n * block_count (file_id f) t"
    using acc f by (simp add: accounted_def)
  with bc [OF f(1)] f(2) have "local_size f - n = n * block_count (file_id f) t1"
    by (simp add: right_diff_distrib)
  moreover have "n * block_count (file_id f) t1 \<le> n * int (length (datablocks t) + k)"
    using c room by (intro mult_left_mono) auto
  moreover have "0 \<le> n * block_count (file_id f) t1"
    using c room by simp
  ultimately have gl: "g (local_size f) = local_size f - n"
    using g room by (simp add: in_int64_def)
  have same: "f' = f" if "f' \<in> set (files t)" "relative_path f' = p" for f'
    using that f wf by (auto simp: wf_tables_def distinct_map inj_on_def)
  have "(if relative_path f' = p then g (local_size f') else local_size f') =
      n * block_count (file_id f') t1" if f': "f' \<in> set (files t)" for f'
  proof -
    have "local_size f' = n * block_count (file_id f') t"
      using acc f' by (simp add: accounted_def)
    with bc [OF f'] gl same [OF f'] show ?thesis by (auto simp: right_diff_distrib)
  qed
  then show "accounted n t2"
    by (simp add: t2 accounted_set_local d(4))
  show "total_local t2 = total_local t - n"
    using total_set_local [of t1 f p g] f gl d(2,4) by (simp add: t2 total_local_def)
qed

section \<open>The two statement idioms\<close>

definition no_rows :: "sql \<Rightarrow> bool" where
  "no_rows q \<longleftrightarrow> (\<forall>t rs t'. sql_run q t rs t' \<longrightarrow> rs = [])"

lemma dml_rows:
  "no_rows (InsertFile p n)" "no_rows (InsertBlock off p)" "no_rows (AddLocal n p)"
  "no_rows (SubLocal n p)" "no_rows (DeleteFile p)" "no_rows (DeleteBlock off p)"
  "no_rows (TouchBlock off p)"
  unfolding no_rows_def
  by (blast elim: run_insert_fileE run_insert_blockE run_add_localE run_sub_localE
      run_delete_fileE run_delete_blockE run_touch_blockE)+

context sqlite_engine
begin

text \<open>A modifying statement is atomic; a failed one leaves at most one statement open.\<close>

lemma stmt_exec_cases:
  assumes exec: "stmt_exec E q d = (r, d')" and no_rows: "no_rows q"
  shows "r = 0 \<and> sql_run q (tabs d) [] (tabs d') \<and> stmts d' = stmts d \<or>
     r = - 1 \<and> tabs d' = tabs d \<and>
       (stmts d' = stmts d \<or> (\<exists>h. stmts d h = None \<and> stmts d' = (stmts d)(h \<mapsto> Failed q)))"
proof -
  obtain h d1 where p: "sq_prepare E q d = (h, d1)" by fastforce
  obtain rc d2 where s: "sq_step E h d1 = (rc, d2)" by fastforce
  obtain rc' d3 where f: "sq_finalize E h d2 = (rc', d3)" by fastforce
  note pl = prepare_law [OF p]
  show ?thesis
  proof (cases "h = 0")
    case True
    with s have "rc \<noteq> SQLITE_DONE" "tabs d2 = tabs d1" "stmts d2 = stmts d1"
      using step_null by blast+
    with exec p s pl True show ?thesis by (simp add: stmt_exec_def)
  next
    case False
    with pl have h: "stmts d h = None" "stmts d1 = (stmts d)(h \<mapsto> Ready q)" "tabs d1 = tabs d"
      by auto
    then obtain c where c: "cursor_step (Ready q) (tabs d) rc c (tabs d2)"
      and st: "stmts d2 = (stmts d)(h \<mapsto> c)"
      using step_law [OF s, of "Ready q"] by auto
    from c show ?thesis
    proof cases
      case (start_row q' r' rs)
      then show ?thesis using no_rows by (fastforce simp: no_rows_def)
    next
      case (start_done q')
      with f st have "tabs d3 = tabs d2" "stmts d3 = stmts d" "rc' = SQLITE_OK"
        using finalize_law [OF f, of c] h by (auto simp: fun_upd_idem)
      with exec p s f start_done show ?thesis by (simp add: stmt_exec_def)
    next
      case step_fail
      with exec p s st h show ?thesis by (auto simp: stmt_exec_def)
    qed
  qed
qed

lemma stmt_exec_Done:
  assumes "stmt_exec E q d = (r, d')" "no_rows q" "r \<noteq> - 1"
  shows "r = 0" "sql_run q (tabs d) [] (tabs d')" "stmts d' = stmts d"
  using stmt_exec_cases [OF assms(1,2)] assms(3) by auto

lemma stmt_exec_Fail:
  assumes "stmt_exec E q d = (r, d')" "no_rows q" "r \<noteq> 0"
  shows "r = - 1" "tabs d' = tabs d"
  using stmt_exec_cases [OF assms(1,2)] assms(3) by auto

text \<open>
  A query for the existence of one row: it changes no table, answers truthfully or -1, and
  leaves its statement open exactly when the answer is not 1.
\<close>

lemma row_exists_cases:
  assumes query: "row_exists E q d = (r, d')"
    and rows: "\<And>rs t'. sql_run q (tabs d) rs t' \<Longrightarrow> rs = R \<and> t' = tabs d"
    and one: "length R \<le> 1"
  shows "tabs d' = tabs d \<and>
     (r = 1 \<and> R \<noteq> [] \<and> stmts d' = stmts d \<or>
      r = 0 \<and> R = [] \<and> (\<exists>h. stmts d h = None \<and> stmts d' = (stmts d)(h \<mapsto> Finished q)) \<or>
      r = - 1)"
proof -
  obtain h d1 where p: "sq_prepare E q d = (h, d1)" by fastforce
  obtain rc d2 where s: "sq_step E h d1 = (rc, d2)" by fastforce
  obtain rc' d3 where s': "sq_step E h d2 = (rc', d3)" by fastforce
  obtain rc'' d4 where f: "sq_finalize E h d3 = (rc'', d4)" by fastforce
  note pl = prepare_law [OF p]
  show ?thesis
  proof (cases "h = 0")
    case True
    with s have "rc \<noteq> SQLITE_ROW" "rc \<noteq> SQLITE_DONE" "tabs d2 = tabs d1"
      using step_null by blast+
    with query p s pl True show ?thesis by (simp add: row_exists_def)
  next
    case False
    with pl have h: "stmts d h = None" "stmts d1 = (stmts d)(h \<mapsto> Ready q)" "tabs d1 = tabs d"
      by auto
    then obtain c where c: "cursor_step (Ready q) (tabs d) rc c (tabs d2)"
      and st: "stmts d2 = (stmts d)(h \<mapsto> c)"
      using step_law [OF s, of "Ready q"] by auto
    from c show ?thesis
    proof cases
      case (start_row q' r' rs)
      then have R: "R = [r']" "rs = []" "tabs d2 = tabs d" "c = AtRow q (tabs d) r' []"
        using rows [of "r' # rs"] one by auto
      then obtain c' where c': "cursor_step (AtRow q (tabs d) r' []) (tabs d) rc' c' (tabs d3)"
        and st': "stmts d3 = (stmts d)(h \<mapsto> c')"
        using step_law [OF s', of c] st by auto
      have t3: "tabs d3 = tabs d"
        using c' by (auto elim: step_from_rowE)
      show ?thesis
      proof (cases "rc' = SQLITE_DONE")
        case True
        with c' have "c' = Finished q" by (auto elim: step_from_rowE)
        with st' h have "tabs d4 = tabs d3" "stmts d4 = stmts d" "rc'' = SQLITE_OK"
          using finalize_law [OF f, of c'] by (auto simp: fun_upd_idem)
        with query p s s' f start_row R True t3 show ?thesis by (simp add: row_exists_def)
      next
        case False
        with query p s s' start_row R t3 show ?thesis by (simp add: row_exists_def)
      qed
    next
      case (start_done q')
      with rows [of "[]"] query p s st h show ?thesis by (auto simp: row_exists_def)
    next
      case step_fail
      with query p s show ?thesis by (simp add: row_exists_def)
    qed
  qed
qed

end

context sqlite_reliable
begin

lemma stmt_exec_reliable:
  assumes "stmt_exec E q d = (r, d')" "has_files (tabs d)" "has_datablocks (tabs d)"
    "no_rows q" "sql_run q (tabs d) rows t'"
  shows "r = 0"
proof -
  obtain h d1 where p: "sq_prepare E q d = (h, d1)" by fastforce
  obtain rc d2 where s: "sq_step E h d1 = (rc, d2)" by fastforce
  have h: "h \<noteq> 0" "stmts d h = None" "stmts d1 = (stmts d)(h \<mapsto> Ready q)" "tabs d1 = tabs d"
    using prepare_law [OF p] prepare_reliable [OF assms(2,3), of q] p by auto
  then have rc: "rc \<in> {SQLITE_ROW, SQLITE_DONE}"
    using step_reliable [of d1 h "Ready q" q] assms(5) s by auto
  obtain rc' d3 where f: "sq_finalize E h d2 = (rc', d3)" by fastforce
  obtain c where c: "cursor_step (Ready q) (tabs d) rc c (tabs d2)" "stmts d2 = (stmts d)(h \<mapsto> c)"
    using step_law [OF s, of "Ready q"] h by auto
  have "rc = SQLITE_DONE \<and> c = Finished q"
    using c(1) rc by cases (use assms(4) in \<open>fastforce simp: no_rows_def\<close>)+
  with c finalize_law [OF f, of c] have "rc = SQLITE_DONE" "rc' = SQLITE_OK"
    by auto
  with assms(1) p s f show ?thesis
    by (simp add: stmt_exec_def)
qed

end

end
