(* ===== verification/Meta_Ops.thy ===== *)
theory Meta_Ops
  imports Meta_Facts
begin

text \<open>
  Every function of \<open>meta.c\<close>, branch by branch, against the abstract cache (the set of known
  files and the set of cached blocks). A failed call is told apart by what it leaves behind.
\<close>

text \<open>Same tables, same counters: all that may differ is the state of open statements.\<close>

definition same_store ::
  "('db \<Rightarrow> tables) \<Rightarrow> ('db, 'z) meta_scheme \<Rightarrow> ('db, 'z) meta_scheme \<Rightarrow> bool" where
  "same_store tabs m m' \<longleftrightarrow> tables_of tabs m' = tables_of tabs m \<and>
     meta_block_size m' = meta_block_size m \<and> cache_used_size m' = cache_used_size m"

lemma same_store_refl [simp]: "same_store tabs m m"
  by (simp add: same_store_def)

lemma same_store_trans: "same_store tabs m m' \<Longrightarrow> same_store tabs m' m'' \<Longrightarrow> same_store tabs m m''"
  by (simp add: same_store_def)

lemma same_store_inv: "same_store tabs m m' \<Longrightarrow> store_inv tabs m' = store_inv tabs m"
  by (simp add: same_store_def store_inv_def)

lemma same_store_view: "same_store tabs m m' \<Longrightarrow> view_of tabs m' = view_of tabs m"
  by (simp add: same_store_def view_of_def)

lemma same_store_room: "same_store tabs m m' \<Longrightarrow> room_for k tabs m' = room_for k tabs m"
  by (simp add: same_store_def room_for_def)

lemmas same_store_simps = same_store_inv same_store_view same_store_room

lemma run_touch_block:
  assumes "sql_run (TouchBlock off p) t rs t'"
  shows "files t' = files t" "foreign_keys t' = foreign_keys t" "cache_view t' = cache_view t"
    "wf_tables t' = wf_tables t" "block_count i t' = block_count i t"
    "length (datablocks t') = length (datablocks t)"
proof -
  from assms obtain now where t': "t' = touch_rows off p now t"
    by (auto elim: run_touch_blockE)
  let ?h = "\<lambda>b. if block_at off p t b then b\<lparr>timestamp := now\<rparr> else b"
  have ds: "datablocks t' = map ?h (datablocks t)" and fs: "files t' = files t"
    by (simp_all add: t' touch_rows_def)
  have k: "block_key (?h b) = block_key b" "block_id (?h b) = block_id b" "blk_file_id (?h b) = blk_file_id b" for b
    by (auto simp: block_key_def)
  have keys: "map block_key (datablocks t') = map block_key (datablocks t)"
    "map block_id (datablocks t') = map block_id (datablocks t)"
    "map blk_file_id (datablocks t') = map blk_file_id (datablocks t)"
    unfolding ds map_map comp_def k by simp_all
  show "files t' = files t" "foreign_keys t' = foreign_keys t"
    by (simp_all add: t' touch_rows_def)
  show "wf_tables t' = wf_tables t"
    using keys by (simp add: wf_tables_def fs flip: set_map)
  have "block_key ` set (datablocks t') = block_key ` set (datablocks t)"
    using keys(1) by (simp flip: set_map)
  then show "cache_view t' = cache_view t"
    by (simp add: cache_view_def is_cached_iff known_def path_id_def fs)
  have count: "length (filter (\<lambda>b. blk_file_id b = i) bs) = count_list (map blk_file_id bs) i" for bs
    by (induction bs) auto
  show "block_count i t' = block_count i t"
    unfolding block_count_def count keys(3) ..
  show "length (datablocks t') = length (datablocks t)"
    by (simp add: ds)
qed

context sqlite_engine
begin

lemma create_file_cases:
  assumes call: "create_file E fn n m = (r, m')" and inv: "store_inv tabs m"
  shows "r = 0 \<and> fn \<notin> fst (view_of tabs m) \<and> store_inv tabs m' \<and>
      meta_block_size m' = meta_block_size m \<and> cache_used_size m' = cache_used_size m \<and>
      view_of tabs m' = (insert fn (fst (view_of tabs m)), snd (view_of tabs m)) \<or>
    r = - 1 \<and> same_store tabs m m'"
proof -
  obtain d where e: "stmt_exec E (InsertFile fn (c_int64 n)) (metaDataBase m) = (r, d)"
    and m': "m' = m\<lparr>metaDataBase := d\<rparr>"
    using call by (auto simp: create_file_def split: prod.splits)
  from stmt_exec_cases [OF e dml_rows(1)] show ?thesis
  proof
    assume a: "r = 0 \<and> sql_run (InsertFile fn (c_int64 n)) (tabs (metaDataBase m)) [] (tabs d) \<and>
      stmts d = stmts (metaDataBase m)"
    with inv have wf: "wf_tables (tabs (metaDataBase m))"
      by (simp add: store_inv_def tables_of_def)
    note i = run_insert_file [OF _ wf]
    from a i [of fn "c_int64 n" "[]" "tabs d"] inv show ?thesis
      by (simp add: m' store_inv_def view_of_def tables_of_def) (simp add: cache_view_def)
  next
    assume "r = - 1 \<and> tabs d = tabs (metaDataBase m) \<and>
      (stmts d = stmts (metaDataBase m) \<or> (\<exists>h. stmts (metaDataBase m) h = None \<and>
        stmts d = (stmts (metaDataBase m))(h \<mapsto> Failed (InsertFile fn (c_int64 n)))))"
    then show ?thesis
      by (simp add: m' same_store_def tables_of_def)
  qed
qed

lemma update_blk_time_cases:
  assumes call: "update_blk_time E fn off m = (r, m')" and inv: "store_inv tabs m"
  shows "(r = 0 \<or> r = - 1) \<and> store_inv tabs m' \<and> view_of tabs m' = view_of tabs m \<and>
    meta_block_size m' = meta_block_size m \<and> cache_used_size m' = cache_used_size m \<and>
    (room_for k tabs m' \<longleftrightarrow> room_for k tabs m) \<and>
    files (tables_of tabs m') = files (tables_of tabs m) \<and> (r = - 1 \<longrightarrow> same_store tabs m m')"
proof -
  obtain d where e: "stmt_exec E (TouchBlock (c_int64 off) fn) (metaDataBase m) = (r, d)"
    and m': "m' = m\<lparr>metaDataBase := d\<rparr>"
    using call by (auto simp: update_blk_time_def split: prod.splits)
  show ?thesis
  proof (cases "r = - 1")
    case True
    with stmt_exec_Fail [OF e dml_rows(7)] inv show ?thesis
      by (auto simp: m' store_inv_def view_of_def tables_of_def room_for_def same_store_def)
  next
    case False
    note s = stmt_exec_Done [OF e dml_rows(7) False]
    from s run_touch_block [OF s(2)] inv show ?thesis
      by (simp add: m' store_inv_def view_of_def tables_of_def room_for_def accounted_def total_local_def)
  qed
qed

lemma insert_block_cases:
  assumes call: "insert_block E fn off m = (r, m')" and inv: "store_inv tabs m"
    and room: "room_for 1 tabs m"
  shows "r = 0 \<and> fn \<in> fst (view_of tabs m) \<and> (fn, c_int64 off) \<notin> snd (view_of tabs m) \<and>
      store_inv tabs m' \<and> meta_block_size m' = meta_block_size m \<and>
      cache_used_size m' = cache_used_size m + meta_block_size m \<and>
      view_of tabs m' = (fst (view_of tabs m), insert (fn, c_int64 off) (snd (view_of tabs m))) \<and>
      length (datablocks (tables_of tabs m')) = Suc (length (datablocks (tables_of tabs m))) \<or>
    r = - 1 \<and> same_store tabs m m' \<or>
    r = - 1 \<and> cache_used_size m' = cache_used_size m \<and> meta_block_size m' = meta_block_size m \<and>
      files (tables_of tabs m') = files (tables_of tabs m) \<and>
      fn \<in> fst (view_of tabs m) \<and> (fn, c_int64 off) \<notin> snd (view_of tabs m) \<and>
      view_of tabs m' = (fst (view_of tabs m), insert (fn, c_int64 off) (snd (view_of tabs m)))"
proof -
  let ?d = "metaDataBase m" and ?n = "c_int64 (meta_block_size m)"
  obtain r1 d1 where e1: "stmt_exec E (InsertBlock (c_int64 off) fn) ?d = (r1, d1)" by fastforce
  obtain r2 d2 where e2: "stmt_exec E (AddLocal ?n fn) d1 = (r2, d2)" by fastforce
  have wf: "wf_tables (tabs ?d)" and acc: "accounted ?n (tabs ?d)"
    using inv by (simp_all add: store_inv_def tables_of_def)
  show ?thesis
  proof (cases "r1 = - 1")
    case True
    with call e1 have m': "r = - 1" "m' = m\<lparr>metaDataBase := d1\<rparr>"
      by (simp_all add: insert_block_def)
    have "tabs d1 = tabs ?d"
      using stmt_exec_Fail(2) [OF e1 dml_rows(2)] True by simp
    with m' show ?thesis
      by (simp add: same_store_def tables_of_def)
  next
    case False
    note s1 = stmt_exec_Done [OF e1 dml_rows(2) False]
    note i = run_insert_block [OF s1(2) wf]
    show ?thesis
    proof (cases "r2 = - 1")
      case True
      with call e1 e2 s1 have m': "r = - 1" "m' = m\<lparr>metaDataBase := d2\<rparr>"
        by (simp_all add: insert_block_def)
      have "tabs d2 = tabs d1"
        using stmt_exec_Fail(2) [OF e2 dml_rows(3)] True by simp
      with m' i show ?thesis
        by (simp add: view_of_def tables_of_def) (simp add: cache_view_def)
    next
      case False
      note s2 = stmt_exec_Done [OF e2 dml_rows(3) False]
      from room have rm: "0 \<le> ?n" "?n * int (length (datablocks (tabs ?d)) + 1) < 2 ^ 63"
        by (simp_all add: room_for_def tables_of_def)
      note a = accounted_insert [OF s1(2) s2(2) wf acc rm]
      from s2(2) obtain g where t2: "tabs d2 = set_local fn g (tabs d1)"
        by (auto elim: run_add_localE)
      have m': "r = 0" "m' = m\<lparr>metaDataBase := d2, cache_used_size := cache_used_size m + meta_block_size m\<rparr>"
        using call e1 e2 s1 s2 by (simp_all add: insert_block_def)
      have "store_inv tabs m'"
        using inv a t2 i(4,6) wf_set_local by (simp add: m' store_inv_def tables_of_def)
      with i t2 m' show ?thesis
        by (simp add: view_of_def tables_of_def) (simp add: cache_view_def)
    qed
  qed
qed

lemma delete_block_cases:
  assumes call: "delete_block E fn off m = (r, m')" and inv: "store_inv tabs m"
    and room: "room_for 0 tabs m" and cached: "(fn, c_int64 off) \<in> snd (view_of tabs m)"
  shows "r = 0 \<and> store_inv tabs m' \<and> meta_block_size m' = meta_block_size m \<and>
      cache_used_size m' = cache_used_size m - meta_block_size m \<and>
      view_of tabs m' = (fst (view_of tabs m), snd (view_of tabs m) - {(fn, c_int64 off)}) \<or>
    r = - 1 \<and> same_store tabs m m' \<or>
    r = - 1 \<and> cache_used_size m' = cache_used_size m \<and>
      view_of tabs m' = (fst (view_of tabs m), snd (view_of tabs m) - {(fn, c_int64 off)})"
proof -
  let ?d = "metaDataBase m" and ?n = "c_int64 (meta_block_size m)"
  obtain r1 d1 where e1: "stmt_exec E (DeleteBlock (c_int64 off) fn) ?d = (r1, d1)" by fastforce
  obtain r2 d2 where e2: "stmt_exec E (SubLocal ?n fn) d1 = (r2, d2)" by fastforce
  have wf: "wf_tables (tabs ?d)" and acc: "accounted ?n (tabs ?d)"
    using inv by (simp_all add: store_inv_def tables_of_def)
  have c: "is_cached fn (c_int64 off) (tabs ?d)"
    using cached by (simp add: view_of_def tables_of_def cache_view_def)
  show ?thesis
  proof (cases "r1 = - 1")
    case True
    with call e1 have m': "r = - 1" "m' = m\<lparr>metaDataBase := d1\<rparr>"
      by (simp_all add: delete_block_def)
    have "tabs d1 = tabs ?d"
      using stmt_exec_Fail(2) [OF e1 dml_rows(6)] True by simp
    with m' show ?thesis
      by (simp add: same_store_def tables_of_def)
  next
    case False
    note s1 = stmt_exec_Done [OF e1 dml_rows(6) False]
    note i = run_delete_block [OF s1(2) wf]
    show ?thesis
    proof (cases "r2 = - 1")
      case True
      with call e1 e2 s1 have m': "r = - 1" "m' = m\<lparr>metaDataBase := d2\<rparr>"
        by (simp_all add: delete_block_def)
      have "tabs d2 = tabs d1"
        using stmt_exec_Fail(2) [OF e2 dml_rows(4)] True by simp
      with m' i show ?thesis
        by (simp add: view_of_def tables_of_def)
    next
      case False
      note s2 = stmt_exec_Done [OF e2 dml_rows(4) False]
      from room have rm: "0 \<le> ?n" "?n * int (length (datablocks (tabs ?d)) + 0) < 2 ^ 63"
        by (simp_all add: room_for_def tables_of_def)
      note a = accounted_delete [OF s1(2) s2(2) wf acc c rm]
      from s2(2) obtain g where t2: "tabs d2 = set_local fn g (tabs d1)"
        by (auto elim: run_sub_localE)
      have m': "r = 0" "m' = m\<lparr>metaDataBase := d2, cache_used_size := cache_used_size m - meta_block_size m\<rparr>"
        using call e1 e2 s1 s2 by (simp_all add: delete_block_def)
      have "store_inv tabs m'"
        using inv a t2 i(2,3) wf_set_local by (simp add: m' store_inv_def tables_of_def)
      with i t2 m' show ?thesis
        by (simp add: view_of_def tables_of_def)
    qed
  qed
qed

lemma known_file_row:
  assumes "wf_tables t" "known fn t"
  obtains f where "filter (\<lambda>f. relative_path f = fn) (files t) = [f]"
  using file_rows_le_1 [OF assms(1), of fn] file_rows_empty_iff [of fn t] assms(2)
  by (cases "filter (\<lambda>f. relative_path f = fn) (files t)") auto

lemma select_local_done:
  assumes s: "sq_step E h d = (rc, d1)" and h: "stmts d h = Some (Ready (SelectLocal fn))"
    and s': "sq_step E h d1 = (SQLITE_DONE, d2)"
    and row: "filter (\<lambda>f. relative_path f = fn) (files (tabs d)) = [f]"
  shows "sq_column_int64 E h 0 d1 = local_size f" "tabs d2 = tabs d"
    "stmts d2 = (stmts d)(h \<mapsto> Finished (SelectLocal fn))"
proof -
  let ?q = "SelectLocal fn"
  obtain c where c: "cursor_step (Ready ?q) (tabs d) rc c (tabs d1)" "stmts d1 = (stmts d)(h \<mapsto> c)"
    using step_law [OF s h] by auto
  have q: "rs = [[VInt (local_size f)]] \<and> t' = tabs d" if "sql_run ?q (tabs d) rs t'" for rs t'
    using that row by (auto elim: run_select_localE)
  from c(1) have "c = AtRow ?q (tabs d) [VInt (local_size f)] [] \<and> tabs d1 = tabs d"
  proof cases
    case step_fail
    then have "stmts d1 h = Some (Failed ?q)" "tabs d1 = tabs d"
      using c(2) by simp_all
    then obtain c' where "cursor_step (Failed ?q) (tabs d) SQLITE_DONE c' (tabs d2)"
      using step_law [OF s'] by auto
    then show ?thesis
      by cases (use q in auto)
  qed (use q in auto)
  then have d1: "stmts d1 h = Some (AtRow ?q (tabs d) [VInt (local_size f)] [])" "tabs d1 = tabs d"
    using c(2) by simp_all
  then show "sq_column_int64 E h 0 d1 = local_size f"
    using column_int64_law by fastforce
  obtain c' where "cursor_step (AtRow ?q (tabs d) [VInt (local_size f)] []) (tabs d) SQLITE_DONE c' (tabs d2)"
    "stmts d2 = (stmts d1)(h \<mapsto> c')"
    using step_law [OF s' d1(1)] d1(2) by auto
  then show "tabs d2 = tabs d" "stmts d2 = (stmts d)(h \<mapsto> Finished ?q)"
    using c(2) by (auto elim: step_from_rowE)
qed

lemma select_local_tables:
  assumes s: "sq_step E h d = (rc, d1)" and h: "stmts d h = Some (Ready (SelectLocal fn))"
    and s': "sq_step E h d1 = (rc', d2)"
  shows "tabs d2 = tabs d"
proof -
  let ?q = "SelectLocal fn"
  have q: "t' = t" if "sql_run ?q t rs t'" for t rs t'
    using that by (auto elim: run_select_localE)
  obtain c where c: "cursor_step (Ready ?q) (tabs d) rc c (tabs d1)" "stmts d1 = (stmts d)(h \<mapsto> c)"
    using step_law [OF s h] by auto
  have t1: "tabs d1 = tabs d" and c1: "undisturbed c (tabs d)" "cursor_sql c = ?q"
    using c(1) by (cases; auto dest: q)+
  then obtain c' where "cursor_step c (tabs d) rc' c' (tabs d2)"
    using step_law [OF s', of c] c(2) by auto
  then show ?thesis
  proof cases
    case (start_row q' r rs)
    with c1(2) restart_cursor_sql [of c q'] show ?thesis by (auto dest: q)
  next
    case (start_done q')
    with c1(2) restart_cursor_sql [of c q'] show ?thesis by (auto dest: q)
  qed simp_all
qed

lemma delete_file_cases:
  assumes call: "delete_file E fn m = (r, m')" and inv: "store_inv tabs m"
    and known: "fn \<in> fst (view_of tabs m)"
  shows "r = 0 \<and> store_inv tabs m' \<and> meta_block_size m' = meta_block_size m \<and>
      view_of tabs m' = (fst (view_of tabs m) - {fn}, {x \<in> snd (view_of tabs m). fst x \<noteq> fn}) \<or>
    r = - 1 \<and> tables_of tabs m' = tables_of tabs m \<and> meta_block_size m' = meta_block_size m"
proof -
  let ?d = "metaDataBase m" and ?q = "SelectLocal fn"
  obtain h d0 where p: "sq_prepare E ?q ?d = (h, d0)" by fastforce
  obtain rc d1 where s: "sq_step E h d0 = (rc, d1)" by fastforce
  obtain rc' d2 where s': "sq_step E h d1 = (rc', d2)" by fastforce
  obtain rc'' d3 where f: "sq_finalize E h d2 = (rc'', d3)" by fastforce
  obtain r4 d4 where e: "stmt_exec E (DeleteFile fn) d3 = (r4, d4)" by fastforce
  let ?u = "cache_used_size m - word_of_int (sq_column_int64 E h 0 d1)"
  have wf: "wf_tables (tabs ?d)" and kn: "known fn (tabs ?d)" and fk: "foreign_keys (tabs ?d)"
    using inv known by (simp_all add: store_inv_def tables_of_def view_of_def cache_view_def)
  note pl = prepare_law [OF p]
  have t2: "tabs d2 = tabs ?d"
  proof (cases "h = 0")
    case True
    with pl step_null [of d0] step_null [of d1] s s' show ?thesis by simp
  next
    case False
    with pl select_local_tables [OF s _ s'] show ?thesis by simp
  qed
  show ?thesis
  proof (cases "rc' = SQLITE_DONE")
    case False
    with call p s s' have "r = - 1" "m' = m\<lparr>cache_used_size := ?u, metaDataBase := d2\<rparr>"
      by (simp_all add: delete_file_def Let_def)
    with t2 show ?thesis by (simp add: tables_of_def)
  next
    case True
    have "h \<noteq> 0"
      using s' step_null [of d1 rc' d2] True by (cases "h = 0") auto
    with pl have h: "stmts ?d h = None" "stmts d0 = (stmts ?d)(h \<mapsto> Ready ?q)" "tabs d0 = tabs ?d"
      by auto
    obtain f0 where row: "filter (\<lambda>f. relative_path f = fn) (files (tabs ?d)) = [f0]"
      using known_file_row [OF wf kn] .
    note sl = select_local_done [OF s _ s' [unfolded True], of fn f0, unfolded h(3), OF _ row]
    have sl: "sq_column_int64 E h 0 d1 = local_size f0" "stmts d2 h = Some (Finished ?q)"
      using sl h(2) by simp_all
    have t3: "tabs d3 = tabs ?d" and ok: "rc'' = SQLITE_OK"
      using finalize_law [OF f sl(2)] t2 by auto
    have res: "r = r4" "m' = m\<lparr>cache_used_size := ?u, metaDataBase := d4\<rparr>"
      using call p s s' f e True ok by (simp_all add: delete_file_def Let_def)
    show ?thesis
    proof (cases "r4 = - 1")
      case True
      with stmt_exec_Fail(2) [OF e dml_rows(5)] t3 res show ?thesis
        by (simp add: tables_of_def)
    next
      case False
      note se = stmt_exec_Done [OF e dml_rows(5) False]
      note df = run_delete_file [OF se(2), unfolded t3, OF wf fk]
      have "cache_used_size m' = word_of_int (total_local (tabs d4))"
        using df(6) row sl(1) inv by (simp add: res store_inv_def tables_of_def)
      with df inv res se(1) show ?thesis
        by (simp add: store_inv_def tables_of_def view_of_def)
    qed
  qed
qed

lemma is_file_in_cache_cases:
  assumes call: "is_file_in_cache E fn m = (r, m')" and inv: "store_inv tabs m"
  shows "same_store tabs m m' \<and>
    (r = 1 \<and> fn \<in> fst (view_of tabs m) \<or> r = 0 \<and> fn \<notin> fst (view_of tabs m) \<or> r = - 1)"
proof -
  obtain d where e: "row_exists E (SelectFileId fn) (metaDataBase m) = (r, d)"
    and m': "m' = m\<lparr>metaDataBase := d\<rparr>"
    using call by (auto simp: is_file_in_cache_def split: prod.splits)
  let ?t = "tabs (metaDataBase m)"
  let ?R = "map (\<lambda>f. [VInt (file_id f)]) (filter (\<lambda>f. relative_path f = fn) (files ?t))"
  have wf: "wf_tables ?t" using inv by (simp add: store_inv_def tables_of_def)
  have "length ?R \<le> 1" using file_rows_le_1 [OF wf] by simp
  with row_exists_cases [OF e, of ?R] file_rows_empty_iff [of fn ?t] show ?thesis
    by (auto simp: m' same_store_def view_of_def tables_of_def cache_view_def elim: run_select_file_idE)
qed

lemma is_blk_in_cache_cases:
  assumes call: "is_blk_in_cache E fn off m = (r, m')" and inv: "store_inv tabs m"
  shows "same_store tabs m m' \<and>
    (r = 1 \<and> (fn, c_int64 off) \<in> snd (view_of tabs m) \<or>
     r = 0 \<and> (fn, c_int64 off) \<notin> snd (view_of tabs m) \<or> r = - 1)"
proof -
  let ?q = "SelectBlockId (c_int64 off) fn" and ?t = "tabs (metaDataBase m)"
  obtain d where e: "row_exists E ?q (metaDataBase m) = (r, d)"
    and m': "m' = m\<lparr>metaDataBase := d\<rparr>"
    using call by (auto simp: is_blk_in_cache_def split: prod.splits)
  let ?R = "map (\<lambda>b. [VInt (block_id b)]) (filter (block_at (c_int64 off) fn ?t) (datablocks ?t))"
  have wf: "wf_tables ?t" using inv by (simp add: store_inv_def tables_of_def)
  have "length ?R \<le> 1" using block_rows_le_1 [OF wf] by simp
  with row_exists_cases [OF e, of ?R] block_rows_empty_iff [of "c_int64 off" fn ?t] show ?thesis
    by (auto simp: m' same_store_def view_of_def tables_of_def cache_view_def elim: run_select_block_idE)
qed

end

end
