(* ===== verification/Meta_Blocks.thy ===== *)
theory Meta_Blocks
  imports Meta_Ops
begin

text \<open>
  The loops of \<open>meta.c\<close> over several blocks, and what the functions guarantee when SQLite
  itself does not fail: then every answer is definite and \<open>write_blks\<close> records all its blocks.
\<close>

section \<open>Checking several blocks\<close>

definition hit_ok :: "string \<Rightarrow> (string \<times> int) set \<Rightarrow> size_t \<Rightarrow> int \<Rightarrow> bool" where
  "hit_ok fn C b hit \<longleftrightarrow>
     hit = 1 \<and> (fn, c_int64 b) \<in> C \<or> hit = 0 \<and> (fn, c_int64 b) \<notin> C \<or> hit = - 1"

lemma run_keeps_tables:
  "sql_run q t rs t' \<Longrightarrow> (has_files t \<longrightarrow> has_files t') \<and> (has_datablocks t \<longrightarrow> has_datablocks t')"
  by (induction rule: sql_run.induct)
    (auto simp: set_local_def delete_file_rows_def touch_rows_def)

definition ready :: "('db \<Rightarrow> tables) \<Rightarrow> ('db, 'z) meta_scheme \<Rightarrow> bool" where
  "ready tabs m \<longleftrightarrow> has_files (tables_of tabs m) \<and> has_datablocks (tables_of tabs m)"

lemma same_store_ready: "same_store tabs m m' \<Longrightarrow> ready tabs m' = ready tabs m"
  by (simp add: same_store_def ready_def)

lemma room_for_less: "room_for k tabs m \<Longrightarrow> j \<le> k \<Longrightarrow> room_for j tabs m"
proof -
  assume room: "room_for k tabs m" and "j \<le> k"
  let ?n = "c_int64 (meta_block_size m)" and ?l = "length (datablocks (tables_of tabs m))"
  have "?n * int (?l + j) \<le> ?n * int (?l + k)"
    using room \<open>j \<le> k\<close> by (intro mult_left_mono) (auto simp: room_for_def)
  with room show "room_for j tabs m"
    by (simp add: room_for_def)
qed

lemma room_for_Suc:
  "room_for (Suc k) tabs m \<Longrightarrow> meta_block_size m' = meta_block_size m \<Longrightarrow>
     length (datablocks (tables_of tabs m')) = Suc (length (datablocks (tables_of tabs m))) \<Longrightarrow>
     room_for k tabs m'"
  by (simp add: room_for_def)

context sqlite_engine
begin

lemma blocks_loop_cases:
  assumes "blocks_loop E fn bs th m = (tot, arr, m')" "store_inv tabs m"
  shows "same_store tabs m m' \<and> list_all2 (hit_ok fn (snd (view_of tabs m))) bs arr \<and>
    tot = (if 0 \<in> set arr then 0 else th)"
  using assms
proof (induction bs arbitrary: th m tot arr m')
  case Nil
  then show ?case by simp
next
  case (Cons b bs)
  obtain hit m1 where h: "is_blk_in_cache E fn b m = (hit, m1)" by fastforce
  obtain tot1 arr1 m2 where l: "blocks_loop E fn bs (if hit = 0 then 0 else th) m1 = (tot1, arr1, m2)"
    by (cases "blocks_loop E fn bs (if hit = 0 then 0 else th) m1") auto
  from Cons.prems h l have eq: "tot = tot1" "arr = hit # arr1" "m' = m2" by simp_all
  note c = is_blk_in_cache_cases [OF h Cons.prems(2)]
  then have inv: "store_inv tabs m1" and v: "view_of tabs m1 = view_of tabs m"
    using Cons.prems(2) same_store_simps by blast+
  from Cons.IH [OF l inv] c v show ?case
    by (auto simp: eq hit_ok_def intro: same_store_trans)
qed

lemma are_blocks_in_cache_cases:
  assumes "are_blocks_in_cache E fn bs m = (tot, arr, m')" "store_inv tabs m"
  shows "same_store tabs m m'" "list_all2 (hit_ok fn (snd (view_of tabs m))) bs arr"
    "tot = (if 0 \<in> set arr then 0 else 1)"
  using blocks_loop_cases [of fn bs 1 m tot arr m'] assms by (simp_all add: are_blocks_in_cache_def)

end

section \<open>Without SQLite failures\<close>

context sqlite_reliable
begin

lemma row_exists_reliable:
  assumes query: "row_exists E q d = (r, d')" and has: "has_files (tabs d)" "has_datablocks (tabs d)"
    and rows: "\<And>rs t'. sql_run q (tabs d) rs t' \<Longrightarrow> rs = R \<and> t' = tabs d"
    and one: "length R \<le> 1" and run: "sql_run q (tabs d) R (tabs d)"
  shows "r = (if R = [] then 0 else 1)"
proof -
  obtain h d1 where p: "sq_prepare E q d = (h, d1)" by fastforce
  obtain rc d2 where s: "sq_step E h d1 = (rc, d2)" by fastforce
  obtain rc' d3 where s': "sq_step E h d2 = (rc', d3)" by fastforce
  obtain rc'' d4 where f: "sq_finalize E h d3 = (rc'', d4)" by fastforce
  have h: "h \<noteq> 0" "stmts d h = None" "stmts d1 = (stmts d)(h \<mapsto> Ready q)" "tabs d1 = tabs d"
    using prepare_law [OF p] prepare_reliable [OF has, of q] p by auto
  then have rc: "rc \<in> {SQLITE_ROW, SQLITE_DONE}"
    using step_reliable [of d1 h "Ready q" q R "tabs d"] run s by auto
  obtain c where c: "cursor_step (Ready q) (tabs d) rc c (tabs d2)" "stmts d2 = (stmts d)(h \<mapsto> c)"
    using step_law [OF s, of "Ready q"] h by auto
  from c(1) show ?thesis
  proof cases
    case (start_row q' r' rs)
    then have R: "R = [r']" "rs = []" "tabs d2 = tabs d" "c = AtRow q (tabs d) r' []"
      using rows [of "r' # rs"] one by auto
    then have c2: "stmts d2 h = Some (AtRow q (tabs d2) r' [])"
      using c(2) by simp
    then have rc': "rc' \<in> {SQLITE_ROW, SQLITE_DONE}"
      using row_reliable [of d2 h q r' "[]"] s' by simp
    obtain c' where c': "cursor_step (AtRow q (tabs d2) r' []) (tabs d2) rc' c' (tabs d3)"
      "stmts d3 = (stmts d2)(h \<mapsto> c')"
      using step_law [OF s' c2] by auto
    with rc' have "rc' = SQLITE_DONE" "c' = Finished q"
      by (auto elim: step_from_rowE)
    moreover from this have "rc'' = SQLITE_OK"
      using finalize_law [OF f, of c'] c' by auto
    ultimately show ?thesis
      using query p s s' f start_row R by (simp add: row_exists_def)
  next
    case (start_done q')
    with rows [of "[]"] query p s show ?thesis by (auto simp: row_exists_def)
  next
    case step_fail
    with rc show ?thesis by simp
  qed
qed

lemma is_file_in_cache_reliable:
  assumes call: "is_file_in_cache E fn m = (r, m')" and inv: "store_inv tabs m" and rd: "ready tabs m"
  shows "r = (if fn \<in> fst (view_of tabs m) then 1 else 0)"
proof -
  obtain d where e: "row_exists E (SelectFileId fn) (metaDataBase m) = (r, d)"
    using call by (auto simp: is_file_in_cache_def split: prod.splits)
  let ?t = "tabs (metaDataBase m)"
  let ?R = "map (\<lambda>f. [VInt (file_id f)]) (filter (\<lambda>f. relative_path f = fn) (files ?t))"
  have wf: "wf_tables ?t" using inv by (simp add: store_inv_def tables_of_def)
  have l: "length ?R \<le> 1" using file_rows_le_1 [OF wf] by simp
  have has: "has_files ?t" "has_datablocks ?t" using rd by (simp_all add: ready_def tables_of_def)
  have "r = (if ?R = [] then 0 else 1)"
    by (rule row_exists_reliable [OF e has _ l]) (auto elim: run_select_file_idE intro: sql_run.intros has)
  then show ?thesis
    using file_rows_empty_iff [of fn ?t] by (simp add: view_of_def tables_of_def cache_view_def)
qed

lemma is_blk_in_cache_reliable:
  assumes call: "is_blk_in_cache E fn off m = (r, m')" and inv: "store_inv tabs m" and rd: "ready tabs m"
  shows "r = (if (fn, c_int64 off) \<in> snd (view_of tabs m) then 1 else 0)"
proof -
  let ?q = "SelectBlockId (c_int64 off) fn" and ?t = "tabs (metaDataBase m)"
  obtain d where e: "row_exists E ?q (metaDataBase m) = (r, d)"
    using call by (auto simp: is_blk_in_cache_def split: prod.splits)
  let ?R = "map (\<lambda>b. [VInt (block_id b)]) (filter (block_at (c_int64 off) fn ?t) (datablocks ?t))"
  have wf: "wf_tables ?t" using inv by (simp add: store_inv_def tables_of_def)
  have l: "length ?R \<le> 1" using block_rows_le_1 [OF wf] by simp
  have has: "has_files ?t" "has_datablocks ?t" using rd by (simp_all add: ready_def tables_of_def)
  have "r = (if ?R = [] then 0 else 1)"
    by (rule row_exists_reliable [OF e has _ l]) (auto elim: run_select_block_idE intro: sql_run.intros has)
  then show ?thesis
    using block_rows_empty_iff [of "c_int64 off" fn ?t] by (simp add: view_of_def tables_of_def cache_view_def)
qed

lemma blocks_loop_reliable:
  assumes "blocks_loop E fn bs th m = (tot, arr, m')" "store_inv tabs m" "ready tabs m"
  shows "arr = map (\<lambda>b. if (fn, c_int64 b) \<in> snd (view_of tabs m) then 1 else 0) bs"
  using assms
proof (induction bs arbitrary: th m tot arr m')
  case Nil
  then show ?case by simp
next
  case (Cons b bs)
  obtain hit m1 where h: "is_blk_in_cache E fn b m = (hit, m1)" by fastforce
  obtain tot1 arr1 m2 where l: "blocks_loop E fn bs (if hit = 0 then 0 else th) m1 = (tot1, arr1, m2)"
    by (cases "blocks_loop E fn bs (if hit = 0 then 0 else th) m1") auto
  from Cons.prems h l have eq: "arr = hit # arr1" by simp
  have same: "same_store tabs m m1"
    using is_blk_in_cache_cases [OF h Cons.prems(2)] by blast
  with Cons.prems have inv: "store_inv tabs m1" "ready tabs m1" and v: "view_of tabs m1 = view_of tabs m"
    using same_store_simps same_store_ready by blast+
  from Cons.IH [OF l inv] is_blk_in_cache_reliable [OF h Cons.prems(2,3)] v show ?case
    by (simp add: eq)
qed

lemma insert_block_reliable:
  assumes call: "insert_block E fn off m = (r, m')" and inv: "store_inv tabs m" and rd: "ready tabs m"
    and room: "room_for 1 tabs m" and known: "fn \<in> fst (view_of tabs m)"
  shows "r = (if (fn, c_int64 off) \<in> snd (view_of tabs m) then - 1 else 0) \<and> ready tabs m'"
proof -
  let ?d = "metaDataBase m" and ?n = "c_int64 (meta_block_size m)"
  obtain r1 d1 where e1: "stmt_exec E (InsertBlock (c_int64 off) fn) ?d = (r1, d1)" by fastforce
  obtain r2 d2 where e2: "stmt_exec E (AddLocal ?n fn) d1 = (r2, d2)" by fastforce
  have has: "has_files (tabs ?d)" "has_datablocks (tabs ?d)"
    using rd by (simp_all add: ready_def tables_of_def)
  show ?thesis
  proof (cases "(fn, c_int64 off) \<in> snd (view_of tabs m)")
    case True
    with insert_block_cases [OF call inv room] have "r = - 1" and same: "same_store tabs m m'" by auto
    with True rd same_store_ready [OF same] show ?thesis by simp
  next
    case False
    obtain i where i: "path_id fn (tabs ?d) = Some i"
      using known by (auto simp: view_of_def tables_of_def cache_view_def known_def)
    with False have key: "(c_int64 off, i) \<notin> set (map block_key (datablocks (tabs ?d)))"
      by (auto simp: view_of_def tables_of_def cache_view_def is_cached_iff)
    obtain bid where bid: "bid \<notin> set (map block_id (datablocks (tabs ?d)))"
      using ex_new_if_finite [OF infinite_UNIV_int] by blast
    have r1: "r1 = 0"
      by (rule stmt_exec_reliable [OF e1 has dml_rows(2) sql_run.insert_block [OF has(2) i key bid]])
    then have s1: "sql_run (InsertBlock (c_int64 off) fn) (tabs ?d) [] (tabs d1)"
      using stmt_exec_cases [OF e1 dml_rows(2)] by simp
    from run_keeps_tables [OF s1] has have has1: "has_files (tabs d1)" "has_datablocks (tabs d1)" by auto
    have r2: "r2 = 0"
      by (rule stmt_exec_reliable [OF e2 has1 dml_rows(3) sql_run.add_local [OF has1(1), of ?n "\<lambda>x. x + ?n"]])
        simp
    then have s2: "sql_run (AddLocal ?n fn) (tabs d1) [] (tabs d2)"
      using stmt_exec_cases [OF e2 dml_rows(3)] by simp
    from run_keeps_tables [OF s2] has1 call e1 e2 r1 r2 False show ?thesis
      by (auto simp: insert_block_def ready_def tables_of_def)
  qed
qed

lemma update_blk_time_ready:
  assumes call: "update_blk_time E fn off m = (r, m')" and rd: "ready tabs m"
  shows "ready tabs m'"
proof -
  obtain d where e: "stmt_exec E (TouchBlock (c_int64 off) fn) (metaDataBase m) = (r, d)"
    and m': "m' = m\<lparr>metaDataBase := d\<rparr>"
    using call by (auto simp: update_blk_time_def split: prod.splits)
  from stmt_exec_cases [OF e dml_rows(7)] rd run_keeps_tables show ?thesis
    by (auto simp: m' ready_def tables_of_def)
qed

text \<open>Recording blocks: those marked as hits are already cached.\<close>

lemma write_loop_reliable:
  assumes "store_inv tabs m" "ready tabs m" "room_for (length bs + j) tabs m" "fn \<in> fst (view_of tabs m)"
    "\<And>b hit. (b, hit) \<in> set bs \<Longrightarrow> hit \<noteq> 0 \<Longrightarrow> (fn, c_int64 b) \<in> snd (view_of tabs m)"
  shows "store_inv tabs (write_loop E fn bs m) \<and> ready tabs (write_loop E fn bs m) \<and>
    room_for j tabs (write_loop E fn bs m) \<and>
    meta_block_size (write_loop E fn bs m) = meta_block_size m \<and>
    view_of tabs (write_loop E fn bs m) =
      (fst (view_of tabs m), snd (view_of tabs m) \<union> (\<lambda>b. (fn, c_int64 b)) ` fst ` set bs)"
  using assms
proof (induction bs arbitrary: m)
  case Nil
  then show ?case by simp
next
  case (Cons x bs)
  obtain b hit where x: "x = (b, hit)" by (cases x)
  obtain r m1 where u: "update_blk_time E fn b m = (r, m1)" by fastforce
  obtain r' m2 where i: "insert_block E fn b m = (r', m2)" by fastforce
  have room1: "room_for 1 tabs m" "room_for (Suc (length bs + j)) tabs m"
    using Cons.prems(3) room_for_less [of "length (x # bs) + j" tabs m 1] by simp_all
  show ?case
  proof (cases "hit \<noteq> 0")
    case True
    note c = update_blk_time_cases [OF u Cons.prems(1)]
    have "store_inv tabs m1" "ready tabs m1" "view_of tabs m1 = view_of tabs m"
      "meta_block_size m1 = meta_block_size m" "room_for (length bs + j) tabs m1"
      using c update_blk_time_ready [OF u Cons.prems(2)] room_for_less [OF room1(2), of "length bs + j"] by auto
    moreover have "(fn, c_int64 b) \<in> snd (view_of tabs m)"
      using Cons.prems(5) True x by auto
    ultimately show ?thesis
      using Cons.IH [of m1] Cons.prems(4,5) True u x by (auto simp: insert_absorb)
  next
    case False
    note c = insert_block_cases [OF i Cons.prems(1) room1(1)]
    note rel = insert_block_reliable [OF i Cons.prems(1,2) room1(1) Cons.prems(4)]
    have m2: "store_inv tabs m2 \<and> meta_block_size m2 = meta_block_size m \<and> room_for (length bs + j) tabs m2 \<and>
        view_of tabs m2 = (fst (view_of tabs m), insert (fn, c_int64 b) (snd (view_of tabs m)))"
    proof (cases "(fn, c_int64 b) \<in> snd (view_of tabs m)")
      case True
      with c have s: "same_store tabs m m2" by blast
      with True Cons.prems(1) same_store_simps [OF s] room_for_less [OF room1(2), of "length bs + j"]
      show ?thesis by (simp add: insert_absorb same_store_def)
    next
      case False
      with rel have "r' = 0" by simp
      with c room_for_Suc [OF room1(2)] show ?thesis by auto
    qed
    with rel False u i x Cons.IH [of m2] Cons.prems(4,5) show ?thesis
      by auto
  qed
qed

lemma write_blks_reliable:
  assumes call: "write_blks E fn bs m = (r, m')" and inv: "store_inv tabs m" and rd: "ready tabs m"
    and room: "room_for (length bs + j) tabs m" and known: "fn \<in> fst (view_of tabs m)"
  shows "r = 0 \<and> store_inv tabs m' \<and> ready tabs m' \<and> room_for j tabs m' \<and> meta_block_size m' = meta_block_size m \<and>
    view_of tabs m' =
      (fst (view_of tabs m), snd (view_of tabs m) \<union> (\<lambda>b. (fn, c_int64 b)) ` set bs)"
proof -
  obtain tot arr m1 where a: "are_blocks_in_cache E fn bs m = (tot, arr, m1)"
    by (cases "are_blocks_in_cache E fn bs m") auto
  then have l: "blocks_loop E fn bs 1 m = (tot, arr, m1)"
    by (simp add: are_blocks_in_cache_def)
  note arr = blocks_loop_reliable [OF l inv rd]
  have same: "same_store tabs m m1"
    by (rule are_blocks_in_cache_cases [OF a inv])
  have m': "r = 0" "m' = write_loop E fn (zip bs arr) m1"
    using call a by (simp_all add: write_blks_def)
  have hits: "(fn, c_int64 b) \<in> snd (view_of tabs m1)" if "(b, hit) \<in> set (zip bs arr)" "hit \<noteq> 0" for b hit
    using that unfolding arr same_store_view [OF same]
    by (auto simp: zip_map2 zip_same_conv_map split: if_splits)
  have bs: "fst ` set (zip bs arr) = set bs"
    using arr by (simp add: zip_map2 zip_same_conv_map image_image)
  have len: "length (zip bs arr) = length bs"
    using arr by simp
  have m1: "store_inv tabs m1" "ready tabs m1" "room_for (length (zip bs arr) + j) tabs m1"
    "view_of tabs m1 = view_of tabs m" "meta_block_size m1 = meta_block_size m"
    using inv rd room same_store_simps [OF same] same_store_ready [OF same] same
    unfolding len by (simp_all add: same_store_def)
  show ?thesis
    using write_loop_reliable [OF m1(1-3) _ hits] known
    unfolding m' m1(4,5) bs by simp
qed

end

end
