(* ===== verification/Meta_Evict.thy ===== *)
theory Meta_Evict
  imports Meta_Blocks
begin

text \<open>
  \<open>evict_blocks\<close> of \<open>meta.c\<close>: the cursor loop ends, the arrays receive the blocks with the
  oldest timestamps in order, and the tables stay as they were.
\<close>

definition lru_rows :: "block_row list \<Rightarrow> sqlval list list" where
  "lru_rows bs = map (\<lambda>b. [VInt (blk_start_offset b), VInt (blk_file_id b)]) bs"

definition filled :: "nat \<Rightarrow> block_row list \<Rightarrow> evict_arrays \<Rightarrow> evict_arrays \<Rightarrow> bool" where
  "filled row bs a a' \<longleftrightarrow>
     take (row + length bs) (ev_offsets a') =
       take row (ev_offsets a) @ map (\<lambda>b. word_of_int (blk_start_offset b)) bs \<and>
     take (row + length bs) (ev_file_ids a') =
       take row (ev_file_ids a) @ map (\<lambda>b. c_int (blk_file_id b)) bs"

text \<open>The rows that \<open>LIMIT n\<close> lets through; a negative limit is none.\<close>

definition limited :: "int \<Rightarrow> block_row list \<Rightarrow> block_row list" where
  "limited n bs = (if n < 0 then bs else take (nat n) bs)"

definition pure_query :: "sql \<Rightarrow> bool" where
  "pure_query q \<longleftrightarrow> (\<forall>t rs t'. sql_run q t rs t' \<longrightarrow> t' = t)"

lemma pure_queries: "pure_query (SelectPath i)" "pure_query (SelectOldest n)"
  unfolding pure_query_def by (blast elim: run_select_pathE run_select_oldestE)+

lemma take_Suc_update: "row < length xs \<Longrightarrow> take (Suc row) (xs[row := x]) = take row xs @ [x]"
  by (simp add: take_Suc_conv_app_nth)

context sqlite_engine
begin

text \<open>What survives of the open statements when another statement is run and closed.\<close>

definition keeps :: "'db \<Rightarrow> 'db \<Rightarrow> bool" where
  "keeps d d' \<longleftrightarrow> tabs d' = tabs d \<and> (\<forall>h. stmts d h \<noteq> None \<longrightarrow> stmts d' h = stmts d h)"

lemma keeps_refl: "keeps d d"
  by (simp add: keeps_def)

lemma step_query:
  assumes s: "sq_step E h d = (rc, d')" and h: "stmts d h = Some c" and u: "undisturbed c (tabs d)"
    and q: "cursor_sql c = q" and pure: "pure_query q"
  shows "tabs d' = tabs d" "\<exists>c'. stmts d' = (stmts d)(h \<mapsto> c') \<and> undisturbed c' (tabs d') \<and> cursor_sql c' = q"
proof -
  obtain c' where c: "cursor_step c (tabs d) rc c' (tabs d')" "stmts d' = (stmts d)(h \<mapsto> c')"
    using step_law [OF s h u] by auto
  have "tabs d' = tabs d \<and> undisturbed c' (tabs d') \<and> cursor_sql c' = q"
    using c(1)
  proof cases
    case (start_row q' r rs)
    with q restart_cursor_sql [of c q'] pure show ?thesis by (auto simp: pure_query_def)
  next
    case (start_done q')
    with q restart_cursor_sql [of c q'] pure show ?thesis by (auto simp: pure_query_def)
  qed (use q in auto)
  with c(2) show "tabs d' = tabs d"
    "\<exists>c'. stmts d' = (stmts d)(h \<mapsto> c') \<and> undisturbed c' (tabs d') \<and> cursor_sql c' = q"
    by auto
qed

lemma get_filename_keeps:
  assumes "get_filename_from_fileid E fid d = Ret (r, fnm, d')"
  shows "keeps d d'"
proof -
  let ?q = "SelectPath fid"
  obtain h d1 where p: "sq_prepare E ?q d = (h, d1)" by fastforce
  obtain rc d2 where s: "sq_step E h d1 = (rc, d2)" by fastforce
  obtain rc' d3 where s': "sq_step E h d2 = (rc', d3)" by fastforce
  obtain rc'' d4 where f: "sq_finalize E h d3 = (rc'', d4)" by fastforce
  note pl = prepare_law [OF p]
  have d': "d' = d3 \<or> rc' = SQLITE_DONE \<and> d' = d4"
    using assms p s s' f
    by (auto simp: get_filename_from_fileid_def obind_eq_Ret split: if_splits)
  show ?thesis
  proof (cases "h = 0")
    case True
    with s s' step_null [of d1 rc d2] step_null [of d2 rc' d3] pl d' show ?thesis
      by (auto simp: keeps_def)
  next
    case False
    with pl have h: "stmts d h = None" "stmts d1 = (stmts d)(h \<mapsto> Ready ?q)" "tabs d1 = tabs d"
      by auto
    from step_query [OF s, of "Ready ?q" ?q, OF _ _ _ pure_queries(1)] h obtain c where
      c: "stmts d2 = (stmts d)(h \<mapsto> c)" "undisturbed c (tabs d2)" "cursor_sql c = ?q" "tabs d2 = tabs d"
      by auto
    from step_query [OF s', of c ?q, OF _ _ _ pure_queries(1)] c obtain c' where
      c': "stmts d3 = (stmts d)(h \<mapsto> c')" "tabs d3 = tabs d"
      by auto
    have "stmts d4 = (stmts d)(h := None)" "tabs d4 = tabs d"
      using finalize_law [OF f, of c'] c' by auto
    with c' d' h show ?thesis by (auto simp: keeps_def)
  qed
qed

lemma get_filename_outcome: "\<exists>x. get_filename_from_fileid E fid d = Ret x \<or> get_filename_from_fileid E fid d = Crash BufferOverflow"
  by (simp add: get_filename_from_fileid_def c_strcpy_def split: prod.splits)

lemma evict_row_Ret:
  assumes row: "evict_row E h row a d = Ret (a', d')"
    and h: "stmts d h = Some (AtRow q t [VInt (blk_start_offset b), VInt (blk_file_id b)] rs)"
  shows "keeps d d'" "filled row [b] a a'" "row < length (ev_offsets a)" "row < length (ev_file_ids a)"
    "length (ev_offsets a') = length (ev_offsets a)" "length (ev_file_ids a') = length (ev_file_ids a)"
proof -
  have col: "sq_column_int64 E h 0 d = blk_start_offset b" "sq_column_int64 E h (Suc 0) d = blk_file_id b"
    using column_int64_law [OF h, of 0] column_int64_law [OF h, of 1] by simp_all
  show len: "row < length (ev_offsets a)" "row < length (ev_file_ids a)"
    using row by (auto simp: evict_row_def split: if_splits)
  let ?a = "a\<lparr>ev_offsets := (ev_offsets a)[row := word_of_int (blk_start_offset b)],
              ev_file_ids := (ev_file_ids a)[row := c_int (blk_file_id b)]\<rparr>"
  have "keeps d d' \<and> ev_offsets a' = ev_offsets ?a \<and> ev_file_ids a' = ev_file_ids ?a"
    using row len get_filename_keeps
    by (auto simp: evict_row_def Let_def col keeps_refl obind_eq_Ret split: if_splits option.splits)
  then show "keeps d d'" "filled row [b] a a'"
    "length (ev_offsets a') = length (ev_offsets a)" "length (ev_file_ids a') = length (ev_file_ids a)"
    using len by (simp_all add: filled_def take_Suc_update)
qed

lemma filled_Cons:
  assumes "filled row [b] a a1" "filled (Suc row) bs a1 a'"
  shows "filled row (b # bs) a a'"
  using assms by (simp add: filled_def)

lemma evict_loop_rows:
  assumes "stmts d h = Some (AtRow q (tabs d) r (lru_rows bs))"
  shows "\<exists>res. evict_loop E h row a d = Some res \<and>
    (\<forall>ret a' d'. res = Ret (ret, a', d') \<longrightarrow> tabs d' = tabs d \<and> stmts d' h \<noteq> None \<and>
      (ret = SQLITE_DONE \<longrightarrow> filled row bs a a' \<and> stmts d' h = Some (Finished q)))"
  using assms
proof (induction bs arbitrary: d r row a)
  case Nil
  obtain rc d1 where s: "sq_step E h d = (rc, d1)" by fastforce
  obtain c where c: "cursor_step (AtRow q (tabs d) r []) (tabs d) rc c (tabs d1)"
    "stmts d1 = (stmts d)(h \<mapsto> c)"
    using step_law [OF s Nil.prems] by (auto simp: lru_rows_def)
  from c(1) have "rc \<noteq> SQLITE_ROW" "tabs d1 = tabs d" "rc = SQLITE_DONE \<longrightarrow> c = Finished q"
    by (auto elim: step_from_rowE)
  with s c(2) show ?case
    by (simp add: evict_loop.simps [of E h] filled_def)
next
  case (Cons b bs)
  let ?r = "[VInt (blk_start_offset b), VInt (blk_file_id b)]"
  obtain rc d1 where s: "sq_step E h d = (rc, d1)" by fastforce
  obtain c where c: "cursor_step (AtRow q (tabs d) r (?r # lru_rows bs)) (tabs d) rc c (tabs d1)"
    "stmts d1 = (stmts d)(h \<mapsto> c)"
    using step_law [OF s Cons.prems] by (auto simp: lru_rows_def)
  from c(1) have rc: "tabs d1 = tabs d" "rc = SQLITE_ROW \<and> c = AtRow q (tabs d) ?r (lru_rows bs) \<or>
      rc \<noteq> SQLITE_ROW \<and> rc \<noteq> SQLITE_DONE"
    by (auto elim: step_from_rowE)
  show ?case
  proof (cases "rc = SQLITE_ROW")
    case False
    with rc s c(2) show ?thesis by (auto simp: evict_loop.simps [of E h])
  next
    case True
    with rc c(2) have h1: "stmts d1 h = Some (AtRow q (tabs d) ?r (lru_rows bs))" by auto
    show ?thesis
    proof (cases "evict_row E h row a d1")
      case (Ret x)
      then obtain a1 d2 where x: "evict_row E h row a d1 = Ret (a1, d2)" by (cases x) auto
      note er = evict_row_Ret [OF x h1]
      have h2: "stmts d2 h = Some (AtRow q (tabs d2) ?r (lru_rows bs))" and t2: "tabs d2 = tabs d"
        using er(1) h1 rc(1) by (auto simp: keeps_def)
      from Cons.IH [OF h2, of "Suc row" a1] filled_Cons [OF er(2)] x s True t2
      show ?thesis by (auto simp: evict_loop.simps [of E h row])
    qed (use s True in \<open>auto simp: evict_loop.simps [of E h row]\<close>)
  qed
qed

text \<open>The same from a fresh statement, whose first step runs the query.\<close>

lemma evict_loop_start:
  assumes h: "stmts d h = Some (Ready (SelectOldest n))"
  shows "\<exists>res. evict_loop E h 0 a d = Some res \<and>
    (\<forall>ret a' d'. res = Ret (ret, a', d') \<longrightarrow> tabs d' = tabs d \<and> stmts d' h \<noteq> None \<and>
      (ret = SQLITE_DONE \<longrightarrow> stmts d' h = Some (Finished (SelectOldest n)) \<and>
        (\<exists>bs. mset bs = mset (datablocks (tabs d)) \<and> sorted (map timestamp bs) \<and>
          filled 0 (limited n bs) a a')))"
proof -
  let ?q = "SelectOldest n"
  obtain rc d1 where s: "sq_step E h d = (rc, d1)" by fastforce
  obtain c where c: "cursor_step (Ready ?q) (tabs d) rc c (tabs d1)" "stmts d1 = (stmts d)(h \<mapsto> c)"
    using step_law [OF s h] by auto
  have oldest: "\<exists>bs. mset bs = mset (datablocks t) \<and> sorted (map timestamp bs) \<and>
      rs = lru_rows (limited n bs) \<and> t' = t" if "sql_run ?q t rs t'" for t rs t'
    using that by (auto elim!: run_select_oldestE simp: lru_rows_def limited_def)
  from c(1) show ?thesis
  proof cases
    case (start_row q r rs)
    then have "sql_run ?q (tabs d) (r # rs) (tabs d1)" by simp
    from oldest [OF this] obtain bs where bs: "mset bs = mset (datablocks (tabs d))"
      "sorted (map timestamp bs)" "r # rs = lru_rows (limited n bs)"
      and t1: "tabs d1 = tabs d"
      by blast
    obtain b bs' where cons: "(limited n bs) = b # bs'"
      and r: "r = [VInt (blk_start_offset b), VInt (blk_file_id b)]" "rs = lru_rows bs'"
      using bs(3) by (cases "limited n bs") (auto simp: lru_rows_def)
    have h1: "stmts d1 h = Some (AtRow ?q (tabs d) r rs)"
      using c(2) start_row t1 by simp
    show ?thesis
    proof (cases "evict_row E h 0 a d1")
      case (Ret x)
      then obtain a1 d2 where x: "evict_row E h 0 a d1 = Ret (a1, d2)" by (cases x) auto
      note er = evict_row_Ret [OF x h1 [unfolded r(1)]]
      have h2: "stmts d2 h = Some (AtRow ?q (tabs d2) r (lru_rows bs'))" and t2: "tabs d2 = tabs d"
        using er(1) h1 t1 r by (auto simp: keeps_def)
      have "\<exists>bs. mset bs = mset (datablocks (tabs d)) \<and> sorted (map timestamp bs) \<and>
          filled 0 (limited n bs) a a'" if "filled (Suc 0) bs' a1 a'" for a'
        using filled_Cons [OF er(2) that] bs(1,2) cons by metis
      with evict_loop_rows [OF h2, of "Suc 0" a1] x s start_row t2 show ?thesis
        by (auto simp: evict_loop.simps [of E h 0])
    qed (use s start_row in \<open>auto simp: evict_loop.simps [of E h 0]\<close>)
  next
    case (start_done q)
    then have "sql_run ?q (tabs d) [] (tabs d1)" by simp
    from oldest [OF this] obtain bs where bs: "mset bs = mset (datablocks (tabs d))"
      "sorted (map timestamp bs)" "[] = lru_rows (limited n bs)"
      and t1: "tabs d1 = tabs d"
      by blast
    then have "(limited n bs) = []"
      by (simp add: lru_rows_def)
    then have "filled 0 (limited n bs) a a"
      by (simp add: filled_def)
    with bs(1,2) s start_done c(2) t1 show ?thesis
      by (auto simp: evict_loop.simps [of E h 0])
  next
    case step_fail
    with s c(2) show ?thesis by (auto simp: evict_loop.simps [of E h 0])
  qed
qed

lemma evict_blocks_result:
  "\<exists>res. evict_blocks E num_blks a m = Some res \<and>
    (\<forall>ret a' m'. res = Ret (ret, a', m') \<longrightarrow> same_store tabs m m' \<and> (ret = 0 \<or> ret = - 1) \<and>
      (ret = 0 \<longrightarrow> (\<exists>bs. mset bs = mset (datablocks (tables_of tabs m)) \<and> sorted (map timestamp bs) \<and>
        filled 0 (limited (c_int64 num_blks) bs) a a')))"
proof -
  let ?d = "metaDataBase m" and ?n = "c_int64 num_blks"
  obtain h d1 where p: "sq_prepare E (SelectOldest ?n) ?d = (h, d1)" by fastforce
  note pl = prepare_law [OF p]
  show ?thesis
  proof (cases "h = 0")
    case True
    obtain rc d2 where s: "sq_step E 0 d1 = (rc, d2)" by fastforce
    with step_null [OF s] pl True p show ?thesis
      by (auto simp: evict_blocks_def evict_loop.simps [of E 0] same_store_def tables_of_def)
  next
    case False
    with pl have h: "stmts d1 h = Some (Ready (SelectOldest ?n))" "tabs d1 = tabs ?d" by auto
    obtain res where l: "evict_loop E h 0 a d1 = Some res" and
      R: "\<And>ret a' d'. res = Ret (ret, a', d') \<Longrightarrow> tabs d' = tabs d1 \<and> stmts d' h \<noteq> None \<and>
        (ret = SQLITE_DONE \<longrightarrow> stmts d' h = Some (Finished (SelectOldest ?n)) \<and>
          (\<exists>bs. mset bs = mset (datablocks (tabs d1)) \<and> sorted (map timestamp bs) \<and>
            filled 0 (limited ?n bs) a a'))"
      using evict_loop_start [OF h(1), of a] by blast
    show ?thesis
    proof (cases res)
      case (Ret x)
      obtain ret a' d2 where x: "x = (ret, a', d2)" by (cases x)
      obtain rc d3 where f: "sq_finalize E h d2 = (rc, d3)" by fastforce
      from R [of ret a' d2] Ret x have r: "tabs d2 = tabs ?d" "stmts d2 h \<noteq> None"
        "ret = SQLITE_DONE \<longrightarrow> (\<exists>bs. mset bs = mset (datablocks (tabs ?d)) \<and> sorted (map timestamp bs) \<and>
            filled 0 (limited ?n bs) a a')"
        using h(2) by auto
      then obtain c where "stmts d2 h = Some c" by auto
      with finalize_law [OF f] r have "tabs d3 = tabs ?d" by auto
      with p l Ret x f r show ?thesis
        by (simp add: evict_blocks_def same_store_def tables_of_def)
    qed (use p l in \<open>auto simp: evict_blocks_def\<close>)
  qed
qed

end

end
