(* ===== verification/Meta_Demo.thy ===== *)
theory Meta_Demo
  imports Meta_Evict
begin

text \<open>
  A small concrete store: two files, one block of 1024 bytes of the first one cached, over the
  executable engine with a given list of faults. The witnesses run the operations on it.
\<close>

definition demo_tables :: tables where
  "demo_tables = \<lparr>files =
     [\<lparr>file_id = 1, relative_path = ''/a'', remote_size = 3000, local_size = 1024\<rparr>,
      \<lparr>file_id = 2, relative_path = ''/b'', remote_size = 50, local_size = 0\<rparr>],
     datablocks = [\<lparr>block_id = 1, blk_start_offset = 0, valid = 1, timestamp = 10, blk_file_id = 1\<rparr>],
     has_files = True, has_datablocks = True, foreign_keys = True\<rparr>"

definition demo_meta :: "int list \<Rightarrow> tdb meta" where
  "demo_meta faults = \<lparr>metaDataBase = \<lparr>td_tables = demo_tables, td_stmts = [], td_now = 20, td_faults = faults\<rparr>,
     meta_block_size = 1024, cache_used_size = 1024\<rparr>"

lemma demo_inv: "store_inv td_tables (demo_meta fs)"
  by (simp add: store_inv_def tables_of_def demo_meta_def demo_tables_def wf_tables_def accounted_def
      block_count_def total_local_def c_int64_def block_key_def)

lemma demo_room: "k \<le> 1000 \<Longrightarrow> room_for k td_tables (demo_meta fs)"
  by (simp add: room_for_def tables_of_def demo_meta_def demo_tables_def c_int64_def)

lemma demo_room_01: "room_for 0 td_tables (demo_meta fs)" "room_for 1 td_tables (demo_meta fs)"
  by (rule demo_room, simp)+

lemma demo_ready: "ready td_tables (demo_meta fs)"
  by (simp add: ready_def tables_of_def demo_meta_def demo_tables_def)

lemma demo_view: "view_of td_tables (demo_meta fs) = ({''/a'', ''/b''}, {(''/a'', 0)})"
  by (auto simp: view_of_def tables_of_def demo_meta_def demo_tables_def cache_view_def known_iff
      is_cached_iff path_id_def block_key_def split: if_splits)

lemma demo_counters [simp]: "meta_block_size (demo_meta fs) = 1024" "cache_used_size (demo_meta fs) = 1024"
  by (simp_all add: demo_meta_def)

end
