(* ===== verification/Meta_Trace.thy ===== *)
theory Meta_Trace
  imports Meta_Evict
begin

text \<open>
  What holds of the metadata whatever the program does with it: the schema constraints under
  every sequence of calls, with any failures in between. The theory also covers the start-up
  functions, the statements a lookup leaves open, and the deletion of a block that is absent.
\<close>

section \<open>The constraints of the schema\<close>

definition constraints :: "tables \<Rightarrow> bool" where
  "constraints t \<longleftrightarrow> wf_tables t \<and> foreign_keys t \<and>
     (\<not> has_files t \<longrightarrow> files t = []) \<and> (\<not> has_datablocks t \<longrightarrow> datablocks t = [])"

lemma constraints_set_local: "constraints t \<Longrightarrow> constraints (set_local p g t)"
  using wf_set_local [of t p g] by (simp add: constraints_def set_local_def)

lemma wf_tables_fk [simp]: "wf_tables (t\<lparr>foreign_keys := b\<rparr>) = wf_tables t"
  by (simp add: wf_tables_def)

lemma run_constraints:
  assumes run: "sql_run q t rs t'" and con: "constraints t"
  shows "constraints t'"
proof -
  have wf: "wf_tables t" and fk: "foreign_keys t"
    using con by (simp_all add: constraints_def)
  show ?thesis
    using run
  proof cases
    case (create_files)
    with con show ?thesis by (auto simp: constraints_def wf_tables_def)
  next
    case (create_datablocks)
    with con show ?thesis by (simp add: constraints_def wf_tables_def)
  next
    case (insert_file p i n)
    with run_insert_file(3,5) [OF _ wf] run con show ?thesis by (simp add: constraints_def)
  next
    case (insert_block p i off bid now)
    with run_insert_block(4,6) [OF _ wf] run con show ?thesis by (simp add: constraints_def)
  next
    case (delete_file p)
    with run_delete_file(2,3) [OF _ wf fk] run con show ?thesis
      by (simp add: constraints_def delete_file_rows_def)
  next
    case (delete_block off p)
    with run_delete_block(2,3) [OF _ wf] run con show ?thesis by (simp add: constraints_def)
  next
    case (touch_block off p now)
    with run_touch_block(2,4) [of off p t rs t'] run con show ?thesis
      by (simp add: constraints_def touch_rows_def)
  qed (use con constraints_set_local in \<open>auto simp: constraints_def\<close>)
qed

section \<open>Sequences of calls\<close>

text \<open>The calls of \<open>meta.h\<close> that reach the tables once the program is running.\<close>

datatype meta_call =
    CallCreateFile string size_t
  | CallInsertBlock string size_t
  | CallWriteBlks string "size_t list"
  | CallDeleteFile string
  | CallDeleteBlock string size_t
  | CallUpdateBlkTime string size_t
  | CallIsFileInCache string
  | CallAreBlocksInCache string "size_t list"

fun run_call :: "'db sqlite3 \<Rightarrow> meta_call \<Rightarrow> ('db, 'z) meta_scheme \<Rightarrow> ('db, 'z) meta_scheme" where
  "run_call E (CallCreateFile fn n) m = snd (create_file E fn n m)"
| "run_call E (CallInsertBlock fn b) m = snd (insert_block E fn b m)"
| "run_call E (CallWriteBlks fn bs) m = snd (write_blks E fn bs m)"
| "run_call E (CallDeleteFile fn) m = snd (delete_file E fn m)"
| "run_call E (CallDeleteBlock fn b) m = snd (delete_block E fn b m)"
| "run_call E (CallUpdateBlkTime fn b) m = snd (update_blk_time E fn b m)"
| "run_call E (CallIsFileInCache fn) m = snd (is_file_in_cache E fn m)"
| "run_call E (CallAreBlocksInCache fn bs) m = snd (snd (are_blocks_in_cache E fn bs m))"

lemma pure_select: "pure_query (SelectLocal p)" "pure_query (SelectFileId p)" "pure_query (SelectBlockId off p)"
  unfolding pure_query_def
  by (blast elim: run_select_localE run_select_file_idE run_select_block_idE)+

lemma no_error_cursor: "cursor_step c t SQLITE_DONE c' t' \<Longrightarrow> \<exists>q. c' = Finished q"
  by (cases rule: cursor_step.cases) auto

context sqlite_engine
begin

lemma stmt_exec_constraints:
  assumes "stmt_exec E q d = (r, d')" "no_rows q" "constraints (tabs d)"
  shows "constraints (tabs d')"
  using stmt_exec_cases [OF assms(1,2)] assms(3) run_constraints by auto

text \<open>Two steps and a finalize of one query, the shape of every lookup, change no table.\<close>

lemma two_steps_pure:
  assumes p: "sq_prepare E q d = (h, d1)" and s: "sq_step E h d1 = (rc, d2)"
    and s': "sq_step E h d2 = (rc', d3)" and f: "sq_finalize E h d3 = (rc'', d4)"
    and pure: "pure_query q"
  shows "tabs d2 = tabs d" "tabs d3 = tabs d" "rc' = SQLITE_DONE \<Longrightarrow> tabs d4 = tabs d"
proof -
  note pl = prepare_law [OF p]
  have "tabs d2 = tabs d \<and> tabs d3 = tabs d \<and> (rc' = SQLITE_DONE \<longrightarrow> tabs d4 = tabs d)"
  proof (cases "h = 0")
    case True
    with pl step_null [of d1] step_null [of d2] s s' show ?thesis by auto
  next
    case False
    with pl have h: "stmts d1 = (stmts d)(h \<mapsto> Ready q)" "tabs d1 = tabs d" by auto
    from step_query [OF s, of "Ready q" q, OF _ _ _ pure] h obtain c where
      c: "stmts d2 = (stmts d)(h \<mapsto> c)" "undisturbed c (tabs d2)" "cursor_sql c = q" "tabs d2 = tabs d"
      by auto
    from step_query [OF s', of c q, OF _ _ _ pure] c obtain c' where
      c': "stmts d3 = (stmts d)(h \<mapsto> c')" "tabs d3 = tabs d" by auto
    with finalize_law [OF f, of c'] c show ?thesis by auto
  qed
  then show "tabs d2 = tabs d" "tabs d3 = tabs d" "rc' = SQLITE_DONE \<Longrightarrow> tabs d4 = tabs d"
    by auto
qed

lemma row_exists_tables: "row_exists E q d = (r, d') \<Longrightarrow> pure_query q \<Longrightarrow> tabs d' = tabs d"
proof -
  assume re: "row_exists E q d = (r, d')" and pure: "pure_query q"
  obtain h d1 where p: "sq_prepare E q d = (h, d1)" by fastforce
  obtain rc d2 where s: "sq_step E h d1 = (rc, d2)" by fastforce
  obtain rc' d3 where s': "sq_step E h d2 = (rc', d3)" by fastforce
  obtain rc'' d4 where f: "sq_finalize E h d3 = (rc'', d4)" by fastforce
  show "tabs d' = tabs d"
    using two_steps_pure [OF p s s' f pure] re p s s' f
    by (auto simp: row_exists_def split: if_splits)
qed

lemma create_file_con: "constraints (tables_of tabs m) \<Longrightarrow> constraints (tables_of tabs (snd (create_file E fn n m)))"
  using stmt_exec_constraints [OF surjective_pairing dml_rows(1)]
  by (simp add: create_file_def tables_of_def split_beta)

lemma update_blk_time_con:
  "constraints (tables_of tabs m) \<Longrightarrow> constraints (tables_of tabs (snd (update_blk_time E fn b m)))"
  using stmt_exec_constraints [OF surjective_pairing dml_rows(7)]
  by (simp add: update_blk_time_def tables_of_def split_beta)

lemma two_stmts_con:
  assumes "stmt_exec E q1 d = (r1, d1)" "stmt_exec E q2 d1 = (r2, d2)" "no_rows q1" "no_rows q2"
    "constraints (tabs d)"
  shows "constraints (tabs d1)" "constraints (tabs d2)"
  using stmt_exec_constraints assms by blast+

lemma insert_block_con:
  assumes "constraints (tables_of tabs m)"
  shows "constraints (tables_of tabs (snd (insert_block E fn b m)))"
proof -
  obtain r1 d1 where e1: "stmt_exec E (InsertBlock (c_int64 b) fn) (metaDataBase m) = (r1, d1)" by fastforce
  obtain r2 d2 where e2: "stmt_exec E (AddLocal (c_int64 (meta_block_size m)) fn) d1 = (r2, d2)" by fastforce
  from two_stmts_con [OF e1 e2 dml_rows(2,3)] assms e1 e2 show ?thesis
    by (simp add: insert_block_def tables_of_def)
qed

lemma delete_block_con:
  assumes "constraints (tables_of tabs m)"
  shows "constraints (tables_of tabs (snd (delete_block E fn b m)))"
proof -
  obtain r1 d1 where e1: "stmt_exec E (DeleteBlock (c_int64 b) fn) (metaDataBase m) = (r1, d1)" by fastforce
  obtain r2 d2 where e2: "stmt_exec E (SubLocal (c_int64 (meta_block_size m)) fn) d1 = (r2, d2)" by fastforce
  from two_stmts_con [OF e1 e2 dml_rows(6,4)] assms e1 e2 show ?thesis
    by (simp add: delete_block_def tables_of_def)
qed

lemma delete_file_con:
  assumes "constraints (tables_of tabs m)"
  shows "constraints (tables_of tabs (snd (delete_file E fn m)))"
proof -
  obtain h d1 where p: "sq_prepare E (SelectLocal fn) (metaDataBase m) = (h, d1)" by fastforce
  obtain rc d2 where s: "sq_step E h d1 = (rc, d2)" by fastforce
  obtain rc' d3 where s': "sq_step E h d2 = (rc', d3)" by fastforce
  obtain rc'' d4 where f: "sq_finalize E h d3 = (rc'', d4)" by fastforce
  obtain r5 d5 where e: "stmt_exec E (DeleteFile fn) d4 = (r5, d5)" by fastforce
  note t = two_steps_pure [OF p s s' f pure_select(1)]
  note d5 = stmt_exec_constraints [OF e dml_rows(5)]
  show ?thesis
    using p s s' f e t d5 assms by (simp add: delete_file_def Let_def tables_of_def)
qed

lemma is_file_in_cache_tables: "tables_of tabs (snd (is_file_in_cache E fn m)) = tables_of tabs m"
  using row_exists_tables [OF surjective_pairing pure_select(2)]
  by (simp add: is_file_in_cache_def tables_of_def split_beta)

lemma is_blk_in_cache_tables: "tables_of tabs (snd (is_blk_in_cache E fn b m)) = tables_of tabs m"
  using row_exists_tables [OF surjective_pairing pure_select(3)]
  by (simp add: is_blk_in_cache_def tables_of_def split_beta)

lemma blocks_loop_tables: "tables_of tabs (snd (snd (blocks_loop E fn bs th m))) = tables_of tabs m"
proof (induction bs arbitrary: th m)
  case (Cons b bs)
  then show ?case
    by (simp add: split_beta is_blk_in_cache_tables)
qed simp

lemma write_loop_con: "constraints (tables_of tabs m) \<Longrightarrow> constraints (tables_of tabs (write_loop E fn bs m))"
proof (induction bs arbitrary: m)
  case (Cons x bs)
  then show ?case
    by (cases x) (simp add: insert_block_con update_blk_time_con)
qed simp

lemma write_blks_con:
  assumes "constraints (tables_of tabs m)"
  shows "constraints (tables_of tabs (snd (write_blks E fn bs m)))"
proof -
  obtain tot arr m1 where a: "are_blocks_in_cache E fn bs m = (tot, arr, m1)"
    by (cases "are_blocks_in_cache E fn bs m") auto
  then have "tables_of tabs m1 = tables_of tabs m"
    using blocks_loop_tables [of fn bs 1 m] by (simp add: are_blocks_in_cache_def)
  with write_loop_con [of m1] assms a show ?thesis
    by (simp add: write_blks_def)
qed

lemma run_call_con: "constraints (tables_of tabs m) \<Longrightarrow> constraints (tables_of tabs (run_call E c m))"
  by (cases c)
    (simp_all add: create_file_con insert_block_con write_blks_con delete_file_con delete_block_con
      update_blk_time_con is_file_in_cache_tables are_blocks_in_cache_def blocks_loop_tables)

lemma run_calls_con: "constraints (tables_of tabs m) \<Longrightarrow> constraints (tables_of tabs (fold (run_call E) cs m))"
  by (induction cs arbitrary: m) (simp_all add: run_call_con)

end

section \<open>Start-up\<close>

lemma exec_singleton:
  assumes "exec_run [q] t rc out t'"
  obtains rows where "rc = SQLITE_OK" "sql_run q t rows t'" "out = callback_rows q rows"
    | "rc \<noteq> SQLITE_OK" "out = []" "t' = t"
  using assms by (auto elim!: exec_consE exec_nilE)

lemma str_to_num_show_nat: "n < 2 ^ 64 \<Longrightarrow> str_to_num (show_nat n) = Ret (of_nat n)"
  using show_nat_Cons [of n] digit_not_special
  by (auto simp: str_to_num_def strtoul_show_nat)

lemma str_to_num_negative: "str_to_num (CHR ''-'' # s) = Exit 1"
  by (simp add: str_to_num_def)

context sqlite_engine
begin

lemma open_db_foreign_keys:
  assumes "open_db E name m = Ret (0, m')"
  shows "foreign_keys (tables_of tabs m')"
proof -
  obtain ret d where o: "sq_open E name = (ret, d)" by fastforce
  obtain ret' out d' where x: "sq_exec E [ForeignKeysOn] d = (ret', out, d')"
    by (cases "sq_exec E [ForeignKeysOn] d") auto
  from assms o x have ok: "ret' = SQLITE_OK" and m': "tables_of tabs m' = tabs d'"
    by (auto simp: open_db_def split: if_splits)
  from exec_law [OF x] have "exec_run [ForeignKeysOn] (tabs d) ret' out (tabs d')" by simp
  with ok m' show ?thesis
    by (auto elim!: exec_singleton run_foreign_keysE)
qed

lemma init_frame:
  assumes "init_cache_used_size E m = Ret m'"
  shows "tables_of tabs m' = tables_of tabs m \<and> meta_block_size m' = meta_block_size m \<and>
    (cache_used_size m' = cache_used_size m \<or>
     files (tables_of tabs m) \<noteq> [] \<and> in_int64 (total_local (tables_of tabs m)) \<and>
       str_to_num (show_int (total_local (tables_of tabs m))) = Ret (cache_used_size m'))"
proof -
  obtain ret out d where x: "sq_exec E [SumLocal] (metaDataBase m) = (ret, out, d)"
    by (cases "sq_exec E [SumLocal] (metaDataBase m)") auto
  from exec_law [OF x] have "exec_run [SumLocal] (tabs (metaDataBase m)) ret out (tabs d)" by simp
  then show ?thesis
  proof (cases rule: exec_singleton)
    case (1 rows)
    from 1(2) show ?thesis
      by (rule run_sum_localE)
        (use assms x 1 in \<open>auto simp: init_cache_used_size_def callback_rows_def callback_def
          tables_of_def total_local_def obind_eq_Ret\<close>)
  next
    case 2
    with assms x show ?thesis
      by (auto simp: init_cache_used_size_def tables_of_def)
  qed
qed

text \<open>The deletion of a block that is not cached still lowers the counters.\<close>

lemma delete_block_absent:
  assumes call: "delete_block E fn off m = (0, m')" and inv: "store_inv tabs m"
    and absent: "(fn, c_int64 off) \<notin> snd (view_of tabs m)"
    and room: "room_for 0 tabs m"
  shows "view_of tabs m' = view_of tabs m" "cache_used_size m' = cache_used_size m - meta_block_size m"
    "meta_block_size m \<noteq> 0 \<Longrightarrow> \<not> store_inv tabs m'"
proof -
  let ?d = "metaDataBase m" and ?n = "c_int64 (meta_block_size m)"
  obtain r1 d1 where e1: "stmt_exec E (DeleteBlock (c_int64 off) fn) ?d = (r1, d1)" by fastforce
  obtain r2 d2 where e2: "stmt_exec E (SubLocal ?n fn) d1 = (r2, d2)" by fastforce
  have wf: "wf_tables (tabs ?d)" and acc: "accounted ?n (tabs ?d)"
    using inv by (simp_all add: store_inv_def tables_of_def)
  have res: "r1 = 0" "r2 = 0" "m' = m\<lparr>metaDataBase := d2, cache_used_size := cache_used_size m - meta_block_size m\<rparr>"
    using call e1 e2 by (auto simp: delete_block_def split: if_splits)
  have s1: "sql_run (DeleteBlock (c_int64 off) fn) (tabs ?d) [] (tabs d1)"
    using stmt_exec_cases [OF e1 dml_rows(6)] res by simp
  have s2: "sql_run (SubLocal ?n fn) (tabs d1) [] (tabs d2)"
    using stmt_exec_cases [OF e2 dml_rows(4)] res by simp
  note i = run_delete_block [OF s1 wf]
  from s2 obtain g where g: "\<And>x. in_int64 (x - ?n) \<Longrightarrow> g x = x - ?n"
    and t2: "tabs d2 = set_local fn g (tabs d1)" by (elim run_sub_localE) blast
  have nc: "\<not> is_cached fn (c_int64 off) (tabs ?d)"
    using absent by (simp add: view_of_def tables_of_def cache_view_def)
  have view: "cache_view (tabs d1) = cache_view (tabs ?d)"
    using i(5) nc by (simp add: cache_view_def)
  then show "view_of tabs m' = view_of tabs m"
    by (simp add: res view_of_def tables_of_def t2)
  show used: "cache_used_size m' = cache_used_size m - meta_block_size m"
    by (simp add: res)
  show "\<not> store_inv tabs m'" if nz: "meta_block_size m \<noteq> 0"
  proof
    assume inv': "store_inv tabs m'"
    have bc: "block_count j (tabs d2) = block_count j (tabs ?d)" for j
      using i(6) nc by (simp add: t2)
    have acc': "accounted ?n (set_local fn g (tabs d1))"
      using inv' by (simp add: res store_inv_def tables_of_def t2)
    show False
    proof (cases "known fn (tabs ?d)")
      case True
      then obtain f where f: "f \<in> set (files (tabs ?d))" "relative_path f = fn"
        by (auto simp: known_iff)
      have size: "local_size f = ?n * block_count (file_id f) (tabs ?d)"
        using acc f by (simp add: accounted_def)
      have nn: "0 \<le> ?n" "?n < 2 ^ 63"
        using room by (auto simp: room_for_def c_int64_def) (use sint_lt [of "meta_block_size m"] in simp)
      have bnd: "0 \<le> local_size f" "local_size f < 2 ^ 63"
      proof -
        have c: "0 \<le> block_count (file_id f) (tabs ?d)"
          "block_count (file_id f) (tabs ?d) \<le> int (length (datablocks (tabs ?d)))"
          by (simp_all add: block_count_def)
        with nn size show "0 \<le> local_size f" by simp
        have "?n * block_count (file_id f) (tabs ?d) \<le> ?n * int (length (datablocks (tabs ?d)))"
          using c nn by (intro mult_left_mono)
        with room size show "local_size f < 2 ^ 63"
          by (simp add: room_for_def tables_of_def)
      qed
      with nn have "g (local_size f) = local_size f - ?n"
        by (intro g) (simp add: in_int64_def)
      moreover have "g (local_size f) = ?n * block_count (file_id f) (tabs d1)"
        using acc' f i(4) by (auto simp: accounted_set_local)
      ultimately have "?n = 0"
        using size bc [of "file_id f"] by (simp add: t2)
      then have "c_int64 (meta_block_size m) = c_int64 0"
        by (simp add: c_int64_def)
      then show False
        unfolding c_int64_inject using nz by simp
    next
      case False
      then have "\<forall>f \<in> set (files (tabs d1)). relative_path f \<noteq> fn"
        using i(4) by (auto simp: known_iff)
      then have "files (tabs d2) = files (tabs ?d)"
        using i(4) by (auto simp: t2 set_local_def intro: map_idI)
      then have "cache_used_size m' = cache_used_size m"
        using inv inv' by (simp add: res store_inv_def tables_of_def total_local_def)
      with used nz show False by simp
    qed
  qed
qed

lemma is_blk_in_cache_leak:
  assumes call: "is_blk_in_cache E fn off m = (0, m')" and inv: "store_inv tabs m"
  shows "\<exists>h. stmts (metaDataBase m) h = None \<and>
    stmts (metaDataBase m') = (stmts (metaDataBase m))(h \<mapsto> Finished (SelectBlockId (c_int64 off) fn))"
proof -
  let ?q = "SelectBlockId (c_int64 off) fn" and ?t = "tabs (metaDataBase m)"
  obtain d where e: "row_exists E ?q (metaDataBase m) = (0, d)"
    and m': "m' = m\<lparr>metaDataBase := d\<rparr>"
    using call by (auto simp: is_blk_in_cache_def split: prod.splits)
  let ?R = "map (\<lambda>b. [VInt (block_id b)]) (filter (block_at (c_int64 off) fn ?t) (datablocks ?t))"
  have wf: "wf_tables ?t" using inv by (simp add: store_inv_def tables_of_def)
  have one: "length ?R \<le> 1" using block_rows_le_1 [OF wf] by simp
  have rows: "rs = ?R \<and> t' = ?t" if "sql_run ?q ?t rs t'" for rs t'
    using that by (auto elim: run_select_block_idE)
  from row_exists_cases [OF e rows one] show ?thesis by (simp add: m')
qed

end

context sqlite_reliable
begin

lemma init_reliable:
  assumes call: "init_cache_used_size E m = r" and has: "has_files (tables_of tabs m)"
    and ne: "files (tables_of tabs m) \<noteq> []"
    and range: "0 \<le> total_local (tables_of tabs m)" "total_local (tables_of tabs m) < 2 ^ 63"
  shows "\<exists>m'. r = Ret m' \<and> cache_used_size m' = word_of_int (total_local (tables_of tabs m))"
proof -
  let ?t = "tabs (metaDataBase m)"
  let ?s = "total_local ?t"
  obtain ret out d where x: "sq_exec E [SumLocal] (metaDataBase m) = (ret, out, d)"
    by (cases "sq_exec E [SumLocal] (metaDataBase m)") auto
  from ne range have run: "sql_run SumLocal ?t [[VInt ?s]] ?t"
    using sql_run.sum_local [of ?t] has by (simp add: tables_of_def in_int64_def total_local_def)
  from exec_reliable [OF run] x have ok: "ret = SQLITE_OK" by simp
  from exec_law [OF x] have "exec_run [SumLocal] ?t ret out (tabs d)" by simp
  then obtain rows where "sql_run SumLocal ?t rows (tabs d)" "out = callback_rows SumLocal rows"
    using ok by (auto elim: exec_singleton)
  then have out: "out = [[(''SUM(local_size)'', Some (show_int ?s))]]"
    using ne by (auto elim!: run_sum_localE simp: callback_rows_def tables_of_def total_local_def)
  have "str_to_num (show_int ?s) = Ret (word_of_int ?s)"
    using range str_to_num_show_nat [of "nat ?s"] by (simp add: show_int_def tables_of_def nat_less_iff)
  then show ?thesis
    using call x out by (auto simp: init_cache_used_size_def callback_def tables_of_def)
qed

lemma delete_block_reliable:
  assumes call: "delete_block E fn off m = (r, m')" and rd: "ready tabs m"
  shows "r = 0"
proof -
  let ?d = "metaDataBase m" and ?n = "c_int64 (meta_block_size m)"
  obtain r1 d1 where e1: "stmt_exec E (DeleteBlock (c_int64 off) fn) ?d = (r1, d1)" by fastforce
  obtain r2 d2 where e2: "stmt_exec E (SubLocal ?n fn) d1 = (r2, d2)" by fastforce
  have has: "has_files (tabs ?d)" "has_datablocks (tabs ?d)"
    using rd by (simp_all add: ready_def tables_of_def)
  have r1: "r1 = 0"
    by (rule stmt_exec_reliable [OF e1 has dml_rows(6) sql_run.delete_block [OF has(2)]])
  then have s1: "sql_run (DeleteBlock (c_int64 off) fn) (tabs ?d) [] (tabs d1)"
    using stmt_exec_cases [OF e1 dml_rows(6)] by simp
  from run_keeps_tables [OF s1] has have has1: "has_files (tabs d1)" "has_datablocks (tabs d1)" by auto
  have "r2 = 0"
    by (rule stmt_exec_reliable [OF e2 has1 dml_rows(4) sql_run.sub_local [OF has1(1), of ?n "\<lambda>x. x - ?n"]])
      simp
  with call e1 e2 r1 show ?thesis
    by (simp add: delete_block_def)
qed

end

end
