(* ===== verification/Meta_Properties.thy ===== *)
theory Meta_Properties
  imports Meta_Demo Meta_Trace
begin

text \<open>
  The properties of \<open>meta.c\<close>, for every SQLite that keeps its documented behaviour
  (\<open>sqlite_engine\<close>), and for one whose steps do not fail by themselves (\<open>sqlite_reliable\<close>).
  Every witness runs the function on the executable engine.
\<close>

text \<open>
  C10: Recording a block ends in one of three ways. It returns 0, and then the block was not
  cached before, the file has a row, exactly this block is added, \<open>cache_used_size\<close> grows by
  one block size and the invariant of the store is kept; or it returns -1 with the store
  untouched; or it returns -1 after the block row was inserted but the charge was not made.
\<close>

theorem insert_block_outcomes:
  assumes "sqlite_engine E tabs stmts" "store_inv tabs m" "room_for 1 tabs m"
    and "insert_block E fn off m = (r, m')"
  shows "r = 0 \<and> fn \<in> fst (view_of tabs m) \<and> (fn, c_int64 off) \<notin> snd (view_of tabs m) \<and>
      store_inv tabs m' \<and> cache_used_size m' = cache_used_size m + meta_block_size m \<and>
      view_of tabs m' = (fst (view_of tabs m), insert (fn, c_int64 off) (snd (view_of tabs m))) \<or>
    r = - 1 \<and> same_store tabs m m' \<or>
    r = - 1 \<and> (fn, c_int64 off) \<notin> snd (view_of tabs m) \<and>
      cache_used_size m' = cache_used_size m \<and> files (tables_of tabs m') = files (tables_of tabs m) \<and>
      view_of tabs m' = (fst (view_of tabs m), insert (fn, c_int64 off) (snd (view_of tabs m)))"
  using sqlite_engine.insert_block_cases [OF assms(1,4,2,3)] by blast

theorem insert_block_outcomes_witness:
  "fst (insert_block (tdb_engine False) ''/a'' 1024 (demo_meta [])) = 0 \<and>
   store_inv td_tables (snd (insert_block (tdb_engine False) ''/a'' 1024 (demo_meta []))) \<and>
   cache_used_size (snd (insert_block (tdb_engine False) ''/a'' 1024 (demo_meta []))) = 2048"
proof -
  have r: "fst (insert_block (tdb_engine False) ''/a'' 1024 (demo_meta [])) = 0"
    by code_simp
  with insert_block_outcomes [OF td.sqlite_engine_axioms demo_inv demo_room_01(2) surjective_pairing,
      of False "''/a''" 1024 "[]"] show ?thesis
    by simp
qed

text \<open>
  The two statements of \<open>insert_block\<close> are not one transaction: there is a run from a
  consistent store in which the second one fails, the call reports the failure, and the
  block stays recorded without its charge, so that the invariant is lost.
\<close>

theorem insert_block_failure_breaks_accounts:
  "\<exists>(m :: tdb meta) r m'. store_inv td_tables m \<and> insert_block (tdb_engine True) ''/a'' 1024 m = (r, m') \<and>
     r = - 1 \<and> (''/a'', 1024) \<notin> snd (view_of td_tables m) \<and> (''/a'', 1024) \<in> snd (view_of td_tables m') \<and>
     cache_used_size m' = cache_used_size m \<and> \<not> store_inv td_tables m'"
proof -
  let ?m = "demo_meta [0, 10]"
  let ?m' = "snd (insert_block (tdb_engine True) ''/a'' 1024 ?m)"
  have r: "fst (insert_block (tdb_engine True) ''/a'' 1024 ?m) = - 1"
    by code_simp
  have c: "is_cached ''/a'' 1024 (tables_of td_tables ?m')"
    unfolding tables_of_def by code_simp
  have u: "cache_used_size ?m' = 1024" by code_simp
  have a: "map local_size (filter (\<lambda>f. file_id f = 1) (files (tables_of td_tables ?m'))) = [1024]"
    unfolding tables_of_def by code_simp
  have b: "length (filter (\<lambda>b. blk_file_id b = 1) (datablocks (tables_of td_tables ?m'))) = 2"
    unfolding tables_of_def by code_simp
  have n: "meta_block_size ?m' = 1024" by code_simp
  have "\<not> store_inv td_tables ?m'"
  proof
    assume "store_inv td_tables ?m'"
    then have acc: "accounted 1024 (tables_of td_tables ?m')"
      by (simp add: store_inv_def n c_int64_def)
    from a obtain f where "filter (\<lambda>f. file_id f = 1) (files (tables_of td_tables ?m')) = [f]" "local_size f = 1024"
      by (auto simp: map_eq_Cons_conv)
    then have "f \<in> set (files (tables_of td_tables ?m'))" "file_id f = 1" "local_size f = 1024"
      by (auto simp: filter_eq_Cons_iff)
    with acc b show False by (auto simp: accounted_def block_count_def)
  qed
  moreover have "insert_block (tdb_engine True) ''/a'' 1024 ?m = (- 1, ?m')"
    by (simp add: r prod_eq_iff)
  moreover have "(''/a'', 1024) \<in> snd (view_of td_tables ?m')"
    using c by (simp add: view_of_def cache_view_def)
  moreover have "(''/a'', 1024) \<notin> snd (view_of td_tables ?m)" "cache_used_size ?m' = cache_used_size ?m"
    by (simp_all add: demo_view u)
  ultimately show ?thesis
    using demo_inv by blast
qed

text \<open>
  C4: When SQLite itself does not fail, \<open>write_blks\<close> of a file that has a row returns 0 and
  leaves exactly the given blocks recorded in addition to those that were; blocks already
  cached and blocks listed twice are charged once, so the invariant of the store is kept.
\<close>

theorem write_blks_records_all:
  assumes "sqlite_reliable E tabs stmts" "store_inv tabs m" "ready tabs m"
    and "room_for (length bs) tabs m" "fn \<in> fst (view_of tabs m)" "write_blks E fn bs m = (r, m')"
  shows "r = 0 \<and> store_inv tabs m' \<and>
    view_of tabs m' = (fst (view_of tabs m), snd (view_of tabs m) \<union> (\<lambda>b. (fn, c_int64 b)) ` set bs)"
  using sqlite_reliable.write_blks_reliable [OF assms(1,6,2,3), of 0] assms(4,5) by simp

theorem write_blks_records_all_witness:
  "snd (view_of td_tables (snd (write_blks (tdb_engine False) ''/a'' [0, 1024, 1024] (demo_meta [])))) =
     {(''/a'', 0), (''/a'', 1024)}"
proof -
  have "''/a'' \<in> fst (view_of td_tables (demo_meta []))"
    by (simp add: demo_view)
  from write_blks_records_all [OF rel.sqlite_reliable_axioms demo_inv demo_ready _ this surjective_pairing,
      of "[0, 1024, 1024]"] show ?thesis
    by (auto simp: demo_room demo_view c_int64_def)
qed

text \<open>
  C5: The answer of \<open>are_blocks_in_cache\<close> changes nothing in the store. Entry by entry the
  array holds 1 for a cached block, 0 for one that is not, or -1 for a failed lookup; the
  total is 1 exactly when no entry is 0. So a failed lookup counts as a hit, and the total
  is the truth about all blocks only when no lookup failed.
\<close>

theorem are_blocks_in_cache_answer:
  assumes "sqlite_engine E tabs stmts" "store_inv tabs m"
    and "are_blocks_in_cache E fn bs m = (tot, arr, m')"
  shows "same_store tabs m m' \<and>
    list_all2 (\<lambda>b hit. hit = - 1 \<or> hit = (if (fn, c_int64 b) \<in> snd (view_of tabs m) then 1 else 0)) bs arr \<and>
    tot = (if 0 \<in> set arr then 0 else 1) \<and>
    (- 1 \<notin> set arr \<longrightarrow> (tot = 1 \<longleftrightarrow> (\<forall>b \<in> set bs. (fn, c_int64 b) \<in> snd (view_of tabs m))))"
proof -
  note c = sqlite_engine.are_blocks_in_cache_cases [OF assms(1,3,2)]
  have all: "list_all2 (\<lambda>b hit. hit = - 1 \<or> hit = (if (fn, c_int64 b) \<in> snd (view_of tabs m) then 1 else 0)) bs arr"
    using c(2) by (rule list_all2_mono) (auto simp: hit_ok_def)
  have "tot = 1 \<longleftrightarrow> (\<forall>b \<in> set bs. (fn, c_int64 b) \<in> snd (view_of tabs m))" if "- 1 \<notin> set arr"
  proof -
    from c(2) that have "(0 \<notin> set arr) \<longleftrightarrow> (\<forall>b \<in> set bs. (fn, c_int64 b) \<in> snd (view_of tabs m))"
      by (induction rule: list_all2_induct) (auto simp: hit_ok_def)
    with c(3) show ?thesis by auto
  qed
  with all c show ?thesis by blast
qed

theorem are_blocks_in_cache_answer_witness:
  "fst (snd (are_blocks_in_cache (tdb_engine True) ''/a'' [1024, 0] (demo_meta [10]))) = [- 1, 1] \<and>
   fst (are_blocks_in_cache (tdb_engine True) ''/a'' [1024, 0] (demo_meta [10])) = 1 \<and>
   (''/a'', 1024) \<notin> snd (view_of td_tables (demo_meta [10]))"
proof -
  let ?r = "are_blocks_in_cache (tdb_engine True) ''/a'' [1024, 0] (demo_meta [10])"
  have arr: "fst (snd ?r) = [- 1, 1]" by code_simp
  have "?r = (fst ?r, fst (snd ?r), snd (snd ?r))" by simp
  from are_blocks_in_cache_answer [OF td.sqlite_engine_axioms demo_inv this]
  have "fst ?r = (if 0 \<in> set (fst (snd ?r)) then 0 else 1)" by blast
  with arr show ?thesis by (simp add: demo_view)
qed

text \<open>
  With an SQLite that does not fail, \<open>is_file_in_cache\<close> changes nothing in the store and
  its answer is exact: 1 for a file with a row, 0 for a file without.
\<close>

theorem is_file_in_cache_answer:
  assumes "sqlite_reliable E tabs stmts" "store_inv tabs m" "ready tabs m"
    and "is_file_in_cache E fn m = (r, m')"
  shows "same_store tabs m m' \<and> r = (if fn \<in> fst (view_of tabs m) then 1 else 0)"
  using sqlite_reliable.is_file_in_cache_reliable [OF assms(1,4,2,3)]
    sqlite_engine.is_file_in_cache_cases [OF sqlite_reliable.axioms(1) [OF assms(1)] assms(4,2)]
  by blast

theorem is_file_in_cache_answer_witness:
  "fst (is_file_in_cache (tdb_engine False) ''/a'' (demo_meta [])) = 1 \<and>
   fst (is_file_in_cache (tdb_engine False) ''/c'' (demo_meta [])) = 0"
  using is_file_in_cache_answer [OF rel.sqlite_reliable_axioms demo_inv demo_ready surjective_pairing, of "[]" "''/a''"]
    is_file_in_cache_answer [OF rel.sqlite_reliable_axioms demo_inv demo_ready surjective_pairing, of "[]" "''/c''"]
  by (simp add: demo_view)

text \<open>
  C12: Creating a file row either returns 0, and then the name was new, exactly this file is
  added without any block, and the invariant is kept; or it returns -1 and changes nothing.
\<close>

theorem create_file_outcomes:
  assumes "sqlite_engine E tabs stmts" "store_inv tabs m" "create_file E fn n m = (r, m')"
  shows "r = 0 \<and> fn \<notin> fst (view_of tabs m) \<and> store_inv tabs m' \<and>
      view_of tabs m' = (insert fn (fst (view_of tabs m)), snd (view_of tabs m)) \<or>
    r = - 1 \<and> same_store tabs m m'"
  using sqlite_engine.create_file_cases [OF assms(1,3,2)] by blast

theorem create_file_outcomes_witness:
  "fst (create_file (tdb_engine False) ''/c'' 70 (demo_meta [])) = 0 \<and>
   view_of td_tables (snd (create_file (tdb_engine False) ''/c'' 70 (demo_meta []))) =
     ({''/a'', ''/b'', ''/c''}, {(''/a'', 0)})"
proof -
  have r: "fst (create_file (tdb_engine False) ''/c'' 70 (demo_meta [])) = 0"
    by code_simp
  with create_file_outcomes [OF td.sqlite_engine_axioms demo_inv surjective_pairing, of False "''/c''" 70 "[]"]
  show ?thesis by (auto simp: demo_view)
qed

text \<open>
  C11: Deleting a file that has a row either returns 0, and then exactly this file and, by the
  foreign key's cascade, all its blocks are gone and \<open>cache_used_size\<close> is again the sum of
  the remaining charges; or it returns -1 and the tables are as before.
\<close>

theorem delete_file_outcomes:
  assumes "sqlite_engine E tabs stmts" "store_inv tabs m" "fn \<in> fst (view_of tabs m)"
    and "delete_file E fn m = (r, m')"
  shows "r = 0 \<and> store_inv tabs m' \<and>
      view_of tabs m' = (fst (view_of tabs m) - {fn}, {x \<in> snd (view_of tabs m). fst x \<noteq> fn}) \<or>
    r = - 1 \<and> tables_of tabs m' = tables_of tabs m"
  using sqlite_engine.delete_file_cases [OF assms(1,4,2,3)] by blast

theorem delete_file_outcomes_witness:
  "fst (delete_file (tdb_engine False) ''/a'' (demo_meta [])) = 0 \<and>
   view_of td_tables (snd (delete_file (tdb_engine False) ''/a'' (demo_meta []))) = ({''/b''}, {}) \<and>
   store_inv td_tables (snd (delete_file (tdb_engine False) ''/a'' (demo_meta [])))"
proof -
  have r: "fst (delete_file (tdb_engine False) ''/a'' (demo_meta [])) = 0"
    by code_simp
  have "''/a'' \<in> fst (view_of td_tables (demo_meta []))"
    by (simp add: demo_view)
  from r delete_file_outcomes [OF td.sqlite_engine_axioms demo_inv this surjective_pairing, of False]
  show ?thesis by (auto simp: demo_view)
qed

text \<open>
  Deleting a cached block either returns 0, and then exactly this block is gone and its
  size is no longer charged; or it returns -1 with the store untouched, or with the block
  gone and the charge kept.
\<close>

theorem delete_block_outcomes:
  assumes "sqlite_engine E tabs stmts" "store_inv tabs m" "room_for 0 tabs m"
    and "(fn, c_int64 off) \<in> snd (view_of tabs m)" "delete_block E fn off m = (r, m')"
  shows "r = 0 \<and> store_inv tabs m' \<and> cache_used_size m' = cache_used_size m - meta_block_size m \<and>
      view_of tabs m' = (fst (view_of tabs m), snd (view_of tabs m) - {(fn, c_int64 off)}) \<or>
    r = - 1 \<and> same_store tabs m m' \<or>
    r = - 1 \<and> cache_used_size m' = cache_used_size m \<and>
      view_of tabs m' = (fst (view_of tabs m), snd (view_of tabs m) - {(fn, c_int64 off)})"
  using sqlite_engine.delete_block_cases [OF assms(1,5,2,3,4)] by blast

theorem delete_block_outcomes_witness:
  "fst (delete_block (tdb_engine False) ''/a'' 0 (demo_meta [])) = 0 \<and>
   snd (view_of td_tables (snd (delete_block (tdb_engine False) ''/a'' 0 (demo_meta [])))) = {} \<and>
   cache_used_size (snd (delete_block (tdb_engine False) ''/a'' 0 (demo_meta []))) = 0"
proof -
  have r: "fst (delete_block (tdb_engine False) ''/a'' 0 (demo_meta [])) = 0"
    by code_simp
  have c: "(''/a'', c_int64 0) \<in> snd (view_of td_tables (demo_meta []))"
    by (simp add: demo_view c_int64_def)
  from r delete_block_outcomes [OF td.sqlite_engine_axioms demo_inv demo_room_01(1) c surjective_pairing, of False]
  show ?thesis by (simp add: demo_view c_int64_def)
qed

text \<open>
  Deleting a block that is not cached is not refused: with an SQLite that does not fail
  it returns 0, leaves the set of cached blocks as it was, and still takes one block size off
  \<open>cache_used_size\<close>, which breaks the invariant of the store unless the block size is zero.
\<close>

theorem delete_block_absent_corrupts:
  assumes "sqlite_reliable E tabs stmts" "store_inv tabs m" "ready tabs m" "room_for 0 tabs m"
    and "(fn, c_int64 off) \<notin> snd (view_of tabs m)" "delete_block E fn off m = (r, m')"
  shows "r = 0 \<and> view_of tabs m' = view_of tabs m \<and>
    cache_used_size m' = cache_used_size m - meta_block_size m \<and>
    (meta_block_size m \<noteq> 0 \<longrightarrow> \<not> store_inv tabs m')"
proof -
  have r: "r = 0"
    using sqlite_reliable.delete_block_reliable [OF assms(1,6,3)] .
  note call = assms(6) [unfolded r]
  note a = sqlite_engine.delete_block_absent [OF sqlite_reliable.axioms(1) [OF assms(1)] call assms(2,5,4)]
  from r a show ?thesis by blast
qed

theorem delete_block_absent_corrupts_witness:
  "fst (delete_block (tdb_engine False) ''/b'' 0 (demo_meta [])) = 0 \<and>
   snd (view_of td_tables (snd (delete_block (tdb_engine False) ''/b'' 0 (demo_meta [])))) = {(''/a'', 0)} \<and>
   cache_used_size (snd (delete_block (tdb_engine False) ''/b'' 0 (demo_meta []))) = 0 \<and>
   \<not> store_inv td_tables (snd (delete_block (tdb_engine False) ''/b'' 0 (demo_meta [])))"
proof -
  have c: "(''/b'', c_int64 0) \<notin> snd (view_of td_tables (demo_meta []))"
    by (simp add: demo_view)
  from delete_block_absent_corrupts [OF rel.sqlite_reliable_axioms demo_inv demo_ready demo_room_01(1) c surjective_pairing]
  show ?thesis by (simp add: demo_view)
qed

text \<open>
  C14: \<open>evict_blocks\<close> terminates, whatever SQLite answers. If it returns, it returns 0 or -1,
  never a count, and the store is as before: no block has been evicted. On 0 the arrays
  start with the offsets and file ids of the least recently used blocks in the order of
  their timestamps, as many as the SQL limit allows: at most \<open>num_blks\<close>, and all of them where
  \<open>num_blks\<close> is negative as a signed 64-bit number.
\<close>

theorem evict_blocks_selects_oldest:
  assumes "sqlite_engine E tabs stmts"
  shows "\<exists>res. evict_blocks E num_blks a m = Some res \<and>
    (\<forall>ret a' m'. res = Ret (ret, a', m') \<longrightarrow> same_store tabs m m' \<and> (ret = 0 \<or> ret = - 1) \<and>
      (ret = 0 \<longrightarrow> (\<exists>bs. mset bs = mset (datablocks (tables_of tabs m)) \<and> sorted (map timestamp bs) \<and>
        filled 0 (limited (c_int64 num_blks) bs) a a')))"
  using sqlite_engine.evict_blocks_result [OF assms] .

theorem evict_blocks_selects_oldest_witness:
  "\<exists>res. evict_blocks (tdb_engine False) 4 \<lparr>ev_file_ids = [0, 0], ev_filenames = [None, None], ev_offsets = [7, 7]\<rparr>
     (demo_meta []) = Some res"
  using evict_blocks_selects_oldest [OF td.sqlite_engine_axioms, of False 4 _ "demo_meta []"] by blast

text \<open>
  A lookup that misses leaves its statement open: after \<open>is_blk_in_cache\<close> returned 0 the
  connection has one prepared statement more than before, for every SQLite that behaves as
  documented.
\<close>

theorem lookup_miss_leaks_statement:
  assumes "sqlite_engine E tabs stmts" "store_inv tabs m" "is_blk_in_cache E fn off m = (0, m')"
  shows "\<exists>h. stmts (metaDataBase m) h = None \<and>
    stmts (metaDataBase m') = (stmts (metaDataBase m))(h \<mapsto> Finished (SelectBlockId (c_int64 off) fn))"
  using sqlite_engine.is_blk_in_cache_leak [OF assms(1,3,2)] .

theorem lookup_miss_leaks_statement_witness:
  "\<exists>h. td_lookup (metaDataBase (snd (is_blk_in_cache (tdb_engine False) ''/b'' 0 (demo_meta [])))) =
     (td_lookup (metaDataBase (demo_meta [])))(h \<mapsto> Finished (SelectBlockId 0 ''/b''))"
proof -
  have "fst (is_blk_in_cache (tdb_engine False) ''/b'' 0 (demo_meta [])) = 0" by code_simp
  then have "is_blk_in_cache (tdb_engine False) ''/b'' 0 (demo_meta []) =
      (0, snd (is_blk_in_cache (tdb_engine False) ''/b'' 0 (demo_meta [])))"
    by (simp add: prod_eq_iff)
  from lookup_miss_leaks_statement [OF td.sqlite_engine_axioms demo_inv this] show ?thesis
    by (auto simp: c_int64_def)
qed

text \<open>
  The constraints of the schema hold after any sequence of the metadata calls, as SQLite
  enforces them for every statement: unique paths, unique ids, at most one row per block of a
  file, no block without its file, foreign keys enforced.
\<close>

theorem metadata_constraints_invariant:
  assumes "sqlite_engine E tabs stmts" "constraints (tables_of tabs m)"
  shows "constraints (tables_of tabs (fold (run_call E) cs m))"
  using sqlite_engine.run_calls_con [OF assms] .

theorem metadata_constraints_invariant_witness:
  "constraints (tables_of td_tables (fold (run_call (tdb_engine True))
     [CallCreateFile ''/a'' 1, CallDeleteFile ''/a'', CallWriteBlks ''/b'' [0, 0]] (demo_meta [0, 10, 0, 5])))"
proof -
  have "constraints (tables_of td_tables (demo_meta [0, 10, 0, 5]))"
    using demo_inv [of "[0, 10, 0, 5]"] demo_ready [of "[0, 10, 0, 5]"]
    by (simp add: constraints_def store_inv_def ready_def)
  then show ?thesis
    by (rule metadata_constraints_invariant [OF td.sqlite_engine_axioms])
qed

text \<open>
  At start-up \<open>init_cache_used_size\<close> sets the counter to the sum of the charges in the
  tables: the sum goes through SQLite's column text, the callback and \<open>strtoul\<close> unchanged.
\<close>

theorem init_cache_used_size_sums:
  assumes "sqlite_reliable E tabs stmts" "has_files (tables_of tabs m)" "files (tables_of tabs m) \<noteq> []"
    and "0 \<le> total_local (tables_of tabs m)" "total_local (tables_of tabs m) < 2 ^ 63"
  shows "\<exists>m'. init_cache_used_size E m = Ret m' \<and>
    cache_used_size m' = word_of_int (total_local (tables_of tabs m))"
  using sqlite_reliable.init_reliable [OF assms(1) refl assms(2-5)] .

theorem init_cache_used_size_sums_witness:
  "\<exists>m'. init_cache_used_size (tdb_engine False) (demo_meta []\<lparr>cache_used_size := 0\<rparr>) = Ret m' \<and>
     cache_used_size m' = 1024"
proof -
  have t: "tables_of td_tables (demo_meta []\<lparr>cache_used_size := 0\<rparr>) = demo_tables"
    by (simp add: tables_of_def demo_meta_def)
  have "has_files demo_tables" "files demo_tables \<noteq> []" "total_local demo_tables = 1024"
    by (simp_all add: demo_tables_def total_local_def)
  with init_cache_used_size_sums [OF rel.sqlite_reliable_axioms, of "demo_meta []\<lparr>cache_used_size := 0\<rparr>"] t
  show ?thesis by simp
qed

text \<open>
  Reading back a printed number gives the number, for every value of 64 bits, and a text
  that starts with a minus sign ends the process.
\<close>

theorem str_to_num_roundtrip:
  "str_to_num (show_nat (unat n)) = Ret n \<and> str_to_num (CHR ''-'' # s) = Exit 1"
  using str_to_num_show_nat [of "unat n"] str_to_num_negative unsigned_less [of n] by simp

end
