(* ===== verification/Posix_Api.thy ===== *)
theory Posix_Api
  imports Meta_Store Cfs_Paths
begin

text \<open>
  What the handlers of \<open>src/cachefs.c\<close> run on: the operating system, the FUSE library and the
  C library. They are not part of the repository and enter as a parameter, the record
  \<open>kernel\<close>: an arbitrary function from a call and a state to a result and a state. The type
  \<open>syscall\<close> has one constructor for each external function that the handlers call. The
  world of a handler is the state of \<open>meta.c\<close> extended by the globals of \<open>cacheHelp.h\<close>, by
  \<open>struct cfs_state\<close>, by \<open>errno\<close>, by the allocated \<open>struct dualFileHandle\<close>s and by the state of
  the system. The last field records the calls made, so that theorems can speak of their
  order and arguments; no definition reads it.
\<close>

section \<open>Calls\<close>

record stat =
  st_dev :: int
  st_mode :: int
  st_size :: off_t
  st_mtime :: int

record statvfs =
  f_bsize :: nat
  f_bavail :: nat

datatype (plugins only: code size) syscall =
    Lstat string
  | Fstat int
  | Readlink string size_t
  | Open string int "int option"
  | Close int
  | Mkfifo string int
  | Mknod string int int
  | Mkdir string int
  | Unlink string
  | Rmdir string
  | Symlink string string
  | Rename string string
  | Link string string
  | Chmod string int
  | Chown string int int
  | Truncate string off_t
  | Ftruncate int off_t
  | Utime string "(int \<times> int) option"
  | Access string int
  | Statvfs string
  | Pread int size_t off_t
  | Pwrite int "byte list" off_t
  | Fsync int
  | Fdatasync int
  | System string
  | Lsetxattr string string "byte list" int
  | Lgetxattr string string size_t
  | Llistxattr string size_t
  | Lremovexattr string string
  | Opendir string
  | Readdir nat
  | Closedir nat
  | Filler string
  | Getuid
  | Geteuid
  | Realpath string
  | Fopen string
  | Fuse_main "string list"

text \<open>
  The result of a call: the returned value (for a pointer its address, 0 for NULL), the value
  of \<open>errno\<close> afterwards, and what it stored through its pointer arguments. After a failed
  call \<open>sr_stat\<close> is the indeterminate content of the caller's structure.
\<close>

record sysret =
  sr_ret :: int
  sr_errno :: int
  sr_data :: "byte list"
  sr_text :: string
  sr_stat :: stat
  sr_statvfs :: statvfs

text \<open>
  \<open>k_vfprintf\<close> is what a write to the log file makes of \<open>errno\<close>, and \<open>k_junk\<close> the content of
  freshly allocated memory.
\<close>

record 'os kernel =
  k_sys :: "syscall \<Rightarrow> 'os \<Rightarrow> sysret \<times> 'os"
  k_vfprintf :: "'os \<Rightarrow> int \<Rightarrow> int"
  k_junk :: "nat \<Rightarrow> byte"

section \<open>The world\<close>

record dualFileHandle =
  nasFH :: "64 word"
  cacheFH :: "64 word"

record fuse_file_info =
  fi_flags :: int
  fi_fh :: nat

record ('db, 'os) world = "'db meta" +
  w_os :: 'os
  w_errno :: int
  w_cfs :: cfs_state
  cache_size :: size_t
  block_size :: size_t
  w_handles :: "nat \<Rightarrow> dualFileHandle option"
  w_next :: nat
  w_trace :: "syscall list"

definition sys :: "'os kernel \<Rightarrow> syscall \<Rightarrow> ('db, 'os) world \<Rightarrow> sysret \<times> ('db, 'os) world" where
  "sys K c w =
     (case k_sys K c (w_os w) of
        (s, os) \<Rightarrow> (s, w\<lparr>w_os := os, w_errno := sr_errno s, w_trace := w_trace w @ [c]\<rparr>))"

text \<open>
  A file descriptor is stored in the 64-bit fields of \<open>struct dualFileHandle\<close> and passed on as
  an \<open>int\<close>. A handle that is not allocated is a bad pointer.
\<close>

definition fd_of :: "64 word \<Rightarrow> int" where
  "fd_of x = c_int (sint x)"

definition get_handle :: "fuse_file_info \<Rightarrow> ('db, 'os) world \<Rightarrow> dualFileHandle outcome" where
  "get_handle fi w = (case w_handles w (fi_fh fi) of None \<Rightarrow> Crash BadHandle | Some h \<Rightarrow> Ret h)"

definition new_handle :: "dualFileHandle \<Rightarrow> ('db, 'os) world \<Rightarrow> nat \<times> ('db, 'os) world" where
  "new_handle h w =
     (w_next w, w\<lparr>w_handles := (w_handles w)(w_next w \<mapsto> h), w_next := Suc (w_next w)\<rparr>)"

definition free_handle :: "fuse_file_info \<Rightarrow> ('db, 'os) world \<Rightarrow> ('db, 'os) world" where
  "free_handle fi w = w\<lparr>w_handles := (w_handles w)(fi_fh fi := None)\<rparr>"

section \<open>The log\<close>

text \<open>
  \<open>src/log.c\<close>. The text of the messages is left out; what a message can do to the program is
  change \<open>errno\<close>, and that is kept. Each \<open>log_struct\<close> is one message.
\<close>

definition log_msg :: "'os kernel \<Rightarrow> ('db, 'os) world \<Rightarrow> ('db, 'os) world" where
  "log_msg K w = w\<lparr>w_errno := k_vfprintf K (w_os w) (w_errno w)\<rparr>"

definition log_error :: "'os kernel \<Rightarrow> ('db, 'os) world \<Rightarrow> int \<times> ('db, 'os) world" where
  "log_error K w = (let ret = - w_errno w in (ret, log_msg K w))"

definition log_retstat :: "'os kernel \<Rightarrow> ('db, 'os) world \<Rightarrow> ('db, 'os) world" where
  "log_retstat K w = (let errsave = w_errno w in (log_msg K w)\<lparr>w_errno := errsave\<rparr>)"

definition log_syscall :: "'os kernel \<Rightarrow> int \<Rightarrow> int \<Rightarrow> ('db, 'os) world \<Rightarrow> int \<times> ('db, 'os) world" where
  "log_syscall K retstat min_ret w =
     (let w = log_retstat K w
      in if retstat < min_ret
         then (case log_error K w of (_, w) \<Rightarrow> (- w_errno w, w))
         else (retstat, w))"

definition log_fi :: "'os kernel \<Rightarrow> ('db, 'os) world \<Rightarrow> ('db, 'os) world" where
  "log_fi K w = (log_msg K ^^ 8) w"

definition log_stat :: "'os kernel \<Rightarrow> ('db, 'os) world \<Rightarrow> ('db, 'os) world" where
  "log_stat K w = (log_msg K ^^ 14) w"

definition log_statvfs :: "'os kernel \<Rightarrow> ('db, 'os) world \<Rightarrow> ('db, 'os) world" where
  "log_statvfs K w = (log_msg K ^^ 12) w"

definition log_utime :: "'os kernel \<Rightarrow> ('db, 'os) world \<Rightarrow> ('db, 'os) world" where
  "log_utime K w = (log_msg K ^^ 3) w"

definition log_conn :: "'os kernel \<Rightarrow> ('db, 'os) world \<Rightarrow> ('db, 'os) world" where
  "log_conn K w = (log_msg K ^^ 10) w"

definition log_fuse_context :: "'os kernel \<Rightarrow> ('db, 'os) world \<Rightarrow> ('db, 'os) world" where
  "log_fuse_context K w = (log_msg K ^^ 9) w"

definition log_open :: "'os kernel \<Rightarrow> ('db, 'os) world \<Rightarrow> ('db, 'os) world outcome" where
  "log_open K w =
     (case sys K (Fopen ''cachefs.log'') w of
        (s, w) \<Rightarrow> if sr_ret s = 0 then Exit 1 else Ret w)"

text \<open>
  The idiom \<open>log_syscall(name, call(...), 0)\<close>: the value of the call is converted to \<open>int\<close>, and
  a negative one becomes \<open>-errno\<close>, read after the messages have been written.
\<close>

definition sys_log ::
  "'os kernel \<Rightarrow> syscall \<Rightarrow> ('db, 'os) world \<Rightarrow> int \<times> sysret \<times> ('db, 'os) world" where
  "sys_log K c w =
     (case sys K c w of (s, w) \<Rightarrow>
      case log_syscall K (c_int (sr_ret s)) 0 w of (r, w) \<Rightarrow> (r, s, w))"

text \<open>The idiom \<open>retstat = call(...); if (retstat < 0) retstat = log_error(...)\<close>.\<close>

definition sys_check ::
  "'os kernel \<Rightarrow> syscall \<Rightarrow> ('db, 'os) world \<Rightarrow> int \<times> sysret \<times> ('db, 'os) world" where
  "sys_check K c w =
     (case sys K c w of (s, w) \<Rightarrow>
        if c_int (sr_ret s) < 0 then (case log_error K w of (r, w) \<Rightarrow> (r, s, w))
        else (c_int (sr_ret s), s, w))"

text \<open>The two path helpers write one message each; \<open>cache_path\<close> is the pair of calls
  \<open>cfs_pathToFileName\<close> and \<open>cfs_fullCachePath\<close> that the handlers make.\<close>

definition nas_path :: "'os kernel \<Rightarrow> string \<Rightarrow> ('db, 'os) world \<Rightarrow> (string \<times> ('db, 'os) world) outcome" where
  "nas_path K path w = obind (cfs_fullNasPath (w_cfs w) path) (\<lambda>p. Ret (p, log_msg K w))"

definition file_name :: "'os kernel \<Rightarrow> string \<Rightarrow> ('db, 'os) world \<Rightarrow> (string \<times> ('db, 'os) world) outcome" where
  "file_name K path w = obind (cfs_pathToFileName path) (\<lambda>p. Ret (p, log_msg K w))"

definition cache_path :: "'os kernel \<Rightarrow> string \<Rightarrow> ('db, 'os) world \<Rightarrow> (string \<times> ('db, 'os) world) outcome" where
  "cache_path K name w = obind (cfs_fullCachePath (w_cfs w) name) (\<lambda>p. Ret (p, log_msg K w))"

end
