(* ===== verification/Cfs_Handlers.thy ===== *)
theory Cfs_Handlers
  imports Posix_Api
begin

unbundle bit_operations_syntax

text \<open>
  The handlers of \<open>src/cachefs.c\<close> that forward a request to the NAS directory, some of them
  also to the cache directory. Each takes the SQLite interface \<open>E\<close> where it uses the metadata,
  the kernel \<open>K\<close>, its arguments and the world.
\<close>

section \<open>Attributes and links\<close>

definition cfs_getNASattr ::
  "'os kernel \<Rightarrow> string \<Rightarrow> ('db, 'os) world \<Rightarrow> (int \<times> stat \<times> ('db, 'os) world) outcome" where
  "cfs_getNASattr K path w =
     obind (nas_path K path (log_msg K w)) (\<lambda>(nasPath, w).
       case sys_log K (Lstat nasPath) w of (retstat, s, w) \<Rightarrow> Ret (retstat, sr_stat s, log_stat K w))"

definition cfs_getCacheattr ::
  "'os kernel \<Rightarrow> string \<Rightarrow> ('db, 'os) world \<Rightarrow> (int \<times> stat \<times> ('db, 'os) world) outcome" where
  "cfs_getCacheattr K path w =
     obind (file_name K path w) (\<lambda>(cacheFileName, w).
     obind (cache_path K cacheFileName w) (\<lambda>(cachePath, w).
       case sys_log K (Lstat cachePath) (log_msg K w) of
         (retstat, s, w) \<Rightarrow> Ret (retstat, sr_stat s, log_stat K w)))"

text \<open>
  The kernel truncates the link to \<open>sz - 1\<close> bytes, and the terminator is stored behind the
  bytes returned: the result is the string in \<open>link\<close>.
\<close>

definition cfs_readlink ::
  "'os kernel \<Rightarrow> string \<Rightarrow> size_t \<Rightarrow> ('db, 'os) world \<Rightarrow> (int \<times> string \<times> ('db, 'os) world) outcome" where
  "cfs_readlink K path sz w =
     obind (nas_path K path (log_msg K w)) (\<lambda>(nasPath, w).
       case sys_log K (Readlink nasPath (sz - 1)) w of
         (retstat, s, w) \<Rightarrow>
           if retstat \<ge> 0 then
             (if int (unat sz) \<le> retstat then Crash BufferOverflow
              else Ret (0, take (nat retstat) (sr_text s), log_msg K w))
           else Ret (retstat, [], w))"

section \<open>Creating and removing\<close>

definition S_IFMT :: "int \<Rightarrow> int" where
  "S_IFMT mode = mode AND 61440"

definition S_ISREG :: "int \<Rightarrow> bool" where
  "S_ISREG mode = (S_IFMT mode = 32768)"

definition S_ISFIFO :: "int \<Rightarrow> bool" where
  "S_ISFIFO mode = (S_IFMT mode = 4096)"

definition O_CREAT_EXCL_WRONLY :: int where
  "O_CREAT_EXCL_WRONLY = 64 OR 128 OR 1"

definition make_node ::
  "'os kernel \<Rightarrow> string \<Rightarrow> int \<Rightarrow> int \<Rightarrow> ('db, 'os) world \<Rightarrow> int \<times> ('db, 'os) world" where
  "make_node K p mode dev w =
     (if S_ISREG mode then
        (case sys_log K (Open p O_CREAT_EXCL_WRONLY (Some mode)) w of
           (retstat, _, w) \<Rightarrow>
             if retstat \<ge> 0
             then (case sys_log K (Close retstat) w of (retstat, _, w) \<Rightarrow> (retstat, w))
             else (retstat, w))
      else if S_ISFIFO mode then (case sys_log K (Mkfifo p mode) w of (retstat, _, w) \<Rightarrow> (retstat, w))
      else (case sys_log K (Mknod p mode dev) w of (retstat, _, w) \<Rightarrow> (retstat, w)))"

definition cfs_mknod ::
  "'os kernel \<Rightarrow> string \<Rightarrow> int \<Rightarrow> int \<Rightarrow> ('db, 'os) world \<Rightarrow> (int \<times> ('db, 'os) world) outcome" where
  "cfs_mknod K path mode dev w =
     obind (nas_path K path (log_msg K w)) (\<lambda>(nasPath, w). Ret (make_node K nasPath mode dev w))"

definition cfs_mkCacheNod ::
  "'os kernel \<Rightarrow> string \<Rightarrow> int \<Rightarrow> int \<Rightarrow> ('db, 'os) world \<Rightarrow> int \<times> ('db, 'os) world" where
  "cfs_mkCacheNod K cachePath mode dev w = make_node K cachePath mode dev (log_msg K w)"

definition cfs_mkdir ::
  "'os kernel \<Rightarrow> string \<Rightarrow> int \<Rightarrow> ('db, 'os) world \<Rightarrow> (int \<times> ('db, 'os) world) outcome" where
  "cfs_mkdir K path mode w =
     obind (nas_path K path (log_msg K w)) (\<lambda>(nasPath, w).
       case sys_log K (Mkdir nasPath mode) w of (retstat, _, w) \<Rightarrow> Ret (retstat, w))"

definition cfs_unlink ::
  "'db sqlite3 \<Rightarrow> 'os kernel \<Rightarrow> string \<Rightarrow> ('db, 'os) world \<Rightarrow> (int \<times> ('db, 'os) world) outcome" where
  "cfs_unlink E K path w =
     obind (file_name K path w) (\<lambda>(cacheFileName, w).
     obind (cache_path K cacheFileName w) (\<lambda>(cachePath, w).
     obind (nas_path K path w) (\<lambda>(nasPath, w).
       case delete_file E cacheFileName (log_msg K w) of (_, w) \<Rightarrow>
       case sys_log K (Unlink cachePath) w of (_, _, w) \<Rightarrow>
       case sys_log K (Unlink nasPath) w of (retstat, _, w) \<Rightarrow> Ret (retstat, w))))"

definition cfs_rmdir ::
  "'os kernel \<Rightarrow> string \<Rightarrow> ('db, 'os) world \<Rightarrow> (int \<times> ('db, 'os) world) outcome" where
  "cfs_rmdir K path w =
     obind (nas_path K path (log_msg K w)) (\<lambda>(nasPath, w).
       case sys_log K (Rmdir nasPath) w of (retstat, _, w) \<Rightarrow> Ret (retstat, w))"

definition cfs_symlink ::
  "'os kernel \<Rightarrow> string \<Rightarrow> string \<Rightarrow> ('db, 'os) world \<Rightarrow> (int \<times> ('db, 'os) world) outcome" where
  "cfs_symlink K path link w =
     obind (nas_path K link (log_msg K w)) (\<lambda>(nasLink, w).
     obind (file_name K path w) (\<lambda>(cacheFileName, w).
     obind (file_name K link w) (\<lambda>(cacheLinkName, w).
     obind (cache_path K cacheFileName w) (\<lambda>(cachePath, w).
     obind (cache_path K cacheLinkName w) (\<lambda>(cacheLinkPath, w).
       case sys_log K (Symlink cachePath cacheLinkPath) w of (_, _, w) \<Rightarrow>
       case sys_log K (Symlink path nasLink) w of (retstat, _, w) \<Rightarrow> Ret (retstat, w))))))"

definition cfs_rename ::
  "'os kernel \<Rightarrow> string \<Rightarrow> string \<Rightarrow> ('db, 'os) world \<Rightarrow> (int \<times> ('db, 'os) world) outcome" where
  "cfs_rename K path newpath w =
     obind (nas_path K path (log_msg K w)) (\<lambda>(nasPath, w).
     obind (nas_path K newpath w) (\<lambda>(nasNewPath, w).
     obind (file_name K path w) (\<lambda>(cacheFileName, w).
     obind (file_name K newpath w) (\<lambda>(cacheNewName, w).
     obind (cache_path K cacheFileName w) (\<lambda>(cachePath, w).
     obind (cache_path K cacheNewName w) (\<lambda>(cacheNewPath, w).
       case sys_log K (Rename cachePath cacheNewPath) w of (_, _, w) \<Rightarrow>
       case sys_log K (Rename nasPath nasNewPath) w of (retstat, _, w) \<Rightarrow> Ret (retstat, w)))))))"

definition cfs_link ::
  "'os kernel \<Rightarrow> string \<Rightarrow> string \<Rightarrow> ('db, 'os) world \<Rightarrow> (int \<times> ('db, 'os) world) outcome" where
  "cfs_link K path newpath w =
     obind (nas_path K path w) (\<lambda>(nasPath, w).
     obind (nas_path K newpath w) (\<lambda>(nasLinkPath, w).
     obind (file_name K path w) (\<lambda>(cacheFileName, w).
     obind (file_name K newpath w) (\<lambda>(cacheLinkName, w).
     obind (cache_path K cacheFileName w) (\<lambda>(cachePath, w).
     obind (cache_path K cacheLinkName w) (\<lambda>(cacheLinkPath, w).
       case sys_log K (Link cachePath cacheLinkPath) (log_msg K w) of (_, _, w) \<Rightarrow>
       case sys_log K (Link nasPath nasLinkPath) w of (retstat, _, w) \<Rightarrow> Ret (retstat, w)))))))"

section \<open>Changing attributes\<close>

definition cfs_chmod ::
  "'os kernel \<Rightarrow> string \<Rightarrow> int \<Rightarrow> ('db, 'os) world \<Rightarrow> (int \<times> ('db, 'os) world) outcome" where
  "cfs_chmod K path mode w =
     obind (nas_path K path (log_msg K w)) (\<lambda>(nasPath, w).
       case sys_log K (Chmod nasPath mode) w of (retstat, _, w) \<Rightarrow> Ret (retstat, w))"

definition cfs_chown ::
  "'os kernel \<Rightarrow> string \<Rightarrow> int \<Rightarrow> int \<Rightarrow> ('db, 'os) world \<Rightarrow> (int \<times> ('db, 'os) world) outcome" where
  "cfs_chown K path uid gid w =
     obind (nas_path K path (log_msg K w)) (\<lambda>(nasPath, w).
       case sys_log K (Chown nasPath uid gid) w of (retstat, _, w) \<Rightarrow> Ret (retstat, w))"

definition cfs_truncate ::
  "'os kernel \<Rightarrow> string \<Rightarrow> off_t \<Rightarrow> ('db, 'os) world \<Rightarrow> (int \<times> ('db, 'os) world) outcome" where
  "cfs_truncate K path newsize w =
     obind (file_name K path w) (\<lambda>(cacheFileName, w).
     obind (cache_path K cacheFileName w) (\<lambda>(cachePath, w).
     obind (nas_path K path (log_msg K w)) (\<lambda>(nasPath, w).
       case sys_log K (Truncate cachePath newsize) w of (_, _, w) \<Rightarrow>
       case sys_log K (Truncate nasPath newsize) w of (retstat, _, w) \<Rightarrow> Ret (retstat, w))))"

definition cfs_utime ::
  "'os kernel \<Rightarrow> string \<Rightarrow> (int \<times> int) option \<Rightarrow> ('db, 'os) world \<Rightarrow> (int \<times> ('db, 'os) world) outcome" where
  "cfs_utime K path ubuf w =
     obind (nas_path K path w) (\<lambda>(nasPath, w).
     obind (file_name K path w) (\<lambda>(cacheFileName, w).
     obind (cache_path K cacheFileName w) (\<lambda>(cachePath, w).
       case sys_log K (Utime cachePath ubuf) (log_msg K w) of (_, _, w) \<Rightarrow>
       case sys_log K (Utime nasPath ubuf) w of (retstat, _, w) \<Rightarrow> Ret (retstat, w))))"

definition cfs_statfs ::
  "'os kernel \<Rightarrow> string \<Rightarrow> ('db, 'os) world \<Rightarrow> (int \<times> statvfs \<times> ('db, 'os) world) outcome" where
  "cfs_statfs K path w =
     obind (nas_path K path (log_msg K w)) (\<lambda>(nasPath, w).
       case sys_log K (Statvfs nasPath) w of
         (retstat, s, w) \<Rightarrow> Ret (retstat, sr_statvfs s, log_statvfs K w))"

definition cfs_access ::
  "'os kernel \<Rightarrow> string \<Rightarrow> int \<Rightarrow> ('db, 'os) world \<Rightarrow> (int \<times> ('db, 'os) world) outcome" where
  "cfs_access K path amask w =
     obind (nas_path K path (log_msg K w)) (\<lambda>(nasPath, w).
       case sys_check K (Access nasPath amask) w of (retstat, _, w) \<Rightarrow> Ret (retstat, w))"

section \<open>Extended attributes\<close>

definition cfs_setxattr ::
  "'os kernel \<Rightarrow> string \<Rightarrow> string \<Rightarrow> byte list \<Rightarrow> int \<Rightarrow> ('db, 'os) world \<Rightarrow>
     (int \<times> ('db, 'os) world) outcome" where
  "cfs_setxattr K path name val flags w =
     obind (nas_path K path (log_msg K w)) (\<lambda>(nasPath, w).
       case sys_log K (Lsetxattr nasPath name val flags) w of (retstat, _, w) \<Rightarrow> Ret (retstat, w))"

definition cfs_getxattr ::
  "'os kernel \<Rightarrow> string \<Rightarrow> string \<Rightarrow> size_t \<Rightarrow> ('db, 'os) world \<Rightarrow>
     (int \<times> byte list \<times> ('db, 'os) world) outcome" where
  "cfs_getxattr K path name sz w =
     obind (nas_path K path (log_msg K w)) (\<lambda>(nasPath, w).
       case sys_log K (Lgetxattr nasPath name sz) w of
         (retstat, s, w) \<Rightarrow> Ret (retstat, sr_data s, if retstat \<ge> 0 then log_msg K w else w))"

text \<open>
  The loop over the returned names writes one message per name: \<open>rest\<close> is the content of the
  list from \<open>ptr\<close> on, and \<open>strlen(ptr) + 1\<close> bytes are skipped.
\<close>

function log_names :: "'os kernel \<Rightarrow> byte list \<Rightarrow> ('db, 'os) world \<Rightarrow> ('db, 'os) world" where
  "log_names K rest w =
     (if rest = [] then w
      else log_names K (drop (length (takeWhile (\<lambda>b. b \<noteq> 0) rest) + 1) rest) (log_msg K w))"
  by pat_completeness auto
termination
  by (relation "measure (\<lambda>(K, rest, w). length rest)") auto

declare log_names.simps [simp del]

definition cfs_listxattr ::
  "'os kernel \<Rightarrow> string \<Rightarrow> bool \<Rightarrow> size_t \<Rightarrow> ('db, 'os) world \<Rightarrow>
     (int \<times> byte list \<times> ('db, 'os) world) outcome" where
  "cfs_listxattr K path list_null sz w =
     obind (nas_path K path (log_msg K w)) (\<lambda>(nasPath, w).
       case sys_log K (Llistxattr nasPath sz) w of
         (retstat, s, w) \<Rightarrow>
           if retstat \<ge> 0 then
             (let w = log_msg K w
              in Ret (retstat, sr_data s,
                   if \<not> list_null then log_names K (take (nat retstat) (sr_data s)) w else log_msg K w))
           else Ret (retstat, sr_data s, w))"

definition cfs_removexattr ::
  "'os kernel \<Rightarrow> string \<Rightarrow> string \<Rightarrow> ('db, 'os) world \<Rightarrow> (int \<times> ('db, 'os) world) outcome" where
  "cfs_removexattr K path name w =
     obind (nas_path K path (log_msg K w)) (\<lambda>(nasPath, w).
       case sys_log K (Lremovexattr nasPath name) w of (retstat, _, w) \<Rightarrow> Ret (retstat, w))"

section \<open>Directories\<close>

definition cfs_opendir ::
  "'os kernel \<Rightarrow> string \<Rightarrow> fuse_file_info \<Rightarrow> ('db, 'os) world \<Rightarrow>
     (int \<times> fuse_file_info \<times> ('db, 'os) world) outcome" where
  "cfs_opendir K path fi w =
     obind (nas_path K path (log_msg K w)) (\<lambda>(nasPath, w).
       case sys K (Opendir nasPath) w of (s, w) \<Rightarrow>
       case (if sr_ret s = 0 then log_error K (log_msg K w) else (0, log_msg K w)) of
         (retstat, w) \<Rightarrow> Ret (retstat, fi\<lparr>fi_fh := nat (sr_ret s)\<rparr>, log_fi K w))"

definition ENOMEM :: int where
  "ENOMEM = 12"

text \<open>
  The \<open>do ... while\<close> of \<open>cfs_readdir\<close>: the entry \<open>name\<close> is passed to the filler, then the next
  one is read; \<open>None\<close> stands for a directory stream that never ends.
\<close>

partial_function (option) readdir_loop ::
  "'os kernel \<Rightarrow> nat \<Rightarrow> string \<Rightarrow> ('db, 'os) world \<Rightarrow> (int \<times> ('db, 'os) world) option"
where
  "readdir_loop K dp name w =
     (case sys K (Filler name) (log_msg K w) of (s, w) \<Rightarrow>
        if sr_ret s \<noteq> 0 then Some (- ENOMEM, log_msg K w)
        else (case sys K (Readdir dp) w of (s, w) \<Rightarrow>
                if sr_ret s \<noteq> 0 then readdir_loop K dp (sr_text s) w
                else Some (0, log_fi K w)))"

definition cfs_readdir ::
  "'os kernel \<Rightarrow> fuse_file_info \<Rightarrow> ('db, 'os) world \<Rightarrow> (int \<times> ('db, 'os) world) outcome" where
  "cfs_readdir K fi w =
     (case sys K (Readdir (fi_fh fi)) (log_msg K w) of (s, w) \<Rightarrow>
      let w = log_msg K w
      in if sr_ret s = 0 then Ret (log_error K w)
         else (case readdir_loop K (fi_fh fi) (sr_text s) w of None \<Rightarrow> Hang | Some r \<Rightarrow> Ret r))"

definition cfs_releasedir ::
  "'os kernel \<Rightarrow> fuse_file_info \<Rightarrow> ('db, 'os) world \<Rightarrow> (int \<times> ('db, 'os) world) outcome" where
  "cfs_releasedir K fi w =
     (case sys K (Closedir (fi_fh fi)) (log_fi K (log_msg K w)) of (_, w) \<Rightarrow> Ret (0, w))"

definition cfs_fsyncdir ::
  "'os kernel \<Rightarrow> fuse_file_info \<Rightarrow> ('db, 'os) world \<Rightarrow> (int \<times> ('db, 'os) world) outcome" where
  "cfs_fsyncdir K fi w = Ret (0, log_fi K (log_msg K w))"

section \<open>Initialisation of the mount\<close>

definition cfs_init :: "'os kernel \<Rightarrow> ('db, 'os) world \<Rightarrow> cfs_state \<times> ('db, 'os) world" where
  "cfs_init K w = (let w = log_fuse_context K (log_conn K (log_msg K w)) in (w_cfs w, w))"

definition cfs_destroy :: "'os kernel \<Rightarrow> ('db, 'os) world \<Rightarrow> ('db, 'os) world" where
  "cfs_destroy K w = log_msg K w"

end
