(* ===== verification/Cfs_Files.thy ===== *)
theory Cfs_Files
  imports Cfs_Handlers Cache_Help
begin

unbundle bit_operations_syntax

text \<open>
  The handlers of \<open>src/cachefs.c\<close> for open files: \<open>cfs_open\<close> pairs a descriptor on the NAS
  with one in the cache and discards a stale cached copy; \<open>cfs_read\<close> and \<open>cfs_write\<close> keep
  whole blocks in the cache; \<open>cfs_cacheWrite\<close> records them in the metadata.
\<close>

section \<open>Opening\<close>

text \<open>
  The flags for the NAS: a write-only request becomes read-write. The constant is a \<open>long\<close>,
  the results are stored in an \<open>int\<close>.
\<close>

definition nas_flags :: "int \<Rightarrow> int" where
  "nas_flags flags =
     (if flags AND 3 = 1
      then (let switchedFlag = c_int (flags AND 8589934588) in switchedFlag OR 2)
      else flags)"

definition O_RDWR :: int where
  "O_RDWR = 2"

text \<open>\<open>delete_file\<close> and \<open>unlink\<close> of the cached copy, the two steps that discard it.\<close>

definition discard_cached ::
  "'db sqlite3 \<Rightarrow> 'os kernel \<Rightarrow> string \<Rightarrow> string \<Rightarrow> ('db, 'os) world \<Rightarrow> ('db, 'os) world" where
  "discard_cached E K cacheFileName cachePath w =
     (case delete_file E cacheFileName (log_msg K w) of (_, w) \<Rightarrow>
      case sys_log K (Unlink cachePath) w of (_, _, w) \<Rightarrow> w)"

text \<open>The part of \<open>cfs_open\<close> after the NAS file has been opened and examined.\<close>

definition open_cache_copy ::
  "'db sqlite3 \<Rightarrow> 'os kernel \<Rightarrow> string \<Rightarrow> string \<Rightarrow> stat \<Rightarrow> bool \<Rightarrow> ('db, 'os) world \<Rightarrow>
     int \<times> ('db, 'os) world" where
  "open_cache_copy E K cacheFileName cachePath nasFileInfo presentInCache w =
     (let w = (if presentInCache then w
               else (case create_file E cacheFileName (st_size nasFileInfo) (log_msg K w) of
                       (_, w) \<Rightarrow> snd (cfs_mkCacheNod K cachePath (st_mode nasFileInfo) (st_dev nasFileInfo) w)))
      in case sys_log K (Open cachePath O_RDWR None) w of (fd, _, w) \<Rightarrow> (fd, w))"

definition cfs_open ::
  "'db sqlite3 \<Rightarrow> 'os kernel \<Rightarrow> string \<Rightarrow> fuse_file_info \<Rightarrow> ('db, 'os) world \<Rightarrow>
     (int \<times> fuse_file_info \<times> ('db, 'os) world) outcome" where
  "cfs_open E K path fi w =
     obind (nas_path K path w) (\<lambda>(nasPath, w).
     obind (file_name K path w) (\<lambda>(cacheFileName, w).
     obind (cache_path K cacheFileName w) (\<lambda>(cachePath, w).
       case sys_log K (Open nasPath (nas_flags (fi_flags fi)) None) (log_msg K (log_msg K w)) of
         (nasFileDescriptor, _, w) \<Rightarrow>
       case is_file_in_cache E cacheFileName w of
         (found, w) \<Rightarrow>
       let presentInCache = (found \<noteq> 0)
       in if nasFileDescriptor < 0 then
            Ret (nasFileDescriptor, fi,
                 if presentInCache then discard_cached E K cacheFileName cachePath w else w)
          else
            obind (cfs_getNASattr K path w) (\<lambda>(_, nasFileInfo, w).
            obind (if presentInCache then
                     obind (cfs_getCacheattr K path w) (\<lambda>(_, cacheFileInfo, w).
                       let w = log_msg K w
                       in if st_mtime cacheFileInfo < st_mtime nasFileInfo
                          then Ret (False, discard_cached E K cacheFileName cachePath w)
                          else Ret (True, w))
                   else Ret (False, w)) (\<lambda>(presentInCache, w).
              case open_cache_copy E K cacheFileName cachePath nasFileInfo presentInCache w of
                (cacheFileDescriptor, w) \<Rightarrow>
              case (if cacheFileDescriptor < 0 then log_error K w else (0, w)) of
                (retstat, w) \<Rightarrow>
              case new_handle \<lparr>nasFH = word_of_int nasFileDescriptor,
                               cacheFH = word_of_int cacheFileDescriptor\<rparr> w of
                (p, w) \<Rightarrow>
              let fi = fi\<lparr>fi_fh := p\<rparr>
              in Ret (retstat, fi, log_fi K w))))))"

section \<open>Recording and storing blocks\<close>

text \<open>
  The loop \<open>while (get_cache_used_size() >= cache_size*1024)\<close>. Its body only writes a message,
  because the call of \<open>evict_blocks\<close> is commented out: \<open>None\<close> is the loop that never ends.
\<close>

partial_function (option) evict_wait ::
  "'os kernel \<Rightarrow> ('db, 'os) world \<Rightarrow> ('db, 'os) world option"
where
  "evict_wait K w =
     (if cache_size w * 1024 \<le> get_cache_used_size w then evict_wait K (log_msg K w) else Some w)"

lemma evict_wait_cases [code]:
  "evict_wait K w = (if cache_size w * 1024 \<le> get_cache_used_size w then None else Some w)"
proof (cases "evict_wait K w")
  case None
  moreover have "evict_wait K w = Some w" if "\<not> cache_size w * 1024 \<le> get_cache_used_size w"
    using that by (simp add: evict_wait.simps)
  ultimately show ?thesis by auto
next
  case (Some w')
  have "\<not> cache_size w * 1024 \<le> get_cache_used_size w"
  proof (rule evict_wait.raw_induct [where P = "\<lambda>K w x. \<not> cache_size w * 1024 \<le> get_cache_used_size w", OF _ Some])
    fix f and K :: "'b kernel" and w x :: "('a, 'b) world"
    assume IH: "\<And>K w x. f K w = Some x \<Longrightarrow> \<not> cache_size w * 1024 \<le> get_cache_used_size w"
      and body: "(if cache_size w * 1024 \<le> get_cache_used_size w then f K (log_msg K w) else Some w) = Some x"
    show "\<not> cache_size w * 1024 \<le> get_cache_used_size w"
      using IH [of K "log_msg K w" x] body by (auto simp: log_msg_def get_cache_used_size_def)
  qed
  then show ?thesis by (simp add: evict_wait.simps)
qed

definition block_offsets :: "off_t \<Rightarrow> size_t \<Rightarrow> nat \<Rightarrow> size_t list" where
  "block_offsets offset bs number_blocks = map (\<lambda>i. offset + of_nat i * bs) [0..<number_blocks]"

definition cfs_cacheWrite ::
  "'db sqlite3 \<Rightarrow> 'os kernel \<Rightarrow> string \<Rightarrow> byte list \<Rightarrow> size_t \<Rightarrow> off_t \<Rightarrow> fuse_file_info \<Rightarrow>
     ('db, 'os) world \<Rightarrow> (int \<times> ('db, 'os) world) outcome" where
  "cfs_cacheWrite E K cacheFileName buf sz offset fi w =
     obind (cache_path K cacheFileName w) (\<lambda>(cachePath, w).
     obind (get_handle fi w) (\<lambda>dualFH.
     let w = log_fi K (log_msg K w)
     in if block_size w = 0 then Crash DivByZero
        else
          let number_blocks = unat (sz div block_size w);
              offsetArray = block_offsets offset (block_size w) number_blocks
          in case evict_wait K w of
               None \<Rightarrow> Hang
             | Some w \<Rightarrow>
                 (case write_blks E cacheFileName offsetArray w of (_, w) \<Rightarrow>
                  if length buf < unat sz then Crash OverRead
                  else
                    case sys_log K (Pwrite (fd_of (cacheFH dualFH)) (take (unat sz) buf) offset) w of
                      (retstat, _, w) \<Rightarrow> Ret (retstat, w))))"

section \<open>Reading\<close>

definition aligned_size :: "size_t \<Rightarrow> size_t \<Rightarrow> size_t" where
  "aligned_size bs sz =
     (let alignedSize = bs * (sz div bs) in if sz mod bs \<noteq> 0 then alignedSize + bs else alignedSize)"

text \<open>
  \<open>pread(fd, buf + at, n, offset)\<close> into the allocated buffer: what the kernel delivered is
  stored at \<open>at\<close>; more than the buffer holds is an overflow.
\<close>

definition store_read :: "nat \<Rightarrow> sysret \<Rightarrow> byte list \<Rightarrow> byte list outcome" where
  "store_read at s buf =
     (if length buf < at + length (sr_data s) then Crash BufferOverflow
      else Ret (buf_put at (sr_data s) buf))"

text \<open>
  The loop over the blocks that are not all cached. \<open>i\<close> is \<open>block_index\<close>, the list holds the
  rest of \<open>cacheBlockHitYN\<close>.
\<close>

fun read_loop ::
  "'db sqlite3 \<Rightarrow> 'os kernel \<Rightarrow> string \<Rightarrow> fuse_file_info \<Rightarrow> dualFileHandle \<Rightarrow> off_t \<Rightarrow> nat \<Rightarrow> int list \<Rightarrow>
     int \<Rightarrow> byte list \<Rightarrow> ('db, 'os) world \<Rightarrow> (int \<times> byte list \<times> ('db, 'os) world) outcome"
where
  "read_loop E K cacheFileName fi dualFH lowerOffset i [] retstat cacheBuf w = Ret (retstat, cacheBuf, w)"
| "read_loop E K cacheFileName fi dualFH lowerOffset i (hit # hits) retstat cacheBuf w =
     (let bs = block_size w;
          at = i * unat bs;
          off = lowerOffset + of_nat i * bs
      in if hit \<noteq> 0 then
           (case sys K (Pread (fd_of (cacheFH dualFH)) bs off) w of
              (s, w) \<Rightarrow>
                obind (store_read at s cacheBuf) (\<lambda>cacheBuf.
                  read_loop E K cacheFileName fi dualFH lowerOffset (Suc i) hits
                    (c_int (retstat + sr_ret s)) cacheBuf w))
         else
           (case sys K (Pread (fd_of (nasFH dualFH)) bs off) w of
              (s, w) \<Rightarrow>
                obind (store_read at s cacheBuf) (\<lambda>cacheBuf.
                obind (cfs_cacheWrite E K cacheFileName (drop at cacheBuf) bs off fi w) (\<lambda>(_, w).
                  read_loop E K cacheFileName fi dualFH lowerOffset (Suc i) hits
                    (c_int (retstat + sr_ret s)) cacheBuf w))))"

text \<open>The final \<open>memcpy(buf, cacheBuf+offset-lowerOffset, size)\<close>.\<close>

definition copy_out :: "byte list \<Rightarrow> nat \<Rightarrow> nat \<Rightarrow> byte list outcome" where
  "copy_out cacheBuf at n =
     (if length cacheBuf < at + n then Crash OverRead else Ret (slice at n cacheBuf))"

definition malloc_junk :: "'os kernel \<Rightarrow> size_t \<Rightarrow> byte list" where
  "malloc_junk K n = map (k_junk K) [0..<unat n]"

definition cfs_read ::
  "'db sqlite3 \<Rightarrow> 'os kernel \<Rightarrow> string \<Rightarrow> size_t \<Rightarrow> off_t \<Rightarrow> fuse_file_info \<Rightarrow> ('db, 'os) world \<Rightarrow>
     (int \<times> byte list \<times> ('db, 'os) world) outcome" where
  "cfs_read E K path sz offset fi w =
     obind (alignLowerOffset (block_size w) offset) (\<lambda>lowerOffset.
     let alignedSize = aligned_size (block_size w) sz
     in obind (alignUpperOffset (block_size w) (offset + alignedSize)) (\<lambda>upperOffset.
     let number_blocks = unat (alignedSize div block_size w);
         offsetArray = block_offsets lowerOffset (block_size w) number_blocks
     in obind (file_name K path w) (\<lambda>(cacheFileName, w).
     case are_blocks_in_cache E cacheFileName offsetArray w of
       (dataCheck, cacheBlockHitYN, w) \<Rightarrow>
     case (if dataCheck < 0 then (False, snd (log_error K w)) else (dataCheck \<noteq> 0, w)) of
       (cacheDataHit, w) \<Rightarrow>
     obind (get_handle fi w) (\<lambda>dualFH.
     let cacheBuf = malloc_junk K alignedSize;
         w = log_fi K (log_msg K (log_msg K w))
     in obind
          (if cacheDataHit then
             (case sys_log K (Pread (fd_of (cacheFH dualFH)) alignedSize lowerOffset) w of
                (retstat, s, w) \<Rightarrow>
                  obind (store_read 0 s cacheBuf) (\<lambda>cacheBuf. Ret (retstat, cacheBuf, w)))
           else read_loop E K cacheFileName fi dualFH lowerOffset 0 cacheBlockHitYN 0 cacheBuf w)
          (\<lambda>(retstat, cacheBuf, w).
             obind (copy_out cacheBuf (unat (offset - lowerOffset)) (unat sz)) (\<lambda>buf.
               Ret (retstat, buf, w)))))))"

section \<open>Writing\<close>

definition cfs_write ::
  "'db sqlite3 \<Rightarrow> 'os kernel \<Rightarrow> string \<Rightarrow> byte list \<Rightarrow> size_t \<Rightarrow> off_t \<Rightarrow> fuse_file_info \<Rightarrow>
     ('db, 'os) world \<Rightarrow> (int \<times> ('db, 'os) world) outcome" where
  "cfs_write E K path buf sz offset fi w =
     obind (alignLowerOffset (block_size w) offset) (\<lambda>lowerOffset.
     let alignedSize = aligned_size (block_size w) sz;
         w = (if sz mod block_size w \<noteq> 0 then log_msg K w else w)
     in obind (alignUpperOffset (block_size w) (offset + alignedSize)) (\<lambda>upperOffset.
     obind (get_handle fi w) (\<lambda>dualFH.
     if length buf < unat sz then Crash OverRead
     else
       case sys_log K (Pwrite (fd_of (nasFH dualFH)) (take (unat sz) buf) offset) (log_fi K (log_msg K w)) of
         (retstat, _, w) \<Rightarrow>
       obind (cfs_getNASattr K path w) (\<lambda>(_, nasAttr, w).
         let nasReadSize =
               (if st_size nasAttr < alignedSize + lowerOffset then st_size nasAttr - lowerOffset
                else alignedSize);
             cacheBuf = malloc_junk K alignedSize
         in case sys_log K (Pread (fd_of (nasFH dualFH)) nasReadSize lowerOffset) (log_msg K w) of
              (_, s, w) \<Rightarrow>
            obind (store_read 0 s cacheBuf) (\<lambda>cacheBuf.
            obind (file_name K path w) (\<lambda>(cacheFileName, w).
            obind (cfs_cacheWrite E K cacheFileName cacheBuf alignedSize lowerOffset fi w) (\<lambda>(_, w).
              Ret (retstat, w))))))))"

section \<open>Flushing, syncing and closing\<close>

definition cfs_flush ::
  "'os kernel \<Rightarrow> fuse_file_info \<Rightarrow> ('db, 'os) world \<Rightarrow> (int \<times> ('db, 'os) world) outcome" where
  "cfs_flush K fi w = Ret (0, log_fi K (log_msg K w))"

definition cfs_release ::
  "'os kernel \<Rightarrow> string \<Rightarrow> fuse_file_info \<Rightarrow> ('db, 'os) world \<Rightarrow> (int \<times> ('db, 'os) world) outcome" where
  "cfs_release K path fi w =
     obind (get_handle fi w) (\<lambda>dualFH.
     obind (file_name K path (log_fi K (log_msg K w))) (\<lambda>(cacheFileName, w).
     obind (cache_path K cacheFileName w) (\<lambda>(cachePath, w).
     obind (obind (c_strcpy PATH_MAX ''fallocate -d '') (\<lambda>s. c_strncat PATH_MAX s cachePath PATH_MAX))
       (\<lambda>fallocateCall.
       case sys_log K (System fallocateCall) (log_msg K w) of (_, _, w) \<Rightarrow>
       case sys_log K (Close (fd_of (cacheFH dualFH))) w of (_, _, w) \<Rightarrow>
       case sys_log K (Close (fd_of (nasFH dualFH))) w of (nasClose, _, w) \<Rightarrow>
       Ret (nasClose, free_handle fi w)))))"

definition cfs_fsync ::
  "'os kernel \<Rightarrow> int \<Rightarrow> fuse_file_info \<Rightarrow> ('db, 'os) world \<Rightarrow> (int \<times> ('db, 'os) world) outcome" where
  "cfs_fsync K datasync fi w =
     obind (get_handle fi w) (\<lambda>dualFH.
     let w = log_fi K (log_msg K w)
     in if datasync \<noteq> 0 then
          (case sys_log K (Fdatasync (fd_of (cacheFH dualFH))) w of (_, _, w) \<Rightarrow>
           case sys_log K (Fdatasync (fd_of (nasFH dualFH))) w of (r, _, w) \<Rightarrow> Ret (r, w))
        else
          (case sys_log K (Fsync (fd_of (cacheFH dualFH))) w of (_, _, w) \<Rightarrow>
           case sys_log K (Fsync (fd_of (nasFH dualFH))) w of (r, _, w) \<Rightarrow> Ret (r, w)))"

definition cfs_ftruncate ::
  "'os kernel \<Rightarrow> off_t \<Rightarrow> fuse_file_info \<Rightarrow> ('db, 'os) world \<Rightarrow> (int \<times> ('db, 'os) world) outcome" where
  "cfs_ftruncate K offset fi w =
     obind (get_handle fi w) (\<lambda>dualFH.
       case sys_check K (Ftruncate (fd_of (cacheFH dualFH)) offset) (log_fi K (log_msg K w)) of (_, _, w) \<Rightarrow>
       case sys_check K (Ftruncate (fd_of (nasFH dualFH)) offset) w of (retstat, _, w) \<Rightarrow> Ret (retstat, w))"

definition cfs_fgetattr ::
  "'os kernel \<Rightarrow> string \<Rightarrow> fuse_file_info \<Rightarrow> ('db, 'os) world \<Rightarrow> (int \<times> stat \<times> ('db, 'os) world) outcome" where
  "cfs_fgetattr K path fi w =
     (let w = log_fi K (log_msg K w)
      in if path = ''/'' then cfs_getNASattr K path w
         else
           obind (get_handle fi w) (\<lambda>dualFH.
             case sys_check K (Fstat (fd_of (nasFH dualFH))) w of
               (retstat, s, w) \<Rightarrow> Ret (retstat, sr_stat s, log_stat K w)))"

end
