(* ===== verification/Posix_Files.thy ===== *)
theory Posix_Files
  imports Posix_Api "HOL-Library.AList"
begin

text \<open>
  What the handlers rely on of files. The locale \<open>posix_files\<close> states how \<open>pread\<close>, \<open>pwrite\<close> and
  \<open>lstat\<close> read and change the content of a file, with short transfers and failures allowed;
  \<open>posix_reliable\<close> adds that they do not happen. Both are interpreted on a small executable
  file system, on which the witnesses run.
\<close>

section \<open>The content of a file\<close>

text \<open>Writing past the end fills the gap with zeros; writing nothing changes nothing.\<close>

definition write_at :: "nat \<Rightarrow> byte list \<Rightarrow> byte list \<Rightarrow> byte list" where
  "write_at off d f =
     (if d = [] then f
      else take off (f @ replicate (off - length f) 0) @ d @ drop (off + length d) f)"

lemma length_write_at: "d \<noteq> [] \<Longrightarrow> length (write_at off d f) = max (length f) (off + length d)"
  by (simp add: write_at_def)

lemma length_write_at_ge: "length f \<le> length (write_at off d f)"
  by (cases "d = []") (simp add: write_at_def, simp add: length_write_at)

lemma nth_write_at:
  assumes "k < length (write_at off d f)"
  shows "write_at off d f ! k =
     (if off \<le> k \<and> k < off + length d then d ! (k - off) else if k < length f then f ! k else 0)"
proof (cases "d = []")
  case True
  with assms show ?thesis by (auto simp: write_at_def)
next
  case False
  with assms show ?thesis
    by (auto simp: write_at_def nth_append min_def)
qed

section \<open>The interface\<close>

locale posix_files =
  fixes K :: "'os kernel"
    and ino :: "'os \<Rightarrow> int \<Rightarrow> nat option"
    and content :: "'os \<Rightarrow> nat \<Rightarrow> byte list"
    and lookup :: "'os \<Rightarrow> string \<Rightarrow> nat option"
  assumes pread_law: "k_sys K (Pread fd n off) os = (s, os') \<Longrightarrow> ino os fd = Some i \<Longrightarrow>
      ino os' = ino os \<and> content os' = content os \<and> lookup os' = lookup os \<and>
      (sr_ret s < 0 \<and> sr_data s = [] \<or>
       sr_ret s = int (length (sr_data s)) \<and>
       (\<exists>m \<le> unat n. sr_data s = slice (unat off) m (content os i)))"
    and pwrite_law: "k_sys K (Pwrite fd d off) os = (s, os') \<Longrightarrow> ino os fd = Some i \<Longrightarrow>
      ino os' = ino os \<and> lookup os' = lookup os \<and>
      (sr_ret s < 0 \<and> content os' = content os \<or>
       (\<exists>m \<le> length d. sr_ret s = int m \<and>
          content os' = (content os)(i := write_at (unat off) (take m d) (content os i))))"
    and lstat_law: "k_sys K (Lstat p) os = (s, os') \<Longrightarrow>
      ino os' = ino os \<and> content os' = content os \<and> lookup os' = lookup os"

locale posix_reliable = posix_files K ino content lookup
  for K :: "'os kernel" and ino :: "'os \<Rightarrow> int \<Rightarrow> nat option"
    and content :: "'os \<Rightarrow> nat \<Rightarrow> byte list" and lookup :: "'os \<Rightarrow> string \<Rightarrow> nat option" +
  assumes pread_full: "k_sys K (Pread fd n off) os = (s, os') \<Longrightarrow> ino os fd = Some i \<Longrightarrow>
      unat off < 2 ^ 63 \<Longrightarrow> sr_data s = slice (unat off) (unat n) (content os i)"
    and pwrite_full: "k_sys K (Pwrite fd d off) os = (s, os') \<Longrightarrow> ino os fd = Some i \<Longrightarrow>
      unat off + length d < 2 ^ 63 \<Longrightarrow> sr_ret s = int (length d)"
    and lstat_full: "k_sys K (Lstat p) os = (s, os') \<Longrightarrow> lookup os p = Some i \<Longrightarrow>
      st_size (sr_stat s) = of_nat (length (content os i))"

section \<open>A small file system\<close>

text \<open>
  Named inodes, open descriptors, open directory streams, and a list of faults: a true entry makes the next transfer
  fail. With the flag off the faults are ignored.
\<close>

record memfs =
  mf_names :: "(string \<times> nat) list"
  mf_inodes :: "(nat \<times> byte list) list"
  mf_mtimes :: "(nat \<times> int) list"
  mf_fds :: "(int \<times> nat) list"
  mf_dirs :: "(nat \<times> string list) list"
  mf_faults :: "bool list"

definition mf_lookup :: "memfs \<Rightarrow> string \<Rightarrow> nat option" where
  "mf_lookup m p = map_of (mf_names m) p"

definition mf_ino :: "memfs \<Rightarrow> int \<Rightarrow> nat option" where
  "mf_ino m fd = map_of (mf_fds m) fd"

definition mf_content :: "memfs \<Rightarrow> nat \<Rightarrow> byte list" where
  "mf_content m i = (case map_of (mf_inodes m) i of Some d \<Rightarrow> d | None \<Rightarrow> [])"

definition mf_stat :: "memfs \<Rightarrow> nat \<Rightarrow> stat" where
  "mf_stat m i = \<lparr>st_dev = 0, st_mode = 33188, st_size = of_nat (length (mf_content m i)),
     st_mtime = (case map_of (mf_mtimes m) i of Some t \<Rightarrow> t | None \<Rightarrow> 0)\<rparr>"

definition mf_ok :: "int \<Rightarrow> sysret" where
  "mf_ok r = \<lparr>sr_ret = r, sr_errno = 0, sr_data = [], sr_text = '''',
     sr_stat = \<lparr>st_dev = 0, st_mode = 0, st_size = 0, st_mtime = 0\<rparr>,
     sr_statvfs = \<lparr>f_bsize = 4096, f_bavail = 1000\<rparr>\<rparr>"

definition mf_err :: "int \<Rightarrow> sysret" where
  "mf_err e = (mf_ok (- 1))\<lparr>sr_errno := e\<rparr>"

definition fresh_ino :: "(nat \<times> byte list) list \<Rightarrow> nat" where
  "fresh_ino l = Suc (fold max (map fst l) 0)"

definition fresh_fd :: "(int \<times> nat) list \<Rightarrow> int" where
  "fresh_fd l = 1 + fold max (map fst l) 2"

definition mf_open :: "string \<Rightarrow> nat \<Rightarrow> memfs \<Rightarrow> sysret \<times> memfs" where
  "mf_open p i m = (let fd = fresh_fd (mf_fds m) in (mf_ok fd, m\<lparr>mf_fds := (fd, i) # mf_fds m\<rparr>))"

fun memfs_sys :: "bool \<Rightarrow> syscall \<Rightarrow> memfs \<Rightarrow> sysret \<times> memfs" where
  "memfs_sys faulty (Pread fd n off) m =
     (let fault = (faulty \<and> mf_faults m \<noteq> [] \<and> hd (mf_faults m)); m' = m\<lparr>mf_faults := tl (mf_faults m)\<rparr>
      in case mf_ino m fd of
           None \<Rightarrow> (mf_err 9, m')
         | Some i \<Rightarrow>
             if fault then (mf_err 5, m')
             else (let d = slice (unat off) (unat n) (mf_content m i)
                   in ((mf_ok (int (length d)))\<lparr>sr_data := d\<rparr>, m')))"
| "memfs_sys faulty (Pwrite fd d off) m =
     (let fault = (faulty \<and> mf_faults m \<noteq> [] \<and> hd (mf_faults m)); m' = m\<lparr>mf_faults := tl (mf_faults m)\<rparr>
      in case mf_ino m fd of
           None \<Rightarrow> (mf_err 9, m')
         | Some i \<Rightarrow>
             if fault then (mf_err 28, m')
             else (mf_ok (int (length d)), m'\<lparr>mf_inodes :=
               AList.update i (write_at (unat off) d (mf_content m i)) (mf_inodes m)\<rparr>))"
| "memfs_sys faulty (Lstat p) m =
     (case mf_lookup m p of
        None \<Rightarrow> (mf_err 2, m)
      | Some i \<Rightarrow> ((mf_ok 0)\<lparr>sr_stat := mf_stat m i\<rparr>, m))"
| "memfs_sys faulty (Open p fl mode) m =
     (case mf_lookup m p of
        None \<Rightarrow>
          (if mode = None then (mf_err 2, m)
           else (let i = fresh_ino (mf_inodes m)
                 in mf_open p i (m\<lparr>mf_names := (p, i) # mf_names m, mf_inodes := (i, []) # mf_inodes m\<rparr>)))
      | Some i \<Rightarrow> if mode = None then mf_open p i m else (mf_err 17, m))"
| "memfs_sys faulty (Close fd) m =
     (if mf_ino m fd = None then (mf_err 9, m)
      else (mf_ok 0, m\<lparr>mf_fds := AList.delete fd (mf_fds m)\<rparr>))"
| "memfs_sys faulty (Unlink p) m =
     (if mf_lookup m p = None then (mf_err 2, m)
      else (mf_ok 0, m\<lparr>mf_names := AList.delete p (mf_names m)\<rparr>))"
| "memfs_sys faulty (Rename p q) m =
     (case mf_lookup m p of
        None \<Rightarrow> (mf_err 2, m)
      | Some i \<Rightarrow> (mf_ok 0, m\<lparr>mf_names := (q, i) # AList.delete p (AList.delete q (mf_names m))\<rparr>))"
| "memfs_sys faulty (Readdir dp) m =
     (case map_of (mf_dirs m) dp of
        Some (n # ns) \<Rightarrow> ((mf_ok 1)\<lparr>sr_text := n\<rparr>, m\<lparr>mf_dirs := AList.update dp ns (mf_dirs m)\<rparr>)
      | _ \<Rightarrow> (mf_ok 0, m))"
| "memfs_sys faulty (Realpath p) m = ((mf_ok 1)\<lparr>sr_text := p\<rparr>, m)"
| "memfs_sys faulty (Fopen p) m = (mf_ok 1, m)"
| "memfs_sys faulty Getuid m = (mf_ok 1000, m)"
| "memfs_sys faulty Geteuid m = (mf_ok 1000, m)"
| "memfs_sys faulty c m = (mf_ok 0, m)"

definition memfs_kernel :: "bool \<Rightarrow> memfs kernel" where
  "memfs_kernel faulty = \<lparr>k_sys = memfs_sys faulty, k_vfprintf = (\<lambda>os e. e), k_junk = (\<lambda>n. 255)\<rparr>"

lemma memfs_kernel_sys [simp]: "k_sys (memfs_kernel faulty) = memfs_sys faulty"
  by (simp add: memfs_kernel_def)

lemma mf_cong [simp]:
  "mf_ino (m\<lparr>mf_faults := fs\<rparr>) = mf_ino m" "mf_content (m\<lparr>mf_faults := fs\<rparr>) = mf_content m"
  "mf_lookup (m\<lparr>mf_faults := fs\<rparr>) = mf_lookup m"
  "mf_ino (m\<lparr>mf_inodes := ns\<rparr>) = mf_ino m" "mf_lookup (m\<lparr>mf_inodes := ns\<rparr>) = mf_lookup m"
  by (auto simp: mf_ino_def mf_content_def mf_lookup_def fun_eq_iff)

lemma mf_content_update [simp]:
  "mf_content (m\<lparr>mf_faults := fs, mf_inodes := AList.update i d (mf_inodes m)\<rparr>) = (mf_content m)(i := d)"
  by (auto simp: mf_content_def fun_eq_iff update_conv)

lemma write_at_Nil [simp]: "write_at off [] f = f"
  by (simp add: write_at_def)

lemma mf_ok_simps [simp]: "sr_ret (mf_ok r) = r" "sr_data (mf_ok r) = []"
  "sr_ret (mf_err e) = - 1" "sr_data (mf_err e) = []"
  by (simp_all add: mf_ok_def mf_err_def)

interpretation mem: posix_files "memfs_kernel faulty" mf_ino mf_content mf_lookup for faulty
proof (unfold_locales, goal_cases)
  case (1 fd n off os s os' i)
  then show ?case by (auto simp: Let_def split: if_splits)
next
  case (2 fd d off os s os' i)
  then show ?case by (auto simp: Let_def split: if_splits)
next
  case (3 p os s os')
  then show ?case by (auto split: option.splits)
qed

interpretation relmem: posix_reliable "memfs_kernel False" mf_ino mf_content mf_lookup
proof (unfold_locales, goal_cases)
  case (1 fd n off os s os' i)
  then show ?case by (auto simp: Let_def)
next
  case (2 fd d off os s os' i)
  then show ?case by (auto simp: Let_def)
next
  case (3 p os s os' i)
  then show ?case by (auto simp: mf_stat_def)
qed

end
