(* ===== verification/Meta_Frame.thy ===== *)
theory Meta_Frame
  imports Meta_Trace
begin

text \<open>
  The functions of \<open>meta.c\<close> touch the connection and the counter only; whatever else the state
  holds is as before. The handlers rely on this when they call them on the larger state.
\<close>

definition store_only :: "('db, 'z) meta_scheme \<Rightarrow> ('db, 'z) meta_scheme \<Rightarrow> bool" where
  "store_only m m' \<longleftrightarrow> (\<exists>d u. m' = m\<lparr>metaDataBase := d, cache_used_size := u\<rparr>)"

lemma store_only_refl [simp]: "store_only m m"
  unfolding store_only_def by (intro exI [of _ "metaDataBase m"] exI [of _ "cache_used_size m"]) simp

lemma store_only_trans: "store_only m m' \<Longrightarrow> store_only m' m'' \<Longrightarrow> store_only m m''"
  by (auto simp: store_only_def) metis

lemma store_only_db [simp]: "store_only m (m\<lparr>metaDataBase := d\<rparr>)"
  unfolding store_only_def by (intro exI [of _ d] exI [of _ "cache_used_size m"]) simp

lemma store_only_both [simp]: "store_only m (m\<lparr>metaDataBase := d, cache_used_size := u\<rparr>)"
  unfolding store_only_def by blast

lemma store_only_swap [simp]: "store_only m (m\<lparr>cache_used_size := u, metaDataBase := d\<rparr>)"
  unfolding store_only_def by (intro exI [of _ d] exI [of _ u]) simp

lemma store_only_ops:
  "store_only m (snd (create_file E fn n m))" "store_only m (snd (insert_block E fn b m))"
  "store_only m (snd (delete_file E fn m))" "store_only m (snd (delete_block E fn b m))"
  "store_only m (snd (update_blk_time E fn b m))" "store_only m (snd (is_file_in_cache E fn m))"
  "store_only m (snd (is_blk_in_cache E fn b m))"
  by (simp_all add: create_file_def insert_block_def delete_file_def delete_block_def Let_def
      update_blk_time_def is_file_in_cache_def is_blk_in_cache_def split_beta)

lemma store_only_blocks_loop: "store_only m (snd (snd (blocks_loop E fn bs th m)))"
proof (induction bs arbitrary: th m)
  case (Cons b bs)
  from store_only_trans [OF store_only_ops(7) Cons.IH] show ?case
    by (simp add: split_beta)
qed simp

lemma store_only_are_blocks: "store_only m (snd (snd (are_blocks_in_cache E fn bs m)))"
  by (simp add: are_blocks_in_cache_def store_only_blocks_loop)

lemma store_only_write_loop: "store_only m (write_loop E fn bs m)"
proof (induction bs arbitrary: m)
  case (Cons x bs)
  from store_only_trans [OF store_only_ops(5) Cons.IH] store_only_trans [OF store_only_ops(2) Cons.IH]
  show ?case by (cases x) simp
qed simp

lemma store_only_write_blks: "store_only m (snd (write_blks E fn bs m))"
proof -
  obtain tot arr m1 where a: "are_blocks_in_cache E fn bs m = (tot, arr, m1)"
    by (cases "are_blocks_in_cache E fn bs m") auto
  with store_only_are_blocks [of m E fn bs] have "store_only m m1" by simp
  with store_only_trans [OF _ store_only_write_loop] a show ?thesis
    by (simp add: write_blks_def)
qed

section \<open>How far the counter can grow\<close>

lemma insert_block_used:
  "cache_used_size (snd (insert_block E fn b m)) = cache_used_size m \<or>
   cache_used_size (snd (insert_block E fn b m)) = cache_used_size m + meta_block_size m"
  by (auto simp: insert_block_def split_beta)

lemma store_only_block_size: "store_only m m' \<Longrightarrow> meta_block_size m' = meta_block_size m"
  by (auto simp: store_only_def)

lemma lookups_used:
  "cache_used_size (snd (update_blk_time E fn b m)) = cache_used_size m"
  "cache_used_size (snd (is_blk_in_cache E fn b m)) = cache_used_size m"
  "cache_used_size (snd (is_file_in_cache E fn m)) = cache_used_size m"
  by (simp_all add: update_blk_time_def is_blk_in_cache_def is_file_in_cache_def split_beta)

lemma blocks_loop_used: "cache_used_size (snd (snd (blocks_loop E fn bs th m))) = cache_used_size m"
proof (induction bs arbitrary: th m)
  case (Cons b bs)
  then show ?case by (simp add: split_beta lookups_used)
qed simp

lemma write_loop_used:
  "\<exists>j \<le> length bs. cache_used_size (write_loop E fn bs m) = cache_used_size m + of_nat j * meta_block_size m"
proof (induction bs arbitrary: m)
  case (Cons x bs)
  obtain b hit where x: "x = (b, hit)" by (cases x)
  let ?m = "snd (if hit \<noteq> 0 then update_blk_time E fn b m else insert_block E fn b m)"
  have mbs: "meta_block_size ?m = meta_block_size m"
    by (simp add: store_only_block_size [OF store_only_ops(2)] store_only_block_size [OF store_only_ops(5)])
  from Cons.IH [of ?m] obtain j where j: "j \<le> length bs"
    "cache_used_size (write_loop E fn bs ?m) = cache_used_size ?m + of_nat j * meta_block_size m"
    unfolding mbs by blast
  consider "cache_used_size ?m = cache_used_size m" | "cache_used_size ?m = cache_used_size m + meta_block_size m"
    using insert_block_used [of E fn b m] lookups_used(1) [of E fn b m] by (cases "hit \<noteq> 0") auto
  then show ?case
  proof cases
    case 1
    with j x show ?thesis by (intro exI [of _ j]) simp
  next
    case 2
    with j x show ?thesis by (intro exI [of _ "Suc j"]) (simp add: algebra_simps)
  qed
qed simp

lemma write_blks_used:
  "\<exists>j \<le> length bs. cache_used_size (snd (write_blks E fn bs m)) = cache_used_size m + of_nat j * meta_block_size m"
proof -
  obtain tot arr m1 where a: "are_blocks_in_cache E fn bs m = (tot, arr, m1)"
    by (cases "are_blocks_in_cache E fn bs m") auto
  then have m1: "cache_used_size m1 = cache_used_size m" "meta_block_size m1 = meta_block_size m"
    using blocks_loop_used [of E fn bs 1 m] store_only_are_blocks [of m E fn bs]
    by (simp_all add: are_blocks_in_cache_def store_only_block_size)
  have "length (zip bs arr) \<le> length bs" by simp
  with write_loop_used [of "zip bs arr" E fn m1] a m1 show ?thesis
    by (auto simp: write_blks_def intro: order_trans)
qed

end
