(* ===== verification/Cfs_Coherence.thy ===== *)
theory Cfs_Coherence
  imports Cfs_Files Posix_Files Meta_Frame
begin

text \<open>
  The cache as a copy of the NAS file: every block that the metadata records for a file holds,
  in the cache file, the bytes of the NAS file, as far as that file reaches. The theory shows
  that storing blocks keeps this, and what a read then delivers.
\<close>

section \<open>Agreement of a block\<close>

definition agrees :: "byte list \<Rightarrow> byte list \<Rightarrow> nat \<Rightarrow> nat \<Rightarrow> bool" where
  "agrees nas cache b n \<longleftrightarrow>
     (\<forall>k. b \<le> k \<and> k < b + n \<and> k < length nas \<longrightarrow> k < length cache \<and> cache ! k = nas ! k)"

text \<open>The bytes \<open>d\<close> at \<open>off\<close> are those of the file.\<close>

definition matches :: "byte list \<Rightarrow> byte list \<Rightarrow> nat \<Rightarrow> bool" where
  "matches nas d off \<longleftrightarrow> (\<forall>k < length d. off + k < length nas \<longrightarrow> d ! k = nas ! (off + k))"

lemma agrees_write:
  assumes "agrees nas cache b n" "matches nas d off"
  shows "agrees nas (write_at off d cache) b n"
  unfolding agrees_def
proof (intro allI impI)
  fix k assume k: "b \<le> k \<and> k < b + n \<and> k < length nas"
  with assms(1) have c: "k < length cache" "cache ! k = nas ! k"
    by (simp_all add: agrees_def)
  with length_write_at_ge [of cache off d] have l: "k < length (write_at off d cache)"
    by simp
  have "d ! (k - off) = nas ! k" if "off \<le> k" "k < off + length d"
    using assms(2) [unfolded matches_def, rule_format, of "k - off"] that k by auto
  with c l nth_write_at [OF l] show "k < length (write_at off d cache) \<and> write_at off d cache ! k = nas ! k"
    by auto
qed

lemma agrees_written:
  assumes "matches nas d off" "off \<le> b" "b + n \<le> off + length d" "d \<noteq> []"
  shows "agrees nas (write_at off d cache) b n"
  unfolding agrees_def
proof (intro allI impI)
  fix k assume k: "b \<le> k \<and> k < b + n \<and> k < length nas"
  then have l: "k < length (write_at off d cache)"
    using assms by (auto simp: length_write_at)
  have idx: "k - off < length d" "off + (k - off) = k"
    using k assms(2,3) by auto
  with assms(1) [unfolded matches_def, rule_format, OF idx(1)] k have "d ! (k - off) = nas ! k"
    by simp
  with k assms nth_write_at [OF l] l show "k < length (write_at off d cache) \<and> write_at off d cache ! k = nas ! k"
    by auto
qed

lemma matches_slice: "matches nas (slice off n nas) off"
  by (auto simp: matches_def slice_def)

lemma agrees_slice:
  assumes "agrees nas cache off n"
  shows "matches nas (slice off n cache) off"
    "k < n \<Longrightarrow> off + k < length nas \<Longrightarrow> k < length (slice off n cache)"
proof -
  have c: "off + k < length cache \<and> cache ! (off + k) = nas ! (off + k)" if "k < n" "off + k < length nas" for k
    using assms that by (simp add: agrees_def)
  show "matches nas (slice off n cache) off"
    using c by (auto simp: matches_def slice_def)
  show "k < n \<Longrightarrow> off + k < length nas \<Longrightarrow> k < length (slice off n cache)"
    using c [of k] by (auto simp: slice_def)
qed

lemma agrees_blocks:
  assumes "\<And>i. i < n \<Longrightarrow> agrees nas cache (lo + i * bs) bs" "0 < bs"
  shows "agrees nas cache lo (n * bs)"
  unfolding agrees_def
proof (intro allI impI)
  fix k assume k: "lo \<le> k \<and> k < lo + n * bs \<and> k < length nas"
  let ?i = "(k - lo) div bs"
  have "?i * bs \<le> k - lo" by simp
  moreover have "k - lo < ?i * bs + bs"
    using dividend_less_div_times [OF assms(2), of "k - lo"] by simp
  ultimately have "lo + ?i * bs \<le> k" "k < lo + ?i * bs + bs"
    using k by linarith+
  moreover have "?i < n"
    using k assms(2) by (intro div_less_iff_less_mult [THEN iffD2]) auto
  ultimately show "k < length cache \<and> cache ! k = nas ! k"
    using assms(1) [of ?i] k by (auto simp: agrees_def)
qed

lemma put_matches:
  assumes pre: "matches nas (take at buf) lo" and d: "matches nas d (lo + at)"
    and full: "\<And>k. k < n \<Longrightarrow> lo + at + k < length nas \<Longrightarrow> k < length d"
    and len: "length d \<le> n" "at + n \<le> length buf"
  shows "matches nas (take (at + n) (buf_put at d buf)) lo"
  unfolding matches_def
proof (intro allI impI)
  fix k assume k: "k < length (take (at + n) (buf_put at d buf))" "lo + k < length nas"
  then have k': "k < at + n" "k < length buf" using len by simp_all
  have put: "buf_put at d buf ! k = (if at \<le> k \<and> k < at + length d then d ! (k - at) else buf ! k)"
    using len k'(2) by (intro nth_buf_put) auto
  show "take (at + n) (buf_put at d buf) ! k = nas ! (lo + k)"
  proof (cases "k < at")
    case True
    then show ?thesis
      using pre [unfolded matches_def, rule_format, of k] k k' put by simp
  next
    case False
    then have "k - at < length d"
      using full [of "k - at"] k k' by simp
    moreover from this False have "k < at + length d" by linarith
    ultimately show ?thesis
      using d [unfolded matches_def, rule_format, of "k - at"] False k k' put by simp
  qed
qed

lemma matches_drop: "matches nas (take (at + n) b) lo \<Longrightarrow> matches nas (take n (drop at b)) (lo + at)"
  unfolding matches_def
proof (intro allI impI)
  fix k assume m: "\<forall>k < length (take (at + n) b). lo + k < length nas \<longrightarrow> take (at + n) b ! k = nas ! (lo + k)"
    and k: "k < length (take n (drop at b))" "lo + at + k < length nas"
  have "at + k < length b" using k(1) by (simp add: less_diff_conv add.commute)
  moreover from this have "at \<le> length b" by linarith
  ultimately show "take n (drop at b) ! k = nas ! (lo + at + k)"
    using k m [rule_format, of "at + k"] by (simp add: add.assoc)
qed

section \<open>The open file\<close>

text \<open>
  The situation in which a request on an open file is served: the metadata is consistent and
  knows the file, the handle pairs two different files of the system, and every recorded block
  lies on the grid and agrees with the NAS file \<open>iN\<close> in the cache file \<open>iC\<close>. While a write is
  under way the blocks of the set \<open>A\<close> are exempt.
\<close>

definition coherent ::
  "('db \<Rightarrow> tables) \<Rightarrow> int set \<Rightarrow> string \<Rightarrow> byte list \<Rightarrow> byte list \<Rightarrow> ('db, 'os) world \<Rightarrow> bool" where
  "coherent tabs A fn nas cache w \<longleftrightarrow>
     (\<forall>x. (fn, x) \<in> snd (view_of tabs w) \<longrightarrow> (\<exists>q. x = int (q * unat (block_size w))) \<and>
        (x \<notin> A \<longrightarrow> agrees nas cache (nat x) (unat (block_size w))))"

definition opened ::
  "('os \<Rightarrow> int \<Rightarrow> nat option) \<Rightarrow> fuse_file_info \<Rightarrow> nat \<Rightarrow> nat \<Rightarrow> ('db, 'os) world \<Rightarrow> bool" where
  "opened ino fi iN iC w \<longleftrightarrow> iN \<noteq> iC \<and>
     (\<exists>h. get_handle fi w = Ret h \<and> ino (w_os w) (fd_of (nasFH h)) = Some iN \<and>
        ino (w_os w) (fd_of (cacheFH h)) = Some iC)"

definition serving_but ::
  "('db \<Rightarrow> tables) \<Rightarrow> ('os \<Rightarrow> int \<Rightarrow> nat option) \<Rightarrow> ('os \<Rightarrow> nat \<Rightarrow> byte list) \<Rightarrow> int set \<Rightarrow>
     fuse_file_info \<Rightarrow> string \<Rightarrow> nat \<Rightarrow> nat \<Rightarrow> ('db, 'os) world \<Rightarrow> bool" where
  "serving_but tabs ino content A fi fn iN iC w \<longleftrightarrow>
     store_inv tabs w \<and> ready tabs w \<and> fn \<in> fst (view_of tabs w) \<and>
     block_size w \<noteq> 0 \<and> meta_block_size w = block_size w \<and> opened ino fi iN iC w \<and>
     length (cachedir (w_cfs w)) + length fn < PATH_MAX \<and>
     coherent tabs A fn (content (w_os w) iN) (content (w_os w) iC) w"

abbreviation serving where
  "serving tabs ino content \<equiv> serving_but tabs ino content {}"

lemma servingD:
  assumes "serving_but tabs ino content A fi fn iN iC w" "(fn, int b) \<in> snd (view_of tabs w)" "int b \<notin> A"
  shows "agrees (content (w_os w) iN) (content (w_os w) iC) b (unat (block_size w))"
proof -
  have "coherent tabs A fn (content (w_os w) iN) (content (w_os w) iC) w"
    using assms(1) by (simp add: serving_but_def)
  from this [unfolded coherent_def, rule_format, OF assms(2)] assms(3)
  have "agrees (content (w_os w) iN) (content (w_os w) iC) (nat (int b)) (unat (block_size w))"
    by blast
  then show ?thesis by (simp only: nat_int)
qed

text \<open>Room for \<open>n\<close> more blocks: the cache is not full before the last of them is stored.\<close>

definition space_for :: "nat \<Rightarrow> ('db \<Rightarrow> tables) \<Rightarrow> ('db, 'os) world \<Rightarrow> bool" where
  "space_for n tabs w \<longleftrightarrow> room_for n tabs w \<and>
     unat (cache_used_size w) + n * unat (block_size w) < unat (cache_size w * 1024)"

text \<open>What writing messages leaves as it is.\<close>

definition logged :: "('db, 'os) world \<Rightarrow> ('db, 'os) world \<Rightarrow> bool" where
  "logged w w' \<longleftrightarrow>
     w_os w' = w_os w \<and> w_cfs w' = w_cfs w \<and> block_size w' = block_size w \<and> cache_size w' = cache_size w \<and>
     w_handles w' = w_handles w \<and> metaDataBase w' = metaDataBase w \<and>
     meta_block_size w' = meta_block_size w \<and> cache_used_size w' = cache_used_size w"

lemma logged_refl [simp]: "logged w w"
  by (simp add: logged_def)

lemma logged_trans: "logged w w' \<Longrightarrow> logged w' w'' \<Longrightarrow> logged w w''"
  by (simp add: logged_def)

lemma logged_msg [simp]: "logged w (log_msg K w')  = logged w w'"
  by (simp add: logged_def log_msg_def)

lemma logged_msgs [simp]: "logged w ((log_msg K ^^ n) w') = logged w w'"
  by (induction n) simp_all

lemma logged_fi [simp]: "logged w (log_fi K w') = logged w w'" "logged w (log_stat K w') = logged w w'"
  by (simp_all add: log_fi_def log_stat_def)

lemma logged_syscall: "log_syscall K r n w = (r', w') \<Longrightarrow> logged w w' \<and> (n \<le> r \<longrightarrow> r' = r)"
  by (auto simp: log_syscall_def log_retstat_def log_error_def Let_def logged_def log_msg_def split: if_splits)

lemma logged_serving: "logged w w' \<Longrightarrow>
    serving_but tabs ino content A fi fn iN iC w' = serving_but tabs ino content A fi fn iN iC w"
  by (simp add: logged_def serving_but_def store_inv_def ready_def view_of_def tables_of_def opened_def
      get_handle_def coherent_def)

lemma logged_space: "logged w w' \<Longrightarrow> space_for n tabs w' = space_for n tabs w"
  by (simp add: logged_def space_for_def room_for_def tables_of_def)

lemma logged_handle: "logged w w' \<Longrightarrow> get_handle fi w' = get_handle fi w"
  by (simp add: logged_def get_handle_def)

text \<open>A call that only reads: the state of the system may change, but not what files hold.\<close>

definition still ::
  "('os \<Rightarrow> int \<Rightarrow> nat option) \<Rightarrow> ('os \<Rightarrow> nat \<Rightarrow> byte list) \<Rightarrow> ('os \<Rightarrow> string \<Rightarrow> nat option) \<Rightarrow>
     ('db, 'os) world \<Rightarrow> ('db, 'os) world \<Rightarrow> bool" where
  "still ino content lookup w w' \<longleftrightarrow>
     w_cfs w' = w_cfs w \<and> block_size w' = block_size w \<and> cache_size w' = cache_size w \<and>
     w_handles w' = w_handles w \<and> metaDataBase w' = metaDataBase w \<and>
     meta_block_size w' = meta_block_size w \<and> cache_used_size w' = cache_used_size w \<and>
     ino (w_os w') = ino (w_os w) \<and> content (w_os w') = content (w_os w) \<and>
     lookup (w_os w') = lookup (w_os w)"

lemma logged_still: "logged w w' \<Longrightarrow> still ino content lookup w w'"
  by (simp add: logged_def still_def)

lemma still_trans:
  "still ino content lookup w w' \<Longrightarrow> still ino content lookup w' w'' \<Longrightarrow> still ino content lookup w w''"
  by (simp add: still_def)

lemma still_serving: "still ino content lookup w w' \<Longrightarrow>
    serving_but tabs ino content A fi fn iN iC w' = serving_but tabs ino content A fi fn iN iC w"
  by (simp add: still_def serving_but_def store_inv_def ready_def view_of_def tables_of_def opened_def
      get_handle_def coherent_def)

lemma still_space: "still ino content lookup w w' \<Longrightarrow> space_for n tabs w' = space_for n tabs w"
  by (simp add: still_def space_for_def room_for_def tables_of_def)

lemma space_for_less: "space_for k tabs w \<Longrightarrow> j \<le> k \<Longrightarrow> space_for j tabs w"
proof -
  assume "space_for k tabs w" "j \<le> k"
  moreover from this have "j * unat (block_size w) \<le> k * unat (block_size w)" by simp
  ultimately show "space_for j tabs w"
    using room_for_less [of k tabs w j] unfolding space_for_def by linarith
qed

section \<open>Offsets of blocks\<close>

lemma c_int64_unat: "unat x < 2 ^ 63 \<Longrightarrow> c_int64 x = int (unat x)"
proof -
  assume *: "unat x < 2 ^ 63"
  have eq: "int (unat x) = uint x" by simp
  have "int (unat x) < int (2 ^ 63)"
    using * by (simp only: of_nat_less_iff)
  then have "uint x < 2 ^ 63"
    unfolding eq by simp
  moreover have "- (2 ^ 63) \<le> uint x"
    by (rule order_trans [OF _ uint_ge_0]) simp
  ultimately have "signed_take_bit 63 (uint x) = uint x"
    by (intro signed_take_bit_int_eq_self)
  then show ?thesis
    unfolding eq by (simp add: c_int64_def sint_uint)
qed

lemma block_offset_unat:
  fixes off bs :: "64 word"
  assumes "unat off + i * unat bs < 2 ^ 64"
  shows "unat (off + of_nat i * bs) = unat off + i * unat bs"
proof -
  have i: "i * unat bs < 2 ^ 64" using assms by simp
  have "of_nat i * bs = of_nat (i * unat bs)"
    by simp
  then have "unat (of_nat i * bs) = i * unat bs"
    using i by (simp only: unat_of_nat) simp
  with assms unat_add_lem [of off "of_nat i * bs"] show ?thesis
    by simp
qed

lemma set_block_offsets:
  assumes "unat off + n * unat bs < 2 ^ 63"
  shows "(\<lambda>b. (fn, c_int64 b)) ` set (block_offsets off bs n) = (\<lambda>i. (fn, int (unat off + i * unat bs))) ` {..<n}"
proof -
  have "c_int64 (off + of_nat i * bs) = int (unat off + i * unat bs)" if "i < n" for i
  proof -
    have "i * unat bs \<le> n * unat bs" using that by simp
    with assms have "unat off + i * unat bs < 2 ^ 63" by linarith
    with block_offset_unat [of off i bs] show ?thesis
      by (simp add: c_int64_unat)
  qed
  then show ?thesis
    by (auto simp: block_offsets_def image_image intro!: image_cong)
qed

lemma length_block_offsets [simp]: "length (block_offsets off bs n) = n"
  by (simp add: block_offsets_def)

section \<open>Storing blocks\<close>

lemma sys_log_Ret:
  assumes "sys_log K c w = (r, s, w')"
  obtains os' where "k_sys K c (w_os w) = (s, os')" "w_os w' = os'" "logged (w\<lparr>w_os := os'\<rparr>) w'"
proof -
  obtain s1 os' where k: "k_sys K c (w_os w) = (s1, os')" by fastforce
  let ?w = "w\<lparr>w_os := os', w_errno := sr_errno s1, w_trace := w_trace w @ [c]\<rparr>"
  obtain r1 w1 where l: "log_syscall K (c_int (sr_ret s1)) 0 ?w = (r1, w1)" by fastforce
  from logged_syscall [OF l] have lg: "logged (w\<lparr>w_os := os'\<rparr>) w1"
    by (simp add: logged_def)
  moreover have "s = s1" "w' = w1"
    using assms k l by (simp_all add: sys_log_def sys_def)
  ultimately show thesis
    using that k by (auto simp: logged_def)
qed

locale file_cache = sqlite_reliable E tabs stmts + posix_reliable K ino content lookup
  for E :: "'db sqlite3" and tabs :: "'db \<Rightarrow> tables" and stmts :: "'db \<Rightarrow> nat \<Rightarrow> cursor option"
    and K :: "'os kernel" and ino :: "'os \<Rightarrow> int \<Rightarrow> nat option"
    and content :: "'os \<Rightarrow> nat \<Rightarrow> byte list" and lookup :: "'os \<Rightarrow> string \<Rightarrow> nat option"

interpretation demo: file_cache "tdb_engine False" td_tables td_lookup
  "memfs_kernel False" mf_ino mf_content mf_lookup
  by unfold_locales

text \<open>What a step of a handler leaves alone: configuration, handles and the NAS file.\<close>

definition same_nas ::
  "('os \<Rightarrow> int \<Rightarrow> nat option) \<Rightarrow> ('os \<Rightarrow> nat \<Rightarrow> byte list) \<Rightarrow> ('os \<Rightarrow> string \<Rightarrow> nat option) \<Rightarrow> nat \<Rightarrow>
     ('db, 'os) world \<Rightarrow> ('db, 'os) world \<Rightarrow> bool" where
  "same_nas ino content lookup iN w w' \<longleftrightarrow>
     w_cfs w' = w_cfs w \<and> block_size w' = block_size w \<and> cache_size w' = cache_size w \<and>
     w_handles w' = w_handles w \<and> ino (w_os w') = ino (w_os w) \<and> lookup (w_os w') = lookup (w_os w) \<and>
     content (w_os w') iN = content (w_os w) iN"

lemma same_nas_refl [simp]: "same_nas ino content lookup iN w w"
  by (simp add: same_nas_def)

lemma same_nas_trans:
  "same_nas ino content lookup iN w w' \<Longrightarrow> same_nas ino content lookup iN w' w'' \<Longrightarrow>
     same_nas ino content lookup iN w w''"
  by (simp add: same_nas_def)

lemma logged_same_nas: "logged w w' \<Longrightarrow> same_nas ino content lookup iN w w'"
  by (simp add: logged_def same_nas_def)

lemma cache_path_Ret:
  "length (cachedir (w_cfs w)) + length fn < PATH_MAX \<Longrightarrow>
     cache_path K fn w = Ret (cachedir (w_cfs w) @ fn, log_msg K w)"
  using full_path_Ret [of PATH_MAX "cachedir (w_cfs w)" fn "cachedir (w_cfs w) @ fn"]
  by (simp add: cache_path_def cfs_fullCachePath_def)

text \<open>A read that meets neither a bad descriptor nor an I/O error does not fail.\<close>

definition reads_succeed :: "'os kernel \<Rightarrow> ('os \<Rightarrow> int \<Rightarrow> nat option) \<Rightarrow> bool" where
  "reads_succeed K ino \<longleftrightarrow>
     (\<forall>fd n off os. ino os fd \<noteq> None \<and> unat off < 2 ^ 63 \<longrightarrow> 0 \<le> sr_ret (fst (k_sys K (Pread fd n off) os)))"

text \<open>
  The count \<open>r\<close> of the bytes read from position \<open>i\<close> to position \<open>j\<close> behind the offset \<open>lo\<close>, for a
  file of length \<open>L\<close>: at least what the file has there and at most \<open>j - i\<close>; with the flag \<open>x\<close> exactly
  what the file has.
\<close>

definition counted :: "nat \<Rightarrow> nat \<Rightarrow> nat \<Rightarrow> nat \<Rightarrow> bool \<Rightarrow> int \<Rightarrow> bool" where
  "counted L lo i j x r \<longleftrightarrow>
     int (min j (L - lo)) - int (min i (L - lo)) \<le> r \<and> r \<le> int j - int i \<and>
     (x \<longrightarrow> r = int (min j (L - lo)) - int (min i (L - lo)))"

lemma counted_add:
  "counted L lo i j x r \<Longrightarrow> counted L lo j k y t \<Longrightarrow> counted L lo i k (x \<and> y) (r + t)"
  by (auto simp: counted_def)

lemma counted_refl [simp]: "counted L lo i i x 0"
  by (simp add: counted_def)

lemma counted_slice:
  assumes "lo' = lo + i"
  shows "counted (length nas) lo i (i + n) True (int (length (slice lo' n nas)))"
  by (auto simp: counted_def slice_def assms)

lemma counted_agrees:
  assumes "agrees nas cache (lo + i) n"
  shows "counted (length nas) lo i (i + n) False (int (length (slice (lo + i) n cache)))"
proof -
  have "min n (length nas - (lo + i)) \<le> length cache - (lo + i)"
  proof (cases "min n (length nas - (lo + i)) = 0")
    case False
    let ?k = "lo + i + min n (length nas - (lo + i)) - 1"
    have "lo + i \<le> ?k \<and> ?k < lo + i + n \<and> ?k < length nas"
      using False by auto
    with assms have "?k < length cache"
      unfolding agrees_def by blast
    then show ?thesis by linarith
  qed simp
  then show ?thesis by (auto simp: counted_def slice_def)
qed

context file_cache
begin

lemma write_blks_serving:
  assumes sv: "serving_but tabs ino content A fi fn iN iC w" and sp: "space_for (length bs + j) tabs w"
    and call: "write_blks E fn bs w = (r, w')"
  shows "store_inv tabs w' \<and> ready tabs w' \<and> space_for j tabs w' \<and> fn \<in> fst (view_of tabs w') \<and>
    meta_block_size w' = meta_block_size w \<and> w_os w' = w_os w \<and>
    same_nas ino content lookup iN w w' \<and>
    snd (view_of tabs w') = snd (view_of tabs w) \<union> (\<lambda>b. (fn, c_int64 b)) ` set bs"
proof -
  have wr: "store_inv tabs w' \<and> ready tabs w' \<and> room_for j tabs w' \<and> meta_block_size w' = meta_block_size w \<and>
      view_of tabs w' = (fst (view_of tabs w), snd (view_of tabs w) \<union> (\<lambda>b. (fn, c_int64 b)) ` set bs)"
    using write_blks_reliable [OF call, of j] sv sp by (simp add: serving_but_def space_for_def)
  have so: "store_only w w'"
    using store_only_write_blks [of w E fn bs] call by simp
  then have same: "same_nas ino content lookup iN w w'" "w_os w' = w_os w"
    by (auto simp: store_only_def same_nas_def)
  obtain i where i: "i \<le> length bs" "cache_used_size w' = cache_used_size w + of_nat i * meta_block_size w"
    using write_blks_used [of bs E fn w] call by auto
  have "meta_block_size w = block_size w"
    using sv by (simp add: serving_but_def)
  with i have "unat (cache_used_size w') \<le> unat (cache_used_size w) + length bs * unat (block_size w)"
  proof -
    have "i * unat (block_size w) \<le> length bs * unat (block_size w)"
      using i(1) by simp
    moreover have "unat (cache_size w * 1024) < 2 ^ 64"
      by (rule order_less_le_trans [OF unsigned_less]) simp
    moreover from calculation sp have "unat (cache_used_size w) + i * unat (block_size w) < 2 ^ 64"
      unfolding space_for_def add_mult_distrib by linarith
    ultimately show ?thesis
      using i(2) block_offset_unat [of "cache_used_size w" i "block_size w"] \<open>meta_block_size w = block_size w\<close>
      by simp
  qed
  with wr sp same have "space_for j tabs w'"
    by (simp add: space_for_def same_nas_def add_mult_distrib)
  with wr same sv show ?thesis
    by (simp add: serving_but_def)
qed

lemma cacheWrite_serving:
  assumes sv: "serving_but tabs ino content A fi fn iN iC w" and sp: "space_for (n + j) tabs w"
    and grid: "unat off = p * unat (block_size w)"
    and area: "A \<subseteq> (\<lambda>i. int (unat off + i * unat (block_size w))) ` {..<n}"
    and sz: "unat sz = n * unat (block_size w)" and buf: "unat sz \<le> length buf"
    and pos: "unat off + unat sz < 2 ^ 63"
    and bytes: "matches (content (w_os w) iN) (take (unat sz) buf) (unat off)"
  shows "\<exists>r w'. cfs_cacheWrite E K fn buf sz off fi w = Ret (r, w') \<and>
    serving tabs ino content fi fn iN iC w' \<and> space_for j tabs w' \<and>
    same_nas ino content lookup iN w w' \<and>
    snd (view_of tabs w') = snd (view_of tabs w) \<union> (\<lambda>i. (fn, int (unat off + i * unat (block_size w)))) ` {..<n}"
proof -
  let ?bs = "block_size w" and ?os = "block_offsets off (block_size w) n"
  let ?w1 = "log_fi K (log_msg K (log_msg K w))"
  have bs: "?bs \<noteq> 0" using sv by (simp add: serving_but_def)
  from sv obtain h where h: "get_handle fi w = Ret h" "ino (w_os w) (fd_of (nasFH h)) = Some iN"
    "ino (w_os w) (fd_of (cacheFH h)) = Some iC" and ne: "iN \<noteq> iC"
    by (auto simp: serving_but_def opened_def)
  have lg: "logged w ?w1" by simp
  note sv1 = sv [folded logged_serving [OF lg]] and sp1 = sp [folded logged_space [OF lg]]
  have bs1: "block_size ?w1 = ?bs" and os1: "w_os ?w1 = w_os w" and cfs1: "w_cfs ?w1 = w_cfs w"
    and view1: "view_of tabs ?w1 = view_of tabs w"
    using lg by (simp_all add: logged_def view_of_def tables_of_def)
  have nb: "unat (sz div ?bs) = n"
    using sz unat_pos [OF bs] by (simp add: unat_div)
  have "unat (cache_used_size ?w1) < unat (cache_size ?w1 * 1024)"
    using sp1 by (simp add: space_for_def)
  then have wait: "evict_wait K ?w1 = Some ?w1"
    by (simp add: evict_wait_cases get_cache_used_size_def word_le_nat_alt)
  obtain r1 w2 where wb: "write_blks E fn ?os ?w1 = (r1, w2)" by fastforce
  note w2 = write_blks_serving [OF sv1 _ wb, of j, simplified, OF sp1]
  let ?d = "take (unat sz) buf" and ?c = "Pwrite (fd_of (cacheFH h)) (take (unat sz) buf) off"
  obtain r3 s w3 where pw: "sys_log K ?c w2 = (r3, s, w3)" by (cases "sys_log K ?c w2") auto
  from sys_log_Ret [OF pw] obtain os' where k: "k_sys K ?c (w_os w2) = (s, os')" "w_os w3 = os'"
    "logged (w2\<lparr>w_os := os'\<rparr>) w3" by blast
  have ino2: "ino (w_os w2) (fd_of (cacheFH h)) = Some iC"
    using h w2 os1 by simp
  have full: "sr_ret s = int (length ?d)"
    using pwrite_full [OF k(1) ino2] pos buf by simp
  have all: "m = length ?d" if "sr_ret s = int m" for m
    using full that by (metis of_nat_eq_iff)
  have "\<not> sr_ret s < 0" using full by simp
  with pwrite_law [OF k(1) ino2] all have pl: "ino os' = ino (w_os w2)" "lookup os' = lookup (w_os w2)"
    "content os' = (content (w_os w2))(iC := write_at (unat off) ?d (content (w_os w2) iC))"
    by (metis take_all_iff order_refl)+
  have os2: "w_os w2 = w_os w" using w2 os1 by simp
  have same: "same_nas ino content lookup iN w w3"
    using w2 k pl ne lg by (simp add: same_nas_def logged_def)
  have view3: "snd (view_of tabs w3) = snd (view_of tabs w) \<union>
      (\<lambda>i. (fn, int (unat off + i * unat ?bs))) ` {..<n}"
    using w2 k(3) set_block_offsets [of off n ?bs fn] pos sz view1
    by (simp add: logged_def view_of_def tables_of_def)
  have "agrees (content os' iN) (content os' iC) (nat x) (unat (block_size w3)) \<and>
      (\<exists>q. x = int (q * unat (block_size w3)))" if "(fn, x) \<in> snd (view_of tabs w3)" for x
  proof -
    from that consider "(fn, x) \<in> snd (view_of tabs w)" "x \<notin> A" | i where "i < n" "x = int (unat off + i * unat ?bs)"
      using view3 area by auto
    then have "agrees (content (w_os w) iN) (write_at (unat off) ?d (content (w_os w) iC)) (nat x) (unat ?bs)"
    proof cases
      case 1
      with sv have "agrees (content (w_os w) iN) (content (w_os w) iC) (nat x) (unat ?bs)"
        by (auto simp: serving_but_def coherent_def)
      then show ?thesis using bytes by (rule agrees_write)
    next
      case 2
      have "(i + 1) * unat ?bs \<le> n * unat ?bs"
        using 2(1) by (intro mult_right_mono) auto
      moreover have "0 < unat sz"
        using 2(1) sz unat_pos [OF bs] by simp
      moreover have nx: "nat x = unat off + i * unat ?bs"
        unfolding 2(2) by (rule nat_int)
      ultimately show ?thesis
        unfolding nx using sz buf by (intro agrees_written [OF bytes]) auto
    qed
    moreover have "\<exists>q. x = int (q * unat ?bs)"
    proof (cases "(fn, x) \<in> snd (view_of tabs w)")
      case True
      with sv show ?thesis by (auto simp: serving_but_def coherent_def)
    next
      case False
      with that view3 obtain i where "x = int (unat off + i * unat ?bs)" by auto
      then have "x = int ((p + i) * unat ?bs)"
        unfolding grid add_mult_distrib .
      then show ?thesis by blast
    qed
    ultimately show ?thesis
      using pl ne os2 same by (simp add: same_nas_def)
  qed
  then have con: "coherent tabs {} fn (content os' iN) (content os' iC) w3"
    by (simp add: coherent_def)
  have sv3: "serving tabs ino content fi fn iN iC w3"
    using w2 k pl same sv con os1 lg ne h
    by (auto simp: serving_but_def logged_def same_nas_def opened_def get_handle_def store_inv_def ready_def
        view_of_def tables_of_def)
  have "space_for j tabs w3"
    using w2 k(3) by (auto simp: space_for_def logged_def room_for_def tables_of_def)
  moreover have "cfs_cacheWrite E K fn buf sz off fi w = Ret (r3, w3)"
    using sv buf h logged_handle [of w "log_msg K w" fi] bs1 bs nb wait wb pw
    by (simp add: cfs_cacheWrite_def cache_path_Ret serving_but_def Let_def)
  ultimately show ?thesis
    using sv3 same view3 by blast
qed

text \<open>A read of a file disturbs nothing.\<close>

lemma pread_counts:
  assumes "sys K (Pread fd n off) w = (s, w')" "ino (w_os w) fd = Some i" "unat off < 2 ^ 63"
    and "reads_succeed K ino"
  shows "sr_ret s = int (length (sr_data s))"
proof -
  have "0 \<le> sr_ret s"
    using assms(1-3) assms(4) [unfolded reads_succeed_def, rule_format, of "w_os w" fd off n]
    by (auto simp: sys_def split: prod.splits)
  then show ?thesis
    using assms(1,2) pread_law [of fd n off "w_os w" s _ i] by (auto simp: sys_def split: prod.splits)
qed

lemma pread_still:
  assumes "sys K (Pread fd n off) w = (s, w')" "ino (w_os w) fd = Some i" "unat off < 2 ^ 63"
  shows "sr_data s = slice (unat off) (unat n) (content (w_os w) i)" "still ino content lookup w w'"
  using assms pread_full [of fd n off "w_os w" s _ i] pread_law [of fd n off "w_os w" s _ i]
  by (auto simp: sys_def still_def split: prod.splits)

lemma sys_log_still:
  assumes "sys_log K (Pread fd n off) w = (r, s, w')" "ino (w_os w) fd = Some i" "unat off < 2 ^ 63"
  shows "sr_data s = slice (unat off) (unat n) (content (w_os w) i)" "still ino content lookup w w'"
proof -
  from sys_log_Ret [OF assms(1)] obtain os' where k: "k_sys K (Pread fd n off) (w_os w) = (s, os')"
    "w_os w' = os'" "logged (w\<lparr>w_os := os'\<rparr>) w'" by blast
  from pread_full [OF k(1) assms(2,3)] show "sr_data s = slice (unat off) (unat n) (content (w_os w) i)" .
  from pread_law [OF k(1) assms(2)] k show "still ino content lookup w w'"
    by (auto simp: still_def logged_def)
qed

lemma sys_log_counts:
  assumes "sys_log K (Pread fd n off) w = (r, s, w')" "ino (w_os w) fd = Some i" "unat off < 2 ^ 63"
    and "reads_succeed K ino" "length (sr_data s) < 2 ^ 31"
  shows "r = int (length (sr_data s))"
proof -
  obtain s1 w1 where s: "sys K (Pread fd n off) w = (s1, w1)" by fastforce
  obtain r1 w2 where l: "log_syscall K (c_int (sr_ret s1)) 0 w1 = (r1, w2)" by fastforce
  from assms(1) s l have e: "s1 = s" "r1 = r" by (simp_all add: sys_log_def)
  have "c_int (sr_ret s) = int (length (sr_data s))"
    using pread_counts [OF s assms(2-4)] assms(5) e by simp
  with logged_syscall [OF l] e show ?thesis by simp
qed

lemma read_loop_serving:
  assumes "serving tabs ino content fi fn iN iC w" "space_for (length hits) tabs w"
    and "get_handle fi w = Ret h" "ino (w_os w) (fd_of (nasFH h)) = Some iN"
    "ino (w_os w) (fd_of (cacheFH h)) = Some iC"
    and "\<And>j. j < length hits \<Longrightarrow> hits ! j \<noteq> 0 \<Longrightarrow>
       (fn, int (unat lo + (i + j) * unat (block_size w))) \<in> snd (view_of tabs w)"
    and "length buf = (i + length hits) * unat (block_size w)"
    and "unat lo + (i + length hits) * unat (block_size w) < 2 ^ 63"
    and "matches (content (w_os w) iN) (take (i * unat (block_size w)) buf) (unat lo)"
    and "unat lo = p * unat (block_size w)"
  shows "\<exists>ret' buf' w'. read_loop E K fn fi h lo i hits ret buf w = Ret (ret', buf', w') \<and>
    serving tabs ino content fi fn iN iC w' \<and> same_nas ino content lookup iN w w' \<and>
    length buf' = length buf \<and> matches (content (w_os w) iN) buf' (unat lo) \<and>
    (reads_succeed K ino \<and> 0 \<le> ret \<and> ret \<le> int (i * unat (block_size w)) \<and>
       (i + length hits) * unat (block_size w) < 2 ^ 31 \<longrightarrow>
     counted (length (content (w_os w) iN)) (unat lo) (i * unat (block_size w))
       ((i + length hits) * unat (block_size w)) (\<forall>hit \<in> set hits. hit = 0) (ret' - ret))"
  using assms
proof (induction hits arbitrary: i ret buf w)
  case Nil
  then show ?case by simp
next
  case (Cons hit hits)
  let ?bs = "unat (block_size w)" and ?nas = "content (w_os w) iN" and ?cache = "content (w_os w) iC"
  let ?off = "lo + of_nat i * block_size w" and ?at = "i * unat (block_size w)"
  have bound: "unat lo + ?at + ?bs \<le> unat lo + (i + length (hit # hits)) * ?bs"
    by (simp add: add_mult_distrib)
  then have "unat lo + ?at < 2 ^ 63"
    using Cons.prems(8) by linarith
  then have off: "unat ?off = unat lo + ?at"
    by (intro block_offset_unat) simp
  have end63: "unat lo + ?at + ?bs < 2 ^ 63"
    using bound Cons.prems(8) by linarith
  with off have off63: "unat ?off < 2 ^ 63"
    by linarith
  have len: "?at + ?bs \<le> length buf"
    using Cons.prems(7) by (simp add: add_mult_distrib)
  have here: "agrees ?nas ?cache (unat ?off) ?bs" if "hit \<noteq> 0"
    using servingD [OF Cons.prems(1), of "unat lo + ?at"] Cons.prems(6) [of 0] that unfolding off by simp
  let ?fd = "if hit \<noteq> 0 then fd_of (cacheFH h) else fd_of (nasFH h)"
  let ?d = "slice (unat ?off) ?bs (if hit \<noteq> 0 then ?cache else ?nas)"
  obtain s w1 where s: "sys K (Pread ?fd (block_size w) ?off) w = (s, w1)" by fastforce
  have d: "sr_data s = ?d" and st: "still ino content lookup w w1"
    using pread_still [OF s _ off63, of "if hit \<noteq> 0 then iC else iN"] Cons.prems(4,5) by auto
  have dlen: "length ?d \<le> ?bs" by (rule length_slice_le)
  have dm: "matches ?nas ?d (unat lo + ?at)"
    using here matches_slice [of ?nas "unat lo + ?at" ?bs] agrees_slice(1) unfolding off by auto
  have dfull: "k < length ?d" if "k < ?bs" "unat lo + ?at + k < length ?nas" for k
    using here agrees_slice(2) [of ?nas ?cache "unat ?off" ?bs k] that unfolding off
    by (auto simp: slice_def)
  let ?buf = "buf_put ?at ?d buf"
  have buf1: "store_read ?at s buf = Ret ?buf" "length ?buf = length buf"
    using dlen len by (simp_all add: store_read_def d)
  have m1: "matches ?nas (take (?at + ?bs) ?buf) (unat lo)"
    by (rule put_matches [OF Cons.prems(9) dm dfull dlen len])
  have next_hits: "(fn, int (unat lo + (Suc i + j) * ?bs)) \<in> snd (view_of tabs w)"
    if "j < length hits" "hits ! j \<noteq> 0" for j
    using Cons.prems(6) [of "Suc j"] that by simp
  have m2: "matches ?nas (take (?bs + ?at) ?buf) (unat lo)"
    using m1 by (simp add: add.commute)
  have count: "counted (length ?nas) (unat lo) ?at (Suc i * ?bs) (hit = 0) (sr_ret s)"
    "c_int (ret + sr_ret s) = ret + sr_ret s" "0 \<le> ret + sr_ret s" "ret + sr_ret s \<le> int (Suc i * ?bs)"
    if ok: "reads_succeed K ino \<and> 0 \<le> ret \<and> ret \<le> int ?at \<and> (i + length (hit # hits)) * ?bs < 2 ^ 31"
  proof -
    have r: "sr_ret s = int (length ?d)"
      using pread_counts [OF s _ off63, of "if hit \<noteq> 0 then iC else iN"] Cons.prems(4,5) ok d by auto
    have "Suc i * ?bs \<le> (i + length (hit # hits)) * ?bs"
      by (intro mult_right_mono) simp_all
    with ok have "Suc i * ?bs < 2 ^ 31" by (blast intro: le_less_trans)
    then have lim: "int (Suc i * ?bs) < 2 ^ 31"
      by (metis of_nat_less_iff of_nat_numeral of_nat_power)
    have "int (Suc i * ?bs) = int ?at + int ?bs" by (simp only: of_nat_add mult_Suc)
    with ok r dlen show "ret + sr_ret s \<le> int (Suc i * ?bs)" "0 \<le> ret + sr_ret s"
      by linarith+
    with lim show "c_int (ret + sr_ret s) = ret + sr_ret s" by simp
    show "counted (length ?nas) (unat lo) ?at (Suc i * ?bs) (hit = 0) (sr_ret s)"
      using here counted_agrees [of ?nas ?cache "unat lo" ?at ?bs] counted_slice [of "unat ?off" "unat lo" ?at ?nas ?bs]
      unfolding r off by (auto simp: add.commute)
  qed
  have total: "counted (length ?nas) (unat lo) ?at ((i + length (hit # hits)) * ?bs) (\<forall>hit \<in> set (hit # hits). hit = 0) (ret' - ret)"
    if "block_size w' = block_size w" "content (w_os w') iN = ?nas"
      and ok: "reads_succeed K ino \<and> 0 \<le> ret \<and> ret \<le> int ?at \<and> (i + length (hit # hits)) * ?bs < 2 ^ 31"
      and more: "(reads_succeed K ino \<and> 0 \<le> c_int (ret + sr_ret s) \<and> c_int (ret + sr_ret s) \<le> int (Suc i * unat (block_size w')) \<and>
        (Suc i + length hits) * unat (block_size w') < 2 ^ 31 \<longrightarrow>
       counted (length (content (w_os w') iN)) (unat lo) (Suc i * unat (block_size w'))
         ((Suc i + length hits) * unat (block_size w')) (\<forall>hit \<in> set hits. hit = 0) (ret' - c_int (ret + sr_ret s)))"
    for w' :: "('db, 'os) world" and ret'
    using more count [OF ok] ok that(1,2)
      counted_add [of "length ?nas" "unat lo" ?at "Suc i * ?bs" "hit = 0" "sr_ret s"
        "(i + length (hit # hits)) * ?bs" "\<forall>hit \<in> set hits. hit = 0" "ret' - (ret + sr_ret s)"]
    by simp
  note sv1 = Cons.prems(1) [folded still_serving [OF st]]
  note keep = st [unfolded still_def]
  show ?case
  proof (cases "hit \<noteq> 0")
    case True
    have sp1: "space_for (length hits) tabs w1"
      using space_for_less [OF Cons.prems(2), of "length hits"] still_space [OF st] by simp
    have view1: "view_of tabs w1 = view_of tabs w"
      using keep by (simp add: view_of_def tables_of_def)
    have "\<exists>ret' buf' w'. read_loop E K fn fi h lo (Suc i) hits (c_int (ret + sr_ret s)) ?buf w1 = Ret (ret', buf', w') \<and>
      serving tabs ino content fi fn iN iC w' \<and> same_nas ino content lookup iN w1 w' \<and>
      length buf' = length ?buf \<and> matches (content (w_os w1) iN) buf' (unat lo) \<and>
      (reads_succeed K ino \<and> 0 \<le> c_int (ret + sr_ret s) \<and> c_int (ret + sr_ret s) \<le> int (Suc i * unat (block_size w1)) \<and>
        (Suc i + length hits) * unat (block_size w1) < 2 ^ 31 \<longrightarrow>
       counted (length (content (w_os w1) iN)) (unat lo) (Suc i * unat (block_size w1))
         ((Suc i + length hits) * unat (block_size w1)) (\<forall>hit \<in> set hits. hit = 0) (ret' - c_int (ret + sr_ret s)))"
      by (rule Cons.IH [OF sv1 sp1])
        (use Cons.prems(3,4,5,7,8,10) keep next_hits view1 m2 buf1 in \<open>auto simp: get_handle_def\<close>)
    then obtain ret' buf' w' where r: "read_loop E K fn fi h lo (Suc i) hits (c_int (ret + sr_ret s)) ?buf w1 = Ret (ret', buf', w')"
      "serving tabs ino content fi fn iN iC w'" "same_nas ino content lookup iN w1 w'"
      "length buf' = length ?buf" "matches (content (w_os w1) iN) buf' (unat lo)"
      and more: "(reads_succeed K ino \<and> 0 \<le> c_int (ret + sr_ret s) \<and> c_int (ret + sr_ret s) \<le> int (Suc i * unat (block_size w1)) \<and>
        (Suc i + length hits) * unat (block_size w1) < 2 ^ 31 \<longrightarrow>
       counted (length (content (w_os w1) iN)) (unat lo) (Suc i * unat (block_size w1))
         ((Suc i + length hits) * unat (block_size w1)) (\<forall>hit \<in> set hits. hit = 0) (ret' - c_int (ret + sr_ret s)))"
      by blast
    have "read_loop E K fn fi h lo i (hit # hits) ret buf w = Ret (ret', buf', w')"
      using True s buf1 r(1) by (simp add: Let_def)
    with r(2-5) buf1 keep total [of w1 ret'] more show ?thesis
      by (fastforce simp: same_nas_def)
  next
    case False
    have sp1: "space_for (1 + length hits) tabs w1"
      using Cons.prems(2) still_space [OF st] by simp
    have b1: "block_size w1 = block_size w" and nas1: "content (w_os w1) iN = ?nas"
      using keep by simp_all
    have md: "matches ?nas (take ?bs (drop ?at ?buf)) (unat ?off)"
      using matches_drop [OF m1] unfolding off .
    have "\<exists>r w'. cfs_cacheWrite E K fn (drop ?at ?buf) (block_size w) ?off fi w1 = Ret (r, w') \<and>
      serving tabs ino content fi fn iN iC w' \<and> space_for (length hits) tabs w' \<and>
      same_nas ino content lookup iN w1 w' \<and>
      snd (view_of tabs w') = snd (view_of tabs w1) \<union>
        (\<lambda>i. (fn, int (unat ?off + i * unat (block_size w1)))) ` {..<1}"
      by (rule cacheWrite_serving [OF sv1 sp1, where p = "p + i"])
        (use len buf1(2) off end63 md nas1 b1 Cons.prems(10) in \<open>auto simp: add_mult_distrib\<close>)
    then obtain r w2 where w2: "cfs_cacheWrite E K fn (drop ?at ?buf) (block_size w) ?off fi w1 = Ret (r, w2)"
      "serving tabs ino content fi fn iN iC w2" "space_for (length hits) tabs w2"
      "same_nas ino content lookup iN w1 w2" "snd (view_of tabs w1) \<subseteq> snd (view_of tabs w2)"
      by auto
    have same2: "same_nas ino content lookup iN w w2"
      using w2(4) keep by (simp add: same_nas_def)
    have view1: "view_of tabs w1 = view_of tabs w"
      using keep by (simp add: view_of_def tables_of_def)
    have "\<exists>ret' buf' w'. read_loop E K fn fi h lo (Suc i) hits (c_int (ret + sr_ret s)) ?buf w2 = Ret (ret', buf', w') \<and>
      serving tabs ino content fi fn iN iC w' \<and> same_nas ino content lookup iN w2 w' \<and>
      length buf' = length ?buf \<and> matches (content (w_os w2) iN) buf' (unat lo) \<and>
      (reads_succeed K ino \<and> 0 \<le> c_int (ret + sr_ret s) \<and> c_int (ret + sr_ret s) \<le> int (Suc i * unat (block_size w2)) \<and>
        (Suc i + length hits) * unat (block_size w2) < 2 ^ 31 \<longrightarrow>
       counted (length (content (w_os w2) iN)) (unat lo) (Suc i * unat (block_size w2))
         ((Suc i + length hits) * unat (block_size w2)) (\<forall>hit \<in> set hits. hit = 0) (ret' - c_int (ret + sr_ret s)))"
      by (rule Cons.IH [OF w2(2,3)])
        (use Cons.prems(3,4,5,7,8,10) same2 next_hits view1 w2(5) m2 buf1 in \<open>auto simp: get_handle_def same_nas_def\<close>)
    then obtain ret' buf' w' where r: "read_loop E K fn fi h lo (Suc i) hits (c_int (ret + sr_ret s)) ?buf w2 = Ret (ret', buf', w')"
      "serving tabs ino content fi fn iN iC w'" "same_nas ino content lookup iN w2 w'"
      "length buf' = length ?buf" "matches (content (w_os w2) iN) buf' (unat lo)"
      and more: "(reads_succeed K ino \<and> 0 \<le> c_int (ret + sr_ret s) \<and> c_int (ret + sr_ret s) \<le> int (Suc i * unat (block_size w2)) \<and>
        (Suc i + length hits) * unat (block_size w2) < 2 ^ 31 \<longrightarrow>
       counted (length (content (w_os w2) iN)) (unat lo) (Suc i * unat (block_size w2))
         ((Suc i + length hits) * unat (block_size w2)) (\<forall>hit \<in> set hits. hit = 0) (ret' - c_int (ret + sr_ret s)))"
      by blast
    have "read_loop E K fn fi h lo i (hit # hits) ret buf w = Ret (ret', buf', w')"
      using False s buf1 w2 b1 r(1) by (simp add: Let_def)
    with r(2-5) buf1 same2 total [of w2 ret'] more show ?thesis
      by (fastforce simp: same_nas_def)
  qed
qed

end

end
