(* ===== verification/Cfs_Transfers.thy ===== *)
theory Cfs_Transfers
  imports Cfs_Coherence
begin

text \<open>
  \<open>cfs_read\<close> and \<open>cfs_write\<close> as a whole: the aligned area they work on, and what they deliver
  and keep when the request fits into that area.
\<close>

section \<open>The aligned area\<close>

definition nblocks :: "nat \<Rightarrow> nat \<Rightarrow> nat" where
  "nblocks bs n = n div bs + (if n mod bs = 0 then 0 else 1)"

text \<open>Where the area of a request begins.\<close>

definition area_start :: "size_t \<Rightarrow> off_t \<Rightarrow> nat" where
  "area_start bs off = unat off div unat bs * unat bs"

text \<open>How long it is, and how many bytes a file has there.\<close>

definition area_size :: "size_t \<Rightarrow> size_t \<Rightarrow> nat" where
  "area_size bs sz = nblocks (unat bs) (unat sz) * unat bs"

definition area_bytes :: "byte list \<Rightarrow> size_t \<Rightarrow> off_t \<Rightarrow> size_t \<Rightarrow> nat" where
  "area_bytes nas bs off sz = min (area_size bs sz) (length nas - area_start bs off)"

text \<open>
  The handlers round the offset down and the size up, separately; the request fits when the
  area that starts at the lower offset and has the rounded size contains it.
\<close>

definition fits :: "size_t \<Rightarrow> off_t \<Rightarrow> size_t \<Rightarrow> bool" where
  "fits bs off sz \<longleftrightarrow> unat off mod unat bs + unat sz \<le> nblocks (unat bs) (unat sz) * unat bs"

lemma nblocks_bounds:
  assumes "0 < bs"
  shows "n \<le> nblocks bs n * bs" "nblocks bs n * bs < n + bs"
proof -
  have E: "n div bs * bs + n mod bs = n" "n mod bs < bs"
    using div_mult_mod_eq mod_less_divisor [OF assms] by blast+
  have "nblocks bs n * bs = n div bs * bs + (if n mod bs = 0 then 0 else bs)"
    by (simp add: nblocks_def add_mult_distrib)
  moreover have "n \<le> m \<and> m < n + bs"
    if "q + r = n" "r < bs" "m = q + (if r = 0 then 0 else bs)" for q r m
    using that by auto
  ultimately have "n \<le> nblocks bs n * bs \<and> nblocks bs n * bs < n + bs"
    using E by blast
  then show "n \<le> nblocks bs n * bs" "nblocks bs n * bs < n + bs"
    by simp_all
qed

lemma aligned_size_unat:
  assumes "bs \<noteq> 0" "unat sz + unat bs < 2 ^ 64"
  shows "unat (aligned_size bs sz) = nblocks (unat bs) (unat sz) * unat bs"
proof -
  have pos: "0 < unat bs" using assms(1) by (rule unat_pos)
  have m: "unat (bs * (sz div bs)) = unat sz div unat bs * unat bs"
    using unat_div_mult [of sz bs] by (simp only: mult.commute)
  have z: "sz mod bs = 0 \<longleftrightarrow> unat sz mod unat bs = 0"
    by (metis unat_0 unat_eq_zero unat_mod)
  have le: "unat sz div unat bs * unat bs \<le> unat sz" by simp
  show ?thesis
  proof (cases "sz mod bs = 0")
    case True
    with m z show ?thesis by (simp add: aligned_size_def nblocks_def Let_def)
  next
    case False
    have "unat (bs * (sz div bs)) + unat bs < 2 ^ 64"
      unfolding m using le assms(2) by linarith
    then have "unat (bs * (sz div bs) + bs) = unat (bs * (sz div bs)) + unat bs"
      using unat_add_lem [of "bs * (sz div bs)" bs] by simp
    with False m z show ?thesis
      by (simp add: aligned_size_def nblocks_def Let_def add_mult_distrib)
  qed
qed

lemma lower_unat:
  assumes "alignLowerOffset bs off = Ret lo"
  shows "unat lo = unat off div unat bs * unat bs" "unat (off - lo) = unat off mod unat bs"
    "unat lo + unat off mod unat bs = unat off"
proof -
  from assms have lo: "lo = off div bs * bs" "bs \<noteq> 0"
    by (simp_all add: alignLowerOffset_Ret)
  then show 1: "unat lo = unat off div unat bs * unat bs" by simp
  have "off - lo = off mod bs"
    by (simp add: lo minus_div_mult_eq_mod)
  then show "unat (off - lo) = unat off mod unat bs"
    by (simp add: unat_mod)
  show "unat lo + unat off mod unat bs = unat off"
    unfolding 1 by simp
qed

lemma alignUpper_Ret: "bs \<noteq> 0 \<Longrightarrow> \<exists>u. alignUpperOffset bs off = Ret u"
  by (simp add: alignUpperOffset_def)

lemma length_malloc_junk [simp]: "length (malloc_junk K n) = unat n"
  by (simp add: malloc_junk_def)

lemma file_name_Ret:
  "cfs_pathToFileName path = Ret fn \<Longrightarrow> file_name K path w = Ret (fn, log_msg K w)"
  by (simp add: file_name_def)

lemma nas_path_Ret:
  "length (nasdir (w_cfs w)) + length path < PATH_MAX \<Longrightarrow>
     nas_path K path w = Ret (nasdir (w_cfs w) @ path, log_msg K w)"
  using full_path_Ret [of PATH_MAX "nasdir (w_cfs w)" path "nasdir (w_cfs w) @ path"]
  by (simp add: nas_path_def cfs_fullNasPath_def)

section \<open>Reading\<close>

context file_cache
begin

lemma are_blocks_serving:
  assumes sv: "serving tabs ino content fi fn iN iC w"
    and call: "are_blocks_in_cache E fn bs w = (tot, arr, w')"
  shows "arr = map (\<lambda>b. if (fn, c_int64 b) \<in> snd (view_of tabs w) then 1 else 0) bs"
    "tot = (if \<forall>b \<in> set bs. (fn, c_int64 b) \<in> snd (view_of tabs w) then 1 else 0)"
    "still ino content lookup w w' \<or> store_only w w' \<and> same_store tabs w w'"
    "serving tabs ino content fi fn iN iC w'" "space_for n tabs w \<Longrightarrow> space_for n tabs w'"
    "view_of tabs w' = view_of tabs w" "same_nas ino content lookup iN w w'"
proof -
  have inv: "store_inv tabs w" "ready tabs w" using sv by (simp_all add: serving_but_def)
  from call have l: "blocks_loop E fn bs 1 w = (tot, arr, w')"
    by (simp add: are_blocks_in_cache_def)
  show arr: "arr = map (\<lambda>b. if (fn, c_int64 b) \<in> snd (view_of tabs w) then 1 else 0) bs"
    by (rule blocks_loop_reliable [OF l inv])
  note c = are_blocks_in_cache_cases [OF call inv(1)]
  show "tot = (if \<forall>b \<in> set bs. (fn, c_int64 b) \<in> snd (view_of tabs w) then 1 else 0)"
    unfolding c(3) arr by auto
  have so: "store_only w w'"
    using store_only_are_blocks [of w E fn bs] call by simp
  with c(1) show "still ino content lookup w w' \<or> store_only w w' \<and> same_store tabs w w'" by blast
  show v: "view_of tabs w' = view_of tabs w"
    by (rule same_store_view [OF c(1)])
  from so show "same_nas ino content lookup iN w w'"
    by (auto simp: store_only_def same_nas_def)
  from so obtain d u where w': "w' = w\<lparr>metaDataBase := d, cache_used_size := u\<rparr>"
    by (auto simp: store_only_def)
  show "serving tabs ino content fi fn iN iC w'"
    using sv v same_store_inv [OF c(1)] same_store_ready [OF c(1)]
    by (simp add: w' serving_but_def opened_def get_handle_def coherent_def)
  show "space_for n tabs w'" if "space_for n tabs w"
    using that same_store_room [OF c(1)] c(1) by (simp add: w' space_for_def same_store_def)
qed

lemma read_serving:
  assumes sv: "serving tabs ino content fi fn iN iC w"
    and name: "cfs_pathToFileName path = Ret fn"
    and sp: "space_for (nblocks (unat (block_size w)) (unat sz)) tabs w"
    and fit: "fits (block_size w) off sz"
    and pos: "unat off + unat sz + unat (block_size w) < 2 ^ 63"
  shows "\<exists>ret buf w'. cfs_read E K path sz off fi w = Ret (ret, buf, w') \<and>
    serving tabs ino content fi fn iN iC w' \<and> same_nas ino content lookup iN w w' \<and>
    length buf = unat sz \<and> matches (content (w_os w) iN) buf (unat off) \<and>
    (reads_succeed K ino \<and> nblocks (unat (block_size w)) (unat sz) * unat (block_size w) < 2 ^ 31 \<longrightarrow>
     counted (length (content (w_os w) iN)) (area_start (block_size w) off) 0
       (nblocks (unat (block_size w)) (unat sz) * unat (block_size w))
       (\<forall>i < nblocks (unat (block_size w)) (unat sz).
          (fn, int (area_start (block_size w) off + i * unat (block_size w))) \<notin> snd (view_of tabs w)) ret)"
proof -
  let ?bs = "unat (block_size w)" and ?nas = "content (w_os w) iN"
  let ?A = "aligned_size (block_size w) sz" and ?n = "nblocks (unat (block_size w)) (unat sz)"
  have bs: "block_size w \<noteq> 0" using sv by (simp add: serving_but_def)
  then have bs0: "0 < ?bs" by (rule unat_pos)
  obtain lo where lo: "alignLowerOffset (block_size w) off = Ret lo"
    using bs by (simp add: alignLowerOffset_def)
  note lou = lower_unat [OF lo]
  obtain up where up: "alignUpperOffset (block_size w) (off + ?A) = Ret up"
    using alignUpper_Ret [OF bs] by blast
  have A: "unat ?A = ?n * ?bs"
    using pos by (intro aligned_size_unat [OF bs]) simp
  have nb: "unat (?A div block_size w) = ?n"
    using A bs0 by (simp add: unat_div)
  have end63: "unat lo + ?n * ?bs < 2 ^ 63"
    using nblocks_bounds(2) [OF bs0, of "unat sz"] lou pos by linarith
  let ?os = "block_offsets lo (block_size w) ?n"
  from sv obtain h where h: "get_handle fi w = Ret h" "ino (w_os w) (fd_of (nasFH h)) = Some iN"
    "ino (w_os w) (fd_of (cacheFH h)) = Some iC" and ne: "iN \<noteq> iC"
    by (auto simp: serving_but_def opened_def)
  let ?w1 = "log_msg K w"
  have lg1: "logged w ?w1" by simp
  obtain tot arr w2 where ab: "are_blocks_in_cache E fn ?os ?w1 = (tot, arr, w2)"
    by (cases "are_blocks_in_cache E fn ?os ?w1") auto
  note a = are_blocks_serving [OF sv [folded logged_serving [OF lg1]] ab]
  have view1: "view_of tabs ?w1 = view_of tabs w" by (simp add: view_of_def tables_of_def log_msg_def)
  let ?w3 = "log_fi K (log_msg K (log_msg K w2))"
  have lg3: "logged w2 ?w3" by simp
  have same3: "same_nas ino content lookup iN w ?w3"
    using a(7) lg1 lg3 by (simp add: same_nas_def logged_def)
  have sv3: "serving tabs ino content fi fn iN iC ?w3"
    using a(4) logged_serving [OF lg3] by blast
  have sp3: "space_for ?n tabs ?w3"
    using a(5) [of ?n] sp logged_space [OF lg1] logged_space [OF lg3] by blast
  have view3: "view_of tabs ?w3 = view_of tabs w"
    using a(6) lg3 view1 by (simp add: logged_def view_of_def tables_of_def)
  have h3: "get_handle fi ?w3 = Ret h" "get_handle fi w2 = Ret h"
    "ino (w_os ?w3) (fd_of (nasFH h)) = Some iN" "ino (w_os ?w3) (fd_of (cacheFH h)) = Some iC"
    using same3 h a(7) lg1 by (simp_all add: same_nas_def logged_def get_handle_def)
  have b3: "block_size ?w3 = block_size w" and nas3: "content (w_os ?w3) iN = ?nas"
    using same3 by (simp_all add: same_nas_def)
  have off_i: "c_int64 (?os ! i) = int (unat lo + i * ?bs)" if "i < ?n" for i
  proof -
    have "i * ?bs \<le> ?n * ?bs" using that by simp
    with end63 have "unat lo + i * ?bs < 2 ^ 63" by linarith
    with block_offset_unat [of lo i "block_size w"] that show ?thesis
      by (simp add: block_offsets_def c_int64_unat)
  qed
  let ?junk = "malloc_junk K ?A"
  let ?go = "if tot \<noteq> 0
     then (case sys_log K (Pread (fd_of (cacheFH h)) ?A lo) ?w3 of
             (retstat, s, w) \<Rightarrow> obind (store_read 0 s ?junk) (\<lambda>cacheBuf. Ret (retstat, cacheBuf, w)))
     else read_loop E K fn fi h lo 0 arr 0 ?junk ?w3"
  let ?count = "\<lambda>ret. reads_succeed K ino \<and> ?n * ?bs < 2 ^ 31 \<longrightarrow>
    counted (length ?nas) (unat lo) 0 (?n * ?bs) (\<forall>i < ?n. (fn, int (unat lo + i * ?bs)) \<notin> snd (view_of tabs w)) ret"
  have "\<exists>ret buf w4. ?go = Ret (ret, buf, w4) \<and> serving tabs ino content fi fn iN iC w4 \<and>
    same_nas ino content lookup iN ?w3 w4 \<and> length buf = ?n * ?bs \<and> matches ?nas buf (unat lo) \<and> ?count ret"
  proof (cases "tot = 0")
    case True
    have "\<exists>ret' buf' w'. read_loop E K fn fi h lo 0 arr 0 ?junk ?w3 = Ret (ret', buf', w') \<and>
        serving tabs ino content fi fn iN iC w' \<and> same_nas ino content lookup iN ?w3 w' \<and>
        length buf' = length ?junk \<and> matches (content (w_os ?w3) iN) buf' (unat lo) \<and>
        (reads_succeed K ino \<and> 0 \<le> (0 :: int) \<and> 0 \<le> int (0 * unat (block_size ?w3)) \<and>
           (0 + length arr) * unat (block_size ?w3) < 2 ^ 31 \<longrightarrow>
         counted (length (content (w_os ?w3) iN)) (unat lo) (0 * unat (block_size ?w3))
           ((0 + length arr) * unat (block_size ?w3)) (\<forall>hit \<in> set arr. hit = 0) (ret' - 0))"
    proof (rule read_loop_serving [OF sv3 _ h3(1,3,4)])
      show "space_for (length arr) tabs ?w3"
        using sp3 by (simp add: a(1))
      show "(fn, int (unat lo + (0 + j) * unat (block_size ?w3))) \<in> snd (view_of tabs ?w3)"
        if "j < length arr" "arr ! j \<noteq> 0" for j
      proof -
        have j: "j < ?n" using that(1) by (simp add: a(1))
        with that have "(fn, c_int64 (?os ! j)) \<in> snd (view_of tabs w)"
          by (auto simp: a(1) view1 split: if_splits)
        with off_i [OF j] show ?thesis
          unfolding view3 b3 by simp
      qed
      show "length ?junk = (0 + length arr) * unat (block_size ?w3)"
        using A by (simp add: a(1) b3)
      show "unat lo + (0 + length arr) * unat (block_size ?w3) < 2 ^ 63"
        using end63 by (simp add: a(1) b3)
      show "matches (content (w_os ?w3) iN) (take (0 * unat (block_size ?w3)) ?junk) (unat lo)"
        by (simp add: matches_def)
      show "unat lo = (unat off div ?bs) * unat (block_size ?w3)"
        using lou(1) by (simp only: b3)
    qed
    then obtain ret' buf' w' where r: "read_loop E K fn fi h lo 0 arr 0 ?junk ?w3 = Ret (ret', buf', w')"
      "serving tabs ino content fi fn iN iC w'" "same_nas ino content lookup iN ?w3 w'"
      "length buf' = length ?junk" "matches ?nas buf' (unat lo)"
      and cn: "reads_succeed K ino \<and> length arr * ?bs < 2 ^ 31 \<longrightarrow>
        counted (length ?nas) (unat lo) 0 (length arr * ?bs) (\<forall>hit \<in> set arr. hit = 0) ret'"
      unfolding nas3 b3 by auto
    have "(\<forall>hit \<in> set arr. hit = 0) \<longleftrightarrow> (\<forall>b \<in> set ?os. (fn, c_int64 b) \<notin> snd (view_of tabs w))"
      unfolding a(1) view1 by (simp only: set_map ball_simps(9)) (simp cong: ball_cong split: if_splits)
    also have "\<dots> \<longleftrightarrow> (\<forall>i < ?n. (fn, int (unat lo + i * ?bs)) \<notin> snd (view_of tabs w))"
      using off_i by (auto simp: all_set_conv_all_nth)
    finally have "?count ret'" using cn by (simp add: a(1))
    with True A r show ?thesis by auto
  next
    case False
    then have all: "\<forall>b \<in> set ?os. (fn, c_int64 b) \<in> snd (view_of tabs w)"
      using a(2) view1 by (auto split: if_splits)
    let ?cache = "content (w_os ?w3) iC"
    have "agrees ?nas ?cache (unat lo + i * ?bs) ?bs" if "i < ?n" for i
    proof -
      have "(fn, c_int64 (?os ! i)) \<in> snd (view_of tabs ?w3)"
        using all that view3 by (simp add: nth_mem)
      then have "(fn, int (unat lo + i * ?bs)) \<in> snd (view_of tabs ?w3)"
        unfolding off_i [OF that] .
      from servingD [OF sv3 this] show ?thesis
        unfolding b3 nas3 by simp
    qed
    then have ag: "agrees ?nas ?cache (unat lo) (?n * ?bs)"
      using bs0 by (rule agrees_blocks)
    obtain r s w4 where s: "sys_log K (Pread (fd_of (cacheFH h)) ?A lo) ?w3 = (r, s, w4)"
      by (cases "sys_log K (Pread (fd_of (cacheFH h)) ?A lo) ?w3") auto
    have "unat lo < 2 ^ 63" using end63 by linarith
    note sl = sys_log_still [OF s h3(4) this]
    have d: "sr_data s = slice (unat lo) (?n * ?bs) ?cache"
      using sl(1) A by simp
    let ?buf = "buf_put 0 (sr_data s) ?junk"
    have dl: "length (sr_data s) \<le> ?n * ?bs"
      unfolding d by (rule length_slice_le)
    have sl1: "matches ?nas (sr_data s) (unat lo)"
      "\<And>k. k < ?n * ?bs \<Longrightarrow> unat lo + k < length ?nas \<Longrightarrow> k < length (sr_data s)"
      using agrees_slice [OF ag] d by simp_all
    have len: "length ?buf = ?n * ?bs"
      using dl A by simp
    have "matches ?nas ?buf (unat lo)"
      using put_matches [of ?nas 0 ?junk "unat lo" "sr_data s" "?n * ?bs"] sl1 dl A len
      by (simp add: matches_def)
    moreover note len
    moreover have "store_read 0 s ?junk = Ret ?buf"
      using dl A by (simp add: store_read_def)
    moreover have "serving tabs ino content fi fn iN iC w4"
      using sv3 still_serving [OF sl(2)] by blast
    moreover have "same_nas ino content lookup iN ?w3 w4"
      using sl(2) by (simp add: still_def same_nas_def)
    moreover have "?count r"
    proof
      assume ok: "reads_succeed K ino \<and> ?n * ?bs < 2 ^ 31"
      have "r = int (length (sr_data s))"
        using sys_log_counts [OF s h3(4) \<open>unat lo < 2 ^ 63\<close>] ok dl by simp
      moreover have "counted (length ?nas) (unat lo) 0 (?n * ?bs) False (int (length (sr_data s)))"
        using counted_agrees [of ?nas ?cache "unat lo" 0 "?n * ?bs"] ag unfolding d by simp
      moreover have "counted (length ?nas) (unat lo) 0 (?n * ?bs) True (int (length (sr_data s)))"
        if none: "\<forall>i < ?n. (fn, int (unat lo + i * ?bs)) \<notin> snd (view_of tabs w)"
      proof -
        have "?n = 0"
          using none all off_i by (metis length_block_offsets not_gr_zero nth_mem)
        with dl show ?thesis by simp
      qed
      ultimately show "counted (length ?nas) (unat lo) 0 (?n * ?bs)
          (\<forall>i < ?n. (fn, int (unat lo + i * ?bs)) \<notin> snd (view_of tabs w)) r"
        by (auto simp: counted_def)
    qed
    ultimately show ?thesis
      using False s by auto
  qed
  then obtain ret buf w4 where go: "?go = Ret (ret, buf, w4)"
    "serving tabs ino content fi fn iN iC w4" "same_nas ino content lookup iN ?w3 w4"
    "length buf = ?n * ?bs" "matches ?nas buf (unat lo)" "?count ret"
    by blast
  let ?out = "slice (unat off mod ?bs) (unat sz) buf"
  have tot: "0 \<le> tot" using a(2) by simp
  have fit': "unat off mod ?bs + unat sz \<le> length buf"
    using fit go(4) by (simp add: fits_def)
  have "cfs_read E K path sz off fi w = Ret (ret, ?out, w4)"
    using lo up nb ab name h3 tot go(1) fit' lou(2)
    by (simp add: cfs_read_def file_name_Ret Let_def copy_out_def)
  moreover have "matches ?nas ?out (unat off)"
    using matches_drop [of ?nas "unat off mod ?bs" "unat sz" buf "unat lo"] go(5) lou(3) fit'
    by (simp add: slice_def matches_def)
  moreover have "length ?out = unat sz"
    using fit' by simp
  moreover have start: "area_start (block_size w) off = unat lo"
    using lou(1) by (simp add: area_start_def)
  ultimately show ?thesis
    unfolding start using go(2,6) same_nas_trans [OF same3 go(3)] by blast
qed

lemma read_returns:
  "serving tabs ino content fi fn iN iC w \<Longrightarrow> cfs_pathToFileName path = Ret fn \<Longrightarrow>
    space_for (nblocks (unat (block_size w)) (unat sz)) tabs w \<Longrightarrow> fits (block_size w) off sz \<Longrightarrow>
    unat off + unat sz + unat (block_size w) < 2 ^ 63 \<Longrightarrow> \<exists>r. cfs_read E K path sz off fi w = Ret r"
  using read_serving by blast

text \<open>Writing to the NAS file leaves the agreement of every block that it does not touch.\<close>

lemma agrees_nas_write:
  assumes "agrees nas cache b n" "off \<le> length nas" "b + n \<le> off \<or> off + length d \<le> b"
  shows "agrees (write_at off d nas) cache b n"
proof (cases "d = []")
  case False
  show ?thesis
    unfolding agrees_def
  proof (intro allI impI)
    fix k assume k: "b \<le> k \<and> k < b + n \<and> k < length (write_at off d nas)"
    then have out: "\<not> (off \<le> k \<and> k < off + length d)"
      using assms(3) by linarith
    with k False assms(2) have "k < length nas"
      by (auto simp: length_write_at max_def split: if_splits)
    moreover from this out have "write_at off d nas ! k = nas ! k"
      using nth_write_at [of k off d nas] k by (simp only: if_False) simp
    ultimately show "k < length cache \<and> cache ! k = write_at off d nas ! k"
      using k assms(1) by (simp add: agrees_def)
  qed
qed (use assms(1) in simp)

lemma outside_area:
  fixes bs :: nat
  assumes "\<And>i. i < n \<Longrightarrow> q * bs \<noteq> p * bs + i * bs"
  shows "q * bs + bs \<le> p * bs \<or> p * bs + n * bs \<le> q * bs"
proof -
  have "\<not> (p \<le> q \<and> q < p + n)"
  proof
    assume pq: "p \<le> q \<and> q < p + n"
    then have "q * bs = p * bs + (q - p) * bs"
      by (metis add_mult_distrib le_add_diff_inverse)
    moreover have "q - p < n" using pq by linarith
    ultimately show False using assms [of "q - p"] by blast
  qed
  then consider "q + 1 \<le> p" | "p + n \<le> q" by linarith
  then show ?thesis
  proof cases
    case 1
    then have "(q + 1) * bs \<le> p * bs" by (rule mult_right_mono) simp
    then show ?thesis by simp
  next
    case 2
    then have "(p + n) * bs \<le> q * bs" by (rule mult_right_mono) simp
    then show ?thesis by (simp add: add_mult_distrib)
  qed
qed

text \<open>The attributes that \<open>cfs_getNASattr\<close> delivers, and that it disturbs nothing.\<close>

lemma getNASattr_still:
  assumes "length (nasdir (w_cfs w)) + length path < PATH_MAX"
    and "lookup (w_os w) (nasdir (w_cfs w) @ path) = Some i"
  shows "\<exists>r st w'. cfs_getNASattr K path w = Ret (r, st, w') \<and> still ino content lookup w w' \<and>
    st_size st = of_nat (length (content (w_os w) i))"
proof -
  let ?w = "log_msg K (log_msg K w)" and ?p = "nasdir (w_cfs w) @ path"
  obtain r s w1 where s: "sys_log K (Lstat ?p) ?w = (r, s, w1)" by (cases "sys_log K (Lstat ?p) ?w") auto
  from sys_log_Ret [OF s] obtain os' where k: "k_sys K (Lstat ?p) (w_os ?w) = (s, os')" "w_os w1 = os'"
    "logged (?w\<lparr>w_os := os'\<rparr>) w1" by blast
  have os: "w_os ?w = w_os w" by (simp add: log_msg_def)
  have cfs: "w_cfs (log_msg K w) = w_cfs w" by (simp add: log_msg_def)
  have "still ino content lookup w w1"
    using k lstat_law [OF k(1)] os by (auto simp: still_def logged_def log_msg_def)
  then have "still ino content lookup w (log_stat K w1)"
    by (rule still_trans) (simp add: logged_still)
  moreover have "st_size (sr_stat s) = of_nat (length (content (w_os w) i))"
    using lstat_full [OF k(1)] os assms(2) by simp
  moreover have "cfs_getNASattr K path w = Ret (r, sr_stat s, log_stat K w1)"
    using nas_path_Ret [of "log_msg K w" path] assms(1) s cfs by (simp add: cfs_getNASattr_def)
  ultimately show ?thesis by blast
qed

lemma write_serving:
  assumes sv: "serving tabs ino content fi fn iN iC w"
    and name: "cfs_pathToFileName path = Ret fn"
    and path: "length (nasdir (w_cfs w)) + length path < PATH_MAX"
      "lookup (w_os w) (nasdir (w_cfs w) @ path) = Some iN"
    and sp: "space_for (nblocks (unat (block_size w)) (unat sz)) tabs w"
    and fit: "fits (block_size w) off sz" and buf: "length buf = unat sz"
    and gap: "unat off \<le> length (content (w_os w) iN)" and len63: "length (content (w_os w) iN) < 2 ^ 63"
    and pos: "unat off + unat sz + unat (block_size w) < 2 ^ 63"
  shows "\<exists>ret w'. cfs_write E K path buf sz off fi w = Ret (ret, w') \<and>
    serving tabs ino content fi fn iN iC w' \<and>
    content (w_os w') iN = write_at (unat off) buf (content (w_os w) iN) \<and>
    (unat sz < 2 ^ 31 \<longrightarrow> ret = int (unat sz))"
proof -
  let ?bs = "unat (block_size w)" and ?nas = "content (w_os w) iN"
  let ?nas' = "write_at (unat off) buf (content (w_os w) iN)"
  let ?A = "aligned_size (block_size w) sz" and ?n = "nblocks (unat (block_size w)) (unat sz)"
  have bs: "block_size w \<noteq> 0" using sv by (simp add: serving_but_def)
  then have bs0: "0 < ?bs" by (rule unat_pos)
  obtain lo where lo: "alignLowerOffset (block_size w) off = Ret lo"
    using bs by (simp add: alignLowerOffset_def)
  note lou = lower_unat [OF lo]
  obtain up where up: "alignUpperOffset (block_size w) (off + ?A) = Ret up"
    using alignUpper_Ret [OF bs] by blast
  have A: "unat ?A = ?n * ?bs"
    using pos by (intro aligned_size_unat [OF bs]) simp
  have end63: "unat lo + ?n * ?bs < 2 ^ 63"
    using nblocks_bounds(2) [OF bs0, of "unat sz"] lou pos by linarith
  from sv obtain h where h: "get_handle fi w = Ret h" "ino (w_os w) (fd_of (nasFH h)) = Some iN"
    "ino (w_os w) (fd_of (cacheFH h)) = Some iC" and ne: "iN \<noteq> iC"
    by (auto simp: serving_but_def opened_def)
  let ?w0 = "if sz mod block_size w \<noteq> 0 then log_msg K w else w"
  let ?w1 = "log_fi K (log_msg K ?w0)"
  have lg: "logged w ?w1" "logged w ?w0" by simp_all
  note keep1 = lg(1) [unfolded logged_def]
  let ?c = "Pwrite (fd_of (nasFH h)) (take (unat sz) buf) off"
  obtain ret s w2 where pw: "sys_log K ?c ?w1 = (ret, s, w2)" by (cases "sys_log K ?c ?w1") auto
  from sys_log_Ret [OF pw] obtain os' where k: "k_sys K ?c (w_os ?w1) = (s, os')" "w_os w2 = os'"
    "logged (?w1\<lparr>w_os := os'\<rparr>) w2" by blast
  have ino1: "ino (w_os ?w1) (fd_of (nasFH h)) = Some iN" using h keep1 by simp
  have full: "sr_ret s = int (unat sz)"
    using pwrite_full [OF k(1) ino1] pos buf by simp
  have all: "m = unat sz" if "sr_ret s = int m" for m
    using full that by (metis of_nat_eq_iff)
  have "\<not> sr_ret s < 0" using full by simp
  with pwrite_law [OF k(1) ino1] obtain m where m: "sr_ret s = int m" "ino os' = ino (w_os ?w1)"
    "lookup os' = lookup (w_os ?w1)"
    "content os' = (content (w_os ?w1))(iN := write_at (unat off) (take m (take (unat sz) buf)) (content (w_os ?w1) iN))"
    by blast
  have pl: "ino os' = ino (w_os w)" "lookup os' = lookup (w_os w)"
    "content os' = (content (w_os w))(iN := ?nas')"
    using m(2-4) all [OF m(1)] keep1 buf by simp_all
  have ret: "ret = int (unat sz)" if "unat sz < 2 ^ 31"
  proof -
    have "c_int (sr_ret s) = int (unat sz)"
    proof -
      have "int (unat sz) < 2 ^ 31"
        using that by (simp only: of_nat_less_iff [where 'a = int, symmetric]) simp
      moreover have "- (2 ^ 31) \<le> int n" for n by simp
      ultimately show ?thesis unfolding full by (intro c_int_id)
    qed
    then show ?thesis
      using pw full by (auto simp: sys_log_def sys_def k(1) log_syscall_def Let_def log_retstat_def)
  qed
  note keep2 = k(3) [unfolded logged_def] k(2) keep1
  let ?area = "(\<lambda>i. int (unat lo + i * ?bs)) ` {..<?n}"
  have "agrees ?nas' (content (w_os w) iC) (nat x) ?bs \<and> (\<exists>q. x = int (q * ?bs))"
    if x: "(fn, x) \<in> snd (view_of tabs w)" "x \<notin> ?area" for x
  proof -
    from sv x(1) obtain q where q: "x = int (q * ?bs)"
      by (auto simp: serving_but_def coherent_def)
    have ag: "agrees ?nas (content (w_os w) iC) (q * ?bs) ?bs"
      using servingD [OF sv, of "q * ?bs"] x(1) q by simp
    let ?p = "unat off div ?bs"
    have "q * ?bs \<noteq> ?p * ?bs + i * ?bs" if "i < ?n" for i
    proof
      assume "q * ?bs = ?p * ?bs + i * ?bs"
      then have "x = int (unat lo + i * ?bs)"
        unfolding q lou(1) by (rule arg_cong)
      with x(2) that show False by blast
    qed
    then have "q * ?bs + ?bs \<le> ?p * ?bs \<or> ?p * ?bs + ?n * ?bs \<le> q * ?bs"
      by (rule outside_area)
    then have "q * ?bs + ?bs \<le> unat off \<or> unat off + length buf \<le> q * ?bs"
      using lou fit unfolding buf fits_def by linarith
    from agrees_nas_write [OF ag gap this] have "agrees ?nas' (content (w_os w) iC) (nat x) ?bs"
      unfolding q by (simp only: nat_int)
    with q show ?thesis by blast
  qed
  moreover have "\<exists>q. x = int (q * ?bs)" if "(fn, x) \<in> snd (view_of tabs w)" for x
    using sv that by (auto simp: serving_but_def coherent_def)
  ultimately have con: "coherent tabs ?area fn ?nas' (content (w_os w) iC) w"
    by (simp add: coherent_def)
  have sv2: "serving_but tabs ino content ?area fi fn iN iC w2"
    using sv con keep2 pl ne
    by (auto simp: serving_but_def opened_def get_handle_def store_inv_def ready_def view_of_def
        tables_of_def coherent_def)
  have sp2: "space_for ?n tabs w2"
    using sp keep2 by (auto simp: space_for_def room_for_def tables_of_def)
  have b2: "block_size w2 = block_size w" and cfs2: "w_cfs w2 = w_cfs w" using keep2 by simp_all
  obtain r3 st w3 where na: "cfs_getNASattr K path w2 = Ret (r3, st, w3)" and st3: "still ino content lookup w2 w3"
    and size: "st_size st = of_nat (length (content (w_os w2) iN))"
    using getNASattr_still [of w2 path iN] path keep2 pl cfs2 by auto
  have nas2: "content (w_os w2) iN = ?nas'" using k(2) pl by simp
  have len: "length ?nas' < 2 ^ 63" "buf \<noteq> [] \<Longrightarrow> unat off + unat sz \<le> length ?nas'" "length ?nas \<le> length ?nas'"
    using len63 pos buf length_write_at [of buf "unat off" ?nas] length_write_at_ge [of ?nas "unat off" buf]
    by (cases "buf = []"; simp)+
  have size': "unat (st_size st) = length ?nas'"
    unfolding size nas2 using len(1) by (simp only: unat_of_nat) simp
  let ?r = "if st_size st < ?A + lo then st_size st - lo else ?A"
  have lo_le: "unat lo \<le> length ?nas'" using lou(3) gap len(3) by linarith
  have sum: "unat (?A + lo) = ?n * ?bs + unat lo"
    using A end63 unat_add_lem [of ?A lo] by simp
  have r: "unat ?r = min (?n * ?bs) (length ?nas' - unat lo)"
  proof (cases "st_size st < ?A + lo")
    case True
    then have "length ?nas' < ?n * ?bs + unat lo"
      using sum size' by (simp add: word_less_nat_alt)
    moreover have "unat (st_size st - lo) = length ?nas' - unat lo"
      using size' lo_le by (simp add: unat_sub word_le_nat_alt)
    ultimately show ?thesis using True by simp
  next
    case False
    then have "?n * ?bs + unat lo \<le> length ?nas'"
      using sum size' by (simp add: word_less_nat_alt)
    with False A show ?thesis by simp
  qed
  let ?w3 = "log_msg K w3"
  have st4: "still ino content lookup w2 ?w3"
    using st3 by (rule still_trans) (simp add: logged_still)
  obtain r5 s5 w5 where rd: "sys_log K (Pread (fd_of (nasFH h)) ?r lo) ?w3 = (r5, s5, w5)"
    by (cases "sys_log K (Pread (fd_of (nasFH h)) ?r lo) ?w3") auto
  have ino3: "ino (w_os ?w3) (fd_of (nasFH h)) = Some iN"
    using st4 keep2 pl h by (simp add: still_def)
  have "unat lo < 2 ^ 63" using end63 by linarith
  note sl = sys_log_still [OF rd ino3 this]
  have d: "sr_data s5 = slice (unat lo) (unat ?r) ?nas'"
    using sl(1) st4 nas2 by (simp add: still_def)
  have dl: "length (sr_data s5) = unat ?r"
    unfolding d using r lo_le by (intro length_slice) linarith
  let ?junk = "malloc_junk K ?A"
  let ?b = "buf_put 0 (sr_data s5) ?junk"
  have lb: "length ?b = ?n * ?bs"
    using dl r A by simp
  have "matches ?nas' (take (0 + ?n * ?bs) ?b) (unat lo)"
  proof (rule put_matches)
    show "matches ?nas' (sr_data s5) (unat lo + 0)"
      using matches_slice [of ?nas' "unat lo" "unat ?r"] unfolding d by (simp only: add_0_right)
    show "k < length (sr_data s5)" if "k < ?n * ?bs" "unat lo + 0 + k < length ?nas'" for k
      using that unfolding dl r by linarith
    show "length (sr_data s5) \<le> ?n * ?bs"
      unfolding dl r by (rule min.cobounded1)
  qed (simp_all add: matches_def A)
  then have mb: "matches ?nas' ?b (unat lo)"
    using lb by simp
  have st5: "still ino content lookup w2 w5"
    using st4 sl(2) by (rule still_trans)
  let ?w6 = "log_msg K w5"
  have st6: "still ino content lookup w2 ?w6"
    using st5 by (rule still_trans) (simp add: logged_still)
  have sv6: "serving_but tabs ino content ?area fi fn iN iC ?w6"
    using sv2 still_serving [OF st6] by blast
  have sp6: "space_for (?n + 0) tabs ?w6"
    using sp2 still_space [OF st6] by simp
  have b6: "block_size ?w6 = block_size w" and nas6: "content (w_os ?w6) iN = ?nas'"
    using st6 b2 nas2 by (simp_all add: still_def)
  have "\<exists>r w'. cfs_cacheWrite E K fn ?b ?A lo fi ?w6 = Ret (r, w') \<and>
    serving tabs ino content fi fn iN iC w' \<and> space_for 0 tabs w' \<and>
    same_nas ino content lookup iN ?w6 w' \<and>
    snd (view_of tabs w') = snd (view_of tabs ?w6) \<union> (\<lambda>i. (fn, int (unat lo + i * unat (block_size ?w6)))) ` {..<?n}"
    by (rule cacheWrite_serving [OF sv6 sp6, where p = "unat off div ?bs"])
      (use lou(1) A lb end63 mb in \<open>simp_all add: b6 nas6\<close>)
  then obtain r7 w7 where cw: "cfs_cacheWrite E K fn ?b ?A lo fi ?w6 = Ret (r7, w7)"
    "serving tabs ino content fi fn iN iC w7" "same_nas ino content lookup iN ?w6 w7"
    by blast
  have sr: "store_read 0 s5 ?junk = Ret ?b"
    using dl r A by (simp add: store_read_def)
  have gh: "get_handle fi ?w0 = Ret h"
    using h by (simp add: get_handle_def log_msg_def)
  have "cfs_write E K path buf sz off fi w = Ret (ret, w7)"
    using lo up gh buf pw na rd sr cw(1) name
    by (simp add: cfs_write_def Let_def file_name_Ret log_msg_def)
  moreover have "content (w_os w7) iN = ?nas'"
    using cw(3) nas6 by (simp add: same_nas_def)
  ultimately show ?thesis
    using cw(2) ret by blast
qed

end

end
