(* ===== verification/Cfs_Main.thy ===== *)
theory Cfs_Main
  imports Cfs_Files
begin

text \<open>
  The table \<open>cfs_oper\<close> that hands the requests of FUSE to the handlers, and \<open>main\<close>, which
  reads the command line, limits the cache size, opens the metadata and starts FUSE.
\<close>

section \<open>The request table\<close>

datatype (plugins only: code size) request =
    ReqGetattr string | ReqReadlink string size_t | ReqMknod string int int | ReqMkdir string int
  | ReqUnlink string | ReqRmdir string | ReqSymlink string string | ReqRename string string
  | ReqLink string string | ReqChmod string int | ReqChown string int int | ReqTruncate string off_t
  | ReqUtime string "(int \<times> int) option" | ReqOpen string fuse_file_info
  | ReqRead string size_t off_t fuse_file_info | ReqWrite string "byte list" size_t off_t fuse_file_info
  | ReqStatfs string | ReqFlush string fuse_file_info | ReqRelease string fuse_file_info
  | ReqFsync string int fuse_file_info | ReqSetxattr string string "byte list" int
  | ReqGetxattr string string size_t | ReqListxattr string bool size_t | ReqRemovexattr string string
  | ReqOpendir string fuse_file_info | ReqReaddir string fuse_file_info
  | ReqReleasedir string fuse_file_info | ReqFsyncdir string fuse_file_info | ReqAccess string int
  | ReqFtruncate string off_t fuse_file_info | ReqFgetattr string fuse_file_info

text \<open>What a handler returns: its status and what it stored for the caller.\<close>

datatype (plugins only: code size) reply =
    Status int | Attr int stat | Text int string | Bytes int "byte list" | FsStat int statvfs
  | Info int fuse_file_info

definition status :: "(int \<times> ('db, 'os) world) outcome \<Rightarrow> (reply \<times> ('db, 'os) world) outcome" where
  "status p = obind p (\<lambda>(r, w). Ret (Status r, w))"

definition answer ::
  "(int \<Rightarrow> 'a \<Rightarrow> reply) \<Rightarrow> (int \<times> 'a \<times> ('db, 'os) world) outcome \<Rightarrow> (reply \<times> ('db, 'os) world) outcome"
where
  "answer f p = obind p (\<lambda>(r, x, w). Ret (f r x, w))"

primrec cfs_oper ::
  "'db sqlite3 \<Rightarrow> 'os kernel \<Rightarrow> request \<Rightarrow> ('db, 'os) world \<Rightarrow> (reply \<times> ('db, 'os) world) outcome"
where
  "cfs_oper E K (ReqGetattr path) w = answer Attr (cfs_getNASattr K path w)"
| "cfs_oper E K (ReqReadlink path n) w = answer Text (cfs_readlink K path n w)"
| "cfs_oper E K (ReqMknod path mode dev) w = status (cfs_mknod K path mode dev w)"
| "cfs_oper E K (ReqMkdir path mode) w = status (cfs_mkdir K path mode w)"
| "cfs_oper E K (ReqUnlink path) w = status (cfs_unlink E K path w)"
| "cfs_oper E K (ReqRmdir path) w = status (cfs_rmdir K path w)"
| "cfs_oper E K (ReqSymlink path link) w = status (cfs_symlink K path link w)"
| "cfs_oper E K (ReqRename path newpath) w = status (cfs_rename K path newpath w)"
| "cfs_oper E K (ReqLink path newpath) w = status (cfs_link K path newpath w)"
| "cfs_oper E K (ReqChmod path mode) w = status (cfs_chmod K path mode w)"
| "cfs_oper E K (ReqChown path uid gid) w = status (cfs_chown K path uid gid w)"
| "cfs_oper E K (ReqTruncate path n) w = status (cfs_truncate K path n w)"
| "cfs_oper E K (ReqUtime path ubuf) w = status (cfs_utime K path ubuf w)"
| "cfs_oper E K (ReqOpen path fi) w = answer Info (cfs_open E K path fi w)"
| "cfs_oper E K (ReqRead path n off fi) w = answer Bytes (cfs_read E K path n off fi w)"
| "cfs_oper E K (ReqWrite path buf n off fi) w = status (cfs_write E K path buf n off fi w)"
| "cfs_oper E K (ReqStatfs path) w = answer FsStat (cfs_statfs K path w)"
| "cfs_oper E K (ReqFlush path fi) w = status (cfs_flush K fi w)"
| "cfs_oper E K (ReqRelease path fi) w = status (cfs_release K path fi w)"
| "cfs_oper E K (ReqFsync path datasync fi) w = status (cfs_fsync K datasync fi w)"
| "cfs_oper E K (ReqSetxattr path name val flags) w = status (cfs_setxattr K path name val flags w)"
| "cfs_oper E K (ReqGetxattr path name n) w = answer Bytes (cfs_getxattr K path name n w)"
| "cfs_oper E K (ReqListxattr path list_null n) w = answer Bytes (cfs_listxattr K path list_null n w)"
| "cfs_oper E K (ReqRemovexattr path name) w = status (cfs_removexattr K path name w)"
| "cfs_oper E K (ReqOpendir path fi) w = answer Info (cfs_opendir K path fi w)"
| "cfs_oper E K (ReqReaddir path fi) w = status (cfs_readdir K fi w)"
| "cfs_oper E K (ReqReleasedir path fi) w = status (cfs_releasedir K fi w)"
| "cfs_oper E K (ReqFsyncdir path fi) w = status (cfs_fsyncdir K fi w)"
| "cfs_oper E K (ReqAccess path amask) w = status (cfs_access K path amask w)"
| "cfs_oper E K (ReqFtruncate path off fi) w = status (cfs_ftruncate K off fi w)"
| "cfs_oper E K (ReqFgetattr path fi) w = answer Attr (cfs_fgetattr K path fi w)"

text \<open>A mounted file system serves one request after the other.\<close>

fun serve ::
  "'db sqlite3 \<Rightarrow> 'os kernel \<Rightarrow> request list \<Rightarrow> ('db, 'os) world \<Rightarrow> (reply list \<times> ('db, 'os) world) outcome"
where
  "serve E K [] w = Ret ([], w)"
| "serve E K (q # qs) w =
     obind (cfs_oper E K q w) (\<lambda>(r, w).
     obind (serve E K qs w) (\<lambda>(rs, w). Ret (r # rs, w)))"

section \<open>Starting\<close>

text \<open>
  \<open>sscanf(arg, "%lu", &x)\<close>: without digits \<open>x\<close> keeps its value; a number out of range
  saturates, as it does in the C library the program is built with.
\<close>

definition sscanf_lu :: "string \<Rightarrow> size_t \<Rightarrow> size_t" where
  "sscanf_lu arg x = (case strtoul arg of NoDigits \<Rightarrow> x | OutOfRange \<Rightarrow> - 1 | Number n \<Rightarrow> n)"

text \<open>
  The available kilobytes: the \<open>double\<close> product of \<open>f_bsize/1024.0\<close> and \<open>f_bavail\<close>, truncated.
  It is computed exactly here, as the \<open>double\<close> computation is while the product stays below
  $2^{53}$.
\<close>

definition fs_avail_kb :: "statvfs \<Rightarrow> size_t" where
  "fs_avail_kb v = of_nat (f_bsize v * f_bavail v div 1024)"

definition limit_cache_size :: "size_t \<Rightarrow> size_t \<Rightarrow> size_t" where
  "limit_cache_size userSize fsAvailKb =
     (if userSize > fsAvailKb - 100 \<and> fsAvailKb > 100 then fsAvailKb - 100
      else if userSize > fsAvailKb then fsAvailKb
      else userSize)"

text \<open>\<open>cfs_usage\<close> prints the usage line and calls \<open>abort\<close>; \<open>SIGABRT\<close> ends the process with 134.\<close>

definition cfs_usage :: "'a outcome" where
  "cfs_usage = Exit 134"

definition starts_with_hyphen :: "string \<Rightarrow> bool" where
  "starts_with_hyphen s = (s \<noteq> [] \<and> hd s = CHR ''-'')"

text \<open>The metadata initialisation of \<open>main\<close>.\<close>

definition start_metadata ::
  "'db sqlite3 \<Rightarrow> string \<Rightarrow> size_t \<Rightarrow> ('db, 'z) meta_scheme \<Rightarrow> ('db, 'z) meta_scheme outcome" where
  "start_metadata E metadata_file bs m =
     obind (open_db E metadata_file m) (\<lambda>(_, m).
     obind (create_tables E m) (\<lambda>(_, m).
     init_cache_used_size E (set_block_size bs m)))"

text \<open>
  \<open>main\<close> for the arguments \<open>argv\<close> (the program name first). \<open>junk\<close> is the initial content of the
  uninitialised \<open>userSize\<close>. \<open>realpath\<close> of a bad path is a NULL pointer, which \<open>strcpy\<close> follows.
  FUSE receives two arguments: the mount directory replaces the cache size in \<open>argv\<close>, the rest
  is cleared, and \<open>argc\<close> is set to 2.
\<close>

definition cfs_main ::
  "'db sqlite3 \<Rightarrow> 'os kernel \<Rightarrow> size_t \<Rightarrow> string list \<Rightarrow> ('db, 'os) world \<Rightarrow>
     (int \<times> ('db, 'os) world) outcome" where
  "cfs_main E K junk argv w =
     (let argc = length argv
      in case sys K Getuid w of (uid, w) \<Rightarrow>
         case (if sr_ret uid = 0 then (uid, w) else sys K Geteuid w) of (euid, w) \<Rightarrow>
         if sr_ret uid = 0 \<or> sr_ret euid = 0 then Ret (1, w)
         else if argc < 6 \<or> starts_with_hyphen (argv ! (argc - 3)) \<or>
              starts_with_hyphen (argv ! (argc - 2)) \<or> starts_with_hyphen (argv ! (argc - 1))
         then cfs_usage
         else
           case sys K (Realpath (argv ! (argc - 3))) w of (nas, w) \<Rightarrow>
           case sys K (Realpath (argv ! (argc - 1))) w of (cache, w) \<Rightarrow>
           let userSize = sscanf_lu (argv ! (argc - 5)) junk
           in case sys K (Statvfs (sr_text cache)) w of (fs, w) \<Rightarrow>
              let w = w\<lparr>cache_size := (if sr_ret fs \<noteq> 0 then userSize
                                       else limit_cache_size userSize (fs_avail_kb (sr_statvfs fs)))\<rparr>;
                  w = w\<lparr>block_size := sscanf_lu (argv ! (argc - 4)) (block_size w)\<rparr>;
                  w = w\<lparr>w_cfs := \<lparr>nasdir = sr_text nas, cachedir = sr_text cache\<rparr>\<rparr>
              in obind (log_open K w) (\<lambda>w.
                 if sr_ret cache = 0 then Crash BadHandle
                 else
                   obind (obind (c_strcpy PATH_MAX (sr_text cache))
                            (\<lambda>s. c_strncat PATH_MAX s ''/Metadata-File.db'' PATH_MAX)) (\<lambda>metadata_file.
                   obind (start_metadata E metadata_file (block_size w) w) (\<lambda>w.
                     case sys K (Fuse_main (take 2 (argv[argc - 5 := argv ! (argc - 2)]))) w of
                       (fuse_stat, w) \<Rightarrow> Ret (c_int (sr_ret fuse_stat), w)))))"

end
