(* ===== verification/Cfs_Demo.thy ===== *)
theory Cfs_Demo
  imports Cfs_Transfers Cfs_Main Meta_Demo
begin

text \<open>
  A small mounted file system for the witnesses: blocks of four bytes, a file of ten bytes on
  the NAS whose first block is cached, one open handle, over the executable engine and the
  small file system with given lists of faults.
\<close>

definition cfs_demo_tables :: tables where
  "cfs_demo_tables = \<lparr>files =
     [\<lparr>file_id = 1, relative_path = ''/a'', remote_size = 10, local_size = 4\<rparr>],
     datablocks = [\<lparr>block_id = 1, blk_start_offset = 0, valid = 1, timestamp = 10, blk_file_id = 1\<rparr>],
     has_files = True, has_datablocks = True, foreign_keys = True\<rparr>"

definition demo_fs :: "bool list \<Rightarrow> memfs" where
  "demo_fs faults = \<lparr>mf_names = [(''/nas/a'', 1), (''/cache/a'', 2)],
     mf_inodes = [(1, [10, 11, 12, 13, 14, 15, 16, 17, 18, 19]), (2, [10, 11, 12, 13])],
     mf_mtimes = [(1, 5), (2, 7)], mf_fds = [(3, 1), (4, 2)], mf_dirs = [(9, [''x'', ''y''])], mf_faults = faults\<rparr>"

definition demo_world :: "int list \<Rightarrow> bool list \<Rightarrow> (tdb, memfs) world" where
  "demo_world fs ks = \<lparr>metaDataBase = \<lparr>td_tables = cfs_demo_tables, td_stmts = [], td_now = 20, td_faults = fs\<rparr>,
     meta_block_size = 4, cache_used_size = 4, w_os = demo_fs ks, w_errno = 0,
     w_cfs = \<lparr>nasdir = ''/nas'', cachedir = ''/cache''\<rparr>, cache_size = 1, block_size = 4,
     w_handles = [0 \<mapsto> \<lparr>nasFH = 3, cacheFH = 4\<rparr>], w_next = 1, w_trace = []\<rparr>"

text \<open>The same file system with the first two blocks cached.\<close>

definition demo_world2 :: "(tdb, memfs) world" where
  "demo_world2 = (demo_world [] [])\<lparr>
     metaDataBase := \<lparr>td_tables = cfs_demo_tables\<lparr>
         files := [\<lparr>file_id = 1, relative_path = ''/a'', remote_size = 10, local_size = 8\<rparr>],
         datablocks := [\<lparr>block_id = 1, blk_start_offset = 0, valid = 1, timestamp = 10, blk_file_id = 1\<rparr>,
           \<lparr>block_id = 2, blk_start_offset = 4, valid = 1, timestamp = 11, blk_file_id = 1\<rparr>]\<rparr>,
       td_stmts = [], td_now = 20, td_faults = []\<rparr>,
     cache_used_size := 8,
     w_os := (demo_fs [])\<lparr>mf_inodes := [(1, [10, 11, 12, 13, 14, 15, 16, 17, 18, 19]),
       (2, [10, 11, 12, 13, 14, 15, 16, 17])]\<rparr>\<rparr>"

definition demo_fi :: fuse_file_info where
  "demo_fi = \<lparr>fi_flags = 2, fi_fh = 0\<rparr>"

lemma demo_world_inv: "store_inv td_tables (demo_world fs ks)"
  by (simp add: store_inv_def tables_of_def demo_world_def cfs_demo_tables_def wf_tables_def accounted_def
      block_count_def total_local_def c_int64_def block_key_def)

lemma demo_world_ready: "ready td_tables (demo_world fs ks)"
  by (simp add: ready_def tables_of_def demo_world_def cfs_demo_tables_def)

lemma demo_world_view: "view_of td_tables (demo_world fs ks) = ({''/a''}, {(''/a'', 0)})"
  by (auto simp: view_of_def tables_of_def demo_world_def cfs_demo_tables_def cache_view_def known_iff
      is_cached_iff path_id_def block_key_def split: if_splits)

lemma demo_content:
  "mf_content (demo_fs ks) 1 = [10, 11, 12, 13, 14, 15, 16, 17, 18, 19]"
  "mf_content (demo_fs ks) 2 = [10, 11, 12, 13]"
  by (simp_all add: mf_content_def demo_fs_def)

lemma demo_agrees: "agrees [10, 11, 12, 13, 14, 15, 16, 17, 18, 19] [10, 11, 12, 13] 0 4"
proof -
  have "k = 0 \<or> k = 1 \<or> k = 2 \<or> k = 3" if "k < 4" for k :: nat
    using that by auto
  then show ?thesis by (fastforce simp: agrees_def)
qed

lemma demo_serving: "serving td_tables mf_ino mf_content demo_fi ''/a'' 1 2 (demo_world fs ks)"
proof -
  have "coherent td_tables {} ''/a'' (mf_content (demo_fs ks) 1) (mf_content (demo_fs ks) 2) (demo_world fs ks)"
    unfolding coherent_def demo_world_view demo_content
    using demo_agrees by (auto simp: demo_world_def intro: exI [of _ 0])
  moreover have "w_os (demo_world fs ks) = demo_fs ks" by (simp add: demo_world_def)
  ultimately show ?thesis
    by (simp add: serving_but_def demo_world_inv demo_world_ready demo_world_view)
      (simp add: demo_world_def opened_def get_handle_def demo_fi_def mf_ino_def demo_fs_def fd_of_def c_int_def
        PATH_MAX_def)
qed

lemma demo_space: "n \<le> 200 \<Longrightarrow> space_for n td_tables (demo_world fs ks)"
  by (simp add: space_for_def room_for_def tables_of_def demo_world_def cfs_demo_tables_def c_int64_def)

lemma memfs_reads: "reads_succeed (memfs_kernel False) mf_ino"
  by (auto simp: reads_succeed_def Let_def split: option.split)

text \<open>What a run shows, without the world it ends in.\<close>

definition seen :: "('a \<Rightarrow> 'b) \<Rightarrow> 'a outcome \<Rightarrow> 'b outcome" where
  "seen f p = obind p (\<lambda>x. Ret (f x))"

end
