(* ===== verification/Cfs_Frames.thy ===== *)
theory Cfs_Frames
  imports Cfs_Main Meta_Frame
begin

text \<open>
  What every handler keeps, whatever the system and SQLite answer: it passes to the system only
  paths that belong to its request, it leaves the configuration alone, and it preserves the
  constraints of the metadata. One rule per building block (collection \<open>wp\<close>) carries this
  through a handler's body.
\<close>

section \<open>The paths of a request\<close>

fun request_paths :: "request \<Rightarrow> string list" where
  "request_paths (ReqGetattr p) = [p]"
| "request_paths (ReqReadlink p n) = [p]"
| "request_paths (ReqMknod p mode dev) = [p]"
| "request_paths (ReqMkdir p mode) = [p]"
| "request_paths (ReqUnlink p) = [p]"
| "request_paths (ReqRmdir p) = [p]"
| "request_paths (ReqSymlink p l) = [p, l]"
| "request_paths (ReqRename p p') = [p, p']"
| "request_paths (ReqLink p p') = [p, p']"
| "request_paths (ReqChmod p mode) = [p]"
| "request_paths (ReqChown p uid gid) = [p]"
| "request_paths (ReqTruncate p n) = [p]"
| "request_paths (ReqUtime p ub) = [p]"
| "request_paths (ReqOpen p fi) = [p]"
| "request_paths (ReqRead p n off fi) = [p]"
| "request_paths (ReqWrite p buf n off fi) = [p]"
| "request_paths (ReqStatfs p) = [p]"
| "request_paths (ReqRelease p fi) = [p]"
| "request_paths (ReqSetxattr p name val flags) = [p]"
| "request_paths (ReqGetxattr p name n) = [p]"
| "request_paths (ReqListxattr p nl n) = [p]"
| "request_paths (ReqRemovexattr p name) = [p]"
| "request_paths (ReqOpendir p fi) = [p]"
| "request_paths (ReqAccess p am) = [p]"
| "request_paths (ReqFgetattr p fi) = [p]"
| "request_paths q = []"

text \<open>The files that stand for a path: on the NAS, and by its flat name in the cache.\<close>

definition files_of :: "cfs_state \<Rightarrow> string list \<Rightarrow> string set" where
  "files_of c ps = {nasdir c @ p |p. p \<in> set ps} \<union>
     {cachedir c @ k |k p. p \<in> set ps \<and> cfs_pathToFileName p = Ret k}"

text \<open>
  The calls that a handler may make on a set of files. The target text of a symbolic link is
  not a file that is accessed.
\<close>

fun call_ok :: "string set \<Rightarrow> syscall \<Rightarrow> bool" where
  "call_ok A (Lstat p) = (p \<in> A)"
| "call_ok A (Readlink p n) = (p \<in> A)"
| "call_ok A (Open p fl mode) = (p \<in> A)"
| "call_ok A (Mkfifo p mode) = (p \<in> A)"
| "call_ok A (Mknod p mode dev) = (p \<in> A)"
| "call_ok A (Mkdir p mode) = (p \<in> A)"
| "call_ok A (Unlink p) = (p \<in> A)"
| "call_ok A (Rmdir p) = (p \<in> A)"
| "call_ok A (Symlink t p) = (p \<in> A)"
| "call_ok A (Rename p p') = (p \<in> A \<and> p' \<in> A)"
| "call_ok A (Link p p') = (p \<in> A \<and> p' \<in> A)"
| "call_ok A (Chmod p mode) = (p \<in> A)"
| "call_ok A (Chown p uid gid) = (p \<in> A)"
| "call_ok A (Truncate p n) = (p \<in> A)"
| "call_ok A (Utime p ub) = (p \<in> A)"
| "call_ok A (Access p am) = (p \<in> A)"
| "call_ok A (Statvfs p) = (p \<in> A)"
| "call_ok A (System s) = (\<exists>p \<in> A. s = ''fallocate -d '' @ p)"
| "call_ok A (Lsetxattr p name val flags) = (p \<in> A)"
| "call_ok A (Lgetxattr p name n) = (p \<in> A)"
| "call_ok A (Llistxattr p n) = (p \<in> A)"
| "call_ok A (Lremovexattr p name) = (p \<in> A)"
| "call_ok A (Opendir p) = (p \<in> A)"
| "call_ok A (Realpath p) = False"
| "call_ok A (Fopen p) = False"
| "call_ok A (Fuse_main args) = False"
| "call_ok A c = True"

section \<open>The invariant of a handler's steps\<close>

definition steps ::
  "('db \<Rightarrow> tables) \<Rightarrow> string list \<Rightarrow> ('db, 'os) world \<Rightarrow> ('db, 'os) world \<Rightarrow> bool" where
  "steps tabs ps w w' \<longleftrightarrow>
     w_cfs w' = w_cfs w \<and> block_size w' = block_size w \<and> cache_size w' = cache_size w \<and>
     (constraints (tables_of tabs w) \<longrightarrow> constraints (tables_of tabs w')) \<and>
     (\<exists>cs. w_trace w' = w_trace w @ cs \<and> (\<forall>c \<in> set cs. call_ok (files_of (w_cfs w) ps) c))"

definition post :: "('a \<Rightarrow> bool) \<Rightarrow> 'a outcome \<Rightarrow> bool" where
  "post P p \<longleftrightarrow> (\<forall>x. p = Ret x \<longrightarrow> P x)"

named_theorems wp

lemma post_simps [simp]: "post P (Ret x) = P x" "post P (Crash c)" "post P (Exit n)" "post P Hang"
  by (simp_all add: post_def)

lemma post_intros [wp]: "P x \<Longrightarrow> post P (Ret x)" "post P (Crash c)" "post P (Exit n)" "post P Hang"
  "post P (g a b) \<Longrightarrow> post P (case (a, b) of (x, y) \<Rightarrow> g x y)"
  by simp_all

lemma post_obind [wp]: "post (\<lambda>x. post P (f x)) p \<Longrightarrow> post P (obind p f)"
  by (auto simp: post_def obind_eq_Ret)

lemma post_if [wp]: "(b \<Longrightarrow> post P x) \<Longrightarrow> (\<not> b \<Longrightarrow> post P y) \<Longrightarrow> post P (if b then x else y)"
  by simp

lemma post_true [simp]: "post (\<lambda>x. True) p"
  by (simp add: post_def)

lemma post_strings [wp]: "(\<And>x. P x) \<Longrightarrow> post P (c_strncat cap d s n)" "(\<And>x. P x) \<Longrightarrow> post P (c_strcpy cap s)"
  by (simp_all add: post_def)

lemma post_get_handle [wp]: "(\<And>x. P x) \<Longrightarrow> post P (get_handle fi w)"
  by (simp add: post_def)

lemma post_buffers [wp]: "(\<And>x. P x) \<Longrightarrow> post P (store_read at r buf)" "(\<And>x. P x) \<Longrightarrow> post P (copy_out buf at n)"
  by (simp_all add: post_def)

lemma post_aligned [wp]:
  "(\<And>x. P x) \<Longrightarrow> post P (alignLowerOffset bs off)" "(\<And>x. P x) \<Longrightarrow> post P (alignUpperOffset bs off)"
  by (simp_all add: post_def)

lemma steps_refl [simp]: "steps tabs ps w w"
  by (simp add: steps_def)

lemma steps_log_msg [wp]: "steps tabs ps w0 w \<Longrightarrow> steps tabs ps w0 (log_msg K w)"
  by (auto simp: steps_def log_msg_def tables_of_def)

lemma steps_log_msgs: "steps tabs ps w0 w \<Longrightarrow> steps tabs ps w0 ((log_msg K ^^ n) w)"
  by (induction n) (auto intro: steps_log_msg)

lemma steps_logs [wp]:
  assumes "steps tabs ps w0 w"
  shows "steps tabs ps w0 (log_fi K w)" "steps tabs ps w0 (log_stat K w)"
    "steps tabs ps w0 (log_statvfs K w)"
  using steps_log_msgs [OF assms] by (simp_all add: log_fi_def log_stat_def log_statvfs_def)

lemma steps_free_handle [wp]: "steps tabs ps w0 w \<Longrightarrow> steps tabs ps w0 (free_handle fi w)"
  by (auto simp: steps_def free_handle_def tables_of_def)

lemma steps_new_handle [wp]:
  "steps tabs ps w0 w \<Longrightarrow> (\<And>p w'. steps tabs ps w0 w' \<Longrightarrow> post P (f p w')) \<Longrightarrow>
     post P (case new_handle h w of (p, w) \<Rightarrow> f p w)"
  by (auto simp: steps_def new_handle_def tables_of_def)

lemma steps_errno: "steps tabs ps w0 w \<Longrightarrow> steps tabs ps w0 (w\<lparr>w_errno := e\<rparr>)"
  by (auto simp: steps_def tables_of_def)

lemma steps_sys:
  "sys K c w = (s, w') \<Longrightarrow> steps tabs ps w0 w \<Longrightarrow> call_ok (files_of (w_cfs w0) ps) c \<Longrightarrow> steps tabs ps w0 w'"
  by (auto simp: steps_def sys_def tables_of_def split: prod.splits)

lemma steps_log_error: "log_error K w = (r, w') \<Longrightarrow> steps tabs ps w0 w \<Longrightarrow> steps tabs ps w0 w'"
  by (auto simp: log_error_def intro: steps_log_msg)

lemma steps_log_syscall:
  "log_syscall K r0 n w = (r, w') \<Longrightarrow> steps tabs ps w0 w \<Longrightarrow> steps tabs ps w0 w'"
  by (auto simp: log_syscall_def log_retstat_def Let_def split: if_splits prod.splits
      intro: steps_errno steps_log_msg steps_log_error)

lemma steps_sys_log:
  "sys_log K c w = (r, s, w') \<Longrightarrow> steps tabs ps w0 w \<Longrightarrow> call_ok (files_of (w_cfs w0) ps) c \<Longrightarrow>
     steps tabs ps w0 w'"
  by (auto simp: sys_log_def split: prod.splits intro: steps_sys steps_log_syscall)

lemma steps_sys_check:
  "sys_check K c w = (r, s, w') \<Longrightarrow> steps tabs ps w0 w \<Longrightarrow> call_ok (files_of (w_cfs w0) ps) c \<Longrightarrow>
     steps tabs ps w0 w'"
  by (auto simp: sys_check_def split: prod.splits if_splits intro: steps_sys steps_log_error)

lemma wp_sys [wp]:
  "steps tabs ps w0 w \<Longrightarrow> call_ok (files_of (w_cfs w0) ps) c \<Longrightarrow>
     (\<And>s w'. steps tabs ps w0 w' \<Longrightarrow> post P (f s w')) \<Longrightarrow> post P (case sys K c w of (s, w) \<Rightarrow> f s w)"
  by (auto split: prod.split dest: steps_sys)

lemma wp_log_error [wp]:
  "steps tabs ps w0 w \<Longrightarrow> (\<And>r w'. steps tabs ps w0 w' \<Longrightarrow> post P (f r w')) \<Longrightarrow>
     post P (case log_error K w of (r, w) \<Rightarrow> f r w)"
  by (auto split: prod.split dest: steps_log_error)

lemma wp_log_error_if [wp]:
  "steps tabs ps w0 w \<Longrightarrow> steps tabs ps w0 v \<Longrightarrow>
     (\<And>r w'. steps tabs ps w0 w' \<Longrightarrow> post P (f r w')) \<Longrightarrow>
     post P (case (if b then log_error K w else (n, v)) of (r, w) \<Rightarrow> f r w)"
  by (auto split: prod.split dest: steps_log_error)

lemma wp_sys_log [wp]:
  "steps tabs ps w0 w \<Longrightarrow> call_ok (files_of (w_cfs w0) ps) c \<Longrightarrow>
     (\<And>r s w'. steps tabs ps w0 w' \<Longrightarrow> post P (f r s w')) \<Longrightarrow>
     post P (case sys_log K c w of (r, s, w) \<Rightarrow> f r s w)"
  by (auto split: prod.split dest: steps_sys_log)

lemma wp_sys_check [wp]:
  "steps tabs ps w0 w \<Longrightarrow> call_ok (files_of (w_cfs w0) ps) c \<Longrightarrow>
     (\<And>r s w'. steps tabs ps w0 w' \<Longrightarrow> post P (f r s w')) \<Longrightarrow>
     post P (case sys_check K c w of (r, s, w) \<Rightarrow> f r s w)"
  by (auto split: prod.split dest: steps_sys_check)

lemma wp_nas_path [wp]:
  "steps tabs ps w0 w \<Longrightarrow>
     (\<And>w'. steps tabs ps w0 w' \<Longrightarrow> P (nasdir (w_cfs w0) @ p, w')) \<Longrightarrow> post P (nas_path K p w)"
  using full_path_Ret [of PATH_MAX "nasdir (w_cfs w)" p] steps_log_msg [of tabs ps w0 w K]
  by (auto simp: post_def nas_path_def obind_eq_Ret cfs_fullNasPath_def) (simp add: steps_def)

lemma wp_file_name [wp]:
  "steps tabs ps w0 w \<Longrightarrow>
     (\<And>k w'. steps tabs ps w0 w' \<Longrightarrow> cfs_pathToFileName p = Ret k \<Longrightarrow> P (k, w')) \<Longrightarrow>
     post P (file_name K p w)"
  by (auto simp: post_def file_name_def obind_eq_Ret intro: steps_log_msg)

lemma wp_cache_path [wp]:
  "steps tabs ps w0 w \<Longrightarrow>
     (\<And>w'. steps tabs ps w0 w' \<Longrightarrow> P (cachedir (w_cfs w0) @ k, w')) \<Longrightarrow> post P (cache_path K k w)"
  using full_path_Ret [of PATH_MAX "cachedir (w_cfs w)" k] steps_log_msg [of tabs ps w0 w K]
  by (auto simp: post_def cache_path_def obind_eq_Ret cfs_fullCachePath_def) (simp add: steps_def)

lemma files_of_nas [intro]: "p \<in> set ps \<Longrightarrow> nasdir c @ p \<in> files_of c ps"
  by (auto simp: files_of_def)

lemma files_of_cache [intro]:
  "p \<in> set ps \<Longrightarrow> cfs_pathToFileName p = Ret k \<Longrightarrow> cachedir c @ k \<in> files_of c ps"
  by (auto simp: files_of_def)

section \<open>The forwarding handlers\<close>

lemma steps_make_node:
  "make_node K p mode dev w = (r, w') \<Longrightarrow> steps tabs ps w0 w \<Longrightarrow> p \<in> files_of (w_cfs w0) ps \<Longrightarrow>
     steps tabs ps w0 w'"
  by (auto simp: make_node_def split: if_splits prod.splits elim!: steps_sys_log)

abbreviation (input) keeps_steps where
  "keeps_steps tabs ps w0 \<equiv> \<lambda>(r, w'). steps tabs ps w0 w'"

abbreviation (input) keeps_steps3 where
  "keeps_steps3 tabs ps w0 \<equiv> \<lambda>(r, x, w'). steps tabs ps w0 w'"

lemma wp_pairs [wp]: "P a b \<Longrightarrow> case (a, b) of (x, y) \<Rightarrow> P x y"
  by simp

lemma wp_make_node [wp]:
  "steps tabs ps w0 w \<Longrightarrow> p \<in> files_of (w_cfs w0) ps \<Longrightarrow>
     case make_node K p mode dev w of (r, w') \<Rightarrow> steps tabs ps w0 w'"
  using steps_make_node by (cases "make_node K p mode dev w") auto

lemma wp_call3:
  "post (\<lambda>(r, x, w'). steps tabs ps w0 w') p \<Longrightarrow>
     (\<And>r s w'. steps tabs ps w0 w' \<Longrightarrow> P (r, s, w')) \<Longrightarrow> post P p"
  by (auto simp: post_def)

lemma wp_call2:
  "post (\<lambda>(r, w'). steps tabs ps w0 w') p \<Longrightarrow>
     (\<And>r w'. steps tabs ps w0 w' \<Longrightarrow> P (r, w')) \<Longrightarrow> post P p"
  by (auto simp: post_def)

lemma getNASattr_post:
  "steps tabs ps w0 w \<Longrightarrow> p \<in> set ps \<Longrightarrow> post (\<lambda>(r, x, w'). steps tabs ps w0 w') (cfs_getNASattr K p w)"
  unfolding cfs_getNASattr_def by (assumption | rule wp | (auto; fail))+

lemma getCacheattr_post:
  "steps tabs ps w0 w \<Longrightarrow> p \<in> set ps \<Longrightarrow> post (\<lambda>(r, x, w'). steps tabs ps w0 w') (cfs_getCacheattr K p w)"
  unfolding cfs_getCacheattr_def by (assumption | rule wp | (auto; fail))+

lemmas wp_attr [wp] = wp_call3 [OF getNASattr_post] wp_call3 [OF getCacheattr_post]

lemma mknod_post: "steps tabs ps w0 w \<Longrightarrow> p \<in> set ps \<Longrightarrow>
     post (\<lambda>(r, w'). steps tabs ps w0 w') (cfs_mknod K p mode dev w)"
  unfolding cfs_mknod_def by (assumption | rule wp | (auto; fail))+

lemma mkdir_post: "steps tabs ps w0 w \<Longrightarrow> p \<in> set ps \<Longrightarrow>
     post (\<lambda>(r, w'). steps tabs ps w0 w') (cfs_mkdir K p mode w)"
  unfolding cfs_mkdir_def by (assumption | rule wp | (auto; fail))+

lemma rmdir_post: "steps tabs ps w0 w \<Longrightarrow> p \<in> set ps \<Longrightarrow>
     post (\<lambda>(r, w'). steps tabs ps w0 w') (cfs_rmdir K p w)"
  unfolding cfs_rmdir_def by (assumption | rule wp | (auto; fail))+

lemma chmod_post: "steps tabs ps w0 w \<Longrightarrow> p \<in> set ps \<Longrightarrow>
     post (\<lambda>(r, w'). steps tabs ps w0 w') (cfs_chmod K p mode w)"
  unfolding cfs_chmod_def by (assumption | rule wp | (auto; fail))+

lemma chown_post: "steps tabs ps w0 w \<Longrightarrow> p \<in> set ps \<Longrightarrow>
     post (\<lambda>(r, w'). steps tabs ps w0 w') (cfs_chown K p uid gid w)"
  unfolding cfs_chown_def by (assumption | rule wp | (auto; fail))+

lemma truncate_post: "steps tabs ps w0 w \<Longrightarrow> p \<in> set ps \<Longrightarrow>
     post (\<lambda>(r, w'). steps tabs ps w0 w') (cfs_truncate K p n w)"
  unfolding cfs_truncate_def by (assumption | rule wp | (auto; fail))+

lemma utime_post: "steps tabs ps w0 w \<Longrightarrow> p \<in> set ps \<Longrightarrow>
     post (\<lambda>(r, w'). steps tabs ps w0 w') (cfs_utime K p ub w)"
  unfolding cfs_utime_def by (assumption | rule wp | (auto; fail))+

lemma access_post: "steps tabs ps w0 w \<Longrightarrow> p \<in> set ps \<Longrightarrow>
     post (\<lambda>(r, w'). steps tabs ps w0 w') (cfs_access K p am w)"
  unfolding cfs_access_def by (assumption | rule wp | (auto; fail))+

lemma setxattr_post: "steps tabs ps w0 w \<Longrightarrow> p \<in> set ps \<Longrightarrow>
     post (\<lambda>(r, w'). steps tabs ps w0 w') (cfs_setxattr K p name val flags w)"
  unfolding cfs_setxattr_def by (assumption | rule wp | (auto; fail))+

lemma removexattr_post: "steps tabs ps w0 w \<Longrightarrow> p \<in> set ps \<Longrightarrow>
     post (\<lambda>(r, w'). steps tabs ps w0 w') (cfs_removexattr K p name w)"
  unfolding cfs_removexattr_def by (assumption | rule wp | (auto; fail))+

lemma symlink_post: "steps tabs ps w0 w \<Longrightarrow> p \<in> set ps \<Longrightarrow> p' \<in> set ps \<Longrightarrow>
     post (\<lambda>(r, w'). steps tabs ps w0 w') (cfs_symlink K p p' w)"
  unfolding cfs_symlink_def by (assumption | rule wp | (auto; fail))+

lemma rename_post: "steps tabs ps w0 w \<Longrightarrow> p \<in> set ps \<Longrightarrow> p' \<in> set ps \<Longrightarrow>
     post (\<lambda>(r, w'). steps tabs ps w0 w') (cfs_rename K p p' w)"
  unfolding cfs_rename_def by (assumption | rule wp | (auto; fail))+

lemma link_post: "steps tabs ps w0 w \<Longrightarrow> p \<in> set ps \<Longrightarrow> p' \<in> set ps \<Longrightarrow>
     post (\<lambda>(r, w'). steps tabs ps w0 w') (cfs_link K p p' w)"
  unfolding cfs_link_def by (assumption | rule wp | (auto; fail))+

lemma steps_log_names [wp]: "steps tabs ps w0 w \<Longrightarrow> steps tabs ps w0 (log_names K rest w)"
proof (induction K rest w rule: log_names.induct)
  case (1 K rest w)
  then show ?case
    by (subst log_names.simps) (auto intro: steps_log_msg)
qed

lemma steps_if [wp]: "steps tabs ps w0 w \<Longrightarrow> steps tabs ps w0 v \<Longrightarrow> steps tabs ps w0 (if b then w else v)"
  by simp

lemma readlink_post: "steps tabs ps w0 w \<Longrightarrow> p \<in> set ps \<Longrightarrow>
     post (\<lambda>(r, x, w'). steps tabs ps w0 w') (cfs_readlink K p n w)"
  unfolding cfs_readlink_def Let_def by (assumption | rule wp | (auto; fail))+

lemma statfs_post: "steps tabs ps w0 w \<Longrightarrow> p \<in> set ps \<Longrightarrow>
     post (\<lambda>(r, x, w'). steps tabs ps w0 w') (cfs_statfs K p w)"
  unfolding cfs_statfs_def Let_def by (assumption | rule wp | (auto; fail))+

lemma getxattr_post: "steps tabs ps w0 w \<Longrightarrow> p \<in> set ps \<Longrightarrow>
     post (\<lambda>(r, x, w'). steps tabs ps w0 w') (cfs_getxattr K p name n w)"
  unfolding cfs_getxattr_def Let_def by (assumption | rule wp | (auto; fail))+

lemma listxattr_post: "steps tabs ps w0 w \<Longrightarrow> p \<in> set ps \<Longrightarrow>
     post (\<lambda>(r, x, w'). steps tabs ps w0 w') (cfs_listxattr K p ln n w)"
  unfolding cfs_listxattr_def Let_def by (assumption | rule wp | (auto; fail))+

lemma opendir_post: "steps tabs ps w0 w \<Longrightarrow> p \<in> set ps \<Longrightarrow>
     post (\<lambda>(r, x, w'). steps tabs ps w0 w') (cfs_opendir K p fi w)"
  unfolding cfs_opendir_def Let_def by (assumption | rule wp | (auto; fail))+

lemma readdir_loop_steps:
  assumes "readdir_loop K dp name w = Some x"
  shows "steps tabs ps w0 w \<longrightarrow> steps tabs ps w0 (snd x)"
proof (rule readdir_loop.raw_induct [where P = "\<lambda>K dp name w x. steps tabs ps w0 w \<longrightarrow> steps tabs ps w0 (snd x)",
      OF _ assms], rule impI)
  fix f and K :: "'b kernel" and dp name and w :: "('a, 'b) world" and x :: "int \<times> ('a, 'b) world"
  assume IH: "\<And>K dp name w x. f K dp name w = Some x \<Longrightarrow> steps tabs ps w0 w \<longrightarrow> steps tabs ps w0 (snd x)"
    and body: "(case sys K (Filler name) (log_msg K w) of (s, w) \<Rightarrow>
        if sr_ret s \<noteq> 0 then Some (- ENOMEM, log_msg K w)
        else (case sys K (Readdir dp) w of (s, w) \<Rightarrow>
                if sr_ret s \<noteq> 0 then f K dp (sr_text s) w else Some (0, log_fi K w))) = Some x"
    and w: "steps tabs ps w0 w"
  obtain s w1 where s: "sys K (Filler name) (log_msg K w) = (s, w1)" by fastforce
  obtain s' w2 where s': "sys K (Readdir dp) w1 = (s', w2)" by fastforce
  have w1: "steps tabs ps w0 w1"
    by (intro steps_sys [OF s] steps_log_msg w) auto
  have w2: "steps tabs ps w0 w2"
    by (intro steps_sys [OF s'] w1) auto
  show "steps tabs ps w0 (snd x)"
    using IH [of K dp "sr_text s'" w2 x] body s s' w1 w2
    by (auto split: if_splits intro: steps_log_msg steps_logs)
qed

lemma readdir_post: "steps tabs ps w0 w \<Longrightarrow> post (\<lambda>(r, w'). steps tabs ps w0 w') (cfs_readdir K fi w)"
proof -
  assume w: "steps tabs ps w0 w"
  obtain s w1 where s: "sys K (Readdir (fi_fh fi)) (log_msg K w) = (s, w1)" by fastforce
  have w1: "steps tabs ps w0 (log_msg K w1)"
    by (intro steps_sys [OF s] steps_log_msg w) auto
  have "steps tabs ps w0 (snd x)" if "readdir_loop K (fi_fh fi) (sr_text s) (log_msg K w1) = Some x" for x
    using readdir_loop_steps [OF that] w1 by blast
  with s w1 show ?thesis
    by (auto simp: cfs_readdir_def Let_def log_error_def split: option.split intro: steps_log_msg)
qed

lemma no_path_posts:
  assumes "steps tabs ps w0 w"
  shows "post (\<lambda>(r, w'). steps tabs ps w0 w') (cfs_releasedir K fi w)"
    "post (\<lambda>(r, w'). steps tabs ps w0 w') (cfs_fsyncdir K fi w)"
    "post (\<lambda>(r, w'). steps tabs ps w0 w') (cfs_flush K fi w)"
    "post (\<lambda>(r, w'). steps tabs ps w0 w') (cfs_fsync K ds fi w)"
    "post (\<lambda>(r, w'). steps tabs ps w0 w') (cfs_ftruncate K off fi w)"
  unfolding cfs_releasedir_def cfs_fsyncdir_def cfs_flush_def cfs_fsync_def cfs_ftruncate_def Let_def
  by (assumption | rule wp assms | (auto; fail))+

section \<open>The handlers that use the metadata\<close>

lemma steps_store:
  assumes "store_only w v" "constraints (tables_of tabs w) \<longrightarrow> constraints (tables_of tabs v)"
    "steps tabs ps w0 w"
  shows "steps tabs ps w0 v"
  using assms by (auto simp: steps_def store_only_def)

context sqlite_engine
begin

lemma steps_meta:
  assumes "steps tabs ps w0 w"
  shows "steps tabs ps w0 (snd (delete_file E fn w))" "steps tabs ps w0 (snd (create_file E fn n w))"
    "steps tabs ps w0 (snd (is_file_in_cache E fn w))" "steps tabs ps w0 (snd (write_blks E fn bs w))"
    "steps tabs ps w0 (snd (snd (are_blocks_in_cache E fn bs w)))"
  by (rule steps_store [OF _ _ assms];
      simp add: store_only_ops store_only_write_blks store_only_are_blocks delete_file_con create_file_con
        write_blks_con is_file_in_cache_tables are_blocks_in_cache_def blocks_loop_tables store_only_blocks_loop)+

lemma wp_delete_file:
  "steps tabs ps w0 w \<Longrightarrow> (\<And>r w'. steps tabs ps w0 w' \<Longrightarrow> post P (f r w')) \<Longrightarrow>
     post P (case delete_file E fn w of (r, w) \<Rightarrow> f r w)"
  by (simp add: split_beta steps_meta(1))

lemma wp_is_file_in_cache:
  "steps tabs ps w0 w \<Longrightarrow> (\<And>r w'. steps tabs ps w0 w' \<Longrightarrow> post P (f r w')) \<Longrightarrow>
     post P (case is_file_in_cache E fn w of (r, w) \<Rightarrow> f r w)"
  by (simp add: split_beta steps_meta(3))

lemma wp_are_blocks:
  "steps tabs ps w0 w \<Longrightarrow> (\<And>r arr w'. steps tabs ps w0 w' \<Longrightarrow> post P (f r arr w')) \<Longrightarrow>
     post P (case are_blocks_in_cache E fn bs w of (r, arr, w) \<Rightarrow> f r arr w)"
  by (simp add: split_beta steps_meta(5))

lemma steps_discard:
  assumes "steps tabs ps w0 w" "p \<in> files_of (w_cfs w0) ps"
  shows "steps tabs ps w0 (discard_cached E K k p w)"
proof -
  obtain r w1 where d: "delete_file E k (log_msg K w) = (r, w1)" by fastforce
  have w1: "steps tabs ps w0 w1"
    using steps_meta(1) [OF steps_log_msg [OF assms(1)], of k K] d by simp
  obtain r' s w2 where u: "sys_log K (Unlink p) w1 = (r', s, w2)" by (cases "sys_log K (Unlink p) w1") auto
  have "steps tabs ps w0 w2"
    by (rule steps_sys_log [OF u w1]) (simp add: assms(2))
  with d u show ?thesis by (simp add: discard_cached_def)
qed

lemma steps_open_cache_copy:
  assumes "steps tabs ps w0 w" "p \<in> files_of (w_cfs w0) ps"
  shows "steps tabs ps w0 (snd (open_cache_copy E K k p info present w))"
proof -
  obtain r w1 where c: "create_file E k (st_size info) (log_msg K w) = (r, w1)" by fastforce
  have w1: "steps tabs ps w0 w1"
    using steps_meta(2) [OF steps_log_msg [OF assms(1)], of k "st_size info" K] c by simp
  obtain r' w2 where n: "cfs_mkCacheNod K p (st_mode info) (st_dev info) w1 = (r', w2)" by fastforce
  have w2: "steps tabs ps w0 w2"
    using n w1 assms(2) by (auto simp: cfs_mkCacheNod_def elim!: steps_make_node intro: steps_log_msg)
  let ?w = "if present then w else w2"
  obtain fd s w3 where o: "sys_log K (Open p O_RDWR None) ?w = (fd, s, w3)"
    by (cases "sys_log K (Open p O_RDWR None) ?w") auto
  have "steps tabs ps w0 w3"
    by (rule steps_sys_log [OF o]) (use assms w2 in auto)
  with c n o show ?thesis by (auto simp: open_cache_copy_def split: if_splits)
qed

lemma wp_open_cache_copy:
  "steps tabs ps w0 w \<Longrightarrow> p \<in> files_of (w_cfs w0) ps \<Longrightarrow>
     (\<And>r w'. steps tabs ps w0 w' \<Longrightarrow> post P (f r w')) \<Longrightarrow>
     post P (case open_cache_copy E K k p info present w of (r, w) \<Rightarrow> f r w)"
  by (simp add: split_beta steps_open_cache_copy)

lemmas wp_meta = wp_delete_file wp_is_file_in_cache wp_are_blocks wp_open_cache_copy steps_discard

lemma unlink_post: "steps tabs ps w0 w \<Longrightarrow> p \<in> set ps \<Longrightarrow>
     post (\<lambda>(r, w'). steps tabs ps w0 w') (cfs_unlink E K p w)"
  unfolding cfs_unlink_def by (assumption | rule wp wp_meta | (auto; fail))+

lemma open_post: "steps tabs ps w0 w \<Longrightarrow> p \<in> set ps \<Longrightarrow>
     post (\<lambda>(r, x, w'). steps tabs ps w0 w') (cfs_open E K p fi w)"
  unfolding cfs_open_def Let_def by (assumption | rule wp wp_meta | (auto; fail))+

lemma wp_write_blks:
  "steps tabs ps w0 w \<Longrightarrow> (\<And>r w'. steps tabs ps w0 w' \<Longrightarrow> post P (f r w')) \<Longrightarrow>
     post P (case write_blks E fn bs w of (r, w) \<Rightarrow> f r w)"
  by (simp add: split_beta steps_meta(4))

lemma post_wait: "(\<And>w'. w' = w \<Longrightarrow> post P (f w')) \<Longrightarrow>
     post P (case evict_wait K w of None \<Rightarrow> Hang | Some w \<Rightarrow> f w)"
  by (simp add: evict_wait_cases)

lemma cacheWrite_post: "steps tabs ps w0 w \<Longrightarrow>
     post (\<lambda>(r, w'). steps tabs ps w0 w') (cfs_cacheWrite E K k buf n off fi w)"
  unfolding cfs_cacheWrite_def Let_def
  by (assumption | rule wp wp_write_blks post_wait | erule ssubst | (auto; fail))+

lemma read_loop_post: "steps tabs ps w0 w \<Longrightarrow>
     post (\<lambda>(r, x, w'). steps tabs ps w0 w') (read_loop E K k fi h lo i hits ret buf w)"
proof (induction hits arbitrary: i ret buf w)
  case (Cons hit hits)
  show ?case
    unfolding read_loop.simps Let_def
    by (assumption | rule wp Cons wp_call2 [OF cacheWrite_post] | (auto; fail))+
qed simp

lemma post_case_if:
  "(b \<Longrightarrow> post P (case x of (a, w) \<Rightarrow> f a w)) \<Longrightarrow> (\<not> b \<Longrightarrow> post P (case y of (a, w) \<Rightarrow> f a w)) \<Longrightarrow>
     post P (case (if b then x else y) of (a, w) \<Rightarrow> f a w)"
  by simp

lemma steps_snd_log_error: "steps tabs ps w0 w \<Longrightarrow> steps tabs ps w0 (snd (log_error K w))"
  by (simp add: log_error_def steps_log_msg)

lemma read_post: "steps tabs ps w0 w \<Longrightarrow> p \<in> set ps \<Longrightarrow>
     post (\<lambda>(r, x, w'). steps tabs ps w0 w') (cfs_read E K p n off fi w)"
  unfolding cfs_read_def Let_def
  by (assumption | rule wp wp_meta wp_call3 [OF read_loop_post] post_case_if steps_snd_log_error | (auto; fail))+

lemma write_post: "steps tabs ps w0 w \<Longrightarrow> p \<in> set ps \<Longrightarrow>
     post (\<lambda>(r, w'). steps tabs ps w0 w') (cfs_write E K p buf n off fi w)"
  unfolding cfs_write_def Let_def
  by (assumption | rule wp wp_meta wp_call2 [OF cacheWrite_post] | (auto; fail))+

end

lemma wp_command:
  "P (a @ b) \<Longrightarrow> post P (obind (c_strcpy n a) (\<lambda>s. c_strncat n s b n))"
  using full_path_Ret [of n a b] by (auto simp: post_def)

lemma release_post: "steps tabs ps w0 w \<Longrightarrow> p \<in> set ps \<Longrightarrow>
     post (\<lambda>(r, w'). steps tabs ps w0 w') (cfs_release K p fi w)"
  unfolding cfs_release_def
  by (assumption | rule wp_command wp | (auto; fail))+

lemma fgetattr_post: "steps tabs ps w0 w \<Longrightarrow> p \<in> set ps \<Longrightarrow>
     post (\<lambda>(r, x, w'). steps tabs ps w0 w') (cfs_fgetattr K p fi w)"
  unfolding cfs_fgetattr_def Let_def
  by (assumption | rule wp getNASattr_post | (auto; fail))+

section \<open>Every request\<close>

lemma post_status: "post (\<lambda>(r, w'). steps tabs ps w0 w') p \<Longrightarrow> post (\<lambda>(r, w'). steps tabs ps w0 w') (status p)"
  by (auto simp: status_def post_def obind_eq_Ret)

lemma post_answer: "post (\<lambda>(r, x, w'). steps tabs ps w0 w') p \<Longrightarrow> post (\<lambda>(r, w'). steps tabs ps w0 w') (answer f p)"
  by (auto simp: answer_def post_def obind_eq_Ret)

lemma files_of_mono: "set ps \<subseteq> set qs \<Longrightarrow> files_of c ps \<subseteq> files_of c qs"
  by (auto simp: files_of_def)

lemma call_ok_mono: "call_ok A c \<Longrightarrow> A \<subseteq> B \<Longrightarrow> call_ok B c"
  by (induction A c rule: call_ok.induct) auto

lemma steps_mono: "steps tabs ps w w' \<Longrightarrow> set ps \<subseteq> set qs \<Longrightarrow> steps tabs qs w w'"
  using call_ok_mono [OF _ files_of_mono] unfolding steps_def by blast

lemma steps_trans:
  assumes "steps tabs ps w w'" "steps tabs ps w' w''"
  shows "steps tabs ps w w''"
proof -
  from assms obtain cs cs' where "w_trace w' = w_trace w @ cs" "\<forall>c \<in> set cs. call_ok (files_of (w_cfs w) ps) c"
    "w_trace w'' = w_trace w' @ cs'" "\<forall>c \<in> set cs'. call_ok (files_of (w_cfs w) ps) c"
    by (auto simp: steps_def)
  then have "\<exists>cs. w_trace w'' = w_trace w @ cs \<and> (\<forall>c \<in> set cs. call_ok (files_of (w_cfs w) ps) c)"
    by (intro exI [of _ "cs @ cs'"]) auto
  with assms show ?thesis by (auto simp: steps_def)
qed

context sqlite_engine
begin

lemma oper_post: "post (\<lambda>(r, w'). steps tabs (request_paths q) w w') (cfs_oper E K q w)"
proof (cases q)
  case (ReqReaddir p fi)
  then show ?thesis by (simp add: post_status readdir_post)
qed (simp_all add: post_status post_answer getNASattr_post readlink_post mknod_post mkdir_post unlink_post
    rmdir_post symlink_post rename_post link_post chmod_post chown_post truncate_post utime_post open_post
    read_post write_post statfs_post no_path_posts release_post setxattr_post getxattr_post listxattr_post
    removexattr_post opendir_post access_post fgetattr_post)

lemma serve_steps:
  "serve E K qs w = Ret (rs, w') \<Longrightarrow> steps tabs (concat (map request_paths qs)) w w'"
proof (induction qs arbitrary: w rs)
  case (Cons q qs)
  from Cons.prems obtain r w1 rs1 where q: "cfs_oper E K q w = Ret (r, w1)"
    and qs: "serve E K qs w1 = Ret (rs1, w')"
    by (auto simp: obind_eq_Ret)
  have "steps tabs (request_paths q) w w1"
    using oper_post [of q w K] q by (simp add: post_def)
  then have "steps tabs (concat (map request_paths (q # qs))) w w1"
    by (rule steps_mono) simp
  moreover have "steps tabs (concat (map request_paths (q # qs))) w1 w'"
    using Cons.IH [OF qs] by (rule steps_mono) simp
  ultimately show ?case by (rule steps_trans)
qed simp

end

end
