(* ===== verification/Cfs_Opening.thy ===== *)
theory Cfs_Opening
  imports Cfs_Transfers
begin

text \<open>
  What \<open>cfs_open\<close> does to the metadata: the entry of a file that is gone from the NAS is
  removed, a cached copy older than the NAS file is forgotten, a file that is not known yet
  gets a row.
\<close>

section \<open>Deleting and creating without SQLite failures\<close>

context sqlite_reliable
begin

lemma delete_file_reliable:
  assumes call: "delete_file E fn m = (r, m')" and inv: "store_inv tabs m" and rd: "ready tabs m"
    and known: "fn \<in> fst (view_of tabs m)"
  shows "r = 0 \<and> store_inv tabs m' \<and> ready tabs m' \<and>
    view_of tabs m' = (fst (view_of tabs m) - {fn}, {x \<in> snd (view_of tabs m). fst x \<noteq> fn})"
proof -
  let ?d = "metaDataBase m" and ?q = "SelectLocal fn"
  let ?R = "map (\<lambda>f. [VInt (local_size f)]) (filter (\<lambda>f. relative_path f = fn) (files (tabs ?d)))"
  obtain r1 d3 where e: "row_exists E ?q ?d = (r1, d3)" by fastforce
  obtain r4 d4 where x: "stmt_exec E (DeleteFile fn) d3 = (r4, d4)" by fastforce
  have wf: "wf_tables (tabs ?d)" and kn: "known fn (tabs ?d)"
    using inv known by (simp_all add: store_inv_def tables_of_def view_of_def cache_view_def)
  have has: "has_files (tabs ?d)" "has_datablocks (tabs ?d)"
    using rd by (simp_all add: ready_def tables_of_def)
  have l: "length ?R \<le> 1" using file_rows_le_1 [OF wf] by simp
  have "r1 = (if ?R = [] then 0 else 1)"
    by (rule row_exists_reliable [OF e has _ l]) (auto elim: run_select_localE intro: sql_run.intros has)
  moreover have "?R \<noteq> []"
    using known_file_row [OF wf kn] by (metis list.map_disc_iff not_Cons_self2)
  ultimately have r1: "r1 = 1" by simp
  have t3: "tabs d3 = tabs ?d"
    by (rule row_exists_tables [OF e]) (auto simp: pure_query_def elim: run_select_localE)
  then have r4: "r4 = 0"
    using stmt_exec_reliable [OF x _ _ dml_rows(5) sql_run.delete_file] has by simp
  with call e x r1 have r: "r = 0" "metaDataBase m' = d4"
    by (auto simp: delete_file_def row_exists_def Let_def split: prod.splits if_splits)
  with delete_file_cases [OF call inv known]
  have "store_inv tabs m'" "view_of tabs m' = (fst (view_of tabs m) - {fn}, {x \<in> snd (view_of tabs m). fst x \<noteq> fn})"
    by simp_all
  moreover have "ready tabs m'"
    using stmt_exec_Done(2) [OF x dml_rows(5)] run_keeps_tables r4 has t3 r(2)
    by (auto simp: ready_def tables_of_def)
  ultimately show ?thesis using r by blast
qed

lemma create_file_reliable:
  assumes call: "create_file E fn n m = (r, m')" and inv: "store_inv tabs m" and rd: "ready tabs m"
    and fresh: "fn \<notin> fst (view_of tabs m)"
  shows "r = 0 \<and> store_inv tabs m' \<and> ready tabs m' \<and>
    view_of tabs m' = (insert fn (fst (view_of tabs m)), snd (view_of tabs m))"
proof -
  let ?t = "tabs (metaDataBase m)"
  obtain d where e: "stmt_exec E (InsertFile fn (c_int64 n)) (metaDataBase m) = (r, d)"
    and m': "m' = m\<lparr>metaDataBase := d\<rparr>"
    using call by (auto simp: create_file_def split: prod.splits)
  have has: "has_files ?t" "has_datablocks ?t"
    using rd by (simp_all add: ready_def tables_of_def)
  obtain i where i: "i \<notin> set (map file_id (files ?t))"
    using ex_new_if_finite [OF infinite_UNIV_int finite_set] by blast
  have p: "fn \<notin> set (map relative_path (files ?t))"
    using fresh by (force simp: view_of_def tables_of_def cache_view_def known_iff)
  have r: "r = 0"
    by (rule stmt_exec_reliable [OF e has dml_rows(1) sql_run.insert_file [OF has(1) p i]])
  with create_file_cases [OF call inv] fresh
  have "store_inv tabs m'" "view_of tabs m' = (insert fn (fst (view_of tabs m)), snd (view_of tabs m))"
    by simp_all
  moreover have "ready tabs m'"
    using stmt_exec_Done(2) [OF e dml_rows(1)] run_keeps_tables r has
    by (auto simp: ready_def tables_of_def m')
  ultimately show ?thesis using r by blast
qed

end


section \<open>Calls leave the metadata alone\<close>

definition kept :: "('db, 'os) world \<Rightarrow> ('db, 'os) world \<Rightarrow> bool" where
  "kept w w' \<longleftrightarrow> w_cfs w' = w_cfs w \<and> metaDataBase w' = metaDataBase w \<and>
     meta_block_size w' = meta_block_size w \<and> cache_used_size w' = cache_used_size w"

lemma kept_refl [simp]: "kept w w"
  by (simp add: kept_def)

lemma kept_trans: "kept w w' \<Longrightarrow> kept w' w'' \<Longrightarrow> kept w w''"
  by (simp add: kept_def)

lemma kept_store:
  assumes "kept w w'"
  shows "store_inv tabs w' = store_inv tabs w" "ready tabs w' = ready tabs w" "view_of tabs w' = view_of tabs w"
  using assms by (simp_all add: kept_def store_inv_def ready_def view_of_def tables_of_def)

lemma logged_store:
  assumes "logged w w'"
  shows "store_inv tabs w' = store_inv tabs w" "ready tabs w' = ready tabs w"
    "room_for n tabs w' = room_for n tabs w" "view_of tabs w' = view_of tabs w"
  using assms by (simp_all add: logged_def store_inv_def ready_def room_for_def view_of_def tables_of_def)

lemma sys_log_store:
  assumes "sys_log K c w = (r, s, w')"
  shows "view_of tabs w' = view_of tabs w"
proof -
  from sys_log_Ret [OF assms] obtain os' where "logged (w\<lparr>w_os := os'\<rparr>) w'" by blast
  then show ?thesis by (simp add: logged_def view_of_def tables_of_def)
qed

lemma logged_kept: "logged w w' \<Longrightarrow> kept w w'"
  by (simp add: logged_def kept_def)

lemma sys_log_kept: "sys_log K c w = (r, s, w') \<Longrightarrow> kept w w'"
proof -
  assume "sys_log K c w = (r, s, w')"
  from sys_log_Ret [OF this] obtain os' where "logged (w\<lparr>w_os := os'\<rparr>) w'" by blast
  then show ?thesis by (simp add: logged_def kept_def)
qed

lemma make_node_kept: "kept w (snd (make_node K p mode dev w))"
  by (auto simp: make_node_def split: prod.split dest!: sys_log_kept elim: kept_trans)

lemma sys_log_result:
  assumes "sys_log K c w = (r, s, w')" "k_sys K c (w_os w) = (s', os')"
  shows "s = s'" "w_os w' = os'"
    "r = (if c_int (sr_ret s') < 0 then - k_vfprintf K os' (sr_errno s') else c_int (sr_ret s'))"
  using assms by (auto simp: sys_log_def sys_def log_syscall_def log_retstat_def log_error_def log_msg_def Let_def
      split: if_splits)

section \<open>The attributes\<close>

lemma getNASattr_result:
  assumes "length (nasdir (w_cfs w)) + length path < PATH_MAX"
    and "k_sys K (Lstat (nasdir (w_cfs w) @ path)) (w_os w) = (s, os')"
  obtains r w' where "cfs_getNASattr K path w = Ret (r, sr_stat s, w')" "kept w w'" "w_os w' = os'"
proof -
  let ?w = "log_msg K (log_msg K w)" and ?p = "nasdir (w_cfs w) @ path"
  have lg: "logged w ?w" by simp
  obtain r s1 w1 where l: "sys_log K (Lstat ?p) ?w = (r, s1, w1)"
    by (cases "sys_log K (Lstat ?p) ?w") auto
  have os: "w_os ?w = w_os w" and cfs: "w_cfs (log_msg K w) = w_cfs w"
    using lg by (simp_all add: log_msg_def)
  note res = sys_log_result [OF l, unfolded os, OF assms(2)]
  have lg': "logged w1 (log_stat K w1)" by simp
  have "cfs_getNASattr K path w = Ret (r, sr_stat s, log_stat K w1)"
    using nas_path_Ret [of "log_msg K w" path K] assms(1) l cfs res(1) by (simp add: cfs_getNASattr_def)
  moreover have "kept w (log_stat K w1)"
    using logged_kept [OF lg] sys_log_kept [OF l] logged_kept [OF lg'] by (blast intro: kept_trans)
  moreover have "w_os (log_stat K w1) = os'"
    using lg' res(2) by (simp add: logged_def)
  ultimately show thesis by (rule that)
qed

lemma getCacheattr_result:
  assumes "cfs_pathToFileName path = Ret fn" "length (cachedir (w_cfs w)) + length fn < PATH_MAX"
    and "k_sys K (Lstat (cachedir (w_cfs w) @ fn)) (w_os w) = (s, os')"
  obtains r w' where "cfs_getCacheattr K path w = Ret (r, sr_stat s, w')" "kept w w'" "w_os w' = os'"
proof -
  let ?w = "log_msg K (log_msg K (log_msg K w))" and ?p = "cachedir (w_cfs w) @ fn"
  have lg: "logged w ?w" by simp
  obtain r s1 w1 where l: "sys_log K (Lstat ?p) ?w = (r, s1, w1)"
    by (cases "sys_log K (Lstat ?p) ?w") auto
  have os: "w_os ?w = w_os w" and cfs: "w_cfs (log_msg K w) = w_cfs w"
    using lg by (simp_all add: log_msg_def)
  note res = sys_log_result [OF l, unfolded os, OF assms(3)]
  have lg': "logged w1 (log_stat K w1)" by simp
  have "cfs_getCacheattr K path w = Ret (r, sr_stat s, log_stat K w1)"
    using cache_path_Ret [of "log_msg K w" fn K] assms(1,2) l cfs res(1)
    by (simp add: cfs_getCacheattr_def file_name_Ret)
  moreover have "kept w (log_stat K w1)"
    using logged_kept [OF lg] sys_log_kept [OF l] logged_kept [OF lg'] by (blast intro: kept_trans)
  moreover have "w_os (log_stat K w1) = os'"
    using lg' res(2) by (simp add: logged_def)
  ultimately show thesis by (rule that)
qed


section \<open>Opening\<close>

definition forgotten :: "string \<Rightarrow> string set \<times> (string \<times> int) set \<Rightarrow> string set \<times> (string \<times> int) set" where
  "forgotten fn V = (fst V - {fn}, {x \<in> snd V. fst x \<noteq> fn})"

lemma view_cached_known: "(fn, x) \<in> snd (view_of tabs m) \<Longrightarrow> fn \<in> fst (view_of tabs m)"
  by (auto simp: view_of_def cache_view_def known_def is_cached_iff block_key_def)

lemma forgotten_unknown: "fn \<notin> fst (view_of tabs m) \<Longrightarrow> forgotten fn (view_of tabs m) = view_of tabs m"
  using view_cached_known [of fn _ tabs m] by (cases "view_of tabs m") (auto simp: forgotten_def)

text \<open>The part of the world that the handlers read, after a function of \<open>meta.c\<close>.\<close>

lemma store_only_world: "store_only (w :: ('db, 'os) world) w' \<Longrightarrow>
    w_os w' = w_os w \<and> w_cfs w' = w_cfs w \<and> w_handles w' = w_handles w"
  by (auto simp: store_only_def)

lemma get_new_handle: "new_handle h w = (p, w') \<Longrightarrow> kept w w' \<and> get_handle (fi\<lparr>fi_fh := p\<rparr>) w' = Ret h"
  by (auto simp: new_handle_def get_handle_def kept_def)

context sqlite_reliable
begin

lemma discard_cached_view:
  fixes w :: "('db, 'os) world"
  assumes "store_inv tabs w" "ready tabs w" "fn \<in> fst (view_of tabs w)"
  shows "store_inv tabs (discard_cached E K fn cp w) \<and> ready tabs (discard_cached E K fn cp w) \<and>
    view_of tabs (discard_cached E K fn cp w) = forgotten fn (view_of tabs w) \<and>
    w_cfs (discard_cached E K fn cp w) = w_cfs w"
proof -
  have lg: "logged w (log_msg K w)" by simp
  obtain r w1 where d: "delete_file E fn (log_msg K w) = (r, w1)" by fastforce
  obtain r2 s2 w2 where u: "sys_log K (Unlink cp) w1 = (r2, s2, w2)"
    by (cases "sys_log K (Unlink cp) w1") auto
  note dr = delete_file_reliable [OF d, unfolded logged_store [OF lg], OF assms]
  have "w_cfs w1 = w_cfs w"
    using store_only_world [OF store_only_ops(3) [of "log_msg K w" E fn]] d lg by (simp add: logged_def)
  with dr d u kept_store [OF sys_log_kept [OF u]] sys_log_kept [OF u] show ?thesis
    by (simp add: discard_cached_def forgotten_def kept_def)
qed

lemma open_cache_copy_view:
  fixes w :: "('db, 'os) world"
  assumes copy: "open_cache_copy E K fn cp st p w = (fd, w')" and inv: "store_inv tabs w" "ready tabs w"
    and p: "p \<longleftrightarrow> fn \<in> fst (view_of tabs w)"
  shows "store_inv tabs w' \<and> ready tabs w' \<and>
    view_of tabs w' = (insert fn (fst (view_of tabs w)), snd (view_of tabs w))"
proof -
  obtain r w1 where c: "create_file E fn (st_size st) (log_msg K w) = (r, w1)" by fastforce
  let ?w2 = "snd (cfs_mkCacheNod K cp (st_mode st) (st_dev st) w1)"
  have lg: "logged w (log_msg K w)" by simp
  have k2: "kept w1 ?w2"
    using make_node_kept [of "log_msg K w1" K cp] kept_trans [OF logged_kept [of w1 "log_msg K w1"]]
    by (simp add: cfs_mkCacheNod_def)
  let ?w3 = "if p then w else ?w2"
  obtain s where o: "sys_log K (Open cp O_RDWR None) ?w3 = (fd, s, w')"
    using copy c by (auto simp: open_cache_copy_def Let_def split: prod.splits if_splits)
  have "store_inv tabs ?w3 \<and> ready tabs ?w3 \<and>
    view_of tabs ?w3 = (insert fn (fst (view_of tabs w)), snd (view_of tabs w))"
    using create_file_reliable [OF c, unfolded logged_store [OF lg], OF inv] kept_store [OF k2] inv p
    by (auto simp: insert_absorb prod_eq_iff)
  then show ?thesis
    using kept_store [OF sys_log_kept [OF o]] by simp
qed


text \<open>The first steps of \<open>cfs_open\<close>, up to the check of the descriptor on the NAS.\<close>

lemma open_start:
  fixes w :: "('db, 'os) world"
  assumes inv: "store_inv tabs w" "ready tabs w"
    and op: "sys_log K (Open p fl None) (log_msg K (log_msg K w0)) = (fd, s, w1)" and lg: "logged w w0"
    and ic: "is_file_in_cache E fn w1 = (found, w2)"
    and k: "k_sys K (Open p fl None) (w_os w) = (s1, os1)"
  shows "store_inv tabs w2 \<and> ready tabs w2 \<and> view_of tabs w2 = view_of tabs w \<and> w_cfs w2 = w_cfs w \<and>
    w_os w2 = os1 \<and> (found \<noteq> 0 \<longleftrightarrow> fn \<in> fst (view_of tabs w)) \<and>
    fd = (if c_int (sr_ret s1) < 0 then - k_vfprintf K os1 (sr_errno s1) else c_int (sr_ret s1))"
proof -
  let ?w = "log_msg K (log_msg K w0)"
  have lg': "logged w ?w" using lg by simp
  then have os: "w_os ?w = w_os w" by (simp add: logged_def)
  have kept: "kept w w1"
    using logged_kept [OF lg'] sys_log_kept [OF op] by (rule kept_trans)
  note ks = kept_store [OF kept] and res = sys_log_result [OF op, unfolded os, OF k]
  have inv1: "store_inv tabs w1" "ready tabs w1" using ks inv by simp_all
  have same: "same_store tabs w1 w2" using is_file_in_cache_cases [OF ic inv1(1)] by blast
  have so: "store_only w1 w2" using store_only_ops(6) [of w1 E fn] ic by simp
  show ?thesis
    using is_file_in_cache_reliable [OF ic inv1] same_store_inv [OF same] same_store_ready [OF same]
      same_store_view [OF same] store_only_world [OF so] ks inv1 kept res
    by (simp add: kept_def)
qed

lemma open_missing:
  fixes w :: "('db, 'os) world"
  assumes inv: "store_inv tabs w" "ready tabs w"
    and name: "cfs_pathToFileName path = Ret fn"
    and len: "length (nasdir (w_cfs w)) + length path < PATH_MAX"
      "length (cachedir (w_cfs w)) + length fn < PATH_MAX"
    and k: "k_sys K (Open (nasdir (w_cfs w) @ path) (nas_flags (fi_flags fi)) None) (w_os w) = (s1, os1)"
      "c_int (sr_ret s1) < 0" "0 < k_vfprintf K os1 (sr_errno s1)"
  shows "\<exists>w'. cfs_open E K path fi w = Ret (- k_vfprintf K os1 (sr_errno s1), fi, w') \<and>
    store_inv tabs w' \<and> ready tabs w' \<and> view_of tabs w' = forgotten fn (view_of tabs w)"
proof -
  let ?w0 = "log_msg K (log_msg K (log_msg K w))" and ?p = "nasdir (w_cfs w) @ path"
  let ?c = "Open ?p (nas_flags (fi_flags fi)) None"
  obtain fd s w1 where op: "sys_log K ?c (log_msg K (log_msg K ?w0)) = (fd, s, w1)"
    by (cases "sys_log K ?c (log_msg K (log_msg K ?w0))") auto
  obtain found w2 where ic: "is_file_in_cache E fn w1 = (found, w2)" by fastforce
  have lg: "logged w ?w0" by simp
  note st = open_start [OF inv op lg ic k(1)]
  let ?w' = "if found \<noteq> 0 then discard_cached E K fn (cachedir (w_cfs w) @ fn) w2 else w2"
  have "cfs_open E K path fi w = Ret (fd, fi, ?w')"
    using nas_path_Ret [of w path K] cache_path_Ret [of "log_msg K (log_msg K w)" fn K] len name op ic st k
    by (simp add: cfs_open_def file_name_Ret Let_def log_msg_def)
  moreover have "store_inv tabs ?w' \<and> ready tabs ?w' \<and> view_of tabs ?w' = forgotten fn (view_of tabs w)"
    using st discard_cached_view [of w2 fn] forgotten_unknown [of fn tabs w] by auto
  ultimately show ?thesis using st k by auto
qed


text \<open>
  The check of a cached copy: what the view is when \<open>open_cache_copy\<close> starts, and whether the
  copy is still taken as present.
\<close>

lemma open_check:
  fixes w :: "('db, 'os) world"
  assumes inv: "store_inv tabs w" "ready tabs w" and name: "cfs_pathToFileName path = Ret fn"
    and len: "length (cachedir (w_cfs w)) + length fn < PATH_MAX"
    and k: "k_sys K (Lstat (cachedir (w_cfs w) @ fn)) (w_os w) = (s3, os3)"
    and f: "f \<longleftrightarrow> fn \<in> fst (view_of tabs w)"
  shows "\<exists>p w'. (if f then
         obind (cfs_getCacheattr K path w) (\<lambda>(_, cacheFileInfo, w).
           let w = log_msg K w
           in if st_mtime cacheFileInfo < t
              then Ret (False, discard_cached E K fn (cachedir (w_cfs w0) @ fn) w)
              else Ret (True, w))
       else Ret (False, w)) = Ret (p, w') \<and>
    store_inv tabs w' \<and> ready tabs w' \<and> (p \<longleftrightarrow> f \<and> t \<le> st_mtime (sr_stat s3)) \<and>
    view_of tabs w' = (if p then view_of tabs w else forgotten fn (view_of tabs w))"
proof (cases f)
  case True
  obtain r w1 where g: "cfs_getCacheattr K path w = Ret (r, sr_stat s3, w1)" "kept w w1"
    using getCacheattr_result [OF name len k] by blast
  have lg: "logged w1 (log_msg K w1)" by simp
  have kw: "kept w (log_msg K w1)"
    using g(2) logged_kept [OF lg] by (rule kept_trans)
  note ks = kept_store [OF kw]
  show ?thesis
    using True g inv f ks discard_cached_view [of "log_msg K w1" fn K "cachedir (w_cfs w0) @ fn"]
    by (auto simp: Let_def)
next
  case False
  with inv f forgotten_unknown [of fn tabs w] show ?thesis
    by (intro exI [of _ False] exI [of _ w]) simp
qed

lemma open_present:
  fixes w :: "('db, 'os) world"
  assumes inv: "store_inv tabs w" "ready tabs w"
    and name: "cfs_pathToFileName path = Ret fn"
    and len: "length (nasdir (w_cfs w)) + length path < PATH_MAX"
      "length (cachedir (w_cfs w)) + length fn < PATH_MAX"
    and k: "k_sys K (Open (nasdir (w_cfs w) @ path) (nas_flags (fi_flags fi)) None) (w_os w) = (s1, os1)"
      "0 \<le> c_int (sr_ret s1)"
      "k_sys K (Lstat (nasdir (w_cfs w) @ path)) os1 = (s2, os2)"
      "k_sys K (Lstat (cachedir (w_cfs w) @ fn)) os2 = (s3, os3)"
  shows "\<exists>ret fi' h w'. cfs_open E K path fi w = Ret (ret, fi', w') \<and> get_handle fi' w' = Ret h \<and>
    nasFH h = word_of_int (c_int (sr_ret s1)) \<and> store_inv tabs w' \<and> ready tabs w' \<and>
    view_of tabs w' =
      (if fn \<in> fst (view_of tabs w) \<and> st_mtime (sr_stat s2) \<le> st_mtime (sr_stat s3) then view_of tabs w
       else (insert fn (fst (view_of tabs w)), {x \<in> snd (view_of tabs w). fst x \<noteq> fn}))"
proof -
  let ?w0 = "log_msg K (log_msg K (log_msg K w))" and ?p = "nasdir (w_cfs w) @ path"
  let ?c = "Open ?p (nas_flags (fi_flags fi)) None" and ?cp = "cachedir (w_cfs w) @ fn"
  obtain fd s w1 where op: "sys_log K ?c (log_msg K (log_msg K ?w0)) = (fd, s, w1)"
    by (cases "sys_log K ?c (log_msg K (log_msg K ?w0))") auto
  obtain found w2 where ic: "is_file_in_cache E fn w1 = (found, w2)" by fastforce
  have lg: "logged w ?w0" by simp
  note st = open_start [OF inv op lg ic k(1)]
  have k3: "k_sys K (Lstat (nasdir (w_cfs w2) @ path)) (w_os w2) = (s2, os2)"
    using st k(3) by simp
  obtain r w3 where na: "cfs_getNASattr K path w2 = Ret (r, sr_stat s2, w3)" "kept w2 w3" "w_os w3 = os2"
    using getNASattr_result [OF _ k3] len(1) st by auto
  have c3: "w_cfs w3 = w_cfs w" and inv3: "store_inv tabs w3" "ready tabs w3" "view_of tabs w3 = view_of tabs w"
    using na(2) st kept_store [OF na(2)] by (simp_all add: kept_def)
  have k4: "k_sys K (Lstat (cachedir (w_cfs w3) @ fn)) (w_os w3) = (s3, os3)"
    using k(4) c3 na(3) by simp
  have len3: "length (cachedir (w_cfs w3)) + length fn < PATH_MAX"
    using len(2) c3 by simp
  have f3: "found \<noteq> 0 \<longleftrightarrow> fn \<in> fst (view_of tabs w3)"
    using st inv3(3) by simp
  from open_check [OF inv3(1,2) name len3 k4 f3, of "st_mtime (sr_stat s2)" w]
  obtain p w4 where chk: "(if found \<noteq> 0 then
         obind (cfs_getCacheattr K path w3) (\<lambda>(_, cacheFileInfo, w'').
           let w'' = log_msg K w''
           in if st_mtime cacheFileInfo < st_mtime (sr_stat s2)
              then Ret (False, discard_cached E K fn ?cp w'')
              else Ret (True, w''))
       else Ret (False, w3)) = Ret (p, w4)"
    and i4: "store_inv tabs w4" "ready tabs w4"
    and p: "p \<longleftrightarrow> found \<noteq> 0 \<and> st_mtime (sr_stat s2) \<le> st_mtime (sr_stat s3)"
    and v4: "view_of tabs w4 = (if p then view_of tabs w3 else forgotten fn (view_of tabs w3))"
    by blast
  obtain fd' w5 where oc: "open_cache_copy E K fn ?cp (sr_stat s2) p w4 = (fd', w5)" by fastforce
  have p4: "p \<longleftrightarrow> fn \<in> fst (view_of tabs w4)"
    using p v4 f3 by (auto simp: forgotten_def)
  note o = open_cache_copy_view [OF oc i4 p4]
  obtain ret w6 where e: "(if fd' < 0 then log_error K w5 else (0, w5)) = (ret, w6)" by fastforce
  have lg6: "logged w5 w6"
    using e logged_msg [of w5 K w5] by (auto simp: log_error_def split: if_splits)
  let ?h = "\<lparr>nasFH = word_of_int fd, cacheFH = word_of_int fd'\<rparr>"
  obtain q w7 where n: "new_handle ?h w6 = (q, w7)" by fastforce
  let ?fi = "fi\<lparr>fi_fh := q\<rparr>" and ?w8 = "log_fi K w7"
  have lg8: "logged w7 ?w8" by simp
  have nh: "kept w6 w7" "get_handle ?fi w7 = Ret ?h"
    using get_new_handle [OF n] by blast+
  have "kept w5 ?w8"
    using logged_kept [OF lg6] nh(1) logged_kept [OF lg8] by (blast intro: kept_trans)
  note ks = kept_store [OF this]
  have "cfs_open E K path fi w = Ret (ret, ?fi, ?w8)"
    using nas_path_Ret [of w path K] cache_path_Ret [of "log_msg K (log_msg K w)" fn K] len name op ic st k(2)
      na(1) chk oc e n
    by (simp add: cfs_open_def file_name_Ret Let_def log_msg_def)
  moreover have "get_handle ?fi ?w8 = Ret ?h"
    using nh(2) logged_handle [OF lg8] by simp
  moreover have "fd = c_int (sr_ret s1)"
    using st k(2) by simp
  moreover have "view_of tabs ?w8 =
      (if fn \<in> fst (view_of tabs w) \<and> st_mtime (sr_stat s2) \<le> st_mtime (sr_stat s3) then view_of tabs w
       else (insert fn (fst (view_of tabs w)), {x \<in> snd (view_of tabs w). fst x \<noteq> fn}))"
    using ks o v4 p f3 inv3(3) by (auto simp: forgotten_def insert_absorb)
  ultimately show ?thesis
    using ks o by (intro exI [of _ ret] exI [of _ ?fi] exI [of _ ?h] exI [of _ ?w8]) simp
qed

end

end
