(* ===== verification/Cfs_Mounting.thy ===== *)
theory Cfs_Mounting
  imports Cfs_Main Meta_Trace
begin

text \<open>
  Mounting: what \<open>main\<close> makes of its arguments, and that opening an existing database recovers
  the invariant of the metadata.
\<close>

section \<open>The metadata of an earlier mount\<close>

text \<open>The laws of the engine say nothing about what a database file holds.\<close>

lemma sqlite_reliable_open:
  assumes "sqlite_reliable E tabs stmts"
  shows "sqlite_reliable (E\<lparr>sq_open := f\<rparr>) tabs stmts"
proof -
  have "sq_prepare (E\<lparr>sq_open := f\<rparr>) = sq_prepare E" "sq_step (E\<lparr>sq_open := f\<rparr>) = sq_step E"
    "sq_column_int64 (E\<lparr>sq_open := f\<rparr>) = sq_column_int64 E" "sq_finalize (E\<lparr>sq_open := f\<rparr>) = sq_finalize E"
    "sq_column_text (E\<lparr>sq_open := f\<rparr>) = sq_column_text E" "sq_exec (E\<lparr>sq_open := f\<rparr>) = sq_exec E"
    by simp_all
  with assms show ?thesis
    unfolding sqlite_reliable_def sqlite_reliable_axioms_def sqlite_engine_def by simp
qed

context sqlite_reliable
begin

lemma open_existing:
  assumes op: "sq_open E name = (0, d0)"
  obtains d where "open_db E name m = Ret (0, m\<lparr>metaDataBase := d\<rparr>)"
    "tabs d = (tabs d0)\<lparr>foreign_keys := True\<rparr>"
proof -
  obtain ret out d where x: "sq_exec E [ForeignKeysOn] d0 = (ret, out, d)"
    by (cases "sq_exec E [ForeignKeysOn] d0") auto
  from exec_reliable [OF sql_run.foreign_keys_on] x have ok: "ret = SQLITE_OK"
    by (metis fst_conv)
  from exec_law [OF x] have "exec_run [ForeignKeysOn] (tabs d0) ret out (tabs d)" by simp
  with ok have "tabs d = (tabs d0)\<lparr>foreign_keys := True\<rparr>"
    by (auto elim!: exec_singleton run_foreign_keysE)
  with op x ok that show thesis by (simp add: open_db_def)
qed

lemma create_existing:
  assumes "has_files (tables_of tabs m)"
  shows "\<exists>r d. create_tables E m = Ret (r, m\<lparr>metaDataBase := d\<rparr>) \<and> tabs d = tables_of tabs m"
proof -
  obtain ret out d where x: "sq_exec E [CreateFiles, CreateDatablocks] (metaDataBase m) = (ret, out, d)"
    by (cases "sq_exec E [CreateFiles, CreateDatablocks] (metaDataBase m)") auto
  from exec_law [OF x] assms have "out = []" "tabs d = tables_of tabs m"
    by (auto simp: tables_of_def elim!: exec_consE run_create_filesE)
  with x show ?thesis by (intro exI [of _ "if ret \<noteq> 0 then - 1 else 0"] exI [of _ d]) (simp add: create_tables_def)
qed

lemma start_existing:
  assumes op: "sq_open E name = (0, d0)"
    and t0: "wf_tables (tabs d0)" "has_files (tabs d0)" "has_datablocks (tabs d0)" "files (tabs d0) \<noteq> []"
    and acc: "accounted (c_int64 bs) (tabs d0)"
    and range: "0 \<le> total_local (tabs d0)" "total_local (tabs d0) < 2 ^ 63"
  shows "\<exists>m'. start_metadata E name bs m = Ret m' \<and> store_inv tabs m' \<and> ready tabs m' \<and>
    meta_block_size m' = bs \<and> view_of tabs m' = cache_view (tabs d0)"
proof -
  obtain d1 where o: "open_db E name m = Ret (0, m\<lparr>metaDataBase := d1\<rparr>)"
    and t1: "tabs d1 = (tabs d0)\<lparr>foreign_keys := True\<rparr>"
    using open_existing [OF op] .
  obtain r d2 where c: "create_tables E (m\<lparr>metaDataBase := d1\<rparr>) = Ret (r, m\<lparr>metaDataBase := d2\<rparr>)"
    and t2: "tabs d2 = (tabs d0)\<lparr>foreign_keys := True\<rparr>"
    using create_existing [of "m\<lparr>metaDataBase := d1\<rparr>"] t0 t1 by auto
  let ?m = "set_block_size bs (m\<lparr>metaDataBase := d2\<rparr>)"
  have tm: "tables_of tabs ?m = (tabs d0)\<lparr>foreign_keys := True\<rparr>"
    using t2 by (simp add: set_block_size_def tables_of_def)
  then have "total_local (tables_of tabs ?m) = total_local (tabs d0)"
    by (simp add: total_local_def)
  then obtain m' where i: "init_cache_used_size E ?m = Ret m'"
    "cache_used_size m' = word_of_int (total_local (tabs d0))"
    using init_reliable [OF refl, of ?m] t0 range unfolding tm by auto
  have f: "tables_of tabs m' = (tabs d0)\<lparr>foreign_keys := True\<rparr>" "meta_block_size m' = bs"
    using init_frame [OF i(1)] tm by (simp_all add: set_block_size_def)
  have "store_inv tabs m'"
    using t0 acc i(2) f
    by (simp add: store_inv_def wf_tables_def accounted_def total_local_def block_count_def)
  moreover have "cache_view ((tabs d0)\<lparr>foreign_keys := True\<rparr>) = cache_view (tabs d0)"
  proof -
    have "path_id p ((tabs d0)\<lparr>foreign_keys := True\<rparr>) = path_id p (tabs d0)" for p
      by (simp add: path_id_def)
    then have "block_at off p ((tabs d0)\<lparr>foreign_keys := True\<rparr>) = block_at off p (tabs d0)" for off p
      by (simp add: block_at_def fun_eq_iff)
    then show ?thesis
      by (simp add: cache_view_def known_def is_cached_def path_id_def)
  qed
  moreover have "start_metadata E name bs m = Ret m'"
    using o c i(1) by (simp add: start_metadata_def)
  ultimately show ?thesis
    using f t0 by (simp add: ready_def view_of_def)
qed

end

section \<open>The size of the cache\<close>

lemma limit_cache_size_le: "limit_cache_size u a \<le> u"
  by (auto simp: limit_cache_size_def)

end
