(* ===== verification/Cfs_Listing.thy ===== *)
theory Cfs_Listing
  imports Cfs_Handlers Posix_Files
begin

text \<open>
  Directory listings: a stream that is open delivers its entries one by one and ends. Over this
  interface the \<open>do ... while\<close> of \<open>cfs_readdir\<close> always ends, and it hands every entry to the
  filler unless the filler's buffer is full.
\<close>

locale dir_streams =
  fixes K :: "'os kernel" and entries :: "'os \<Rightarrow> nat \<Rightarrow> string list"
  assumes readdir_end: "k_sys K (Readdir dp) os = (s, os') \<Longrightarrow> entries os dp = [] \<Longrightarrow>
      sr_ret s = 0 \<and> entries os' = entries os"
    and readdir_next: "k_sys K (Readdir dp) os = (s, os') \<Longrightarrow> entries os dp = n # ns \<Longrightarrow>
      sr_ret s \<noteq> 0 \<and> sr_text s = n \<and> entries os' = (entries os)(dp := ns)"
    and filler_law: "k_sys K (Filler name) os = (s, os') \<Longrightarrow> entries os' = entries os"

text \<open>
  The names that a sequence of calls, begun in the state \<open>os\<close>, hands to the filler, each with the
  filler's answer.
\<close>

fun offered :: "'os kernel \<Rightarrow> syscall list \<Rightarrow> 'os \<Rightarrow> (string \<times> int) list" where
  "offered K [] os = []"
| "offered K (c # cs) os =
     (case k_sys K c os of (s, os') \<Rightarrow>
        (case c of Filler n \<Rightarrow> [(n, sr_ret s)] | _ \<Rightarrow> []) @ offered K cs os')"

text \<open>
  The two ways in which a listing of the names \<open>ns\<close> may end: every name was accepted, or one was
  refused, which ends it at once.
\<close>

definition listed :: "string list \<Rightarrow> (string \<times> int) list \<Rightarrow> int \<Rightarrow> bool" where
  "listed ns xs r \<longleftrightarrow>
     r = 0 \<and> map fst xs = ns \<and> (\<forall>x \<in> set xs. snd x = 0) \<or>
     r = - ENOMEM \<and> (\<exists>ys n e rest. xs = ys @ [(n, e)] \<and> e \<noteq> 0 \<and> (\<forall>y \<in> set ys. snd y = 0) \<and>
       ns = map fst ys @ n # rest)"

lemma listed_accepted:
  assumes "listed ns xs r"
  shows "listed (n # ns) ((n, 0) # xs) r"
  using assms unfolding listed_def
proof (elim disjE conjE exE)
  fix ys m e rest
  assume "r = - ENOMEM" "xs = ys @ [(m, e)]" "e \<noteq> 0" "\<forall>y \<in> set ys. snd y = 0" "ns = map fst ys @ m # rest"
  then show "r = 0 \<and> map fst ((n, 0) # xs) = n # ns \<and> (\<forall>x \<in> set ((n, 0) # xs). snd x = 0) \<or>
    r = - ENOMEM \<and> (\<exists>ys n' e rest. (n, 0) # xs = ys @ [(n', e)] \<and> e \<noteq> 0 \<and> (\<forall>y \<in> set ys. snd y = 0) \<and>
      n # ns = map fst ys @ n' # rest)"
    by (intro disjI2 conjI exI [of _ "(n, 0) # ys"] exI [of _ m] exI [of _ e] exI [of _ rest]) auto
qed auto

lemma listed_refused: "e \<noteq> 0 \<Longrightarrow> listed (n # ns) [(n, e)] (- ENOMEM)"
  by (auto simp: listed_def)

lemma sys_fields:
  "sys K c w = (s, w') \<Longrightarrow> k_sys K c (w_os w) = (s, w_os w') \<and> w_trace w' = w_trace w @ [c]"
  by (auto simp: sys_def split: prod.splits)

lemma log_fields [simp]: "w_os (log_msg K w) = w_os w" "w_trace (log_msg K w) = w_trace w"
  by (simp_all add: log_msg_def)

lemma log_fi_fields [simp]: "w_os (log_fi K w) = w_os w" "w_trace (log_fi K w) = w_trace w"
proof -
  have "w_os ((log_msg K ^^ n) w) = w_os w \<and> w_trace ((log_msg K ^^ n) w) = w_trace w" for n
    by (induction n) simp_all
  then show "w_os (log_fi K w) = w_os w" "w_trace (log_fi K w) = w_trace w"
    by (simp_all add: log_fi_def)
qed

context dir_streams
begin

lemma readdir_loop_fills:
  "\<exists>r w' cs. readdir_loop K dp name w = Some (r, w') \<and> w_trace w' = w_trace w @ cs \<and>
     listed (name # entries (w_os w) dp) (offered K cs (w_os w)) r"
proof (induction "entries (w_os w) dp" arbitrary: name w)
  case Nil
  obtain s w1 where f: "sys K (Filler name) (log_msg K w) = (s, w1)" by fastforce
  obtain s2 w2 where r: "sys K (Readdir dp) w1 = (s2, w2)" by fastforce
  note fk = sys_fields [OF f, simplified] and rk = sys_fields [OF r]
  have e1: "entries (w_os w1) = entries (w_os w)"
    using filler_law [OF fk [THEN conjunct1]] .
  show ?case
  proof (cases "sr_ret s = 0")
    case True
    have "sr_ret s2 = 0"
      using readdir_end rk e1 Nil by metis
    with f r True have "readdir_loop K dp name w = Some (0, log_fi K w2)"
      by (subst readdir_loop.simps) simp
    with fk rk Nil True show ?thesis by (auto simp: listed_def)
  next
    case False
    with f have "readdir_loop K dp name w = Some (- ENOMEM, log_msg K w1)"
      by (subst readdir_loop.simps) simp
    with fk listed_refused [OF False] show ?thesis by auto
  qed
next
  case (Cons n ns)
  obtain s w1 where f: "sys K (Filler name) (log_msg K w) = (s, w1)" by fastforce
  obtain s2 w2 where r: "sys K (Readdir dp) w1 = (s2, w2)" by fastforce
  note fk = sys_fields [OF f, simplified] and rk = sys_fields [OF r]
  have e1: "entries (w_os w1) dp = n # ns"
    using filler_law [OF fk [THEN conjunct1]] Cons(2) by simp
  show ?case
  proof (cases "sr_ret s = 0")
    case True
    note rn = readdir_next [OF rk [THEN conjunct1] e1]
    then have "ns = entries (w_os w2) dp" by simp
    from Cons(1) [OF this, of n] obtain r' w' cs where IH: "readdir_loop K dp n w2 = Some (r', w')"
      "w_trace w' = w_trace w2 @ cs"
      "listed (n # ns) (offered K cs (w_os w2)) r'"
      using rn by auto
    have "readdir_loop K dp name w = Some (r', w')"
      using f r True rn IH(1) by (subst readdir_loop.simps) simp
    moreover have "w_trace w' = w_trace w @ (Filler name # Readdir dp # cs)"
      using IH(2) fk rk by simp
    moreover have "offered K (Filler name # Readdir dp # cs) (w_os w) = (name, 0) # offered K cs (w_os w2)"
      using fk rk True by simp
    ultimately show ?thesis
      using listed_accepted [OF IH(3), of name] Cons(2) by metis
  next
    case False
    with f have "readdir_loop K dp name w = Some (- ENOMEM, log_msg K w1)"
      by (subst readdir_loop.simps) simp
    with fk listed_refused [OF False] show ?thesis by auto
  qed
qed

lemma readdir_returns:
  "\<exists>r w' cs. cfs_readdir K fi w = Ret (r, w') \<and> w_trace w' = w_trace w @ cs \<and>
     (entries (w_os w) (fi_fh fi) \<noteq> [] \<longrightarrow> listed (entries (w_os w) (fi_fh fi)) (offered K cs (w_os w)) r)"
proof -
  let ?dp = "fi_fh fi"
  obtain s w1 where r: "sys K (Readdir ?dp) (log_msg K w) = (s, w1)" by fastforce
  note rk = sys_fields [OF r, simplified]
  show ?thesis
  proof (cases "entries (w_os w) ?dp")
    case Nil
    with readdir_end rk have "sr_ret s = 0" by blast
    then have "cfs_readdir K fi w = Ret (log_error K (log_msg K w1))"
      using r by (simp add: cfs_readdir_def Let_def)
    with Nil rk show ?thesis by (simp add: log_error_def)
  next
    case (Cons n ns)
    with readdir_next rk have n: "sr_ret s \<noteq> 0" "sr_text s = n" "entries (w_os w1) ?dp = ns"
      by fastforce+
    from readdir_loop_fills [of ?dp n "log_msg K w1"] n(3) obtain r' w' cs where l:
      "readdir_loop K ?dp n (log_msg K w1) = Some (r', w')" "w_trace w' = w_trace w1 @ cs"
      "listed (n # ns) (offered K cs (w_os w1)) r'"
      by auto
    have "cfs_readdir K fi w = Ret (r', w')"
      using r n l(1) by (simp add: cfs_readdir_def Let_def)
    with l Cons rk show ?thesis
      by (intro exI [of _ r'] exI [of _ w'] exI [of _ "Readdir ?dp # cs"]) auto
  qed
qed

end

section \<open>The small file system\<close>

definition mf_entries :: "memfs \<Rightarrow> nat \<Rightarrow> string list" where
  "mf_entries m dp = (case map_of (mf_dirs m) dp of Some l \<Rightarrow> l | None \<Rightarrow> [])"

interpretation listing: dir_streams "memfs_kernel faulty" mf_entries for faulty
proof (unfold_locales, goal_cases)
  case (1 dp os s os')
  then show ?case by (auto simp: mf_entries_def split: option.splits list.splits)
next
  case (2 dp os s os' n ns)
  then show ?case
    by (auto simp: mf_entries_def fun_eq_iff update_conv split: option.splits)
next
  case (3 name os s os')
  then show ?case by simp
qed

end
