(* ===== verification/Cfs_Properties.thy ===== *)
theory Cfs_Properties
  imports Cfs_Demo Cfs_Frames Cfs_Opening Cfs_Mounting Cfs_Listing
begin

text \<open>
  The properties of the file-system handlers of \<open>src/cachefs.c\<close>, each with a run on the small
  mounted file system of \<open>Cfs_Demo\<close> where it has hypotheses.
\<close>

section \<open>Reading and writing through the cache\<close>

text \<open>
  C1: a read request that fits into its aligned area returns with exactly the bytes that the
  NAS file holds at the requested offset, whether they come from the cache, from the NAS or
  from both block by block; afterwards every recorded block of the file still agrees with the
  NAS file, which is unchanged. The returned number is not the one requested but counts the
  whole aligned area: it is at least the number of bytes that the NAS file has in the area and
  at most the size of the area, so exactly that size when the area lies within the file; and when no block of the area was
  recorded it is exactly the number of bytes that the file has there. The SQLite library
  and the system calls behave as documented and do not fail, the open file is coherent, the
  cache has room, and the area is smaller than two gigabytes, since the count is an \<open>int\<close>.
\<close>

theorem cfs_read_returns_nas_bytes:
  assumes "file_cache E tabs stmts K ino content lookup" "reads_succeed K ino"
    and "serving tabs ino content fi fn iN iC w" "cfs_pathToFileName path = Ret fn"
    and "space_for (nblocks (unat (block_size w)) (unat sz)) tabs w"
    and "fits (block_size w) off sz" "unat off + unat sz + unat (block_size w) < 2 ^ 63"
    and "area_size (block_size w) sz < 2 ^ 31"
  shows "\<exists>ret buf w'. cfs_read E K path sz off fi w = Ret (ret, buf, w') \<and> length buf = unat sz \<and>
    (\<forall>k < unat sz. unat off + k < length (content (w_os w) iN) \<longrightarrow>
       buf ! k = content (w_os w) iN ! (unat off + k)) \<and>
    int (area_bytes (content (w_os w) iN) (block_size w) off sz) \<le> ret \<and> ret \<le> int (area_size (block_size w) sz) \<and>
    ((\<forall>i < nblocks (unat (block_size w)) (unat sz).
        (fn, int (area_start (block_size w) off + i * unat (block_size w))) \<notin> snd (view_of tabs w)) \<longrightarrow>
     ret = int (area_bytes (content (w_os w) iN) (block_size w) off sz)) \<and>
    content (w_os w') iN = content (w_os w) iN \<and> serving tabs ino content fi fn iN iC w'"
proof -
  let ?none = "\<forall>i < nblocks (unat (block_size w)) (unat sz).
    (fn, int (area_start (block_size w) off + i * unat (block_size w))) \<notin> snd (view_of tabs w)"
  from file_cache.read_serving [OF assms(1,3-7)] assms(2,8) obtain ret buf w' where
    r: "cfs_read E K path sz off fi w = Ret (ret, buf, w')" "serving tabs ino content fi fn iN iC w'"
    "same_nas ino content lookup iN w w'" "length buf = unat sz"
    "matches (content (w_os w) iN) buf (unat off)"
    and c: "counted (length (content (w_os w) iN)) (area_start (block_size w) off) 0
      (area_size (block_size w) sz) ?none ret"
    unfolding area_size_def by blast
  have "int (area_bytes (content (w_os w) iN) (block_size w) off sz) \<le> ret" "ret \<le> int (area_size (block_size w) sz)"
    "?none \<longrightarrow> ret = int (area_bytes (content (w_os w) iN) (block_size w) off sz)"
    using c by (simp_all add: counted_def area_bytes_def)
  with r show ?thesis by (auto simp: matches_def same_nas_def)
qed

lemma demo_name: "cfs_pathToFileName ''/a'' = Ret ''/a''"
  by code_simp

text \<open>Six bytes asked for, in blocks of four: the count returned is eight.\<close>

lemma cfs_read_returns_nas_bytes_witness:
  "\<exists>w'. cfs_read (tdb_engine False) (memfs_kernel False) ''/a'' 6 0 demo_fi (demo_world [] []) =
      Ret (8, [10, 11, 12, 13, 14, 15], w')"
proof -
  let ?w = "demo_world [] []"
  have nas: "mf_content (w_os ?w) 1 = [10, 11, 12, 13, 14, 15, 16, 17, 18, 19]"
    by (simp add: demo_world_def demo_fs_def mf_content_def)
  have area: "area_size (block_size ?w) 6 = 8" "area_bytes (mf_content (w_os ?w) 1) (block_size ?w) 0 6 = 8"
    unfolding nas by (simp_all add: demo_world_def area_size_def area_bytes_def area_start_def nblocks_def)
  have pos: "unat (0 :: off_t) + unat (6 :: size_t) + unat (block_size ?w) < 2 ^ 63"
    and fit: "fits (block_size ?w) 0 6"
    and small: "area_size (block_size ?w) 6 < 2 ^ 31"
    by (simp_all add: demo_world_def fits_def nblocks_def area_size_def)
  have space: "space_for (nblocks (unat (block_size ?w)) (unat (6 :: size_t))) td_tables ?w"
    by (rule demo_space) (simp add: demo_world_def nblocks_def)
  obtain ret buf w' where r: "cfs_read (tdb_engine False) (memfs_kernel False) ''/a'' 6 0 demo_fi ?w =
      Ret (ret, buf, w')" "length buf = 6"
    and b: "\<forall>k < 6. buf ! k = [10, 11, 12, 13, 14, 15, 16, 17, 18, 19] ! k"
    and c: "8 \<le> ret" "ret \<le> 8"
    using cfs_read_returns_nas_bytes [OF demo.file_cache_axioms memfs_reads demo_serving demo_name space fit pos small]
    unfolding nas area [unfolded nas] by auto
  have "buf = take 6 [10, 11, 12, 13, 14, 15, 16, 17, 18, 19]"
  proof (rule nth_equalityI)
    show "length buf = length (take 6 [10, 11, 12, 13, 14, 15, 16, 17, 18, 19 :: byte])"
      using r(2) by simp
    show "buf ! i = take 6 [10, 11, 12, 13, 14, 15, 16, 17, 18, 19] ! i" if "i < length buf" for i
      using b that r(2) by (simp only: nth_take)
  qed
  with r(1) c show ?thesis by auto
qed

text \<open>
  C2: a write request that fits into its aligned area and leaves no gap behind the end of the
  file stores the bytes in the NAS file, returns their number, and keeps every recorded block
  of the file in agreement with the new content of the NAS file. The SQLite library and the
  system calls behave as documented and do not fail, the path leads to the open file, which is
  coherent, the cache has room for the blocks, and the sizes are in range.
\<close>

theorem cfs_write_keeps_coherence:
  assumes "file_cache E tabs stmts K ino content lookup"
    and "serving tabs ino content fi fn iN iC w" "cfs_pathToFileName path = Ret fn"
    and "length (nasdir (w_cfs w)) + length path < PATH_MAX"
      "lookup (w_os w) (nasdir (w_cfs w) @ path) = Some iN"
    and "space_for (nblocks (unat (block_size w)) (unat sz)) tabs w"
    and "fits (block_size w) off sz" "length buf = unat sz"
    and "unat off \<le> length (content (w_os w) iN)" "length (content (w_os w) iN) < 2 ^ 63"
    and "unat off + unat sz + unat (block_size w) < 2 ^ 63"
  shows "\<exists>ret w'. cfs_write E K path buf sz off fi w = Ret (ret, w') \<and>
    serving tabs ino content fi fn iN iC w' \<and>
    content (w_os w') iN = write_at (unat off) buf (content (w_os w) iN) \<and>
    (unat sz < 2 ^ 31 \<longrightarrow> ret = int (unat sz))"
  using assms by (rule file_cache.write_serving)

lemma cfs_write_keeps_coherence_witness:
  "\<exists>ret w'. cfs_write (tdb_engine False) (memfs_kernel False) ''/a'' [1, 2] 2 1 demo_fi (demo_world [] []) =
      Ret (ret, w') \<and> ret = 2 \<and> serving td_tables mf_ino mf_content demo_fi ''/a'' 1 2 w' \<and>
    mf_content (w_os w') 1 = [10, 1, 2, 13, 14, 15, 16, 17, 18, 19]"
proof -
  let ?w = "demo_world [] []"
  have nas: "mf_content (w_os ?w) 1 = [10, 11, 12, 13, 14, 15, 16, 17, 18, 19]"
    by (simp add: demo_world_def demo_fs_def mf_content_def)
  have "\<exists>ret w'. cfs_write (tdb_engine False) (memfs_kernel False) ''/a'' [1, 2] 2 1 demo_fi ?w = Ret (ret, w') \<and>
    serving td_tables mf_ino mf_content demo_fi ''/a'' 1 2 w' \<and>
    mf_content (w_os w') 1 = write_at (unat (1 :: off_t)) [1, 2] (mf_content (w_os ?w) 1) \<and>
    (unat (2 :: size_t) < 2 ^ 31 \<longrightarrow> ret = int (unat (2 :: size_t)))"
    by (rule cfs_write_keeps_coherence [OF demo.file_cache_axioms demo_serving demo_name _ _ demo_space])
      (simp_all add: demo_world_def demo_fs_def mf_lookup_def mf_content_def nblocks_def fits_def PATH_MAX_def)
  then show ?thesis
    unfolding nas by (auto simp: write_at_def)
qed


lemma sys_log_trace: "sys_log K c w = (r, s, w') \<Longrightarrow> w_trace w' = w_trace w @ [c]"
  by (auto simp: sys_log_def sys_def log_syscall_def log_retstat_def log_error_def Let_def
      split: prod.splits if_splits)

lemma store_read_length: "store_read at s buf = Ret buf' \<Longrightarrow> length buf' = length buf"
  by (auto simp: store_read_def split: if_splits)

lemma post_case_prod: "(\<And>a b. post P (f a b)) \<Longrightarrow> post P (case p of (a, b) \<Rightarrow> f a b)"
  by (cases p) simp

lemma post_any: "(\<And>x. post P (f x)) \<Longrightarrow> post P (obind p f)"
  by (auto simp: post_def obind_eq_Ret)

lemma post_buf:
  assumes "post (\<lambda>(r, b, w). length b = n) p" "\<And>r b w. length b = n \<Longrightarrow> post P (g r b w)"
  shows "post P (obind p (\<lambda>(r, b, w). g r b w))"
  using assms by (fastforce simp: post_def obind_eq_Ret)

lemma post_mono: "post P p \<Longrightarrow> (\<And>x. P x \<Longrightarrow> Q x) \<Longrightarrow> post Q p"
  by (auto simp: post_def)

lemma post_store_read: "(\<And>b. length b = length buf \<Longrightarrow> P b) \<Longrightarrow> post P (store_read at s buf)"
  by (auto simp: post_def dest: store_read_length)

lemma read_loop_length:
  "post (\<lambda>(r, b, w). length b = length buf) (read_loop E K fn fi h lo i hits ret buf w)"
proof (induction hits arbitrary: i ret buf w)
  case (Cons hit hits)
  show ?case
    unfolding read_loop.simps Let_def
    by (rule post_if post_case_prod post_obind post_store_read Cons.IH [THEN post_mono] post_mono [OF post_true] |
        (auto; fail))+
qed simp

text \<open>
  C7: \<open>cfs_read\<close> only ever returns when the request fits into its aligned area: for any
  other offset and size the final copy reads past the end of the buffer. The interface of
  SQLite and the system calls are arbitrary here.
\<close>

theorem cfs_read_needs_fit:
  assumes "cfs_read E K path sz off fi w = Ret r" "unat sz + unat (block_size w) < 2 ^ 64"
  shows "block_size w \<noteq> 0 \<and> fits (block_size w) off sz"
proof -
  let ?A = "aligned_size (block_size w) sz"
  obtain lo where lo: "alignLowerOffset (block_size w) off = Ret lo"
    using assms(1) by (auto simp: cfs_read_def obind_eq_Ret)
  then have bs: "block_size w \<noteq> 0" by (auto simp: alignLowerOffset_def split: if_splits)
  have "post (\<lambda>_. unat (off - lo) + unat sz \<le> unat ?A) (cfs_read E K path sz off fi w)"
    unfolding cfs_read_def Let_def lo obind.simps
    by (rule post_any, rule post_any, (rule post_case_prod)+, rule post_any)
      (rule post_buf [where n = "unat ?A"] post_if post_case_prod post_obind post_store_read
          read_loop_length [THEN post_mono] | (auto simp: copy_out_def; fail))+
  with assms(1) have "unat off mod unat (block_size w) + unat sz \<le> unat ?A"
    using lower_unat(2) [OF lo] by (cases r) (simp add: post_def)
  then show ?thesis
    using bs aligned_size_unat [OF bs assms(2)] by (simp add: fits_def)
qed


lemma cfs_read_needs_fit_witness: "4 \<noteq> (0 :: size_t) \<and> fits (block_size (demo_world [] [])) 4 4"
proof -
  have "\<exists>r. cfs_read (tdb_engine False) (memfs_kernel False) ''/a'' 4 4 demo_fi (demo_world [] []) = Ret r"
    by (rule file_cache.read_returns [OF demo.file_cache_axioms demo_serving demo_name demo_space])
      (simp_all add: demo_world_def nblocks_def fits_def)
  then obtain r where "cfs_read (tdb_engine False) (memfs_kernel False) ''/a'' 4 4 demo_fi (demo_world [] []) = Ret r"
    by blast
  from cfs_read_needs_fit [OF this] show ?thesis by (simp add: demo_world_def)
qed

text \<open>
  A read of four bytes at offset two, on blocks of four bytes, fails although the file
  holds ten bytes: the aligned area ends at offset four.
\<close>

lemma cfs_read_overruns:
  "seen fst (cfs_read (tdb_engine False) (memfs_kernel False) ''/a'' 4 2 demo_fi (demo_world [] [])) =
    Crash OverRead"
  by code_simp


text \<open>
  A write that is not aligned leaves a stale block: on blocks of four bytes of which the
  first two are cached, a write of four bytes at offset two changes the bytes two to five of
  the NAS file, but only the first block of the cache file, and the second one stays recorded.
\<close>

theorem cfs_write_leaves_stale_block:
  "seen (\<lambda>(r, w). (r, mf_content (w_os w) 1, mf_content (w_os w) 2,
        map blk_start_offset (datablocks (td_tables (metaDataBase w)))))
     (cfs_write (tdb_engine False) (memfs_kernel False) ''/a'' [1, 2, 3, 4] 4 2 demo_fi demo_world2) =
   Ret (4, [10, 11, 1, 2, 3, 4, 16, 17, 18, 19], [10, 11, 1, 2, 14, 15, 16, 17], [0, 4])"
  by code_simp

text \<open>
  A read of the last block of a file stores the uninitialised rest of its buffer in the
  cache file: the file has ten bytes, the read returns 2 for offset eight, and the cache file
  then holds twelve bytes and the block is recorded as cached.
\<close>

theorem cfs_read_caches_junk:
  "seen (\<lambda>(r, buf, w). (r, buf, mf_content (w_os w) 2,
        map blk_start_offset (datablocks (td_tables (metaDataBase w)))))
     (cfs_read (tdb_engine False) (memfs_kernel False) ''/a'' 4 8 demo_fi demo_world2) =
   Ret (2, [18, 19, 255, 255], [10, 11, 12, 13, 14, 15, 16, 17, 18, 19, 255, 255], [0, 4, 8])"
  by code_simp

section \<open>Storing blocks\<close>

text \<open>
  C9: \<open>cfs_cacheWrite\<close> never returns exactly when the cache is full: the body of its waiting
  loop frees nothing, since the call of \<open>evict_blocks\<close> is commented out.
\<close>

theorem cfs_cacheWrite_hangs_iff_full:
  assumes "length (cachedir (w_cfs w)) + length fn < PATH_MAX" "get_handle fi w = Ret h" "block_size w \<noteq> 0"
    and "unat sz \<le> length buf"
  shows "cfs_cacheWrite E K fn buf sz off fi w = Hang \<longleftrightarrow> cache_size w * 1024 \<le> cache_used_size w"
proof -
  let ?w = "log_fi K (log_msg K (log_msg K w))"
  have lg: "logged w ?w" by simp
  have h: "get_handle fi (log_msg K w) = Ret h"
    using assms(2) logged_handle [of w "log_msg K w"] by simp
  show ?thesis
    using assms(1,3,4) h lg unfolding logged_def
    by (simp add: cfs_cacheWrite_def cache_path_Ret Let_def evict_wait_cases get_cache_used_size_def
        split: prod.split)
qed

lemma cfs_cacheWrite_hangs_iff_full_witness:
  "cfs_cacheWrite (tdb_engine False) (memfs_kernel False) ''/a'' [1, 2, 3, 4] 4 0 demo_fi
     ((demo_world [] [])\<lparr>cache_used_size := 1024\<rparr>) = Hang"
  using cfs_cacheWrite_hangs_iff_full [of "(demo_world [] [])\<lparr>cache_used_size := 1024\<rparr>" "''/a''" demo_fi
      "\<lparr>nasFH = 3, cacheFH = 4\<rparr>" 4 "[1, 2, 3, 4]" "tdb_engine False" "memfs_kernel False" 0]
  by (simp add: demo_world_def PATH_MAX_def get_handle_def demo_fi_def)

text \<open>
  C8: \<open>cfs_cacheWrite\<close> with room in the cache and a reliable SQLite returns whatever the system
  answers to its one call, the \<open>pwrite\<close> of the bytes to the cache file, and what it returns is
  that answer; but the metadata knows all blocks of the request and no other new ones
  afterwards in every case, also when the call failed or stored only a part.
\<close>

theorem cfs_cacheWrite_records_unstored:
  assumes "sqlite_reliable E tabs stmts" "store_inv tabs w" "ready tabs w" "fn \<in> fst (view_of tabs w)"
    and "room_for (unat (sz div block_size w)) tabs w" "cache_used_size w < cache_size w * 1024"
    and "length (cachedir (w_cfs w)) + length fn < PATH_MAX" "get_handle fi w = Ret h" "block_size w \<noteq> 0"
    and "unat sz \<le> length buf"
    and "k_sys K (Pwrite (fd_of (cacheFH h)) (take (unat sz) buf) off) (w_os w) = (s, os')"
  shows "\<exists>w'. cfs_cacheWrite E K fn buf sz off fi w =
      Ret (if c_int (sr_ret s) < 0 then - k_vfprintf K os' (sr_errno s) else c_int (sr_ret s), w') \<and>
    w_os w' = os' \<and> w_trace w' = w_trace w @ [Pwrite (fd_of (cacheFH h)) (take (unat sz) buf) off] \<and>
    view_of tabs w' = (fst (view_of tabs w), snd (view_of tabs w) \<union>
      (\<lambda>b. (fn, c_int64 b)) ` set (block_offsets off (block_size w) (unat (sz div block_size w))))"
proof -
  let ?w = "log_fi K (log_msg K (log_msg K w))"
  let ?bs = "block_offsets off (block_size w) (unat (sz div block_size w))"
  let ?c = "Pwrite (fd_of (cacheFH h)) (take (unat sz) buf) off"
  have lg: "logged w ?w" by simp
  have b: "block_size ?w = block_size w" "cache_size ?w = cache_size w" "cache_used_size ?w = cache_used_size w"
    using lg by (simp_all add: logged_def)
  obtain r1 w1 where wb: "write_blks E fn ?bs ?w = (r1, w1)" by fastforce
  have v: "view_of tabs w1 = (fst (view_of tabs w), snd (view_of tabs w) \<union> (\<lambda>b. (fn, c_int64 b)) ` set ?bs)"
    using sqlite_reliable.write_blks_reliable [OF assms(1) wb, of 0] assms(2-5) logged_store [OF lg] by simp
  have so: "store_only ?w w1" using store_only_write_blks [of ?w E fn ?bs] wb by simp
  then have os: "w_os w1 = w_os w" "w_trace w1 = w_trace w"
    using lg by (auto simp: store_only_def logged_def)
  obtain r s' w' where p: "sys_log K ?c w1 = (r, s', w')" by (cases "sys_log K ?c w1") auto
  have res: "r = (if c_int (sr_ret s) < 0 then - k_vfprintf K os' (sr_errno s) else c_int (sr_ret s))"
    "w_os w' = os'"
    using sys_log_result [OF p] assms(11) os(1) by simp_all
  have "get_handle fi (log_msg K w) = Ret h"
    using assms(8) logged_handle [of w "log_msg K w"] by simp
  then have "cfs_cacheWrite E K fn buf sz off fi w = Ret (r, w')"
    using assms(6,7,9,10) b wb p
    by (simp add: cfs_cacheWrite_def cache_path_Ret Let_def evict_wait_cases get_cache_used_size_def)
  moreover have "view_of tabs w' = view_of tabs w1"
    using sys_log_store [OF p] by simp
  moreover have "w_trace w' = w_trace w @ [?c]"
    using sys_log_trace [OF p] os(2) by simp
  ultimately show ?thesis
    using res v by simp
qed

lemma cfs_cacheWrite_records_unstored_witness:
  "\<exists>w'. cfs_cacheWrite (tdb_engine False) (memfs_kernel True) ''/a'' [1, 2, 3, 4] 4 4 demo_fi
      (demo_world [] [True]) = Ret (- 28, w') \<and> mf_content (w_os w') 2 = [10, 11, 12, 13] \<and>
    (''/a'', 4) \<in> snd (view_of td_tables w')"
proof -
  let ?w = "demo_world [] [True]"
  have k: "k_sys (memfs_kernel True) (Pwrite (fd_of (cacheFH \<lparr>nasFH = 3, cacheFH = 4\<rparr>)) (take (unat (4 :: size_t))
      [1, 2, 3, 4]) 4) (w_os ?w) = (mf_err 28, (w_os ?w)\<lparr>mf_faults := []\<rparr>)"
    by (simp add: demo_world_def demo_fs_def mf_ino_def fd_of_def Let_def)
  have "\<exists>w'. cfs_cacheWrite (tdb_engine False) (memfs_kernel True) ''/a'' [1, 2, 3, 4] 4 4 demo_fi ?w =
      Ret (if c_int (sr_ret (mf_err 28)) < 0 then - k_vfprintf (memfs_kernel True) ((w_os ?w)\<lparr>mf_faults := []\<rparr>)
        (sr_errno (mf_err 28)) else c_int (sr_ret (mf_err 28)), w') \<and>
    w_os w' = (w_os ?w)\<lparr>mf_faults := []\<rparr> \<and> w_trace w' = w_trace ?w @ [Pwrite (fd_of (cacheFH \<lparr>nasFH = 3, cacheFH = 4\<rparr>))
      (take (unat (4 :: size_t)) [1, 2, 3, 4]) 4] \<and>
    view_of td_tables w' = (fst (view_of td_tables ?w), snd (view_of td_tables ?w) \<union>
      (\<lambda>b. (''/a'', c_int64 b)) ` set (block_offsets 4 (block_size ?w) (unat (4 div block_size ?w))))"
    by (rule cfs_cacheWrite_records_unstored [OF rel.sqlite_reliable_axioms demo_world_inv demo_world_ready _ _ _ _ _ _ _ k])
      (use demo_space [of 1] in \<open>simp_all add: demo_world_view space_for_def\<close>,
        simp_all add: demo_world_def PATH_MAX_def get_handle_def demo_fi_def)
  then show ?thesis
    by (auto simp: memfs_kernel_def mf_err_def mf_ok_def demo_world_def demo_fs_def mf_content_def
        block_offsets_def c_int64_def)
qed


section \<open>Every sequence of requests\<close>

text \<open>
  Whatever the system and SQLite answer, serving any sequence of requests passes to the system
  only file names that belong to the paths of the requests: the path below the NAS directory
  and the flat name below the cache directory. The shell command of \<open>cfs_release\<close> has the name
  unquoted, and nothing is said of the calls on descriptors.
\<close>

theorem serve_stays_in_directories:
  assumes "sqlite_engine E tabs stmts" "serve E K qs w = Ret (rs, w')"
  shows "\<exists>cs. w_trace w' = w_trace w @ cs \<and>
    (\<forall>c \<in> set cs. call_ok (files_of (w_cfs w) (concat (map request_paths qs))) c)"
  using sqlite_engine.serve_steps [OF assms] by (simp add: steps_def)

lemma demo_serve_unlink:
  "seen (\<lambda>(rs, w). (rs, w_trace w, td_tables (metaDataBase w)))
     (serve (tdb_engine False) (memfs_kernel False) [ReqUnlink ''/a'', ReqGetattr ''/b''] (demo_world [] [])) =
   Ret ([Status 0, Attr (- 2) \<lparr>st_dev = 0, st_mode = 0, st_size = 0, st_mtime = 0\<rparr>],
     [Unlink ''/cache/a'', Unlink ''/nas/a'', Lstat ''/nas/b''],
     cfs_demo_tables\<lparr>files := [], datablocks := []\<rparr>)"
  by code_simp

lemma serve_stays_in_directories_witness:
  "call_ok (files_of (w_cfs (demo_world [] [])) [''/a'', ''/b'']) (Unlink ''/cache/a'') \<and>
   call_ok (files_of (w_cfs (demo_world [] [])) [''/a'', ''/b'']) (Lstat ''/nas/b'')"
proof -
  obtain rs w' where s: "serve (tdb_engine False) (memfs_kernel False) [ReqUnlink ''/a'', ReqGetattr ''/b'']
      (demo_world [] []) = Ret (rs, w')"
    and t: "w_trace w' = [Unlink ''/cache/a'', Unlink ''/nas/a'', Lstat ''/nas/b'']"
    using demo_serve_unlink by (auto simp: seen_def obind_eq_Ret)
  have "w_trace (demo_world [] []) = []" by (simp add: demo_world_def)
  with serve_stays_in_directories [OF td.sqlite_engine_axioms s] t show ?thesis by simp
qed

text \<open>
  Serving any sequence of requests leaves the mount's configuration alone and, as SQLite
  enforces it for every statement, the constraints of the schema.
\<close>

theorem serve_preserves_constraints:
  assumes "sqlite_engine E tabs stmts" "serve E K qs w = Ret (rs, w')" "constraints (tables_of tabs w)"
  shows "constraints (tables_of tabs w') \<and> w_cfs w' = w_cfs w \<and> block_size w' = block_size w \<and>
    cache_size w' = cache_size w"
  using sqlite_engine.serve_steps [OF assms(1,2)] assms(3) by (simp add: steps_def)

lemma serve_preserves_constraints_witness: "constraints (cfs_demo_tables\<lparr>files := [], datablocks := []\<rparr>)"
proof -
  obtain rs w' where s: "serve (tdb_engine False) (memfs_kernel False) [ReqUnlink ''/a'', ReqGetattr ''/b'']
      (demo_world [] []) = Ret (rs, w')"
    and t: "td_tables (metaDataBase w') = cfs_demo_tables\<lparr>files := [], datablocks := []\<rparr>"
    using demo_serve_unlink by (auto simp: seen_def obind_eq_Ret)
  have "constraints (tables_of td_tables (demo_world [] []))"
    using demo_world_inv [of "[]" "[]"] demo_world_ready [of "[]" "[]"]
    by (simp add: constraints_def store_inv_def ready_def)
  from serve_preserves_constraints [OF td.sqlite_engine_axioms s this] t show ?thesis
    by (simp add: tables_of_def)
qed

section \<open>Opening and closing\<close>

text \<open>
  C6: opening a file that the NAS no longer has returns the negative error number and forgets
  the cached copy: the file has no row and no block afterwards, everything else is kept.
\<close>

theorem cfs_open_forgets_missing_file:
  assumes "sqlite_reliable E tabs stmts" "store_inv tabs w" "ready tabs w" "cfs_pathToFileName path = Ret fn"
    and "length (nasdir (w_cfs w)) + length path < PATH_MAX" "length (cachedir (w_cfs w)) + length fn < PATH_MAX"
    and "k_sys K (Open (nasdir (w_cfs w) @ path) (nas_flags (fi_flags fi)) None) (w_os w) = (s1, os1)"
    and "c_int (sr_ret s1) < 0" "0 < k_vfprintf K os1 (sr_errno s1)"
  shows "\<exists>w'. cfs_open E K path fi w = Ret (- k_vfprintf K os1 (sr_errno s1), fi, w') \<and> store_inv tabs w' \<and>
    fst (view_of tabs w') = fst (view_of tabs w) - {fn} \<and>
    snd (view_of tabs w') = {x \<in> snd (view_of tabs w). fst x \<noteq> fn}"
  using sqlite_reliable.open_missing [OF assms] by (auto simp: forgotten_def)

text \<open>The demo file removed from the NAS behind the mount's back.\<close>

definition demo_gone :: "(tdb, memfs) world" where
  "demo_gone = (demo_world [] [])\<lparr>w_os := (demo_fs [])\<lparr>mf_names := [(''/cache/a'', 2)]\<rparr>\<rparr>"

lemma demo_gone_store:
  "store_inv td_tables demo_gone" "ready td_tables demo_gone" "view_of td_tables demo_gone = ({''/a''}, {(''/a'', 0)})"
  using demo_world_inv [of "[]" "[]"] demo_world_ready [of "[]" "[]"] demo_world_view [of "[]" "[]"]
  by (simp_all add: demo_gone_def store_inv_def ready_def view_of_def tables_of_def)

lemma cfs_open_forgets_missing_file_witness:
  "\<exists>w'. cfs_open (tdb_engine False) (memfs_kernel False) ''/a'' demo_fi demo_gone = Ret (- 2, demo_fi, w') \<and>
     store_inv td_tables w' \<and> fst (view_of td_tables w') = {} \<and> snd (view_of td_tables w') = {}"
proof -
  have "\<exists>w'. cfs_open (tdb_engine False) (memfs_kernel False) ''/a'' demo_fi demo_gone =
      Ret (- k_vfprintf (memfs_kernel False) (w_os demo_gone) (sr_errno (mf_err 2)), demo_fi, w') \<and>
    store_inv td_tables w' \<and> fst (view_of td_tables w') = fst (view_of td_tables demo_gone) - {''/a''} \<and>
    snd (view_of td_tables w') = {x \<in> snd (view_of td_tables demo_gone). fst x \<noteq> ''/a''}"
    by (rule cfs_open_forgets_missing_file [OF rel.sqlite_reliable_axioms demo_gone_store(1,2) demo_name])
      (simp_all add: demo_gone_def demo_world_def demo_fs_def PATH_MAX_def mf_lookup_def mf_err_def mf_ok_def
        memfs_kernel_def)
  then show ?thesis
    by (simp add: demo_gone_store(3) memfs_kernel_def mf_err_def) fastforce
qed


text \<open>
  C3: opening a file that the NAS has returns a handle on it and never takes blocks from a
  copy older than the NAS file: afterwards the file has a row, and its recorded blocks are the
  ones of before only if the cached copy was last changed no earlier than the NAS file;
  otherwise it has none. Other files keep their blocks.
\<close>

theorem cfs_open_forgets_stale_copy:
  assumes "sqlite_reliable E tabs stmts" "store_inv tabs w" "ready tabs w" "cfs_pathToFileName path = Ret fn"
    and "length (nasdir (w_cfs w)) + length path < PATH_MAX" "length (cachedir (w_cfs w)) + length fn < PATH_MAX"
    and "k_sys K (Open (nasdir (w_cfs w) @ path) (nas_flags (fi_flags fi)) None) (w_os w) = (s1, os1)"
    and "0 \<le> c_int (sr_ret s1)"
    and "k_sys K (Lstat (nasdir (w_cfs w) @ path)) os1 = (s2, os2)"
    and "k_sys K (Lstat (cachedir (w_cfs w) @ fn)) os2 = (s3, os3)"
  shows "\<exists>ret fi' h w'. cfs_open E K path fi w = Ret (ret, fi', w') \<and> get_handle fi' w' = Ret h \<and>
    nasFH h = word_of_int (c_int (sr_ret s1)) \<and> store_inv tabs w' \<and> ready tabs w' \<and>
    view_of tabs w' =
      (if fn \<in> fst (view_of tabs w) \<and> st_mtime (sr_stat s2) \<le> st_mtime (sr_stat s3) then view_of tabs w
       else (insert fn (fst (view_of tabs w)), {x \<in> snd (view_of tabs w). fst x \<noteq> fn}))"
  using assms by (rule sqlite_reliable.open_present)

text \<open>The demo file changed on the NAS after it was cached.\<close>

definition demo_stale :: "(tdb, memfs) world" where
  "demo_stale = (demo_world [] [])\<lparr>w_os := (demo_fs [])\<lparr>mf_mtimes := [(1, 8), (2, 7)]\<rparr>\<rparr>"

lemma demo_stale_store:
  "store_inv td_tables demo_stale" "ready td_tables demo_stale" "view_of td_tables demo_stale = ({''/a''}, {(''/a'', 0)})"
  using demo_world_inv [of "[]" "[]"] demo_world_ready [of "[]" "[]"] demo_world_view [of "[]" "[]"]
  by (simp_all add: demo_stale_def store_inv_def ready_def view_of_def tables_of_def)

lemma demo_stale_calls:
  "memfs_sys False (Open (nasdir (w_cfs demo_stale) @ ''/a'') (nas_flags (fi_flags demo_fi)) None) (w_os demo_stale) =
     (mf_ok 5, (w_os demo_stale)\<lparr>mf_fds := [(5, 1), (3, 1), (4, 2)]\<rparr>)"
  "map_prod (st_mtime \<circ> sr_stat) id (memfs_sys False (Lstat (nasdir (w_cfs demo_stale) @ ''/a''))
     ((w_os demo_stale)\<lparr>mf_fds := [(5, 1), (3, 1), (4, 2)]\<rparr>)) = (8, (w_os demo_stale)\<lparr>mf_fds := [(5, 1), (3, 1), (4, 2)]\<rparr>)"
  "map_prod (st_mtime \<circ> sr_stat) id (memfs_sys False (Lstat (cachedir (w_cfs demo_stale) @ ''/a''))
     ((w_os demo_stale)\<lparr>mf_fds := [(5, 1), (3, 1), (4, 2)]\<rparr>)) = (7, (w_os demo_stale)\<lparr>mf_fds := [(5, 1), (3, 1), (4, 2)]\<rparr>)"
  by code_simp+

lemma cfs_open_forgets_stale_copy_witness:
  "\<exists>ret fi' h w'. cfs_open (tdb_engine False) (memfs_kernel False) ''/a'' demo_fi demo_stale = Ret (ret, fi', w') \<and>
     get_handle fi' w' = Ret h \<and> view_of td_tables w' = ({''/a''}, {})"
proof -
  let ?os = "(w_os demo_stale)\<lparr>mf_fds := [(5, 1), (3, 1), (4, 2)]\<rparr>"
  obtain s2 s3 where k: "memfs_sys False (Lstat (nasdir (w_cfs demo_stale) @ ''/a'')) ?os = (s2, ?os)"
    "memfs_sys False (Lstat (cachedir (w_cfs demo_stale) @ ''/a'')) ?os = (s3, ?os)"
    and t: "st_mtime (sr_stat s2) = 8" "st_mtime (sr_stat s3) = 7"
    using demo_stale_calls(2,3)
    by (cases "memfs_sys False (Lstat (nasdir (w_cfs demo_stale) @ ''/a'')) ?os";
        cases "memfs_sys False (Lstat (cachedir (w_cfs demo_stale) @ ''/a'')) ?os") simp
  note ks = demo_stale_calls(1) k
  note ks = ks [folded memfs_kernel_sys [of False]]
  have "\<exists>ret fi' h w'. cfs_open (tdb_engine False) (memfs_kernel False) ''/a'' demo_fi demo_stale = Ret (ret, fi', w') \<and>
    get_handle fi' w' = Ret h \<and> nasFH h = word_of_int (c_int (sr_ret (mf_ok 5))) \<and> store_inv td_tables w' \<and>
    ready td_tables w' \<and> view_of td_tables w' =
      (if ''/a'' \<in> fst (view_of td_tables demo_stale) \<and> st_mtime (sr_stat s2) \<le> st_mtime (sr_stat s3)
       then view_of td_tables demo_stale
       else (insert ''/a'' (fst (view_of td_tables demo_stale)),
             {x \<in> snd (view_of td_tables demo_stale). fst x \<noteq> ''/a''}))"
    by (rule cfs_open_forgets_stale_copy [OF rel.sqlite_reliable_axioms demo_stale_store(1,2) demo_name
          _ _ ks(1) _ ks(2,3)])
      (simp_all add: demo_stale_def demo_world_def PATH_MAX_def)
  then show ?thesis
    by (force simp: demo_stale_store(3) t)
qed

text \<open>
  A system call made through \<open>log_syscall\<close> returns the value of the call, or, when it is
  negative, minus the error number as the messages to the log have left it: it is the error of
  the call exactly as far as writing to the log keeps \<open>errno\<close>.
\<close>

theorem log_syscall_errno:
  assumes "k_sys K c (w_os w) = (s, os')" "sys_log K c w = (r, s', w')"
  shows "s' = s \<and> w_os w' = os' \<and>
    r = (if c_int (sr_ret s) < 0 then - k_vfprintf K os' (sr_errno s) else c_int (sr_ret s))"
  by (intro conjI sys_log_result [OF assms(2,1)] sys_log_result(1) [OF assms(2,1), symmetric])

lemma log_syscall_errno_witness:
  "fst (sys_log (memfs_kernel False) (Unlink ''/nas/b'') (demo_world [] [])) = - 2"
proof -
  let ?K = "memfs_kernel False" and ?c = "Unlink ''/nas/b''" and ?w = "demo_world [] []"
  have k: "k_sys ?K ?c (w_os ?w) = (mf_err 2, w_os ?w)"
    by (simp add: demo_world_def demo_fs_def mf_lookup_def)
  obtain r s w' where l: "sys_log ?K ?c ?w = (r, s, w')" by (cases "sys_log ?K ?c ?w") auto
  have "k_vfprintf ?K os e = e" for os e by (simp add: memfs_kernel_def)
  then have "r = - 2"
    using log_syscall_errno [OF k l] by (simp add: mf_err_def mf_ok_def)
  with l show ?thesis by simp
qed

text \<open>
  \<open>cfs_release\<close> runs the shell command \<open>fallocate -d\<close> followed by the unquoted cache path,
  then closes the descriptor of the cache and that of the NAS, and frees the handle. The path
  is whatever name the user gave the file.
\<close>

theorem cfs_release_calls:
  assumes "get_handle fi w = Ret h" "cfs_pathToFileName path = Ret fn"
    and "length (cachedir (w_cfs w)) + length fn + 13 < PATH_MAX"
  shows "\<exists>r w'. cfs_release K path fi w = Ret (r, w') \<and> get_handle fi w' = Crash BadHandle \<and>
    w_trace w' = w_trace w @ [System (''fallocate -d '' @ cachedir (w_cfs w) @ fn),
      Close (fd_of (cacheFH h)), Close (fd_of (nasFH h))]"
proof -
  let ?w = "log_msg K (log_msg K (log_msg K (log_fi K (log_msg K w))))"
  let ?c = "''fallocate -d '' @ cachedir (w_cfs w) @ fn"
  obtain r1 s1 w1 where 1: "sys_log K (System ?c) ?w = (r1, s1, w1)" by (cases "sys_log K (System ?c) ?w") auto
  obtain r2 s2 w2 where 2: "sys_log K (Close (fd_of (cacheFH h))) w1 = (r2, s2, w2)"
    by (cases "sys_log K (Close (fd_of (cacheFH h))) w1") auto
  obtain r3 s3 w3 where 3: "sys_log K (Close (fd_of (nasFH h))) w2 = (r3, s3, w3)"
    by (cases "sys_log K (Close (fd_of (nasFH h))) w2") auto
  have "w_trace ?w = w_trace w" by simp
  then have tr: "w_trace w3 = w_trace w @ [System ?c, Close (fd_of (cacheFH h)), Close (fd_of (nasFH h))]"
    using sys_log_trace [OF 1] sys_log_trace [OF 2] sys_log_trace [OF 3] by simp
  have lg: "logged w (log_msg K (log_fi K (log_msg K w)))" by simp
  then have cfs: "w_cfs (log_msg K (log_fi K (log_msg K w))) = w_cfs w" by (simp add: logged_def)
  have cp: "cache_path K fn (log_msg K (log_fi K (log_msg K w))) =
      Ret (cachedir (w_cfs w) @ fn, log_msg K (log_msg K (log_fi K (log_msg K w))))"
    using cache_path_Ret [of "log_msg K (log_fi K (log_msg K w))" fn K] assms(3) cfs by simp
  have cmd: "obind (c_strcpy PATH_MAX ''fallocate -d '')
      (\<lambda>s. c_strncat PATH_MAX s (cachedir (w_cfs w) @ fn) PATH_MAX) = Ret ?c"
    using full_path_Ret [of PATH_MAX "''fallocate -d ''" "cachedir (w_cfs w) @ fn" ?c] assms(3) by simp
  have "cfs_release K path fi w = Ret (r3, free_handle fi w3)"
    using assms(1,2) cp cmd 1 2 3 by (simp add: cfs_release_def file_name_Ret)
  moreover have "get_handle fi (free_handle fi w3) = Crash BadHandle"
    by (simp add: free_handle_def get_handle_def)
  moreover have "w_trace (free_handle fi w3) = w_trace w3"
    by (simp add: free_handle_def)
  ultimately show ?thesis using tr by auto
qed

lemma cfs_release_calls_witness:
  "\<exists>r w'. cfs_release (memfs_kernel False) ''/a;reboot'' demo_fi (demo_world [] []) = Ret (r, w') \<and>
     w_trace w' = [System ''fallocate -d /cache/a;reboot'', Close 4, Close 3]"
proof -
  have "cfs_pathToFileName ''/a;reboot'' = Ret ''/a;reboot''" by code_simp
  moreover have "get_handle demo_fi (demo_world [] []) = Ret \<lparr>nasFH = 3, cacheFH = 4\<rparr>"
    by (simp add: get_handle_def demo_fi_def demo_world_def)
  ultimately show ?thesis
    using cfs_release_calls [of demo_fi "demo_world [] []" "\<lparr>nasFH = 3, cacheFH = 4\<rparr>" "''/a;reboot''" _
        "memfs_kernel False"]
    by (auto simp: demo_world_def PATH_MAX_def fd_of_def c_int_def)
qed

end
