(* ===== verification/Mount_Properties.thy ===== *)
theory Mount_Properties
  imports Cfs_Properties
begin

text \<open>
  The properties of mounting, of renaming and of listing directories.
\<close>

section \<open>Starting\<close>

text \<open>
  C13: mounting again on the database of an earlier mount with the same block size recovers
  the whole invariant of the metadata: foreign keys are enforced, \<open>cache_used_size\<close> is the sum
  that the tables charge, and exactly the files and blocks of the database are known.
\<close>

theorem start_metadata_recovers:
  assumes "sqlite_reliable E tabs stmts" "sq_open E name = (0, d0)" "wf_tables (tabs d0)" "has_files (tabs d0)"
    and "has_datablocks (tabs d0)" "files (tabs d0) \<noteq> []" "accounted (c_int64 bs) (tabs d0)"
    and "0 \<le> total_local (tabs d0)" "total_local (tabs d0) < 2 ^ 63"
  shows "\<exists>m'. start_metadata E name bs m = Ret m' \<and> store_inv tabs m' \<and> ready tabs m' \<and>
    meta_block_size m' = bs \<and> view_of tabs m' = cache_view (tabs d0)"
  using assms by (rule sqlite_reliable.start_existing)

lemma start_metadata_recovers_witness:
  "\<exists>m'. start_metadata ((tdb_engine False)\<lparr>sq_open := \<lambda>_. (0, metaDataBase (demo_world [] []))\<rparr>) ''db'' 4
      ((demo_world [] [])\<lparr>cache_used_size := 99\<rparr>) = Ret m' \<and> store_inv td_tables m' \<and> ready td_tables m' \<and>
    meta_block_size m' = 4 \<and> view_of td_tables m' = cache_view cfs_demo_tables"
proof -
  have t: "td_tables (metaDataBase (demo_world [] [])) = cfs_demo_tables" by (simp add: demo_world_def)
  have "wf_tables cfs_demo_tables" "accounted (c_int64 4) cfs_demo_tables"
    using demo_world_inv [of "[]" "[]"] t by (simp_all add: store_inv_def tables_of_def demo_world_def)
  moreover have "has_files cfs_demo_tables" "has_datablocks cfs_demo_tables" "files cfs_demo_tables \<noteq> []"
    "total_local cfs_demo_tables = 4"
    by (simp_all add: cfs_demo_tables_def total_local_def)
  ultimately show ?thesis
    using start_metadata_recovers [OF sqlite_reliable_open [OF rel.sqlite_reliable_axioms,
          of "\<lambda>_. (0, metaDataBase (demo_world [] []))"], of _ "metaDataBase (demo_world [] [])" 4]
    by (simp add: t)
qed

text \<open>
  the cache is never sized above what the user asked for nor above the space that the
  file system has available, and when more than 100 KB are available 100 KB stay free.
\<close>

theorem limit_cache_size_bounds:
  "limit_cache_size userSize avail \<le> userSize \<and> limit_cache_size userSize avail \<le> avail \<and>
   (avail > 100 \<longrightarrow> limit_cache_size userSize avail \<le> avail - 100)"
proof -
  have "avail - 100 \<le> avail" if "avail > 100"
    using that by (intro word_sub_le) simp
  then show ?thesis
    by (auto simp: limit_cache_size_def)
qed

lemma limit_cache_size_bounds_witness:
  "limit_cache_size 5000 1000 \<le> (900 :: size_t)"
  using limit_cache_size_bounds [of 5000 1000] by simp

text \<open>
  run by root, or with the effective user root, \<open>main\<close> returns 1 and has done nothing but
  ask for the user: the metadata is not opened and FUSE is not called.
\<close>

theorem cfs_main_refuses_root:
  assumes "k_sys K Getuid (w_os w) = (s1, os1)" "k_sys K Geteuid os1 = (s2, os2)"
    and "sr_ret s1 = 0 \<or> sr_ret s2 = 0"
  shows "\<exists>w'. cfs_main E K junk argv w = Ret (1, w') \<and> metaDataBase w' = metaDataBase w \<and>
    set (w_trace w') \<subseteq> set (w_trace w) \<union> {Getuid, Geteuid}"
  using assms by (cases "sr_ret s1 = 0") (auto simp: cfs_main_def sys_def Let_def)

definition root_kernel :: "memfs kernel" where
  "root_kernel = (memfs_kernel False)\<lparr>k_sys := \<lambda>c m. if c = Geteuid then (mf_ok 0, m) else memfs_sys False c m\<rparr>"

lemma cfs_main_refuses_root_witness:
  "\<exists>w'. cfs_main (tdb_engine False) root_kernel 0 [] (demo_world [] []) = Ret (1, w')"
  using cfs_main_refuses_root [of root_kernel "demo_world [] []" "mf_ok 1000" "demo_fs []" "mf_ok 0" "demo_fs []"
      "tdb_engine False" 0 "[]"]
  by (auto simp: root_kernel_def demo_world_def)


lemma meta_trace:
  "open_db E f w = Ret (r, w') \<Longrightarrow> w_trace (w' :: ('db, 'os) world) = w_trace w"
  "run_callbacks out w = Ret w' \<Longrightarrow> w_trace w' = w_trace w"
proof -
  show "w_trace w' = w_trace w" if "open_db E f w = Ret (r, w')"
    using that by (auto simp: open_db_def split: prod.splits if_splits)
  show "w_trace w' = w_trace w" if "run_callbacks out w = Ret w'"
    using that by (induction out arbitrary: w)
      (auto simp: callback_def obind_eq_Ret split: if_splits option.splits)
qed

lemma start_metadata_trace:
  assumes "start_metadata E f bs w = Ret w'"
  shows "w_trace (w' :: ('db, 'os) world) = w_trace w"
proof -
  obtain r1 w1 r2 w2 where o: "open_db E f w = Ret (r1, w1)" "create_tables E w1 = Ret (r2, w2)"
    "init_cache_used_size E (set_block_size bs w2) = Ret w'"
    using assms by (auto simp: start_metadata_def obind_eq_Ret)
  have "w_trace w2 = w_trace w1"
    using o(2) by (auto simp: create_tables_def obind_eq_Ret dest!: meta_trace(2) split: prod.splits if_splits)
  moreover have "w_trace w' = w_trace w2"
    using o(3) by (auto simp: init_cache_used_size_def set_block_size_def dest!: meta_trace(2) split: prod.splits)
  ultimately show ?thesis using meta_trace(1) [OF o(1)] by simp
qed

lemma sys_trace: "sys K c w = (s, w') \<Longrightarrow> set (w_trace w') = insert c (set (w_trace w))"
  using sys_fields [of K c w s w'] by auto

lemma log_open_trace: "log_open K w = Ret w' \<Longrightarrow> set (w_trace w') = insert (Fopen ''cachefs.log'') (set (w_trace w))"
  by (auto simp: log_open_def dest!: sys_trace split: prod.splits if_splits)

definition fused :: "('db, 'os) world \<Rightarrow> string list set" where
  "fused w = {args. Fuse_main args \<in> set (w_trace w)}"

lemma post_sys_fused:
  assumes "fused w = A" "\<And>args. c \<noteq> Fuse_main args" "\<And>s w'. fused w' = A \<Longrightarrow> post Q (f s w')"
  shows "post Q (case sys K c w of (s, w) \<Rightarrow> f s w)"
proof -
  obtain s w' where c: "sys K c w = (s, w')" by fastforce
  then have "fused w' = A"
    using assms(1,2) by (auto simp: fused_def sys_trace)
  with assms(3) c show ?thesis by simp
qed

lemma post_euid_fused:
  assumes "fused w = A" "\<And>s w'. fused w' = A \<Longrightarrow> post Q (f s w')"
  shows "post Q (case (if b then (u, w) else sys K Geteuid w) of (s, w) \<Rightarrow> f s w)"
  using assms post_sys_fused [OF assms(1), of Geteuid Q f K] by auto

lemma post_starts_fused:
  assumes "fused w = A" "\<And>w'. fused w' = A \<Longrightarrow> post Q (f w')"
  shows "post (\<lambda>x. post Q (f x)) (log_open K w)" "post (\<lambda>x. post Q (f x)) (start_metadata E file bs w)"
proof -
  have "fused w' = A" if "log_open K w = Ret w' \<or> start_metadata E file bs w = Ret w'" for w'
    using that assms(1) by (auto simp: fused_def dest: log_open_trace start_metadata_trace)
  with assms(2) show "post (\<lambda>x. post Q (f x)) (log_open K w)"
    "post (\<lambda>x. post Q (f x)) (start_metadata E file bs w)"
    by (auto simp: post_def)
qed

text \<open>
  Whatever \<open>main\<close> passes to FUSE, it is the program name and one more argument, and it
  does so only with at least five arguments of its own: with exactly five the second one is the
  mount directory, with more it is the first option, and the mount directory is lost.
\<close>

theorem cfs_main_fuse_arguments:
  assumes "cfs_main E K junk argv w = Ret (r, w')" "Fuse_main args \<in> set (w_trace w')"
    and "Fuse_main args \<notin> set (w_trace w)"
  shows "6 \<le> length argv \<and> args = [argv ! 0, if length argv = 6 then argv ! 4 else argv ! 1]"
proof -
  let ?n = "length argv" and ?args = "take 2 (argv[length argv - 5 := argv ! (length argv - 2)])"
  have take2: "take 2 xs = [xs ! 0, xs ! 1]" if "2 \<le> length xs" for xs :: "string list"
    using that by (cases xs; cases "tl xs") auto
  let ?Q = "\<lambda>(r, w'). fused w' \<subseteq> fused w \<or> 6 \<le> ?n \<and> fused w' \<subseteq> insert ?args (fused w)"
  have last: "post ?Q (case sys K (Fuse_main ?args) v of (s, w) \<Rightarrow> Ret (c_int (sr_ret s), w))"
    if "fused v = fused w" "6 \<le> ?n" for v
    using that by (cases "sys K (Fuse_main ?args) v") (auto simp: fused_def sys_trace)
  have "post ?Q (cfs_main E K junk argv w)"
    unfolding cfs_main_def Let_def cfs_usage_def
    by (rule post_sys_fused post_euid_fused last post_if post_intros post_obind post_starts_fused post_strings
          | (simp add: fused_def; fail) | (auto; fail))+
  with assms have "6 \<le> ?n \<and> args = ?args"
    by (auto simp: post_def fused_def)
  then show ?thesis
    by (auto simp: take2 nth_list_update)
qed


lemma demo_start: "\<exists>w'. start_metadata (tdb_engine False) f bs w = Ret w'"
  by (simp add: start_metadata_def open_db_def tdb_engine_def td_open_def create_tables_def set_block_size_def
      init_cache_used_size_def no_tables_def callback_rows_def callback_def)

lemma demo_main:
  fixes w :: "(tdb, memfs) world"
  shows "\<exists>r w'. cfs_main (tdb_engine False) (memfs_kernel False) 0
        [''cachefs'', ''-d'', ''1'', ''4'', ''/nas'', ''/mnt'', ''/cache''] w = Ret (r, w') \<and>
      Fuse_main [''cachefs'', ''-d''] \<in> set (w_trace w')"
proof -
  let ?K = "memfs_kernel False"
  define g where "g f bs v = (case start_metadata (tdb_engine False) f bs v of Ret v' \<Rightarrow> v' | _ \<Rightarrow> v)"
    for f bs and v :: "(tdb, memfs) world"
  define lo where "lo v = (case log_open ?K v of Ret v' \<Rightarrow> v' | _ \<Rightarrow> v)" for v :: "(tdb, memfs) world"
  have g: "start_metadata (tdb_engine False) f bs v = Ret (g f bs v)" for f bs v
    using demo_start [of f bs v] by (auto simp: g_def)
  have lo: "log_open ?K v = Ret (lo v)" for v
    by (simp add: lo_def log_open_def sys_def mf_ok_def)
  obtain s1 w1 where 1: "sys ?K Getuid w = (s1, w1)" by fastforce
  obtain s2 w2 where 2: "sys ?K Geteuid w1 = (s2, w2)" by fastforce
  obtain s3 w3 where 3: "sys ?K (Realpath ''/nas'') w2 = (s3, w3)" by fastforce
  obtain s4 w4 where 4: "sys ?K (Realpath ''/cache'') w3 = (s4, w4)" by fastforce
  obtain s5 w5 where 5: "sys ?K (Statvfs (sr_text s4)) w4 = (s5, w5)" by fastforce
  have r: "sr_ret s1 = 1000" "sr_ret s2 = 1000" "sr_ret s4 = 1" "sr_text s4 = ''/cache''"
    using sys_fields [OF 1] sys_fields [OF 2] sys_fields [OF 4] by (auto simp: mf_ok_def)
  have last: "Fuse_main a \<in> set (w_trace (snd (sys ?K (Fuse_main a) v)))" for a and v :: "(tdb, memfs) world"
    using sys_trace [of ?K "Fuse_main a" v] by (cases "sys ?K (Fuse_main a) v") auto
  have name: "obind (c_strcpy PATH_MAX ''/cache'') (\<lambda>s. c_strncat PATH_MAX s ''/Metadata-File.db'' PATH_MAX) =
      Ret ''/cache/Metadata-File.db''"
    using full_path_Ret [of PATH_MAX "''/cache''" "''/Metadata-File.db''" "''/cache/Metadata-File.db''"]
    by (simp add: PATH_MAX_def)
  show ?thesis
    using 5 by (simp add: cfs_main_def Let_def starts_with_hyphen_def 1 2 3 4 r g lo name take_Cons' split_beta last)
qed

lemma cfs_main_fuse_arguments_witness:
  "6 \<le> length [''cachefs'', ''-d'', ''1'', ''4'', ''/nas'', ''/mnt'', ''/cache''] \<and>
   [''cachefs'', ''-d''] = [''cachefs'', [''cachefs'', ''-d'', ''1'', ''4'', ''/nas'', ''/mnt'', ''/cache''] ! 1]"
proof -
  let ?argv = "[''cachefs'', ''-d'', ''1'', ''4'', ''/nas'', ''/mnt'', ''/cache'']"
  obtain r w' where m: "cfs_main (tdb_engine False) (memfs_kernel False) 0 ?argv (demo_world [] []) = Ret (r, w')"
    and t: "Fuse_main [''cachefs'', ''-d''] \<in> set (w_trace w')"
    using demo_main by blast
  have "Fuse_main [''cachefs'', ''-d''] \<notin> set (w_trace (demo_world [] []))"
    by (simp add: demo_world_def)
  from cfs_main_fuse_arguments [OF m t this] show ?thesis by simp
qed

section \<open>Renaming\<close>

text \<open>
  renaming a file renames it in the cache directory and on the NAS, but leaves the
  metadata as it is: the rows and blocks stay under the old name, and the new name is as
  unknown as before.
\<close>

theorem cfs_rename_keeps_metadata:
  assumes "cfs_rename K path newpath w = Ret (r, w')" "cfs_pathToFileName path = Ret fn"
    and "cfs_pathToFileName newpath = Ret fn'"
  shows "view_of tabs w' = view_of tabs w \<and>
    w_trace w' = w_trace w @ [Rename (cachedir (w_cfs w) @ fn) (cachedir (w_cfs w) @ fn'),
      Rename (nasdir (w_cfs w) @ path) (nasdir (w_cfs w) @ newpath)]"
proof -
  let ?c1 = "Rename (cachedir (w_cfs w) @ fn) (cachedir (w_cfs w) @ fn')"
  let ?c2 = "Rename (nasdir (w_cfs w) @ path) (nasdir (w_cfs w) @ newpath)"
  let ?w = "(log_msg K ^^ 7) w"
  have cfs: "w_cfs (log_msg K v) = w_cfs v" for v :: "('a, 'b) world"
    by (simp add: log_msg_def)
  have np: "nas_path K p v = Ret (q, v') \<longleftrightarrow>
      q = nasdir (w_cfs v) @ p \<and> v' = log_msg K v \<and> length (nasdir (w_cfs v)) + length p < PATH_MAX"
    and cp: "cache_path K p v = Ret (q, v') \<longleftrightarrow>
      q = cachedir (w_cfs v) @ p \<and> v' = log_msg K v \<and> length (cachedir (w_cfs v)) + length p < PATH_MAX"
    for p q and v v' :: "('a, 'b) world"
    by (auto simp: nas_path_def cache_path_def cfs_fullNasPath_def cfs_fullCachePath_def obind_eq_Ret)
  obtain r1 s1 w1 where 1: "sys_log K ?c1 ?w = (r1, s1, w1)" by (cases "sys_log K ?c1 ?w") auto
  obtain r2 s2 w2 where 2: "sys_log K ?c2 w1 = (r2, s2, w2)" by (cases "sys_log K ?c2 w1") auto
  have "w' = w2"
    using assms 1 2
    by (auto simp: cfs_rename_def obind_eq_Ret np cp cfs file_name_Ret numeral_eq_Suc)
  moreover have "w_trace ?w = w_trace w \<and> logged w ?w"
    by (simp add: numeral_eq_Suc)
  ultimately show ?thesis
    using sys_log_store [OF 1] sys_log_store [OF 2] logged_store(4) [of w ?w] sys_log_trace [OF 1] sys_log_trace [OF 2]
    by simp
qed

lemma cfs_rename_keeps_metadata_witness:
  "\<exists>r w'. cfs_rename (memfs_kernel False) ''/a'' ''/b'' (demo_world [] []) = Ret (r, w') \<and>
     view_of td_tables w' = ({''/a''}, {(''/a'', 0)})"
proof -
  have "seen fst (cfs_rename (memfs_kernel False) ''/a'' ''/b'' (demo_world [] [])) = Ret 0"
    by code_simp
  then obtain w' where r: "cfs_rename (memfs_kernel False) ''/a'' ''/b'' (demo_world [] []) = Ret (0, w')"
    by (auto simp: seen_def obind_eq_Ret)
  have "cfs_pathToFileName ''/b'' = Ret ''/b''" by code_simp
  from cfs_rename_keeps_metadata [OF r demo_name this, of td_tables] r show ?thesis
    by (simp add: demo_world_view)
qed

section \<open>Listing a directory\<close>

text \<open>
  C15: on a directory stream that delivers its entries one by one and ends, \<open>cfs_readdir\<close>
  always returns. When there are entries, it hands them to the filler in order and stops
  exactly when the filler refuses one: either it returns 0, all entries have been handed over
  and the filler has answered 0 to each; or it returns \<open>-ENOMEM\<close>, the names handed over are the
  first ones of the stream, and the filler has answered 0 to all of them but the last.
\<close>

theorem cfs_readdir_lists_all:
  assumes "dir_streams K entries"
  shows "\<exists>r w' cs. cfs_readdir K fi w = Ret (r, w') \<and> w_trace w' = w_trace w @ cs \<and>
     (entries (w_os w) (fi_fh fi) \<noteq> [] \<longrightarrow> listed (entries (w_os w) (fi_fh fi)) (offered K cs (w_os w)) r)"
  using dir_streams.readdir_returns [OF assms] .

lemma memfs_accepts: "\<forall>x \<in> set (offered (memfs_kernel False) cs os). snd x = 0"
proof (induction cs arbitrary: os)
  case (Cons c cs)
  obtain s os' where k: "memfs_sys False c os = (s, os')" by fastforce
  then have "sr_ret s = 0" if "c = Filler n" for n
    using that by auto
  with k Cons.IH [of os'] show ?case by (auto split: syscall.split)
qed simp

lemma cfs_readdir_lists_all_witness:
  "\<exists>w'. cfs_readdir (memfs_kernel False) \<lparr>fi_flags = 0, fi_fh = 9\<rparr> (demo_world [] []) = Ret (0, w') \<and>
     map fst (offered (memfs_kernel False) (w_trace w') (demo_fs [])) = [''x'', ''y'']"
proof -
  have w: "w_os (demo_world [] []) = demo_fs []" "w_trace (demo_world [] []) = []"
    "mf_entries (demo_fs []) 9 = [''x'', ''y'']"
    by (simp_all add: demo_world_def demo_fs_def mf_entries_def)
  from cfs_readdir_lists_all [OF listing.dir_streams_axioms, of False "\<lparr>fi_flags = 0, fi_fh = 9\<rparr>" "demo_world [] []"]
  obtain r w' where "cfs_readdir (memfs_kernel False) \<lparr>fi_flags = 0, fi_fh = 9\<rparr> (demo_world [] []) = Ret (r, w')"
    "listed [''x'', ''y''] (offered (memfs_kernel False) (w_trace w') (demo_fs [])) r"
    by (auto simp: w)
  with memfs_accepts [of "w_trace w'" "demo_fs []"] show ?thesis
    by (auto simp: listed_def)
qed

end
