(* ===== verification/Load_Api.thy ===== *)
theory Load_Api
  imports Cfs_Prelude
begin

text \<open>
  What the programs of the example load under \<open>example/\<close> run on: the system calls of the
  spreadsheet writer \<open>libbif.c\<close> and of the file-operation benchmark \<open>fileop.c\<close>, and what they
  use of the machine. As for the file system itself, the system is a parameter, an arbitrary
  function of the call and its own state. The world keeps the calls made, for the theorems to
  speak of them; no definition reads them.
\<close>

section \<open>Calls\<close>

datatype (plugins only: code size) load_call =
    L_unlink string
  | L_open string int "int option"
  | L_creat string int
  | L_read int int
  | L_write int "byte list"
  | L_fsync int
  | L_close int
  | L_mkdir string int
  | L_rmdir string
  | L_chdir string
  | L_getcwd nat
  | L_stat string
  | L_access string int
  | L_chmod string int
  | L_link string string
  | L_opendir string
  | L_readdir int
  | L_closedir int
  | L_system string
  | L_sleep int
  | L_gettimeofday

text \<open>
  The answer to a call: its value (for a pointer the address, 0 for NULL), the bytes it stored
  into the buffer of the caller, and the time, in seconds and microseconds.
\<close>

record load_ret =
  lr_ret :: int
  lr_data :: "byte list"
  lr_text :: string
  lr_sec :: int
  lr_usec :: int

text \<open>
  \<open>lk_junk\<close> is what an uninitialised object holds; \<open>lk_llong\<close> and \<open>lk_double\<close> are the bytes of a
  \<open>long long\<close> and of a \<open>double\<close>, given by its IEEE representation, in the order of memory.
\<close>

record 'os machine =
  lk_sys :: "load_call \<Rightarrow> 'os \<Rightarrow> load_ret \<times> 'os"
  lk_junk :: "nat \<Rightarrow> byte"
  lk_llong :: "64 word \<Rightarrow> byte list"
  lk_double :: "64 word \<Rightarrow> byte list"

record 'os load =
  l_os :: 'os
  l_trace :: "load_call list"

definition lsys :: "('os, 'a) machine_scheme \<Rightarrow> load_call \<Rightarrow> ('os, 'w) load_scheme
    \<Rightarrow> load_ret \<times> ('os, 'w) load_scheme" where
  "lsys K c w = (case lk_sys K c (l_os w) of (r, os) \<Rightarrow> (r, w\<lparr>l_os := os, l_trace := l_trace w @ [c]\<rparr>))"

text \<open>A call whose value the program stores in its variable \<open>junk\<close>, or drops.\<close>

definition lcall :: "('os, 'a) machine_scheme \<Rightarrow> load_call \<Rightarrow> ('os, 'w) load_scheme \<Rightarrow> ('os, 'w) load_scheme" where
  "lcall K c w = snd (lsys K c w)"

lemma lsys_trace [simp]:
  "l_trace (snd (lsys K c w)) = l_trace w @ [c]"
  "l_trace (lcall K c w) = l_trace w @ [c]"
  by (simp_all add: lcall_def lsys_def split: prod.split)

lemma lsys_os [simp]:
  "l_os (snd (lsys K c w)) = snd (lk_sys K c (l_os w))"
  "l_os (lcall K c w) = snd (lk_sys K c (l_os w))"
  "fst (lsys K c w) = fst (lk_sys K c (l_os w))"
  by (simp_all add: lcall_def lsys_def split: prod.split)

section \<open>What was written to a descriptor\<close>

fun written_by :: "int \<Rightarrow> load_call \<Rightarrow> byte list" where
  "written_by fd (L_write fd' bs) = (if fd' = fd then bs else [])"
| "written_by fd _ = []"

definition written :: "int \<Rightarrow> load_call list \<Rightarrow> byte list" where
  "written fd cs = concat (map (written_by fd) cs)"

lemma written_simps [simp]:
  "written fd [] = []"
  "written fd (c # cs) = written_by fd c @ written fd cs"
  "written fd (cs @ ds) = written fd cs @ written fd ds"
  by (simp_all add: written_def)

end
