(* ===== verification/Xls_Writer.thy ===== *)
theory Xls_Writer
  imports Load_Api
begin

text \<open>
  \<open>example/iozone3_487/src/current/libbif.c\<close>: the writer of spreadsheets in Excel's BIFF2 format.
  A worksheet is a file of records; every routine fills in a C structure and writes its memory.
  An \<open>int\<close> is a 32-bit word, a \<open>short\<close> a 16-bit one, a \<open>char\<close> a byte that is promoted with its
  sign. The records have only \<open>char\<close> fields and so no padding; of \<open>float_record\<close>, which has, the
  code writes the first eleven bytes and the number separately.
\<close>

unbundle bit_operations_syntax

section \<open>C integers\<close>

type_synonym int32 = "32 word"

definition c_short :: "int32 \<Rightarrow> 16 word" where
  "c_short x = ucast x"

definition c_char :: "int32 \<Rightarrow> byte" where
  "c_char x = ucast x"

definition short_int :: "16 word \<Rightarrow> int32" where
  "short_int x = scast x"

definition char_int :: "byte \<Rightarrow> int32" where
  "char_int x = scast x"

section \<open>Records\<close>

record bof_record =
  bof_hi_opcode :: byte
  bof_lo_opcode :: byte
  bof_hi_length :: byte
  bof_lo_length :: byte
  bof_hi_version :: byte
  bof_lo_version :: byte
  bof_hi_filetype :: byte
  bof_lo_filetype :: byte

record int_record =
  int_hi_opcode :: byte
  int_lo_opcode :: byte
  int_hi_length :: byte
  int_lo_length :: byte
  int_hi_row :: byte
  int_lo_row :: byte
  int_hi_column :: byte
  int_lo_column :: byte
  int_rgbhi :: byte
  int_rgbmed :: byte
  int_rgblo :: byte
  int_hi_data :: byte
  int_lo_data :: byte

record label_record =
  lab_hi_opcode :: byte
  lab_lo_opcode :: byte
  lab_hi_length :: byte
  lab_lo_length :: byte
  lab_hi_row :: byte
  lab_lo_row :: byte
  lab_hi_column :: byte
  lab_lo_column :: byte
  lab_rgbhi :: byte
  lab_rgbmed :: byte
  lab_rgblo :: byte
  lab_string_length :: byte
  lab_str_array :: "byte list"

record float_record =
  flt_hi_opcode :: byte
  flt_lo_opcode :: byte
  flt_hi_length :: byte
  flt_lo_length :: byte
  flt_hi_row :: byte
  flt_lo_row :: byte
  flt_hi_column :: byte
  flt_lo_column :: byte
  flt_rgbhi :: byte
  flt_rgbmed :: byte
  flt_rgblo :: byte
  flt_data :: "byte list"

text \<open>The memory of the records, in the order of their fields.\<close>

definition bof_memory :: "bof_record \<Rightarrow> byte list" where
  "bof_memory r = [bof_hi_opcode r, bof_lo_opcode r, bof_hi_length r, bof_lo_length r,
     bof_hi_version r, bof_lo_version r, bof_hi_filetype r, bof_lo_filetype r]"

definition int_memory :: "int_record \<Rightarrow> byte list" where
  "int_memory r = [int_hi_opcode r, int_lo_opcode r, int_hi_length r, int_lo_length r,
     int_hi_row r, int_lo_row r, int_hi_column r, int_lo_column r,
     int_rgbhi r, int_rgbmed r, int_rgblo r, int_hi_data r, int_lo_data r]"

definition label_memory :: "label_record \<Rightarrow> byte list" where
  "label_memory r = [lab_hi_opcode r, lab_lo_opcode r, lab_hi_length r, lab_lo_length r,
     lab_hi_row r, lab_lo_row r, lab_hi_column r, lab_lo_column r,
     lab_rgbhi r, lab_rgbmed r, lab_rgblo r, lab_string_length r] @ lab_str_array r"

definition float_memory :: "float_record \<Rightarrow> byte list" where
  "float_memory r = [flt_hi_opcode r, flt_lo_opcode r, flt_hi_length r, flt_lo_length r,
     flt_hi_row r, flt_lo_row r, flt_hi_column r, flt_lo_column r,
     flt_rgbhi r, flt_rgbmed r, flt_rgblo r]"

section \<open>Byte order\<close>

text \<open>
  \<open>endian\<close> looks at the bytes of two constants. \<open>ENDIAN_1\<close> to \<open>ENDIAN_4\<close> are the results 1 to 4.
\<close>

definition endian :: "('os, 'a) machine_scheme \<Rightarrow> int" where
  "endian K =
     (let foo = lk_llong K 0x0102030405060708;
          foo1 = lk_llong K 0x012345678
      in if take 8 foo = [0x08, 0x07, 0x06, 0x05, 0x04, 0x03, 0x02, 0x01] then 1
         else if take 8 foo = [0x01, 0x02, 0x03, 0x04, 0x05, 0x06, 0x07, 0x08] then 2
         else if take 8 foo = [0x04, 0x03, 0x02, 0x01, 0x08, 0x07, 0x06, 0x05] then 3
         else if take 4 foo1 = [0x34, 0x12, 0x78, 0x56] then 4
         else -1)"

section \<open>The writer\<close>

definition do_header :: "('os, 'a) machine_scheme \<Rightarrow> int \<Rightarrow> ('os, 'w) load_scheme \<Rightarrow> ('os, 'w) load_scheme" where
  "do_header K fd w =
     (let bof = \<lparr>bof_hi_opcode = 0x9, bof_lo_opcode = 0x0, bof_hi_length = 0x4, bof_lo_length = 0x0,
                 bof_hi_version = 0x2, bof_lo_version = 0x0, bof_hi_filetype = 0x10, bof_lo_filetype = 0x0\<rparr>
      in lcall K (L_write fd (bof_memory bof)) w)"

definition create_xls :: "('os, 'a) machine_scheme \<Rightarrow> string \<Rightarrow> ('os, 'w) load_scheme
    \<Rightarrow> (int \<times> ('os, 'w) load_scheme) outcome" where
  "create_xls K name w =
     (let w = lcall K (L_unlink name) w
      in case lsys K (L_open name 66 (Some 438)) w of (r, w) \<Rightarrow>
         let fd = lr_ret r
         in if fd < 0 then Exit (-1) else Ret (fd, do_header K fd w))"

definition do_int :: "('os, 'a) machine_scheme \<Rightarrow> int \<Rightarrow> int32 \<Rightarrow> int32 \<Rightarrow> int32
    \<Rightarrow> ('os, 'w) load_scheme \<Rightarrow> ('os, 'w) load_scheme" where
  "do_int K fd val row column w =
     (let s_row = c_short row;
          s_column = c_short column;
          intrec = \<lparr>int_hi_opcode = 0x2, int_lo_opcode = 0x00, int_hi_length = 0x09, int_lo_length = 0x00,
            int_hi_row = c_char (char_int (c_char (short_int s_row)) AND 0xff),
            int_lo_row = c_char (char_int (c_char (signed_drop_bit 8 (short_int s_row))) AND 0xff),
            int_hi_column = c_char (short_int s_column AND 0xff),
            int_lo_column = c_char (char_int (c_char (signed_drop_bit 8 (short_int s_column))) AND 0xff),
            int_rgbhi = 0x0, int_rgbmed = 0x0, int_rgblo = 0x0,
            int_hi_data = c_char (val AND 0xff),
            int_lo_data = c_char (signed_drop_bit 8 (val AND 0xff00))\<rparr>
      in lcall K (L_write fd (take 13 (int_memory intrec))) w)"

definition do_float :: "('os, 'a) machine_scheme \<Rightarrow> int \<Rightarrow> 64 word \<Rightarrow> int32 \<Rightarrow> int32
    \<Rightarrow> ('os, 'w) load_scheme \<Rightarrow> ('os, 'w) load_scheme" where
  "do_float K fd val row column w =
     (let s_row = c_short row;
          s_column = c_short column;
          floatrec = \<lparr>flt_hi_opcode = 0x3, flt_lo_opcode = 0x00, flt_hi_length = 0xf, flt_lo_length = 0x00,
            flt_hi_row = c_char (short_int s_row AND 0xff),
            flt_lo_row = c_char (signed_drop_bit 8 (short_int s_row) AND 0xff),
            flt_hi_column = c_char (short_int s_column AND 0xff),
            flt_lo_column = c_char (signed_drop_bit 8 (short_int s_column) AND 0xff),
            flt_rgbhi = 0x0, flt_rgbmed = 0x0, flt_rgblo = 0x0,
            flt_data = map (lk_junk K) [0..<8]\<rparr>;
          sptr = lk_double K val;
          floatrec = (if endian K = 2
            then floatrec\<lparr>flt_data := [sptr!7, sptr!6, sptr!5, sptr!4, sptr!3, sptr!2, sptr!1, sptr!0]\<rparr>
            else floatrec);
          floatrec = (if endian K = 3
            then floatrec\<lparr>flt_data := [sptr!4, sptr!5, sptr!6, sptr!7, sptr!0, sptr!1, sptr!2, sptr!3]\<rparr>
            else floatrec);
          floatrec = (if endian K = 1
            then floatrec\<lparr>flt_data := [sptr!0, sptr!1, sptr!2, sptr!3, sptr!4, sptr!5, sptr!6, sptr!7]\<rparr>
            else floatrec);
          floatrec = (if endian K = -1
            then floatrec\<lparr>flt_data := [0, 0, 0, 0, 0, 0, 0, 0]\<rparr>
            else floatrec);
          w = lcall K (L_write fd (float_memory floatrec)) w
      in lcall K (L_write fd (flt_data floatrec)) w)"

text \<open>
  The string is the array of the caller up to its terminator. It is returned, because a string
  that is too long is cut off in place. The last byte of \<open>str_array\<close> is not initialised by the
  loop; \<open>strcpy\<close> stores the string and its terminator.
\<close>

definition do_label :: "('os, 'a) machine_scheme \<Rightarrow> int \<Rightarrow> byte list \<Rightarrow> int32 \<Rightarrow> int32
    \<Rightarrow> ('os, 'w) load_scheme \<Rightarrow> (byte list \<times> ('os, 'w) load_scheme) outcome" where
  "do_label K fd str row column w =
     (let str_array = buf_put 0 (replicate 255 0) (map (lk_junk K) [0..<256]);
          s_row = c_short row;
          s_column = c_short column;
          i = length str;
          labelrec = \<lparr>lab_hi_opcode = 0x4, lab_lo_opcode = 0x00, lab_hi_length = 0x08, lab_lo_length = 0x01,
            lab_hi_row = c_char (short_int s_row AND 0xff),
            lab_lo_row = c_char (signed_drop_bit 8 (short_int s_row) AND 0xff),
            lab_hi_column = c_char (short_int s_column AND 0xff),
            lab_lo_column = c_char (signed_drop_bit 8 (short_int s_column) AND 0xff),
            lab_rgbhi = 0x0, lab_rgbmed = 0x0, lab_rgblo = 0x0,
            lab_string_length = of_nat i, lab_str_array = str_array\<rparr>;
          str = (if i > 255 then take 254 str else str)
      in if 256 \<le> length str then Crash BufferOverflow
         else let labelrec = labelrec\<lparr>lab_str_array := buf_put 0 (str @ [0]) (lab_str_array labelrec)\<rparr>
              in Ret (str, lcall K (L_write fd (label_memory labelrec)) w))"

definition do_eof :: "('os, 'a) machine_scheme \<Rightarrow> int \<Rightarrow> ('os, 'w) load_scheme \<Rightarrow> ('os, 'w) load_scheme" where
  "do_eof K fd w = lcall K (L_write fd [0x0a, 0x00, 0x00, 0x00]) w"

definition close_xls :: "('os, 'a) machine_scheme \<Rightarrow> int \<Rightarrow> ('os, 'w) load_scheme \<Rightarrow> ('os, 'w) load_scheme" where
  "close_xls K fd w = lcall K (L_close fd) (do_eof K fd w)"

end
