(* ===== verification/Xls_Reader.thy ===== *)
theory Xls_Reader
  imports Xls_Writer
begin

text \<open>
  The specification of the spreadsheet writer: a reader of BIFF2 streams, written from the
  format and not from the code, and the proof that it reads back what \<open>libbif.c\<close> writes. A
  stream is a sequence of records, each with an opcode and a length of two bytes, low byte
  first, and that many bytes of contents; it starts with a BOF record and ends with an EOF record.
\<close>

section \<open>The reader\<close>

datatype cell =
    Int_cell nat nat nat
  | Float_cell nat nat "64 word"
  | Label_cell nat nat "byte list"

datatype biff = Bof | Eof | Cell cell

definition u16 :: "byte \<Rightarrow> byte \<Rightarrow> nat" where
  "u16 lo hi = unat lo + 256 * unat hi"

definition le64 :: "64 word \<Rightarrow> byte list" where
  "le64 x = map (\<lambda>k. ucast (drop_bit (8 * k) x)) [0..<8]"

definition of_le64 :: "byte list \<Rightarrow> 64 word" where
  "of_le64 bs = foldr (\<lambda>b x. ucast b OR push_bit 8 x) bs 0"

fun read_payload :: "nat \<Rightarrow> byte list \<Rightarrow> biff option" where
  "read_payload opcode bs =
     (if opcode = 0x9 then (case bs of v0 # v1 # t0 # t1 # _ \<Rightarrow>
          if u16 v0 v1 = 2 \<and> u16 t0 t1 = 0x10 then Some Bof else None | _ \<Rightarrow> None)
      else if opcode = 0xa then Some Eof
      else (case bs of r0 # r1 # c0 # c1 # _ # _ # _ # data \<Rightarrow>
          if opcode = 0x2 \<and> length data = 2
          then Some (Cell (Int_cell (u16 r0 r1) (u16 c0 c1) (u16 (data ! 0) (data ! 1))))
          else if opcode = 0x3 \<and> length data = 8
          then Some (Cell (Float_cell (u16 r0 r1) (u16 c0 c1) (of_le64 data)))
          else if opcode = 0x4 \<and> data \<noteq> [] \<and> unat (hd data) < length data
          then Some (Cell (Label_cell (u16 r0 r1) (u16 c0 c1) (take (unat (hd data)) (tl data))))
          else None | _ \<Rightarrow> None))"

fun read_record :: "byte list \<Rightarrow> (biff \<times> byte list) option" where
  "read_record (o0 # o1 # l0 # l1 # bs) =
     (let n = u16 l0 l1
      in if length bs < n then None
         else map_option (\<lambda>r. (r, drop n bs)) (read_payload (u16 o0 o1) (take n bs)))"
| "read_record _ = None"

lemma read_record_shorter: "read_record bs = Some (r, bs') \<Longrightarrow> length bs' < length bs"
  by (cases bs rule: read_record.cases) (auto simp: Let_def split: if_splits)

function read_cells :: "byte list \<Rightarrow> cell list option" where
  "read_cells bs =
     (case read_record bs of
        Some (Cell c, bs') \<Rightarrow> map_option (\<lambda>cs. c # cs) (read_cells bs')
      | Some (Eof, bs') \<Rightarrow> if bs' = [] then Some [] else None
      | _ \<Rightarrow> None)"
  by pat_completeness auto
termination
  by (relation "measure length") (auto dest: read_record_shorter)

declare read_cells.simps [simp del]

definition read_sheet :: "byte list \<Rightarrow> cell list option" where
  "read_sheet bs =
     (case read_record bs of Some (Bof, bs') \<Rightarrow> read_cells bs' | _ \<Rightarrow> None)"

section \<open>Numbers in the records\<close>

lemma bit_masks:
  "bit (0xff :: int32) n \<longleftrightarrow> n < 8" "bit (0xff00 :: int32) n \<longleftrightarrow> 8 \<le> n \<and> n < 16"
proof -
  have *: "(0xff :: int32) = mask 8" "(0xff00 :: int32) = push_bit 8 (mask 8)"
    by (simp_all add: mask_eq_exp_minus_1)
  show "bit (0xff :: int32) n \<longleftrightarrow> n < 8" "bit (0xff00 :: int32) n \<longleftrightarrow> 8 \<le> n \<and> n < 16"
    by (simp_all only: * bit_mask_iff bit_push_bit_iff) auto
qed

lemma row_casts:
  "(ucast (x AND 0xff) :: byte) = ucast x"
  "(ucast (short_int (c_short x)) :: byte) = ucast x"
  "(ucast (signed_drop_bit 8 (short_int (c_short x))) :: byte) = ucast (drop_bit 8 x)"
  "(ucast (char_int y) :: byte) = y"
  "(ucast (signed_drop_bit 8 (x AND 0xff00)) :: byte) = ucast (drop_bit 8 x)"
  unfolding c_short_def short_int_def char_int_def
  by (rule bit_word_eqI, simp only: bit_masks bit_and_iff bit_drop_bit_eq o_apply
        bit_word_ucast_iff bit_word_scast_iff bit_signed_drop_bit_iff, auto)+

lemmas row_bytes = c_char_def row_casts

lemma u16_word: "u16 (ucast x) (ucast (drop_bit 8 x)) = unat (x :: int32) mod 65536"
proof -
  have "unat (ucast x :: byte) = unat x mod 256" "unat (ucast (drop_bit 8 x) :: byte) = unat x div 256 mod 256"
    by (simp_all add: unsigned_ucast_eq take_bit_eq_mod drop_bit_eq_div unat_div)
  then show ?thesis
    using mod_mult2_eq [of "unat x" 256 256] by (simp add: u16_def)
qed

lemma u16_consts [simp]:
  "u16 0 0 = 0" "u16 2 0 = 2" "u16 3 0 = 3" "u16 4 0 = 4" "u16 9 0 = 9" "u16 10 0 = 10" "u16 15 0 = 15"
  "u16 16 0 = 16" "u16 8 1 = 264"
  by (simp_all add: u16_def)

lemma bit_of_le64:
  "bit (of_le64 bs) n \<longleftrightarrow> n < 64 \<and> n div 8 < length bs \<and> bit (bs ! (n div 8)) (n mod 8)"
proof (induction bs arbitrary: n)
  case (Cons b bs)
  have "bit (of_le64 (b # bs)) n \<longleftrightarrow> n < 64 \<and> (if n < 8 then bit b n else bit (of_le64 bs) (n - 8))"
    using bit_imp_le_length [of b n] bit_imp_le_length [of "of_le64 bs" "n - 8"]
    by (auto simp: of_le64_def bit_or_iff bit_word_ucast_iff bit_push_bit_iff)
  with Cons.IH [of "n - 8"] show ?case
    by (cases "n < 8") (auto simp: le_div_geq le_mod_geq not_less)
qed (simp add: of_le64_def)

lemma of_le64_le64 [simp]: "of_le64 (le64 x) = x"
proof (rule bit_word_eqI)
  fix n assume "n < LENGTH(64)"
  then have "n div 8 < 8" "8 * (n div 8) + n mod 8 = n" 
    by (simp_all add: div_less_iff_less_mult)
  have "n mod 8 < 64"
    by (rule less_le_trans [OF mod_less_divisor]) simp_all
  with \<open>n div 8 < 8\<close> \<open>8 * (n div 8) + n mod 8 = n\<close> \<open>n < LENGTH(64)\<close> show "bit (of_le64 (le64 x)) n \<longleftrightarrow> bit x n"
    by (simp add: bit_of_le64 le64_def bit_word_ucast_iff bit_drop_bit_eq)
qed

lemma length_le64 [simp]: "length (le64 x) = 8"
  by (simp add: le64_def)

section \<open>What each routine writes\<close>

definition word16_bytes :: "int32 \<Rightarrow> byte list" where
  "word16_bytes x = [ucast x, ucast (drop_bit 8 x)]"

definition int_bytes :: "int32 \<Rightarrow> int32 \<Rightarrow> int32 \<Rightarrow> byte list" where
  "int_bytes x row col =
     [2, 0, 9, 0] @ word16_bytes row @ word16_bytes col @ [0, 0, 0] @ word16_bytes x"

definition float_bytes :: "byte list \<Rightarrow> int32 \<Rightarrow> int32 \<Rightarrow> byte list" where
  "float_bytes x row col = [3, 0, 15, 0] @ word16_bytes row @ word16_bytes col @ [0, 0, 0] @ x"

definition label_bytes :: "byte \<Rightarrow> byte list \<Rightarrow> int32 \<Rightarrow> int32 \<Rightarrow> byte list" where
  "label_bytes n arr row col =
     [4, 0, 8, 1] @ word16_bytes row @ word16_bytes col @ [0, 0, 0, n] @ arr"

lemma do_header_trace [simp]:
  "l_trace (do_header K fd w) = l_trace w @ [L_write fd [9, 0, 4, 0, 2, 0, 16, 0]]"
  by (simp add: do_header_def bof_memory_def)

lemma do_int_trace [simp]:
  "l_trace (do_int K fd x row col w) = l_trace w @ [L_write fd (int_bytes x row col)]"
  by (simp add: do_int_def Let_def int_memory_def row_bytes int_bytes_def word16_bytes_def)

lemma close_xls_trace [simp]:
  "l_trace (close_xls K fd w) = l_trace w @ [L_write fd [10, 0, 0, 0], L_close fd]"
  by (simp add: close_xls_def do_eof_def)

text \<open>
  The three byte orders that \<open>endian\<close> knows for numbers of 64 bits: an order of memory is the
  permutation of the bytes of the number, low byte first.
\<close>

definition layout_of :: "nat list \<Rightarrow> 64 word \<Rightarrow> byte list" where
  "layout_of p x = map (\<lambda>k. le64 x ! k) p"

definition supported :: "('os, 'a) machine_scheme \<Rightarrow> bool" where
  "supported K \<longleftrightarrow> lk_llong K = lk_double K \<and>
     (lk_double K = layout_of [0, 1, 2, 3, 4, 5, 6, 7]
      \<or> lk_double K = layout_of [7, 6, 5, 4, 3, 2, 1, 0]
      \<or> lk_double K = layout_of [4, 5, 6, 7, 0, 1, 2, 3])"

lemma le64_digits:
  "le64 0x0102030405060708 = [8, 7, 6, 5, 4, 3, 2, 1]"
  by (simp add: le64_def upt_rec)

lemma le64_nths: "[le64 x ! 0, le64 x ! 1, le64 x ! 2, le64 x ! 3, le64 x ! 4, le64 x ! 5, le64 x ! 6, le64 x ! 7] = le64 x"
  by (simp add: le64_def upt_rec)

lemma endian_layouts:
  "lk_llong K = layout_of [0, 1, 2, 3, 4, 5, 6, 7] \<Longrightarrow> endian K = 1"
  "lk_llong K = layout_of [7, 6, 5, 4, 3, 2, 1, 0] \<Longrightarrow> endian K = 2"
  "lk_llong K = layout_of [4, 5, 6, 7, 0, 1, 2, 3] \<Longrightarrow> endian K = 3"
  by (simp_all add: endian_def Let_def layout_of_def le64_digits)

lemma do_float_trace:
  assumes "supported K"
  shows "l_trace (do_float K fd x row col w) =
    l_trace w @ [L_write fd (float_bytes [] row col), L_write fd (le64 x)]"
  using assms endian_layouts [of K] le64_nths [of x] unfolding supported_def
  by (elim conjE disjE)
    (simp_all add: do_float_def Let_def float_memory_def row_bytes float_bytes_def word16_bytes_def layout_of_def)

text \<open>
  What a reader takes from a label record: all of a string of up to 255 bytes. A longer string is
  cut to 254 bytes after its length, modulo 256, has been stored as the length of the label.
\<close>

definition label_shown :: "byte list \<Rightarrow> byte list" where
  "label_shown str =
     (if length str \<le> 255 then str else take (length str mod 256) (take 254 str @ [0]))"

lemma do_label_trace:
  "\<exists>w' arr. do_label K fd str row col w = Ret (if 255 < length str then take 254 str else str, w')
     \<and> length arr = 256 \<and> take (length str mod 256) arr = label_shown str
     \<and> l_trace w' = l_trace w @ [L_write fd (label_bytes (of_nat (length str)) arr row col)]"
proof -
  define s where "s = (if 255 < length str then take 254 str else str)"
  define arr where "arr = buf_put 0 (s @ [0]) (buf_put 0 (replicate 255 0) (map (lk_junk K) [0..<256]))"
  have s: "length s \<le> 255" by (simp add: s_def)
  then have "length arr = 256" "take (Suc (length s)) arr = s @ [0]"
    by (simp_all add: arr_def buf_put_def)
  moreover have "take (length str mod 256) arr = label_shown str"
  proof (cases "length str \<le> 255")
    case True
    with s show ?thesis by (simp add: label_shown_def arr_def buf_put_def s_def)
  next
    case False
    then have "length str mod 256 \<le> 255" "length s = 254"
      using mod_less_divisor [of 256 "length str"] by (simp_all add: s_def)
    then have "take (length str mod 256) arr = take (length str mod 256) (take (Suc (length s)) arr)"
      by simp
    with \<open>take (Suc (length s)) arr = s @ [0]\<close> False show ?thesis
      by (simp add: label_shown_def s_def)
  qed
  ultimately show ?thesis
    using s by (intro exI [of _ "lcall K (L_write fd (label_bytes (of_nat (length str)) arr row col)) w"] exI [of _ arr])
      (auto simp: do_label_def Let_def label_memory_def row_bytes label_bytes_def word16_bytes_def arr_def s_def)
qed

section \<open>Reading it back\<close>

lemma read_int [simp]:
  "read_record (int_bytes x row col @ bs) =
   Some (Cell (Int_cell (unat row mod 65536) (unat col mod 65536) (unat x mod 65536)), bs)"
  by (simp add: int_bytes_def word16_bytes_def u16_word)

lemma read_float [simp]:
  "read_record (float_bytes (le64 x) row col @ bs) =
   Some (Cell (Float_cell (unat row mod 65536) (unat col mod 65536) x), bs)"
  by (simp add: float_bytes_def word16_bytes_def u16_word)

lemma unat_byte_lt: "unat (n :: byte) < 256"
  using unsigned_less [of n] by simp

lemma read_label:
  assumes "length arr = 256"
  shows "read_record (label_bytes n arr row col @ bs) =
   Some (Cell (Label_cell (unat row mod 65536) (unat col mod 65536) (take (unat n) arr)), bs)"
  using assms unat_byte_lt [of n]
  by (simp add: label_bytes_def word16_bytes_def u16_word)

section \<open>Worksheets\<close>

text \<open>
  What a client such as iozone's report does: create the file, put cells, close it.
\<close>

datatype put =
    Put_int int32 int32 int32
  | Put_float "64 word" int32 int32
  | Put_label "byte list" int32 int32

fun put_cell :: "('os, 'a) machine_scheme \<Rightarrow> int \<Rightarrow> put \<Rightarrow> ('os, 'w) load_scheme \<Rightarrow> ('os, 'w) load_scheme outcome" where
  "put_cell K fd (Put_int x row col) w = Ret (do_int K fd x row col w)"
| "put_cell K fd (Put_float x row col) w = Ret (do_float K fd x row col w)"
| "put_cell K fd (Put_label str row col) w =
     obind (do_label K fd str row col w) (\<lambda>(str, w). Ret w)"

fun put_cells :: "('os, 'a) machine_scheme \<Rightarrow> int \<Rightarrow> put list \<Rightarrow> ('os, 'w) load_scheme \<Rightarrow> ('os, 'w) load_scheme outcome" where
  "put_cells K fd [] w = Ret w"
| "put_cells K fd (p # ps) w = obind (put_cell K fd p w) (put_cells K fd ps)"

definition write_sheet :: "('os, 'a) machine_scheme \<Rightarrow> string \<Rightarrow> put list \<Rightarrow> ('os, 'w) load_scheme
    \<Rightarrow> (int \<times> ('os, 'w) load_scheme) outcome" where
  "write_sheet K name ps w =
     obind (create_xls K name w) (\<lambda>(fd, w).
     obind (put_cells K fd ps w) (\<lambda>w. Ret (fd, close_xls K fd w)))"

text \<open>The cell that is meant: rows, columns and integers are taken modulo \<open>2 ^ 16\<close>.\<close>

fun meant :: "put \<Rightarrow> cell" where
  "meant (Put_int x row col) = Int_cell (unat row mod 65536) (unat col mod 65536) (unat x mod 65536)"
| "meant (Put_float x row col) = Float_cell (unat row mod 65536) (unat col mod 65536) x"
| "meant (Put_label str row col) = Label_cell (unat row mod 65536) (unat col mod 65536) str"

fun short_label :: "put \<Rightarrow> bool" where
  "short_label (Put_label str row col) = (length str \<le> 255)"
| "short_label _ = True"

lemma put_cell_written:
  assumes "put_cell K fd p w = Ret w'" "supported K" "short_label p"
  shows "\<exists>bs. written fd (l_trace w') = written fd (l_trace w) @ bs
     \<and> (\<forall>rest. read_record (bs @ rest) = Some (Cell (meant p), rest))"
proof (cases p)
  case (Put_int x row col)
  with assms show ?thesis by (intro exI [of _ "int_bytes x row col"]) auto
next
  case (Put_float x row col)
  have "float_bytes [] row col @ le64 x = float_bytes (le64 x) row col"
    by (simp add: float_bytes_def)
  with Put_float assms show ?thesis
    by (intro exI [of _ "float_bytes (le64 x) row col"]) (auto simp: do_float_trace)
next
  case (Put_label str row col)
  from do_label_trace [of K fd str row col w] Put_label assms obtain arr where
    "length arr = 256" "take (length str mod 256) arr = label_shown str" "length str \<le> 255"
    "l_trace w' = l_trace w @ [L_write fd (label_bytes (of_nat (length str)) arr row col)]"
    by (auto simp: obind_eq_Ret)
  with Put_label show ?thesis
    by (intro exI [of _ "label_bytes (of_nat (length str)) arr row col"])
      (auto simp: read_label label_shown_def unat_of_nat)
qed

lemma put_cells_written:
  assumes "put_cells K fd ps w = Ret w'" "supported K" "list_all short_label ps"
  shows "\<exists>bs. written fd (l_trace w') = written fd (l_trace w) @ bs
     \<and> (\<forall>rest. read_cells (bs @ rest) = map_option (\<lambda>cs. map meant ps @ cs) (read_cells rest))"
  using assms
proof (induction ps arbitrary: w)
  case Nil
  then show ?case by (auto simp: option.map_ident intro: exI [of _ "[]"])
next
  case (Cons p ps)
  then obtain w1 where w1: "put_cell K fd p w = Ret w1" "put_cells K fd ps w1 = Ret w'"
    by (auto simp: obind_eq_Ret)
  from Cons.prems put_cell_written [OF w1(1)] obtain b1 where b1:
    "written fd (l_trace w1) = written fd (l_trace w) @ b1"
    "\<And>rest. read_record (b1 @ rest) = Some (Cell (meant p), rest)" by auto
  from Cons.prems Cons.IH [OF w1(2)] obtain bs where bs:
    "written fd (l_trace w') = written fd (l_trace w1) @ bs"
    "\<And>rest. read_cells (bs @ rest) = map_option (\<lambda>cs. map meant ps @ cs) (read_cells rest)" by auto
  have "read_cells (b1 @ bs @ rest) = map_option (\<lambda>cs. map meant (p # ps) @ cs) (read_cells rest)" for rest
    by (subst read_cells.simps) (simp add: b1 bs option.map_comp comp_def cong: option.map_cong)
  with b1(1) bs(1) show ?case by (intro exI [of _ "b1 @ bs"]) simp
qed

section \<open>Properties\<close>

text \<open>
  C39: a worksheet that is created, filled and closed is a well-formed BIFF2 stream from which a
  reader gets back the cells in order: integers, floating-point numbers on every byte order
  that \<open>endian\<close> tells apart, and labels of up to 255 bytes.
\<close>

theorem xls_sheet_roundtrip:
  assumes "write_sheet K name ps w = Ret (fd, w')" "l_trace w = []"
    and "supported K" "list_all short_label ps"
  shows "read_sheet (written fd (l_trace w')) = Some (map meant ps)"
proof -
  obtain w1 w2 where w1: "create_xls K name w = Ret (fd, w1)" and w2: "put_cells K fd ps w1 = Ret w2"
    and w': "w' = close_xls K fd w2"
    using assms(1) by (auto simp: write_sheet_def obind_eq_Ret)
  from w1 assms(2) have "l_trace w1 = [L_unlink name, L_open name 66 (Some 438), L_write fd [9, 0, 4, 0, 2, 0, 16, 0]]"
    by (auto simp: create_xls_def Let_def split_beta split: if_splits)
  then have "written fd (l_trace w1) = [9, 0, 4, 0, 2, 0, 16, 0]" by simp
  with put_cells_written [OF w2 assms(3,4)] obtain bs where
    bs: "written fd (l_trace w2) = [9, 0, 4, 0, 2, 0, 16, 0] @ bs"
      "\<And>rest. read_cells (bs @ rest) = map_option (\<lambda>cs. map meant ps @ cs) (read_cells rest)" by auto
  have "read_cells [10, 0, 0, 0] = Some []"
    by (subst read_cells.simps) simp
  then show ?thesis
    by (simp add: w' bs read_sheet_def)
qed

text \<open>A little-endian machine on which every call succeeds, and the worksheet of the witness.\<close>

definition pc_machine :: "unit machine" where
  "pc_machine = \<lparr>lk_sys = (\<lambda>c os. (\<lparr>lr_ret = 3, lr_data = [], lr_text = [], lr_sec = 0, lr_usec = 0\<rparr>, os)),
     lk_junk = (\<lambda>_. 0xcc), lk_llong = layout_of [0, 1, 2, 3, 4, 5, 6, 7],
     lk_double = layout_of [0, 1, 2, 3, 4, 5, 6, 7]\<rparr>"

definition demo_sheet :: "put list" where
  "demo_sheet = [Put_int 70000 1 2, Put_float 0x400921fb54442d18 3 4, Put_label [72, 105] 5 6]"

theorem xls_sheet_roundtrip_witness:
  "\<exists>w'. write_sheet pc_machine ''a.xls'' demo_sheet \<lparr>l_os = (), l_trace = []\<rparr> = Ret (3, w')
     \<and> read_sheet (written 3 (l_trace w'))
       = Some [Int_cell 1 2 4464, Float_cell 3 4 0x400921fb54442d18, Label_cell 5 6 [72, 105]]"
proof -
  have "\<exists>w'. write_sheet pc_machine ''a.xls'' demo_sheet \<lparr>l_os = (), l_trace = []\<rparr> = Ret (3, w')"
    by (simp add: write_sheet_def create_xls_def demo_sheet_def do_label_def lsys_def pc_machine_def Let_def)
  moreover have "supported pc_machine"
    by (simp add: supported_def pc_machine_def)
  ultimately show ?thesis
    using xls_sheet_roundtrip [of pc_machine "''a.xls''" demo_sheet "\<lparr>l_os = (), l_trace = []\<rparr>" 3]
    by (auto simp: demo_sheet_def)
qed

text \<open>
  A label never overruns the record, whatever its length, and the record reads back as one
  cell; but of a string longer than 255 bytes the reader gets \<open>length mod 256\<close> bytes, because the
  length is stored before the string is cut off: a label of 256 bytes comes out empty.
\<close>

theorem do_label_outcome:
  "\<exists>w' bs. do_label K fd str row col w = Ret (if 255 < length str then take 254 str else str, w')
     \<and> l_trace w' = l_trace w @ [L_write fd bs] \<and> length bs = 268
     \<and> read_record bs = Some (Cell (Label_cell (unat row mod 65536) (unat col mod 65536) (label_shown str)), [])"
proof -
  from do_label_trace [of K fd str row col w] obtain w' arr where
    w': "do_label K fd str row col w = Ret (if 255 < length str then take 254 str else str, w')"
      "l_trace w' = l_trace w @ [L_write fd (label_bytes (of_nat (length str)) arr row col)]"
    and arr: "length arr = 256" "take (length str mod 256) arr = label_shown str" by blast
  with read_label [of arr "of_nat (length str)" row col "[]"] show ?thesis
    by (intro exI [of _ w'] exI [of _ "label_bytes (of_nat (length str)) arr row col"])
      (simp add: unat_of_nat label_bytes_def word16_bytes_def)
qed

end
