(* ===== verification/Midi_Encoder.thy ===== *)
theory Midi_Encoder
  imports Cfs_Prelude
begin

text \<open>
  \<open>example/nasdir/midiEncoder.c\<close>: three routines that pack a MIDI message into an \<open>int\<close>, a
  32-bit word here. The decoder below is the specification: the status byte and the data bytes
  of a message as the comments of the file lay them out.
\<close>

unbundle bit_operations_syntax

section \<open>The encoder\<close>

type_synonym c_int32 = "32 word"

definition encodeNoteOn :: "c_int32 \<Rightarrow> c_int32 \<Rightarrow> c_int32 \<Rightarrow> c_int32" where
  "encodeNoteOn velocity pitch channel =
     (let message = 0;
          message = message OR (velocity AND 0x0000007F);
          message = message OR push_bit 8 (pitch AND 0x0000007F);
          message = message OR push_bit 16 (channel AND 0x0000000F);
          message = message OR 0x00900000
      in message)"

definition encodeNoteOff :: "c_int32 \<Rightarrow> c_int32 \<Rightarrow> c_int32 \<Rightarrow> c_int32" where
  "encodeNoteOff velocity pitch channel =
     (let message = 0;
          message = message OR (velocity AND 0x0000007F);
          message = message OR push_bit 8 (pitch AND 0x0000007F);
          message = message OR push_bit 16 (channel AND 0x0000000F);
          message = message OR 0x00800000
      in message)"

definition encodeInstrumentSelect :: "c_int32 \<Rightarrow> c_int32 \<Rightarrow> c_int32" where
  "encodeInstrumentSelect instrumentNum channel =
     (let message = 0;
          message = message OR (instrumentNum AND 0x0000007F);
          message = message OR push_bit 8 (channel AND 0x0000000F);
          message = message OR 0x0000c000
      in message)"

text \<open>The two numbers that \<open>main\<close> prints.\<close>

definition midi_main :: "c_int32 list" where
  "midi_main = [encodeNoteOn 12 69 8, encodeNoteOn 88 127 15]"

section \<open>The message format\<close>

datatype midi = NoteOff nat nat nat | NoteOn nat nat nat | ProgramChange nat nat

definition message_byte :: "nat \<Rightarrow> c_int32 \<Rightarrow> nat" where
  "message_byte k m = unat m div 256 ^ k mod 256"

text \<open>A message of three bytes has its status byte in bits 16 to 23, one of two bytes in bits 8
  to 15. The arguments are channel, first and second data byte.\<close>

definition decode_midi3 :: "c_int32 \<Rightarrow> midi option" where
  "decode_midi3 m =
     (let st = message_byte 2 m; d1 = message_byte 1 m; d2 = message_byte 0 m
      in if unat m < 256 ^ 3 \<and> d1 < 128 \<and> d2 < 128
         then if st div 16 = 9 then Some (NoteOn (st mod 16) d1 d2)
              else if st div 16 = 8 then Some (NoteOff (st mod 16) d1 d2)
              else None
         else None)"

definition decode_midi2 :: "c_int32 \<Rightarrow> midi option" where
  "decode_midi2 m =
     (let st = message_byte 1 m; d1 = message_byte 0 m
      in if unat m < 256 ^ 2 \<and> d1 < 128 \<and> st div 16 = 12
         then Some (ProgramChange (st mod 16) d1) else None)"

section \<open>The packed fields do not overlap\<close>

lemma nat_or_push_bit:
  fixes a b :: nat
  assumes "a < 2 ^ k"
  shows "a OR push_bit k b = a + 2 ^ k * b"
proof -
  have "a AND push_bit k b = 0"
    using assms by (intro bit_eqI) (metis bit_and_iff bit_push_bit_iff bit_0_eq bot_apply bot_bool_def bit_take_bit_iff
        not_le take_bit_nat_eq_self_iff)
  then have "a OR push_bit k b = a + push_bit k b"
    by (metis disjunctive_add_eq_or)
  then show ?thesis by (simp add: push_bit_eq_mult)
qed

lemma nat_and_masks:
  "(n::nat) AND 0x7F = n mod 128" "n AND 0xF = n mod 16"
  using take_bit_eq_mask [of 7 n] take_bit_eq_mask [of 4 n]
  by (simp_all add: take_bit_eq_mod mask_eq_exp_minus_1)

lemma unat_masks:
  "unat (x AND 0x7F :: c_int32) = unat x mod 128" "unat (x AND 0xF :: c_int32) = unat x mod 16"
  by (simp_all add: unsigned_and_eq nat_and_masks)

lemma unat_push_small:
  fixes x :: c_int32
  assumes "unat x * 2 ^ n < 2 ^ 32"
  shows "unat (push_bit n x) = 2 ^ n * unat x"
proof -
  have "unat (push_bit n x) = take_bit 32 (push_bit n (unat x))"
    by (simp add: unsigned_push_bit_eq)
  with assms show ?thesis
    by (simp add: push_bit_eq_mult take_bit_nat_eq_self mult.commute)
qed

lemma unat_push_mask:
  "unat (push_bit 8 (x AND 0x7F :: c_int32)) = 256 * (unat x mod 128)"
  "unat (push_bit 8 (x AND 0xF :: c_int32)) = 256 * (unat x mod 16)"
  "unat (push_bit 16 (x AND 0xF :: c_int32)) = 65536 * (unat x mod 16)"
  using mod_less_divisor [of 128 "unat x"] mod_less_divisor [of 16 "unat x"]
    unat_push_small [of "x AND 0x7F" 8] unat_push_small [of "x AND 0xF" 8]
    unat_push_small [of "x AND 0xF" 16]
  by (simp_all only: unat_masks) simp_all

lemma nat_or_fields:
  fixes v p c :: nat
  assumes "v < 128" "p < 128" "c < 16"
  shows "v OR 256 * p = v + 256 * p"
    "(v + 256 * p) OR 65536 * c = v + 256 * p + 65536 * c"
    "(v + 256 * p + 65536 * c) OR 0x900000 = v + 256 * p + 65536 * c + 0x900000"
    "(v + 256 * p + 65536 * c) OR 0x800000 = v + 256 * p + 65536 * c + 0x800000"
    "v OR 256 * c = v + 256 * c"
    "(v + 256 * c) OR 0xc000 = v + 256 * c + 0xc000"
  using nat_or_push_bit [of v 8 p] nat_or_push_bit [of "v + 256 * p" 16 c]
    nat_or_push_bit [of "v + 256 * p + 65536 * c" 20 9] nat_or_push_bit [of "v + 256 * p + 65536 * c" 20 8]
    nat_or_push_bit [of v 8 c] nat_or_push_bit [of "v + 256 * c" 12 12] assms
  by (simp_all add: push_bit_eq_mult mult.commute)

lemmas unat_fields = Let_def unsigned_or_eq unat_masks unat_push_mask unsigned_numeral unsigned_0

lemma unat_encodeNoteOn:
  "unat (encodeNoteOn v p c) = unat v mod 128 + 256 * (unat p mod 128) + 65536 * (unat c mod 16) + 0x900000"
  using nat_or_fields [of "unat v mod 128" "unat p mod 128" "unat c mod 16"]
  by (simp only: encodeNoteOn_def unat_fields) simp

lemma unat_encodeNoteOff:
  "unat (encodeNoteOff v p c) = unat v mod 128 + 256 * (unat p mod 128) + 65536 * (unat c mod 16) + 0x800000"
  using nat_or_fields [of "unat v mod 128" "unat p mod 128" "unat c mod 16"]
  by (simp only: encodeNoteOff_def unat_fields) simp

lemma unat_encodeInstrumentSelect:
  "unat (encodeInstrumentSelect i c) = unat i mod 128 + 256 * (unat c mod 16) + 0xc000"
  using nat_or_fields [of "unat i mod 128" 0 "unat c mod 16"]
  by (simp only: encodeInstrumentSelect_def unat_fields) simp

section \<open>Bytes of a packed number\<close>

lemma message_bytes3:
  fixes v p s :: nat
  assumes "unat m = v + 256 * p + 65536 * s" "v < 256" "p < 256" "s < 256"
  shows "message_byte 0 m = v" "message_byte 1 m = p" "message_byte 2 m = s" "unat m < 256 ^ 3"
proof -
  have *: "unat m = s * 65536 + (v + 256 * p)" using assms(1) by simp_all
  define q where "q = p + s * 256"
  with assms(1) have "unat m = v + 256 * q" by simp
  with assms(2) have "unat m mod 256 = v" "unat m div 256 = q"
    by simp_all
  moreover have "unat m div 65536 = s"
    using assms by (simp only: *)
  moreover have "q mod 256 = p"
    using assms(3) by (simp add: q_def)
  ultimately show "message_byte 0 m = v" "message_byte 1 m = p" "message_byte 2 m = s" "unat m < 256 ^ 3"
    using assms by (simp_all add: message_byte_def)
qed

lemma message_bytes2:
  fixes v s :: nat
  assumes "unat m = v + 256 * s" "v < 256" "s < 256"
  shows "message_byte 0 m = v" "message_byte 1 m = s" "unat m < 256 ^ 2"
  using message_bytes3 [of m v s 0] assms by (simp_all add: power2_eq_square)

section \<open>The property\<close>

lemma midi_words_decode:
  "decode_midi3 (encodeNoteOn v p c) = Some (NoteOn (unat c mod 16) (unat p mod 128) (unat v mod 128))
   \<and> decode_midi3 (encodeNoteOff v p c) = Some (NoteOff (unat c mod 16) (unat p mod 128) (unat v mod 128))
   \<and> decode_midi2 (encodeInstrumentSelect i c) = Some (ProgramChange (unat c mod 16) (unat i mod 128))"
proof -
  have n: "unat v mod 128 < 256" "unat p mod 128 < 256" "unat i mod 128 < 256"
    "9 * 16 + unat c mod 16 < 256" "8 * 16 + unat c mod 16 < 256" "12 * 16 + unat c mod 16 < 256"
    using mod_less_divisor [of 128 "unat v"] mod_less_divisor [of 128 "unat p"]
      mod_less_divisor [of 128 "unat i"] mod_less_divisor [of 16 "unat c"] by linarith+
  have "unat (encodeNoteOn v p c) = unat v mod 128 + 256 * (unat p mod 128) + 65536 * (9 * 16 + unat c mod 16)"
    "unat (encodeNoteOff v p c) = unat v mod 128 + 256 * (unat p mod 128) + 65536 * (8 * 16 + unat c mod 16)"
    "unat (encodeInstrumentSelect i c) = unat i mod 128 + 256 * (12 * 16 + unat c mod 16)"
    by (simp_all add: unat_encodeNoteOn unat_encodeNoteOff unat_encodeInstrumentSelect)
  note e = message_bytes3 [OF this(1) n(1,2,4)] message_bytes3 [OF this(2) n(1,2,5)]
    message_bytes2 [OF this(3) n(3,6)]
  have "(q * 16 + unat c mod 16) div 16 = q" "(q * 16 + unat c mod 16) mod 16 = unat c mod 16" for q
    by simp_all
  then show ?thesis
    by (simp only: decode_midi3_def decode_midi2_def Let_def e) simp
qed

text \<open>
  C40: every message the encoder packs is read back by the decoder of the MIDI format: status
  nibble, channel, first and second data byte are where the format has them, whatever the
  arguments; what lies outside the range of a field is cut off and never disturbs another field.
  \<open>encodeInstrumentSelect\<close> packs a program change, with the status \<open>1100\<close> that its comment gives, although
  the same comment says that it returns the NOTEOFF encoding.
\<close>

theorem midi_messages_decode:
  "decode_midi3 (encodeNoteOn v p c) = Some (NoteOn (unat c mod 16) (unat p mod 128) (unat v mod 128))
   \<and> decode_midi3 (encodeNoteOff v p c) = Some (NoteOff (unat c mod 16) (unat p mod 128) (unat v mod 128))
   \<and> decode_midi2 (encodeInstrumentSelect i c) = Some (ProgramChange (unat c mod 16) (unat i mod 128))"
  by (rule midi_words_decode)

lemma midi_main_messages:
  "map decode_midi3 midi_main = [Some (NoteOn 8 69 12), Some (NoteOn 15 127 88)]"
  by (simp add: midi_main_def midi_words_decode)

end
