(* ===== verification/Fileop.thy ===== *)
theory Fileop
  imports Load_Api C_Numerals
begin

text \<open>
  \<open>example/iozone3_487/src/current/fileop.c\<close>: the benchmark of file operations. For a force
  factor \<open>x\<close> it makes a tree of \<open>x\<close> directories with \<open>x\<close> directories each, runs every kind of
  operation \<open>x ^ 3\<close> times in it, times each call, and removes the tree. The type \<open>double\<close> is a
  parameter with arbitrary operations, so that nothing rests on how a machine rounds.
\<close>

unbundle bit_operations_syntax

section \<open>State\<close>

record 'd stat_struct =
  ss_starttime :: 'd
  ss_endtime :: 'd
  ss_speed :: 'd
  ss_best :: 'd
  ss_worst :: 'd
  ss_dummy :: 'd
  ss_total_time :: 'd
  ss_dummy1 :: 'd
  ss_counter :: "64 word"

datatype stat_index =
    STAT_CREATE | STAT_WRITE | STAT_CLOSE | STAT_LINK | STAT_UNLINK | STAT_DELETE | STAT_STAT
  | STAT_ACCESS | STAT_CHMOD | STAT_READDIR | STAT_DIR_CREATE | STAT_DIR_DELETE | STAT_READ
  | STAT_OPEN | STAT_DIR_TRAVERSE

text \<open>
  \<open>fm_lit m e\<close> is the literal \<open>m / 10 ^ e\<close>, \<open>fm_of_int\<close> the conversion of an integer.
\<close>

record ('os, 'd) fop_machine = "'os machine" +
  fm_lit :: "int \<Rightarrow> nat \<Rightarrow> 'd"
  fm_of_int :: "int \<Rightarrow> 'd"
  fm_add :: "'d \<Rightarrow> 'd \<Rightarrow> 'd"
  fm_sub :: "'d \<Rightarrow> 'd \<Rightarrow> 'd"
  fm_mul :: "'d \<Rightarrow> 'd \<Rightarrow> 'd"
  fm_div :: "'d \<Rightarrow> 'd \<Rightarrow> 'd"
  fm_less :: "'d \<Rightarrow> 'd \<Rightarrow> bool"

text \<open>
  What the program prints, apart from fixed text: the complaint about wrong data, a block of
  the verbose report (name, counter, times and rates in the order printed), and a row of the
  table (letter, force factor, rates, number of files).
\<close>

datatype 'd printed =
    Data_miscompare
  | Verbose string "64 word" "'d list"
  | Row char int "'d list" int

record ('os, 'd) fop = "'os load" +
  f_x :: int
  f_excel :: int
  f_verbose :: int
  f_sz :: int
  f_mbuffer :: "byte list"
  f_incr :: int
  f_stats :: "stat_index \<Rightarrow> 'd stat_struct"
  f_thedir :: string
  f_mountname :: "string option"
  f_lower :: int
  f_upper :: int
  f_range :: int
  f_best :: int
  f_worst :: int
  f_out :: "'d printed list"

section \<open>Statements and loops\<close>

text \<open>\<open>do_all\<close> runs statements in sequence; \<open>c_for x body\<close> is \<open>for (i = 0; i < x; i++) body\<close>.\<close>

fun do_all :: "('s \<Rightarrow> 's outcome) list \<Rightarrow> 's \<Rightarrow> 's outcome" where
  "do_all [] w = Ret w"
| "do_all (f # fs) w = obind (f w) (do_all fs)"

definition c_for :: "int \<Rightarrow> (int \<Rightarrow> 's \<Rightarrow> 's outcome) \<Rightarrow> 's \<Rightarrow> 's outcome" where
  "c_for x body = do_all (map (\<lambda>i. body (int i)) [0..<nat x])"

definition run :: "('os, 'd) fop_machine \<Rightarrow> load_call \<Rightarrow> ('os, 'd) fop \<Rightarrow> ('os, 'd) fop outcome" where
  "run K c w = Ret (lcall K c w)"

text \<open>A call whose failure ends the program with \<open>exit(1)\<close>.\<close>

definition run_or_exit :: "('os, 'd) fop_machine \<Rightarrow> (int \<Rightarrow> bool) \<Rightarrow> load_call
    \<Rightarrow> ('os, 'd) fop \<Rightarrow> ('os, 'd) fop outcome" where
  "run_or_exit K failed c w =
     (case lsys K c w of (r, w) \<Rightarrow> if failed (lr_ret r) then Exit 1 else Ret w)"

definition negative :: "int \<Rightarrow> bool" where
  "negative r = (r < 0)"

definition is_null :: "int \<Rightarrow> bool" where
  "is_null r = (r = 0)"

section \<open>Time and statistics\<close>

definition time_so_far :: "('os, 'd) fop_machine \<Rightarrow> ('os, 'd) fop \<Rightarrow> 'd \<times> ('os, 'd) fop" where
  "time_so_far K w =
     (case lsys K L_gettimeofday w of (tp, w) \<Rightarrow>
        (fm_add K (fm_of_int K (lr_sec tp)) (fm_mul K (fm_of_int K (lr_usec tp)) (fm_lit K 1 6)), w))"

definition upd_stat :: "stat_index \<Rightarrow> ('d stat_struct \<Rightarrow> 'd stat_struct) \<Rightarrow> ('os, 'd) fop \<Rightarrow> ('os, 'd) fop" where
  "upd_stat s f w = w\<lparr>f_stats := (f_stats w)(s := f (f_stats w s))\<rparr>"

definition start_time :: "('os, 'd) fop_machine \<Rightarrow> stat_index \<Rightarrow> ('os, 'd) fop \<Rightarrow> ('os, 'd) fop outcome" where
  "start_time K s w = (case time_so_far K w of (t, w) \<Rightarrow> Ret (upd_stat s (\<lambda>c. c\<lparr>ss_starttime := t\<rparr>) w))"

definition end_time :: "('os, 'd) fop_machine \<Rightarrow> stat_index \<Rightarrow> ('os, 'd) fop \<Rightarrow> ('os, 'd) fop outcome" where
  "end_time K s w = (case time_so_far K w of (t, w) \<Rightarrow> Ret (upd_stat s (\<lambda>c. c\<lparr>ss_endtime := t\<rparr>) w))"

text \<open>The two assignments to \<open>best\<close> and \<open>worst\<close> that open every test.\<close>

definition reset_extremes :: "('os, 'd) fop_machine \<Rightarrow> stat_index \<Rightarrow> int \<Rightarrow> ('os, 'd) fop \<Rightarrow> ('os, 'd) fop outcome" where
  "reset_extremes K s tenths w =
     Ret (upd_stat s (\<lambda>c. c\<lparr>ss_best := fm_lit K tenths 1, ss_worst := fm_lit K 0 1\<rparr>) w)"

text \<open>The block that follows every timed call, from the assignment to \<open>speed\<close> on.\<close>

definition count_speed :: "('os, 'd) fop_machine \<Rightarrow> 'd \<Rightarrow> 'd stat_struct \<Rightarrow> 'd stat_struct" where
  "count_speed K v c =
     (let speed = (if fm_less K v (fm_lit K 0 1) then fm_lit K 0 1 else v);
          c = c\<lparr>ss_speed := speed, ss_total_time := fm_add K (ss_total_time c) speed,
                ss_counter := ss_counter c + 1\<rparr>;
          c = (if fm_less K speed (ss_best c) then c\<lparr>ss_best := speed\<rparr> else c)
      in if fm_less K (ss_worst c) speed then c\<lparr>ss_worst := speed\<rparr> else c)"

definition account :: "('os, 'd) fop_machine \<Rightarrow> stat_index \<Rightarrow> ('os, 'd) fop \<Rightarrow> ('os, 'd) fop outcome" where
  "account K s w =
     Ret (upd_stat s (\<lambda>c. count_speed K (fm_sub K (ss_endtime c) (ss_starttime c)) c) w)"

text \<open>In \<open>dir_traverse\<close> the time of the way down is added.\<close>

definition elapsed :: "('os, 'd) fop_machine \<Rightarrow> stat_index \<Rightarrow> ('os, 'd) fop \<Rightarrow> 'd" where
  "elapsed K s w = fm_sub K (ss_endtime (f_stats w s)) (ss_starttime (f_stats w s))"

definition account_with :: "('os, 'd) fop_machine \<Rightarrow> stat_index \<Rightarrow> 'd \<Rightarrow> ('os, 'd) fop \<Rightarrow> ('os, 'd) fop outcome" where
  "account_with K s t w =
     Ret (upd_stat s (\<lambda>c. count_speed K (fm_sub K (fm_add K t (ss_endtime c)) (ss_starttime c)) c) w)"

text \<open>A timed call that exits on failure, and one whose result is dropped.\<close>

definition timed :: "('os, 'd) fop_machine \<Rightarrow> stat_index \<Rightarrow> (int \<Rightarrow> bool) \<Rightarrow> load_call
    \<Rightarrow> ('os, 'd) fop \<Rightarrow> ('os, 'd) fop outcome" where
  "timed K s failed c = do_all [start_time K s, run_or_exit K failed c, end_time K s, account K s]"

definition timed_dropped :: "('os, 'd) fop_machine \<Rightarrow> stat_index \<Rightarrow> load_call
    \<Rightarrow> ('os, 'd) fop \<Rightarrow> ('os, 'd) fop outcome" where
  "timed_dropped K s c = do_all [start_time K s, run K c, end_time K s, account K s]"

definition clear_stats :: "('os, 'd) fop_machine \<Rightarrow> ('os, 'd) fop \<Rightarrow> ('os, 'd) fop outcome" where
  "clear_stats K w =
     (let z = fm_lit K 0 0
      in Ret (w\<lparr>f_stats := (\<lambda>_. \<lparr>ss_starttime = z, ss_endtime = z, ss_speed = z, ss_best = z,
            ss_worst = z, ss_dummy = z, ss_total_time = z, ss_dummy1 = z, ss_counter = 0\<rparr>)\<rparr>))"

section \<open>Names\<close>

text \<open>The formats of the calls of \<open>sprintf\<close>; none exceeds the hundred bytes of the buffers.\<close>

definition name_L1 :: "int \<Rightarrow> string" where
  "name_L1 i = ''fileop_L1_'' @ show_int i"

definition name_L2 :: "int \<Rightarrow> int \<Rightarrow> string" where
  "name_L2 i j = ''fileop_L1_'' @ show_int i @ ''_L2_'' @ show_int j"

definition name_dir :: "int \<Rightarrow> int \<Rightarrow> int \<Rightarrow> string" where
  "name_dir i j k = ''fileop_dir_'' @ show_int i @ ''_'' @ show_int j @ ''_'' @ show_int k"

definition name_file :: "int \<Rightarrow> int \<Rightarrow> int \<Rightarrow> string" where
  "name_file i j k = ''fileop_file_'' @ show_int i @ ''_'' @ show_int j @ ''_'' @ show_int k"

definition name_link :: "int \<Rightarrow> int \<Rightarrow> int \<Rightarrow> string" where
  "name_link i j k = name_file i j k @ ''L''"

definition pattern :: "int \<Rightarrow> int \<Rightarrow> int \<Rightarrow> byte" where
  "pattern i j k = word_of_int ((i XOR j XOR k) AND 0xff)"

section \<open>Directories\<close>

definition dir_create :: "('os, 'd) fop_machine \<Rightarrow> int \<Rightarrow> ('os, 'd) fop \<Rightarrow> ('os, 'd) fop outcome" where
  "dir_create K x =
     do_all
       [reset_extremes K STAT_DIR_CREATE 999999,
        c_for x (\<lambda>i. do_all
          [timed K STAT_DIR_CREATE negative (L_mkdir (name_L1 i) 511),
           run K (L_chdir (name_L1 i)),
           c_for x (\<lambda>j. do_all
             [timed K STAT_DIR_CREATE negative (L_mkdir (name_L2 i j) 511),
              run K (L_chdir (name_L2 i j)),
              c_for x (\<lambda>k. do_all
                [timed K STAT_DIR_CREATE negative (L_mkdir (name_dir i j k) 511),
                 run K (L_chdir (name_dir i j k)),
                 run K (L_chdir ''..'')]),
              run K (L_chdir ''..'')]),
           run K (L_chdir ''..'')])]"

definition dir_traverse :: "('os, 'd) fop_machine \<Rightarrow> int \<Rightarrow> ('os, 'd) fop \<Rightarrow> ('os, 'd) fop outcome" where
  "dir_traverse K x =
     do_all
       [reset_extremes K STAT_DIR_TRAVERSE 999999,
        c_for x (\<lambda>i. do_all
          [start_time K STAT_DIR_TRAVERSE,
           run K (L_chdir (name_L1 i)),
           end_time K STAT_DIR_TRAVERSE,
           (\<lambda>w. let time1 = elapsed K STAT_DIR_TRAVERSE w in do_all
             [c_for x (\<lambda>j. do_all
                [start_time K STAT_DIR_TRAVERSE,
                 run K (L_chdir (name_L2 i j)),
                 end_time K STAT_DIR_TRAVERSE,
                 (\<lambda>w. let time2 = elapsed K STAT_DIR_TRAVERSE w in do_all
                   [c_for x (\<lambda>k. do_all
                      [start_time K STAT_DIR_TRAVERSE,
                       run K (L_chdir (name_dir i j k)),
                       run K (L_chdir ''..''),
                       end_time K STAT_DIR_TRAVERSE,
                       account K STAT_DIR_TRAVERSE]),
                    start_time K STAT_DIR_TRAVERSE,
                    run K (L_chdir ''..''),
                    end_time K STAT_DIR_TRAVERSE,
                    account_with K STAT_DIR_TRAVERSE time2] w)]),
              start_time K STAT_DIR_TRAVERSE,
              run K (L_chdir ''..''),
              end_time K STAT_DIR_TRAVERSE,
              account_with K STAT_DIR_TRAVERSE time1] w)])]"

definition dir_delete :: "('os, 'd) fop_machine \<Rightarrow> int \<Rightarrow> ('os, 'd) fop \<Rightarrow> ('os, 'd) fop outcome" where
  "dir_delete K x =
     do_all
       [reset_extremes K STAT_DIR_DELETE 999999,
        c_for x (\<lambda>i. do_all
          [run K (L_chdir (name_L1 i)),
           c_for x (\<lambda>j. do_all
             [run K (L_chdir (name_L2 i j)),
              c_for x (\<lambda>k. do_all
                [run K (L_chdir (name_dir i j k)),
                 run K (L_chdir ''..''),
                 timed_dropped K STAT_DIR_DELETE (L_rmdir (name_dir i j k))]),
              run K (L_chdir ''..''),
              timed_dropped K STAT_DIR_DELETE (L_rmdir (name_L2 i j))]),
           run K (L_chdir ''..''),
           timed_dropped K STAT_DIR_DELETE (L_rmdir (name_L1 i))])]"

section \<open>Files\<close>

text \<open>
  \<open>O_RDWR|0600\<close> is 386, an octal 602. The write is not checked, the close neither.
\<close>

definition create_one :: "('os, 'd) fop_machine \<Rightarrow> int \<Rightarrow> int \<Rightarrow> int \<Rightarrow> ('os, 'd) fop \<Rightarrow> ('os, 'd) fop outcome" where
  "create_one K i j k w =
     (let w = w\<lparr>f_mbuffer := replicate (nat (f_sz w)) (pattern i j k)\<rparr>
      in obind (start_time K STAT_CREATE w) (\<lambda>w.
         case lsys K (L_creat (name_file i j k) 386) w of (r, w) \<Rightarrow>
         let fd = lr_ret r
         in if fd < 0 then Exit 1
            else do_all
              [end_time K STAT_CREATE, account K STAT_CREATE,
               start_time K STAT_WRITE,
               (\<lambda>w. run K (L_write fd (f_mbuffer w)) w),
               end_time K STAT_WRITE, account K STAT_WRITE,
               run K (L_fsync fd),
               start_time K STAT_CLOSE,
               run K (L_close fd),
               end_time K STAT_CLOSE, account K STAT_CLOSE] w))"

definition file_create :: "('os, 'd) fop_machine \<Rightarrow> int \<Rightarrow> ('os, 'd) fop \<Rightarrow> ('os, 'd) fop outcome" where
  "file_create K x =
     do_all
       [reset_extremes K STAT_CREATE 9999999,
        reset_extremes K STAT_WRITE 9999999,
        reset_extremes K STAT_CLOSE 9999999,
        c_for x (\<lambda>i. do_all
          [run_or_exit K negative (L_mkdir (name_L1 i) 511),
           run K (L_chdir (name_L1 i)),
           c_for x (\<lambda>j. do_all
             [run_or_exit K negative (L_mkdir (name_L2 i j) 511),
              run K (L_chdir (name_L2 i j)),
              c_for x (create_one K i j),
              run K (L_chdir ''..'')]),
           run K (L_chdir ''..'')])]"

text \<open>The loops that the tests of existing files share: down to each directory and up again.\<close>

definition in_each_dir :: "('os, 'd) fop_machine \<Rightarrow> int \<Rightarrow> (int \<Rightarrow> int \<Rightarrow> ('os, 'd) fop \<Rightarrow> ('os, 'd) fop outcome)
    \<Rightarrow> ('os, 'd) fop \<Rightarrow> ('os, 'd) fop outcome" where
  "in_each_dir K x body =
     c_for x (\<lambda>i. do_all
       [run K (L_chdir (name_L1 i)),
        c_for x (\<lambda>j. do_all
          [run K (L_chdir (name_L2 i j)),
           body i j,
           run K (L_chdir ''..'')]),
        run K (L_chdir ''..'')])"

definition file_stat :: "('os, 'd) fop_machine \<Rightarrow> int \<Rightarrow> ('os, 'd) fop \<Rightarrow> ('os, 'd) fop outcome" where
  "file_stat K x =
     do_all
       [reset_extremes K STAT_STAT 999999,
        in_each_dir K x (\<lambda>i j. c_for x (\<lambda>k. timed K STAT_STAT negative (L_stat (name_file i j k))))]"

definition file_access :: "('os, 'd) fop_machine \<Rightarrow> int \<Rightarrow> ('os, 'd) fop \<Rightarrow> ('os, 'd) fop outcome" where
  "file_access K x =
     do_all
       [reset_extremes K STAT_ACCESS 9999999,
        in_each_dir K x (\<lambda>i j. c_for x (\<lambda>k. timed K STAT_ACCESS negative (L_access (name_file i j k) 2)))]"

definition file_chmod :: "('os, 'd) fop_machine \<Rightarrow> int \<Rightarrow> ('os, 'd) fop \<Rightarrow> ('os, 'd) fop outcome" where
  "file_chmod K x =
     do_all
       [reset_extremes K STAT_CHMOD 9999999,
        in_each_dir K x (\<lambda>i j. c_for x (\<lambda>k. timed K STAT_CHMOD negative (L_chmod (name_file i j k) 438)))]"

definition file_readdir :: "('os, 'd) fop_machine \<Rightarrow> int \<Rightarrow> ('os, 'd) fop \<Rightarrow> ('os, 'd) fop outcome" where
  "file_readdir K x =
     do_all
       [reset_extremes K STAT_READDIR 9999999,
        in_each_dir K x (\<lambda>i j w.
          case lsys K (L_opendir ''.'') w of (r, w) \<Rightarrow>
          let dirbuf = lr_ret r
          in if dirbuf = 0 then Exit 1
             else do_all
               [timed K STAT_READDIR is_null (L_readdir dirbuf),
                run_or_exit K negative (L_closedir dirbuf)] w)]"

definition file_link :: "('os, 'd) fop_machine \<Rightarrow> int \<Rightarrow> ('os, 'd) fop \<Rightarrow> ('os, 'd) fop outcome" where
  "file_link K x =
     do_all
       [reset_extremes K STAT_LINK 9999999,
        in_each_dir K x (\<lambda>i j. c_for x (\<lambda>k.
          timed K STAT_LINK negative (L_link (name_file i j k) (name_link i j k))))]"

definition file_unlink :: "('os, 'd) fop_machine \<Rightarrow> int \<Rightarrow> ('os, 'd) fop \<Rightarrow> ('os, 'd) fop outcome" where
  "file_unlink K x =
     do_all
       [reset_extremes K STAT_UNLINK 9999999,
        in_each_dir K x (\<lambda>i j. c_for x (\<lambda>k. timed K STAT_UNLINK negative (L_unlink (name_link i j k))))]"

definition file_delete :: "('os, 'd) fop_machine \<Rightarrow> int \<Rightarrow> ('os, 'd) fop \<Rightarrow> ('os, 'd) fop outcome" where
  "file_delete K x =
     do_all
       [reset_extremes K STAT_DELETE 9999999,
        c_for x (\<lambda>i. do_all
          [run K (L_chdir (name_L1 i)),
           c_for x (\<lambda>j. do_all
             [run K (L_chdir (name_L2 i j)),
              c_for x (\<lambda>k. timed_dropped K STAT_DELETE (L_unlink (name_file i j k))),
              run K (L_chdir ''..''),
              run K (L_rmdir (name_L2 i j))]),
           run K (L_chdir ''..''),
           run K (L_rmdir (name_L1 i))])]"

fun validate :: "byte list \<Rightarrow> nat \<Rightarrow> byte \<Rightarrow> int outcome" where
  "validate buffer 0 v1 = Ret 0"
| "validate [] (Suc n) v1 = Crash OverRead"
| "validate (c # buffer) (Suc n) v1 = (if c \<noteq> v1 then Ret 1 else validate buffer n v1)"

text \<open>
  \<open>read\<close> stores at most \<open>sz\<close> bytes at the front of \<open>mbuffer\<close>; what it does not overwrite stays.
\<close>

definition read_one :: "('os, 'd) fop_machine \<Rightarrow> int \<Rightarrow> int \<Rightarrow> int \<Rightarrow> ('os, 'd) fop \<Rightarrow> ('os, 'd) fop outcome" where
  "read_one K i j k w =
     obind (start_time K STAT_OPEN w) (\<lambda>w.
     case lsys K (L_open (name_file i j k) 0 None) w of (r, w) \<Rightarrow>
     let fd = lr_ret r
     in if fd < 0 then Exit 1
        else obind (do_all [end_time K STAT_OPEN, account K STAT_OPEN, start_time K STAT_READ] w) (\<lambda>w.
             case lsys K (L_read fd (f_sz w)) w of (r, w) \<Rightarrow>
             if lr_ret r < 0 then Exit 1
             else let w = w\<lparr>f_mbuffer := buf_put 0 (take (nat (f_sz w)) (lr_data r)) (f_mbuffer w)\<rparr>
                  in obind (validate (f_mbuffer w) (nat (f_sz w)) (pattern i j k)) (\<lambda>v.
                     let w = (if v \<noteq> 0 then w\<lparr>f_out := f_out w @ [Data_miscompare]\<rparr> else w)
                     in do_all [end_time K STAT_READ, run K (L_close fd), account K STAT_READ] w)))"

definition file_read :: "('os, 'd) fop_machine \<Rightarrow> int \<Rightarrow> ('os, 'd) fop \<Rightarrow> ('os, 'd) fop outcome" where
  "file_read K x =
     do_all
       [reset_extremes K STAT_READ 999999,
        reset_extremes K STAT_OPEN 999999,
        in_each_dir K x (\<lambda>i j. c_for x (read_one K i j))]"

end
