(* ===== verification/Fileop_Main.thy ===== *)
theory Fileop_Main
  imports Fileop
begin

text \<open>
  The frame of \<open>fileop.c\<close>: remounting between the tests, the options, one round of tests for a
  force factor with its reports, and \<open>main\<close>. What \<open>getopt\<close> returns is a parameter, the list of
  option characters with their arguments. An \<open>int\<close> is an integer that is converted by \<open>c_int\<close>
  where the code computes with it.
\<close>

section \<open>Remounting\<close>

fun umount_tries :: "('os, 'd) fop_machine \<Rightarrow> string \<Rightarrow> int list \<Rightarrow> ('os, 'd) fop \<Rightarrow> ('os, 'd) fop" where
  "umount_tries K command [] w = w"
| "umount_tries K command (i # is) w =
     (case lsys K (L_system command) w of (r, w) \<Rightarrow>
        if lr_ret r = 0 then w else umount_tries K command is (lcall K (L_sleep i) w))"

definition purge_buffer_cache :: "('os, 'd) fop_machine \<Rightarrow> ('os, 'd) fop \<Rightarrow> ('os, 'd) fop outcome" where
  "purge_buffer_cache K w =
     (case f_mountname w of
        None \<Rightarrow> Ret w
      | Some mountname \<Rightarrow>
          (case lsys K (L_getcwd 4096) w of (r, w) \<Rightarrow>
           let cwd = lr_text r;
               w = lcall K (L_chdir ''/'') w
           in obind (c_strncat 1024 ''umount '' mountname (length mountname)) (\<lambda>command.
              let w = umount_tries K command (map int [1..<10]) w
              in obind (c_strncat 1024 ''mount '' mountname (length mountname)) (\<lambda>command.
                 let w = lcall K (L_system command) w
                 in Ret (lcall K (L_chdir cwd) w)))))"

section \<open>Options\<close>

definition atoi :: "string \<Rightarrow> int" where
  "atoi str =
     (let s = dropWhile is_space str;
          neg = (s \<noteq> [] \<and> hd s = CHR ''-'');
          s = (if s \<noteq> [] \<and> (hd s = CHR ''-'' \<or> hd s = CHR ''+'') then tl s else s);
          v = int (digits_val (takeWhile is_digit s))
      in c_int (if neg then max (- (2 ^ 63)) (- v) else min (2 ^ 63 - 1) v))"

definition at_least :: "int \<Rightarrow> int" where
  "at_least n = (if n < 0 then 1 else n)"

definition option_size :: "string \<Rightarrow> int outcome" where
  "option_size optarg =
     (if optarg = [] then Crash OverRead
      else let sz = atoi optarg;
               sz = (if last optarg = CHR ''k'' \<or> last optarg = CHR ''K''
                     then c_int (1024 * atoi optarg) else sz);
               sz = (if last optarg = CHR ''m'' \<or> last optarg = CHR ''M''
                     then c_int (1024 * 1024 * atoi optarg) else sz)
           in Ret (at_least sz))"

text \<open>\<open>thedir\<close> has room for \<open>PATH_MAX\<close>, 4096, bytes with the terminator.\<close>

definition option_dir :: "string \<Rightarrow> string outcome" where
  "option_dir optarg =
     (if optarg = [] then Crash OverRead
      else let dirlen = length optarg;
               dirlen = (if last optarg = CHR ''/'' then dirlen - 1 else dirlen)
           in if 4096 \<le> dirlen then Crash BufferOverflow else Ret (take dirlen optarg))"

definition option_step :: "char \<times> string \<Rightarrow> ('os, 'd) fop \<Rightarrow> ('os, 'd) fop outcome" where
  "option_step opt w =
     (case opt of (c, optarg) \<Rightarrow>
      if c = CHR ''h'' then Exit 0
      else if c = CHR ''d'' then obind (option_dir optarg) (\<lambda>d. Ret (w\<lparr>f_thedir := d\<rparr>))
      else if c = CHR ''U'' then Ret (w\<lparr>f_mountname := Some optarg\<rparr>)
      else if c = CHR ''i'' then Ret (w\<lparr>f_incr := at_least (atoi optarg)\<rparr>)
      else if c = CHR ''f'' then Ret (w\<lparr>f_x := at_least (atoi optarg)\<rparr>)
      else if c = CHR ''s'' then obind (option_size optarg) (\<lambda>n. Ret (w\<lparr>f_sz := n\<rparr>))
      else if c = CHR ''l'' then Ret (w\<lparr>f_lower := at_least (atoi optarg), f_range := 1\<rparr>)
      else if c = CHR ''v'' then Exit 0
      else if c = CHR ''u'' then Ret (w\<lparr>f_upper := at_least (atoi optarg), f_range := 1\<rparr>)
      else if c = CHR ''t'' then Ret (w\<lparr>f_verbose := 1\<rparr>)
      else if c = CHR ''e'' then Ret (w\<lparr>f_excel := 1\<rparr>)
      else if c = CHR ''b'' then Ret (w\<lparr>f_best := 1\<rparr>)
      else if c = CHR ''w'' then Ret (w\<lparr>f_worst := 1\<rparr>)
      else Ret w)"

section \<open>Reports\<close>

definition llong_double :: "('os, 'd) fop_machine \<Rightarrow> 64 word \<Rightarrow> 'd" where
  "llong_double K n = fm_of_int K (sint n)"

definition verbose_report :: "('os, 'd) fop_machine \<Rightarrow> string \<Rightarrow> stat_index \<Rightarrow> ('os, 'd) fop \<Rightarrow> ('os, 'd) fop outcome" where
  "verbose_report K label s w =
     (let c = f_stats w s; n = llong_double K (ss_counter c); one = fm_of_int K 1
      in Ret (if f_verbose w \<noteq> 0
              then w\<lparr>f_out := f_out w @ [Verbose label (ss_counter c)
                     [ss_total_time c,
                      fm_div K n (ss_total_time c), fm_div K (ss_total_time c) n,
                      fm_div K one (ss_best c), ss_best c,
                      fm_div K one (ss_worst c), ss_worst c]]\<rparr>
              else w))"

definition table_order :: "stat_index list" where
  "table_order =
     [STAT_DIR_CREATE, STAT_DIR_TRAVERSE, STAT_DIR_DELETE, STAT_CREATE, STAT_OPEN, STAT_READ,
      STAT_WRITE, STAT_CLOSE, STAT_STAT, STAT_ACCESS, STAT_CHMOD, STAT_READDIR, STAT_LINK,
      STAT_UNLINK, STAT_DELETE]"

definition table_row :: "('os, 'd) fop_machine \<Rightarrow> char \<Rightarrow> ('d stat_struct \<Rightarrow> 'd) \<Rightarrow> ('os, 'd) fop \<Rightarrow> 'd printed" where
  "table_row K letter rate w =
     Row letter (f_x w) (map (\<lambda>s. rate (f_stats w s)) table_order) (c_int (f_x w * f_x w * f_x w))"

definition table_report :: "('os, 'd) fop_machine \<Rightarrow> ('os, 'd) fop \<Rightarrow> ('os, 'd) fop outcome" where
  "table_report K w =
     (let one = fm_of_int K 1;
          avg = table_row K (CHR ''A'') (\<lambda>c. fm_div K (llong_double K (ss_counter c)) (ss_total_time c)) w;
          best = table_row K (CHR ''B'') (\<lambda>c. fm_div K one (ss_best c)) w;
          worst = table_row K (CHR ''W'') (\<lambda>c. fm_div K one (ss_worst c)) w
      in Ret (if f_verbose w = 0
              then w\<lparr>f_out := f_out w @ [avg] @ (if f_best w \<noteq> 0 then [best] else [])
                       @ (if f_worst w \<noteq> 0 then [worst] else [])\<rparr>
              else w))"

section \<open>A round of tests and \<open>main\<close>\<close>

definition dir_tests :: "('os, 'd) fop_machine \<Rightarrow> (('os, 'd) fop \<Rightarrow> ('os, 'd) fop outcome) list" where
  "dir_tests K =
     [purge_buffer_cache K, (\<lambda>w. dir_create K (f_x w) w),
      verbose_report K ''mkdir'' STAT_DIR_CREATE,
      purge_buffer_cache K, (\<lambda>w. dir_traverse K (f_x w) w),
      verbose_report K ''chdir'' STAT_DIR_TRAVERSE,
      purge_buffer_cache K, (\<lambda>w. dir_delete K (f_x w) w),
      verbose_report K ''rmdir'' STAT_DIR_DELETE]"

definition data_tests :: "('os, 'd) fop_machine \<Rightarrow> (('os, 'd) fop \<Rightarrow> ('os, 'd) fop outcome) list" where
  "data_tests K =
     [purge_buffer_cache K, (\<lambda>w. file_create K (f_x w) w),
      verbose_report K ''create'' STAT_CREATE,
      verbose_report K ''write'' STAT_WRITE,
      verbose_report K ''close'' STAT_CLOSE,
      purge_buffer_cache K, (\<lambda>w. file_stat K (f_x w) w),
      verbose_report K ''stat'' STAT_STAT,
      purge_buffer_cache K, (\<lambda>w. file_read K (f_x w) w),
      verbose_report K ''open'' STAT_OPEN,
      verbose_report K ''read'' STAT_READ]"

definition attr_tests :: "('os, 'd) fop_machine \<Rightarrow> (('os, 'd) fop \<Rightarrow> ('os, 'd) fop outcome) list" where
  "attr_tests K =
     [purge_buffer_cache K, (\<lambda>w. file_access K (f_x w) w),
      verbose_report K ''access'' STAT_ACCESS,
      purge_buffer_cache K, (\<lambda>w. file_chmod K (f_x w) w),
      verbose_report K ''chmod'' STAT_CHMOD,
      purge_buffer_cache K, (\<lambda>w. file_readdir K (f_x w) w),
      verbose_report K ''readdir'' STAT_READDIR]"

definition link_tests :: "('os, 'd) fop_machine \<Rightarrow> (('os, 'd) fop \<Rightarrow> ('os, 'd) fop outcome) list" where
  "link_tests K =
     [purge_buffer_cache K, (\<lambda>w. file_link K (f_x w) w),
      verbose_report K ''link'' STAT_LINK,
      purge_buffer_cache K, (\<lambda>w. file_unlink K (f_x w) w),
      verbose_report K ''unlink'' STAT_UNLINK,
      purge_buffer_cache K, (\<lambda>w. file_delete K (f_x w) w),
      verbose_report K ''delete'' STAT_DELETE]"

definition round_tests :: "('os, 'd) fop_machine \<Rightarrow> (('os, 'd) fop \<Rightarrow> ('os, 'd) fop outcome) list" where
  "round_tests K = dir_tests K @ data_tests K @ attr_tests K @ link_tests K @ [table_report K]"

lemmas round_tests_defs = round_tests_def dir_tests_def data_tests_def attr_tests_def link_tests_def append.simps

definition fileop_round :: "('os, 'd) fop_machine \<Rightarrow> int \<Rightarrow> ('os, 'd) fop \<Rightarrow> ('os, 'd) fop outcome" where
  "fileop_round K i w =
     obind (clear_stats K w) (\<lambda>w. do_all (round_tests K) (w\<lparr>f_x := i\<rparr>))"

text \<open>\<open>for (i = lower; i <= upper; i += incr)\<close>: \<open>None\<close> is a loop that does not end.\<close>

partial_function (option) main_loop ::
  "('os, 'd) fop_machine \<Rightarrow> int \<Rightarrow> ('os, 'd) fop \<Rightarrow> ('os, 'd) fop outcome option"
where
  "main_loop K i w =
     (if i \<le> f_upper w then
        (case fileop_round K i w of
           Ret w \<Rightarrow> main_loop K (c_int (i + f_incr w)) w
         | Crash c \<Rightarrow> Some (Crash c)
         | Exit n \<Rightarrow> Some (Exit n)
         | Hang \<Rightarrow> Some Hang)
      else Some (Ret w))"

definition fileop_main :: "('os, 'd) fop_machine \<Rightarrow> int \<Rightarrow> (char \<times> string) list
    \<Rightarrow> ('os, 'd) fop \<Rightarrow> ('os, 'd) fop outcome" where
  "fileop_main K argc opts w =
     (if argc = 1 then Exit 1
      else obind (do_all (map option_step opts) w) (\<lambda>w.
        let w = w\<lparr>f_mbuffer := replicate (nat (f_sz w)) 0x61\<rparr>;
            w = lcall K (L_chdir (f_thedir w)) w;
            w = (if f_x w = 0 then w\<lparr>f_x := 1\<rparr> else w);
            w = (if f_range w = 0 then w\<lparr>f_lower := f_x w, f_upper := f_x w\<rparr> else w)
        in case main_loop K (f_lower w) w of None \<Rightarrow> Hang | Some r \<Rightarrow> r))"

text \<open>The globals at the start of the program.\<close>

definition fop_start :: "('os, 'd) fop_machine \<Rightarrow> 'os \<Rightarrow> ('os, 'd) fop" where
  "fop_start K os =
     (let z = fm_lit K 0 0
      in \<lparr>l_os = os, l_trace = [], f_x = 0, f_excel = 0, f_verbose = 0, f_sz = 1, f_mbuffer = [],
          f_incr = 1,
          f_stats = (\<lambda>_. \<lparr>ss_starttime = z, ss_endtime = z, ss_speed = z, ss_best = z, ss_worst = z,
            ss_dummy = z, ss_total_time = z, ss_dummy1 = z, ss_counter = 0\<rparr>),
          f_thedir = ''.'', f_mountname = None, f_lower = 0, f_upper = 0, f_range = 0, f_best = 0,
          f_worst = 0, f_out = []\<rparr>)"

end
