(* ===== verification/Fileop_Counts.thy ===== *)
theory Fileop_Counts
  imports Fileop_Main
begin

text \<open>
  How often each kind of operation is counted, on any system: a calculus that adds up, along the
  structure of the loops, what a statement that returns has added to the counters.
\<close>

section \<open>Adding to the counters\<close>

definition adds :: "(('os, 'd) fop \<Rightarrow> ('os, 'd) fop outcome) \<Rightarrow> (stat_index \<Rightarrow> nat) \<Rightarrow> bool" where
  "adds f g \<longleftrightarrow> (\<forall>w w'. f w = Ret w' \<longrightarrow>
     f_x w' = f_x w \<and> f_incr w' = f_incr w \<and> f_upper w' = f_upper w \<and> (\<forall>s. ss_counter (f_stats w' s) = ss_counter (f_stats w s) + of_nat (g s)))"

definition once :: "stat_index \<Rightarrow> stat_index \<Rightarrow> nat" where
  "once s t = (if t = s then 1 else 0)"

lemma adds_Nil: "adds (do_all []) (\<lambda>_. 0)"
  by (simp add: adds_def)

lemma adds_Cons:
  "adds f g \<Longrightarrow> adds (do_all fs) h \<Longrightarrow> adds (do_all (f # fs)) (\<lambda>s. g s + h s)"
  by (fastforce simp: adds_def obind_eq_Ret)

lemma adds_map: "(\<And>i. adds (body i) g) \<Longrightarrow> adds (do_all (map body is)) (\<lambda>s. length is * g s)"
proof (induction "is")
  case (Cons i "is")
  then have "adds (do_all (body i # map body is)) (\<lambda>s. g s + length is * g s)"
    by (intro adds_Cons) auto
  then show ?case
    by (simp only: list.map length_Cons mult_Suc)
qed (use adds_Nil in simp)

lemma adds_c_for:
  "(\<And>i. adds (body i) g) \<Longrightarrow> adds (c_for x body) (\<lambda>s. nat x * g s)"
  unfolding c_for_def using adds_map [of "\<lambda>i. body (int i)" g "[0..<nat x]"] by simp

lemma adds_state: "(\<And>w. adds (do_all (F w)) g) \<Longrightarrow> adds (\<lambda>w. do_all (F w) w) g"
  by (simp add: adds_def)

lemma adds_obind:
  "adds f g \<Longrightarrow> adds h k \<Longrightarrow> adds (\<lambda>w. obind (f w) h) (\<lambda>s. g s + k s)"
  by (fastforce simp: adds_def obind_eq_Ret)

lemma lsys_fields [simp]:
  "f_stats (snd (lsys K c w)) = f_stats w" "f_stats (lcall K c w) = f_stats w"
  "f_x (snd (lsys K c w)) = f_x w" "f_x (lcall K c w) = f_x w"
  "f_sz (snd (lsys K c w)) = f_sz w" "f_sz (lcall K c w) = f_sz w"
  "f_mbuffer (snd (lsys K c w)) = f_mbuffer w" "f_mbuffer (lcall K c w) = f_mbuffer w"
  "f_mountname (snd (lsys K c w)) = f_mountname w" "f_mountname (lcall K c w) = f_mountname w"
  "f_out (snd (lsys K c w)) = f_out w" "f_out (lcall K c w) = f_out w"
  "f_incr (snd (lsys K c w)) = f_incr w" "f_incr (lcall K c w) = f_incr w"
  "f_upper (snd (lsys K c w)) = f_upper w" "f_upper (lcall K c w) = f_upper w"
  by (simp_all add: lcall_def lsys_def split: prod.split)

lemma lsys_fields_eq:
  "lsys K c w = (r, w') \<Longrightarrow> f_stats w' = f_stats w"
  "lsys K c w = (r, w') \<Longrightarrow> f_x w' = f_x w"
  "lsys K c w = (r, w') \<Longrightarrow> f_incr w' = f_incr w"
  "lsys K c w = (r, w') \<Longrightarrow> f_upper w' = f_upper w"
  using lsys_fields(1,3,13,15) [of K c w] by simp_all

lemma adds_run: "adds (run K c) (\<lambda>_. 0)"
  by (simp add: adds_def run_def)

lemma adds_run_or_exit: "adds (run_or_exit K failed c) (\<lambda>_. 0)"
  by (auto simp: adds_def run_or_exit_def split: prod.splits if_splits dest: lsys_fields_eq)

lemma adds_start_time: "adds (start_time K s) (\<lambda>_. 0)"
  by (auto simp: adds_def start_time_def time_so_far_def upd_stat_def split: prod.splits dest: lsys_fields_eq)

lemma adds_end_time: "adds (end_time K s) (\<lambda>_. 0)"
  by (auto simp: adds_def end_time_def time_so_far_def upd_stat_def split: prod.splits dest: lsys_fields_eq)

lemma adds_reset_extremes: "adds (reset_extremes K s n) (\<lambda>_. 0)"
  by (auto simp: adds_def reset_extremes_def upd_stat_def)

lemma count_speed_counter [simp]: "ss_counter (count_speed K v c) = ss_counter c + 1"
  by (simp add: count_speed_def Let_def)

lemma adds_account: "adds (account K s) (once s)"
  by (auto simp: adds_def account_def upd_stat_def once_def)

lemma adds_account_with: "adds (account_with K s t) (once s)"
  by (auto simp: adds_def account_with_def upd_stat_def once_def)

lemmas adds_intros = adds_Nil adds_Cons adds_c_for adds_run adds_run_or_exit adds_start_time
  adds_end_time adds_reset_extremes adds_account adds_account_with

lemma adds_exact: "adds f g \<Longrightarrow> (\<And>s. g s = h s) \<Longrightarrow> adds f h"
  by (simp add: adds_def)

lemma adds_timed: "adds (timed K s failed c) (once s)"
  unfolding timed_def by (rule adds_exact, (rule adds_intros)+) simp

lemma adds_timed_dropped: "adds (timed_dropped K s c) (once s)"
  unfolding timed_dropped_def by (rule adds_exact, (rule adds_intros)+) simp

lemmas adds_rules = adds_timed adds_timed_dropped adds_intros adds_state

section \<open>The tests\<close>

text \<open>The number of directories of the tree, and of files.\<close>

definition tree_dirs :: "int \<Rightarrow> nat" where
  "tree_dirs x = nat x + nat x ^ 2 + nat x ^ 3"

lemmas counting = tree_dirs_def once_def power2_eq_square power3_eq_cube algebra_simps

lemma dir_create_adds: "adds (dir_create K x) (\<lambda>s. tree_dirs x * once STAT_DIR_CREATE s)"
  unfolding dir_create_def by (rule adds_exact, (rule adds_rules)+) (simp add: counting)

lemma dir_delete_adds: "adds (dir_delete K x) (\<lambda>s. tree_dirs x * once STAT_DIR_DELETE s)"
  unfolding dir_delete_def by (rule adds_exact, (rule adds_rules)+) (simp add: counting)

lemma dir_traverse_adds: "adds (dir_traverse K x) (\<lambda>s. tree_dirs x * once STAT_DIR_TRAVERSE s)"
  unfolding dir_traverse_def Let_def by (rule adds_exact, (rule adds_rules)+) (simp add: counting)

lemma adds_same: "(\<And>w w'. f w = Ret w' \<Longrightarrow> f_stats w' = f_stats w \<and> f_x w' = f_x w
    \<and> f_incr w' = f_incr w \<and> f_upper w' = f_upper w) \<Longrightarrow> adds f (\<lambda>_. 0)"
  by (simp add: adds_def)

lemma adds_call:
  assumes "\<And>r. adds (h r) g"
  shows "adds (\<lambda>w. case lsys K (c w) w of (r, w) \<Rightarrow> if bad r then Exit n else h r w) g"
  using assms by (auto simp: adds_def split: prod.splits if_splits dest: lsys_fields_eq)

lemma create_one_adds:
  "adds (create_one K i j k) (\<lambda>s. once STAT_CREATE s + once STAT_WRITE s + once STAT_CLOSE s)"
proof -
  have "adds (\<lambda>w. run K (L_write fd (f_mbuffer w)) w) (\<lambda>_. 0)" for fd
    by (rule adds_same) (auto simp: run_def)
  note rules = adds_rules this
  have "adds (\<lambda>w. obind (start_time K STAT_CREATE w) (\<lambda>w.
      case lsys K (L_creat (name_file i j k) 386) w of (r, w) \<Rightarrow>
        if lr_ret r < 0 then Exit 1
        else do_all
          [end_time K STAT_CREATE, account K STAT_CREATE, start_time K STAT_WRITE,
           (\<lambda>w. run K (L_write (lr_ret r) (f_mbuffer w)) w),
           end_time K STAT_WRITE, account K STAT_WRITE, run K (L_fsync (lr_ret r)),
           start_time K STAT_CLOSE, run K (L_close (lr_ret r)),
           end_time K STAT_CLOSE, account K STAT_CLOSE] w))
    (\<lambda>s. once STAT_CREATE s + once STAT_WRITE s + once STAT_CLOSE s)"
    by (rule adds_exact, rule adds_obind, rule adds_rules, rule adds_call, (rule rules)+) simp
  then show ?thesis
    unfolding adds_def create_one_def Let_def by fastforce
qed

lemma file_create_adds:
  "adds (file_create K x) (\<lambda>s. nat x ^ 3 * (once STAT_CREATE s + once STAT_WRITE s + once STAT_CLOSE s))"
  unfolding file_create_def
  by (rule adds_exact, (rule create_one_adds adds_rules)+) (simp add: counting)

lemma in_each_dir_adds:
  "(\<And>i j. adds (body i j) g) \<Longrightarrow> adds (in_each_dir K x body) (\<lambda>s. nat x ^ 2 * g s)"
  unfolding in_each_dir_def
  by (rule adds_exact, (rule adds_rules | assumption)+) (auto simp: counting)

lemma file_tests_add:
  "adds (file_stat K x) (\<lambda>s. nat x ^ 3 * once STAT_STAT s)"
  "adds (file_access K x) (\<lambda>s. nat x ^ 3 * once STAT_ACCESS s)"
  "adds (file_chmod K x) (\<lambda>s. nat x ^ 3 * once STAT_CHMOD s)"
  "adds (file_link K x) (\<lambda>s. nat x ^ 3 * once STAT_LINK s)"
  "adds (file_unlink K x) (\<lambda>s. nat x ^ 3 * once STAT_UNLINK s)"
  unfolding file_stat_def file_access_def file_chmod_def file_link_def file_unlink_def
  by (rule adds_exact, (rule in_each_dir_adds adds_rules)+, simp add: counting)+

lemma file_readdir_adds: "adds (file_readdir K x) (\<lambda>s. nat x ^ 2 * once STAT_READDIR s)"
proof -
  have "adds (\<lambda>w. case lsys K (L_opendir ''.'') w of (r, w) \<Rightarrow>
      if lr_ret r = 0 then Exit 1
      else do_all [timed K STAT_READDIR is_null (L_readdir (lr_ret r)),
                   run_or_exit K negative (L_closedir (lr_ret r))] w) (once STAT_READDIR)"
    by (rule adds_exact, rule adds_call, (rule adds_rules)+) simp
  note body = this
  show ?thesis
    unfolding file_readdir_def Let_def
    by (rule adds_exact, (rule in_each_dir_adds body adds_rules)+) simp
qed

lemma file_delete_adds: "adds (file_delete K x) (\<lambda>s. nat x ^ 3 * once STAT_DELETE s)"
  unfolding file_delete_def by (rule adds_exact, (rule adds_rules)+) (simp add: counting)

lemma read_one_adds: "adds (read_one K i j k) (\<lambda>s. once STAT_OPEN s + once STAT_READ s)"
proof -
  define tail where "tail fd w = do_all [end_time K STAT_READ, run K (L_close fd), account K STAT_READ] w" for fd w
  define checked where "checked fd w = obind (validate (f_mbuffer w) (nat (f_sz w)) (pattern i j k)) (\<lambda>v.
      tail fd (if v \<noteq> 0 then w\<lparr>f_out := f_out w @ [Data_miscompare]\<rparr> else w))" for fd w
  have "adds (tail fd) (once STAT_READ)" for fd
    unfolding tail_def by (rule adds_exact, (rule adds_rules)+) simp
  then have "adds (checked fd) (once STAT_READ)" for fd
    unfolding adds_def checked_def by (fastforce simp: obind_eq_Ret split: if_splits)
  then have "adds (\<lambda>w. checked fd (w\<lparr>f_mbuffer := buf_put 0 (take (nat (f_sz w)) (lr_data r)) (f_mbuffer w)\<rparr>)) (once STAT_READ)"
    for fd r unfolding adds_def by fastforce
  then have read: "adds (\<lambda>w. case lsys K (L_read fd (f_sz w)) w of (r, w) \<Rightarrow> if lr_ret r < 0 then Exit 1
      else checked fd (w\<lparr>f_mbuffer := buf_put 0 (take (nat (f_sz w)) (lr_data r)) (f_mbuffer w)\<rparr>)) (once STAT_READ)" for fd
    by (rule adds_call)
  have "adds (\<lambda>w. obind (start_time K STAT_OPEN w) (\<lambda>w.
      case lsys K (L_open (name_file i j k) 0 None) w of (r, w) \<Rightarrow>
        if lr_ret r < 0 then Exit 1
        else obind (do_all [end_time K STAT_OPEN, account K STAT_OPEN, start_time K STAT_READ] w) (\<lambda>w.
          case lsys K (L_read (lr_ret r) (f_sz w)) w of (r', w) \<Rightarrow> if lr_ret r' < 0 then Exit 1
          else checked (lr_ret r) (w\<lparr>f_mbuffer := buf_put 0 (take (nat (f_sz w)) (lr_data r')) (f_mbuffer w)\<rparr>))))
     (\<lambda>s. once STAT_OPEN s + once STAT_READ s)"
    by (rule adds_exact, rule adds_obind, rule adds_rules, rule adds_call, rule adds_obind, (rule adds_rules)+, rule read) simp
  then show ?thesis
    unfolding read_one_def Let_def checked_def tail_def .
qed

lemma file_read_adds:
  "adds (file_read K x) (\<lambda>s. nat x ^ 3 * (once STAT_OPEN s + once STAT_READ s))"
  unfolding file_read_def
  by (rule adds_exact, (rule read_one_adds in_each_dir_adds adds_rules)+) (simp add: counting)

lemma purge_adds: "adds (purge_buffer_cache K) (\<lambda>_. 0)"
proof -
  have tries: "f_stats (umount_tries K c is w) = f_stats w \<and> f_x (umount_tries K c is w) = f_x w
      \<and> f_incr (umount_tries K c is w) = f_incr w \<and> f_upper (umount_tries K c is w) = f_upper w" for c "is" w
    by (induction K c "is" w rule: umount_tries.induct) (auto split: prod.splits dest: lsys_fields_eq)
  show ?thesis
    by (rule adds_same)
      (auto simp: purge_buffer_cache_def Let_def obind_eq_Ret tries split: option.splits prod.splits dest: lsys_fields_eq)
qed

lemma report_adds: "adds (verbose_report K l s) (\<lambda>_. 0)" "adds (table_report K) (\<lambda>_. 0)"
  by (rule adds_same; auto simp: verbose_report_def table_report_def Let_def split: if_splits)+

section \<open>A round\<close>

definition round_count :: "int \<Rightarrow> stat_index \<Rightarrow> nat" where
  "round_count x s =
     (if s \<in> {STAT_DIR_CREATE, STAT_DIR_TRAVERSE, STAT_DIR_DELETE} then tree_dirs x
      else if s = STAT_READDIR then nat x ^ 2
      else nat x ^ 3)"

text \<open>Within a round the tests take the force factor from the global, which no statement changes.\<close>

definition adds_at :: "int \<Rightarrow> (('os, 'd) fop \<Rightarrow> ('os, 'd) fop outcome) \<Rightarrow> (stat_index \<Rightarrow> nat) \<Rightarrow> bool" where
  "adds_at x f g \<longleftrightarrow> (\<forall>w w'. f_x w = x \<longrightarrow> f w = Ret w' \<longrightarrow>
     f_x w' = x \<and> f_incr w' = f_incr w \<and> f_upper w' = f_upper w \<and> (\<forall>s. ss_counter (f_stats w' s) = ss_counter (f_stats w s) + of_nat (g s)))"

lemma adds_at_Nil: "adds_at x (do_all []) (\<lambda>_. 0)"
  by (simp add: adds_at_def)

lemma adds_at_Cons:
  assumes "adds_at x f g" "adds_at x (do_all fs) h"
  shows "adds_at x (do_all (f # fs)) (\<lambda>s. g s + h s)"
  unfolding adds_at_def
proof (intro allI impI)
  fix w w' assume w: "f_x w = x" "do_all (f # fs) w = Ret w'"
  then obtain w1 where w1: "f w = Ret w1" "do_all fs w1 = Ret w'" by (auto simp: obind_eq_Ret)
  note first = assms(1) [unfolded adds_at_def, rule_format, OF w(1) w1(1)]
  note rest = assms(2) [unfolded adds_at_def, rule_format, OF conjunct1 [OF first] w1(2)]
  show "f_x w' = x \<and> f_incr w' = f_incr w \<and> f_upper w' = f_upper w \<and> (\<forall>s. ss_counter (f_stats w' s) = ss_counter (f_stats w s) + of_nat (g s + h s))"
    using first rest by simp
qed

lemma adds_at_force: "adds (f x) g \<Longrightarrow> adds_at x (\<lambda>w. f (f_x w) w) g"
  by (auto simp: adds_def adds_at_def)

lemma adds_at_plain: "adds f g \<Longrightarrow> adds_at x f g"
  by (auto simp: adds_def adds_at_def)

lemmas round_rules = adds_at_Nil adds_at_Cons
  adds_at_plain [OF purge_adds] adds_at_plain [OF report_adds(1)] adds_at_plain [OF report_adds(2)]
  adds_at_force [where f = "dir_create K" for K, OF dir_create_adds]
  adds_at_force [where f = "dir_traverse K" for K, OF dir_traverse_adds]
  adds_at_force [where f = "dir_delete K" for K, OF dir_delete_adds]
  adds_at_force [where f = "file_create K" for K, OF file_create_adds]
  adds_at_force [where f = "file_read K" for K, OF file_read_adds]
  adds_at_force [where f = "file_stat K" for K, OF file_tests_add(1)]
  adds_at_force [where f = "file_access K" for K, OF file_tests_add(2)]
  adds_at_force [where f = "file_chmod K" for K, OF file_tests_add(3)]
  adds_at_force [where f = "file_link K" for K, OF file_tests_add(4)]
  adds_at_force [where f = "file_unlink K" for K, OF file_tests_add(5)]
  adds_at_force [where f = "file_readdir K" for K, OF file_readdir_adds]
  adds_at_force [where f = "file_delete K" for K, OF file_delete_adds]

lemma round_tests_add: "adds_at x (do_all (round_tests K)) (round_count x)"
proof -
  have "\<exists>g. adds_at x (do_all (round_tests K)) g \<and> (\<forall>s. g s = round_count x s)"
    unfolding round_tests_defs
    apply (rule exI, rule conjI) apply ((rule round_rules)+)
    apply (rule allI)
    subgoal for s by (cases s) (simp_all only: round_count_def once_def if_True if_False stat_index.distinct simp_thms, simp_all)
    done
  then obtain g where g: "adds_at x (do_all (round_tests K)) g" "\<forall>s. g s = round_count x s" by blast
  then have "g = round_count x" by (intro ext) simp
  with g(1) show ?thesis by simp
qed

lemma fileop_round_counters:
  assumes "fileop_round K x w = Ret w'"
  shows "ss_counter (f_stats w' s) = of_nat (round_count x s)" "f_x w' = x" "f_incr w' = f_incr w" "f_upper w' = f_upper w"
proof -
  from assms obtain w1 where "clear_stats K w = Ret w1" and *: "do_all (round_tests K) (w1\<lparr>f_x := x\<rparr>) = Ret w'"
    by (auto simp: fileop_round_def obind_eq_Ret)
  then have "ss_counter (f_stats (w1\<lparr>f_x := x\<rparr>) s) = 0 \<and> f_incr w1 = f_incr w \<and> f_upper w1 = f_upper w"
    by (auto simp: clear_stats_def Let_def)
  moreover have "f_x w' = x \<and> f_incr w' = f_incr w1 \<and> f_upper w' = f_upper w1 \<and> ss_counter (f_stats w' s) = ss_counter (f_stats (w1\<lparr>f_x := x\<rparr>) s) + of_nat (round_count x s)"
    using round_tests_add [of x K, unfolded adds_at_def, rule_format, OF _ *] by simp
  ultimately show "ss_counter (f_stats w' s) = of_nat (round_count x s)" "f_x w' = x" "f_incr w' = f_incr w" "f_upper w' = f_upper w"
    by simp_all
qed

end
