(* ===== verification/Fileop_Tree.thy ===== *)
theory Fileop_Tree
  imports Fileop_Counts
begin

text \<open>
  What \<open>fileop.c\<close> relies on of a file system: the tree of directories and files that its calls
  see and change. \<open>tree_can\<close> says when a call must succeed, \<open>tree_step\<close> what it then does; the
  locale \<open>tree_files\<close> demands both of a system, whatever else it does, and \<open>tree_machine\<close> is a
  system that satisfies it. Paths are lists of names from the root.
\<close>

section \<open>Trees\<close>

type_synonym path = "string list"

record tree =
  t_dirs :: "path set"
  t_files :: "path set"
  t_data :: "path \<Rightarrow> byte list"
  t_cwd :: path
  t_fds :: "(int \<times> path) list"
  t_streams :: "int list"

definition plain :: "string \<Rightarrow> bool" where
  "plain n \<longleftrightarrow> n \<noteq> ''.'' \<and> n \<noteq> ''..'' \<and> n \<noteq> []"

definition path_of :: "tree \<Rightarrow> string \<Rightarrow> path" where
  "path_of T n =
     (if n = ''.'' then t_cwd T else if n = ''..'' then butlast (t_cwd T) else t_cwd T @ [n])"

definition is_free :: "tree \<Rightarrow> path \<Rightarrow> bool" where
  "is_free T p \<longleftrightarrow> p \<notin> t_dirs T \<and> p \<notin> t_files T"

definition no_entries :: "tree \<Rightarrow> path \<Rightarrow> bool" where
  "no_entries T p \<longleftrightarrow> (\<forall>q \<in> t_dirs T \<union> t_files T. q = [] \<or> butlast q \<noteq> p)"

fun tree_can :: "load_call \<Rightarrow> tree \<Rightarrow> bool" where
  "tree_can (L_mkdir n m) T = (plain n \<and> t_cwd T \<in> t_dirs T \<and> is_free T (path_of T n))"
| "tree_can (L_rmdir n) T = (plain n \<and> path_of T n \<in> t_dirs T \<and> no_entries T (path_of T n))"
| "tree_can (L_chdir n) T = (path_of T n \<in> t_dirs T)"
| "tree_can (L_creat n m) T = (plain n \<and> t_cwd T \<in> t_dirs T \<and> is_free T (path_of T n))"
| "tree_can (L_open n f m) T = (path_of T n \<in> t_files T)"
| "tree_can (L_write fd bs) T = (fd \<in> fst ` set (t_fds T))"
| "tree_can (L_read fd n) T = (fd \<in> fst ` set (t_fds T) \<and> 0 \<le> n)"
| "tree_can (L_fsync fd) T = (fd \<in> fst ` set (t_fds T))"
| "tree_can (L_close fd) T = (fd \<in> fst ` set (t_fds T))"
| "tree_can (L_stat n) T = (path_of T n \<in> t_files T)"
| "tree_can (L_access n m) T = (path_of T n \<in> t_files T)"
| "tree_can (L_chmod n m) T = (path_of T n \<in> t_files T)"
| "tree_can (L_link n n') T = (plain n' \<and> path_of T n \<in> t_files T \<and> is_free T (path_of T n'))"
| "tree_can (L_unlink n) T = (plain n \<and> path_of T n \<in> t_files T)"
| "tree_can (L_opendir n) T = (path_of T n \<in> t_dirs T)"
| "tree_can (L_readdir d) T = (d \<in> set (t_streams T))"
| "tree_can (L_closedir d) T = (d \<in> set (t_streams T))"
| "tree_can L_gettimeofday T = True"
| "tree_can _ T = False"

text \<open>The values that a call may return when it succeeds: a new descriptor is not in use.\<close>

fun tree_good :: "load_call \<Rightarrow> int \<Rightarrow> byte list \<Rightarrow> tree \<Rightarrow> bool" where
  "tree_good (L_creat n m) r d T = (0 \<le> r \<and> r \<notin> fst ` set (t_fds T))"
| "tree_good (L_open n f m) r d T = (0 \<le> r \<and> r \<notin> fst ` set (t_fds T))"
| "tree_good (L_read fd n) r d T = (\<exists>p. map_of (t_fds T) fd = Some p \<and> d = take (nat n) (t_data T p) \<and> r = int (length d))"
| "tree_good (L_opendir n) r d T = (0 < r \<and> r \<notin> set (t_streams T))"
| "tree_good (L_readdir s) r d T = (r \<noteq> 0)"
| "tree_good c r d T = (0 \<le> r)"

fun tree_step :: "load_call \<Rightarrow> int \<Rightarrow> tree \<Rightarrow> tree" where
  "tree_step (L_mkdir n m) r T = T\<lparr>t_dirs := insert (path_of T n) (t_dirs T)\<rparr>"
| "tree_step (L_rmdir n) r T = T\<lparr>t_dirs := t_dirs T - {path_of T n}\<rparr>"
| "tree_step (L_chdir n) r T = T\<lparr>t_cwd := path_of T n\<rparr>"
| "tree_step (L_creat n m) r T =
     T\<lparr>t_files := insert (path_of T n) (t_files T), t_data := (t_data T)(path_of T n := []),
       t_fds := (r, path_of T n) # t_fds T\<rparr>"
| "tree_step (L_open n f m) r T = T\<lparr>t_fds := (r, path_of T n) # t_fds T\<rparr>"
| "tree_step (L_write fd bs) r T =
     (case map_of (t_fds T) fd of None \<Rightarrow> T
      | Some p \<Rightarrow> T\<lparr>t_data := (t_data T)(p := t_data T p @ bs)\<rparr>)"
| "tree_step (L_close fd) r T = T\<lparr>t_fds := filter (\<lambda>(k, p). k \<noteq> fd) (t_fds T)\<rparr>"
| "tree_step (L_link n n') r T =
     T\<lparr>t_files := insert (path_of T n') (t_files T),
       t_data := (t_data T)(path_of T n' := t_data T (path_of T n))\<rparr>"
| "tree_step (L_unlink n) r T =
     T\<lparr>t_files := t_files T - {path_of T n}, t_data := (t_data T)(path_of T n := [])\<rparr>"
| "tree_step (L_opendir n) r T = T\<lparr>t_streams := r # t_streams T\<rparr>"
| "tree_step (L_closedir d) r T = T\<lparr>t_streams := filter (\<lambda>k. k \<noteq> d) (t_streams T)\<rparr>"
| "tree_step c r T = T"

locale tree_files =
  fixes K :: "('os, 'd) fop_machine" and view :: "'os \<Rightarrow> tree"
  assumes call_good: "tree_can c (view os) \<Longrightarrow>
      tree_good c (lr_ret (fst (lk_sys K c os))) (lr_data (fst (lk_sys K c os))) (view os)"
    and call_step: "tree_can c (view os) \<Longrightarrow>
      view (snd (lk_sys K c os)) = tree_step c (lr_ret (fst (lk_sys K c os))) (view os)"

section \<open>A file system in memory\<close>

definition fresh_above :: "int list \<Rightarrow> int" where
  "fresh_above ks = 1 + foldr max ks 2"

lemma fresh_above: "0 < fresh_above ks" "fresh_above ks \<notin> set ks"
proof -
  have "k \<in> set ks \<Longrightarrow> k < fresh_above ks" for k
    by (induction ks) (auto simp: fresh_above_def)
  then show "fresh_above ks \<notin> set ks" by blast
  show "0 < fresh_above ks"
    by (induction ks) (auto simp: fresh_above_def)
qed

fun tree_result :: "load_call \<Rightarrow> tree \<Rightarrow> int \<times> byte list" where
  "tree_result (L_creat n m) T = (fresh_above (map fst (t_fds T)), [])"
| "tree_result (L_open n f m) T = (fresh_above (map fst (t_fds T)), [])"
| "tree_result (L_read fd n) T =
     (case map_of (t_fds T) fd of None \<Rightarrow> (-1, [])
      | Some p \<Rightarrow> let d = take (nat n) (t_data T p) in (int (length d), d))"
| "tree_result (L_opendir n) T = (fresh_above (t_streams T), [])"
| "tree_result (L_readdir d) T = (1, [])"
| "tree_result c T = (0, [])"

text \<open>
  The state is the tree and the time in microseconds, which each call advances; a call that the
  tree does not allow fails. Times are whole numbers of microseconds.
\<close>

definition tree_sys :: "load_call \<Rightarrow> tree \<times> nat \<Rightarrow> load_ret \<times> tree \<times> nat" where
  "tree_sys c s =
     (case s of (T, t) \<Rightarrow>
      let (r, d) = (if tree_can c T then tree_result c T else (-1, []))
      in (\<lparr>lr_ret = r, lr_data = d, lr_text = [], lr_sec = 0, lr_usec = int t\<rparr>,
          if tree_can c T then tree_step c r T else T, t + 1))"

definition tree_machine :: "(tree \<times> nat, int) fop_machine" where
  "tree_machine =
     \<lparr>lk_sys = tree_sys, lk_junk = (\<lambda>_. 0), lk_llong = (\<lambda>_. []), lk_double = (\<lambda>_. []),
      fm_lit = (\<lambda>m e. m * 10 ^ (6 - e)), fm_of_int = (\<lambda>n. 1000000 * n),
      fm_add = (\<lambda>x y. x + y), fm_sub = (\<lambda>x y. x - y), fm_mul = (\<lambda>x y. x * y div 1000000),
      fm_div = (\<lambda>x y. x * 1000000 div y), fm_less = (\<lambda>x y. x < y)\<rparr>"

lemma tree_result_good:
  "tree_can c T \<Longrightarrow> tree_good c (fst (tree_result c T)) (snd (tree_result c T)) T"
proof (induction c T rule: tree_result.induct)
  case (3 fd n T)
  then obtain p where "map_of (t_fds T) fd = Some p"
    by (auto simp: map_of_eq_None_iff [symmetric] image_iff dest!: weak_map_of_SomeI)
  then show ?case by (simp add: Let_def)
qed (use fresh_above in \<open>auto simp: less_imp_le simp flip: set_map\<close>)

interpretation tree_machine: tree_files tree_machine fst
proof
  fix c :: load_call and os :: "tree \<times> nat"
  assume "tree_can c (fst os)"
  then show "tree_good c (lr_ret (fst (lk_sys tree_machine c os))) (lr_data (fst (lk_sys tree_machine c os))) (fst os)"
    "fst (snd (lk_sys tree_machine c os)) = tree_step c (lr_ret (fst (lk_sys tree_machine c os))) (fst os)"
    using tree_result_good [of c "fst os"]
    by (simp_all add: tree_machine_def tree_sys_def split_beta Let_def)
qed

end
