(* ===== verification/Fileop_Walk.thy ===== *)
theory Fileop_Walk
  imports Fileop_Tree
begin

text \<open>
  How the tests of \<open>fileop.c\<close> move through the tree. \<open>goes\<close> is total correctness over trees: from
  every state with the first tree the statement returns, in a state with the second, without a
  complaint about the data; with the flag \<open>keep\<close> the buffer keeps its contents too. Inside the locale \<open>tree_files\<close> each loop gets its lemma once.
\<close>

section \<open>Total correctness over trees\<close>

definition complaints :: "('os, 'd) fop \<Rightarrow> nat" where
  "complaints w = length (filter (\<lambda>p. p = Data_miscompare) (f_out w))"

definition at_tree :: "('os \<Rightarrow> tree) \<Rightarrow> nat \<Rightarrow> ('os, 'd) fop \<Rightarrow> tree \<Rightarrow> bool" where
  "at_tree view n w T \<longleftrightarrow>
     view (l_os w) = T \<and> f_sz w = int n \<and> length (f_mbuffer w) = n \<and> f_mountname w = None"

definition goes :: "('os \<Rightarrow> tree) \<Rightarrow> nat \<Rightarrow> bool \<Rightarrow> (('os, 'd) fop \<Rightarrow> ('os, 'd) fop outcome) \<Rightarrow> tree \<Rightarrow> tree \<Rightarrow> bool" where
  "goes view n keep f T T' \<longleftrightarrow> (\<forall>w. at_tree view n w T \<longrightarrow>
     (\<exists>w'. f w = Ret w' \<and> at_tree view n w' T' \<and> complaints w' = complaints w \<and> f_x w' = f_x w
       \<and> (keep \<longrightarrow> f_mbuffer w' = f_mbuffer w)))"

lemma goes_Nil: "goes view n keep (do_all []) T T"
  by (simp add: goes_def)

lemma goes_Cons:
  "goes view n keep f T T' \<Longrightarrow> goes view n keep (do_all fs) T' T'' \<Longrightarrow> goes view n keep (do_all (f # fs)) T T''"
  by (fastforce simp: goes_def)

lemma goes_map:
  "(\<And>m. m < length is \<Longrightarrow> goes view n keep (body (is ! m)) (F m) (F (Suc m)))
    \<Longrightarrow> goes view n keep (do_all (map body is)) (F 0) (F (length is))"
proof (induction "is" arbitrary: F)
  case (Cons i "is")
  have "goes view n keep (body i) (F 0) (F 1)"
    using Cons.prems [of 0] by simp
  moreover have "goes view n keep (do_all (map body is)) (F 1) (F (Suc (length is)))"
    using Cons.IH [of "\<lambda>m. F (Suc m)"] Cons.prems [of "Suc _"] by simp
  ultimately show ?case
    by (simp only: list.map length_Cons) (rule goes_Cons)
qed (use goes_Nil in simp)

lemma goes_c_for:
  "(\<And>m. m < x \<Longrightarrow> goes view n keep (body (int m)) (F m) (F (Suc m)))
    \<Longrightarrow> goes view n keep (c_for (int x) body) (F 0) (F x)"
  unfolding c_for_def using goes_map [of "[0..<x]" view n keep "\<lambda>i. body (int i)" F] by simp

lemma goes_state: "(\<And>w. goes view n keep (do_all (F w)) T T') \<Longrightarrow> goes view n keep (\<lambda>w. do_all (F w) w) T T'"
  by (simp add: goes_def)

lemma goes_upd_stat:
  "at_tree view n (upd_stat s g w) T = at_tree view n w T"
  "complaints (upd_stat s g w) = complaints w" "f_x (upd_stat s g w) = f_x w"
  "f_mbuffer (upd_stat s g w) = f_mbuffer w"
  by (simp_all add: at_tree_def complaints_def upd_stat_def)

lemma goes_account:
  "goes view n keep (account K s) T T" "goes view n keep (account_with K s t) T T" "goes view n keep (reset_extremes K s t') T T"
  by (simp_all add: goes_def account_def account_with_def reset_extremes_def goes_upd_stat)

lemma goes_purge: "goes view n keep (purge_buffer_cache K) T T"
  by (simp add: goes_def purge_buffer_cache_def at_tree_def)

lemma goes_report: "goes view n keep (verbose_report K l s) T T" "goes view n keep (table_report K) T T"
  by (auto simp: goes_def verbose_report_def table_report_def at_tree_def complaints_def Let_def table_row_def)

lemma do_all_append: "do_all (fs @ gs) w = obind (do_all fs w) (do_all gs)"
proof (induction fs arbitrary: w)
  case (Cons f fs)
  then show ?case by (cases "f w") simp_all
qed simp

section \<open>Calls\<close>

context tree_files
begin

lemma goes_lsys:
  assumes "at_tree view n w T" "tree_can c T" "\<And>r d. tree_good c r d T \<Longrightarrow> tree_step c r T = T'"
  shows "at_tree view n (snd (lsys K c w)) T'" "complaints (snd (lsys K c w)) = complaints w"
    "tree_good c (lr_ret (fst (lsys K c w))) (lr_data (fst (lsys K c w))) T"
  using assms call_good [of c "l_os w"] call_step [of c "l_os w"]
  by (auto simp: at_tree_def complaints_def)

lemma goes_run:
  "tree_can c T \<Longrightarrow> (\<And>r d. tree_good c r d T \<Longrightarrow> tree_step c r T = T') \<Longrightarrow> goes view n keep (run K c) T T'"
  using goes_lsys [of n _ T c T'] by (auto simp: goes_def run_def lcall_def)

lemma goes_run_or_exit:
  "tree_can c T \<Longrightarrow> (\<And>r d. tree_good c r d T \<Longrightarrow> tree_step c r T = T' \<and> \<not> failed r)
    \<Longrightarrow> goes view n keep (run_or_exit K failed c) T T'"
  using goes_lsys [of n _ T c T'] by (fastforce simp: goes_def run_or_exit_def split_beta)

lemma goes_clock: "goes view n keep (start_time K s) T T" "goes view n keep (end_time K s) T T"
  using goes_lsys [of n _ T L_gettimeofday T]
  by (auto simp: goes_def start_time_def end_time_def time_so_far_def split_beta goes_upd_stat)

lemmas goes_basic = goes_Nil goes_Cons goes_clock goes_account

lemma goes_timed:
  "tree_can c T \<Longrightarrow> (\<And>r d. tree_good c r d T \<Longrightarrow> tree_step c r T = T' \<and> \<not> failed r)
    \<Longrightarrow> goes view n keep (timed K s failed c) T T'"
  unfolding timed_def by (rule goes_basic goes_run_or_exit | assumption)+

lemma goes_timed_dropped:
  "tree_can c T \<Longrightarrow> (\<And>r d. tree_good c r d T \<Longrightarrow> tree_step c r T = T')
    \<Longrightarrow> goes view n keep (timed_dropped K s c) T T'"
  unfolding timed_dropped_def by (rule goes_basic goes_run | assumption)+

end

section \<open>Names\<close>

lemma show_int_nat: "show_int (int n) = show_nat n"
  by (simp add: show_int_def)

lemma show_nat_inject [simp]: "show_nat m = show_nat n \<longleftrightarrow> m = n"
  by (metis digits_val_show_nat)

lemma names_inject [simp]:
  "name_L1 (int i) = name_L1 (int i') \<longleftrightarrow> i = i'"
  "name_L2 (int i) (int j) = name_L2 (int i) (int j') \<longleftrightarrow> j = j'"
  "name_dir (int i) (int j) (int k) = name_dir (int i) (int j) (int k') \<longleftrightarrow> k = k'"
  "name_file (int i) (int j) (int k) = name_file (int i) (int j) (int k') \<longleftrightarrow> k = k'"
  "name_link (int i) (int j) (int k) = name_link (int i) (int j) (int k') \<longleftrightarrow> k = k'"
  by (simp_all add: name_L1_def name_L2_def name_dir_def name_file_def name_link_def show_int_nat)

lemma name_link_not_file [simp]: "name_link (int i) (int j) (int k) \<noteq> name_file (int i) (int j) (int k')"
  "name_file (int i) (int j) (int k') \<noteq> name_link (int i) (int j) (int k)"
proof -
  have "is_digit (last (show_nat k'))"
    using show_nat_digits [of k'] last_in_set [OF show_nat_nonempty, of k'] by blast
  moreover have "\<not> is_digit (CHR ''L'')"
    by (simp add: is_digit_def)
  ultimately have "last (show_nat k') \<noteq> CHR ''L''" by auto
  then have "show_nat k @ ''L'' \<noteq> show_nat k'"
    by (metis last_snoc)
  then show "name_link (int i) (int j) (int k) \<noteq> name_file (int i) (int j) (int k')"
    "name_file (int i) (int j) (int k') \<noteq> name_link (int i) (int j) (int k)"
    by (auto simp: name_link_def name_file_def show_int_nat)
qed

lemma names_plain [simp]:
  "plain (name_L1 i)" "plain (name_L2 i j)" "plain (name_dir i j k)" "plain (name_file i j k)" "plain (name_link i j k)"
  by (simp_all add: plain_def name_L1_def name_L2_def name_dir_def name_file_def name_link_def)

section \<open>Trees with what the program has made\<close>

text \<open>
  \<open>grown C T D F s\<close> is \<open>T\<close> with directories \<open>D\<close> and files \<open>F\<close>, of contents \<open>C\<close>, added below its
  working directory, and the working directory moved down to \<open>s\<close>; \<open>bare T\<close> says that \<open>T\<close> has
  nothing there that the program could collide with.
\<close>

definition ours :: "path \<Rightarrow> bool" where
  "ours q \<longleftrightarrow> q \<noteq> [] \<and> (\<exists>i. hd q = name_L1 (int i))"

definition bare :: "tree \<Rightarrow> bool" where
  "bare T \<longleftrightarrow> t_cwd T \<in> t_dirs T \<and>
     (\<forall>q. ours q \<longrightarrow> is_free T (t_cwd T @ q) \<and> t_data T (t_cwd T @ q) = [])"

definition grown :: "(path \<Rightarrow> byte list) \<Rightarrow> tree \<Rightarrow> path set \<Rightarrow> path set \<Rightarrow> path \<Rightarrow> tree" where
  "grown C T D F s =
     T\<lparr>t_dirs := t_dirs T \<union> (@) (t_cwd T) ` D, t_files := t_files T \<union> (@) (t_cwd T) ` F,
       t_data := (\<lambda>p. if p \<in> (@) (t_cwd T) ` F then C (drop (length (t_cwd T)) p) else t_data T p),
       t_cwd := t_cwd T @ s\<rparr>"

lemma grown_nothing [simp]: "grown C T {} {} [] = T"
  by (simp add: grown_def)

lemma path_of_grown [simp]:
  "plain n \<Longrightarrow> path_of (grown C T D F s) n = t_cwd T @ s @ [n]"
  "path_of (grown C T D F (s @ [m])) ''..'' = t_cwd T @ s"
  "path_of (grown C T D F s) ''.'' = t_cwd T @ s"
  by (simp_all add: path_of_def plain_def grown_def butlast_append)

lemma ours_simps [simp]: "ours (name_L1 (int i) # q)"
  by (auto simp: ours_def)

lemma in_grown:
  assumes "bare T" "ours q"
  shows "t_cwd T @ q \<in> t_dirs (grown C T D F s) \<longleftrightarrow> q \<in> D"
    "t_cwd T @ q \<in> t_files (grown C T D F s) \<longleftrightarrow> q \<in> F"
    "is_free (grown C T D F s) (t_cwd T @ q) \<longleftrightarrow> q \<notin> D \<and> q \<notin> F"
  using assms by (auto simp: grown_def bare_def is_free_def)

lemma cwd_grown: "bare T \<Longrightarrow> s = [] \<or> s \<in> D \<Longrightarrow> t_cwd T @ s \<in> t_dirs (grown C T D F s')"
  by (auto simp: grown_def bare_def)

lemma t_cwd_grown [simp]: "t_cwd (grown C T D F s) = t_cwd T @ s"
  by (simp add: grown_def)

lemma grown_chdir:
  assumes "bare T" "plain n" "s @ [n] \<in> D"
  shows "tree_can (L_chdir n) (grown C T D F s)"
    "tree_step (L_chdir n) r (grown C T D F s) = grown C T D F (s @ [n])"
  using assms cwd_grown [of T "s @ [n]" D C F s] by (simp_all) (simp add: grown_def)

lemma grown_up:
  assumes "bare T" "s = [] \<or> s \<in> D"
  shows "tree_can (L_chdir ''..'') (grown C T D F (s @ [m]))"
    "tree_step (L_chdir ''..'') r (grown C T D F (s @ [m])) = grown C T D F s"
  using assms cwd_grown [of T s D C F "s @ [m]"] by (simp_all) (simp add: grown_def)

lemma grown_mkdir:
  assumes "bare T" "plain n" "s = [] \<or> s \<in> D" "ours (s @ [n])" "s @ [n] \<notin> D" "s @ [n] \<notin> F"
  shows "tree_can (L_mkdir n m) (grown C T D F s)"
    "tree_step (L_mkdir n m) r (grown C T D F s) = grown C T (insert (s @ [n]) D) F s"
  using assms cwd_grown [of T s D C F s] in_grown [of T "s @ [n]" C D F s] by (simp_all) (simp add: grown_def)

lemma grown_rmdir:
  assumes "bare T" "plain n" "ours (s @ [n])" "s @ [n] \<in> D" "\<And>q. q \<in> D \<union> F \<Longrightarrow> q \<noteq> [] \<and> butlast q \<noteq> s @ [n]"
  shows "tree_can (L_rmdir n) (grown C T D F s)"
    "tree_step (L_rmdir n) r (grown C T D F s) = grown C T (D - {s @ [n]}) F s"
proof -
  have free: "t_cwd T @ q \<notin> t_dirs T" "t_cwd T @ q \<notin> t_files T" if "ours q" for q
    using that assms(1) by (auto simp: bare_def is_free_def)
  have below: "ours (s @ [n, m])" for m
    using assms(3) by (auto simp: ours_def hd_append)
  have base: "q = [] \<or> butlast q \<noteq> t_cwd T @ s @ [n]" if "q \<in> t_dirs T \<union> t_files T" for q
  proof (rule ccontr)
    assume "\<not> ?thesis"
    then have "q = t_cwd T @ s @ [n, last q]"
      using append_butlast_last_id [of q] by simp
    with that free [of "s @ [n, last q]"] below show False by auto
  qed
  have "no_entries (grown C T D F s) (t_cwd T @ s @ [n])"
    using assms(5) base by (auto simp: no_entries_def grown_def butlast_append)
  with assms show "tree_can (L_rmdir n) (grown C T D F s)"
    using in_grown [of T "s @ [n]" C D F s] by simp
  from assms show "tree_step (L_rmdir n) r (grown C T D F s) = grown C T (D - {s @ [n]}) F s"
    using free [of "s @ [n]"] by (intro tree.equality) (auto simp: grown_def path_of_def plain_def)
qed

lemma grown_file:
  assumes "bare T" "plain n" "ours (s @ [n])" "s @ [n] \<in> F"
  shows "tree_can (L_stat n) (grown C T D F s)" "tree_can (L_access n m) (grown C T D F s)"
    "tree_can (L_chmod n m) (grown C T D F s)" "tree_can (L_open n m om) (grown C T D F s)"
  using assms in_grown [of T "s @ [n]" C D F s] by simp_all

lemma grown_link:
  assumes "bare T" "plain n" "plain n'" "ours (s @ [n])" "ours (s @ [n'])" "s @ [n] \<in> F"
    "s @ [n'] \<notin> D" "s @ [n'] \<notin> F" "C (s @ [n']) = C (s @ [n])"
  shows "tree_can (L_link n n') (grown C T D F s)"
    "tree_step (L_link n n') r (grown C T D F s) = grown C T D (insert (s @ [n']) F) s"
  using assms in_grown [of T "s @ [n]" C D F s] in_grown [of T "s @ [n']" C D F s]
  by (simp_all) (auto simp: grown_def fun_eq_iff)

lemma grown_unlink:
  assumes "bare T" "plain n" "ours (s @ [n])" "s @ [n] \<in> F"
  shows "tree_can (L_unlink n) (grown C T D F s)"
    "tree_step (L_unlink n) r (grown C T D F s) = grown C T D (F - {s @ [n]}) s"
proof -
  from assms show "tree_can (L_unlink n) (grown C T D F s)"
    using in_grown [of T "s @ [n]" C D F s] by simp
  have "t_cwd T @ s @ [n] \<notin> t_files T" "t_data T (t_cwd T @ s @ [n]) = []"
    using assms(1,3) by (auto simp: bare_def is_free_def)
  with assms show "tree_step (L_unlink n) r (grown C T D F s) = grown C T D (F - {s @ [n]}) s"
    by (intro tree.equality) (auto simp: grown_def fun_eq_iff path_of_def plain_def)
qed

end
