(* ===== verification/Fileop_One.thy ===== *)
theory Fileop_One
  imports Fileop_Walk
begin

text \<open>
  What the tests of \<open>fileop.c\<close> do to one file on a file system that keeps its promises, and the
  steps and loops over directories that they share.
\<close>

section \<open>One file\<close>

context tree_files
begin

lemma create_one_goes:
  assumes "bare T" "s = [] \<or> s \<in> D" "ours (s @ [name_file i j k])"
    and "s @ [name_file i j k] \<notin> D" "s @ [name_file i j k] \<notin> F"
    and C: "C (s @ [name_file i j k]) = replicate n (pattern i j k)"
  shows "goes view n False (create_one K i j k) (grown C T D F s)
    (grown C T D (insert (s @ [name_file i j k]) F) s)"
  unfolding goes_def
proof (intro allI impI)
  let ?nm = "name_file i j k" and ?b = "replicate n (pattern i j k)"
  let ?p = "t_cwd T @ s @ [?nm]" and ?G = "grown C T D F s"
  fix w :: "('os, 'd) fop"
  assume w: "at_tree view n w ?G"
  let ?w = "w\<lparr>f_mbuffer := ?b\<rparr>"
  have "at_tree view n ?w ?G" using w by (simp add: at_tree_def)
  with goes_clock(1) [of n True STAT_CREATE ?G] obtain w1 where
    w1: "start_time K STAT_CREATE ?w = Ret w1" "at_tree view n w1 ?G" "complaints w1 = complaints ?w"
      "f_x w1 = f_x w" "f_mbuffer w1 = ?b"
    by (fastforce simp: goes_def)
  let ?c = "L_creat ?nm 386"
  obtain r w2 where r: "lsys K ?c w1 = (r, w2)" by fastforce
  let ?fd = "lr_ret r" and ?T2 = "tree_step ?c (lr_ret r) ?G"
  have can: "tree_can ?c ?G"
    using assms cwd_grown [of T s D C F s] in_grown [of T "s @ [?nm]" C D F s] by simp
  have "at_tree view n w2 ?T2" and good: "0 \<le> ?fd" "?fd \<notin> fst ` set (t_fds ?G)"
    and w2: "complaints w2 = complaints ?w" "f_x w2 = f_x w" "f_mbuffer w2 = ?b"
    using call_good [of ?c "l_os w1"] call_step [of ?c "l_os w1"] w1 r can
      lsys_os(1,3) [of K ?c w1] lsys_fields(3,5,7,9,11) [of K ?c w1]
    by (auto simp: at_tree_def complaints_def)
  have "goes view n True (do_all [end_time K STAT_CREATE, account K STAT_CREATE, start_time K STAT_WRITE]) ?T2 ?T2"
    by (rule goes_basic)+
  with \<open>at_tree view n w2 ?T2\<close> w2 obtain w3 where
    w3: "do_all [end_time K STAT_CREATE, account K STAT_CREATE, start_time K STAT_WRITE] w2 = Ret w3"
      "at_tree view n w3 ?T2" "complaints w3 = complaints ?w" "f_x w3 = f_x w" "f_mbuffer w3 = ?b"
    by (auto simp: goes_def)
  let ?T3 = "tree_step (L_write ?fd ?b) 0 ?T2"
  have fds: "t_fds ?T2 = (?fd, ?p) # t_fds ?G" by simp
  then have fds': "t_fds ?T3 = (?fd, ?p) # t_fds ?G" by simp
  have wr: "goes view n True (run K (L_write ?fd ?b)) ?T2 ?T3"
    by (rule goes_run) (simp_all add: fds del: tree_step.simps(4))
  have sync: "goes view n True (run K (L_fsync ?fd)) ?T3 ?T3"
    by (rule goes_run) (simp_all add: fds' del: tree_step.simps(4,6))
  have cl: "goes view n True (run K (L_close ?fd)) ?T3 (tree_step (L_close ?fd) 0 ?T3)"
    by (rule goes_run) (simp_all add: fds' del: tree_step.simps(4,6))
  have "goes view n True (do_all
      [run K (L_write ?fd ?b), end_time K STAT_WRITE, account K STAT_WRITE, run K (L_fsync ?fd), start_time K STAT_CLOSE,
       run K (L_close ?fd), end_time K STAT_CLOSE, account K STAT_CLOSE]) ?T2 (tree_step (L_close ?fd) 0 ?T3)"
    by (rule goes_basic wr sync cl)+
  with w3 obtain w4 where w4: "do_all
      [run K (L_write ?fd ?b), end_time K STAT_WRITE, account K STAT_WRITE, run K (L_fsync ?fd), start_time K STAT_CLOSE,
       run K (L_close ?fd), end_time K STAT_CLOSE, account K STAT_CLOSE] w3 = Ret w4"
      "at_tree view n w4 (tree_step (L_close ?fd) 0 ?T3)" "complaints w4 = complaints ?w" "f_x w4 = f_x w"
    by (auto simp: goes_def)
  have "tree_step (L_close ?fd) 0 ?T3 = grown C T D (insert (s @ [?nm]) F) s"
  proof -
    have "filter (\<lambda>(k, p). k \<noteq> ?fd) (t_fds ?G) = t_fds ?G"
      using good(2) by (force simp: filter_id_conv)
    then show ?thesis
      using C fds by (intro tree.equality) (auto simp: grown_def fun_eq_iff path_of_def)
  qed
  moreover have "create_one K i j k w = Ret w4"
  proof -
    let ?rest = "[end_time K STAT_WRITE, account K STAT_WRITE, run K (L_fsync ?fd), start_time K STAT_CLOSE,
       run K (L_close ?fd), end_time K STAT_CLOSE, account K STAT_CLOSE]"
    have "do_all ((\<lambda>w. run K (L_write ?fd (f_mbuffer w)) w) # ?rest) w3 = Ret w4"
      using w4(1) w3(5) by simp
    with w3(1) have "do_all ([end_time K STAT_CREATE, account K STAT_CREATE, start_time K STAT_WRITE]
        @ (\<lambda>w. run K (L_write ?fd (f_mbuffer w)) w) # ?rest) w2 = Ret w4"
      by (simp only: do_all_append obind.simps)
    moreover have "w\<lparr>f_mbuffer := replicate (nat (f_sz w)) (pattern i j k)\<rparr> = ?w"
      using w by (simp add: at_tree_def)
    ultimately show ?thesis
      using w1(1) r good(1) by (simp add: create_one_def Let_def)
  qed
  ultimately show "\<exists>w'. create_one K i j k w = Ret w'
      \<and> at_tree view n w' (grown C T D (insert (s @ [?nm]) F) s)
      \<and> complaints w' = complaints w \<and> f_x w' = f_x w \<and> (False \<longrightarrow> f_mbuffer w' = f_mbuffer w)"
    using w4 by (simp add: complaints_def)
qed

lemma validate_replicate: "validate (replicate n v) n v = Ret 0"
  by (induction n) simp_all

lemma read_one_goes:
  assumes "bare T" "ours (s @ [name_file i j k])" "s @ [name_file i j k] \<in> F"
    and C: "C (s @ [name_file i j k]) = replicate n (pattern i j k)"
  shows "goes view n False (read_one K i j k) (grown C T D F s) (grown C T D F s)"
  unfolding goes_def
proof (intro allI impI)
  let ?nm = "name_file i j k" and ?b = "replicate n (pattern i j k)"
  let ?p = "t_cwd T @ s @ [?nm]" and ?G = "grown C T D F s"
  fix w :: "('os, 'd) fop"
  assume w: "at_tree view n w ?G"
  with goes_clock(1) [of n True STAT_OPEN ?G] obtain w1 where
    w1: "start_time K STAT_OPEN w = Ret w1" "at_tree view n w1 ?G" "complaints w1 = complaints w" "f_x w1 = f_x w"
    by (fastforce simp: goes_def)
  let ?c = "L_open ?nm 0 None"
  obtain r w2 where r: "lsys K ?c w1 = (r, w2)" by fastforce
  let ?fd = "lr_ret r" and ?T2 = "tree_step ?c (lr_ret r) ?G"
  have can: "tree_can ?c ?G"
    using grown_file(4) assms by simp
  have "at_tree view n w2 ?T2" and good: "0 \<le> ?fd" "?fd \<notin> fst ` set (t_fds ?G)"
    and w2: "complaints w2 = complaints w" "f_x w2 = f_x w"
    using call_good [of ?c "l_os w1"] call_step [of ?c "l_os w1"] w1 r can
      lsys_os(1,3) [of K ?c w1] lsys_fields(3,5,7,9,11) [of K ?c w1]
    by (auto simp: at_tree_def complaints_def)
  have "goes view n True (do_all [end_time K STAT_OPEN, account K STAT_OPEN, start_time K STAT_READ]) ?T2 ?T2"
    by (rule goes_basic)+
  with \<open>at_tree view n w2 ?T2\<close> w2 obtain w3 where
    w3: "do_all [end_time K STAT_OPEN, account K STAT_OPEN, start_time K STAT_READ] w2 = Ret w3"
      "at_tree view n w3 ?T2" "complaints w3 = complaints w" "f_x w3 = f_x w"
    by (auto simp: goes_def)
  have "t_data ?G ?p = ?b"
    using assms(3) C by (simp add: grown_def image_iff)
  then have fds: "t_fds ?T2 = (?fd, ?p) # t_fds ?G" and data: "t_data ?T2 ?p = ?b"
    by simp_all
  let ?rd = "L_read ?fd (int n)"
  obtain d w4 where d: "lsys K ?rd w3 = (d, w4)" by fastforce
  have "tree_can ?rd ?T2" using fds by simp
  then have w4: "at_tree view n w4 ?T2" "complaints w4 = complaints w" "f_x w4 = f_x w"
    and dg: "lr_data d = ?b" "\<not> lr_ret d < 0"
    using call_good [of ?rd "l_os w3"] call_step [of ?rd "l_os w3"] w3 d fds data
      lsys_os(1,3) [of K ?rd w3] lsys_fields(3,5,7,9,11) [of K ?rd w3]
    by (auto simp: at_tree_def complaints_def)
  let ?w4 = "w4\<lparr>f_mbuffer := ?b\<rparr>"
  have "at_tree view n ?w4 ?T2" using w4 by (simp add: at_tree_def)
  moreover have close: "tree_step (L_close ?fd) q ?T2 = ?G" for q
  proof -
    have "filter (\<lambda>(k, p). k \<noteq> ?fd) (t_fds ?G) = t_fds ?G"
      using good(2) by (force simp: filter_id_conv)
    then show ?thesis by (intro tree.equality) auto
  qed
  have "goes view n True (run K (L_close ?fd)) ?T2 ?G"
    by (intro goes_run close) (simp add: fds del: tree_step.simps)
  then have "goes view n True (do_all [end_time K STAT_READ, run K (L_close ?fd), account K STAT_READ]) ?T2 ?G"
    by - (rule goes_basic | assumption)+
  ultimately obtain w5 where
    w5: "do_all [end_time K STAT_READ, run K (L_close ?fd), account K STAT_READ] ?w4 = Ret w5"
      "at_tree view n w5 ?G" "complaints w5 = complaints ?w4" "f_x w5 = f_x w"
    using w4 by (auto simp: goes_def)
  have "read_one K i j k w = Ret w5"
  proof -
    have "f_sz w3 = int n" "f_sz w4 = int n" "length (f_mbuffer w4) = n"
      using w3 w4 by (simp_all add: at_tree_def)
    moreover then have "buf_put 0 ?b (f_mbuffer w4) = ?b"
      by (simp add: buf_put_def)
    ultimately show ?thesis
      using w1(1) r good(1) w3(1) d dg w5(1)
      by (simp add: read_one_def Let_def validate_replicate)
  qed
  then show "\<exists>w'. read_one K i j k w = Ret w' \<and> at_tree view n w' ?G
      \<and> complaints w' = complaints w \<and> f_x w' = f_x w \<and> (False \<longrightarrow> f_mbuffer w' = f_mbuffer w)"
    using w5 w4 by (simp add: complaints_def)
qed

section \<open>Loops over the directories\<close>

lemma in_each_dir_goes:
  assumes T: "bare T"
    and D: "\<And>i. i < x \<Longrightarrow> [name_L1 (int i)] \<in> D" "\<And>i j. i < x \<Longrightarrow> j < x \<Longrightarrow> [name_L1 (int i), name_L2 (int i) (int j)] \<in> D"
    and body: "\<And>i j. i < x \<Longrightarrow> j < x \<Longrightarrow> goes view n False (body (int i) (int j))
      (grown C T D (F i j) [name_L1 (int i), name_L2 (int i) (int j)])
      (grown C T D (F i (Suc j)) [name_L1 (int i), name_L2 (int i) (int j)])"
    and F: "\<And>i. i < x \<Longrightarrow> F i x = F (Suc i) 0"
  shows "goes view n False (in_each_dir K (int x) body) (grown C T D (F 0 0) []) (grown C T D (F x 0) [])"
  unfolding in_each_dir_def
proof (rule goes_c_for)
  fix i assume i: "i < x"
  let ?N1 = "name_L1 (int i)" and ?N2 = "\<lambda>j. name_L2 (int i) (int j)"
  have down1: "goes view n False (run K (L_chdir ?N1)) (grown C T D (F i 0) []) (grown C T D (F i 0) [?N1])"
    using grown_chdir [of T ?N1 "[]" D] T D(1) [OF i] by (intro goes_run) auto
  have up1: "goes view n False (run K (L_chdir ''..'')) (grown C T D (F i x) [?N1]) (grown C T D (F i x) [])"
    using grown_up [of T "[]" D] T by (intro goes_run) auto
  have loop: "goes view n False (c_for (int x) (\<lambda>j. do_all
      [run K (L_chdir (name_L2 (int i) j)), body (int i) j, run K (L_chdir ''..'')]))
    (grown C T D (F i 0) [?N1]) (grown C T D (F i x) [?N1])"
  proof (rule goes_c_for)
    fix j assume j: "j < x"
    have down2: "goes view n False (run K (L_chdir (?N2 j))) (grown C T D (F i j) [?N1]) (grown C T D (F i j) [?N1, ?N2 j])"
      using grown_chdir [of T "?N2 j" "[?N1]" D] T D(2) [OF i j] by (intro goes_run) auto
    have up2: "goes view n False (run K (L_chdir ''..'')) (grown C T D (F i (Suc j)) [?N1, ?N2 j]) (grown C T D (F i (Suc j)) [?N1])"
      using grown_up [of T "[?N1]" D] T D(1) [OF i] by (intro goes_run) auto
    show "goes view n False (do_all [run K (L_chdir (?N2 j)), body (int i) (int j), run K (L_chdir ''..'')])
      (grown C T D (F i j) [?N1]) (grown C T D (F i (Suc j)) [?N1])"
      by (rule goes_Nil goes_Cons down2 up2 body i j)+
  qed
  show "goes view n False (do_all [run K (L_chdir ?N1), c_for (int x) (\<lambda>j. do_all
      [run K (L_chdir (name_L2 (int i) j)), body (int i) j, run K (L_chdir ''..'')]), run K (L_chdir ''..'')])
    (grown C T D (F i 0) []) (grown C T D (F (Suc i) 0) [])"
    unfolding F [OF i, symmetric] by (rule goes_Nil goes_Cons down1 loop up1)+
qed

lemma goes_down:
  "bare T \<Longrightarrow> plain n \<Longrightarrow> s' = s @ [n] \<Longrightarrow> s' \<in> D
    \<Longrightarrow> goes view m keep (run K (L_chdir n)) (grown C T D F s) (grown C T D F s')"
  using grown_chdir [of T n s D] by (intro goes_run) auto

lemma goes_up:
  "bare T \<Longrightarrow> s = [] \<or> s \<in> D \<Longrightarrow> s' = s @ [n]
    \<Longrightarrow> goes view m keep (run K (L_chdir ''..'')) (grown C T D F s') (grown C T D F s)"
  using grown_up [of T s D] by (intro goes_run) auto

lemma goes_mkdir:
  assumes "bare T" "plain n" "s = [] \<or> s \<in> D" "ours (s @ [n])" "s @ [n] \<notin> D" "s @ [n] \<notin> F" "D' = insert (s @ [n]) D"
  shows "goes view m keep (timed K c negative (L_mkdir n p)) (grown C T D F s) (grown C T D' F s)"
    "goes view m keep (run_or_exit K negative (L_mkdir n p)) (grown C T D F s) (grown C T D' F s)"
proof -
  note step = grown_mkdir [OF assms(1-6), where C = C and m = p]
  show "goes view m keep (timed K c negative (L_mkdir n p)) (grown C T D F s) (grown C T D' F s)"
    by (rule goes_timed [OF step(1)]) (simp add: step(2) assms(7) negative_def del: tree_step.simps)
  show "goes view m keep (run_or_exit K negative (L_mkdir n p)) (grown C T D F s) (grown C T D' F s)"
    by (rule goes_run_or_exit [OF step(1)]) (simp add: step(2) assms(7) negative_def del: tree_step.simps)
qed

lemma goes_rmdir:
  assumes "bare T" "plain n" "ours (s @ [n])" "s @ [n] \<in> D" "\<And>q. q \<in> D \<union> F \<Longrightarrow> q \<noteq> [] \<and> butlast q \<noteq> s @ [n]"
    "D' = D - {s @ [n]}"
  shows "goes view m keep (timed_dropped K c (L_rmdir n)) (grown C T D F s) (grown C T D' F s)"
    "goes view m keep (run K (L_rmdir n)) (grown C T D F s) (grown C T D' F s)"
proof -
  note step = grown_rmdir [OF assms(1-5), where C = C]
  show "goes view m keep (timed_dropped K c (L_rmdir n)) (grown C T D F s) (grown C T D' F s)"
    unfolding assms(6) by (rule goes_timed_dropped [OF step(1) step(2)])
  show "goes view m keep (run K (L_rmdir n)) (grown C T D F s) (grown C T D' F s)"
    unfolding assms(6) by (rule goes_run [OF step(1) step(2)])
qed

end

end
