(* ===== verification/Fileop_Dirs.thy ===== *)
theory Fileop_Dirs
  imports Fileop_One
begin

text \<open>
  The three tests of directories of \<open>fileop.c\<close> on a file system that keeps its promises: the first
  builds the tree, the second walks it, the third removes it.
\<close>

section \<open>The test directories\<close>

text \<open>The tree of \<open>dir_create\<close> below the working directory, for indices from given sets.\<close>

definition dirs3 :: "nat \<Rightarrow> nat \<Rightarrow> nat set \<Rightarrow> path set" where
  "dirs3 i j A = (\<lambda>k. [name_L1 (int i), name_L2 (int i) (int j), name_dir (int i) (int j) (int k)]) ` A"

definition dirs2 :: "nat \<Rightarrow> nat \<Rightarrow> nat set \<Rightarrow> path set" where
  "dirs2 x i A = (\<Union>j\<in>A. insert [name_L1 (int i), name_L2 (int i) (int j)] (dirs3 i j {..<x}))"

definition dirs1 :: "nat \<Rightarrow> nat set \<Rightarrow> path set" where
  "dirs1 x A = (\<Union>i\<in>A. insert [name_L1 (int i)] (dirs2 x i {..<x}))"

lemmas dirs_defs = dirs1_def dirs2_def dirs3_def

lemma dirs_insert [simp]:
  "dirs3 i j {} = {}" "dirs2 x i {} = {}" "dirs1 x {} = {}"
  "dirs3 i j (insert k A) = insert [name_L1 (int i), name_L2 (int i) (int j), name_dir (int i) (int j) (int k)] (dirs3 i j A)"
  "dirs2 x i (insert j A) = insert [name_L1 (int i), name_L2 (int i) (int j)] (dirs3 i j {..<x} \<union> dirs2 x i A)"
  "dirs1 x (insert i A) = insert [name_L1 (int i)] (dirs2 x i {..<x} \<union> dirs1 x A)"
  by (auto simp: dirs_defs)

lemma dirs_mem [simp]:
  "[name_L1 (int i')] \<in> dirs1 x A \<longleftrightarrow> i' \<in> A" "[name_L1 (int i')] \<notin> dirs2 x i B" "[n1] \<notin> dirs3 i j E"
  "[name_L1 (int i'), name_L2 (int i') (int j')] \<in> dirs1 x A \<longleftrightarrow> i' \<in> A \<and> j' < x"
  "[name_L1 (int i'), name_L2 (int i') (int j')] \<in> dirs2 x i B \<longleftrightarrow> i' = i \<and> j' \<in> B" "[n1, n2] \<notin> dirs3 i j E"
  "[name_L1 (int i'), name_L2 (int i') (int j'), name_dir (int i') (int j') (int k')] \<in> dirs1 x A \<longleftrightarrow> i' \<in> A \<and> j' < x \<and> k' < x"
  "[name_L1 (int i'), name_L2 (int i') (int j'), name_dir (int i') (int j') (int k')] \<in> dirs2 x i B \<longleftrightarrow> i' = i \<and> j' \<in> B \<and> k' < x"
  "[name_L1 (int i'), name_L2 (int i') (int j'), name_dir (int i') (int j') (int k')] \<in> dirs3 i j E \<longleftrightarrow> i' = i \<and> j' = j \<and> k' \<in> E"
  by (auto simp: dirs_defs)

lemma from_insert: "m < x \<Longrightarrow> {m..<x} = insert m {Suc m..<x}" for m :: nat
  by auto

context tree_files
begin

lemma dir_create_goes:
  assumes T: "bare T"
  shows "goes view n keep (dir_create K (int x)) T (grown C T (dirs1 x {..<x}) {} [])"
proof -
  let ?G = "\<lambda>D s. grown C T D {} s"
  let ?D1 = "\<lambda>i m. insert [name_L1 (int i)] (dirs1 x {..<i} \<union> dirs2 x i {..<m})"
  let ?D2 = "\<lambda>i j m. insert [name_L1 (int i), name_L2 (int i) (int j)] (?D1 i j \<union> dirs3 i j {..<m})"
  have "goes view n keep (dir_create K (int x)) (?G (dirs1 x {..<0}) []) (?G (dirs1 x {..<x}) [])"
    unfolding dir_create_def
  proof (rule goes_Cons [OF goes_account(3)], rule goes_Cons [OF goes_c_for goes_Nil])
    fix i assume i: "i < x"
    let ?N1 = "name_L1 (int i)" and ?N2 = "\<lambda>j. name_L2 (int i) (int j)"
    let ?body3 = "\<lambda>j k. do_all [timed K STAT_DIR_CREATE negative (L_mkdir (name_dir (int i) j k) 511),
        run K (L_chdir (name_dir (int i) j k)), run K (L_chdir ''..'')]"
    let ?body2 = "\<lambda>j. do_all [timed K STAT_DIR_CREATE negative (L_mkdir (name_L2 (int i) j) 511),
        run K (L_chdir (name_L2 (int i) j)), c_for (int x) (?body3 j), run K (L_chdir ''..'')]"
    have loop3: "goes view n keep (c_for (int x) (?body3 (int j))) (?G (?D2 i j 0) [?N1, ?N2 j]) (?G (?D2 i j x) [?N1, ?N2 j])"
      if j: "j < x" for j
    proof (rule goes_c_for)
      fix k assume k: "k < x"
      let ?N3 = "name_dir (int i) (int j) (int k)"
      have mk: "goes view n keep (timed K STAT_DIR_CREATE negative (L_mkdir ?N3 511))
          (?G (?D2 i j k) [?N1, ?N2 j]) (?G (?D2 i j (Suc k)) [?N1, ?N2 j])"
        by (rule goes_mkdir) (auto simp: T lessThan_Suc)
      have dn: "goes view n keep (run K (L_chdir ?N3)) (?G (?D2 i j (Suc k)) [?N1, ?N2 j]) (?G (?D2 i j (Suc k)) [?N1, ?N2 j, ?N3])"
        by (rule goes_down) (auto simp: T lessThan_Suc)
      have up: "goes view n keep (run K (L_chdir ''..'')) (?G (?D2 i j (Suc k)) [?N1, ?N2 j, ?N3]) (?G (?D2 i j (Suc k)) [?N1, ?N2 j])"
        by (rule goes_up) (auto simp: T lessThan_Suc)
      show "goes view n keep (?body3 (int j) (int k)) (?G (?D2 i j k) [?N1, ?N2 j]) (?G (?D2 i j (Suc k)) [?N1, ?N2 j])"
        by (rule goes_Nil goes_Cons mk dn up)+
    qed
    have loop2: "goes view n keep (c_for (int x) ?body2) (?G (?D1 i 0) [?N1]) (?G (?D1 i x) [?N1])"
    proof (rule goes_c_for)
      fix j assume j: "j < x"
      have mk: "goes view n keep (timed K STAT_DIR_CREATE negative (L_mkdir (?N2 j) 511))
          (?G (?D1 i j) [?N1]) (?G (?D2 i j 0) [?N1])"
        by (rule goes_mkdir) (auto simp: T)
      have dn: "goes view n keep (run K (L_chdir (?N2 j))) (?G (?D2 i j 0) [?N1]) (?G (?D2 i j 0) [?N1, ?N2 j])"
        by (rule goes_down) (auto simp: T)
      have "?D2 i j x = ?D1 i (Suc j)"
        by (simp add: lessThan_Suc insert_commute Un_ac)
      then have up: "goes view n keep (run K (L_chdir ''..'')) (?G (?D2 i j x) [?N1, ?N2 j]) (?G (?D1 i (Suc j)) [?N1])"
        by (simp only:) (rule goes_up, auto simp: T)
      show "goes view n keep (?body2 (int j)) (?G (?D1 i j) [?N1]) (?G (?D1 i (Suc j)) [?N1])"
        by (rule goes_Nil goes_Cons mk dn loop3 j up)+
    qed
    have mk: "goes view n keep (timed K STAT_DIR_CREATE negative (L_mkdir ?N1 511))
        (?G (dirs1 x {..<i}) []) (?G (?D1 i 0) [])"
      by (rule goes_mkdir) (auto simp: T)
    have dn: "goes view n keep (run K (L_chdir ?N1)) (?G (?D1 i 0) []) (?G (?D1 i 0) [?N1])"
      by (rule goes_down) (auto simp: T)
    have "?D1 i x = dirs1 x {..<Suc i}"
      by (simp add: lessThan_Suc Un_ac)
    then have up: "goes view n keep (run K (L_chdir ''..'')) (?G (?D1 i x) [?N1]) (?G (dirs1 x {..<Suc i}) [])"
      by (simp only:) (rule goes_up, auto simp: T)
    show "goes view n keep (do_all [timed K STAT_DIR_CREATE negative (L_mkdir ?N1 511), run K (L_chdir ?N1),
        c_for (int x) ?body2, run K (L_chdir ''..'')]) (?G (dirs1 x {..<i}) []) (?G (dirs1 x {..<Suc i}) [])"
      by (rule goes_Nil goes_Cons mk dn loop2 up)+
  qed
  then show ?thesis by simp
qed

lemma dir_traverse_goes:
  assumes T: "bare T"
  shows "goes view n keep (dir_traverse K (int x)) (grown C T (dirs1 x {..<x}) F []) (grown C T (dirs1 x {..<x}) F [])"
proof -
  let ?G = "grown C T (dirs1 x {..<x}) F"
  note clock = goes_clock goes_account goes_state
  have "goes view n keep (dir_traverse K (int x)) ((\<lambda>_. ?G []) (0::nat)) ((\<lambda>_. ?G []) x)"
    unfolding dir_traverse_def Let_def
  proof (rule goes_Cons [OF goes_account(3)], rule goes_Cons [OF goes_c_for goes_Nil])
    fix i assume i: "i < x"
    let ?N1 = "name_L1 (int i)" and ?N2 = "\<lambda>j. name_L2 (int i) (int j)"
    let ?S = STAT_DIR_TRAVERSE
    let ?body3 = "\<lambda>j k. do_all [start_time K ?S, run K (L_chdir (name_dir (int i) j k)), run K (L_chdir ''..''),
        end_time K ?S, account K ?S]"
    let ?body2 = "\<lambda>j. do_all [start_time K ?S, run K (L_chdir (name_L2 (int i) j)), end_time K ?S,
        (\<lambda>w. do_all [c_for (int x) (?body3 j), start_time K ?S, run K (L_chdir ''..''), end_time K ?S,
           account_with K ?S (elapsed K ?S w)] w)]"
    have dn1: "goes view n keep (run K (L_chdir ?N1)) (?G []) (?G [?N1])"
      by (rule goes_down) (auto simp: T i)
    have up1: "goes view n keep (run K (L_chdir ''..'')) (?G [?N1]) (?G [])"
      by (rule goes_up) (auto simp: T i)
    have loop3: "goes view n keep (c_for (int x) (?body3 (int j))) ((\<lambda>_. ?G [?N1, ?N2 j]) (0::nat)) ((\<lambda>_. ?G [?N1, ?N2 j]) x)"
      if j: "j < x" for j
    proof (rule goes_c_for)
      fix k assume k: "k < x"
      let ?N3 = "name_dir (int i) (int j) (int k)"
      have dn: "goes view n keep (run K (L_chdir ?N3)) (?G [?N1, ?N2 j]) (?G [?N1, ?N2 j, ?N3])"
        by (rule goes_down) (auto simp: T i j k)
      have up: "goes view n keep (run K (L_chdir ''..'')) (?G [?N1, ?N2 j, ?N3]) (?G [?N1, ?N2 j])"
        by (rule goes_up) (auto simp: T i j k)
      show "goes view n keep (?body3 (int j) (int k)) (?G [?N1, ?N2 j]) (?G [?N1, ?N2 j])"
        by (rule goes_Nil goes_Cons clock(1-3) dn up)+
    qed
    have loop2: "goes view n keep (c_for (int x) ?body2) ((\<lambda>_. ?G [?N1]) (0::nat)) ((\<lambda>_. ?G [?N1]) x)"
    proof (rule goes_c_for)
      fix j assume j: "j < x"
      have dn: "goes view n keep (run K (L_chdir (?N2 j))) (?G [?N1]) (?G [?N1, ?N2 j])"
        by (rule goes_down) (auto simp: T i j)
      have up: "goes view n keep (run K (L_chdir ''..'')) (?G [?N1, ?N2 j]) (?G [?N1])"
        by (rule goes_up) (auto simp: T i j)
      show "goes view n keep (?body2 (int j)) (?G [?N1]) (?G [?N1])"
        by (rule goes_Nil goes_Cons clock dn loop3 [OF j] up)+
    qed
    show "goes view n keep (do_all [start_time K ?S, run K (L_chdir ?N1), end_time K ?S,
        (\<lambda>w. do_all [c_for (int x) ?body2, start_time K ?S, run K (L_chdir ''..''), end_time K ?S,
           account_with K ?S (elapsed K ?S w)] w)]) (?G []) (?G [])"
      by (rule goes_Nil goes_Cons clock dn1 loop2 up1)+
  qed
  then show ?thesis by simp
qed

lemma dir_delete_goes:
  assumes T: "bare T"
  shows "goes view n keep (dir_delete K (int x)) (grown C T (dirs1 x {..<x}) {} []) T"
proof -
  let ?G = "\<lambda>D s. grown C T D {} s"
  let ?D1 = "\<lambda>i m. insert [name_L1 (int i)] (dirs1 x {Suc i..<x} \<union> dirs2 x i {m..<x})"
  let ?D2 = "\<lambda>i j m. insert [name_L1 (int i), name_L2 (int i) (int j)] (?D1 i (Suc j) \<union> dirs3 i j {m..<x})"
  have "goes view n keep (dir_delete K (int x)) (?G (dirs1 x {0..<x}) []) (?G (dirs1 x {x..<x}) [])"
    unfolding dir_delete_def
  proof (rule goes_Cons [OF goes_account(3)], rule goes_Cons [OF goes_c_for goes_Nil])
    fix i assume i: "i < x"
    let ?N1 = "name_L1 (int i)" and ?N2 = "\<lambda>j. name_L2 (int i) (int j)"
    let ?body3 = "\<lambda>j k. do_all [run K (L_chdir (name_dir (int i) j k)), run K (L_chdir ''..''),
        timed_dropped K STAT_DIR_DELETE (L_rmdir (name_dir (int i) j k))]"
    let ?body2 = "\<lambda>j. do_all [run K (L_chdir (name_L2 (int i) j)), c_for (int x) (?body3 j), run K (L_chdir ''..''),
        timed_dropped K STAT_DIR_DELETE (L_rmdir (name_L2 (int i) j))]"
    have loop3: "goes view n keep (c_for (int x) (?body3 (int j))) (?G (?D2 i j 0) [?N1, ?N2 j]) (?G (?D2 i j x) [?N1, ?N2 j])"
      if j: "j < x" for j
    proof (rule goes_c_for)
      fix k assume k: "k < x"
      let ?N3 = "name_dir (int i) (int j) (int k)"
      have dn: "goes view n keep (run K (L_chdir ?N3)) (?G (?D2 i j k) [?N1, ?N2 j]) (?G (?D2 i j k) [?N1, ?N2 j, ?N3])"
        by (rule goes_down) (auto simp: T k)
      have up: "goes view n keep (run K (L_chdir ''..'')) (?G (?D2 i j k) [?N1, ?N2 j, ?N3]) (?G (?D2 i j k) [?N1, ?N2 j])"
        by (rule goes_up) (auto simp: T)
      have rm: "goes view n keep (timed_dropped K STAT_DIR_DELETE (L_rmdir ?N3))
          (?G (?D2 i j k) [?N1, ?N2 j]) (?G (?D2 i j (Suc k)) [?N1, ?N2 j])"
        by (rule goes_rmdir) (auto simp: T k from_insert dirs_defs)
      show "goes view n keep (?body3 (int j) (int k)) (?G (?D2 i j k) [?N1, ?N2 j]) (?G (?D2 i j (Suc k)) [?N1, ?N2 j])"
        by (rule goes_Nil goes_Cons rm dn up)+
    qed
    have loop2: "goes view n keep (c_for (int x) ?body2) (?G (?D1 i 0) [?N1]) (?G (?D1 i x) [?N1])"
    proof (rule goes_c_for)
      fix j assume j: "j < x"
      have "?D1 i j = ?D2 i j 0"
        by (simp add: from_insert [OF j] insert_commute Un_ac lessThan_atLeast0)
      then have dn: "goes view n keep (run K (L_chdir (?N2 j))) (?G (?D1 i j) [?N1]) (?G (?D2 i j 0) [?N1, ?N2 j])"
        by (simp only:) (rule goes_down, auto simp: T)
      have up: "goes view n keep (run K (L_chdir ''..'')) (?G (?D2 i j x) [?N1, ?N2 j]) (?G (?D2 i j x) [?N1])"
        by (rule goes_up) (auto simp: T)
      have rm: "goes view n keep (timed_dropped K STAT_DIR_DELETE (L_rmdir (?N2 j)))
          (?G (?D2 i j x) [?N1]) (?G (?D1 i (Suc j)) [?N1])"
        by (rule goes_rmdir) (auto simp: T dirs_defs)
      show "goes view n keep (?body2 (int j)) (?G (?D1 i j) [?N1]) (?G (?D1 i (Suc j)) [?N1])"
        by (rule goes_Nil goes_Cons rm dn loop3 j up)+
    qed
    have "dirs1 x {i..<x} = ?D1 i 0"
      by (simp add: from_insert [OF i] Un_ac lessThan_atLeast0)
    then have dn: "goes view n keep (run K (L_chdir ?N1)) (?G (dirs1 x {i..<x}) []) (?G (?D1 i 0) [?N1])"
      by (simp only:) (rule goes_down, auto simp: T)
    have up: "goes view n keep (run K (L_chdir ''..'')) (?G (?D1 i x) [?N1]) (?G (?D1 i x) [])"
      by (rule goes_up) (auto simp: T)
    have rm: "goes view n keep (timed_dropped K STAT_DIR_DELETE (L_rmdir ?N1))
        (?G (?D1 i x) []) (?G (dirs1 x {Suc i..<x}) [])"
      by (rule goes_rmdir) (auto simp: T dirs_defs)
    show "goes view n keep (do_all [run K (L_chdir ?N1), c_for (int x) ?body2, run K (L_chdir ''..''),
        timed_dropped K STAT_DIR_DELETE (L_rmdir ?N1)]) (?G (dirs1 x {i..<x}) []) (?G (dirs1 x {Suc i..<x}) [])"
      by (rule goes_Nil goes_Cons rm dn loop2 up)+
  qed
  then show ?thesis by (simp add: lessThan_atLeast0)
qed

end

end
