(* ===== verification/Fileop_Files.thy ===== *)
theory Fileop_Files
  imports Fileop_Dirs
begin

text \<open>
  The tests of files of \<open>fileop.c\<close> on a file system that keeps its promises: one builds a tree of
  files, the others work through it, the last removes it.
\<close>

section \<open>The test files\<close>

text \<open>
  The directories of the tree of files, and its leaves, which are the files or the links
  depending on the name, for indices from given sets.
\<close>

definition fdirs2 :: "nat \<Rightarrow> nat set \<Rightarrow> path set" where
  "fdirs2 i A = (\<lambda>j. [name_L1 (int i), name_L2 (int i) (int j)]) ` A"

definition fdirs1 :: "nat \<Rightarrow> nat set \<Rightarrow> path set" where
  "fdirs1 x A = (\<Union>i\<in>A. insert [name_L1 (int i)] (fdirs2 i {..<x}))"

definition leaves3 :: "(int \<Rightarrow> int \<Rightarrow> int \<Rightarrow> string) \<Rightarrow> nat \<Rightarrow> nat \<Rightarrow> nat set \<Rightarrow> path set" where
  "leaves3 nm i j A = (\<lambda>k. [name_L1 (int i), name_L2 (int i) (int j), nm (int i) (int j) (int k)]) ` A"

definition leaves2 :: "(int \<Rightarrow> int \<Rightarrow> int \<Rightarrow> string) \<Rightarrow> nat \<Rightarrow> nat \<Rightarrow> nat set \<Rightarrow> path set" where
  "leaves2 nm x i A = (\<Union>j\<in>A. leaves3 nm i j {..<x})"

definition leaves1 :: "(int \<Rightarrow> int \<Rightarrow> int \<Rightarrow> string) \<Rightarrow> nat \<Rightarrow> nat set \<Rightarrow> path set" where
  "leaves1 nm x A = (\<Union>i\<in>A. leaves2 nm x i {..<x})"

lemmas leaf_defs = fdirs1_def fdirs2_def leaves1_def leaves2_def leaves3_def

abbreviation "files3 \<equiv> leaves3 name_file"
abbreviation "files2 \<equiv> leaves2 name_file"
abbreviation "files1 \<equiv> leaves1 name_file"
abbreviation "links3 \<equiv> leaves3 name_link"
abbreviation "links2 \<equiv> leaves2 name_link"
abbreviation "links1 \<equiv> leaves1 name_link"

lemma leaves_insert [simp]:
  "fdirs2 i {} = {}" "fdirs1 x {} = {}" "leaves3 nm i j {} = {}" "leaves2 nm x i {} = {}" "leaves1 nm x {} = {}"
  "fdirs2 i (insert j A) = insert [name_L1 (int i), name_L2 (int i) (int j)] (fdirs2 i A)"
  "fdirs1 x (insert i A) = insert [name_L1 (int i)] (fdirs2 i {..<x} \<union> fdirs1 x A)"
  "leaves3 nm i j (insert k A) = insert [name_L1 (int i), name_L2 (int i) (int j), nm (int i) (int j) (int k)] (leaves3 nm i j A)"
  "leaves2 nm x i (insert j A) = leaves3 nm i j {..<x} \<union> leaves2 nm x i A"
  "leaves1 nm x (insert i A) = leaves2 nm x i {..<x} \<union> leaves1 nm x A"
  by (auto simp: leaf_defs)

text \<open>Every file, and its link, is filled with the byte of its pattern.\<close>

definition contents :: "nat \<Rightarrow> path \<Rightarrow> byte list" where
  "contents n q = replicate n (SOME v. \<exists>i j k.
     q \<in> {[name_L1 (int i), name_L2 (int i) (int j), name_file (int i) (int j) (int k)],
          [name_L1 (int i), name_L2 (int i) (int j), name_link (int i) (int j) (int k)]}
     \<and> v = pattern (int i) (int j) (int k))"

lemma contents_file [simp]:
  "contents n [name_L1 (int i), name_L2 (int i) (int j), name_file (int i) (int j) (int k)]
    = replicate n (pattern (int i) (int j) (int k))"
  unfolding contents_def by (rule arg_cong [where f = "replicate n"], rule some_equality) auto

lemma contents_link [simp]:
  "contents n [name_L1 (int i), name_L2 (int i) (int j), name_link (int i) (int j) (int k)]
    = replicate n (pattern (int i) (int j) (int k))"
  unfolding contents_def by (rule arg_cong [where f = "replicate n"], rule some_equality) auto

context tree_files
begin

section \<open>Building the tree of files\<close>

lemma file_create_goes:
  assumes T: "bare T"
  shows "goes view n False (file_create K (int x)) T (grown (contents n) T (fdirs1 x {..<x}) (files1 x {..<x}) [])"
proof -
  let ?G = "grown (contents n) T"
  let ?D1 = "\<lambda>i m. insert [name_L1 (int i)] (fdirs1 x {..<i} \<union> fdirs2 i {..<m})"
  let ?F1 = "\<lambda>i m. files1 x {..<i} \<union> files2 x i {..<m}"
  let ?F2 = "\<lambda>i j m. ?F1 i j \<union> files3 i j {..<m}"
  have "goes view n False (file_create K (int x)) (?G (fdirs1 x {..<0}) (files1 x {..<0}) [])
      (?G (fdirs1 x {..<x}) (files1 x {..<x}) [])"
    unfolding file_create_def
  proof (rule goes_Cons [OF goes_account(3)], rule goes_Cons [OF goes_account(3)],
      rule goes_Cons [OF goes_account(3)], rule goes_Cons [OF goes_c_for goes_Nil])
    fix i assume i: "i < x"
    let ?N1 = "name_L1 (int i)" and ?N2 = "\<lambda>j. name_L2 (int i) (int j)"
    let ?body2 = "\<lambda>j. do_all [run_or_exit K negative (L_mkdir (name_L2 (int i) j) 511),
        run K (L_chdir (name_L2 (int i) j)), c_for (int x) (create_one K (int i) j), run K (L_chdir ''..'')]"
    have loop3: "goes view n False (c_for (int x) (create_one K (int i) (int j)))
        (?G (?D1 i (Suc j)) (?F2 i j 0) [?N1, ?N2 j]) (?G (?D1 i (Suc j)) (?F2 i j x) [?N1, ?N2 j])"
      if j: "j < x" for j
    proof (rule goes_c_for)
      fix k assume k: "k < x"
      let ?N3 = "name_file (int i) (int j) (int k)"
      have "?F2 i j (Suc k) = insert ([?N1, ?N2 j] @ [?N3]) (?F2 i j k)"
        by (simp add: lessThan_Suc)
      moreover have "goes view n False (create_one K (int i) (int j) (int k)) (?G (?D1 i (Suc j)) (?F2 i j k) [?N1, ?N2 j])
          (?G (?D1 i (Suc j)) (insert ([?N1, ?N2 j] @ [?N3]) (?F2 i j k)) [?N1, ?N2 j])"
        by (rule create_one_goes) (auto simp: T leaf_defs)
      ultimately show "goes view n False (create_one K (int i) (int j) (int k)) (?G (?D1 i (Suc j)) (?F2 i j k) [?N1, ?N2 j])
          (?G (?D1 i (Suc j)) (?F2 i j (Suc k)) [?N1, ?N2 j])"
        by simp
    qed
    have loop2: "goes view n False (c_for (int x) ?body2) (?G (?D1 i 0) (?F1 i 0) [?N1]) (?G (?D1 i x) (?F1 i x) [?N1])"
    proof (rule goes_c_for)
      fix j assume j: "j < x"
      have mk: "goes view n False (run_or_exit K negative (L_mkdir (?N2 j) 511))
          (?G (?D1 i j) (?F1 i j) [?N1]) (?G (?D1 i (Suc j)) (?F2 i j 0) [?N1])"
        unfolding lessThan_0 leaves_insert Un_empty_right
        by (rule goes_mkdir) (auto simp: T leaf_defs lessThan_Suc)
      have dn: "goes view n False (run K (L_chdir (?N2 j))) (?G (?D1 i (Suc j)) (?F2 i j 0) [?N1])
          (?G (?D1 i (Suc j)) (?F2 i j 0) [?N1, ?N2 j])"
        by (rule goes_down) (auto simp: T lessThan_Suc)
      have "?F2 i j x = ?F1 i (Suc j)"
        by (auto simp: lessThan_Suc)
      then have up: "goes view n False (run K (L_chdir ''..'')) (?G (?D1 i (Suc j)) (?F2 i j x) [?N1, ?N2 j])
          (?G (?D1 i (Suc j)) (?F1 i (Suc j)) [?N1])"
        by (simp only:) (rule goes_up, auto simp: T)
      show "goes view n False (?body2 (int j)) (?G (?D1 i j) (?F1 i j) [?N1]) (?G (?D1 i (Suc j)) (?F1 i (Suc j)) [?N1])"
        by (rule goes_Nil goes_Cons mk dn loop3 j up)+
    qed
    have mk: "goes view n False (run_or_exit K negative (L_mkdir ?N1 511))
        (?G (fdirs1 x {..<i}) (files1 x {..<i}) []) (?G (?D1 i 0) (?F1 i 0) [])"
      unfolding lessThan_0 leaves_insert Un_empty_right
      by (rule goes_mkdir) (auto simp: T leaf_defs)
    have dn: "goes view n False (run K (L_chdir ?N1)) (?G (?D1 i 0) (?F1 i 0) []) (?G (?D1 i 0) (?F1 i 0) [?N1])"
      by (rule goes_down) (auto simp: T)
    have "?D1 i x = fdirs1 x {..<Suc i}" "?F1 i x = files1 x {..<Suc i}"
      by (auto simp: lessThan_Suc)
    then have up: "goes view n False (run K (L_chdir ''..'')) (?G (?D1 i x) (?F1 i x) [?N1])
        (?G (fdirs1 x {..<Suc i}) (files1 x {..<Suc i}) [])"
      by (simp only:) (rule goes_up, auto simp: T)
    show "goes view n False (do_all [run_or_exit K negative (L_mkdir ?N1 511), run K (L_chdir ?N1),
        c_for (int x) ?body2, run K (L_chdir ''..'')])
        (?G (fdirs1 x {..<i}) (files1 x {..<i}) []) (?G (fdirs1 x {..<Suc i}) (files1 x {..<Suc i}) [])"
      by (rule goes_Nil goes_Cons mk dn loop2 up)+
  qed
  then show ?thesis by simp
qed

section \<open>Working through the files\<close>

text \<open>A test that keeps the tree does so in every loop, if it does for each file.\<close>

lemma each_file_goes:
  assumes T: "bare T"
    and op: "\<And>i j k. i < x \<Longrightarrow> j < x \<Longrightarrow> k < x \<Longrightarrow> goes view n False (op (int i) (int j) (int k))
      (grown C T (fdirs1 x {..<x}) F [name_L1 (int i), name_L2 (int i) (int j)])
      (grown C T (fdirs1 x {..<x}) F [name_L1 (int i), name_L2 (int i) (int j)])"
  shows "goes view n False (in_each_dir K (int x) (\<lambda>i j. c_for (int x) (op i j)))
    (grown C T (fdirs1 x {..<x}) F []) (grown C T (fdirs1 x {..<x}) F [])"
proof (rule in_each_dir_goes [where F = "\<lambda>_ _. F", OF T])
  fix i j assume "i < x" "j < x"
  let ?G = "grown C T (fdirs1 x {..<x}) F [name_L1 (int i), name_L2 (int i) (int j)]"
  have "goes view n False (c_for (int x) (op (int i) (int j))) ((\<lambda>_. ?G) (0::nat)) ((\<lambda>_. ?G) x)"
    using op \<open>i < x\<close> \<open>j < x\<close> by (intro goes_c_for)
  then show "goes view n False (c_for (int x) (op (int i) (int j))) ?G ?G" .
qed (auto simp: leaf_defs)

lemma file_in_tree:
  "i < x \<Longrightarrow> j < x \<Longrightarrow> k < x \<Longrightarrow>
    [name_L1 (int i), name_L2 (int i) (int j)] @ [nm (int i) (int j) (int k)] \<in> leaves1 nm x {..<x}"
  by (auto simp: leaf_defs)

lemma goes_on_file:
  assumes "bare T" "i < x" "j < x" "k < x" "files1 x {..<x} \<subseteq> F"
    "c \<in> {L_stat (name_file (int i) (int j) (int k)), L_access (name_file (int i) (int j) (int k)) m,
          L_chmod (name_file (int i) (int j) (int k)) m}"
  shows "goes view n False (timed K s negative c)
     (grown C T D F [name_L1 (int i), name_L2 (int i) (int j)])
     (grown C T D F [name_L1 (int i), name_L2 (int i) (int j)])"
proof (rule goes_timed)
  let ?s = "[name_L1 (int i), name_L2 (int i) (int j)]" and ?n = "name_file (int i) (int j) (int k)"
  have "ours (?s @ [?n])" "?s @ [?n] \<in> F"
    using file_in_tree [of i x j k name_file] assms(2-5) by auto
  note can = grown_file [OF assms(1) _ this, where C = C and D = D]
  show "tree_can c (grown C T D F ?s)"
    using can assms(6) by (auto simp del: tree_can.simps)
  show "tree_step c r (grown C T D F ?s) = grown C T D F ?s \<and> \<not> negative r"
    if "tree_good c r d (grown C T D F ?s)" for r d
    using that assms(6) by (auto simp: negative_def)
qed

lemma file_tests_go:
  assumes "bare T" and G_def: "G = grown (contents n) T (fdirs1 x {..<x}) (files1 x {..<x}) []"
  shows "goes view n False (file_stat K (int x)) G G" "goes view n False (file_access K (int x)) G G"
    "goes view n False (file_chmod K (int x)) G G" "goes view n False (file_read K (int x)) G G"
proof -
  show "goes view n False (file_stat K (int x)) G G"
    unfolding file_stat_def G_def
    by (rule goes_Cons [OF goes_account(3)], rule goes_Cons [OF _ goes_Nil], rule each_file_goes [OF assms(1)],
        rule goes_on_file [OF assms(1) _ _ _ order_refl]) simp_all
  show "goes view n False (file_access K (int x)) G G"
    unfolding file_access_def G_def
    by (rule goes_Cons [OF goes_account(3)], rule goes_Cons [OF _ goes_Nil], rule each_file_goes [OF assms(1)],
        rule goes_on_file [OF assms(1) _ _ _ order_refl, where m = 2]) simp_all
  show "goes view n False (file_chmod K (int x)) G G"
    unfolding file_chmod_def G_def
    by (rule goes_Cons [OF goes_account(3)], rule goes_Cons [OF _ goes_Nil], rule each_file_goes [OF assms(1)],
        rule goes_on_file [OF assms(1) _ _ _ order_refl, where m = 438]) simp_all
  show "goes view n False (file_read K (int x)) G G"
    unfolding file_read_def G_def
  proof (rule goes_Cons [OF goes_account(3)], rule goes_Cons [OF goes_account(3)], rule goes_Cons [OF _ goes_Nil],
      rule each_file_goes [OF assms(1)], rule read_one_goes [OF assms(1)])
    fix i j k assume "i < x" "j < x" "k < x"
    then show "[name_L1 (int i), name_L2 (int i) (int j)] @ [name_file (int i) (int j) (int k)] \<in> files1 x {..<x}"
      by (rule file_in_tree)
  qed simp_all
qed

lemma file_link_goes:
  assumes T: "bare T"
  shows "goes view n False (file_link K (int x)) (grown (contents n) T (fdirs1 x {..<x}) (files1 x {..<x}) [])
    (grown (contents n) T (fdirs1 x {..<x}) (files1 x {..<x} \<union> links1 x {..<x}) [])"
proof -
  let ?F = "\<lambda>i j. files1 x {..<x} \<union> (links1 x {..<i} \<union> links2 x i {..<j})"
  let ?G = "grown (contents n) T (fdirs1 x {..<x})"
  have "goes view n False (in_each_dir K (int x) (\<lambda>i j. c_for (int x) (\<lambda>k.
      timed K STAT_LINK negative (L_link (name_file i j k) (name_link i j k))))) (?G (?F 0 0) []) (?G (?F x 0) [])"
  proof (rule in_each_dir_goes [where F = ?F, OF T])
    fix i j assume i: "i < x" and j: "j < x"
    let ?s = "[name_L1 (int i), name_L2 (int i) (int j)]"
    let ?H = "\<lambda>k. ?F i j \<union> links3 i j {..<k}"
    have "goes view n False (c_for (int x) (\<lambda>k. timed K STAT_LINK negative
        (L_link (name_file (int i) (int j) k) (name_link (int i) (int j) k)))) (?G (?H 0) ?s) (?G (?H x) ?s)"
    proof (rule goes_c_for)
      fix k assume k: "k < x"
      let ?f = "name_file (int i) (int j) (int k)" and ?l = "name_link (int i) (int j) (int k)"
      have "tree_can (L_link ?f ?l) (?G (?H k) ?s)"
        "tree_step (L_link ?f ?l) r (?G (?H k) ?s) = ?G (insert (?s @ [?l]) (?H k)) ?s" for r
        using file_in_tree [OF i j k, of name_file]
        by (intro grown_link; auto simp: T leaf_defs simp del: tree_can.simps tree_step.simps)+
      moreover have "insert (?s @ [?l]) (?H k) = ?H (Suc k)"
        by (simp add: lessThan_Suc)
      ultimately show "goes view n False (timed K STAT_LINK negative (L_link ?f ?l)) (?G (?H k) ?s) (?G (?H (Suc k)) ?s)"
        by (intro goes_timed) (simp_all add: negative_def del: tree_can.simps tree_step.simps)
    qed
    moreover have "?H x = ?F i (Suc j)" by (auto simp: lessThan_Suc)
    ultimately show "goes view n False (c_for (int x) (\<lambda>k. timed K STAT_LINK negative
        (L_link (name_file (int i) (int j) k) (name_link (int i) (int j) k)))) (?G (?F i j) ?s) (?G (?F i (Suc j)) ?s)"
      by simp
  qed (auto simp: leaf_defs lessThan_Suc)
  then show ?thesis
    unfolding file_link_def by (intro goes_Cons [OF goes_account(3)] goes_Cons [OF _ goes_Nil]) simp
qed

lemma file_unlink_goes:
  assumes T: "bare T"
  shows "goes view n False (file_unlink K (int x))
    (grown C T (fdirs1 x {..<x}) (files1 x {..<x} \<union> links1 x {..<x}) [])
    (grown C T (fdirs1 x {..<x}) (files1 x {..<x}) [])"
proof -
  let ?F = "\<lambda>i j. files1 x {..<x} \<union> (links1 x {Suc i..<x} \<union> (if i < x then links2 x i {j..<x} else {}))"
  let ?G = "grown C T (fdirs1 x {..<x})"
  have "goes view n False (in_each_dir K (int x) (\<lambda>i j. c_for (int x) (\<lambda>k.
      timed K STAT_UNLINK negative (L_unlink (name_link i j k))))) (?G (?F 0 0) []) (?G (?F x 0) [])"
  proof (rule in_each_dir_goes [where F = ?F, OF T])
    fix i j assume i: "i < x" and j: "j < x"
    let ?s = "[name_L1 (int i), name_L2 (int i) (int j)]"
    let ?H = "\<lambda>k. ?F i (Suc j) \<union> links3 i j {k..<x}"
    have "goes view n False (c_for (int x) (\<lambda>k. timed K STAT_UNLINK negative
        (L_unlink (name_link (int i) (int j) k)))) (?G (?H 0) ?s) (?G (?H x) ?s)"
    proof (rule goes_c_for)
      fix k assume k: "k < x"
      let ?l = "name_link (int i) (int j) (int k)"
      have "tree_can (L_unlink ?l) (?G (?H k) ?s)"
        "tree_step (L_unlink ?l) r (?G (?H k) ?s) = ?G (?H k - {?s @ [?l]}) ?s" for r
        using k by (intro grown_unlink; auto simp: T leaf_defs simp del: tree_can.simps tree_step.simps)+
      moreover have "?H k - {?s @ [?l]} = ?H (Suc k)"
        using i k by (auto simp: from_insert [OF k] leaf_defs)
      ultimately show "goes view n False (timed K STAT_UNLINK negative (L_unlink ?l)) (?G (?H k) ?s) (?G (?H (Suc k)) ?s)"
        by (intro goes_timed) (simp_all add: negative_def del: tree_can.simps tree_step.simps)
    qed
    moreover have "?H 0 = ?F i j"
      using i by (auto simp: from_insert [OF j] lessThan_atLeast0)
    ultimately show "goes view n False (c_for (int x) (\<lambda>k. timed K STAT_UNLINK negative
        (L_unlink (name_link (int i) (int j) k)))) (?G (?F i j) ?s) (?G (?F i (Suc j)) ?s)"
      by simp
  next
    fix i assume "i < x"
    then show "?F i x = ?F (Suc i) 0"
      by (cases "Suc i < x") (auto simp: from_insert [of "Suc i"] lessThan_atLeast0)
  qed (auto simp: leaf_defs)
  moreover have "?F 0 0 = files1 x {..<x} \<union> links1 x {..<x}" "?F x 0 = files1 x {..<x}"
    by (cases x; auto simp: lessThan_atLeast0 from_insert [of 0])+
  ultimately show ?thesis
    unfolding file_unlink_def by (intro goes_Cons [OF goes_account(3)] goes_Cons [OF _ goes_Nil]) simp
qed

lemma file_readdir_goes:
  assumes T: "bare T"
  shows "goes view n False (file_readdir K (int x)) (grown C T (fdirs1 x {..<x}) F []) (grown C T (fdirs1 x {..<x}) F [])"
proof -
  let ?G = "grown C T (fdirs1 x {..<x}) F"
  have body: "goes view n False (\<lambda>w. case lsys K (L_opendir ''.'') w of (r, w) \<Rightarrow>
      let dirbuf = lr_ret r
      in if dirbuf = 0 then Exit 1
         else do_all [timed K STAT_READDIR is_null (L_readdir dirbuf), run_or_exit K negative (L_closedir dirbuf)] w)
    (?G [name_L1 (int i), name_L2 (int i) (int j)]) (?G [name_L1 (int i), name_L2 (int i) (int j)])"
    if "i < x" "j < x" for i j
    unfolding goes_def
  proof (intro allI impI)
    let ?s = "[name_L1 (int i), name_L2 (int i) (int j)]" and ?c = "L_opendir ''.''"
    fix w :: "('os, 'd) fop"
    assume w: "at_tree view n w (?G ?s)"
    obtain r w1 where r: "lsys K ?c w = (r, w1)" by fastforce
    let ?T1 = "(?G ?s)\<lparr>t_streams := lr_ret r # t_streams (?G ?s)\<rparr>"
    have "?s \<in> fdirs1 x {..<x}"
      using that by (auto simp: leaf_defs)
    then have can: "tree_can ?c (?G ?s)"
      using cwd_grown [OF T, of ?s "fdirs1 x {..<x}"] by simp
    then have at1: "at_tree view n w1 ?T1" and good: "0 < lr_ret r" "lr_ret r \<notin> set (t_streams (?G ?s))"
      and same: "complaints w1 = complaints w" "f_x w1 = f_x w"
      using call_good [of ?c "l_os w"] call_step [of ?c "l_os w"] w r
        lsys_os(1,3) [of K ?c w] lsys_fields(3,5,7,9,11) [of K ?c w]
      by (auto simp: at_tree_def complaints_def)
    have rd: "goes view n False (timed K STAT_READDIR is_null (L_readdir (lr_ret r))) ?T1 ?T1"
      by (rule goes_timed) (auto simp: is_null_def)
    have "filter (\<lambda>k. k \<noteq> lr_ret r) (t_streams (?G ?s)) = t_streams (?G ?s)"
      using good(2) by (auto simp: filter_id_conv)
    then have cl: "goes view n False (run_or_exit K negative (L_closedir (lr_ret r))) ?T1 (?G ?s)"
      by (intro goes_run_or_exit) (auto simp: negative_def)
    have "goes view n False (do_all [timed K STAT_READDIR is_null (L_readdir (lr_ret r)),
        run_or_exit K negative (L_closedir (lr_ret r))]) ?T1 (?G ?s)"
      by (rule goes_Nil goes_Cons rd cl)+
    from this [unfolded goes_def, rule_format, OF at1] same r good(1) show "\<exists>w'. (case lsys K ?c w of (r, w) \<Rightarrow>
      let dirbuf = lr_ret r
      in if dirbuf = 0 then Exit 1
         else do_all [timed K STAT_READDIR is_null (L_readdir dirbuf), run_or_exit K negative (L_closedir dirbuf)] w) = Ret w'
       \<and> at_tree view n w' (?G ?s) \<and> complaints w' = complaints w \<and> f_x w' = f_x w \<and> (False \<longrightarrow> f_mbuffer w' = f_mbuffer w)"
      by (auto simp: Let_def)
  qed
  show ?thesis
    unfolding file_readdir_def
    by (rule goes_Cons [OF goes_account(3)], rule goes_Cons [OF _ goes_Nil],
        rule in_each_dir_goes [where F = "\<lambda>_ _. F", OF T _ _ body]) (auto simp: leaf_defs)
qed

section \<open>Removing the tree of files\<close>

lemma file_delete_goes:
  assumes T: "bare T"
  shows "goes view n False (file_delete K (int x)) (grown C T (fdirs1 x {..<x}) (files1 x {..<x}) []) T"
proof -
  let ?G = "grown C T"
  let ?D1 = "\<lambda>i m. insert [name_L1 (int i)] (fdirs1 x {Suc i..<x} \<union> fdirs2 i {m..<x})"
  let ?F1 = "\<lambda>i m. files1 x {Suc i..<x} \<union> files2 x i {m..<x}"
  let ?F2 = "\<lambda>i j m. ?F1 i (Suc j) \<union> files3 i j {m..<x}"
  have "goes view n False (file_delete K (int x)) (?G (fdirs1 x {0..<x}) (files1 x {0..<x}) [])
      (?G (fdirs1 x {x..<x}) (files1 x {x..<x}) [])"
    unfolding file_delete_def
  proof (rule goes_Cons [OF goes_account(3)], rule goes_Cons [OF goes_c_for goes_Nil])
    fix i assume i: "i < x"
    let ?N1 = "name_L1 (int i)" and ?N2 = "\<lambda>j. name_L2 (int i) (int j)"
    let ?body3 = "\<lambda>j k. timed_dropped K STAT_DELETE (L_unlink (name_file (int i) j k))"
    let ?body2 = "\<lambda>j. do_all [run K (L_chdir (name_L2 (int i) j)), c_for (int x) (?body3 j), run K (L_chdir ''..''),
        run K (L_rmdir (name_L2 (int i) j))]"
    have loop3: "goes view n False (c_for (int x) (?body3 (int j)))
        (?G (?D1 i j) (?F2 i j 0) [?N1, ?N2 j]) (?G (?D1 i j) (?F2 i j x) [?N1, ?N2 j])"
      if j: "j < x" for j
    proof (rule goes_c_for)
      fix k assume k: "k < x"
      let ?N3 = "name_file (int i) (int j) (int k)"
      have "tree_can (L_unlink ?N3) (?G (?D1 i j) (?F2 i j k) [?N1, ?N2 j])"
        "tree_step (L_unlink ?N3) r (?G (?D1 i j) (?F2 i j k) [?N1, ?N2 j])
          = ?G (?D1 i j) (?F2 i j k - {[?N1, ?N2 j] @ [?N3]}) [?N1, ?N2 j]" for r
        using k by (intro grown_unlink; auto simp: T leaf_defs simp del: tree_can.simps tree_step.simps)+
      moreover have "?F2 i j k - {[?N1, ?N2 j] @ [?N3]} = ?F2 i j (Suc k)"
        by (auto simp: from_insert [OF k] leaf_defs)
      ultimately show "goes view n False (?body3 (int j) (int k))
          (?G (?D1 i j) (?F2 i j k) [?N1, ?N2 j]) (?G (?D1 i j) (?F2 i j (Suc k)) [?N1, ?N2 j])"
        by (intro goes_timed_dropped) (simp_all del: tree_can.simps tree_step.simps)
    qed
    have loop2: "goes view n False (c_for (int x) ?body2) (?G (?D1 i 0) (?F1 i 0) [?N1]) (?G (?D1 i x) (?F1 i x) [?N1])"
    proof (rule goes_c_for)
      fix j assume j: "j < x"
      have F: "?F2 i j x = ?F1 i (Suc j)" by simp
      have "?F1 i j = ?F2 i j 0"
        by (simp add: from_insert [OF j] Un_ac lessThan_atLeast0)
      then have dn: "goes view n False (run K (L_chdir (?N2 j))) (?G (?D1 i j) (?F1 i j) [?N1]) (?G (?D1 i j) (?F2 i j 0) [?N1, ?N2 j])"
        by (simp only:) (rule goes_down, auto simp: T leaf_defs j)
      have up: "goes view n False (run K (L_chdir ''..'')) (?G (?D1 i j) (?F2 i j x) [?N1, ?N2 j]) (?G (?D1 i j) (?F1 i (Suc j)) [?N1])"
        unfolding F by (rule goes_up) (auto simp: T)
      have rm: "goes view n False (run K (L_rmdir (?N2 j)))
          (?G (?D1 i j) (?F1 i (Suc j)) [?N1]) (?G (?D1 i (Suc j)) (?F1 i (Suc j)) [?N1])"
        by (rule goes_rmdir) (auto simp: T leaf_defs j)
      show "goes view n False (?body2 (int j)) (?G (?D1 i j) (?F1 i j) [?N1]) (?G (?D1 i (Suc j)) (?F1 i (Suc j)) [?N1])"
        by (rule goes_Nil goes_Cons rm dn loop3 j up)+
    qed
    have "fdirs1 x {i..<x} = ?D1 i 0" "files1 x {i..<x} = ?F1 i 0"
      by (simp_all add: from_insert [OF i] Un_ac lessThan_atLeast0)
    then have dn: "goes view n False (run K (L_chdir ?N1)) (?G (fdirs1 x {i..<x}) (files1 x {i..<x}) []) (?G (?D1 i 0) (?F1 i 0) [?N1])"
      by (simp only:) (rule goes_down, auto simp: T)
    have up: "goes view n False (run K (L_chdir ''..'')) (?G (?D1 i x) (?F1 i x) [?N1]) (?G (?D1 i x) (?F1 i x) [])"
      by (rule goes_up) (auto simp: T)
    have F: "?F1 i x = files1 x {Suc i..<x}" by simp
    have rm: "goes view n False (run K (L_rmdir ?N1))
        (?G (?D1 i x) (?F1 i x) []) (?G (fdirs1 x {Suc i..<x}) (files1 x {Suc i..<x}) [])"
      unfolding F by (rule goes_rmdir) (auto simp: T leaf_defs)
    show "goes view n False (do_all [run K (L_chdir ?N1), c_for (int x) ?body2, run K (L_chdir ''..''),
        run K (L_rmdir ?N1)]) (?G (fdirs1 x {i..<x}) (files1 x {i..<x}) []) (?G (fdirs1 x {Suc i..<x}) (files1 x {Suc i..<x}) [])"
      by (rule goes_Nil goes_Cons rm dn loop2 up)+
  qed
  then show ?thesis by (simp add: lessThan_atLeast0)
qed

end

end
