(* ===== verification/Fileop_Properties.thy ===== *)
theory Fileop_Properties
  imports Fileop_Files
begin

text \<open>
  The properties of the file-operation benchmark: a round and the whole program leave a file system
  that keeps its promises as they found it, every operation is counted as often as the tree
  demands, and a force factor that never grows keeps the program running for ever.
\<close>

section \<open>A round\<close>

text \<open>As \<open>goes\<close>, with the force factor known, which the tests take from the global.\<close>

definition goes_at :: "('os \<Rightarrow> tree) \<Rightarrow> nat \<Rightarrow> int \<Rightarrow> (('os, 'd) fop \<Rightarrow> ('os, 'd) fop outcome) \<Rightarrow> tree \<Rightarrow> tree \<Rightarrow> bool" where
  "goes_at view n x f T T' \<longleftrightarrow> (\<forall>w. at_tree view n w T \<and> f_x w = x \<longrightarrow>
     (\<exists>w'. f w = Ret w' \<and> at_tree view n w' T' \<and> complaints w' = complaints w \<and> f_x w' = x))"

lemma goes_at_Nil: "goes_at view n x (do_all []) T T"
  by (simp add: goes_at_def)

lemma goes_at_Cons:
  fixes f :: "('os, 'd) fop \<Rightarrow> ('os, 'd) fop outcome"
  assumes "goes_at view n x f T T'" "goes_at view n x (do_all fs) T' T''"
  shows "goes_at view n x (do_all (f # fs)) T T''"
  unfolding goes_at_def
proof (intro allI impI)
  fix w :: "('os, 'd) fop"
  assume w: "at_tree view n w T \<and> f_x w = x"
  then obtain w1 where w1: "f w = Ret w1" "at_tree view n w1 T' \<and> f_x w1 = x" "complaints w1 = complaints w"
    using assms(1) unfolding goes_at_def by blast
  then obtain w2 where "do_all fs w1 = Ret w2" "at_tree view n w2 T''" "complaints w2 = complaints w1" "f_x w2 = x"
    using assms(2) unfolding goes_at_def by blast
  with w1 show "\<exists>w'. do_all (f # fs) w = Ret w' \<and> at_tree view n w' T'' \<and> complaints w' = complaints w \<and> f_x w' = x"
    by simp
qed

lemma goes_at_plain: "goes view n False f T T' \<Longrightarrow> goes_at view n x f T T'"
  by (auto simp: goes_def goes_at_def)

lemma goes_at_force: "goes view n keep (f x) T T' \<Longrightarrow> goes_at view n x (\<lambda>w. f (f_x w) w) T T'"
  by (auto simp: goes_def goes_at_def)

lemmas goes_at_basic = goes_at_Nil goes_at_Cons goes_at_plain [OF goes_purge]
  goes_at_plain [OF goes_report(1)] goes_at_plain [OF goes_report(2)]

text \<open>The factors of a range, from \<open>lo\<close> in steps of \<open>inc\<close> up to \<open>hi\<close>.\<close>

definition factors :: "int \<Rightarrow> int \<Rightarrow> int \<Rightarrow> int list" where
  "factors lo hi inc = map (\<lambda>k. lo + int k * inc) [0..<nat ((hi - lo) div inc + 1)]"

lemma factors_Nil: "0 < inc \<Longrightarrow> hi < lo \<Longrightarrow> factors lo hi inc = []"
proof -
  assume "0 < inc" "hi < lo"
  then have "(hi - lo) div inc < 0" by (simp add: pos_imp_zdiv_neg_iff)
  then show ?thesis by (simp add: factors_def)
qed

lemma factors_Cons:
  assumes "0 < inc" "lo \<le> hi"
  shows "factors lo hi inc = lo # factors (lo + inc) hi inc"
proof -
  have "(hi - lo) div inc = (hi - (lo + inc)) div inc + 1" "0 \<le> (hi - lo) div inc"
  proof -
    show "(hi - lo) div inc = (hi - (lo + inc)) div inc + 1"
      using assms div_add_self2 [of inc "hi - (lo + inc)"] by simp
    show "0 \<le> (hi - lo) div inc"
      using pos_imp_zdiv_nonneg_iff [OF assms(1), of "hi - lo"] assms(2) by simp
  qed
  then have n: "nat ((hi - lo) div inc + 1) = Suc (nat ((hi - (lo + inc)) div inc + 1))"
    by simp
  show ?thesis
    unfolding factors_def n by (simp add: map_upt_Suc algebra_simps del: upt_Suc)
qed

context tree_files
begin

lemma round_tests_go:
  assumes T: "bare T"
  shows "goes_at view n (int x) (do_all (round_tests K)) T T"
proof -
  note dirs = goes_at_force [where f = "dir_create K", OF dir_create_goes [OF T, where C = "contents n"]]
    goes_at_force [where f = "dir_traverse K", OF dir_traverse_goes [OF T, where C = "contents n" and F = "{}"]]
    goes_at_force [where f = "dir_delete K", OF dir_delete_goes [OF T, where C = "contents n"]]
  note data = goes_at_force [where f = "file_create K", OF file_create_goes [OF T]]
    goes_at_force [where f = "file_stat K", OF file_tests_go(1) [OF T refl]]
    goes_at_force [where f = "file_read K", OF file_tests_go(4) [OF T refl]]
  note attr = goes_at_force [where f = "file_access K", OF file_tests_go(2) [OF T refl]]
    goes_at_force [where f = "file_chmod K", OF file_tests_go(3) [OF T refl]]
    goes_at_force [where f = "file_readdir K", OF file_readdir_goes [OF T]]
  note links = goes_at_force [where f = "file_link K", OF file_link_goes [OF T]]
    goes_at_force [where f = "file_unlink K", OF file_unlink_goes [OF T]]
    goes_at_force [where f = "file_delete K", OF file_delete_goes [OF T]]
  show ?thesis
    unfolding round_tests_defs by (rule dirs data attr links goes_at_basic)+
qed

lemma round_goes:
  assumes "bare T" "at_tree view n w T"
  shows "\<exists>w'. fileop_round K (int x) w = Ret w' \<and> at_tree view n w' T \<and> complaints w' = complaints w"
proof -
  obtain w1 where w1: "clear_stats K w = Ret w1" and "at_tree view n (w1\<lparr>f_x := int x\<rparr>) T \<and> f_x (w1\<lparr>f_x := int x\<rparr>) = int x"
    and same: "complaints (w1\<lparr>f_x := int x\<rparr>) = complaints w"
    using assms(2) by (auto simp: clear_stats_def Let_def at_tree_def complaints_def)
  from round_tests_go [OF assms(1), of n x, unfolded goes_at_def, rule_format, OF this(2)]
  show ?thesis
    using w1 same by (auto simp: fileop_round_def)
qed

section \<open>The loop over force factors\<close>

lemma main_loop_goes:
  assumes T: "bare T"
  shows "at_tree view n w T \<Longrightarrow> 0 < f_incr w \<Longrightarrow> 0 \<le> i \<Longrightarrow> i + f_incr w < 2 ^ 31 \<Longrightarrow> f_upper w + f_incr w < 2 ^ 31
    \<Longrightarrow> \<exists>w'. main_loop K i w = Some (Ret w') \<and> at_tree view n w' T \<and> complaints w' = complaints w
      \<and> do_all (map (fileop_round K) (factors i (f_upper w) (f_incr w))) w = Ret w'"
proof (induction "nat (f_upper w + 1 - i)" arbitrary: i w rule: less_induct)
  case less
  show ?case
  proof (cases "i \<le> f_upper w")
    case True
    obtain w1 where w1: "fileop_round K i w = Ret w1" "at_tree view n w1 T" "complaints w1 = complaints w"
      using round_goes [OF T less.prems(1), of "nat i"] less.prems(3) by auto
    note kept = fileop_round_counters(3,4) [OF w1(1)]
    have i': "c_int (i + f_incr w1) = i + f_incr w1"
      using less.prems kept by simp
    obtain w' where "main_loop K (i + f_incr w1) w1 = Some (Ret w')" "at_tree view n w' T" "complaints w' = complaints w1"
      "do_all (map (fileop_round K) (factors (i + f_incr w) (f_upper w) (f_incr w))) w1 = Ret w'"
    proof (cases "i + f_incr w \<le> f_upper w")
      case True
      with less.hyps [of w1 "i + f_incr w1"] less.prems kept w1 that show thesis by auto
    next
      case False
      with w1 kept that less.prems(2) show thesis by (subst (asm) main_loop.simps) (auto simp: factors_Nil)
    qed
    with w1 True i' factors_Cons [OF less.prems(2) True] show ?thesis by (subst main_loop.simps) simp
  next
    case False
    with less.prems show ?thesis by (subst main_loop.simps) (simp add: factors_Nil)
  qed
qed

lemma main_loop_stuck:
  assumes T: "bare T" and w: "at_tree view n w T" "f_incr w = 0" "0 \<le> i" "i < 2 ^ 31" "i \<le> f_upper w"
  shows "main_loop K i w = None"
proof (cases "main_loop K i w")
  case (Some r)
  have "\<not> (K' = K \<and> at_tree view n w T \<and> f_incr w = 0 \<and> 0 \<le> i \<and> i < 2 ^ 31 \<and> i \<le> f_upper w)"
    if "main_loop K' i w = Some r" for K' i w r
  proof (rule main_loop.raw_induct [where P = "\<lambda>K' i w r. \<not> (K' = K \<and> at_tree view n w T \<and> f_incr w = 0
      \<and> 0 \<le> i \<and> i < 2 ^ 31 \<and> i \<le> f_upper w)", OF _ that], rule notI, elim conjE)
    fix f K' i and w :: "('os, 'd) fop" and r
    assume IH: "\<And>K' i w r. f K' i w = Some r \<Longrightarrow> \<not> (K' = K \<and> at_tree view n w T \<and> f_incr w = 0
        \<and> 0 \<le> i \<and> i < 2 ^ 31 \<and> i \<le> f_upper w)"
      and body: "(if i \<le> f_upper w then case fileop_round K' i w of Ret w \<Rightarrow> f K' (c_int (i + f_incr w)) w
          | Crash c \<Rightarrow> Some (Crash c) | Exit n \<Rightarrow> Some (Exit n) | Hang \<Rightarrow> Some Hang else Some (Ret w)) = Some r"
      and K': "K' = K" and at: "at_tree view n w T" and i: "f_incr w = 0" "0 \<le> i" "i < 2 ^ 31" "i \<le> f_upper w"
    obtain w1 where w1: "fileop_round K i w = Ret w1" "at_tree view n w1 T"
      using round_goes [OF T at, of "nat i"] i(2) by auto
    note kept = fileop_round_counters(3,4) [OF w1(1)]
    from body i K' w1 kept have "f K i w1 = Some r" by simp
    with IH [of K i w1 r] w1 kept i show False by simp
  qed
  with Some w show ?thesis by blast
qed

lemma start_at_tree:
  assumes "at_tree view n (w\<lparr>f_mbuffer := replicate n b\<rparr>) T" "bare T"
  shows "at_tree view n (lcall K (L_chdir ''.'') (w\<lparr>f_mbuffer := replicate n b\<rparr>)) T"
    "complaints (lcall K (L_chdir ''.'') (w\<lparr>f_mbuffer := replicate n b\<rparr>)) = complaints w"
proof -
  have "tree_can (L_chdir ''.'') T" "tree_step (L_chdir ''.'') r T = T" for r
    using assms(2) by (simp_all add: path_of_def bare_def)
  from goes_lsys [OF assms(1) this(1), of T] this(2) show "at_tree view n (lcall K (L_chdir ''.'') (w\<lparr>f_mbuffer := replicate n b\<rparr>)) T"
    "complaints (lcall K (L_chdir ''.'') (w\<lparr>f_mbuffer := replicate n b\<rparr>)) = complaints w"
    by (simp_all add: lcall_def complaints_def)
qed

end

section \<open>Properties\<close>

text \<open>The range of force factors after the options.\<close>

definition first_factor :: "('os, 'd) fop \<Rightarrow> int" where
  "first_factor w = (if f_range w = 0 then (if f_x w = 0 then 1 else f_x w) else f_lower w)"

definition last_factor :: "('os, 'd) fop \<Rightarrow> int" where
  "last_factor w = (if f_range w = 0 then (if f_x w = 0 then 1 else f_x w) else f_upper w)"

text \<open>The state in which the loop starts.\<close>

definition loop_start :: "('os, 'd) fop_machine \<Rightarrow> ('os, 'd) fop \<Rightarrow> ('os, 'd) fop" where
  "loop_start K w =
     (let w = w\<lparr>f_mbuffer := replicate (nat (f_sz w)) 0x61\<rparr>;
          w = lcall K (L_chdir (f_thedir w)) w;
          w = (if f_x w = 0 then w\<lparr>f_x := 1\<rparr> else w)
      in if f_range w = 0 then w\<lparr>f_lower := f_x w, f_upper := f_x w\<rparr> else w)"

lemma lcall_more [simp]:
  "f_thedir (lcall K c w) = f_thedir w" "f_lower (lcall K c w) = f_lower w" "f_range (lcall K c w) = f_range w"
  by (simp_all add: lcall_def lsys_def split: prod.split)

lemma fileop_main_loop:
  assumes "argc \<noteq> 1" "do_all (map option_step opts) w = Ret w0"
  shows "fileop_main K argc opts w =
    (case main_loop K (first_factor w0) (loop_start K w0) of None \<Rightarrow> Hang | Some r \<Rightarrow> r)"
  using assms by (simp add: fileop_main_def loop_start_def first_factor_def Let_def)

lemma loop_start:
  assumes "tree_files K view" "bare (view (l_os w))" "f_mountname w = None" "0 \<le> f_sz w" "f_thedir w = ''.''"
  shows "at_tree view (nat (f_sz w)) (loop_start K w) (view (l_os w))" "complaints (loop_start K w) = complaints w"
    "f_incr (loop_start K w) = f_incr w" "f_upper (loop_start K w) = last_factor w"
proof -
  let ?w = "w\<lparr>f_mbuffer := replicate (nat (f_sz w)) 0x61\<rparr>"
  have "at_tree view (nat (f_sz w)) ?w (view (l_os w))"
    using assms(3,4) by (simp add: at_tree_def)
  note start = tree_files.start_at_tree [OF assms(1) this assms(2)]
  then show "at_tree view (nat (f_sz w)) (loop_start K w) (view (l_os w))"
    "complaints (loop_start K w) = complaints w"
    using assms(5) by (auto simp: loop_start_def Let_def at_tree_def complaints_def)
  show "f_incr (loop_start K w) = f_incr w" "f_upper (loop_start K w) = last_factor w"
    by (simp_all add: loop_start_def last_factor_def Let_def)
qed

text \<open>
  C18: on a file system that keeps its promises, a round of tests with force factor \<open>x\<close> succeeds,
  leaves the whole tree, the working directory and the open descriptors as they were, finds no
  wrong data, and has counted each operation \<open>x ^ 3\<close> times (\<open>x + x ^ 2 + x ^ 3\<close> for directories,
  \<open>x ^ 2\<close> for \<open>readdir\<close>).
\<close>

theorem fileop_round_restores:
  assumes "tree_files K view" "bare (view (l_os w))"
    and "f_mountname w = None" "f_sz w = int (length (f_mbuffer w))"
  shows "\<exists>w'. fileop_round K (int x) w = Ret w' \<and> view (l_os w') = view (l_os w)
     \<and> complaints w' = complaints w \<and> (\<forall>s. ss_counter (f_stats w' s) = of_nat (round_count (int x) s))"
proof -
  have "at_tree view (length (f_mbuffer w)) w (view (l_os w))"
    using assms(3,4) by (simp add: at_tree_def)
  then obtain w' where "fileop_round K (int x) w = Ret w'" "at_tree view (length (f_mbuffer w)) w' (view (l_os w))"
    "complaints w' = complaints w"
    using tree_files.round_goes [OF assms(1,2)] by blast
  with fileop_round_counters(1) [OF this(1)] show ?thesis
    by (auto simp: at_tree_def)
qed

lemma fop_start_fields [simp]:
  "l_os (fop_start K os) = os" "f_x (fop_start K os) = 0" "f_sz (fop_start K os) = 1" "f_incr (fop_start K os) = 1"
  "f_thedir (fop_start K os) = ''.''" "f_mountname (fop_start K os) = None" "f_lower (fop_start K os) = 0"
  "f_upper (fop_start K os) = 0" "f_range (fop_start K os) = 0" "f_mbuffer (fop_start K os) = []"
  by (simp_all add: fop_start_def Let_def)

text \<open>A file system with one directory, and a state of the program in it.\<close>

definition one_dir :: tree where
  "one_dir = \<lparr>t_dirs = {[], [''tmp'']}, t_files = {}, t_data = (\<lambda>_. []), t_cwd = [''tmp''], t_fds = [], t_streams = []\<rparr>"

lemma bare_one_dir: "bare one_dir"
  by (auto simp: bare_def one_dir_def is_free_def ours_def)

theorem fileop_round_restores_witness:
  "\<exists>w'. fileop_round tree_machine 2 ((fop_start tree_machine (one_dir, 0))\<lparr>f_mbuffer := [0]\<rparr>) = Ret w'
     \<and> fst (l_os w') = one_dir \<and> ss_counter (f_stats w' STAT_LINK) = 8 \<and> ss_counter (f_stats w' STAT_DIR_CREATE) = 14"
  using fileop_round_restores [OF tree_machine.tree_files_axioms,
      of "(fop_start tree_machine (one_dir, 0))\<lparr>f_mbuffer := [0]\<rparr>" 2] bare_one_dir
  by (auto simp: round_count_def tree_dirs_def)

lemma last_round_counts:
  assumes "do_all (map (fileop_round K) xs) w = Ret w'" "xs \<noteq> []"
  shows "ss_counter (f_stats w' s) = of_nat (round_count (last xs) s)"
proof -
  have "do_all (map (fileop_round K) (butlast xs) @ [fileop_round K (last xs)]) w = Ret w'"
    using assms by (metis append_butlast_last_id list.simps(8,9) map_append)
  then obtain w1 where "fileop_round K (last xs) w1 = Ret w'"
    by (auto simp: do_all_append obind_eq_Ret)
  from fileop_round_counters(1) [OF this] show ?thesis by simp
qed

text \<open>
  C19: with a positive increment that does not overflow, the program ends. What it has done is
  to run one round of tests for each force factor of its range, from the first one in steps of
  the increment as long as the last one is not exceeded, in this order and nothing else: the
  state it ends in is the one after these rounds. The file system is left as it was, nothing
  was found wrong, and the counters are those of a full round with the last factor.
\<close>

theorem fileop_main_runs_rounds:
  assumes "tree_files K view" "bare (view (l_os w0))"
    and "argc \<noteq> 1" "do_all (map option_step opts) w = Ret w0"
    and "f_mountname w0 = None" "0 \<le> f_sz w0" "f_thedir w0 = ''.''"
    and "0 < f_incr w0" "0 \<le> first_factor w0"
    and "first_factor w0 + f_incr w0 < 2 ^ 31" "last_factor w0 + f_incr w0 < 2 ^ 31"
  shows "\<exists>w'. fileop_main K argc opts w = Ret w' \<and>
    do_all (map (fileop_round K) (factors (first_factor w0) (last_factor w0) (f_incr w0))) (loop_start K w0) = Ret w' \<and>
    view (l_os w') = view (l_os w0) \<and> complaints w' = complaints w0 \<and>
    (first_factor w0 \<le> last_factor w0 \<longrightarrow> (\<forall>s. ss_counter (f_stats w' s) =
       of_nat (round_count (last (factors (first_factor w0) (last_factor w0) (f_incr w0))) s)))"
proof -
  let ?xs = "factors (first_factor w0) (last_factor w0) (f_incr w0)"
  note start = loop_start [OF assms(1,2,5,6,7)]
  obtain w' where w': "main_loop K (first_factor w0) (loop_start K w0) = Some (Ret w')"
    "at_tree view (nat (f_sz w0)) w' (view (l_os w0))" "complaints w' = complaints w0"
    "do_all (map (fileop_round K) ?xs) (loop_start K w0) = Ret w'"
    using tree_files.main_loop_goes [OF assms(1,2) start(1), of "first_factor w0"] start assms(8-11) by auto
  have "?xs \<noteq> []" if "first_factor w0 \<le> last_factor w0"
    using factors_Cons [OF assms(8) that] by simp
  with last_round_counts [OF w'(4)] w' show ?thesis
    using fileop_main_loop [OF assms(3,4), of K] by (auto simp: at_tree_def)
qed

definition demo_options :: "(char \<times> string) list" where
  "demo_options = [(CHR ''l'', ''1''), (CHR ''u'', ''3''), (CHR ''i'', ''2''), (CHR ''s'', ''1k'')]"

theorem fileop_main_runs_rounds_witness:
  "\<exists>w' w1 w2. fileop_main tree_machine 9 demo_options (fop_start tree_machine (one_dir, 0)) = Ret w' \<and>
     fileop_round tree_machine 1 w1 = Ret w2 \<and> fileop_round tree_machine 3 w2 = Ret w' \<and>
     fst (l_os w') = one_dir \<and> ss_counter (f_stats w' STAT_LINK) = 27"
proof -
  let ?w = "(fop_start tree_machine (one_dir, 0))\<lparr>f_lower := 1, f_upper := 3, f_incr := 2, f_sz := 1024, f_range := 1\<rparr>"
  have "atoi ''1'' = 1" "atoi ''2'' = 2" "atoi ''3'' = 3" "atoi ''1k'' = 1"
    by (simp_all add: atoi_def is_space_def is_digit_def digits_val_def digit_val_def)
  then have o: "do_all (map option_step demo_options) (fop_start tree_machine (one_dir, 0)) = Ret ?w"
    by (simp add: demo_options_def option_step_def option_size_def at_least_def)
  have f: "first_factor ?w = 1" "last_factor ?w = 3" "f_incr ?w = 2"
    by (simp_all add: first_factor_def last_factor_def)
  have x: "factors 1 3 2 = [1, 3]" by code_simp
  have "round_count 3 STAT_LINK = 27" by (simp add: round_count_def)
  with fileop_main_runs_rounds [OF tree_machine.tree_files_axioms _ _ o, of 9] bare_one_dir
  obtain w' w1 where "fileop_main tree_machine 9 demo_options (fop_start tree_machine (one_dir, 0)) = Ret w'"
    "fileop_round tree_machine 1 (loop_start tree_machine ?w) = Ret w1" "fileop_round tree_machine 3 w1 = Ret w'"
    "fst (l_os w') = one_dir" "ss_counter (f_stats w' STAT_LINK) = 27"
    by (auto simp: f x obind_eq_Ret)
  then show ?thesis by blast
qed

text \<open>
  An increment of 0, which the option \<open>-i\<close> accepts, keeps the program running for ever: the
  first force factor is tested again and again.
\<close>

theorem fileop_main_increment_zero_hangs:
  assumes "tree_files K view" "bare (view (l_os w0))"
    and "argc \<noteq> 1" "do_all (map option_step opts) w = Ret w0"
    and "f_mountname w0 = None" "0 \<le> f_sz w0" "f_thedir w0 = ''.''"
    and "f_incr w0 = 0" "0 \<le> first_factor w0" "first_factor w0 < 2 ^ 31" "first_factor w0 \<le> last_factor w0"
  shows "fileop_main K argc opts w = Hang"
  using fileop_main_loop [OF assms(3,4), of K] loop_start [OF assms(1,2,5,6,7)] assms(8-11)
    tree_files.main_loop_stuck [OF assms(1,2), of "nat (f_sz w0)" "loop_start K w0" "first_factor w0"]
  by simp

theorem fileop_main_increment_zero_hangs_witness:
  "fileop_main tree_machine 5 [(CHR ''i'', ''0''), (CHR ''f'', ''2'')] (fop_start tree_machine (one_dir, 0)) = Hang"
proof -
  let ?w = "(fop_start tree_machine (one_dir, 0))\<lparr>f_incr := 0, f_x := 2\<rparr>"
  have "atoi ''0'' = 0" "atoi ''2'' = 2"
    by (simp_all add: atoi_def is_space_def is_digit_def digits_val_def digit_val_def)
  then have "do_all (map option_step [(CHR ''i'', ''0''), (CHR ''f'', ''2'')]) (fop_start tree_machine (one_dir, 0)) = Ret ?w"
    by (simp add: option_step_def at_least_def)
  from fileop_main_increment_zero_hangs [OF tree_machine.tree_files_axioms _ _ this, of 5] bare_one_dir show ?thesis
    by (simp add: first_factor_def last_factor_def)
qed

end
