(* ===== verification/Libasync.thy ===== *)
theory Libasync
  imports Cfs_Prelude
begin

text \<open>
  \<open>example/iozone3_487/src/current/libasync.c\<close>: reads and writes through POSIX asynchronous I/O.
  A cache holds requests for read-ahead in a doubly linked list, a queue holds writes in flight,
  and a third list the buffers lent to the caller. The nodes live in a heap, a map from
  addresses; the data buffers are blocks of a flat memory of bytes. Address 0 is the null pointer.
  An access to a node or to memory that is not allocated is a crash.

  The asynchronous I/O of the system is a parameter, an arbitrary function of the call and its own
  state. A \<open>long long\<close> is an integer; the code's sums that could leave its range are converted
  by \<open>c_llong\<close>.
\<close>

section \<open>State\<close>

type_synonym ptr = nat

definition c_llong :: "int \<Rightarrow> int" where
  "c_llong x = signed_take_bit 63 x"

record aiocb =
  aio_fildes :: int
  aio_offset :: int
  aio_buf :: ptr
  aio_nbytes :: size_t
  aio_lio_opcode :: int

record cache_ent =
  ce_myaiocb :: aiocb
  ce_fd :: int
  ce_forward :: ptr
  ce_back :: ptr
  ce_direct :: int
  ce_real_address :: ptr
  ce_oldbuf :: ptr
  ce_oldfd :: int
  ce_oldsize :: size_t

record cache =
  gc_head :: ptr
  gc_tail :: ptr
  gc_inuse_head :: ptr
  gc_count :: int
  gc_w_head :: ptr
  gc_w_tail :: ptr
  gc_w_count :: int

text \<open>
  A request is known to the system by the address of its control block, which is that of the node
  it is the first member of. \<open>Aio_cancel\<close> also has the descriptor that is passed. \<open>Aio_write\<close> carries the bytes to be written.
\<close>

datatype aio_call =
    Aio_read ptr aiocb
  | Aio_write ptr aiocb "byte list"
  | Aio_error ptr
  | Aio_suspend ptr
  | Aio_return ptr
  | Aio_cancel int ptr

record aio_ret =
  ar_ret :: int
  ar_errno :: int
  ar_data :: "byte list"

text \<open>
  \<open>ak_nomem\<close> tells when \<open>malloc\<close> fails, \<open>ak_page\<close> is \<open>page_size\<close>, a power of two,
  \<open>ak_max_depth\<close> the value of \<open>sysconf(_SC_AIO_MAX)\<close>.
\<close>

record 'os aio =
  ak_sys :: "aio_call \<Rightarrow> 'os \<Rightarrow> aio_ret \<times> 'os"
  ak_nomem :: "'os \<Rightarrow> nat \<Rightarrow> bool"
  ak_page :: nat
  ak_max_depth :: int

text \<open>
  \<open>a_blocks\<close> are the allocated data buffers, address and length; \<open>a_next\<close> is the first address
  never allocated: no address is used twice. \<open>a_gc_set\<close> tells whether the caller's pointer \<open>gc\<close>
  is not null, \<open>a_gc\<close> is the structure it leads to, if that is allocated. \<open>a_calls\<close> lists the calls
  made, for the theorems to speak of; no definition reads it.
\<close>

record 'os async =
  a_os :: 'os
  a_errno :: int
  a_ents :: "ptr \<Rightarrow> cache_ent option"
  a_blocks :: "(ptr \<times> nat) list"
  a_mem :: "ptr \<Rightarrow> byte"
  a_next :: ptr
  a_gc :: "cache option"
  a_gc_set :: bool
  a_max_depth :: int
  a_calls :: "aio_call list"

definition asys :: "'os aio \<Rightarrow> aio_call \<Rightarrow> 'os async \<Rightarrow> aio_ret \<times> 'os async" where
  "asys K c w = (case ak_sys K c (a_os w) of (r, os) \<Rightarrow>
     (r, w\<lparr>a_os := os, a_errno := ar_errno r, a_calls := a_calls w @ [c]\<rparr>))"

section \<open>Memory\<close>

definition deref :: "ptr \<Rightarrow> 'os async \<Rightarrow> cache_ent outcome" where
  "deref p w = (if p = 0 then Crash BadHandle
     else case a_ents w p of None \<Rightarrow> Crash BadHandle | Some e \<Rightarrow> Ret e)"

definition set_ent :: "ptr \<Rightarrow> (cache_ent \<Rightarrow> cache_ent) \<Rightarrow> 'os async \<Rightarrow> 'os async outcome" where
  "set_ent p f w = obind (deref p w) (\<lambda>e. Ret (w\<lparr>a_ents := (a_ents w)(p \<mapsto> f e)\<rparr>))"

definition get_gc :: "'os async \<Rightarrow> cache outcome" where
  "get_gc w = (case a_gc w of None \<Rightarrow> Crash BadHandle | Some g \<Rightarrow> Ret g)"

definition upd_gc :: "(cache \<Rightarrow> cache) \<Rightarrow> 'os async \<Rightarrow> 'os async" where
  "upd_gc f w = w\<lparr>a_gc := map_option f (a_gc w)\<rparr>"

definition in_block :: "ptr \<Rightarrow> nat \<Rightarrow> 'os async \<Rightarrow> bool" where
  "in_block p n w = list_ex (\<lambda>(b, l). b \<le> p \<and> p + n \<le> b + l) (a_blocks w)"

definition read_mem :: "ptr \<Rightarrow> nat \<Rightarrow> 'os async \<Rightarrow> byte list outcome" where
  "read_mem p n w = (if in_block p n w then Ret (map (a_mem w) [p..<p + n]) else Crash OverRead)"

definition write_mem :: "ptr \<Rightarrow> byte list \<Rightarrow> 'os async \<Rightarrow> 'os async outcome" where
  "write_mem p bs w =
     (if in_block p (length bs) w
      then Ret (w\<lparr>a_mem := (\<lambda>q. if p \<le> q \<and> q < p + length bs then bs ! (q - p) else a_mem w q)\<rparr>)
      else Crash BufferOverflow)"

text \<open>\<open>malloc\<close> of a data buffer, and of a node, which is then cleared by \<open>bzero\<close>.\<close>

definition malloc_block :: "'os aio \<Rightarrow> int \<Rightarrow> 'os async \<Rightarrow> ptr \<times> 'os async" where
  "malloc_block K sz w =
     (let n = unat (word_of_int sz :: size_t) in
      if ak_nomem K (a_os w) n then (0, w)
      else (a_next w, w\<lparr>a_blocks := (a_next w, n) # a_blocks w, a_next := a_next w + n + 1\<rparr>))"

definition blank_ent :: cache_ent where
  "blank_ent = \<lparr>ce_myaiocb = \<lparr>aio_fildes = 0, aio_offset = 0, aio_buf = 0, aio_nbytes = 0, aio_lio_opcode = 0\<rparr>,
     ce_fd = 0, ce_forward = 0, ce_back = 0, ce_direct = 0, ce_real_address = 0,
     ce_oldbuf = 0, ce_oldfd = 0, ce_oldsize = 0\<rparr>"

definition malloc_ent :: "'os aio \<Rightarrow> 'os async \<Rightarrow> ptr \<times> 'os async" where
  "malloc_ent K w =
     (if ak_nomem K (a_os w) 256 then (0, w)
      else (a_next w, w\<lparr>a_ents := (a_ents w)(a_next w \<mapsto> blank_ent), a_next := a_next w + 1\<rparr>))"

definition free_block :: "ptr \<Rightarrow> 'os async \<Rightarrow> 'os async outcome" where
  "free_block p w =
     (if p \<in> fst ` set (a_blocks w) then Ret (w\<lparr>a_blocks := filter (\<lambda>(b, l). b \<noteq> p) (a_blocks w)\<rparr>)
      else Crash BadHandle)"

text \<open>
  The idiom that frees a node with its buffer: \<open>free(ce->real_address)\<close> unless it is null, then
  \<open>free(ce)\<close>.
\<close>

definition free_ent :: "ptr \<Rightarrow> 'os async \<Rightarrow> 'os async outcome" where
  "free_ent ce w =
     obind (deref ce w) (\<lambda>e.
     obind (if ce_real_address e \<noteq> 0 then free_block (ce_real_address e) w else Ret w) (\<lambda>w.
     Ret (w\<lparr>a_ents := (a_ents w)(ce := None)\<rparr>)))"

text \<open>\<open>temp = (temp + (page_size - 1)) & ~(page_size - 1)\<close>, for a page size that is a power of two.\<close>

definition page_align :: "'os aio \<Rightarrow> ptr \<Rightarrow> ptr" where
  "page_align K p = (p + (ak_page K - 1)) div ak_page K * ak_page K"

definition mbcopy :: "ptr \<Rightarrow> ptr \<Rightarrow> nat \<Rightarrow> 'os async \<Rightarrow> 'os async outcome" where
  "mbcopy source dest len w = obind (read_mem source len w) (\<lambda>bs. write_mem dest bs w)"

section \<open>Calls of the system\<close>

text \<open>
  The control block of a request is read when the request is submitted; so are the bytes to be
  written, which the caller may not change before the write is finished. The bytes that a
  finished read has put into its buffer become visible in \<open>aio_return\<close>: the code looks at a
  buffer only after this call.
\<close>

definition aio_read :: "'os aio \<Rightarrow> ptr \<Rightarrow> 'os async \<Rightarrow> (int \<times> 'os async) outcome" where
  "aio_read K ce w =
     obind (deref ce w) (\<lambda>e.
     case asys K (Aio_read ce (ce_myaiocb e)) w of (r, w) \<Rightarrow> Ret (ar_ret r, w))"

definition aio_write :: "'os aio \<Rightarrow> ptr \<Rightarrow> 'os async \<Rightarrow> (int \<times> 'os async) outcome" where
  "aio_write K ce w =
     obind (deref ce w) (\<lambda>e.
     obind (read_mem (aio_buf (ce_myaiocb e)) (unat (aio_nbytes (ce_myaiocb e))) w) (\<lambda>bs.
     case asys K (Aio_write ce (ce_myaiocb e) bs) w of (r, w) \<Rightarrow> Ret (ar_ret r, w)))"

definition aio_return :: "'os aio \<Rightarrow> ptr \<Rightarrow> 'os async \<Rightarrow> (int \<times> 'os async) outcome" where
  "aio_return K ce w =
     obind (deref ce w) (\<lambda>e.
     case asys K (Aio_return ce) w of (r, w) \<Rightarrow>
       if ar_data r = [] then Ret (ar_ret r, w)
       else obind (write_mem (aio_buf (ce_myaiocb e)) (ar_data r) w) (\<lambda>w. Ret (ar_ret r, w)))"

definition async_suspend :: "'os aio \<Rightarrow> ptr \<Rightarrow> 'os async \<Rightarrow> int \<times> 'os async" where
  "async_suspend K ce w = (case asys K (Aio_suspend ce) w of (r, w) \<Rightarrow> (ar_ret r, w))"

text \<open>
  The loops of the code that wait for the system: \<open>None\<close> is a loop that does not end. 115 is
  \<open>EINPROGRESS\<close>, 11 is \<open>EAGAIN\<close>, 1 is \<open>AIO_NOTCANCELED\<close>.
\<close>

partial_function (option) aio_wait :: "'os aio \<Rightarrow> ptr \<Rightarrow> 'os async \<Rightarrow> (int \<times> 'os async) option" where
  "aio_wait K ce w =
     (case asys K (Aio_error ce) w of (r, w) \<Rightarrow>
        if ar_ret r = 115 then aio_wait K ce (snd (async_suspend K ce w)) else Some (ar_ret r, w))"

partial_function (option) aio_cancel_loop :: "'os aio \<Rightarrow> ptr \<Rightarrow> 'os async \<Rightarrow> 'os async option" where
  "aio_cancel_loop K ce w =
     (case asys K (Aio_cancel 0 ce) w of (r, w) \<Rightarrow> if ar_ret r = 1 then aio_cancel_loop K ce w else Some w)"

definition ends :: "'a option \<Rightarrow> 'a outcome" where
  "ends x = (case x of None \<Rightarrow> Hang | Some y \<Rightarrow> Ret y)"

definition finishes :: "'a outcome option \<Rightarrow> 'a outcome" where
  "finishes x = (case x of None \<Rightarrow> Hang | Some y \<Rightarrow> y)"

definition wait_for :: "'os aio \<Rightarrow> ptr \<Rightarrow> 'os async \<Rightarrow> (int \<times> 'os async) outcome" where
  "wait_for K ce w = obind (deref ce w) (\<lambda>_. ends (aio_wait K ce w))"

partial_function (option) submit_read :: "'os aio \<Rightarrow> ptr \<Rightarrow> 'os async \<Rightarrow> 'os async outcome option" where
  "submit_read K ce w =
     (case aio_read K ce w of
        Ret (ret, w) \<Rightarrow> if ret \<noteq> 0 \<and> a_errno w = 11 then submit_read K ce w else Some (Ret w)
      | Crash c \<Rightarrow> Some (Crash c)
      | Exit n \<Rightarrow> Some (Exit n)
      | Hang \<Rightarrow> Some Hang)"

section \<open>The cache\<close>

definition async_init :: "'os aio \<Rightarrow> 'os async \<Rightarrow> 'os async outcome" where
  "async_init K w =
     (if a_gc_set w then Ret w
      else if ak_nomem K (a_os w) 56 then Exit 174
      else Ret (w\<lparr>a_gc_set := True,
                  a_gc := Some \<lparr>gc_head = 0, gc_tail = 0, gc_inuse_head = 0, gc_count = 0,
                    gc_w_head = 0, gc_w_tail = 0, gc_w_count = 0\<rparr>,
                  a_max_depth := ak_max_depth K\<rparr>))"

definition alloc_cache :: "'os aio \<Rightarrow> int \<Rightarrow> int \<Rightarrow> int \<Rightarrow> int \<Rightarrow> 'os async \<Rightarrow> (ptr \<times> 'os async) outcome" where
  "alloc_cache K fd offset sz op w =
     (case malloc_ent K w of (ce, w) \<Rightarrow>
      if ce = 0 then Exit 175
      else case malloc_block K (sz + int (ak_page K)) w of (real_address, w) \<Rightarrow>
        let temp = page_align K real_address
        in if temp = 0 then Exit 176
           else obind (get_gc w) (\<lambda>g.
             obind (set_ent ce (\<lambda>e. e\<lparr>
               ce_myaiocb := \<lparr>aio_fildes = c_int fd, aio_offset = offset, aio_buf = temp,
                              aio_nbytes = word_of_int sz, aio_lio_opcode = c_int op\<rparr>,
               ce_real_address := real_address,
               ce_fd := c_int fd, ce_forward := 0, ce_back := gc_tail g\<rparr>) w) (\<lambda>w.
             obind (if gc_tail g \<noteq> 0 then set_ent (gc_tail g) (\<lambda>e. e\<lparr>ce_forward := ce\<rparr>) w else Ret w) (\<lambda>w.
             Ret (ce, upd_gc (\<lambda>g. g\<lparr>gc_tail := ce, gc_head := (if gc_head g = 0 then ce else gc_head g),
                                     gc_count := gc_count g + 1\<rparr>) w)))))"

partial_function (option) incache_loop :: "int \<Rightarrow> int \<Rightarrow> int \<Rightarrow> ptr \<Rightarrow> 'os async \<Rightarrow> ptr outcome option" where
  "incache_loop fd offset sz move w =
     (if move = 0 then Some (Ret 0)
      else case a_ents w move of
             None \<Rightarrow> Some (Crash BadHandle)
           | Some e \<Rightarrow>
               if ce_fd e = fd \<and> aio_offset (ce_myaiocb e) = offset
                  \<and> word_of_int sz = aio_nbytes (ce_myaiocb e)
               then Some (Ret move)
               else incache_loop fd offset sz (ce_forward e) w)"

definition incache :: "int \<Rightarrow> int \<Rightarrow> int \<Rightarrow> 'os async \<Rightarrow> ptr outcome" where
  "incache fd offset sz w =
     obind (get_gc w) (\<lambda>g. finishes (incache_loop fd offset sz (gc_head g) w))"

partial_function (option) find_loop :: "ptr \<Rightarrow> ptr \<Rightarrow> 'os async \<Rightarrow> bool outcome option" where
  "find_loop ce move w =
     (if move = 0 then Some (Ret False)
      else if move = ce then Some (Ret True)
      else case a_ents w move of
             None \<Rightarrow> Some (Crash BadHandle)
           | Some e \<Rightarrow> find_loop ce (ce_forward e) w)"

definition unlink_ent :: "ptr \<Rightarrow> 'os async \<Rightarrow> 'os async outcome" where
  "unlink_ent move w =
     obind (deref move w) (\<lambda>e.
     obind (if ce_forward e \<noteq> 0 then set_ent (ce_forward e) (\<lambda>f. f\<lparr>ce_back := ce_back e\<rparr>) w else Ret w) (\<lambda>w.
     if ce_back e \<noteq> 0 then set_ent (ce_back e) (\<lambda>b. b\<lparr>ce_forward := ce_forward e\<rparr>) w else Ret w))"

definition drop_ent :: "ptr \<Rightarrow> 'os async \<Rightarrow> 'os async outcome" where
  "drop_ent ce w =
     obind (deref ce w) (\<lambda>e.
     obind (if ce_direct e = 0 then free_ent ce w else Ret w) (\<lambda>w.
     Ret (upd_gc (\<lambda>g. g\<lparr>gc_count := gc_count g - 1\<rparr>) w)))"

definition takeoff_cache :: "ptr \<Rightarrow> 'os async \<Rightarrow> 'os async outcome" where
  "takeoff_cache ce w =
     obind (get_gc w) (\<lambda>g.
     if gc_head g = ce
     then obind (deref ce w) (\<lambda>e.
          let w = upd_gc (\<lambda>g. g\<lparr>gc_head := ce_forward e\<rparr>) w
          in obind (if ce_forward e \<noteq> 0 then set_ent (ce_forward e) (\<lambda>f. f\<lparr>ce_back := 0\<rparr>) w
                    else Ret (upd_gc (\<lambda>g. g\<lparr>gc_tail := 0\<rparr>) w))
               (drop_ent ce))
     else obind (finishes (find_loop ce (gc_head g) w)) (\<lambda>found.
          obind (if found then unlink_ent ce w else Ret w) (\<lambda>w.
          let w = upd_gc (\<lambda>g. if gc_head g = ce then g\<lparr>gc_tail := ce\<rparr> else g) w
          in drop_ent ce w)))"

definition del_step :: "'os aio \<Rightarrow> ptr \<Rightarrow> 'os async \<Rightarrow> 'os async outcome" where
  "del_step K ce w =
     obind (deref ce w) (\<lambda>_.
     obind (ends (aio_cancel_loop K ce w)) (\<lambda>w.
     obind (aio_return K ce w) (\<lambda>(ret, w).
     obind (set_ent ce (\<lambda>e. e\<lparr>ce_direct := 0\<rparr>) w) (\<lambda>w.
     takeoff_cache ce w))))"

partial_function (option) del_loop :: "'os aio \<Rightarrow> 'os async \<Rightarrow> 'os async outcome option" where
  "del_loop K w =
     (case get_gc w of
        Ret g \<Rightarrow>
          if gc_head g = 0 then Some (Ret w)
          else (case del_step K (gc_head g) w of
                  Ret w \<Rightarrow> del_loop K w
                | Crash c \<Rightarrow> Some (Crash c)
                | Exit n \<Rightarrow> Some (Exit n)
                | Hang \<Rightarrow> Some Hang)
      | Crash c \<Rightarrow> Some (Crash c)
      | Exit n \<Rightarrow> Some (Exit n)
      | Hang \<Rightarrow> Some Hang)"

definition del_cache :: "'os aio \<Rightarrow> 'os async \<Rightarrow> 'os async outcome" where
  "del_cache K w = finishes (del_loop K w)"

section \<open>Reading\<close>

text \<open>
  The read-ahead that both variants of the read issue. \<open>mark\<close> is true in \<open>async_read_no_copy\<close>,
  which notes the buffer, descriptor and size of a request when it submits it.
\<close>

definition mark_ent :: "bool \<Rightarrow> ptr \<Rightarrow> 'os async \<Rightarrow> 'os async outcome" where
  "mark_ent mark ce w =
     (if mark
      then set_ent ce (\<lambda>e. e\<lparr>ce_oldbuf := aio_buf (ce_myaiocb e), ce_oldfd := aio_fildes (ce_myaiocb e),
                            ce_oldsize := aio_nbytes (ce_myaiocb e)\<rparr>) w
      else Ret w)"

function ahead_loop :: "'os aio \<Rightarrow> bool \<Rightarrow> int \<Rightarrow> int \<Rightarrow> int \<Rightarrow> int \<Rightarrow> int \<Rightarrow> int \<Rightarrow> int \<Rightarrow> 'os async \<Rightarrow>
    'os async outcome" where
  "ahead_loop K mark fd a_offset sz stride mx depth i w =
     (if depth \<le> i then Ret w
      else let r_offset = c_llong (a_offset + c_llong ((i + 1) * c_llong (stride * sz)))
        in if r_offset < 0 \<or> mx < c_llong (r_offset + sz)
           then ahead_loop K mark fd a_offset sz stride mx depth (i + 1) w
           else obind (incache fd r_offset sz w) (\<lambda>ce.
             if ce \<noteq> 0 then ahead_loop K mark fd a_offset sz stride mx depth (i + 1) w
             else obind (alloc_cache K fd r_offset sz 0 w) (\<lambda>(ce, w).
               obind (mark_ent mark ce w) (\<lambda>w.
               obind (aio_read K ce w) (\<lambda>(ret, w).
               if ret \<noteq> 0 then takeoff_cache ce w
               else ahead_loop K mark fd a_offset sz stride mx depth (i + 1) w)))))"
  by pat_completeness auto
termination
  by (relation "measure (\<lambda>(K, mark, fd, a_offset, sz, stride, mx, depth, i, w). nat (depth - i))") auto

declare ahead_loop.simps [simp del]

definition read_ahead :: "'os aio \<Rightarrow> bool \<Rightarrow> int \<Rightarrow> int \<Rightarrow> int \<Rightarrow> int \<Rightarrow> int \<Rightarrow> int \<Rightarrow> 'os async \<Rightarrow> 'os async outcome" where
  "read_ahead K mark fd a_offset sz stride mx depth w =
     (if stride = 0 \<or> a_offset < 0 \<or> mx < c_llong (a_offset + sz) then Ret w
      else let depth = (if a_max_depth w - 1 \<le> depth then a_max_depth w - 1 else depth)
        in if depth = 0 then Ret w
           else obind (get_gc w) (\<lambda>g.
             ahead_loop K mark fd a_offset sz stride mx depth (if 1 < gc_count g then depth - 1 else 0) w))"

text \<open>Waiting for a request and taking its data into the caller's buffer, on a hit and at \<open>out\<close>.\<close>

definition take_data :: "'os aio \<Rightarrow> ptr \<Rightarrow> ptr \<Rightarrow> 'os async \<Rightarrow> (int \<times> 'os async) outcome" where
  "take_data K ce ubuffer w =
     obind (wait_for K ce w) (\<lambda>(ret, w).
     obind (aio_return K ce w) (\<lambda>(retval, w).
     obind (deref ce w) (\<lambda>e.
     obind (if 0 < retval then mbcopy (aio_buf (ce_myaiocb e)) ubuffer (nat retval) w else Ret w) (\<lambda>w.
     obind (set_ent ce (\<lambda>e. e\<lparr>ce_direct := 0\<rparr>) w) (\<lambda>w.
     obind (takeoff_cache ce w) (\<lambda>w. Ret (retval, w)))))))"

definition async_read :: "'os aio \<Rightarrow> int \<Rightarrow> ptr \<Rightarrow> int \<Rightarrow> int \<Rightarrow> int \<Rightarrow> int \<Rightarrow> int \<Rightarrow> 'os async \<Rightarrow>
    (int \<times> 'os async) outcome" where
  "async_read K fd ubuffer offset sz stride mx depth w =
     obind (incache fd offset sz w) (\<lambda>ce.
     if ce \<noteq> 0
     then obind (take_data K ce ubuffer w) (\<lambda>(retval, w).
          obind (read_ahead K False fd offset sz stride mx depth w) (\<lambda>w.
          Ret (c_int retval, w)))
     else obind (del_cache K w) (\<lambda>w.
          obind (alloc_cache K fd offset sz 0 w) (\<lambda>(first_ce, w).
          obind (finishes (submit_read K first_ce w)) (\<lambda>w.
          obind (read_ahead K False fd offset sz stride mx depth w) (\<lambda>w.
          obind (take_data K first_ce ubuffer w) (\<lambda>(retval, w).
          Ret (c_int retval, w)))))))"

definition putoninuse :: "ptr \<Rightarrow> 'os async \<Rightarrow> 'os async outcome" where
  "putoninuse entry w =
     obind (get_gc w) (\<lambda>g.
     obind (set_ent entry (\<lambda>e. e\<lparr>ce_forward := (if gc_inuse_head g \<noteq> 0 then gc_inuse_head g else 0)\<rparr>) w) (\<lambda>w.
     Ret (upd_gc (\<lambda>g. g\<lparr>gc_inuse_head := entry\<rparr>) w)))"

text \<open>The variant without a copy: the third component of the result is stored through \<open>ubuffer\<close>.\<close>

definition lend_data :: "'os aio \<Rightarrow> ptr \<Rightarrow> 'os async \<Rightarrow> (int \<times> ptr \<times> 'os async) outcome" where
  "lend_data K ce w =
     obind (wait_for K ce w) (\<lambda>(ret, w).
     obind (aio_return K ce w) (\<lambda>(retval, w).
     obind (deref ce w) (\<lambda>e.
     let ubuffer = (if 0 < retval then aio_buf (ce_myaiocb e) else 0)
     in obind (set_ent ce (\<lambda>e. e\<lparr>ce_direct := 1\<rparr>) w) (\<lambda>w.
        obind (takeoff_cache ce w) (\<lambda>w.
        obind (putoninuse ce w) (\<lambda>w. Ret (retval, ubuffer, w)))))))"

definition async_read_no_copy :: "'os aio \<Rightarrow> int \<Rightarrow> int \<Rightarrow> int \<Rightarrow> int \<Rightarrow> int \<Rightarrow> int \<Rightarrow> 'os async \<Rightarrow>
    (int \<times> ptr \<times> 'os async) outcome" where
  "async_read_no_copy K fd offset sz stride mx depth w =
     obind (incache fd offset sz w) (\<lambda>ce.
     if ce \<noteq> 0
     then obind (lend_data K ce w) (\<lambda>(retval, ubuffer, w).
          obind (read_ahead K True fd offset sz stride mx depth w) (\<lambda>w.
          Ret (c_int retval, ubuffer, w)))
     else obind (del_cache K w) (\<lambda>w.
          obind (alloc_cache K fd offset sz 0 w) (\<lambda>(first_ce, w).
          obind (mark_ent True first_ce w) (\<lambda>w.
          obind (finishes (submit_read K first_ce w)) (\<lambda>w.
          obind (read_ahead K True fd offset sz stride mx depth w) (\<lambda>w.
          obind (lend_data K first_ce w) (\<lambda>(retval, ubuffer, w).
          Ret (c_int retval, ubuffer, w))))))))"

definition takeoffinuse :: "'os async \<Rightarrow> 'os async outcome" where
  "takeoffinuse w =
     obind (get_gc w) (\<lambda>g.
     let ce = gc_inuse_head g
     in obind (deref ce w) (\<lambda>e.
        free_ent ce (upd_gc (\<lambda>g. g\<lparr>gc_inuse_head := ce_forward e\<rparr>) w)))"

definition async_release :: "'os async \<Rightarrow> 'os async outcome" where
  "async_release w = takeoffinuse w"

section \<open>Writing\<close>

definition async_wait_for_write :: "'os aio \<Rightarrow> 'os async \<Rightarrow> 'os async outcome" where
  "async_wait_for_write K w =
     obind (get_gc w) (\<lambda>g.
     if gc_w_head g = 0 then Ret w
     else let ce = gc_w_head g
       in obind (deref ce w) (\<lambda>e.
          let w = upd_gc (\<lambda>g. g\<lparr>gc_w_head := ce_forward e, gc_w_count := gc_w_count g - 1\<rparr>) w
          in obind (set_ent ce (\<lambda>e. e\<lparr>ce_forward := 0\<rparr>) w) (\<lambda>w.
             let w = upd_gc (\<lambda>g. g\<lparr>gc_w_tail := (if ce = gc_w_tail g then 0 else gc_w_tail g)\<rparr>) w
             in obind (wait_for K ce w) (\<lambda>(ret, w).
                if ret \<noteq> 0 then Exit 181
                else obind (aio_return K ce w) (\<lambda>(retval, w).
                     obind (deref ce w) (\<lambda>e.
                     if ce_direct e = 0 then free_ent ce w else Ret w))))))"

definition allocate_write_buffer :: "'os aio \<Rightarrow> int \<Rightarrow> int \<Rightarrow> int \<Rightarrow> int \<Rightarrow> int \<Rightarrow> int \<Rightarrow> ptr \<Rightarrow> ptr \<Rightarrow>
    'os async \<Rightarrow> (ptr \<times> 'os async) outcome" where
  "allocate_write_buffer K fd offset sz op w_depth direct buffer free_addr w =
     (if fd = 0 then Exit 178
      else obind (get_gc w) (\<lambda>g.
        obind (if w_depth < gc_w_count g then async_wait_for_write K w else Ret w) (\<lambda>w.
        case malloc_ent K w of (ce, w) \<Rightarrow>
        if ce = 0 then Exit 179
        else case (if direct = 0
                   then case malloc_block K (sz + int (ak_page K)) w of (real_address, w) \<Rightarrow>
                          (page_align K real_address, real_address, w)
                   else (buffer, free_addr, w)) of (buf, real_address, w) \<Rightarrow>
          if buf = 0 then Exit 180
          else obind (set_ent ce (\<lambda>e. e\<lparr>
                 ce_myaiocb := \<lparr>aio_fildes = c_int fd, aio_offset = offset, aio_buf = buf,
                                aio_nbytes = word_of_int sz, aio_lio_opcode = c_int op\<rparr>,
                 ce_real_address := real_address, ce_fd := c_int fd\<rparr>) w) (\<lambda>w.
               Ret (ce, w)))))"

definition async_put_on_write_queue :: "ptr \<Rightarrow> 'os async \<Rightarrow> 'os async outcome" where
  "async_put_on_write_queue ce w =
     obind (get_gc w) (\<lambda>g.
     obind (set_ent ce (\<lambda>e. e\<lparr>ce_forward := 0, ce_back := gc_w_tail g\<rparr>) w) (\<lambda>w.
     obind (if gc_w_tail g \<noteq> 0 then set_ent (gc_w_tail g) (\<lambda>e. e\<lparr>ce_forward := ce\<rparr>) w else Ret w) (\<lambda>w.
     Ret (upd_gc (\<lambda>g. g\<lparr>gc_w_tail := ce, gc_w_head := (if gc_w_head g = 0 then ce else gc_w_head g),
                        gc_w_count := gc_w_count g + 1\<rparr>) w))))"

partial_function (option) write_finish_loop :: "'os aio \<Rightarrow> 'os async \<Rightarrow> 'os async outcome option" where
  "write_finish_loop K w =
     (case get_gc w of
        Ret g \<Rightarrow>
          if gc_w_head g = 0 then Some (Ret w)
          else (case async_wait_for_write K w of
                  Ret w \<Rightarrow> write_finish_loop K w
                | Crash c \<Rightarrow> Some (Crash c)
                | Exit n \<Rightarrow> Some (Exit n)
                | Hang \<Rightarrow> Some Hang)
      | Crash c \<Rightarrow> Some (Crash c)
      | Exit n \<Rightarrow> Some (Exit n)
      | Hang \<Rightarrow> Some Hang)"

definition async_write_finish :: "'os aio \<Rightarrow> 'os async \<Rightarrow> 'os async outcome" where
  "async_write_finish K w = finishes (write_finish_loop K w)"

text \<open>
  The loop of both variants of the write that submits the request and, when the system has no
  room for it, waits for the oldest write; \<open>code\<close> is the exit status for other errors.
\<close>

partial_function (option) submit_write :: "'os aio \<Rightarrow> int \<Rightarrow> ptr \<Rightarrow> 'os async \<Rightarrow> 'os async outcome option" where
  "submit_write K code ce w =
     (case aio_write K ce w of
        Ret (ret, w) \<Rightarrow>
          if ret = - 1
          then if a_errno w = 11 \<or> a_errno w = 0
               then (case async_wait_for_write K w of
                       Ret w \<Rightarrow> submit_write K code ce w
                     | Crash c \<Rightarrow> Some (Crash c)
                     | Exit n \<Rightarrow> Some (Exit n)
                     | Hang \<Rightarrow> Some Hang)
               else Some (Exit code)
          else Some (Ret w)
      | Crash c \<Rightarrow> Some (Crash c)
      | Exit n \<Rightarrow> Some (Exit n)
      | Hang \<Rightarrow> Some Hang)"

definition async_write :: "'os aio \<Rightarrow> int \<Rightarrow> ptr \<Rightarrow> int \<Rightarrow> int \<Rightarrow> int \<Rightarrow> 'os async \<Rightarrow> (size_t \<times> 'os async) outcome" where
  "async_write K fd buffer sz offset depth w =
     obind (allocate_write_buffer K fd offset sz 1 depth 0 0 0 w) (\<lambda>(ce, w).
     obind (set_ent ce (\<lambda>e. e\<lparr>ce_direct := 0\<rparr>) w) (\<lambda>w.
     obind (deref ce w) (\<lambda>e.
     obind (mbcopy buffer (aio_buf (ce_myaiocb e)) (unat (word_of_int sz :: size_t)) w) (\<lambda>w.
     obind (async_put_on_write_queue ce w) (\<lambda>w.
     obind (finishes (submit_write K 177 ce w)) (\<lambda>w.
     Ret (word_of_int sz, w)))))))"

definition async_write_no_copy :: "'os aio \<Rightarrow> int \<Rightarrow> ptr \<Rightarrow> int \<Rightarrow> int \<Rightarrow> int \<Rightarrow> ptr \<Rightarrow> 'os async \<Rightarrow>
    (size_t \<times> 'os async) outcome" where
  "async_write_no_copy K fd buffer sz offset depth free_addr w =
     obind (allocate_write_buffer K fd offset sz 1 depth 1 buffer free_addr w) (\<lambda>(ce, w).
     obind (set_ent ce (\<lambda>e. e\<lparr>ce_direct := 0\<rparr>) w) (\<lambda>w.
     obind (async_put_on_write_queue ce w) (\<lambda>w.
     obind (finishes (submit_write K 182 ce w)) (\<lambda>w.
     Ret (word_of_int sz, w)))))"

definition end_async :: "'os aio \<Rightarrow> 'os async \<Rightarrow> 'os async outcome" where
  "end_async K w =
     obind (del_cache K w) (\<lambda>w.
     obind (get_gc w) (\<lambda>g.
     obind (if gc_w_head g \<noteq> 0 then async_write_finish K w else Ret w) (\<lambda>w.
     Ret (w\<lparr>a_gc := None\<rparr>))))"

end
