(* ===== verification/Libasync_Lists.thy ===== *)
theory Libasync_Lists
  imports Libasync
begin

text \<open>
  The lists of \<open>libasync.c\<close> as lists of addresses: \<open>rep\<close> relates a state to the entries of the
  read-ahead cache, of the write queue and of the buffers lent, and to what each entry holds. An
  entry belongs to exactly one list and owns one data buffer. Each operation on the lists is shown
  to be the operation on lists of addresses that it stands for.
\<close>

section \<open>Results\<close>

text \<open>\<open>runs r Q\<close>: \<open>r\<close> is a result that satisfies \<open>Q\<close>, neither a crash nor an exit nor an endless loop.\<close>

definition runs :: "'a outcome \<Rightarrow> ('a \<Rightarrow> bool) \<Rightarrow> bool" where
  "runs r Q \<longleftrightarrow> (\<exists>x. r = Ret x \<and> Q x)"

lemma runs_Ret [simp]: "runs (Ret x) Q = Q x" by (simp add: runs_def)
lemma runs_Crash [simp]: "runs (Crash c) Q = False" by (simp add: runs_def)
lemma runs_Exit [simp]: "runs (Exit n) Q = False" by (simp add: runs_def)
lemma runs_Hang [simp]: "runs Hang Q = False" by (simp add: runs_def)

lemma runs_obind [simp]: "runs (obind p f) Q = runs p (\<lambda>x. runs (f x) Q)"
  by (cases p) simp_all

lemma runs_mono: "runs r P \<Longrightarrow> (\<And>x. P x \<Longrightarrow> Q x) \<Longrightarrow> runs r Q"
  by (auto simp: runs_def)

section \<open>Segments\<close>

primrec first :: "ptr \<Rightarrow> ptr list \<Rightarrow> ptr" where
  "first f [] = f"
| "first f (p # ps) = p"

primrec final :: "ptr \<Rightarrow> ptr list \<Rightarrow> ptr" where
  "final b [] = b"
| "final b (p # ps) = final p ps"

text \<open>
  \<open>seg h b ps f\<close>: in the heap \<open>h\<close> the entries \<open>ps\<close> are linked in both directions, \<open>b\<close> before and
  \<open>f\<close> behind them. \<open>chain\<close> is the same for the links forward alone.
\<close>

primrec seg :: "(ptr \<Rightarrow> cache_ent option) \<Rightarrow> ptr \<Rightarrow> ptr list \<Rightarrow> ptr \<Rightarrow> bool" where
  "seg h b [] f \<longleftrightarrow> True"
| "seg h b (p # ps) f \<longleftrightarrow>
     (\<exists>e. h p = Some e \<and> ce_back e = b \<and> ce_forward e = first f ps) \<and> seg h p ps f"

primrec chain :: "(ptr \<Rightarrow> cache_ent option) \<Rightarrow> ptr list \<Rightarrow> ptr \<Rightarrow> bool" where
  "chain h [] f \<longleftrightarrow> True"
| "chain h (p # ps) f \<longleftrightarrow> (\<exists>e. h p = Some e \<and> ce_forward e = first f ps) \<and> chain h ps f"

lemma first_append [simp]: "first f (xs @ ys) = first (first f ys) xs"
  by (cases xs) simp_all

lemma final_append [simp]: "final b (xs @ ys) = final (final b xs) ys"
  by (induction xs arbitrary: b) simp_all

lemma first_in: "first f ps = f \<or> first f ps \<in> set ps"
  by (cases ps) simp_all

lemma final_in: "final b ps = b \<or> final b ps \<in> set ps"
  by (induction ps arbitrary: b) auto

lemma first_0_iff: "0 \<notin> set ps \<Longrightarrow> first 0 ps = 0 \<longleftrightarrow> ps = []"
  by (cases ps) auto

lemma final_0_iff: "0 \<notin> set ps \<Longrightarrow> final 0 ps = 0 \<longleftrightarrow> ps = []"
  by (cases ps rule: rev_cases) auto

lemma first_hd: "ps \<noteq> [] \<Longrightarrow> first f ps = hd ps"
  by (cases ps) auto

lemma final_last: "ps \<noteq> [] \<Longrightarrow> final b ps = last ps"
  by (cases ps rule: rev_cases) auto

lemma seg_upd [simp]: "p \<notin> set ps \<Longrightarrow> seg (h(p := x)) b ps f = seg h b ps f"
  by (induction ps arbitrary: b) auto

lemma chain_upd [simp]: "p \<notin> set ps \<Longrightarrow> chain (h(p := x)) ps f = chain h ps f"
  by (induction ps) auto

lemma seg_append [simp]:
  "seg h b (xs @ ys) f \<longleftrightarrow> seg h b xs (first f ys) \<and> seg h (final b xs) ys f"
  by (induction xs arbitrary: b) auto

lemma chain_append [simp]: "chain h (xs @ ys) f \<longleftrightarrow> chain h xs (first f ys) \<and> chain h ys f"
  by (induction xs) auto

text \<open>An entry's links may be set without looking at what it holds, and conversely.\<close>

lemma seg_payload:
  "h p = Some e \<Longrightarrow> ce_back e' = ce_back e \<Longrightarrow> ce_forward e' = ce_forward e \<Longrightarrow>
   seg (h(p \<mapsto> e')) b ps f = seg h b ps f"
  by (induction ps arbitrary: b) auto

lemma chain_payload:
  "h p = Some e \<Longrightarrow> ce_forward e' = ce_forward e \<Longrightarrow> chain (h(p \<mapsto> e')) ps f = chain h ps f"
  by (induction ps) auto

section \<open>The representation\<close>

text \<open>What an entry holds, apart from its links.\<close>

definition pay :: "cache_ent \<Rightarrow> cache_ent" where
  "pay e = e\<lparr>ce_forward := 0, ce_back := 0\<rparr>"

lemma pay_sel [simp]:
  "ce_myaiocb (pay e) = ce_myaiocb e" "ce_fd (pay e) = ce_fd e" "ce_direct (pay e) = ce_direct e"
  "ce_real_address (pay e) = ce_real_address e" "ce_oldbuf (pay e) = ce_oldbuf e"
  "ce_oldfd (pay e) = ce_oldfd e" "ce_oldsize (pay e) = ce_oldsize e"
  by (simp_all add: pay_def)

lemma pay_links [simp]:
  "pay (e\<lparr>ce_forward := x\<rparr>) = pay e" "pay (e\<lparr>ce_back := y\<rparr>) = pay e" "pay (pay e) = pay e"
  by (simp_all add: pay_def)

definition pays :: "(ptr \<Rightarrow> cache_ent option) \<Rightarrow> ptr \<Rightarrow> cache_ent option" where
  "pays h p = map_option pay (h p)"

lemma pays_upd [simp]:
  "pays (h(p \<mapsto> e)) = (pays h)(p \<mapsto> pay e)" "pays (h(p := None)) = (pays h)(p := None)"
  by (auto simp: pays_def)

text \<open>
  The ownership of memory: \<open>B\<close> are the buffers that are not the library's. No two entries have
  the same buffer, and every buffer that is not in \<open>B\<close> belongs to an entry.
\<close>

definition buf_of :: "(ptr \<Rightarrow> cache_ent option) \<Rightarrow> ptr \<Rightarrow> ptr" where
  "buf_of c p = (case c p of None \<Rightarrow> 0 | Some e \<Rightarrow> ce_real_address e)"

definition reals :: "(ptr \<Rightarrow> cache_ent option) \<Rightarrow> ptr set" where
  "reals c = range (buf_of c) - {0}"

definition single :: "(ptr \<Rightarrow> cache_ent option) \<Rightarrow> bool" where
  "single c \<longleftrightarrow> inj_on (buf_of c) {p. buf_of c p \<noteq> 0}"

definition own :: "(ptr \<Rightarrow> cache_ent option) \<Rightarrow> (ptr \<times> nat) list \<Rightarrow> ptr \<Rightarrow> (ptr \<times> nat) set \<Rightarrow> bool" where
  "own c bl n B \<longleftrightarrow>
     0 < n \<and> (\<forall>p e. c p = Some e \<longrightarrow> 0 < p \<and> p < n) \<and> (\<forall>b \<in> fst ` set bl. 0 < b \<and> b < n) \<and>
     distinct (map fst bl) \<and> B \<subseteq> set bl \<and> fst ` (set bl - B) = reals c \<and> fst ` B \<inter> reals c = {} \<and> single c"

lemma buf_of_upd [simp]:
  "buf_of (c(p \<mapsto> e)) = (buf_of c)(p := ce_real_address e)" "buf_of (c(p := None)) = (buf_of c)(p := 0)"
  by (auto simp: buf_of_def)

lemma in_reals: "x \<in> reals c \<longleftrightarrow> x \<noteq> 0 \<and> (\<exists>p. buf_of c p = x)"
  by (auto simp: reals_def)

lemma own_block:
  assumes "own c bl n B" "x \<in> reals c"
  shows "x \<in> fst ` set bl"
proof -
  have "fst ` (set bl - B) = reals c"
    using assms(1) by (simp only: own_def)
  with assms(2) have "x \<in> fst ` (set bl - B)" by simp
  then show ?thesis by (elim imageE) auto
qed

lemma reals_new:
  assumes "buf_of c n = 0" "ce_real_address e \<noteq> 0"
  shows "reals (c(n \<mapsto> e)) = insert (ce_real_address e) (reals c)"
proof (intro set_eqI)
  fix x
  have "buf_of c q \<noteq> 0 \<Longrightarrow> q \<noteq> n" for q
    using assms(1) by auto
  then show "x \<in> reals (c(n \<mapsto> e)) \<longleftrightarrow> x \<in> insert (ce_real_address e) (reals c)"
    using assms(2) by (auto simp: in_reals)
qed

lemma reals_remove:
  assumes "single c" "buf_of c p \<noteq> 0"
  shows "reals (c(p := None)) = reals c - {buf_of c p}"
proof (intro set_eqI)
  fix x
  have "buf_of c q = buf_of c p \<Longrightarrow> q = p" for q
    using assms by (auto simp: single_def dest: inj_onD)
  then show "x \<in> reals (c(p := None)) \<longleftrightarrow> x \<in> reals c - {buf_of c p}"
    by (auto simp: in_reals) metis
qed

lemma single_new:
  "single c \<Longrightarrow> ce_real_address e \<notin> reals c \<Longrightarrow> single (c(n \<mapsto> e))"
  by (auto simp: single_def inj_on_def in_reals)

lemma single_remove: "single c \<Longrightarrow> single (c(p := None))"
  by (auto simp: single_def inj_on_def)

lemma own_basics:
  assumes "own c bl n B"
  shows "0 < n" "c p = Some e \<Longrightarrow> 0 < p \<and> p < n" "(d, l) \<in> set bl \<Longrightarrow> 0 < d \<and> d < n" "distinct (map fst bl)"
    "B \<subseteq> set bl" "fst ` (set bl - B) = reals c" "fst ` B \<inter> reals c = {}" "single c"
  using assms [unfolded own_def] by auto

lemma own_None: "own c bl n B \<Longrightarrow> n \<le> p \<Longrightarrow> c p = None"
  by (cases "c p") (auto simp: own_def)

lemma own_alloc:
  assumes o: "own c bl n B" and e: "ce_real_address e = n + 1"
  shows "own (c(n \<mapsto> e)) ((n + 1, k) # bl) (n + 1 + k + 1) B"
proof -
  have n: "buf_of c n = 0"
    using own_None [OF o] by (simp add: buf_of_def)
  have b: "n + 1 \<notin> fst ` set bl"
    using o by (auto simp: own_def)
  then have r: "n + 1 \<notin> reals c"
    using own_block [OF o] by blast
  have "(n + 1, k) \<notin> set bl"
    using b by force
  moreover have "B \<subseteq> set bl" "fst ` B \<subseteq> fst ` set bl"
    using o by (simp_all add: own_def image_mono)
  ultimately have nb: "(n + 1, k) \<notin> B" and B: "n + 1 \<notin> fst ` B"
    using b by (auto simp only: dest: subsetD)
  have "set ((n + 1, k) # bl) - B = insert (n + 1, k) (set bl - B)"
    using nb by auto
  moreover have "fst ` (set bl - B) = reals c"
    using o by (simp only: own_def)
  ultimately have d: "fst ` (set ((n + 1, k) # bl) - B) = insert (n + 1) (reals c)"
    by (simp only: image_insert fst_conv)
  have "\<forall>p x. (c(n \<mapsto> e)) p = Some x \<longrightarrow> 0 < p \<and> p < n + 1 + k + 1"
    using own_basics(1,2) [OF o] by (fastforce split: if_splits)
  moreover have "\<forall>x \<in> fst ` set ((n + 1, k) # bl). 0 < x \<and> x < n + 1 + k + 1"
    using own_basics(1,3) [OF o] by fastforce
  moreover have "distinct (map fst ((n + 1, k) # bl))" "B \<subseteq> set ((n + 1, k) # bl)"
    using own_basics(4,5) [OF o] b by auto
  moreover have R: "reals (c(n \<mapsto> e)) = insert (n + 1) (reals c)"
    using n e by (simp add: reals_new)
  moreover have "fst ` B \<inter> reals c = {}" "single c"
    using o by (simp_all add: own_def)
  ultimately show ?thesis
    unfolding own_def d using B r e by (simp add: single_new)
qed

lemma own_free:
  assumes o: "own c bl n B" and e: "buf_of c p \<noteq> 0"
  shows "own (c(p := None)) (filter (\<lambda>(b, l). b \<noteq> buf_of c p) bl) n B"
proof -
  have r: "buf_of c p \<in> reals c" using e by (auto simp: in_reals)
  with o have B: "buf_of c p \<notin> fst ` B" by (auto simp: own_def)
  have "fst ` (set (filter (\<lambda>(b, l). b \<noteq> buf_of c p) bl) - B) = fst ` (set bl - B) - {buf_of c p}"
    by force
  moreover have "distinct (map fst (filter (\<lambda>(b, l). b \<noteq> buf_of c p) bl))"
    using o by (simp add: own_def distinct_map_filter)
  moreover have "x \<in> B \<Longrightarrow> fst x \<noteq> buf_of c p \<and> x \<in> set bl" for x
    using o B unfolding own_def by (metis image_eqI subsetD)
  then have "B \<subseteq> set (filter (\<lambda>(b, l). b \<noteq> buf_of c p) bl)"
    by (auto simp: split_beta)
  moreover have "\<forall>q x. (c(p := None)) q = Some x \<longrightarrow> 0 < q \<and> q < n"
    using o by (simp add: own_def)
  moreover have "\<forall>x \<in> fst ` set (filter (\<lambda>(b, l). b \<noteq> buf_of c p) bl). 0 < x \<and> x < n"
    using o by (auto simp: own_def)
  moreover have "fst ` (set bl - B) = reals c" "fst ` B \<inter> reals c = {}" "single c" "0 < n"
    using o by (simp_all add: own_def)
  moreover from this(2) have "fst ` B \<inter> (reals c - {buf_of c p}) = {}"
    by blast
  ultimately show ?thesis
    unfolding own_def reals_remove [OF \<open>single c\<close> e] by (simp only: single_remove simp_thms)
qed

lemma own_payload:
  assumes "own c bl n B" "c p = Some e" "ce_real_address e' = ce_real_address e"
  shows "own (c(p \<mapsto> e')) bl n B"
proof -
  have "buf_of (c(p \<mapsto> e')) = buf_of c"
    using assms(2,3) by (auto simp: buf_of_def)
  with assms show ?thesis
    unfolding own_def by (auto simp: reals_def single_def split: if_splits)
qed

text \<open>A request whose buffer is inside the block that the entry owns.\<close>

definition buffered :: "(ptr \<Rightarrow> cache_ent option) \<Rightarrow> (ptr \<times> nat) list \<Rightarrow> ptr \<Rightarrow> bool" where
  "buffered c bl p \<longleftrightarrow> (\<exists>e l. c p = Some e \<and> ce_real_address e \<noteq> 0 \<and> (ce_real_address e, l) \<in> set bl \<and>
     ce_real_address e \<le> aio_buf (ce_myaiocb e) \<and>
     aio_buf (ce_myaiocb e) + unat (aio_nbytes (ce_myaiocb e)) \<le> ce_real_address e + l)"

definition gc_of :: "ptr list \<Rightarrow> ptr list \<Rightarrow> ptr list \<Rightarrow> cache" where
  "gc_of ps qs us = \<lparr>gc_head = first 0 ps, gc_tail = final 0 ps, gc_inuse_head = first 0 us,
     gc_count = int (length ps), gc_w_head = first 0 qs, gc_w_tail = final 0 qs,
     gc_w_count = int (length qs)\<rparr>"

text \<open>
  \<open>ps\<close> is the read-ahead cache, \<open>qs\<close> the write queue, \<open>us\<close> the buffers lent, \<open>fs\<close> the entries that
  are on no list for the moment, \<open>c\<close> what the entries hold.
\<close>

definition linked :: "cache option \<Rightarrow> (ptr \<Rightarrow> cache_ent option) \<Rightarrow> (ptr \<times> nat) list \<Rightarrow> ptr \<Rightarrow>
    (ptr \<Rightarrow> cache_ent option) \<Rightarrow> (ptr \<times> nat) set \<Rightarrow> ptr list \<Rightarrow> ptr list \<Rightarrow> ptr list \<Rightarrow> ptr list \<Rightarrow> bool" where
  "linked g h bl n c B ps qs us fs \<longleftrightarrow>
     g = Some (gc_of ps qs us) \<and> pays h = c \<and>
     seg h 0 ps 0 \<and> chain h qs 0 \<and> chain h us 0 \<and>
     distinct (ps @ qs @ us @ fs) \<and> dom c = set (ps @ qs @ us @ fs) \<and> own c bl n B \<and>
     (\<forall>p \<in> set ps. buffered c bl p) \<and> (\<forall>p \<in> set qs. \<exists>e. c p = Some e \<and> ce_direct e = 0)"

definition rep :: "'os async \<Rightarrow> (ptr \<Rightarrow> cache_ent option) \<Rightarrow> (ptr \<times> nat) set \<Rightarrow> ptr list \<Rightarrow> ptr list \<Rightarrow>
    ptr list \<Rightarrow> ptr list \<Rightarrow> bool" where
  "rep w c B ps qs us fs \<longleftrightarrow> linked (a_gc w) (a_ents w) (a_blocks w) (a_next w) c B ps qs us fs"

lemma own_dom: "own c bl n B \<Longrightarrow> c p = Some e \<Longrightarrow> 0 < p \<and> p < n"
  by (simp add: own_def)

lemma rep_own: "rep w c B ps qs us fs \<Longrightarrow> own c (a_blocks w) (a_next w) B"
  by (simp add: rep_def linked_def)

lemma rep_dom: "rep w c B ps qs us fs \<Longrightarrow> dom c = set (ps @ qs @ us @ fs)"
  by (simp add: rep_def linked_def)

lemma rep_get_gc [simp]: "rep w c B ps qs us fs \<Longrightarrow> get_gc w = Ret (gc_of ps qs us)"
  by (simp add: rep_def linked_def get_gc_def)

lemma rep_ent:
  assumes "rep w c B ps qs us fs" "c p = Some d"
  obtains e where "a_ents w p = Some e" "pay e = d" "deref p w = Ret e" "p \<noteq> 0"
proof -
  from assms obtain e where "a_ents w p = Some e" "pay e = d"
    by (auto simp: rep_def linked_def pays_def)
  moreover have "p \<noteq> 0"
    using own_dom [OF rep_own [OF assms(1)] assms(2)] by simp
  ultimately show thesis
    by (intro that) (auto simp: deref_def)
qed

lemma rep_in:
  assumes "rep w c B ps qs us fs" "p \<in> set (ps @ qs @ us @ fs)"
  obtains e where "a_ents w p = Some e" "c p = Some (pay e)" "deref p w = Ret e" "p \<noteq> 0"
proof -
  from assms have "p \<in> dom c" by (simp add: rep_dom)
  then obtain d where d: "c p = Some d" by auto
  then obtain e where "a_ents w p = Some e" "pay e = d" "deref p w = Ret e" "p \<noteq> 0"
    by (rule rep_ent [OF assms(1)])
  with d show thesis by (intro that) auto
qed

lemma rep_not_0: "rep w c B ps qs us fs \<Longrightarrow> 0 \<notin> set (ps @ qs @ us @ fs)"
  by (meson rep_in)

section \<open>Heap operations\<close>

text \<open>What the operations on lists leave alone.\<close>

definition frame :: "'os async \<Rightarrow> 'os async \<Rightarrow> bool" where
  "frame w w' \<longleftrightarrow> a_os w' = a_os w \<and> a_mem w' = a_mem w \<and> a_calls w' = a_calls w \<and>
     a_max_depth w' = a_max_depth w \<and> a_errno w' = a_errno w"

lemma frame_refl [simp]: "frame w w" by (simp add: frame_def)

lemma frame_trans: "frame u v \<Longrightarrow> frame v w \<Longrightarrow> frame u w" by (simp add: frame_def)

lemma set_ent_Ret: "deref p w = Ret e \<Longrightarrow> set_ent p f w = Ret (w\<lparr>a_ents := (a_ents w)(p \<mapsto> f e)\<rparr>)"
  by (simp add: set_ent_def)

lemma deref_Ret: "p \<noteq> 0 \<Longrightarrow> a_ents w p = Some e \<Longrightarrow> deref p w = Ret e"
  by (simp add: deref_def)

definition room :: "'os aio \<Rightarrow> int \<Rightarrow> bool" where
  "room K sz \<longleftrightarrow> 0 \<le> sz \<and> sz + int (ak_page K) < 2 ^ 64 \<and> 0 < ak_page K \<and> (\<forall>s n. \<not> ak_nomem K s n)"

lemma page_align_bounds:
  assumes "0 < ak_page K"
  shows "p \<le> page_align K p" "page_align K p \<le> p + (ak_page K - 1)"
proof -
  have "page_align K p + (p + (ak_page K - 1)) mod ak_page K = p + (ak_page K - 1)"
    by (simp add: page_align_def)
  moreover have "(p + (ak_page K - 1)) mod ak_page K < ak_page K"
    using assms by simp
  ultimately show "p \<le> page_align K p" "page_align K p \<le> p + (ak_page K - 1)"
    using assms by linarith+
qed

definition fresh_ent :: "'os aio \<Rightarrow> ptr \<Rightarrow> int \<Rightarrow> int \<Rightarrow> int \<Rightarrow> int \<Rightarrow> cache_ent" where
  "fresh_ent K n fd offset sz op = blank_ent\<lparr>
     ce_myaiocb := \<lparr>aio_fildes = c_int fd, aio_offset = offset, aio_buf = page_align K (n + 1),
                    aio_nbytes = word_of_int sz, aio_lio_opcode = c_int op\<rparr>,
     ce_real_address := n + 1, ce_fd := c_int fd\<rparr>"

lemma unat_of_int64: "0 \<le> x \<Longrightarrow> x < 2 ^ 64 \<Longrightarrow> unat (word_of_int x :: size_t) = nat x"
  by (simp add: unsigned_of_int take_bit_int_eq_self)

lemma fresh_ready:
  assumes "room K sz"
  shows "buffered (c(n \<mapsto> fresh_ent K n fd offset sz op))
    ((n + 1, unat (word_of_int (sz + int (ak_page K)) :: size_t)) # bl) n"
proof -
  have "unat (word_of_int (sz + int (ak_page K)) :: size_t) = nat sz + ak_page K"
    using assms by (subst unat_of_int64) (simp_all add: room_def nat_add_distrib)
  moreover have "unat (word_of_int sz :: size_t) = nat sz"
    using assms by (subst unat_of_int64) (simp_all add: room_def)
  ultimately show ?thesis
    using page_align_bounds [of K "n + 1"] assms
    by (auto simp: buffered_def fresh_ent_def blank_ent_def room_def)
qed

lemma buffered_mono:
  "buffered c bl p \<Longrightarrow> c' p = c p \<Longrightarrow> set bl \<subseteq> set bl' \<Longrightarrow> buffered c' bl' p"
  by (fastforce simp: buffered_def)

lemma rep_link_last:
  assumes "seg h b ps f" "ps \<noteq> []" "distinct ps" "h (final b ps) = Some e"
  shows "seg (h(final b ps \<mapsto> e\<lparr>ce_forward := g\<rparr>)) b ps g"
  using assms by (cases ps rule: rev_cases) auto

lemma chain_link_last:
  assumes "chain h ps f" "ps \<noteq> []" "distinct ps" "h (final b ps) = Some e"
  shows "chain (h(final b ps \<mapsto> e\<lparr>ce_forward := g\<rparr>)) ps g"
  using assms by (cases ps rule: rev_cases) auto

section \<open>The read-ahead cache\<close>

lemma alloc_cache_rep:
  assumes R: "rep w c B ps qs us fs" and K: "room K sz"
  shows "runs (alloc_cache K fd offset sz op w) (\<lambda>(ce, w'). ce = a_next w \<and> frame w w' \<and>
    rep w' (c(ce \<mapsto> fresh_ent K ce fd offset sz op)) B (ps @ [ce]) qs us fs)"
proof -
  define n where "n = a_next w"
  define x where "x = fresh_ent K n fd offset sz op"
  define k where "k = unat (word_of_int (sz + int (ak_page K)) :: size_t)"
  note O = rep_own [OF R]
  have n: "n \<notin> dom c" "n \<noteq> 0"
    using own_None [OF O, of n] own_basics(1) [OF O] by (auto simp: n_def)
  then have nn: "n \<notin> set (ps @ qs @ us @ fs)" by (simp add: rep_dom [OF R])
  have al: "page_align K (Suc n) \<noteq> 0"
    using page_align_bounds(1) [of K "Suc n"] K by (simp add: room_def)
  have px: "pay (x\<lparr>ce_forward := u, ce_back := v\<rparr>) = x" for u v
    by (simp add: x_def pay_def fresh_ent_def blank_ent_def)
  let ?h = "(a_ents w)(n \<mapsto> x\<lparr>ce_forward := 0, ce_back := final 0 ps\<rparr>)"
  have own': "own (c(n \<mapsto> x)) ((n + 1, k) # a_blocks w) (n + 1 + k + 1) B"
    using own_alloc [OF O] by (simp add: n_def x_def fresh_ent_def)
  have rdy: "\<forall>p \<in> set (ps @ [n]). buffered (c(n \<mapsto> x)) ((n + 1, k) # a_blocks w) p"
    using fresh_ready [OF K] R nn by (auto simp: x_def k_def rep_def linked_def intro: buffered_mono)
  have qs': "\<forall>p \<in> set qs. \<exists>e. (c(n \<mapsto> x)) p = Some e \<and> ce_direct e = 0"
    using R nn by (auto simp: rep_def linked_def)
  have rest: "distinct ((ps @ [n]) @ qs @ us @ fs)" "dom (c(n \<mapsto> x)) = set ((ps @ [n]) @ qs @ us @ fs)"
    using R nn by (auto simp: rep_def linked_def)
  note step = alloc_cache_def malloc_ent_def malloc_block_def Let_def set_ent_def get_gc_def upd_gc_def
    gc_of_def frame_def
  have g: "a_gc w = Some (gc_of ps qs us)" "pays (a_ents w) = c"
    using R by (simp_all add: rep_def linked_def)
  show ?thesis
  proof (cases "ps = []")
    case True
    have "linked (Some (gc_of (ps @ [n]) qs us)) ?h ((n + 1, k) # a_blocks w) (n + 1 + k + 1) (c(n \<mapsto> x)) B (ps @ [n]) qs us fs"
      using R own' rdy qs' rest nn True px
      by (simp add: rep_def linked_def)
    then show ?thesis
      using g K n nn al True
      by (simp add: rep_def step room_def n_def x_def k_def deref_def fresh_ent_def)
  next
    case False
    define t where "t = final 0 ps"
    have t: "t \<in> set ps"
      using False final_in [of 0 ps] final_0_iff [of ps] rep_not_0 [OF R] by (auto simp: t_def)
    then obtain e where e: "a_ents w t = Some e" "deref t w = Ret e" "t \<noteq> 0"
      using rep_in [OF R, of t] by auto
    from t nn have tn: "t \<noteq> n" by auto
    have "seg ?h 0 ps 0"
      using R nn by (simp add: rep_def linked_def)
    then have "seg (?h(t \<mapsto> e\<lparr>ce_forward := n\<rparr>)) 0 ps n"
      using rep_link_last [of ?h 0 ps 0 e n] False e tn rest(1) by (simp add: t_def)
    moreover have "t \<notin> set (qs @ us @ fs)"
      using t R by (auto simp: rep_def linked_def)
    moreover have "c t = Some (pay e)"
      using g(2) e(1) by (auto simp: pays_def)
    ultimately have "linked (Some (gc_of (ps @ [n]) qs us)) (?h(t \<mapsto> e\<lparr>ce_forward := n\<rparr>))
        ((n + 1, k) # a_blocks w) (n + 1 + k + 1) (c(n \<mapsto> x)) B (ps @ [n]) qs us fs"
      using R own' rdy qs' rest nn px tn
      by (simp add: rep_def linked_def t_def [symmetric] fun_upd_idem_iff)
    then show ?thesis
      using g K n nn al e(1,3) tn first_0_iff [of ps] rep_not_0 [OF R] False
      by (simp add: rep_def step room_def n_def x_def k_def deref_def fresh_ent_def t_def [symmetric]
          first_hd add.commute [of _ 1])
  qed
qed

text \<open>Freeing an entry that is on no list.\<close>

lemma buffered_free:
  assumes "own c bl n B" "buffered c bl p" "p \<noteq> ce" "c ce = Some e"
  shows "buffered (c(ce := None)) (filter (\<lambda>(b, l). b \<noteq> ce_real_address e) bl) p"
proof -
  from assms(2) obtain d l where d: "c p = Some d" "ce_real_address d \<noteq> 0" "(ce_real_address d, l) \<in> set bl"
    "ce_real_address d \<le> aio_buf (ce_myaiocb d)"
    "aio_buf (ce_myaiocb d) + unat (aio_nbytes (ce_myaiocb d)) \<le> ce_real_address d + l"
    by (auto simp: buffered_def)
  have "single c" using own_basics(8) [OF assms(1)] .
  then have "ce_real_address d \<noteq> ce_real_address e"
    using assms(3,4) d(1,2) unfolding single_def inj_on_def buf_of_def
    by (metis (mono_tags, lifting) mem_Collect_eq option.simps(5))
  with d assms(3) show ?thesis
    by (auto simp: buffered_def)
qed

definition free_of :: "cache_ent \<Rightarrow> (ptr \<times> nat) list \<Rightarrow> (ptr \<times> nat) list" where
  "free_of e bl = (if ce_real_address e \<noteq> 0 then filter (\<lambda>(b, l). b \<noteq> ce_real_address e) bl else bl)"

lemma own_drop: "own c bl n B \<Longrightarrow> c p = Some e \<Longrightarrow> own (c(p := None)) (free_of e bl) n B"
proof (cases "ce_real_address e = 0")
  case True
  assume o: "own c bl n B" "c p = Some e"
  then have "buf_of (c(p := None)) = buf_of c"
    using True by (auto simp: buf_of_def)
  then show ?thesis
    using o True unfolding own_def by (auto simp: reals_def single_def free_of_def)
next
  case False
  assume "own c bl n B" "c p = Some e"
  with False show ?thesis
    using own_free [of c bl n B p] by (simp add: free_of_def buf_of_def)
qed

lemma linked_free:
  assumes L: "linked g h bl n c B ps qs us (ce # fs)" and e: "c ce = Some e"
  shows "linked g (h(ce := None)) (free_of e bl) n (c(ce := None)) B ps qs us fs"
proof -
  have "buffered (c(ce := None)) (free_of e bl) p" if "p \<in> set ps" for p
  proof -
    have "buffered c bl p" "p \<noteq> ce" "own c bl n B"
      using L that by (auto simp: linked_def)
    then show ?thesis
      using buffered_free [where c = c and e = e and ce = ce] e by (auto simp: free_of_def intro: buffered_mono)
  qed
  then show ?thesis
    using L own_drop [of c bl n B ce e] e by (auto simp: linked_def)
qed

lemma free_ent_Ret:
  assumes "a_ents w p = Some e" "p \<noteq> 0" "own (pays (a_ents w)) (a_blocks w) n B"
  shows "free_ent p w = Ret (w\<lparr>a_ents := (a_ents w)(p := None), a_blocks := free_of e (a_blocks w)\<rparr>)"
proof (cases "ce_real_address e = 0")
  case True
  then show ?thesis using assms(1,2) by (simp add: free_ent_def deref_def free_of_def)
next
  case False
  have "buf_of (pays (a_ents w)) p = ce_real_address e"
    using assms(1) by (simp add: buf_of_def pays_def)
  with False have "ce_real_address e \<in> reals (pays (a_ents w))"
    by (auto simp: in_reals)
  then have "ce_real_address e \<in> fst ` set (a_blocks w)"
    by (rule own_block [OF assms(3)])
  then show ?thesis
    using False assms(1,2) by (simp add: free_ent_def deref_def free_of_def free_block_def)
qed

text \<open>Taking an entry off the list; it stays allocated.\<close>

definition behead :: "(ptr \<Rightarrow> cache_ent option) \<Rightarrow> ptr list \<Rightarrow> ptr \<Rightarrow> cache_ent option" where
  "behead h ys = (case ys of [] \<Rightarrow> h | y # ys \<Rightarrow> h(y := map_option (\<lambda>e. e\<lparr>ce_back := 0\<rparr>) (h y)))"

lemma linked_head:
  assumes "linked g h bl n c B (ce # ys) qs us fs"
  shows "linked (Some (gc_of ys qs us)) (behead h ys) bl n c B ys qs us (ce # fs)"
proof (cases ys)
  case Nil
  with assms show ?thesis by (auto simp: linked_def behead_def)
next
  case (Cons y zs)
  with assms obtain e where e: "h y = Some e" "ce_back e = ce" by (auto simp: linked_def)
  have "y \<notin> set (zs @ qs @ us)" using assms Cons by (auto simp: linked_def)
  moreover have "c y = Some (pay e)" using assms e by (auto simp: linked_def pays_def)
  ultimately show ?thesis
    using assms Cons e by (auto simp: linked_def behead_def fun_upd_idem)
qed

definition splice :: "(ptr \<Rightarrow> cache_ent option) \<Rightarrow> ptr \<Rightarrow> ptr \<Rightarrow> ptr \<Rightarrow> cache_ent option" where
  "splice h x y = (let h' = h(y := map_option (\<lambda>e. e\<lparr>ce_back := x\<rparr>) (h y))
     in h'(x := map_option (\<lambda>e. e\<lparr>ce_forward := y\<rparr>) (h' x)))"

lemma linked_middle:
  assumes L: "linked g h bl n c B (xs @ x # ce # y # ys) qs us fs"
  shows "linked (Some (gc_of (xs @ x # y # ys) qs us)) (splice h x y) bl n c B (xs @ x # y # ys) qs us (ce # fs)"
proof -
  from L obtain d e where d: "h x = Some d" "ce_forward d = ce" "ce_back d = final 0 xs"
    and e: "h y = Some e" "ce_back e = ce" "ce_forward e = first 0 ys"
    by (auto simp: linked_def)
  have D: "x \<noteq> y" "x \<notin> set (xs @ ys @ qs @ us)" "y \<notin> set (xs @ ys @ qs @ us)"
    using L by (auto simp: linked_def)
  have "c y = Some (pay e)" "c x = Some (pay d)" using L d e by (auto simp: linked_def pays_def)
  then show ?thesis
    using L d e D by (auto simp: linked_def splice_def fun_upd_idem Let_def)
qed

lemma linked_in:
  assumes "linked g h bl n c B ps qs us fs" "p \<in> set (ps @ qs @ us @ fs)"
  obtains e where "h p = Some e" "c p = Some (pay e)" "p \<noteq> 0"
proof -
  from assms have "p \<in> dom c" "pays h = c" "own c bl n B" by (simp_all add: linked_def)
  then obtain d where "c p = Some d" by auto
  moreover from this \<open>pays h = c\<close> obtain e where "h p = Some e" "pay e = d"
    by (auto simp: pays_def)
  moreover have "p \<noteq> 0"
    using own_basics(2) [OF \<open>own c bl n B\<close> \<open>c p = Some d\<close>] by simp
  ultimately show thesis by (intro that) auto
qed

lemma drop_ent_rep:
  assumes L: "linked (Some (gc_of ps qs us)) (a_ents w) (a_blocks w) (a_next w) c B ps qs us (ce # fs)"
    and g: "a_gc w = Some ((gc_of ps qs us)\<lparr>gc_count := int (length ps) + 1\<rparr>)"
    and e: "c ce = Some e"
  shows "runs (drop_ent ce w) (\<lambda>w'. frame w w' \<and>
    (if ce_direct e = 0 then rep w' (c(ce := None)) B ps qs us fs else rep w' c B ps qs us (ce # fs)))"
proof -
  from linked_in [OF L, of ce] e obtain d where d: "a_ents w ce = Some d" "pay d = e" "ce \<noteq> 0"
    by auto
  have o: "own (pays (a_ents w)) (a_blocks w) (a_next w) B"
    using L by (simp add: linked_def)
  have f: "free_of d = free_of e" "ce_direct d = ce_direct e"
    using d(2) by (auto simp: free_of_def)
  show ?thesis
    using L g d f linked_free [OF L e]
    by (simp add: drop_ent_def deref_def free_ent_Ret [OF d(1,3) o] upd_gc_def frame_def rep_def gc_of_def)
qed

lemma find_loop_found:
  assumes "chain (a_ents w) (xs @ ce # ys) 0" "0 \<notin> set (xs @ ce # ys)" "ce \<notin> set xs"
  shows "find_loop ce (first 0 (xs @ ce # ys)) w = Some (Ret True)"
  using assms
proof (induction xs)
  case Nil
  then show ?case by (simp add: find_loop.simps)
next
  case (Cons x xs)
  then obtain e where "a_ents w x = Some e" "ce_forward e = first 0 (xs @ ce # ys)" by auto
  with Cons show ?case by (subst find_loop.simps) simp
qed

lemma seg_chain: "seg h b ps f \<Longrightarrow> chain h ps f"
  by (induction ps arbitrary: b) auto

lemma takeoff_rep:
  assumes R: "rep w c B (xs @ ce # ys) qs us fs" and e: "c ce = Some e" and nl: "xs = [] \<or> ys \<noteq> []"
  shows "runs (takeoff_cache ce w) (\<lambda>w'. frame w w' \<and>
    (if ce_direct e = 0 then rep w' (c(ce := None)) B (xs @ ys) qs us fs
     else rep w' c B (xs @ ys) qs us (ce # fs)))"
proof (cases xs rule: rev_cases)
  case Nil
  let ?h = "behead (a_ents w) ys"
  let ?w = "w\<lparr>a_gc := Some ((gc_of ys qs us)\<lparr>gc_count := int (length ys) + 1\<rparr>), a_ents := ?h\<rparr>"
  have L: "linked (Some (gc_of ys qs us)) ?h (a_blocks w) (a_next w) c B ys qs us (ce # fs)"
    using R Nil linked_head by (auto simp: rep_def)
  obtain d where d: "a_ents w ce = Some d" "deref ce w = Ret d" "ce_forward d = first 0 ys" "ce \<noteq> 0"
    using rep_in [OF R, of ce thesis] R Nil by (auto simp: rep_def linked_def)
  have y: "first 0 ys \<noteq> 0 \<longleftrightarrow> ys \<noteq> []"
    using rep_not_0 [OF R] by (simp add: first_0_iff)
  have "takeoff_cache ce w = drop_ent ce ?w"
  proof (cases ys)
    case ys: Nil
    then show ?thesis
      using R d Nil y by (simp add: takeoff_cache_def upd_gc_def behead_def rep_def linked_def get_gc_def gc_of_def)
  next
    case ys: (Cons y zs)
    then obtain f where f: "a_ents w y = Some f" "y \<noteq> 0"
      using rep_in [OF R, of y] by auto
    show ?thesis
      using R d Nil ys f
      by (simp add: takeoff_cache_def upd_gc_def behead_def rep_def linked_def get_gc_def gc_of_def
          set_ent_def deref_def)
  qed
  then show ?thesis
    using drop_ent_rep [of ys qs us ?w c B ce fs e] L e Nil by (auto simp: frame_def elim!: runs_mono)
next
  case (snoc xs' x)
  with nl obtain y zs where ys: "ys = y # zs" by (cases ys) auto
  let ?h = "splice (a_ents w) x y"
  let ?w = "w\<lparr>a_ents := ?h, a_gc := Some ((gc_of (xs @ ys) qs us)\<lparr>gc_count := int (length (xs @ ys)) + 1\<rparr>)\<rparr>"
  have R': "rep w c B (xs' @ x # ce # y # zs) qs us fs"
    using R snoc ys by simp
  have L: "linked (Some (gc_of (xs @ ys) qs us)) ?h (a_blocks w) (a_next w) c B (xs @ ys) qs us (ce # fs)"
    using linked_middle [OF R' [unfolded rep_def]] snoc ys by simp
  obtain d where d: "a_ents w ce = Some d" "ce_forward d = y" "ce_back d = x"
    using R' by (auto simp: rep_def linked_def)
  have ce: "ce \<noteq> 0" using rep_not_0 [OF R'] by auto
  obtain f where f: "a_ents w y = Some f" "y \<noteq> 0"
    using rep_in [OF R', of y] by auto
  obtain b where b: "a_ents w x = Some b" "x \<noteq> 0"
    using rep_in [OF R', of x] by auto
  have D: "x \<noteq> y" "first 0 (xs' @ x # ce # y # zs) \<noteq> ce"
    using R' first_in [of x xs'] by (auto simp: rep_def linked_def)
  have "find_loop ce (first 0 ((xs' @ [x]) @ ce # y # zs)) w = Some (Ret True)"
    using R' rep_not_0 [OF R'] by (intro find_loop_found) (auto simp: rep_def linked_def dest: seg_chain)
  then have "takeoff_cache ce w = drop_ent ce ?w"
    using R' D d ce f b snoc ys
    by (simp add: takeoff_cache_def upd_gc_def splice_def rep_def linked_def get_gc_def gc_of_def
        set_ent_def deref_def unlink_ent_def finishes_def Let_def)
  then show ?thesis
    using drop_ent_rep [of "xs @ ys" qs us ?w c B ce fs e] L e by (auto simp: frame_def elim!: runs_mono)
qed

end
