(* ===== verification/Libasync_Aio.thy ===== *)
theory Libasync_Aio
  imports Libasync_Lists
begin

text \<open>
  What \<open>libasync.c\<close> relies on of asynchronous I/O, as the locale \<open>aio_files\<close>: requests are taken,
  finish after finitely many waits, and a finished read has put the bytes of the file into its
  buffer. Under these laws the waiting of the code ends, and the read-ahead cache can be emptied.
\<close>

lemma runs_seq: "runs p P \<Longrightarrow> (\<And>x. P x \<Longrightarrow> runs (f x) Q) \<Longrightarrow> runs (obind p f) Q"
  by (auto simp: runs_def)

section \<open>The laws\<close>

text \<open>
  \<open>reqs\<close> are the requests that were taken and whose result was not fetched; \<open>busy\<close> bounds how
  often waiting for a request may still return without its end; \<open>over\<close> tells that a request has
  ended or was cancelled, \<open>fin\<close> that it has ended well; \<open>disk\<close> are the bytes behind a descriptor,
  which do not change while no write is in flight. Nothing is said of cancelling a request with
  another descriptor than its own, nor of fetching the result of one that is not over.
\<close>

definition reads_only :: "(ptr \<Rightarrow> aiocb option) \<Rightarrow> bool" where
  "reads_only m \<longleftrightarrow> (\<forall>p cb. m p = Some cb \<longrightarrow> aio_lio_opcode cb = 0)"

definition file_part :: "byte list \<Rightarrow> aiocb \<Rightarrow> byte list" where
  "file_part bs cb = take (unat (aio_nbytes cb)) (drop (nat (aio_offset cb)) bs)"

locale aio_files =
  fixes K :: "'os aio"
    and reqs :: "'os \<Rightarrow> ptr \<Rightarrow> aiocb option"
    and busy :: "'os \<Rightarrow> ptr \<Rightarrow> nat"
    and fin :: "'os \<Rightarrow> ptr \<Rightarrow> bool"
    and over :: "'os \<Rightarrow> ptr \<Rightarrow> bool"
    and disk :: "'os \<Rightarrow> int \<Rightarrow> byte list"
  assumes read_law: "ak_sys K (Aio_read p cb) s = (r, s') \<Longrightarrow>
      ar_ret r = 0 \<and> reqs s' = (reqs s)(p \<mapsto> cb) \<and> (reads_only (reqs s) \<longrightarrow> disk s' = disk s)"
    and write_law: "ak_sys K (Aio_write p cb bs) s = (r, s') \<Longrightarrow>
      ar_ret r = 0 \<and> reqs s' = (reqs s)(p \<mapsto> cb)"
    and error_law: "ak_sys K (Aio_error p) s = (r, s') \<Longrightarrow> reqs s p = Some cb \<Longrightarrow>
      reqs s' = reqs s \<and> (reads_only (reqs s) \<longrightarrow> disk s' = disk s) \<and>
      (ar_ret r = 0 \<and> fin s' p \<or> ar_ret r = 115 \<and> 0 < busy s p \<and> busy s' p \<le> busy s p)"
    and suspend_law: "ak_sys K (Aio_suspend p) s = (r, s') \<Longrightarrow> reqs s p = Some cb \<Longrightarrow>
      reqs s' = reqs s \<and> (reads_only (reqs s) \<longrightarrow> disk s' = disk s) \<and> busy s' p \<le> busy s p - 1"
    and cancel_law: "ak_sys K (Aio_cancel d p) s = (r, s') \<Longrightarrow> reqs s p = Some cb \<Longrightarrow> aio_fildes cb = d \<Longrightarrow>
      reqs s' = reqs s \<and> (reads_only (reqs s) \<longrightarrow> disk s' = disk s) \<and>
      (if ar_ret r = 1 then busy s' p < busy s p else over s' p)"
    and fin_over: "fin s p \<Longrightarrow> over s p"
    and return_law: "ak_sys K (Aio_return p) s = (r, s') \<Longrightarrow> reqs s p = Some cb \<Longrightarrow> over s p \<Longrightarrow>
      reqs s' = (reqs s)(p := None) \<and> (reads_only (reqs s) \<longrightarrow> disk s' = disk s) \<and>
      length (ar_data r) \<le> unat (aio_nbytes cb) \<and> (aio_lio_opcode cb = 1 \<longrightarrow> ar_data r = []) \<and>
      (fin s p \<and> aio_lio_opcode cb = 0 \<and> 0 \<le> aio_offset cb \<longrightarrow>
         ar_data r = file_part (disk s (aio_fildes cb)) cb \<and> ar_ret r = int (length (ar_data r)))"

section \<open>Waiting\<close>

text \<open>What a call of the system leaves alone.\<close>

definition quiet :: "'os async \<Rightarrow> 'os async \<Rightarrow> bool" where
  "quiet w w' \<longleftrightarrow> a_ents w' = a_ents w \<and> a_blocks w' = a_blocks w \<and> a_next w' = a_next w \<and>
     a_gc w' = a_gc w \<and> a_max_depth w' = a_max_depth w"

lemma quiet_refl [simp]: "quiet w w" by (simp add: quiet_def)

lemma quiet_trans: "quiet u v \<Longrightarrow> quiet v w \<Longrightarrow> quiet u w" by (simp add: quiet_def)

lemma quiet_rep: "quiet w w' \<Longrightarrow> rep w' c B ps qs us fs = rep w c B ps qs us fs"
  by (simp add: quiet_def rep_def)

lemma quiet_deref: "quiet w w' \<Longrightarrow> deref p w' = deref p w"
  by (simp add: quiet_def deref_def)

lemma asys_cases:
  obtains r s where "ak_sys K c (a_os w) = (r, s)"
    "asys K c w = (r, w\<lparr>a_os := s, a_errno := ar_errno r, a_calls := a_calls w @ [c]\<rparr>)"
  by (cases "ak_sys K c (a_os w)") (simp add: asys_def)

section \<open>Memory\<close>

lemma map_written: "map (\<lambda>q. if p \<le> q \<and> q < p + length bs then bs ! (q - p) else m q) [p..<p + length bs] = bs"
  by (rule nth_equalityI) auto

lemma buffered_in_block:
  assumes "buffered c (a_blocks w) p" "c p = Some e" "n \<le> unat (aio_nbytes (ce_myaiocb e))"
  shows "in_block (aio_buf (ce_myaiocb e)) n w"
proof -
  from assms obtain l where l: "(ce_real_address e, l) \<in> set (a_blocks w)"
    "ce_real_address e \<le> aio_buf (ce_myaiocb e)"
    "aio_buf (ce_myaiocb e) + unat (aio_nbytes (ce_myaiocb e)) \<le> ce_real_address e + l"
    by (auto simp: buffered_def)
  then have "aio_buf (ce_myaiocb e) + n \<le> ce_real_address e + l"
    using assms(3) by simp
  with l show ?thesis
    unfolding in_block_def list_ex_iff by (intro bexI [where x = "(ce_real_address e, l)"]) simp_all
qed

lemma in_block_mem: "(b, l) \<in> set (a_blocks w) \<Longrightarrow> n \<le> l \<Longrightarrow> in_block b n w"
  unfolding in_block_def list_ex_iff by (intro bexI [where x = "(b, l)"]) simp_all

section \<open>Requests in flight\<close>

text \<open>
  The requests of the entries \<open>xs\<close>, and the kinds of requests: reads in the cache, writes on the
  queue.
\<close>

definition sent :: "(ptr \<Rightarrow> cache_ent option) \<Rightarrow> ptr list \<Rightarrow> ptr \<Rightarrow> aiocb option" where
  "sent c xs p = (if p \<in> set xs then map_option ce_myaiocb (c p) else None)"

definition kinds :: "(ptr \<Rightarrow> cache_ent option) \<Rightarrow> ptr list \<Rightarrow> ptr list \<Rightarrow> bool" where
  "kinds c ps qs \<longleftrightarrow>
     (\<forall>p \<in> set ps. \<exists>e. c p = Some e \<and> aio_fildes (ce_myaiocb e) = ce_fd e \<and> aio_lio_opcode (ce_myaiocb e) = 0 \<and>
       ce_direct e = 0) \<and>
     (\<forall>q \<in> set qs. \<exists>e. c q = Some e \<and> aio_lio_opcode (ce_myaiocb e) = 1)"

definition without :: "(ptr \<Rightarrow> cache_ent option) \<Rightarrow> ptr list \<Rightarrow> ptr \<Rightarrow> cache_ent option" where
  "without c ps p = (if p \<in> set ps then None else c p)"

lemma without_Nil [simp]: "without c [] = c"
  by (auto simp: without_def)

lemma without_Cons: "without c (p # ps) = without (c(p := None)) ps"
  by (auto simp: without_def)

lemma sent_Some: "p \<in> set xs \<Longrightarrow> c p = Some e \<Longrightarrow> sent c xs p = Some (ce_myaiocb e)"
  by (simp add: sent_def)

lemma sent_remove: "p \<notin> set (xs @ ys) \<Longrightarrow> (sent c (xs @ p # ys))(p := None) = sent (c(p := None)) (xs @ ys)"
  by (auto simp: sent_def)

lemma sent_new: "(sent c xs)(p \<mapsto> ce_myaiocb e) = sent (c(p \<mapsto> e)) (xs @ [p])"
  by (auto simp: sent_def)

lemma sent_cong: "set xs = set ys \<Longrightarrow> sent c xs = sent c ys"
  by (auto simp: sent_def)

lemma kinds_reads_only: "kinds c ps [] \<Longrightarrow> reads_only (sent c ps)"
  by (fastforce simp: kinds_def reads_only_def sent_def split: if_splits)

text \<open>Requests on descriptor 0, the one that \<open>del_cache\<close> passes to \<open>aio_cancel\<close>.\<close>

definition on_zero :: "(ptr \<Rightarrow> cache_ent option) \<Rightarrow> ptr list \<Rightarrow> bool" where
  "on_zero c ps \<longleftrightarrow> (\<forall>p \<in> set ps. \<forall>e. c p = Some e \<longrightarrow> aio_fildes (ce_myaiocb e) = 0)"

lemma on_zero_Nil [simp]: "on_zero c []"
  by (simp add: on_zero_def)

lemma kinds_remove: "kinds c ps qs \<Longrightarrow> p \<notin> set (ps' @ qs') \<Longrightarrow> set ps' \<subseteq> set ps \<Longrightarrow> set qs' \<subseteq> set qs \<Longrightarrow>
    kinds (c(p := None)) ps' qs'"
  by (auto simp: kinds_def)

context aio_files begin

text \<open>The requests and the files after a call that takes no request and fetches no result.\<close>

definition same_io :: "'os async \<Rightarrow> 'os async \<Rightarrow> bool" where
  "same_io w w' \<longleftrightarrow> reqs (a_os w') = reqs (a_os w) \<and>
     (reads_only (reqs (a_os w)) \<longrightarrow> disk (a_os w') = disk (a_os w))"

lemma aio_wait_ends:
  assumes "reqs (a_os w) p = Some cb"
  shows "\<exists>w'. aio_wait K p w = Some (0, w') \<and> quiet w w' \<and> a_mem w' = a_mem w \<and> same_io w w' \<and> fin (a_os w') p"
  using assms
proof (induction "busy (a_os w) p" arbitrary: w rule: less_induct)
  case less
  obtain r s where rs: "ak_sys K (Aio_error p) (a_os w) = (r, s)"
    "asys K (Aio_error p) w = (r, w\<lparr>a_os := s, a_errno := ar_errno r, a_calls := a_calls w @ [Aio_error p]\<rparr>)"
    by (rule asys_cases)
  note E = error_law [OF rs(1) less.prems]
  let ?v = "w\<lparr>a_os := s, a_errno := ar_errno r, a_calls := a_calls w @ [Aio_error p]\<rparr>"
  show ?case
  proof (cases "ar_ret r = 115")
    case False
    with E rs(2) show ?thesis
      by (subst aio_wait.simps) (auto simp: quiet_def same_io_def)
  next
    case True
    obtain q t where qt: "ak_sys K (Aio_suspend p) (a_os ?v) = (q, t)"
      "asys K (Aio_suspend p) ?v = (q, ?v\<lparr>a_os := t, a_errno := ar_errno q, a_calls := a_calls ?v @ [Aio_suspend p]\<rparr>)"
      by (rule asys_cases)
    let ?u = "?v\<lparr>a_os := t, a_errno := ar_errno q, a_calls := a_calls ?v @ [Aio_suspend p]\<rparr>"
    have S: "reqs t = reqs s \<and> (reads_only (reqs s) \<longrightarrow> disk t = disk s) \<and> busy t p \<le> busy s p - 1"
      using suspend_law [OF qt(1)] E less.prems by simp
    have "busy (a_os ?u) p < busy (a_os w) p" "reqs (a_os ?u) p = Some cb"
      using S E True less.prems by auto
    then obtain w' where "aio_wait K p ?u = Some (0, w') \<and> quiet ?u w' \<and> a_mem w' = a_mem ?u \<and>
        same_io ?u w' \<and> fin (a_os w') p"
      using less.hyps by blast
    moreover have "aio_wait K p w = aio_wait K p ?u"
      using True rs(2) qt(2) by (subst aio_wait.simps) (simp add: async_suspend_def)
    ultimately show ?thesis
      using S E by (auto simp: quiet_def same_io_def)
  qed
qed

lemma aio_cancel_ends:
  assumes "reqs (a_os w) p = Some cb" "aio_fildes cb = 0"
  shows "\<exists>w'. aio_cancel_loop K p w = Some w' \<and> quiet w w' \<and> a_mem w' = a_mem w \<and> same_io w w' \<and> over (a_os w') p"
  using assms
proof (induction "busy (a_os w) p" arbitrary: w rule: less_induct)
  case less
  obtain r s where rs: "ak_sys K (Aio_cancel 0 p) (a_os w) = (r, s)"
    "asys K (Aio_cancel 0 p) w = (r, w\<lparr>a_os := s, a_errno := ar_errno r, a_calls := a_calls w @ [Aio_cancel 0 p]\<rparr>)"
    by (rule asys_cases)
  note E = cancel_law [OF rs(1) less.prems]
  let ?v = "w\<lparr>a_os := s, a_errno := ar_errno r, a_calls := a_calls w @ [Aio_cancel 0 p]\<rparr>"
  show ?case
  proof (cases "ar_ret r = 1")
    case False
    with E rs(2) show ?thesis
      by (subst aio_cancel_loop.simps) (auto simp: quiet_def same_io_def)
  next
    case True
    with E less.prems have "busy (a_os ?v) p < busy (a_os w) p" "reqs (a_os ?v) p = Some cb"
      by auto
    then obtain w' where "aio_cancel_loop K p ?v = Some w' \<and> quiet ?v w' \<and> a_mem w' = a_mem ?v \<and> same_io ?v w' \<and>
        over (a_os w') p"
      using less.hyps less.prems(2) by blast
    moreover have "aio_cancel_loop K p w = aio_cancel_loop K p ?v"
      using True rs(2) by (subst aio_cancel_loop.simps) simp
    ultimately show ?thesis
      using E by (auto simp: quiet_def same_io_def)
  qed
qed

definition lively :: "'os async \<Rightarrow> (ptr \<Rightarrow> cache_ent option) \<Rightarrow> ptr list \<Rightarrow> ptr list \<Rightarrow> bool" where
  "lively w c ps qs \<longleftrightarrow> reqs (a_os w) = sent c (ps @ qs) \<and> kinds c ps qs"

lemma same_io_lively: "same_io w w' \<Longrightarrow> lively w c ps qs \<Longrightarrow> lively w' c ps qs"
  by (simp add: same_io_def lively_def)

lemma aio_return_runs:
  assumes R: "rep w c B ps qs us fs" and e: "c p = Some e" and q: "reqs (a_os w) p = Some (ce_myaiocb e)"
    and b: "buffered c (a_blocks w) p \<or> aio_lio_opcode (ce_myaiocb e) = 1" and o: "over (a_os w) p"
  shows "runs (aio_return K p w) (\<lambda>(n, w'). quiet w w' \<and> reqs (a_os w') = (reqs (a_os w))(p := None) \<and>
    (reads_only (reqs (a_os w)) \<longrightarrow> disk (a_os w') = disk (a_os w)) \<and>
    (fin (a_os w) p \<and> aio_lio_opcode (ce_myaiocb e) = 0 \<and> 0 \<le> aio_offset (ce_myaiocb e) \<longrightarrow>
      (let bs = file_part (disk (a_os w) (aio_fildes (ce_myaiocb e))) (ce_myaiocb e); a = aio_buf (ce_myaiocb e)
       in n = int (length bs) \<and> map (a_mem w') [a..<a + length bs] = bs)))"
proof -
  obtain d where d: "a_ents w p = Some d" "pay d = e" "deref p w = Ret d" "p \<noteq> 0"
    by (rule rep_ent [OF R e])
  have cb: "ce_myaiocb d = ce_myaiocb e" using d(2) by auto
  obtain r s where rs: "ak_sys K (Aio_return p) (a_os w) = (r, s)"
    "asys K (Aio_return p) w = (r, w\<lparr>a_os := s, a_errno := ar_errno r, a_calls := a_calls w @ [Aio_return p]\<rparr>)"
    by (rule asys_cases)
  note L = return_law [OF rs(1) q o]
  show ?thesis
  proof (cases "ar_data r = []")
    case True
    with L rs d cb show ?thesis
      by (auto simp: aio_return_def quiet_def Let_def)
  next
    case False
    with L b have "buffered c (a_blocks w) p" "length (ar_data r) \<le> unat (aio_nbytes (ce_myaiocb e))" by auto
    then have "in_block (aio_buf (ce_myaiocb e)) (length (ar_data r)) w"
      using e by (intro buffered_in_block [where c = c and p = p])
    then have "in_block (aio_buf (ce_myaiocb d)) (length (ar_data r))
        (w\<lparr>a_os := s, a_errno := ar_errno r, a_calls := a_calls w @ [Aio_return p]\<rparr>)"
      by (simp add: in_block_def cb)
    moreover define m where "m = (\<lambda>q. if aio_buf (ce_myaiocb e) \<le> q \<and>
      q < aio_buf (ce_myaiocb e) + length (ar_data r) then ar_data r ! (q - aio_buf (ce_myaiocb e)) else a_mem w q)"
    ultimately have A: "aio_return K p w = Ret (ar_ret r, w\<lparr>a_os := s, a_errno := ar_errno r,
        a_calls := a_calls w @ [Aio_return p], a_mem := m\<rparr>)"
      using False rs(2) d(3) cb by (simp add: aio_return_def write_mem_def cong: if_cong)
    have M: "map m [aio_buf (ce_myaiocb e)..<aio_buf (ce_myaiocb e) + length (ar_data r)] = ar_data r"
      unfolding m_def by (rule map_written)
    have "fin (a_os w) p \<and> aio_lio_opcode (ce_myaiocb e) = 0 \<and> 0 \<le> aio_offset (ce_myaiocb e) \<longrightarrow>
      (let bs = file_part (disk (a_os w) (aio_fildes (ce_myaiocb e))) (ce_myaiocb e); a = aio_buf (ce_myaiocb e)
       in ar_ret r = int (length bs) \<and> map m [a..<a + length bs] = bs)"
      using L M by (metis (mono_tags, lifting))
    then show ?thesis
      using L by (simp add: A quiet_def)
  qed
qed

lemma aio_return_any:
  assumes "rep w c B ps qs us fs" "c p = Some e" "reqs (a_os w) p = Some (ce_myaiocb e)"
    "buffered c (a_blocks w) p \<or> aio_lio_opcode (ce_myaiocb e) = 1" "over (a_os w) p"
  shows "runs (aio_return K p w) (\<lambda>(n, w'). quiet w w' \<and> reqs (a_os w') = (reqs (a_os w))(p := None) \<and>
    (reads_only (reqs (a_os w)) \<longrightarrow> disk (a_os w') = disk (a_os w)))"
  by (rule runs_mono [OF aio_return_runs [OF assms]]) (simp add: split_beta)

section \<open>Emptying the cache\<close>

lemma del_step_runs:
  assumes R: "rep w c B (p # ps) qs us fs" and V: "lively w c (p # ps) qs" and Z: "on_zero c (p # ps)"
  shows "runs (del_step K p w) (\<lambda>w'. rep w' (c(p := None)) B ps qs us fs \<and> lively w' (c(p := None)) ps qs \<and>
    a_max_depth w' = a_max_depth w \<and> (reads_only (reqs (a_os w)) \<longrightarrow> disk (a_os w') = disk (a_os w)))"
proof -
  obtain d where d: "a_ents w p = Some d" "c p = Some (pay d)" "deref p w = Ret d" "p \<noteq> 0"
    using rep_in [OF R, of p thesis] by auto
  have rdy: "buffered c (a_blocks w) p" and dis: "p \<notin> set (ps @ qs)"
    using R by (auto simp: rep_def linked_def)
  have dir: "ce_direct d = 0" using V d(2) by (auto simp: lively_def kinds_def)
  have q: "reqs (a_os w) p = Some (ce_myaiocb (pay d))"
    using V d(2) by (simp add: lively_def sent_def)
  obtain v where v: "aio_cancel_loop K p w = Some v" "quiet w v" "a_mem v = a_mem w" "same_io w v" "over (a_os v) p"
    using aio_cancel_ends [OF q] Z d(2) by (auto simp: on_zero_def)
  have Rv: "rep v c B (p # ps) qs us fs" and rv: "buffered c (a_blocks v) p"
    using R rdy v(2) by (simp_all add: quiet_rep) (simp add: quiet_def)
  have qv: "reqs (a_os v) p = Some (ce_myaiocb (pay d))"
    using q v(4) by (simp add: same_io_def)
  note ret = aio_return_any [OF Rv d(2) qv disjI1 [OF rv] v(5)]
  have step: "runs (obind (set_ent p (\<lambda>e. e\<lparr>ce_direct := 0\<rparr>) u) (takeoff_cache p))
      (\<lambda>w'. frame u w' \<and> rep w' (c(p := None)) B ps qs us fs)"
    if u: "quiet v u" for u
  proof -
    have "a_ents u p = Some d" "d\<lparr>ce_direct := 0\<rparr> = d"
      using u v(2) d dir by (simp_all add: quiet_def)
    then have "set_ent p (\<lambda>e. e\<lparr>ce_direct := 0\<rparr>) u = Ret u"
      using d(4) by (simp add: set_ent_def deref_def fun_upd_idem)
    moreover have "rep u c B ([] @ p # ps) qs us fs"
      using Rv u by (simp add: quiet_rep)
    ultimately show ?thesis
      using takeoff_rep [of u c B "[]" p ps qs us fs "pay d"] d(2) dir by (simp only: obind.simps) simp
  qed
  have V': "sent c ((p # ps) @ qs) = reqs (a_os w)" "kinds (c(p := None)) ps qs"
    using V kinds_remove [of c "p # ps" qs p ps qs] dis by (auto simp: lively_def)
  have S: "(sent c ((p # ps) @ qs))(p := None) = sent (c(p := None)) (ps @ qs)"
    using sent_remove [of p "[]" "ps @ qs" c] dis by simp
  have "runs (obind (aio_return K p v) (\<lambda>(n, u). obind (set_ent p (\<lambda>e. e\<lparr>ce_direct := 0\<rparr>) u) (takeoff_cache p)))
     (\<lambda>w'. rep w' (c(p := None)) B ps qs us fs \<and> lively w' (c(p := None)) ps qs \<and>
    a_max_depth w' = a_max_depth w \<and> (reads_only (reqs (a_os w)) \<longrightarrow> disk (a_os w') = disk (a_os w)))"
  proof (rule runs_seq [OF ret], clarify)
    fix n u
    assume u: "quiet v u" "reqs (a_os u) = (reqs (a_os v))(p := None)"
      "reads_only (reqs (a_os v)) \<longrightarrow> disk (a_os u) = disk (a_os v)"
    show "runs (obind (set_ent p (\<lambda>e. e\<lparr>ce_direct := 0\<rparr>) u) (takeoff_cache p))
     (\<lambda>w'. rep w' (c(p := None)) B ps qs us fs \<and> lively w' (c(p := None)) ps qs \<and>
    a_max_depth w' = a_max_depth w \<and> (reads_only (reqs (a_os w)) \<longrightarrow> disk (a_os w') = disk (a_os w)))"
      using u v V' S
      by (intro runs_mono [OF step [OF u(1)]]) (auto simp: frame_def quiet_def lively_def same_io_def)
  qed
  then show ?thesis
    using v(1) d(3) by (simp add: del_step_def ends_def)
qed

text \<open>What is left of the entries when the list \<open>ps\<close> is gone.\<close>

lemma del_cache_runs:
  assumes "rep w c B ps qs us fs" "lively w c ps qs" "on_zero c ps"
  shows "runs (del_cache K w) (\<lambda>w'. rep w' (without c ps) B [] qs us fs \<and> lively w' (without c ps) [] qs \<and>
    a_max_depth w' = a_max_depth w \<and> (reads_only (reqs (a_os w)) \<longrightarrow> disk (a_os w') = disk (a_os w)))"
  using assms
proof (induction ps arbitrary: w c)
  case Nil
  then show ?case
    by (simp add: del_cache_def finishes_def del_loop.simps gc_of_def without_Nil)
next
  case (Cons p ps)
  obtain v where v: "del_step K p w = Ret v" "rep v (c(p := None)) B ps qs us fs"
    "lively v (c(p := None)) ps qs" "a_max_depth v = a_max_depth w"
    "reads_only (reqs (a_os w)) \<longrightarrow> disk (a_os v) = disk (a_os w)"
    using del_step_runs [OF Cons.prems] by (auto simp: runs_def)
  have "p \<noteq> 0" using rep_not_0 [OF Cons.prems(1)] by auto
  then have "del_cache K w = del_cache K v"
    using v(1) Cons.prems(1) by (simp add: del_cache_def del_loop.simps [of K w] gc_of_def)
  moreover have "reads_only (reqs (a_os w)) \<Longrightarrow> reads_only (reqs (a_os v))"
    using Cons.prems(2) v(3) by (auto simp: lively_def reads_only_def sent_def split: if_splits)
  moreover have "on_zero (c(p := None)) ps"
    using Cons.prems(3) by (auto simp: on_zero_def)
  note Cons.IH [OF v(2,3) this]
  ultimately show ?case
    unfolding without_Cons using v(5)
    by (simp only:) (erule runs_mono, use v(4) in metis)
qed

end

end
