(* ===== verification/Libasync_Read.thy ===== *)
theory Libasync_Read
  imports Libasync_Aio
begin

text \<open>
  The reads of \<open>libasync.c\<close> under the laws of asynchronous I/O: what is found in the cache, the
  read-ahead, and the delivery of the bytes of the file.
\<close>

section \<open>Looking up\<close>

text \<open>The first entry of a list for a descriptor, an offset and a size; 0 if there is none.\<close>

definition wanted :: "(ptr \<Rightarrow> cache_ent option) \<Rightarrow> int \<Rightarrow> int \<Rightarrow> int \<Rightarrow> ptr \<Rightarrow> bool" where
  "wanted c fd offset sz p = (case c p of None \<Rightarrow> False
     | Some e \<Rightarrow> ce_fd e = fd \<and> aio_offset (ce_myaiocb e) = offset \<and> word_of_int sz = aio_nbytes (ce_myaiocb e))"

definition lookup :: "(ptr \<Rightarrow> cache_ent option) \<Rightarrow> int \<Rightarrow> int \<Rightarrow> int \<Rightarrow> ptr list \<Rightarrow> ptr" where
  "lookup c fd offset sz ps = (case find (wanted c fd offset sz) ps of None \<Rightarrow> 0 | Some p \<Rightarrow> p)"

lemma incache_loop_find:
  assumes "chain (a_ents w) ps 0" "pays (a_ents w) = c" "0 \<notin> set ps"
  shows "incache_loop fd offset sz (first 0 ps) w = Some (Ret (lookup c fd offset sz ps))"
  using assms(1,3)
proof (induction ps)
  case Nil
  then show ?case by (simp add: incache_loop.simps lookup_def)
next
  case (Cons p ps)
  then obtain e where e: "a_ents w p = Some e" "ce_forward e = first 0 ps" by auto
  with assms(2) have "c p = Some (pay e)" by (auto simp: pays_def)
  with Cons e show ?case
    by (subst incache_loop.simps) (simp add: lookup_def wanted_def)
qed

lemma incache_rep:
  assumes "rep w c B ps qs us fs"
  shows "incache fd offset sz w = Ret (lookup c fd offset sz ps)"
proof -
  have "chain (a_ents w) ps 0" "pays (a_ents w) = c" "0 \<notin> set ps"
    using assms rep_not_0 [OF assms] by (auto simp: rep_def linked_def dest: seg_chain)
  then show ?thesis
    using rep_get_gc [OF assms] incache_loop_find [of w ps c fd offset sz]
    by (simp add: incache_def finishes_def gc_of_def)
qed

lemma lookup_in:
  assumes "lookup c fd offset sz ps \<noteq> 0"
  shows "lookup c fd offset sz ps \<in> set ps" "wanted c fd offset sz (lookup c fd offset sz ps)"
proof -
  from assms obtain p where p: "find (wanted c fd offset sz) ps = Some p"
    by (cases "find (wanted c fd offset sz) ps") (simp_all add: lookup_def)
  then have "lookup c fd offset sz ps = p" by (simp add: lookup_def)
  moreover have "p \<in> set ps" "wanted c fd offset sz p"
    using p by (auto simp: find_Some_iff)
  ultimately show "lookup c fd offset sz ps \<in> set ps" "wanted c fd offset sz (lookup c fd offset sz ps)"
    by simp_all
qed

section \<open>Requests with marks\<close>

text \<open>The marks of \<open>async_read_no_copy\<close> change nothing that the lists or the system depend on.\<close>

definition same_req :: "cache_ent \<Rightarrow> cache_ent \<Rightarrow> bool" where
  "same_req e e' \<longleftrightarrow> ce_myaiocb e' = ce_myaiocb e \<and> ce_fd e' = ce_fd e \<and> ce_direct e' = ce_direct e \<and>
     ce_real_address e' = ce_real_address e"

lemma rep_payload:
  assumes R: "rep w c B ps qs us fs" and d: "a_ents w p = Some d" "c p = Some (pay d)"
    and x: "ce_myaiocb x = ce_myaiocb d" "ce_real_address x = ce_real_address d"
      "p \<in> set qs \<Longrightarrow> ce_direct x = ce_direct d" "ce_forward x = ce_forward d" "ce_back x = ce_back d"
  shows "rep (w\<lparr>a_ents := (a_ents w)(p \<mapsto> x)\<rparr>) (c(p \<mapsto> pay x)) B ps qs us fs"
proof -
  have "buffered (c(p \<mapsto> pay x)) bl q = buffered c bl q" for bl q
    using d(2) x(1,2) by (auto simp: buffered_def)
  moreover have "own (c(p \<mapsto> pay x)) (a_blocks w) (a_next w) B"
    using own_payload [OF rep_own [OF R] d(2)] x(2) by simp
  moreover have "\<exists>e. (c(p \<mapsto> pay x)) q = Some e \<and> ce_direct e = 0" if "q \<in> set qs" for q
    using R that d(2) x(3) by (auto simp: rep_def linked_def)
  moreover have "dom (c(p \<mapsto> pay x)) = dom c"
    using d(2) by auto
  ultimately show ?thesis
    using R d x by (simp add: rep_def linked_def seg_payload chain_payload del: fun_upd_apply)
qed

lemma mark_ent_runs:
  assumes R: "rep w c B ps qs us fs" and e: "c p = Some e"
  shows "runs (mark_ent m p w) (\<lambda>w'. frame w w' \<and> (\<exists>x. same_req e x \<and> rep w' (c(p \<mapsto> x)) B ps qs us fs))"
proof (cases m)
  case False
  have "same_req e e" "c(p \<mapsto> e) = c" using e by (auto simp: same_req_def)
  with R False show ?thesis
    unfolding mark_ent_def by (intro runs_def [THEN iffD2]) auto
next
  case True
  obtain d where d: "a_ents w p = Some d" "pay d = e" "deref p w = Ret d" "p \<noteq> 0"
    by (rule rep_ent [OF assms])
  define x where "x = d\<lparr>ce_oldbuf := aio_buf (ce_myaiocb d), ce_oldfd := aio_fildes (ce_myaiocb d),
    ce_oldsize := aio_nbytes (ce_myaiocb d)\<rparr>"
  have "rep (w\<lparr>a_ents := (a_ents w)(p \<mapsto> x)\<rparr>) (c(p \<mapsto> pay x)) B ps qs us fs"
    using R d e by (intro rep_payload) (auto simp: x_def)
  moreover have "same_req e (pay x)"
    using d(2) by (auto simp: same_req_def x_def)
  ultimately show ?thesis
    using True d(3) by (auto simp: mark_ent_def set_ent_def x_def frame_def)
qed

text \<open>The part of \<open>take_data\<close> before the entry is taken off the cache.\<close>

definition take_copy :: "'os aio \<Rightarrow> ptr \<Rightarrow> ptr \<Rightarrow> 'os async \<Rightarrow> (int \<times> 'os async) outcome" where
  "take_copy K p ub w = obind (obind (wait_for K p w) (\<lambda>(ret, w). aio_return K p w)) (\<lambda>(n, u).
     obind (deref p u) (\<lambda>e. obind (if 0 < n then mbcopy (aio_buf (ce_myaiocb e)) ub (nat n) u else Ret u) (\<lambda>w.
     obind (set_ent p (\<lambda>e. e\<lparr>ce_direct := 0\<rparr>) w) (\<lambda>w. Ret (n, w)))))"

lemma take_data_copy:
  "take_data K p ub w = obind (take_copy K p ub w) (\<lambda>(n, w). obind (takeoff_cache p w) (\<lambda>w. Ret (n, w)))"
  by (simp add: take_data_def take_copy_def obind_assoc case_prod_unfold)

section \<open>Submitting\<close>

context aio_files begin

lemma aio_read_runs:
  assumes "rep w c B ps qs us fs" "c p = Some e"
  shows "runs (aio_read K p w) (\<lambda>(n, w'). n = 0 \<and> quiet w w' \<and> a_mem w' = a_mem w \<and>
    reqs (a_os w') = (reqs (a_os w))(p \<mapsto> ce_myaiocb e) \<and>
    (reads_only (reqs (a_os w)) \<longrightarrow> disk (a_os w') = disk (a_os w)))"
proof -
  obtain d where d: "a_ents w p = Some d" "pay d = e" "deref p w = Ret d" "p \<noteq> 0"
    by (rule rep_ent [OF assms])
  obtain r s where rs: "ak_sys K (Aio_read p (ce_myaiocb d)) (a_os w) = (r, s)"
    "asys K (Aio_read p (ce_myaiocb d)) w =
       (r, w\<lparr>a_os := s, a_errno := ar_errno r, a_calls := a_calls w @ [Aio_read p (ce_myaiocb d)]\<rparr>)"
    by (rule asys_cases)
  show ?thesis
    using read_law [OF rs(1)] rs(2) d by (auto simp: aio_read_def quiet_def)
qed

text \<open>A new request in the cache: allocated, marked and submitted.\<close>

lemma sent_append:
  "p \<notin> set (ps @ qs) \<Longrightarrow> (sent c (ps @ qs))(p \<mapsto> ce_myaiocb e) = sent (c(p \<mapsto> e)) ((ps @ [p]) @ qs)"
  by (auto simp: sent_def)

lemma kinds_new:
  "kinds c ps qs \<Longrightarrow> n \<notin> set (ps @ qs) \<Longrightarrow> same_req (fresh_ent K n fd offset sz 0) x \<Longrightarrow>
   kinds (c(n \<mapsto> x)) (ps @ [n]) qs"
  by (auto simp: kinds_def fresh_ent_def blank_ent_def same_req_def)

lemma new_request:
  assumes R: "rep w c B ps qs us fs" and V: "lively w c ps qs" and K: "room K sz"
    and k: "\<And>ce x w'. ce \<notin> set (ps @ qs @ us @ fs) \<Longrightarrow> ce \<noteq> 0 \<Longrightarrow> same_req (fresh_ent K ce fd offset sz 0) x \<Longrightarrow>
      rep w' (c(ce \<mapsto> x)) B (ps @ [ce]) qs us fs \<Longrightarrow> lively w' (c(ce \<mapsto> x)) (ps @ [ce]) qs \<Longrightarrow>
      a_mem w' = a_mem w \<Longrightarrow> a_max_depth w' = a_max_depth w \<Longrightarrow>
      (reads_only (reqs (a_os w)) \<Longrightarrow> disk (a_os w') = disk (a_os w)) \<Longrightarrow> runs (f ce (0, w')) Q"
  shows "runs (obind (alloc_cache K fd offset sz 0 w) (\<lambda>(ce, w). obind (mark_ent m ce w) (\<lambda>w.
    obind (aio_read K ce w) (f ce)))) Q"
proof (rule runs_seq [OF alloc_cache_rep [OF R K]], clarify)
  fix v
  define ce where "ce = a_next w"
  define x where "x = fresh_ent K ce fd offset sz 0"
  assume v: "frame w v" "rep v (c(a_next w \<mapsto> fresh_ent K (a_next w) fd offset sz 0)) B (ps @ [a_next w]) qs us fs"
  then have Rv: "rep v (c(ce \<mapsto> x)) B (ps @ [ce]) qs us fs" and xc: "(c(ce \<mapsto> x)) ce = Some x"
    by (simp_all add: ce_def x_def)
  have ce: "ce \<notin> set (ps @ qs @ us @ fs)" "ce \<noteq> 0"
    using Rv rep_not_0 [OF Rv] by (auto simp: rep_def linked_def)
  show "runs (obind (mark_ent m (a_next w) v) (\<lambda>w'. obind (aio_read K (a_next w) w') (f (a_next w)))) Q"
    unfolding ce_def [symmetric]
  proof (rule runs_seq [OF mark_ent_runs [OF Rv xc]], clarify)
    fix u y
    assume u: "frame v u" "same_req x y" "rep u (c(ce \<mapsto> x, ce \<mapsto> y)) B (ps @ [ce]) qs us fs"
    then have Ru: "rep u (c(ce \<mapsto> y)) B (ps @ [ce]) qs us fs" and yc: "(c(ce \<mapsto> y)) ce = Some y"
      by simp_all
    show "runs (obind (aio_read K ce u) (f ce)) Q"
    proof (rule runs_seq [OF aio_read_runs [OF Ru yc]], clarify)
      fix t
      assume t: "quiet u t" "a_mem t = a_mem u" "reqs (a_os t) = (reqs (a_os u))(ce \<mapsto> ce_myaiocb y)"
        "reads_only (reqs (a_os u)) \<longrightarrow> disk (a_os t) = disk (a_os u)"
      have "lively t (c(ce \<mapsto> y)) (ps @ [ce]) qs"
        using V t(3) u(1,2) v(1) ce sent_append [of ce ps qs c y] kinds_new [of c ps qs ce fd offset sz y]
        by (auto simp: lively_def frame_def x_def)
      moreover have "rep t (c(ce \<mapsto> y)) B (ps @ [ce]) qs us fs"
        using Ru quiet_rep [OF t(1)] by simp
      ultimately show "runs (f ce (0, t)) Q"
        using ce u(1,2) v(1) t by (intro k [of ce y]) (auto simp: x_def quiet_def frame_def)
    qed
  qed
qed

section \<open>Reading ahead\<close>

text \<open>
  The cache has grown at its end; its entries, the bytes in memory and on the disk are as before.
\<close>

definition extended :: "'os async \<Rightarrow> (ptr \<Rightarrow> cache_ent option) \<Rightarrow> (ptr \<times> nat) set \<Rightarrow> ptr list \<Rightarrow> ptr list \<Rightarrow>
    ptr list \<Rightarrow> ptr list \<Rightarrow> 'os async \<Rightarrow> bool" where
  "extended w c B ps qs us fs w' \<longleftrightarrow> (\<exists>c' xs. rep w' c' B (ps @ xs) qs us fs \<and> lively w' c' (ps @ xs) qs \<and>
     (\<forall>p \<in> set (ps @ qs @ us @ fs). c' p = c p) \<and> a_mem w' = a_mem w \<and> a_max_depth w' = a_max_depth w \<and>
     (reads_only (reqs (a_os w)) \<longrightarrow> disk (a_os w') = disk (a_os w)))"

lemma extended_refl: "rep w c B ps qs us fs \<Longrightarrow> lively w c ps qs \<Longrightarrow> extended w c B ps qs us fs w"
  unfolding extended_def by (intro exI [of _ c] exI [of _ "[]"]) simp

lemma reads_only_lively: "lively w c ps qs \<Longrightarrow> reads_only (reqs (a_os w)) \<longleftrightarrow> qs = []"
proof -
  assume "lively w c ps qs"
  then have r: "reqs (a_os w) = sent c (ps @ qs)" and k: "kinds c ps qs"
    by (simp_all add: lively_def)
  show ?thesis
  proof (cases qs)
    case Nil
    then show ?thesis using kinds_reads_only [of c ps] k r by simp
  next
    case (Cons q zs)
    then obtain e where "c q = Some e" "aio_lio_opcode (ce_myaiocb e) = 1"
      using k by (auto simp: kinds_def)
    then have "reqs (a_os w) q = Some (ce_myaiocb e)" "aio_lio_opcode (ce_myaiocb e) \<noteq> 0"
      using r Cons by (simp_all add: sent_def)
    then show ?thesis using Cons by (auto simp: reads_only_def)
  qed
qed

lemma extended_step:
  assumes G: "extended v (c(ce \<mapsto> x)) B (ps @ [ce]) qs us fs w'" and ce: "ce \<notin> set (ps @ qs @ us @ fs)"
    and v: "a_mem v = a_mem w" "a_max_depth v = a_max_depth w" "lively v (c(ce \<mapsto> x)) (ps @ [ce]) qs"
      "reads_only (reqs (a_os w)) \<Longrightarrow> disk (a_os v) = disk (a_os w)" "lively w c ps qs"
  shows "extended w c B ps qs us fs w'"
proof -
  from G obtain c' xs where g: "rep w' c' B ((ps @ [ce]) @ xs) qs us fs" "lively w' c' ((ps @ [ce]) @ xs) qs"
    "\<forall>p \<in> set ((ps @ [ce]) @ qs @ us @ fs). c' p = (c(ce \<mapsto> x)) p" "a_mem w' = a_mem v"
    "a_max_depth w' = a_max_depth v" "reads_only (reqs (a_os v)) \<longrightarrow> disk (a_os w') = disk (a_os v)"
    unfolding extended_def by blast
  have "rep w' c' B (ps @ (ce # xs)) qs us fs" "lively w' c' (ps @ (ce # xs)) qs"
    using g(1,2) by simp_all
  moreover have "\<forall>p \<in> set (ps @ qs @ us @ fs). c' p = c p"
    using g(3) ce by auto
  moreover have "reads_only (reqs (a_os w)) \<longrightarrow> disk (a_os w') = disk (a_os w)"
    using g(6) v(4) reads_only_lively [OF v(3)] reads_only_lively [OF v(5)] by simp
  ultimately show ?thesis
    using g(4,5) v(1,2) unfolding extended_def by auto
qed

lemma ahead_loop_runs:
  assumes "rep w c B ps qs us fs" "lively w c ps qs" and K: "room K sz"
  shows "runs (ahead_loop K m fd a_offset sz stride mx depth i w) (extended w c B ps qs us fs)"
  using assms(1,2)
proof (induction "nat (depth - i)" arbitrary: i w c ps)
  case 0
  then show ?case
    by (subst ahead_loop.simps) (simp add: extended_refl)
next
  case (Suc n)
  then have i: "i < depth" "n = nat (depth - (i + 1))" by linarith+
  define off where "off = c_llong (a_offset + c_llong ((i + 1) * c_llong (stride * sz)))"
  note IH = Suc.hyps(1) [OF i(2)]
  note inc = incache_rep [OF Suc.prems(1)]
  show ?case
  proof (cases "off < 0 \<or> mx < c_llong (off + sz) \<or> lookup c fd off sz ps \<noteq> 0")
    case True
    then have "ahead_loop K m fd a_offset sz stride mx depth i w =
        ahead_loop K m fd a_offset sz stride mx depth (i + 1) w"
      using i(1) by (subst ahead_loop.simps) (auto simp: off_def [symmetric] Let_def inc)
    then show ?thesis
      using IH [OF Suc.prems] by simp
  next
    case False
    then have "ahead_loop K m fd a_offset sz stride mx depth i w =
        obind (alloc_cache K fd off sz 0 w) (\<lambda>(ce, w). obind (mark_ent m ce w) (\<lambda>w.
          obind (aio_read K ce w) (\<lambda>(ret, w). if ret \<noteq> 0 then takeoff_cache ce w
            else ahead_loop K m fd a_offset sz stride mx depth (i + 1) w)))"
      using i(1) by (subst ahead_loop.simps) (simp add: off_def [symmetric] Let_def inc)
    moreover have "runs \<dots> (extended w c B ps qs us fs)"
    proof (rule new_request [OF Suc.prems K], clarsimp)
      fix ce x v
      assume "ce \<notin> set ps" "ce \<notin> set qs" "ce \<notin> set us" "ce \<notin> set fs"
        and v: "rep v (c(ce \<mapsto> x)) B (ps @ [ce]) qs us fs" "lively v (c(ce \<mapsto> x)) (ps @ [ce]) qs"
        "a_mem v = a_mem w" "a_max_depth v = a_max_depth w"
        "reads_only (reqs (a_os w)) \<Longrightarrow> disk (a_os v) = disk (a_os w)"
      then have "ce \<notin> set (ps @ qs @ us @ fs)" by simp
      from extended_step [OF _ this v(3,4,2,5) Suc.prems(2)]
      show "runs (ahead_loop K m fd a_offset sz stride mx depth (i + 1) v) (extended w c B ps qs us fs)"
        using IH [OF v(1,2)] by (auto elim: runs_mono)
    qed
    ultimately show ?thesis by simp
  qed
qed

lemma read_ahead_runs:
  assumes "rep w c B ps qs us fs" "lively w c ps qs" "room K sz"
  shows "runs (read_ahead K m fd a_offset sz stride mx depth w) (extended w c B ps qs us fs)"
  using assms ahead_loop_runs [OF assms]
  by (simp add: read_ahead_def Let_def extended_refl)

section \<open>Delivering\<close>

lemma mbcopy_runs:
  assumes "in_block a (length bs) w" "in_block ub (length bs) w" "map (a_mem w) [a..<a + length bs] = bs"
  shows "runs (mbcopy a ub (length bs) w) (\<lambda>t. quiet w t \<and> a_os t = a_os w \<and>
    map (a_mem t) [ub..<ub + length bs] = bs)"
proof -
  define m where "m = (\<lambda>q. if ub \<le> q \<and> q < ub + length bs then bs ! (q - ub) else a_mem w q)"
  have "mbcopy a ub (length bs) w = Ret (w\<lparr>a_mem := m\<rparr>)"
    using assms by (simp add: mbcopy_def read_mem_def write_mem_def m_def)
  moreover have "map m [ub..<ub + length bs] = bs"
    unfolding m_def by (rule map_written)
  ultimately show ?thesis by (simp add: quiet_def)
qed

text \<open>Waiting for a request and fetching its result: the bytes are in the request's buffer.\<close>

lemma fetch_runs:
  assumes R: "rep w c B (xs @ p # ys) [] us fs" and V: "lively w c (xs @ p # ys) []"
    and e: "c p = Some e" "0 \<le> aio_offset (ce_myaiocb e)"
    and bs: "bs = file_part (disk (a_os w) (ce_fd e)) (ce_myaiocb e)"
  shows "runs (obind (wait_for K p w) (\<lambda>(ret, w). aio_return K p w)) (\<lambda>(n, u).
    n = int (length bs) \<and> quiet w u \<and> map (a_mem u) [aio_buf (ce_myaiocb e)..<aio_buf (ce_myaiocb e) + length bs] = bs \<and>
    reqs (a_os u) = sent (c(p := None)) (xs @ ys) \<and> kinds (c(p := None)) (xs @ ys) [] \<and>
    disk (a_os u) = disk (a_os w))"
proof -
  have dis: "p \<notin> set (xs @ ys)" and rdy: "buffered c (a_blocks w) p"
    using R by (auto simp: rep_def linked_def)
  have k: "kinds c (xs @ p # ys) []" and q: "reqs (a_os w) = sent c (xs @ p # ys)"
    using V by (simp_all add: lively_def)
  have qp: "reqs (a_os w) p = Some (ce_myaiocb e)"
    using q e(1) by (simp add: sent_def)
  have fd: "aio_fildes (ce_myaiocb e) = ce_fd e" "aio_lio_opcode (ce_myaiocb e) = 0"
    using k e(1) by (auto simp: kinds_def)
  have ro: "reads_only (reqs (a_os w))"
    using reads_only_lively [OF V] by simp
  obtain v where v: "aio_wait K p w = Some (0, v)" "quiet w v" "a_mem v = a_mem w" "same_io w v" "fin (a_os v) p"
    using aio_wait_ends [OF qp] by auto
  have Rv: "rep v c B (xs @ p # ys) [] us fs" using R quiet_rep [OF v(2)] by simp
  have qv: "reqs (a_os v) p = Some (ce_myaiocb e)" "reqs (a_os v) = reqs (a_os w)"
    "disk (a_os v) = disk (a_os w)"
    using qp v(4) ro by (simp_all add: same_io_def)
  have rv: "buffered c (a_blocks v) p" using rdy v(2) by (simp add: quiet_def)
  obtain d where d: "deref p w = Ret d" using rep_ent [OF R e(1)] by metis
  have "wait_for K p w = Ret (0, v)"
    using d v(1) by (simp add: wait_for_def ends_def)
  moreover have "runs (aio_return K p v) (\<lambda>(n, u).
    n = int (length bs) \<and> quiet w u \<and> map (a_mem u) [aio_buf (ce_myaiocb e)..<aio_buf (ce_myaiocb e) + length bs] = bs \<and>
    reqs (a_os u) = sent (c(p := None)) (xs @ ys) \<and> kinds (c(p := None)) (xs @ ys) [] \<and>
    disk (a_os u) = disk (a_os w))"
    using sent_remove [OF dis, of c] kinds_remove [OF k, of p "xs @ ys" "[]"] dis qv q ro v(2,5) fd e(2)
    by (intro runs_mono [OF aio_return_runs [OF Rv e(1) qv(1) disjI1 [OF rv] fin_over [OF v(5)]]])
      (auto simp: bs Let_def elim: quiet_trans)
  ultimately show ?thesis by simp
qed

lemma take_copy_runs:
  assumes R: "rep w c B (xs @ p # ys) [] us fs" and V: "lively w c (xs @ p # ys) []"
    and e: "c p = Some e" "0 \<le> aio_offset (ce_myaiocb e)"
    and ub: "(ub, l) \<in> B" "unat (aio_nbytes (ce_myaiocb e)) \<le> l"
    and bs: "bs = file_part (disk (a_os w) (ce_fd e)) (ce_myaiocb e)"
  shows "runs (take_copy K p ub w) (\<lambda>(n, t). n = int (length bs) \<and> quiet w t \<and>
    map (a_mem t) [ub..<ub + length bs] = bs \<and> reqs (a_os t) = sent (c(p := None)) (xs @ ys) \<and>
    kinds (c(p := None)) (xs @ ys) [] \<and> disk (a_os t) = disk (a_os w))" (is "runs _ ?Q")
  unfolding take_copy_def
proof (rule runs_seq [OF fetch_runs [OF R V e bs]], clarify)
  fix u
  assume u: "quiet w u" "map (a_mem u) [aio_buf (ce_myaiocb e)..<aio_buf (ce_myaiocb e) + length bs] = bs"
    "reqs (a_os u) = sent (c(p := None)) (xs @ ys)" "kinds (c(p := None)) (xs @ ys) []" "disk (a_os u) = disk (a_os w)"
  obtain d where d: "a_ents w p = Some d" "pay d = e" "deref p w = Ret d" "p \<noteq> 0"
    by (rule rep_ent [OF R e(1)])
  have rdy: "buffered c (a_blocks w) p" using R by (auto simp: rep_def linked_def)
  have dir: "ce_direct d = 0" "ce_myaiocb d = ce_myaiocb e"
    using V e d(2) by (auto simp: lively_def kinds_def)
  have len: "length bs \<le> unat (aio_nbytes (ce_myaiocb e))"
    by (simp add: bs file_part_def)
  have "in_block (aio_buf (ce_myaiocb e)) (length bs) u"
    using buffered_in_block [of c u p e] rdy u(1) e(1) len by (simp add: quiet_def)
  moreover have "B \<subseteq> set (a_blocks w)" using own_basics(5) [OF rep_own [OF R]] .
  then have "in_block ub (length bs) u"
    using ub len u(1) by (intro in_block_mem [of ub l]) (auto simp: quiet_def)
  ultimately have cp: "runs (mbcopy (aio_buf (ce_myaiocb e)) ub (length bs) u) (\<lambda>t. quiet u t \<and> a_os t = a_os u \<and>
      map (a_mem t) [ub..<ub + length bs] = bs)"
    using u(2) by (intro mbcopy_runs)
  have cp': "runs (if 0 < int (length bs) then mbcopy (aio_buf (ce_myaiocb d)) ub (nat (int (length bs))) u else Ret u)
      (\<lambda>t. quiet w t \<and> a_os t = a_os u \<and> map (a_mem t) [ub..<ub + length bs] = bs)"
  proof (cases "bs = []")
    case True
    then show ?thesis using u(1) by simp
  next
    case False
    then show ?thesis
      using runs_mono [OF cp, of "\<lambda>t. quiet w t \<and> a_os t = a_os u \<and> map (a_mem t) [ub..<ub + length bs] = bs"]
        quiet_trans [OF u(1)] dir(2) by simp
  qed
  have du: "deref p u = Ret d" using d(3) quiet_deref [OF u(1)] by simp
  have s: "set_ent p (\<lambda>e. e\<lparr>ce_direct := 0\<rparr>) t = Ret t" if "quiet w t" for t :: "'os async"
  proof -
    have "a_ents t p = Some d" "d\<lparr>ce_direct := 0\<rparr> = d"
      using that d dir by (simp_all add: quiet_def)
    then show ?thesis using d(4) by (simp add: set_ent_def deref_def fun_upd_idem)
  qed
  show "runs (obind (deref p u) (\<lambda>e. obind (if 0 < int (length bs)
      then mbcopy (aio_buf (ce_myaiocb e)) ub (nat (int (length bs))) u else Ret u) (\<lambda>w.
      obind (set_ent p (\<lambda>e. e\<lparr>ce_direct := 0\<rparr>) w) (\<lambda>w. Ret (int (length bs), w))))) ?Q"
    unfolding du obind.simps(1) by (rule runs_seq [OF cp']) (use u s in simp)
qed

lemma take_data_runs:
  assumes R: "rep w c B (xs @ p # ys) [] us fs" and V: "lively w c (xs @ p # ys) []"
    and e: "c p = Some e" "0 \<le> aio_offset (ce_myaiocb e)"
    and ub: "(ub, l) \<in> B" "unat (aio_nbytes (ce_myaiocb e)) \<le> l" and nl: "xs = [] \<or> ys \<noteq> []"
    and bs: "bs = file_part (disk (a_os w) (ce_fd e)) (ce_myaiocb e)"
  shows "runs (take_data K p ub w) (\<lambda>(n, w'). n = int (length bs) \<and> map (a_mem w') [ub..<ub + length bs] = bs \<and>
    rep w' (c(p := None)) B (xs @ ys) [] us fs \<and> lively w' (c(p := None)) (xs @ ys) [] \<and>
    disk (a_os w') = disk (a_os w) \<and> a_max_depth w' = a_max_depth w)" (is "runs _ ?Q")
  unfolding take_data_copy
proof (rule runs_seq [OF take_copy_runs [OF R V e ub bs]], clarify)
  fix t
  assume t: "quiet w t" "map (a_mem t) [ub..<ub + length bs] = bs" "reqs (a_os t) = sent (c(p := None)) (xs @ ys)"
    "kinds (c(p := None)) (xs @ ys) []" "disk (a_os t) = disk (a_os w)"
  have "rep t c B (xs @ p # ys) [] us fs" using R quiet_rep [OF t(1)] by simp
  note takeoff_rep [OF this e(1) nl]
  moreover have "ce_direct e = 0" using V e(1) by (auto simp: lively_def kinds_def)
  ultimately have "runs (takeoff_cache p t) (\<lambda>w'. ?Q (int (length bs), w'))"
    by (elim runs_mono) (use t in \<open>auto simp: frame_def lively_def quiet_def\<close>)
  then show "runs (obind (takeoff_cache p t) (\<lambda>w. Ret (int (length bs), w))) ?Q" by simp
qed

section \<open>The read\<close>

lemma submit_read_once:
  assumes "runs (obind (aio_read K ce w) (\<lambda>(ret, w). if ret = 0 then g w else Hang)) Q"
  shows "runs (obind (finishes (submit_read K ce w)) g) Q"
proof -
  from assms obtain v where "aio_read K ce w = Ret (0, v)" "runs (g v) Q"
    by (cases "aio_read K ce w") (auto split: if_splits)
  then show ?thesis
    by (subst submit_read.simps) (simp add: finishes_def)
qed

lemma new_request_loop:
  assumes R: "rep w c B ps qs us fs" and V: "lively w c ps qs" and K: "room K sz"
    and k: "\<And>ce x w'. ce \<notin> set (ps @ qs @ us @ fs) \<Longrightarrow> ce \<noteq> 0 \<Longrightarrow> same_req (fresh_ent K ce fd offset sz 0) x \<Longrightarrow>
      rep w' (c(ce \<mapsto> x)) B (ps @ [ce]) qs us fs \<Longrightarrow> lively w' (c(ce \<mapsto> x)) (ps @ [ce]) qs \<Longrightarrow>
      a_mem w' = a_mem w \<Longrightarrow> a_max_depth w' = a_max_depth w \<Longrightarrow>
      (reads_only (reqs (a_os w)) \<Longrightarrow> disk (a_os w') = disk (a_os w)) \<Longrightarrow> runs (g ce w') Q"
  shows "runs (obind (alloc_cache K fd offset sz 0 w) (\<lambda>(ce, w). obind (mark_ent m ce w) (\<lambda>w.
    obind (finishes (submit_read K ce w)) (g ce)))) Q"
proof -
  have "runs (obind (alloc_cache K fd offset sz 0 w) (\<lambda>(ce, w). obind (mark_ent m ce w) (\<lambda>w.
    obind (aio_read K ce w) (\<lambda>(ret, w). if ret = 0 then g ce w else Hang)))) Q"
    by (rule new_request [OF R V K, where f = "\<lambda>ce (ret, w). if ret = 0 then g ce w else Hang"]) (auto intro!: k)
  then show ?thesis
    unfolding runs_obind [of "alloc_cache K fd offset sz 0 w"] split_beta runs_obind [of "mark_ent m _ _"]
    by (elim runs_mono) (rule submit_read_once, simp add: split_beta)
qed

text \<open>The state between two reads.\<close>

definition reading :: "'os async \<Rightarrow> (ptr \<times> nat) set \<Rightarrow> ptr list \<Rightarrow> bool" where
  "reading w B us \<longleftrightarrow> (\<exists>c ps. rep w c B ps [] us [] \<and> lively w c ps [])"

lemma readingI: "rep w c B ps [] us [] \<Longrightarrow> lively w c ps [] \<Longrightarrow> reading w B us"
  unfolding reading_def by blast

lemma extended_reading:
  assumes "extended w c B ps [] us [] w'" "lively w c ps []"
  shows "reading w' B us" "a_mem w' = a_mem w" "disk (a_os w') = disk (a_os w)"
  using assms reads_only_lively [OF assms(2)] unfolding extended_def reading_def by blast+

lemma async_read_runs:
  assumes R: "rep w c B ps [] us []" and V: "lively w c ps []" and K: "room K sz"
    and fd: "c_int fd = fd" and off: "0 \<le> offset" and ub: "(ub, l) \<in> B" "nat sz \<le> l" and sz: "sz < 2 ^ 31"
    and nl: "1 < length ps \<Longrightarrow> lookup c fd offset sz ps \<noteq> last ps"
    and z: "lookup c fd offset sz ps = 0 \<Longrightarrow> on_zero c ps"
    and bs: "bs = take (nat sz) (drop (nat offset) (disk (a_os w) fd))"
  shows "runs (async_read K fd ub offset sz stride mx depth w) (\<lambda>(n, w'). n = int (length bs) \<and>
    map (a_mem w') [ub..<ub + length bs] = bs \<and> disk (a_os w') = disk (a_os w) \<and> reading w' B us)"
    (is "runs _ ?Q")
proof -
  have nb: "unat (word_of_int sz :: size_t) = nat sz"
    using K by (subst unat_of_int64) (simp_all add: room_def)
  have int: "c_int (int (length bs)) = int (length bs)"
    using sz K by (simp add: bs room_def)
  have ro: "reads_only (reqs (a_os w))" using reads_only_lively [OF V] by simp
  have part: "file_part (D fd) \<lparr>aio_fildes = a, aio_offset = offset, aio_buf = b, aio_nbytes = word_of_int sz, aio_lio_opcode = k\<rparr>
      = take (nat sz) (drop (nat offset) (D fd))" for a b k D
    by (simp add: file_part_def nb)
  show ?thesis
  proof (cases "lookup c fd offset sz ps = 0")
    case False
    define p where "p = lookup c fd offset sz ps"
    from lookup_in [OF False] have p: "p \<in> set ps" "wanted c fd offset sz p"
      by (simp_all add: p_def)
    then obtain xs ys where ps: "ps = xs @ p # ys" by (meson split_list)
    from p obtain e where e: "c p = Some e" "ce_fd e = fd" "aio_offset (ce_myaiocb e) = offset"
      "aio_nbytes (ce_myaiocb e) = word_of_int sz"
      by (auto simp: wanted_def split: option.splits)
    have "1 < length ps \<Longrightarrow> p \<noteq> last ps"
      using nl by (simp add: p_def)
    then have nl': "xs = [] \<or> ys \<noteq> []"
      by (auto simp: ps)
    have "file_part (disk (a_os w) (ce_fd e)) (ce_myaiocb e) = bs"
      using e nb by (simp add: file_part_def bs)
    note take_data_runs [OF R [unfolded ps] V [unfolded ps] e(1) _ ub(1) _ nl' this [symmetric]]
    then have T: "runs (take_data K p ub w) (\<lambda>(n, w'). n = int (length bs) \<and> map (a_mem w') [ub..<ub + length bs] = bs \<and>
      rep w' (c(p := None)) B (xs @ ys) [] us [] \<and> lively w' (c(p := None)) (xs @ ys) [] \<and>
      disk (a_os w') = disk (a_os w) \<and> a_max_depth w' = a_max_depth w)"
      using e off ub(2) nb by simp
    have "runs (obind (take_data K p ub w) (\<lambda>(retval, w). obind (read_ahead K False fd offset sz stride mx depth w)
        (\<lambda>w. Ret (c_int retval, w)))) ?Q"
    proof (rule runs_seq [OF T], clarify)
      fix v
      assume v: "map (a_mem v) [ub..<ub + length bs] = bs" "rep v (c(p := None)) B (xs @ ys) [] us []"
        "lively v (c(p := None)) (xs @ ys) []" "disk (a_os v) = disk (a_os w)"
      have "reads_only (reqs (a_os v))" using reads_only_lively [OF v(3)] by simp
      then show "runs (obind (read_ahead K False fd offset sz stride mx depth v) (\<lambda>w. Ret (c_int (int (length bs)), w))) ?Q"
        by (intro runs_seq [OF read_ahead_runs [OF v(2,3) K]])
          (use extended_reading [OF _ v(3)] v(1,4) int in simp)
    qed
    then show ?thesis
      using False incache_rep [OF R] by (simp add: async_read_def p_def)
  next
    case True
    have rest: "runs (obind (read_ahead K False fd offset sz stride mx depth u) (\<lambda>w.
        obind (take_data K ce ub w) (\<lambda>(retval, w). Ret (c_int retval, w)))) ?Q"
      if u: "same_req (fresh_ent K ce fd offset sz 0) x" "rep u (d(ce \<mapsto> x)) B [ce] [] us []" "lively u (d(ce \<mapsto> x)) [ce] []"
        "disk (a_os u) = disk (a_os w)" for ce x u d
    proof (rule runs_seq [OF read_ahead_runs [OF u(2,3) K]])
      fix t
      assume "extended u (d(ce \<mapsto> x)) B [ce] [] us [] t"
      then obtain c' zs where t: "rep t c' B ([] @ ce # zs) [] us []" "lively t c' ([] @ ce # zs) []"
        "c' ce = Some x" "disk (a_os t) = disk (a_os u)"
        using reads_only_lively [OF u(3)] by (auto simp: extended_def)
      have x: "ce_myaiocb x = \<lparr>aio_fildes = fd, aio_offset = offset, aio_buf = page_align K (ce + 1),
          aio_nbytes = word_of_int sz, aio_lio_opcode = 0\<rparr>" "ce_fd x = fd"
        using u(1) fd by (simp_all add: same_req_def fresh_ent_def)
      have "runs (take_data K ce ub t) (\<lambda>(n, w'). n = int (length bs) \<and> map (a_mem w') [ub..<ub + length bs] = bs \<and>
        rep w' (c'(ce := None)) B ([] @ zs) [] us [] \<and> lively w' (c'(ce := None)) ([] @ zs) [] \<and>
        disk (a_os w') = disk (a_os t) \<and> a_max_depth w' = a_max_depth t)"
        using x off ub nb t(4) u(4) part
        by (intro take_data_runs [OF t(1,2,3)]) (simp_all add: bs)
      then show "runs (obind (take_data K ce ub t) (\<lambda>(retval, w). Ret (c_int retval, w))) ?Q"
        using int t(4) u(4) by (elim runs_seq) (auto intro: readingI)
    qed
    have "runs (obind (del_cache K w) (\<lambda>w. obind (alloc_cache K fd offset sz 0 w) (\<lambda>(first_ce, w).
          obind (mark_ent False first_ce w) (\<lambda>w. obind (finishes (submit_read K first_ce w)) (\<lambda>w.
          obind (read_ahead K False fd offset sz stride mx depth w) (\<lambda>w.
          obind (take_data K first_ce ub w) (\<lambda>(retval, w). Ret (c_int retval, w)))))))) ?Q"
    proof (rule runs_seq [OF del_cache_runs [OF R V z [OF True]]], elim conjE)
      fix v
      assume v: "rep v (without c ps) B [] [] us []" "lively v (without c ps) [] []"
        "reads_only (reqs (a_os w)) \<longrightarrow> disk (a_os v) = disk (a_os w)"
      have "reads_only (reqs (a_os v))" using reads_only_lively [OF v(2)] by simp
      then show "runs (obind (alloc_cache K fd offset sz 0 v) (\<lambda>(first_ce, w).
          obind (mark_ent False first_ce w) (\<lambda>w. obind (finishes (submit_read K first_ce w)) (\<lambda>w.
          obind (read_ahead K False fd offset sz stride mx depth w) (\<lambda>w.
          obind (take_data K first_ce ub w) (\<lambda>(retval, w). Ret (c_int retval, w))))))) ?Q"
        using v(3) ro by (intro new_request_loop [OF v(1,2) K] rest) auto
    qed
    then show ?thesis
      using True incache_rep [OF R] by (simp add: async_read_def mark_ent_def)
  qed
qed

end

end
