(* ===== verification/Libasync_Tail.thy ===== *)
theory Libasync_Tail
  imports Libasync_Read
begin

text \<open>
  A fault of \<open>libasync.c\<close>. Taking off the last entry, when it is not also the first, leaves
  \<open>gc->tail\<close> pointing to the entry that is freed, and the next request that is put into the cache
  is linked behind it.
\<close>

lemma takeoff_last:
  assumes R: "rep w c B ((xs @ [x]) @ [ce]) qs us fs" and e: "c ce = Some e" "ce_direct e = 0"
  shows "\<exists>w'. takeoff_cache ce w = Ret w' \<and> a_gc w' = Some ((gc_of (xs @ [x]) qs us)\<lparr>gc_tail := ce\<rparr>) \<and>
    chain (a_ents w') (xs @ [x]) 0 \<and> pays (a_ents w') = c(ce := None) \<and> a_next w' = a_next w \<and>
    a_max_depth w' = a_max_depth w"
proof -
  obtain d where d: "a_ents w ce = Some d" "pay d = e" "deref ce w = Ret d" "ce \<noteq> 0"
    by (rule rep_ent [OF R e(1)])
  have dl: "ce_forward d = 0" "ce_back d = x"
    using R d(1) by (auto simp: rep_def linked_def)
  obtain b where b: "a_ents w x = Some b" "x \<noteq> 0"
    using rep_in [OF R, of x] by auto
  have D: "x \<noteq> ce" "x \<notin> set xs" "ce \<notin> set xs" "first 0 ((xs @ [x]) @ [ce]) \<noteq> ce"
    using R first_in [of x xs] by (auto simp: rep_def linked_def)
  have "find_loop ce (first 0 ((xs @ [x]) @ ce # [])) w = Some (Ret True)"
    using R rep_not_0 [OF R] by (intro find_loop_found) (auto simp: rep_def linked_def dest: seg_chain)
  then have f: "finishes (find_loop ce (first 0 ((xs @ [x]) @ [ce])) w) = Ret True"
    by (simp add: finishes_def)
  have g: "a_gc w = Some (gc_of ((xs @ [x]) @ [ce]) qs us)" "pays (a_ents w) = c" "seg (a_ents w) 0 ((xs @ [x]) @ [ce]) 0"
    using R by (simp_all add: rep_def linked_def)
  let ?h = "(a_ents w)(x \<mapsto> b\<lparr>ce_forward := 0\<rparr>)"
  have u: "unlink_ent ce w = Ret (w\<lparr>a_ents := ?h\<rparr>)"
    using d dl b by (simp add: unlink_ent_def set_ent_def deref_def)
  have "pays ?h = c"
    using g(2) b by (auto simp: pays_def)
  then have fr: "free_ent ce (w\<lparr>a_ents := ?h, a_gc := G\<rparr>) =
      Ret (w\<lparr>a_ents := ?h, a_gc := G, a_ents := ?h(ce := None), a_blocks := free_of d (a_blocks w)\<rparr>)" for G
    using free_ent_Ret [of "w\<lparr>a_ents := ?h, a_gc := G\<rparr>" ce d "a_next w" B] d D(1) rep_own [OF R] by simp
  have "chain (?h(ce := None)) (xs @ [x]) 0"
    using g(3) D(1-3) b by (auto dest: seg_chain)
  moreover have "pays (?h(ce := None)) = c(ce := None)"
    using \<open>pays ?h = c\<close> by simp
  moreover have "ce_direct d = 0" using d(2) e(2) by auto
  ultimately show ?thesis
    using g(1) D d f u fr
    by (simp add: takeoff_cache_def get_gc_def upd_gc_def drop_ent_def deref_def Let_def gc_of_def)
qed

lemma alloc_dangling:
  assumes "a_gc w = Some g" "gc_tail g \<noteq> 0" "a_ents w (gc_tail g) = None" "a_next w \<noteq> gc_tail g"
    "a_next w \<noteq> 0" "room K sz"
  shows "alloc_cache K fd offset sz op w = Crash BadHandle"
proof -
  have "page_align K (Suc (a_next w)) \<noteq> 0"
    using page_align_bounds(1) [of K "Suc (a_next w)"] assms(6) by (simp add: room_def)
  then show ?thesis
    using assms by (simp add: alloc_cache_def malloc_ent_def malloc_block_def Let_def get_gc_def set_ent_def
        deref_def room_def)
qed

text \<open>The read-ahead after such a hit: the first request that is not yet in the cache crashes.\<close>

lemma read_ahead_dangling:
  assumes g: "a_gc w = Some g" "gc_tail g \<noteq> 0" "a_ents w (gc_tail g) = None" "a_next w \<noteq> gc_tail g" "a_next w \<noteq> 0"
    and ps: "gc_head g = first 0 ps" "gc_count g = int (length ps)" "chain (a_ents w) ps 0" "0 \<notin> set ps"
    and K: "room K sz" and s: "stride \<noteq> 0" "0 \<le> offset" "c_llong (offset + sz) \<le> mx"
    and d: "0 < depth" "depth < a_max_depth w - 1"
    and i: "i = (if 1 < length ps then depth - 1 else 0)"
    and r: "r = c_llong (offset + c_llong ((i + 1) * c_llong (stride * sz)))" "0 \<le> r" "c_llong (r + sz) \<le> mx"
      "lookup (pays (a_ents w)) fd r sz ps = 0"
  shows "read_ahead K m fd offset sz stride mx depth w = Crash BadHandle"
proof -
  have "incache fd r sz w = Ret 0"
    using incache_loop_find [OF ps(3) refl ps(4), of fd r sz] g(1) ps(1) r(4)
    by (simp add: incache_def get_gc_def finishes_def)
  moreover have "alloc_cache K fd r sz 0 w = Crash BadHandle"
    by (rule alloc_dangling [OF g K])
  moreover have "i < depth" using i d(1) by simp
  ultimately have "ahead_loop K m fd offset sz stride mx depth i w = Crash BadHandle"
    using r(2,3) by (subst ahead_loop.simps) (simp add: r(1) [symmetric] Let_def)
  moreover have "(1 < gc_count g) = (1 < length ps)" using ps(2) by simp
  ultimately show ?thesis
    using g(1) s d i by (simp add: read_ahead_def get_gc_def Let_def)
qed

section \<open>The last entry\<close>

context aio_files begin

lemma async_read_last_hit:
  assumes R: "rep w c B ps [] us []" and V: "lively w c ps []" and K: "room K sz"
    and off: "0 \<le> offset" and ub: "(ub, l) \<in> B" "nat sz \<le> l"
    and hit: "1 < length ps" "lookup c fd offset sz ps = last ps"
    and s: "stride \<noteq> 0" "c_llong (offset + sz) \<le> mx" "0 < depth" "depth < a_max_depth w - 1"
    and r: "r = c_llong (offset + c_llong ((if 2 < length ps then depth else 1) * c_llong (stride * sz)))"
      "0 \<le> r" "c_llong (r + sz) \<le> mx" "lookup c fd r sz (butlast ps) = 0"
  shows "async_read K fd ub offset sz stride mx depth w = Crash BadHandle"
proof -
  define p where "p = last ps"
  obtain zs where zs: "ps = zs @ [p]" "zs \<noteq> []"
    using hit(1) by (cases ps rule: rev_cases) (auto simp: p_def)
  then obtain xs x where ps: "ps = (xs @ [x]) @ [p]" by (metis rev_exhaust)
  then have bl: "butlast ps = xs @ [x]" by (simp only: butlast_snoc)
  have p0: "p \<noteq> 0" using rep_not_0 [OF R] ps by auto
  then have p: "wanted c fd offset sz p"
    using lookup_in(2) [of c fd offset sz ps] hit(2) by (simp add: p_def)
  then obtain e where e: "c p = Some e" "ce_fd e = fd" "aio_offset (ce_myaiocb e) = offset"
    "aio_nbytes (ce_myaiocb e) = word_of_int sz"
    by (auto simp: wanted_def split: option.splits)
  have dir: "ce_direct e = 0" using V e(1) ps by (auto simp: lively_def kinds_def)
  have nb: "unat (word_of_int sz :: size_t) = nat sz"
    using K by (subst unat_of_int64) (simp_all add: room_def)
  obtain n t where t: "take_copy K p ub w = Ret (n, t)" "quiet w t"
    using take_copy_runs [OF R [unfolded ps] V [unfolded ps] e(1) _ ub(1) _ refl] e off ub(2) nb
    by (auto simp: runs_def)
  have Rt: "rep t c B ps [] us []" using R quiet_rep [OF t(2)] by simp
  obtain v where v: "takeoff_cache p t = Ret v" "a_gc v = Some ((gc_of (xs @ [x]) [] us)\<lparr>gc_tail := p\<rparr>)"
    "chain (a_ents v) (xs @ [x]) 0" "pays (a_ents v) = c(p := None)" "a_next v = a_next t" "a_max_depth v = a_max_depth t"
    using takeoff_last [OF Rt [unfolded ps] e(1) dir] by auto
  have "p < a_next t" using own_basics(2) [OF rep_own [OF Rt] e(1)] by simp
  moreover have "a_ents v p = None"
    using v(4) by (metis fun_upd_same option.map_disc_iff pays_def)
  moreover have "p \<notin> set (xs @ [x])" using R ps by (auto simp: rep_def linked_def)
  then have "find (wanted (c(p := None)) fd r sz) (xs @ [x]) = find (wanted c fd r sz) (xs @ [x])"
    by (intro find_cong) (auto simp: wanted_def)
  then have "lookup (pays (a_ents v)) fd r sz (xs @ [x]) = 0"
    using r(4) bl v(4) by (simp add: lookup_def)
  moreover have "0 \<notin> set (xs @ [x])" using rep_not_0 [OF R] ps by auto
  ultimately have "read_ahead K False fd offset sz stride mx depth v = Crash BadHandle"
    using v p0 K s off r(1-3) t(2) ps
    by (intro read_ahead_dangling [where ps = "xs @ [x]" and i = "if 1 < length (xs @ [x]) then depth - 1 else 0" and r = r])
      (auto simp: gc_of_def quiet_def)
  then show ?thesis
    using incache_rep [OF R] hit(2) p0 t(1) v(1)
    by (simp add: async_read_def take_data_copy p_def [symmetric])
qed

end

end
