(* ===== verification/Libasync_Write.thy ===== *)
theory Libasync_Write
  imports Libasync_Read
begin

text \<open>
  The write queue and the lent buffers of \<open>libasync.c\<close>: writes are submitted with the caller's
  bytes, wait in the order of their submission, and are freed when they have ended.
\<close>

section \<open>The write queue\<close>

lemma put_queue_rep:
  assumes R: "rep w c B ps qs us (ce # fs)" and e: "c ce = Some e" "ce_direct e = 0"
  shows "runs (async_put_on_write_queue ce w) (\<lambda>w'. frame w w' \<and> a_blocks w' = a_blocks w \<and>
    rep w' c B ps (qs @ [ce]) us fs)"
proof -
  obtain d where d: "a_ents w ce = Some d" "pay d = e" "deref ce w = Ret d" "ce \<noteq> 0"
    by (rule rep_ent [OF R e(1)])
  define x where "x = d\<lparr>ce_forward := 0, ce_back := final 0 qs\<rparr>"
  have px: "pay x = e" using d(2) by (simp add: x_def)
  let ?h = "(a_ents w)(ce \<mapsto> x)"
  have g: "a_gc w = Some (gc_of ps qs us)" "pays (a_ents w) = c"
    using R by (simp_all add: rep_def linked_def)
  have ce: "ce \<notin> set (ps @ qs @ us @ fs)" using R by (auto simp: rep_def linked_def)
  have cs: "c(ce \<mapsto> e) = c" using e(1) by auto
  note step = async_put_on_write_queue_def get_gc_def upd_gc_def set_ent_def deref_def gc_of_def frame_def
  show ?thesis
  proof (cases "qs = []")
    case True
    have "linked (Some (gc_of ps (qs @ [ce]) us)) ?h (a_blocks w) (a_next w) c B ps (qs @ [ce]) us fs"
      using R ce e True px cs by (auto simp: rep_def linked_def x_def)
    then show ?thesis
      using g d True by (simp add: step rep_def x_def)
  next
    case False
    define t where "t = final 0 qs"
    have t: "t \<in> set qs"
      using False final_in [of 0 qs] final_0_iff [of qs] rep_not_0 [OF R] by (auto simp: t_def)
    then obtain b where b: "a_ents w t = Some b" "deref t w = Ret b" "t \<noteq> 0"
      using rep_in [OF R, of t thesis] by auto
    from t ce have tc: "t \<noteq> ce" by auto
    have D: "distinct qs" "t \<notin> set (ps @ us)" using R t by (auto simp: rep_def linked_def)
    have "chain ?h qs 0" using R ce by (simp add: rep_def linked_def)
    then have "chain (?h(t \<mapsto> b\<lparr>ce_forward := ce\<rparr>)) qs ce"
      using chain_link_last [of ?h qs 0 0 b ce] False b tc D(1) by (simp add: t_def)
    moreover have "c t = Some (pay b)" using g(2) b(1) by (auto simp: pays_def)
    ultimately have "linked (Some (gc_of ps (qs @ [ce]) us)) (?h(t \<mapsto> b\<lparr>ce_forward := ce\<rparr>)) (a_blocks w) (a_next w)
        c B ps (qs @ [ce]) us fs"
      using R ce e px cs tc D(2) by (auto simp: rep_def linked_def x_def fun_upd_idem)
    then show ?thesis
      using g d b(1,3) tc first_0_iff [of qs] rep_not_0 [OF R] False
      by (simp add: step rep_def x_def t_def [symmetric] first_hd add.commute [of _ 1])
  qed
qed

text \<open>The state in which \<open>async_wait_for_write\<close> waits: the first entry is off the queue.\<close>

definition popped :: "ptr \<Rightarrow> cache_ent \<Rightarrow> ptr list \<Rightarrow> ptr list \<Rightarrow> ptr list \<Rightarrow> 'os async \<Rightarrow> 'os async" where
  "popped q d ps qs us w = w\<lparr>a_ents := (a_ents w)(q \<mapsto> d\<lparr>ce_forward := 0\<rparr>), a_gc := Some (gc_of ps qs us)\<rparr>"

lemma popped_rep:
  assumes R: "rep w c B ps (q # qs) us fs" and d: "a_ents w q = Some d"
  shows "rep (popped q d ps qs us w) c B ps qs us (q # fs)"
proof -
  have "c q = Some (pay d)" using R d by (auto simp: rep_def linked_def pays_def)
  then have "c(q \<mapsto> pay d) = c" by auto
  then show ?thesis
    using R d by (auto simp: popped_def rep_def linked_def)
qed

lemma wait_for_write_pops:
  assumes R: "rep w c B ps (q # qs) us fs" and d: "a_ents w q = Some d" "q \<noteq> 0"
  shows "async_wait_for_write K w =
    obind (wait_for K q (popped q d ps qs us w)) (\<lambda>(ret, w). if ret \<noteq> 0 then Exit 181
      else obind (aio_return K q w) (\<lambda>(retval, w). obind (deref q w) (\<lambda>e.
        if ce_direct e = 0 then free_ent q w else Ret w)))"
proof -
  have f: "ce_forward d = first 0 qs" using R d by (auto simp: rep_def linked_def)
  have "q \<notin> set qs" using R by (auto simp: rep_def linked_def)
  then have t: "q = final q qs \<longleftrightarrow> qs = []"
    using final_in [of q qs] by (cases qs rule: rev_cases) auto
  have "qs \<noteq> [] \<Longrightarrow> final q qs = final 0 qs" by (cases qs) auto
  moreover have "a_gc w = Some (gc_of ps (q # qs) us)" using R by (simp add: rep_def linked_def)
  ultimately show ?thesis
    using d f t by (auto simp: async_wait_for_write_def get_gc_def gc_of_def upd_gc_def set_ent_def deref_def
        popped_def Let_def)
qed

section \<open>New writes\<close>

text \<open>The part of \<open>allocate_write_buffer\<close> after the wait, for a write whose bytes are copied.\<close>

definition new_write :: "'os aio \<Rightarrow> int \<Rightarrow> int \<Rightarrow> int \<Rightarrow> 'os async \<Rightarrow> (ptr \<times> 'os async) outcome" where
  "new_write K fd offset sz w =
     (case malloc_ent K w of (ce, w) \<Rightarrow>
        if ce = 0 then Exit 179
        else case malloc_block K (sz + int (ak_page K)) w of (real_address, w) \<Rightarrow>
          if page_align K real_address = 0 then Exit 180
          else obind (set_ent ce (\<lambda>e. e\<lparr>
                 ce_myaiocb := \<lparr>aio_fildes = c_int fd, aio_offset = offset, aio_buf = page_align K real_address,
                                aio_nbytes = word_of_int sz, aio_lio_opcode = 1\<rparr>,
                 ce_real_address := real_address, ce_fd := c_int fd\<rparr>) w) (\<lambda>w.
               Ret (ce, w)))"

lemma allocate_write_buffer_split:
  assumes "get_gc w = Ret g" "fd \<noteq> 0"
  shows "allocate_write_buffer K fd offset sz 1 depth 0 0 0 w =
    obind (if depth < gc_w_count g then async_wait_for_write K w else Ret w) (new_write K fd offset sz)"
  using assms by (simp add: allocate_write_buffer_def new_write_def [abs_def] split_beta cong: if_cong)

lemma new_write_rep:
  assumes R: "rep w c B ps qs us []" and K: "room K sz"
  shows "runs (new_write K fd offset sz w) (\<lambda>(ce, w'). ce = a_next w \<and> frame w w' \<and> ce \<notin> set (ps @ qs @ us) \<and> ce \<noteq> 0 \<and>
    buffered (c(ce \<mapsto> fresh_ent K ce fd offset sz 1)) (a_blocks w') ce \<and>
    rep w' (c(ce \<mapsto> fresh_ent K ce fd offset sz 1)) B ps qs us [ce])"
proof -
  define n where "n = a_next w"
  define x where "x = fresh_ent K n fd offset sz 1"
  define k where "k = unat (word_of_int (sz + int (ak_page K)) :: size_t)"
  note O = rep_own [OF R]
  have n: "n \<notin> dom c" "n \<noteq> 0"
    using own_None [OF O, of n] own_basics(1) [OF O] by (auto simp: n_def)
  then have nn: "n \<notin> set (ps @ qs @ us)" using rep_dom [OF R] by simp
  have al: "page_align K (Suc n) \<noteq> 0"
    using page_align_bounds(1) [of K "Suc n"] K by (simp add: room_def)
  have px: "pay x = x" by (simp add: x_def pay_def fresh_ent_def blank_ent_def)
  let ?h = "(a_ents w)(n \<mapsto> x)"
  let ?bl = "(n + 1, k) # a_blocks w"
  have own': "own (c(n \<mapsto> x)) ?bl (n + 1 + k + 1) B"
    using own_alloc [OF O] by (simp add: n_def x_def fresh_ent_def)
  have rdy: "buffered (c(n \<mapsto> x)) ?bl n"
    using fresh_ready [OF K, of c n fd offset 1] by (simp add: x_def k_def)
  have rdys: "\<forall>p \<in> set ps. buffered (c(n \<mapsto> x)) ?bl p"
    using R nn by (auto simp: rep_def linked_def intro: buffered_mono)
  have qs': "\<forall>p \<in> set qs. \<exists>e. (c(n \<mapsto> x)) p = Some e \<and> ce_direct e = 0"
    using R nn by (auto simp: rep_def linked_def)
  have rest: "distinct (ps @ qs @ us @ [n])" "dom (c(n \<mapsto> x)) = set (ps @ qs @ us @ [n])"
    using R nn by (auto simp: rep_def linked_def)
  have g: "a_gc w = Some (gc_of ps qs us)" "pays (a_ents w) = c"
    "seg (a_ents w) 0 ps 0" "chain (a_ents w) qs 0" "chain (a_ents w) us 0"
    using R by (simp_all add: rep_def linked_def)
  have "linked (Some (gc_of ps qs us)) ?h ?bl (n + 1 + k + 1) (c(n \<mapsto> x)) B ps qs us [n]"
    using g own' rdys qs' rest nn px by (simp add: linked_def)
  moreover have "blank_ent\<lparr>ce_myaiocb := \<lparr>aio_fildes = c_int fd, aio_offset = offset, aio_buf = page_align K (Suc n),
      aio_nbytes = word_of_int sz, aio_lio_opcode = 1\<rparr>, ce_real_address := Suc n, ce_fd := c_int fd\<rparr> = x"
    by (simp add: x_def fresh_ent_def)
  ultimately show ?thesis
    using K n nn al g(1) rdy
    by (simp add: new_write_def malloc_ent_def malloc_block_def Let_def set_ent_def deref_def room_def rep_def frame_def
        n_def [symmetric] k_def x_def [symmetric])
qed

context aio_files begin

text \<open>A write that has ended stores nothing in memory.\<close>

lemma aio_return_write:
  assumes R: "rep w c B ps qs us fs" and e: "c p = Some e" "aio_lio_opcode (ce_myaiocb e) = 1"
    and q: "reqs (a_os w) p = Some (ce_myaiocb e)" and o: "over (a_os w) p"
  shows "runs (aio_return K p w) (\<lambda>(n, w'). quiet w w' \<and> a_mem w' = a_mem w \<and>
    reqs (a_os w') = (reqs (a_os w))(p := None))"
proof -
  obtain d where d: "a_ents w p = Some d" "pay d = e" "deref p w = Ret d" "p \<noteq> 0"
    by (rule rep_ent [OF R e(1)])
  obtain r s where rs: "ak_sys K (Aio_return p) (a_os w) = (r, s)"
    "asys K (Aio_return p) w = (r, w\<lparr>a_os := s, a_errno := ar_errno r, a_calls := a_calls w @ [Aio_return p]\<rparr>)"
    by (rule asys_cases)
  show ?thesis
    using return_law [OF rs(1) q o] e(2) rs(2) d(3) by (simp add: aio_return_def quiet_def)
qed

lemma wait_for_write_runs:
  assumes R: "rep w c B ps (q # qs) us fs" and V: "lively w c ps (q # qs)"
  shows "runs (async_wait_for_write K w) (\<lambda>w'. rep w' (c(q := None)) B ps qs us fs \<and>
    lively w' (c(q := None)) ps qs \<and> a_mem w' = a_mem w \<and> a_max_depth w' = a_max_depth w)"
proof -
  obtain d where d: "a_ents w q = Some d" "c q = Some (pay d)" "q \<noteq> 0"
    using rep_in [OF R, of q thesis] by auto
  have op: "aio_lio_opcode (ce_myaiocb (pay d)) = 1" and dir: "ce_direct d = 0"
    using V R d(2) by (auto simp: lively_def kinds_def rep_def linked_def)
  define u where "u = popped q d ps qs us w"
  have Ru: "rep u c B ps qs us (q # fs)" using popped_rep [OF R d(1)] by (simp add: u_def)
  have fu: "a_os u = a_os w" "a_mem u = a_mem w" "a_max_depth u = a_max_depth w"
    by (simp_all add: u_def popped_def)
  have qw: "reqs (a_os u) q = Some (ce_myaiocb (pay d))"
    using V d(2) fu(1) by (simp add: lively_def sent_def)
  obtain v where v: "aio_wait K q u = Some (0, v)" "quiet u v" "a_mem v = a_mem u" "same_io u v" "fin (a_os v) q"
    using aio_wait_ends [OF qw] by auto
  have Rv: "rep v c B ps qs us (q # fs)" using Ru quiet_rep [OF v(2)] by simp
  have qv: "reqs (a_os v) q = Some (ce_myaiocb (pay d))" using qw v(4) by (simp add: same_io_def)
  obtain d' where "deref q u = Ret d'" using rep_ent [OF Ru d(2)] by metis
  then have wf: "wait_for K q u = Ret (0, v)" using v(1) by (simp add: wait_for_def ends_def)
  have dis: "q \<notin> set (ps @ qs)" using R by (auto simp: rep_def linked_def)
  have S: "(sent c (ps @ q # qs))(q := None) = sent (c(q := None)) (ps @ qs)"
    using sent_remove [OF dis, of c] by simp
  have k: "kinds (c(q := None)) ps qs"
    using V kinds_remove [of c ps "q # qs" q ps qs] dis by (auto simp: lively_def)
  have "runs (obind (aio_return K q v) (\<lambda>(retval, w). obind (deref q w) (\<lambda>e.
        if ce_direct e = 0 then free_ent q w else Ret w))) (\<lambda>w'. rep w' (c(q := None)) B ps qs us fs \<and>
    lively w' (c(q := None)) ps qs \<and> a_mem w' = a_mem w \<and> a_max_depth w' = a_max_depth w)"
  proof (rule runs_seq [OF aio_return_write [OF Rv d(2) op qv fin_over [OF v(5)]]], clarify)
    fix t
    assume t: "quiet v t" "a_mem t = a_mem v" "reqs (a_os t) = (reqs (a_os v))(q := None)"
    have Rt: "rep t c B ps qs us (q # fs)" using Rv quiet_rep [OF t(1)] by simp
    obtain b where b: "a_ents t q = Some b" "pay b = pay d" "deref q t = Ret b" "q \<noteq> 0"
      by (rule rep_ent [OF Rt d(2)])
    have "own (pays (a_ents t)) (a_blocks t) (a_next t) B" using Rt by (simp add: rep_def linked_def)
    note fr = free_ent_Ret [OF b(1,4) this]
    have "ce_real_address b = ce_real_address d" "ce_direct b = 0"
      using b(2) dir by (metis pay_sel(4), metis pay_sel(3))
    then have "free_of b = free_of (pay d)" "ce_direct b = 0"
      by (simp_all add: free_of_def fun_eq_iff)
    moreover have "rep (t\<lparr>a_ents := (a_ents t)(q := None), a_blocks := free_of (pay d) (a_blocks t)\<rparr>)
        (c(q := None)) B ps qs us fs"
      using linked_free [OF Rt [unfolded rep_def] d(2)] by (simp add: rep_def)
    ultimately show "runs (obind (deref q t) (\<lambda>e. if ce_direct e = 0 then free_ent q t else Ret t))
      (\<lambda>w'. rep w' (c(q := None)) B ps qs us fs \<and>
        lively w' (c(q := None)) ps qs \<and> a_mem w' = a_mem w \<and> a_max_depth w' = a_max_depth w)"
      using fr b(3) t v fu V S k by (simp add: lively_def same_io_def quiet_def)
  qed
  then show ?thesis
    unfolding wait_for_write_pops [OF R d(1,3)] u_def [symmetric] wf by simp
qed

text \<open>Submitting a write: it is taken at once.\<close>

lemma submit_write_runs:
  assumes R: "rep w c B ps qs us fs" and e: "c p = Some e" and rdy: "buffered c (a_blocks w) p"
  shows "runs (finishes (submit_write K code p w)) (\<lambda>w'. quiet w w' \<and> a_mem w' = a_mem w \<and>
    reqs (a_os w') = (reqs (a_os w))(p \<mapsto> ce_myaiocb e) \<and>
    a_calls w' = a_calls w @ [Aio_write p (ce_myaiocb e)
      (map (a_mem w) [aio_buf (ce_myaiocb e)..<aio_buf (ce_myaiocb e) + unat (aio_nbytes (ce_myaiocb e))])])"
proof -
  obtain d where d: "a_ents w p = Some d" "pay d = e" "deref p w = Ret d" "p \<noteq> 0"
    by (rule rep_ent [OF R e(1)])
  have cb: "ce_myaiocb d = ce_myaiocb e" using d(2) by auto
  define bs where "bs = map (a_mem w) [aio_buf (ce_myaiocb e)..<aio_buf (ce_myaiocb e) + unat (aio_nbytes (ce_myaiocb e))]"
  obtain r s where rs: "ak_sys K (Aio_write p (ce_myaiocb e) bs) (a_os w) = (r, s)"
    "asys K (Aio_write p (ce_myaiocb e) bs) w =
       (r, w\<lparr>a_os := s, a_errno := ar_errno r, a_calls := a_calls w @ [Aio_write p (ce_myaiocb e) bs]\<rparr>)"
    by (rule asys_cases)
  have "in_block (aio_buf (ce_myaiocb e)) (unat (aio_nbytes (ce_myaiocb e))) w"
    by (rule buffered_in_block [OF rdy e order_refl])
  then have "aio_write K p w = Ret (0, w\<lparr>a_os := s, a_errno := ar_errno r, a_calls := a_calls w @ [Aio_write p (ce_myaiocb e) bs]\<rparr>)"
    using rs(2) d(3) cb write_law [OF rs(1)] by (simp add: aio_write_def read_mem_def bs_def)
  then show ?thesis
    using write_law [OF rs(1)]
    by (subst submit_write.simps) (simp add: finishes_def quiet_def bs_def)
qed

lemma kinds_write: "kinds c ps qs \<Longrightarrow> n \<notin> set (ps @ qs) \<Longrightarrow> aio_lio_opcode (ce_myaiocb x) = 1 \<Longrightarrow>
    kinds (c(n \<mapsto> x)) ps (qs @ [n])"
  by (auto simp: kinds_def)

text \<open>
  A write: when more than \<open>depth\<close> writes are in flight the oldest is waited for, then the bytes of
  the caller are copied, queued and submitted.
\<close>

lemma make_room_runs:
  assumes R: "rep w c B ps qs us fs" and V: "lively w c ps qs"
  shows "runs (if depth < int (length qs) then async_wait_for_write K w else Ret w) (\<lambda>v. \<exists>d.
    rep v d B ps (if depth < int (length qs) then tl qs else qs) us fs \<and>
    lively v d ps (if depth < int (length qs) then tl qs else qs) \<and> a_mem v = a_mem w \<and> a_max_depth v = a_max_depth w)"
proof (cases "depth < int (length qs)")
  case False
  then show ?thesis using assms by auto
next
  case True
  show ?thesis
  proof (cases qs)
    case Nil
    then have "async_wait_for_write K w = Ret w"
      using rep_get_gc [OF R] by (simp add: async_wait_for_write_def gc_of_def)
    then show ?thesis using True assms Nil by auto
  next
    case (Cons q zs)
    then show ?thesis
      using wait_for_write_runs [of w c B ps q zs us fs] assms True by (auto elim!: runs_mono)
  qed
qed

text \<open>Queueing a new entry with the bytes of the caller, and submitting it.\<close>

lemma queue_write_runs:
  assumes R: "rep u (c(ce \<mapsto> x)) B ps qs us [ce]" and x: "x = fresh_ent K ce fd offset sz 1"
    and rdy: "buffered (c(ce \<mapsto> x)) (a_blocks u) ce" and V: "reqs (a_os u) = sent c (ps @ qs)" "kinds c ps qs"
    and K: "room K sz" and ub: "(ub, l) \<in> B" "nat sz \<le> l" and ce: "ce \<notin> set (ps @ qs)"
  shows "runs (obind (set_ent ce (\<lambda>e. e\<lparr>ce_direct := 0\<rparr>) u) (\<lambda>w.
     obind (deref ce w) (\<lambda>e.
     obind (mbcopy ub (aio_buf (ce_myaiocb e)) (unat (word_of_int sz :: size_t)) w) (\<lambda>w.
     obind (async_put_on_write_queue ce w) (\<lambda>w.
     finishes (submit_write K code ce w)))))) (\<lambda>w'. a_max_depth w' = a_max_depth u \<and>
       rep w' (c(ce \<mapsto> x)) B ps (qs @ [ce]) us [] \<and> lively w' (c(ce \<mapsto> x)) ps (qs @ [ce]) \<and>
       last (a_calls w') = Aio_write ce (ce_myaiocb x) (map (a_mem u) [ub..<ub + nat sz]))"
proof -
  define bs where "bs = map (a_mem u) [ub..<ub + nat sz]"
  have xc: "(c(ce \<mapsto> x)) ce = Some x" by simp
  obtain d where d: "a_ents u ce = Some d" "pay d = x" "deref ce u = Ret d" "ce \<noteq> 0"
    by (rule rep_ent [OF R xc])
  have nb: "unat (word_of_int sz :: size_t) = nat sz"
    using K by (subst unat_of_int64) (simp_all add: room_def)
  have xs: "ce_direct x = 0" "unat (aio_nbytes (ce_myaiocb x)) = nat sz" "aio_lio_opcode (ce_myaiocb x) = 1"
    using nb by (simp_all add: x fresh_ent_def blank_ent_def)
  have ds: "d\<lparr>ce_direct := 0\<rparr> = d" "ce_myaiocb d = ce_myaiocb x"
    using d(2) xs(1) by auto
  have s: "set_ent ce (\<lambda>e. e\<lparr>ce_direct := 0\<rparr>) u = Ret u"
    using d ds(1) by (simp add: set_ent_def deref_def fun_upd_idem)
  have len: "length bs = nat sz" by (simp add: bs_def)
  have "B \<subseteq> set (a_blocks u)" using own_basics(5) [OF rep_own [OF R]] .
  then have "in_block ub (length bs) u"
    using ub len by (intro in_block_mem [of ub l]) auto
  moreover have "in_block (aio_buf (ce_myaiocb x)) (length bs) u"
    by (rule buffered_in_block [OF rdy xc]) (simp add: len xs)
  moreover have "map (a_mem u) [ub..<ub + length bs] = bs" by (simp add: bs_def)
  ultimately have cp: "runs (mbcopy ub (aio_buf (ce_myaiocb x)) (length bs) u) (\<lambda>t. quiet u t \<and> a_os t = a_os u \<and>
      map (a_mem t) [aio_buf (ce_myaiocb x)..<aio_buf (ce_myaiocb x) + length bs] = bs)"
    by (rule mbcopy_runs)
  have "runs (obind (mbcopy ub (aio_buf (ce_myaiocb x)) (length bs) u) (\<lambda>w. obind (async_put_on_write_queue ce w)
     (\<lambda>w. finishes (submit_write K code ce w)))) (\<lambda>w'. a_max_depth w' = a_max_depth u \<and>
       rep w' (c(ce \<mapsto> x)) B ps (qs @ [ce]) us [] \<and> lively w' (c(ce \<mapsto> x)) ps (qs @ [ce]) \<and>
       last (a_calls w') = Aio_write ce (ce_myaiocb x) bs)"
  proof (rule runs_seq [OF cp], elim conjE)
    fix t
    assume t: "quiet u t" "a_os t = a_os u"
      "map (a_mem t) [aio_buf (ce_myaiocb x)..<aio_buf (ce_myaiocb x) + length bs] = bs"
    have Rt: "rep t (c(ce \<mapsto> x)) B ps qs us [ce]" using R quiet_rep [OF t(1)] by simp
    have rt: "buffered (c(ce \<mapsto> x)) (a_blocks t) ce" using rdy t(1) by (simp add: quiet_def)
    show "runs (obind (async_put_on_write_queue ce t) (\<lambda>w. finishes (submit_write K code ce w))) (\<lambda>w'.
       a_max_depth w' = a_max_depth u \<and>
       rep w' (c(ce \<mapsto> x)) B ps (qs @ [ce]) us [] \<and> lively w' (c(ce \<mapsto> x)) ps (qs @ [ce]) \<and>
       last (a_calls w') = Aio_write ce (ce_myaiocb x) bs)"
    proof (rule runs_seq [OF put_queue_rep [OF Rt xc xs(1)]], elim conjE)
      fix v
      assume v: "frame t v" "rep v (c(ce \<mapsto> x)) B ps (qs @ [ce]) us []" and bl: "a_blocks v = a_blocks t"
      have rv: "buffered (c(ce \<mapsto> x)) (a_blocks v) ce" using rt bl by simp
      have m: "map (a_mem v) [aio_buf (ce_myaiocb x)..<aio_buf (ce_myaiocb x) + unat (aio_nbytes (ce_myaiocb x))] = bs"
        using t(3) v(1) len xs(2) by (simp add: frame_def)
      then have m': "map (a_mem t) [aio_buf (ce_myaiocb x)..<aio_buf (ce_myaiocb x) + unat (aio_nbytes (ce_myaiocb x))] = bs"
        using v(1) by (simp add: frame_def)
      have "(sent c (ps @ qs))(ce \<mapsto> ce_myaiocb x) = sent (c(ce \<mapsto> x)) (ps @ qs @ [ce])"
        using ce by (auto simp: sent_def)
      then show "runs (finishes (submit_write K code ce v)) (\<lambda>w'. a_max_depth w' = a_max_depth u \<and>
         rep w' (c(ce \<mapsto> x)) B ps (qs @ [ce]) us [] \<and> lively w' (c(ce \<mapsto> x)) ps (qs @ [ce]) \<and>
         last (a_calls w') = Aio_write ce (ce_myaiocb x) bs)"
        using V t v kinds_write [OF V(2) ce xs(3)]
        by (intro runs_mono [OF submit_write_runs [OF v(2) xc rv]])
          (auto simp: m m' frame_def quiet_rep lively_def, simp add: quiet_def)
    qed
  qed
  then show ?thesis
    using s d(3) ds(2) nb len by (simp add: bs_def)
qed

lemma async_write_runs:
  assumes R: "rep w c B ps qs us []" and V: "lively w c ps qs" and K: "room K sz"
    and fd: "fd \<noteq> 0" and ub: "(ub, l) \<in> B" "nat sz \<le> l"
    and q: "qs' = (if depth < int (length qs) then tl qs else qs)"
  shows "runs (async_write K fd ub sz offset depth w) (\<lambda>(n, w'). n = word_of_int sz \<and> a_max_depth w' = a_max_depth w \<and>
    (\<exists>c' ce b. rep w' c' B ps (qs' @ [ce]) us [] \<and> lively w' c' ps (qs' @ [ce]) \<and>
      last (a_calls w') = Aio_write ce \<lparr>aio_fildes = c_int fd, aio_offset = offset, aio_buf = b,
        aio_nbytes = word_of_int sz, aio_lio_opcode = 1\<rparr> (map (a_mem w) [ub..<ub + nat sz])))" (is "runs _ ?Q")
proof -
  let ?rest = "\<lambda>ce w. obind (set_ent ce (\<lambda>e. e\<lparr>ce_direct := 0\<rparr>) w) (\<lambda>w.
     obind (deref ce w) (\<lambda>e.
     obind (mbcopy ub (aio_buf (ce_myaiocb e)) (unat (word_of_int sz :: size_t)) w) (\<lambda>w.
     obind (async_put_on_write_queue ce w) (\<lambda>w.
     finishes (submit_write K 177 ce w)))))"
  have split: "async_write K fd ub sz offset depth w =
    obind (if depth < int (length qs) then async_wait_for_write K w else Ret w) (\<lambda>w.
      obind (new_write K fd offset sz w) (\<lambda>(ce, w). obind (?rest ce w) (\<lambda>w. Ret (word_of_int sz, w))))"
    using allocate_write_buffer_split [OF rep_get_gc [OF R] fd]
    by (simp add: async_write_def gc_of_def obind_assoc case_prod_unfold)
  show ?thesis
    unfolding split
  proof (rule runs_seq [OF make_room_runs [OF R V]], fold q, elim exE conjE)
    fix v d
    assume v: "rep v d B ps qs' us []" "lively v d ps qs'" "a_mem v = a_mem w" "a_max_depth v = a_max_depth w"
    show "runs (obind (new_write K fd offset sz v) (\<lambda>(ce, w). obind (?rest ce w) (\<lambda>w. Ret (word_of_int sz, w)))) ?Q"
    proof -
      define ce where "ce = a_next v"
      define x where "x = fresh_ent K ce fd offset sz 1"
      obtain u where nw: "new_write K fd offset sz v = Ret (ce, u)" and u: "frame v u"
        "ce \<notin> set (ps @ qs' @ us)" "buffered (d(ce \<mapsto> x)) (a_blocks u) ce" "rep u (d(ce \<mapsto> x)) B ps qs' us [ce]"
        using new_write_rep [OF v(1) K, of fd offset] unfolding runs_def ce_def x_def by auto
      have r: "reqs (a_os u) = sent d (ps @ qs')" "kinds d ps qs'" "ce \<notin> set (ps @ qs')"
        using v(2) u(1,2) by (simp_all add: lively_def frame_def)
      note queue_write_runs [OF u(4) x_def u(3) r(1,2) K ub r(3), of 177]
      moreover have "ce_myaiocb x = \<lparr>aio_fildes = c_int fd, aio_offset = offset, aio_buf = page_align K (ce + 1),
          aio_nbytes = word_of_int sz, aio_lio_opcode = 1\<rparr>"
        by (simp add: x_def fresh_ent_def)
      ultimately have "runs (?rest ce u) (\<lambda>w'. ?Q (word_of_int sz, w'))"
        using u(1) v(3,4) by (elim runs_mono) (auto simp: frame_def)
      then show ?thesis
        by (simp add: nw)
    qed
  qed
qed

section \<open>The end\<close>

lemma write_finish_runs:
  assumes "rep w c B ps qs us fs" "lively w c ps qs"
  shows "runs (async_write_finish K w) (\<lambda>w'. \<exists>d. rep w' d B ps [] us fs \<and> lively w' d ps [])"
  using assms
proof (induction qs arbitrary: w c)
  case Nil
  then show ?case
    by (subst async_write_finish_def, subst write_finish_loop.simps) (auto simp: finishes_def gc_of_def)
next
  case (Cons q qs)
  obtain v where v: "async_wait_for_write K w = Ret v" "rep v (c(q := None)) B ps qs us fs"
    "lively v (c(q := None)) ps qs"
    using wait_for_write_runs [OF Cons.prems] by (auto simp: runs_def)
  have "q \<noteq> 0" using rep_not_0 [OF Cons.prems(1)] by auto
  then have "async_write_finish K w = async_write_finish K v"
    using v(1) rep_get_gc [OF Cons.prems(1)]
    by (simp add: async_write_finish_def write_finish_loop.simps [of K w] gc_of_def)
  then show ?case using Cons.IH [OF v(2,3)] by simp
qed

lemma rep_empty:
  assumes "rep w c B [] [] [] []"
  shows "a_ents w = (\<lambda>_. None)" "set (a_blocks w) = B"
proof -
  have c: "c = (\<lambda>_. None)" using rep_dom [OF assms] by auto
  moreover have "pays (a_ents w) = c" using assms by (simp add: rep_def linked_def)
  ultimately show "a_ents w = (\<lambda>_. None)"
    by (auto simp: pays_def fun_eq_iff)
  have "reals c = {}" by (auto simp: c reals_def buf_of_def)
  then have "fst ` (set (a_blocks w) - B) = {}" "B \<subseteq> set (a_blocks w)"
    using own_basics(5,6) [OF rep_own [OF assms]] by simp_all
  then show "set (a_blocks w) = B" by auto
qed

lemma end_async_runs:
  assumes R: "rep w c B ps qs [] []" and V: "lively w c ps qs" and Z: "on_zero c ps"
  shows "runs (end_async K w) (\<lambda>w'. a_gc w' = None \<and> a_ents w' = (\<lambda>_. None) \<and> set (a_blocks w') = B \<and>
    reqs (a_os w') = (\<lambda>_. None))"
  unfolding end_async_def
proof (rule runs_seq [OF del_cache_runs [OF R V Z]], elim conjE)
  fix v
  assume v: "rep v (without c ps) B [] qs [] []" "lively v (without c ps) [] qs"
  have "runs (if gc_w_head (gc_of [] qs []) \<noteq> 0 then async_write_finish K v else Ret v)
      (\<lambda>w'. \<exists>d. rep w' d B [] [] [] [] \<and> lively w' d [] [])"
    using write_finish_runs [OF v] v first_0_iff [of qs] rep_not_0 [OF v(1)] by (auto simp: gc_of_def)
  then show "runs (obind (get_gc v) (\<lambda>g. obind (if gc_w_head g \<noteq> 0 then async_write_finish K v else Ret v)
     (\<lambda>w. Ret (w\<lparr>a_gc := None\<rparr>)))) (\<lambda>w'. a_gc w' = None \<and> a_ents w' = (\<lambda>_. None) \<and> set (a_blocks w') = B \<and>
    reqs (a_os w') = (\<lambda>_. None))"
    unfolding rep_get_gc [OF v(1)] obind.simps(1) runs_obind
    by (rule runs_mono) (auto simp: rep_empty lively_def sent_def)
qed

end

section \<open>No room for the only write\<close>

text \<open>
  A write that the system refuses for want of room is queued before it is submitted. When no other
  write is in flight, the wait for the oldest write waits for this one, which was never submitted,
  and frees it; the second attempt uses what is freed.
\<close>

definition no_room :: "'os aio \<Rightarrow> 'os \<Rightarrow> bool" where
  "no_room K s \<longleftrightarrow> (\<forall>p cb bs. ar_ret (fst (ak_sys K (Aio_write p cb bs) s)) = - 1 \<and>
     ar_errno (fst (ak_sys K (Aio_write p cb bs) s)) = 11)"

lemma no_runs_obind: "(\<And>x. p = Ret x \<Longrightarrow> \<not> runs (f x) Q) \<Longrightarrow> \<not> runs (obind p f) Q"
  by (cases p) auto

lemma submit_write_freed:
  assumes "a_ents w p = None"
  shows "finishes (submit_write K code p w) = Crash BadHandle"
  using assms by (subst submit_write.simps) (simp add: aio_write_def deref_def finishes_def)

lemma ends_RetE: "ends x = Ret y \<Longrightarrow> x = Some y"
  by (cases x) (simp_all add: ends_def)

lemma aio_wait_quiet:
  assumes "aio_wait K p w = Some x"
  shows "quiet w (snd x)"
proof (rule aio_wait.raw_induct [OF _ assms, of "\<lambda>K p w x. quiet w (snd x)"])
  fix wait and K :: "'os aio" and ce and w :: "'os async" and y :: "int \<times> 'os async"
  assume IH: "\<And>K ce w y. wait K ce w = Some y \<Longrightarrow> quiet w (snd y)"
    and eq: "(case asys K (Aio_error ce) w of (r, w) \<Rightarrow>
      if ar_ret r = 115 then wait K ce (snd (async_suspend K ce w)) else Some (ar_ret r, w)) = Some y"
  obtain r s where rs: "asys K (Aio_error ce) w =
      (r, w\<lparr>a_os := s, a_errno := ar_errno r, a_calls := a_calls w @ [Aio_error ce]\<rparr>)"
    by (rule asys_cases)
  let ?v = "w\<lparr>a_os := s, a_errno := ar_errno r, a_calls := a_calls w @ [Aio_error ce]\<rparr>"
  obtain q t where qt: "asys K (Aio_suspend ce) ?v =
      (q, ?v\<lparr>a_os := t, a_errno := ar_errno q, a_calls := a_calls ?v @ [Aio_suspend ce]\<rparr>)"
    by (rule asys_cases)
  show "quiet w (snd y)"
  proof (cases "ar_ret r = 115")
    case True
    with eq rs qt have "wait K ce (?v\<lparr>a_os := t, a_errno := ar_errno q, a_calls := a_calls ?v @ [Aio_suspend ce]\<rparr>) = Some y"
      by (simp add: async_suspend_def)
    from IH [OF this] show ?thesis by (simp add: quiet_def)
  next
    case False
    with eq rs have "y = (ar_ret r, ?v)" by simp
    then show ?thesis by (simp add: quiet_def)
  qed
qed

lemma aio_return_quiet:
  assumes "aio_return K p w = Ret (n, w')"
  shows "quiet w w'"
proof -
  obtain r s where rs: "asys K (Aio_return p) w =
      (r, w\<lparr>a_os := s, a_errno := ar_errno r, a_calls := a_calls w @ [Aio_return p]\<rparr>)"
    by (rule asys_cases)
  show ?thesis
    using assms rs by (auto simp: aio_return_def write_mem_def quiet_def obind_eq_Ret split: if_splits)
qed

lemma wait_frees_only:
  assumes R: "rep t d B ps [ce] us []" and w: "async_wait_for_write K t = Ret z"
  shows "a_ents z ce = None"
proof -
  obtain e where e: "a_ents t ce = Some e" "d ce = Some (pay e)" "ce \<noteq> 0"
    using rep_in [OF R, of ce thesis] by auto
  have dir: "ce_direct e = 0" using R e(2) by (auto simp: rep_def linked_def)
  define u where "u = popped ce e ps [] us t"
  have "async_wait_for_write K t = obind (wait_for K ce u) (\<lambda>(ret, w). if ret \<noteq> 0 then Exit 181
      else obind (aio_return K ce w) (\<lambda>(retval, w). obind (deref ce w) (\<lambda>e.
        if ce_direct e = 0 then free_ent ce w else Ret w)))"
    unfolding u_def by (rule wait_for_write_pops [OF R e(1,3)])
  with w obtain ret v n x b where v: "wait_for K ce u = Ret (ret, v)" "aio_return K ce v = Ret (n, x)"
    "deref ce x = Ret b" "(if ce_direct b = 0 then free_ent ce x else Ret x) = Ret z"
    by (auto simp: obind_eq_Ret split: if_splits)
  from v(1) have "aio_wait K ce u = Some (ret, v)"
    by (auto simp: wait_for_def obind_eq_Ret dest: ends_RetE)
  from aio_wait_quiet [OF this] aio_return_quiet [OF v(2)] have "a_ents x = a_ents u"
    by (simp add: quiet_def)
  then have "ce_direct b = 0"
    using v(3) dir e(3) by (auto simp: u_def popped_def deref_def split: option.splits)
  with v(4) show ?thesis
    by (auto simp: free_ent_def obind_eq_Ret)
qed

lemma async_write_alone:
  assumes R: "rep w c B ps [] us []" and K: "room K sz" and fd: "fd \<noteq> 0" and ub: "(ub, l) \<in> B" "nat sz \<le> l"
    and n: "no_room K (a_os w)"
  shows "\<not> runs (async_write K fd ub sz offset depth w) Q"
proof -
  have g: "get_gc w = Ret (gc_of ps [] us)" by (rule rep_get_gc [OF R])
  then have "(if depth < gc_w_count (gc_of ps [] us) then async_wait_for_write K w else Ret w) = Ret w"
    by (simp add: async_wait_for_write_def gc_of_def)
  then have al: "allocate_write_buffer K fd offset sz 1 depth 0 0 0 w = new_write K fd offset sz w"
    using allocate_write_buffer_split [OF g fd] by simp
  define ce where "ce = a_next w"
  define x where "x = fresh_ent K ce fd offset sz 1"
  obtain u where nw: "new_write K fd offset sz w = Ret (ce, u)" and u: "frame w u"
    "rep u (c(ce \<mapsto> x)) B ps [] us [ce]"
    using new_write_rep [OF R K, of fd offset] unfolding runs_def ce_def x_def by auto
  have xc: "(c(ce \<mapsto> x)) ce = Some x" by simp
  have dirx: "ce_direct x = 0" by (simp add: x_def fresh_ent_def blank_ent_def)
  obtain d where d: "a_ents u ce = Some d" "pay d = x" "deref ce u = Ret d" "ce \<noteq> 0"
    by (rule rep_ent [OF u(2) xc])
  have "d\<lparr>ce_direct := 0\<rparr> = d" using d(2) dirx by auto
  then have s: "set_ent ce (\<lambda>e. e\<lparr>ce_direct := 0\<rparr>) u = Ret u"
    using d by (simp add: set_ent_def deref_def fun_upd_idem)
  show ?thesis
    unfolding async_write_def al nw obind.simps(1) split_beta fst_conv snd_conv s d(3)
  proof (rule no_runs_obind)
    fix t
    assume "mbcopy ub (aio_buf (ce_myaiocb d)) (unat (word_of_int sz :: size_t)) u = Ret t"
    then have t: "quiet u t" "a_os t = a_os u"
      by (auto simp: mbcopy_def obind_eq_Ret write_mem_def quiet_def split: if_splits)
    have Rt: "rep t (c(ce \<mapsto> x)) B ps [] us [ce]" using u(2) quiet_rep [OF t(1)] by simp
    show "\<not> runs (obind (async_put_on_write_queue ce t) (\<lambda>w. obind (finishes (submit_write K 177 ce w))
        (\<lambda>w. Ret (word_of_int sz, w)))) Q"
    proof (rule no_runs_obind)
      fix v
      assume pq: "async_put_on_write_queue ce t = Ret v"
      have v: "frame t v" "rep v (c(ce \<mapsto> x)) B ps [ce] us []"
        using put_queue_rep [OF Rt xc dirx] unfolding pq runs_Ret append_Nil by blast+
      have os: "no_room K (a_os v)" using n u(1) t(2) v(1) by (simp add: frame_def)
      have "\<not> runs (finishes (submit_write K 177 ce v)) P" for P
      proof (cases "aio_write K ce v")
        case (Ret y)
        then have y: "fst y = - 1" "a_errno (snd y) = 11" "quiet v (snd y)"
          using os by (auto simp: aio_write_def obind_eq_Ret asys_def no_room_def quiet_def split_beta split: prod.splits)
        have Ry: "rep (snd y) (c(ce \<mapsto> x)) B ps [ce] us []" using v(2) quiet_rep [OF y(3)] by simp
        show ?thesis
        proof (cases "async_wait_for_write K (snd y)")
          case (Ret z)
          then have "a_ents z ce = None" by (rule wait_frees_only [OF Ry])
          from submit_write_freed [OF this, of K 177]
          show ?thesis using \<open>aio_write K ce v = Ret y\<close> y Ret
            by (subst submit_write.simps) (simp add: split_beta)
        qed (use Ret y in \<open>subst submit_write.simps, simp add: split_beta finishes_def\<close>)+
      qed (subst submit_write.simps, simp add: finishes_def)+
      then show "\<not> runs (obind (finishes (submit_write K 177 ce v)) (\<lambda>w. Ret (word_of_int sz, w))) Q"
        by simp
    qed
  qed
qed

end
