(* ===== verification/Libasync_Lend.thy ===== *)
theory Libasync_Lend
  imports Libasync_Read
begin

text \<open>
  The reads of \<open>libasync.c\<close> that lend their buffer to the caller instead of copying it, and the
  release of such a buffer.
\<close>

lemma putoninuse_rep:
  assumes R: "rep w c B ps qs us (p # fs)"
  shows "runs (putoninuse p w) (\<lambda>w'. frame w w' \<and> rep w' c B ps qs (p # us) fs)"
proof -
  obtain d where d: "a_ents w p = Some d" "c p = Some (pay d)" "p \<noteq> 0"
    using rep_in [OF R, of p thesis] by auto
  have "c(p \<mapsto> pay d) = c" using d(2) by auto
  moreover have f: "(if first 0 us \<noteq> 0 then first 0 us else 0) = first 0 us" by simp
  ultimately have "linked (Some (gc_of ps qs (p # us))) ((a_ents w)(p \<mapsto> d\<lparr>ce_forward := first 0 us\<rparr>)) (a_blocks w)
      (a_next w) c B ps qs (p # us) fs"
    using R d by (auto simp: rep_def linked_def)
  then show ?thesis
    using rep_get_gc [OF R] R d
    by (simp add: putoninuse_def set_ent_def deref_def upd_gc_def gc_of_def frame_def rep_def linked_def)
qed

lemma release_rep:
  assumes R: "rep w c B ps qs (p # us) fs"
  shows "runs (async_release w) (\<lambda>w'. frame w w' \<and> rep w' (c(p := None)) B ps qs us fs)"
proof -
  obtain d where d: "a_ents w p = Some d" "c p = Some (pay d)" "p \<noteq> 0"
    using rep_in [OF R, of p thesis] by auto
  have f: "ce_forward d = first 0 us" using R d by (auto simp: rep_def linked_def)
  define u where "u = w\<lparr>a_gc := Some (gc_of ps qs us)\<rparr>"
  have L: "linked (a_gc u) (a_ents u) (a_blocks u) (a_next u) c B ps qs us (p # fs)"
    using R by (auto simp: rep_def linked_def u_def)
  have "async_release w = free_ent p u"
    using rep_get_gc [OF R] R d f
    by (simp add: async_release_def takeoffinuse_def deref_def upd_gc_def gc_of_def rep_def linked_def u_def Let_def)
  moreover have "free_of d = free_of (pay d)" by (simp add: free_of_def fun_eq_iff)
  moreover have "own (pays (a_ents u)) (a_blocks u) (a_next u) B" "a_ents u p = Some d"
    using R d(1) by (simp_all add: rep_def linked_def u_def)
  ultimately show ?thesis
    using free_ent_Ret [of u p d "a_next u" B] linked_free [OF L d(2)] d(3)
    by (simp add: rep_def frame_def u_def)
qed

lemma kinds_upd: "p \<notin> set (ps @ qs) \<Longrightarrow> kinds (c(p := z)) ps qs = kinds c ps qs"
  unfolding kinds_def by (intro conj_cong ball_cong) auto

lemma sent_upd: "p \<notin> set xs \<Longrightarrow> sent (c(p := z)) xs = sent c xs"
  by (auto simp: sent_def)

context aio_files begin

lemma lend_data_runs:
  assumes R: "rep w c B (xs @ p # ys) [] us []" and V: "lively w c (xs @ p # ys) []"
    and e: "c p = Some e" "0 \<le> aio_offset (ce_myaiocb e)" and nl: "xs = [] \<or> ys \<noteq> []"
    and bs: "bs = file_part (disk (a_os w) (ce_fd e)) (ce_myaiocb e)"
  shows "runs (lend_data K p w) (\<lambda>(n, ub, w'). n = int (length bs) \<and>
    (bs \<noteq> [] \<longrightarrow> map (a_mem w') [ub..<ub + length bs] = bs) \<and> (bs = [] \<longrightarrow> ub = 0) \<and>
    (\<exists>c'. rep w' c' B (xs @ ys) [] (p # us) [] \<and> lively w' c' (xs @ ys) []) \<and>
    disk (a_os w') = disk (a_os w))" (is "runs _ ?Q")
proof -
  have split: "lend_data K p w = obind (obind (wait_for K p w) (\<lambda>(ret, w). aio_return K p w)) (\<lambda>(n, u).
     obind (deref p u) (\<lambda>e. obind (set_ent p (\<lambda>e. e\<lparr>ce_direct := 1\<rparr>) u) (\<lambda>w. obind (takeoff_cache p w)
       (\<lambda>w. obind (putoninuse p w) (\<lambda>w. Ret (n, if 0 < n then aio_buf (ce_myaiocb e) else 0, w))))))"
    by (simp add: lend_data_def obind_assoc case_prod_unfold Let_def)
  show ?thesis
    unfolding split
  proof (rule runs_seq [OF fetch_runs [OF R V e bs]], clarify)
    fix u
    assume u: "quiet w u" "map (a_mem u) [aio_buf (ce_myaiocb e)..<aio_buf (ce_myaiocb e) + length bs] = bs"
      "reqs (a_os u) = sent (c(p := None)) (xs @ ys)" "kinds (c(p := None)) (xs @ ys) []" "disk (a_os u) = disk (a_os w)"
    have Ru: "rep u c B (xs @ p # ys) [] us []" using R quiet_rep [OF u(1)] by simp
    obtain d where d: "a_ents u p = Some d" "pay d = e" "deref p u = Ret d" "p \<noteq> 0"
      by (rule rep_ent [OF Ru e(1)])
    define x where "x = d\<lparr>ce_direct := 1\<rparr>"
    define c1 where "c1 = c(p \<mapsto> pay x)"
    have "rep (u\<lparr>a_ents := (a_ents u)(p \<mapsto> x)\<rparr>) c1 B (xs @ p # ys) [] us []"
      unfolding c1_def using d e(1) by (intro rep_payload [OF Ru]) (auto simp: x_def)
    from takeoff_rep [OF this _ nl, of "pay x"]
    have T: "runs (takeoff_cache p (u\<lparr>a_ents := (a_ents u)(p \<mapsto> x)\<rparr>)) (\<lambda>w'. frame (u\<lparr>a_ents := (a_ents u)(p \<mapsto> x)\<rparr>) w' \<and>
        rep w' c1 B (xs @ ys) [] us [p])"
      by (simp add: c1_def x_def)
    have dis: "p \<notin> set ((xs @ ys) @ [])" using R by (auto simp: rep_def linked_def)
    have L: "sent (c(p := None)) (xs @ ys) = sent c1 (xs @ ys)" "kinds c1 (xs @ ys) []"
      using u(4) kinds_upd [OF dis] sent_upd [of p "xs @ ys"] dis by (simp_all add: c1_def)
    have "runs (obind (takeoff_cache p (u\<lparr>a_ents := (a_ents u)(p \<mapsto> x)\<rparr>)) (putoninuse p)) (\<lambda>w'. a_mem w' = a_mem u \<and>
        a_os w' = a_os u \<and> rep w' c1 B (xs @ ys) [] (p # us) [])"
      by (rule runs_seq [OF T]) (auto simp: frame_def dest!: putoninuse_rep elim!: runs_mono)
    then have "runs (obind (takeoff_cache p (u\<lparr>a_ents := (a_ents u)(p \<mapsto> x)\<rparr>)) (putoninuse p))
        (\<lambda>w'. ?Q (int (length bs), (if 0 < int (length bs) then aio_buf (ce_myaiocb d) else 0), w'))"
      by (rule runs_mono) (use u L d(2) in \<open>auto simp: lively_def\<close>)
    then show "runs (obind (deref p u) (\<lambda>e. obind (set_ent p (\<lambda>e. e\<lparr>ce_direct := 1\<rparr>) u) (\<lambda>w. obind (takeoff_cache p w)
       (\<lambda>w. obind (putoninuse p w) (\<lambda>w. Ret (int (length bs), if 0 < int (length bs) then aio_buf (ce_myaiocb e) else 0, w)))))) ?Q"
      using d(3) by (simp add: set_ent_def x_def)
  qed
qed

text \<open>The whole read: on a hit the entry is lent from the cache, otherwise a new one.\<close>

lemma async_read_no_copy_runs:
  assumes R: "rep w c B ps [] us []" and V: "lively w c ps []" and K: "room K sz"
    and fd: "c_int fd = fd" and off: "0 \<le> offset" and sz: "sz < 2 ^ 31"
    and nl: "1 < length ps \<Longrightarrow> lookup c fd offset sz ps \<noteq> last ps"
    and z: "lookup c fd offset sz ps = 0 \<Longrightarrow> on_zero c ps"
    and bs: "bs = take (nat sz) (drop (nat offset) (disk (a_os w) fd))"
  shows "runs (async_read_no_copy K fd offset sz stride mx depth w) (\<lambda>(n, ub, w'). n = int (length bs) \<and>
    (bs \<noteq> [] \<longrightarrow> map (a_mem w') [ub..<ub + length bs] = bs) \<and> (bs = [] \<longrightarrow> ub = 0) \<and>
    (\<exists>p. reading w' B (p # us)) \<and> disk (a_os w') = disk (a_os w))" (is "runs _ ?Q")
proof -
  have nb: "unat (word_of_int sz :: size_t) = nat sz"
    using K by (subst unat_of_int64) (simp_all add: room_def)
  have int: "c_int (int (length bs)) = int (length bs)"
    using sz K by (simp add: bs room_def)
  have ro: "reads_only (reqs (a_os w))" using reads_only_lively [OF V] by simp
  have part: "file_part (D fd) \<lparr>aio_fildes = a, aio_offset = offset, aio_buf = b, aio_nbytes = word_of_int sz, aio_lio_opcode = k\<rparr>
      = take (nat sz) (drop (nat offset) (D fd))" for a b k D
    by (simp add: file_part_def nb)
  show ?thesis
  proof (cases "lookup c fd offset sz ps = 0")
    case False
    define p where "p = lookup c fd offset sz ps"
    from lookup_in [OF False] have p: "p \<in> set ps" "wanted c fd offset sz p"
      by (simp_all add: p_def)
    then obtain xs ys where ps: "ps = xs @ p # ys" by (meson split_list)
    from p obtain e where e: "c p = Some e" "ce_fd e = fd" "aio_offset (ce_myaiocb e) = offset"
      "aio_nbytes (ce_myaiocb e) = word_of_int sz"
      by (auto simp: wanted_def split: option.splits)
    have "1 < length ps \<Longrightarrow> p \<noteq> last ps"
      using nl by (simp add: p_def)
    then have nl': "xs = [] \<or> ys \<noteq> []"
      by (auto simp: ps)
    have "file_part (disk (a_os w) (ce_fd e)) (ce_myaiocb e) = bs"
      using e nb by (simp add: file_part_def bs)
    note T = lend_data_runs [OF R [unfolded ps] V [unfolded ps] e(1) _ nl' this [symmetric], unfolded e(3), OF off]
    have "runs (obind (lend_data K p w) (\<lambda>(retval, ub, w). obind (read_ahead K True fd offset sz stride mx depth w)
        (\<lambda>w. Ret (c_int retval, ub, w)))) ?Q"
    proof (rule runs_seq [OF T], elim case_prodE, hypsubst, unfold prod.case, elim conjE exE)
      fix n ub v c'
      assume v: "n = int (length bs)" "bs \<noteq> [] \<longrightarrow> map (a_mem v) [ub..<ub + length bs] = bs" "bs = [] \<longrightarrow> ub = 0"
        "rep v c' B (xs @ ys) [] (p # us) []" "lively v c' (xs @ ys) []" "disk (a_os v) = disk (a_os w)"
      show "runs (obind (read_ahead K True fd offset sz stride mx depth v) (\<lambda>w. Ret (c_int n, ub, w))) ?Q"
      proof (rule runs_seq [OF read_ahead_runs [OF v(4,5) K]])
        fix t
        assume "extended v c' B (xs @ ys) [] (p # us) [] t"
        from extended_reading [OF this v(5)] show "runs (Ret (c_int n, ub, t)) ?Q"
          using v(1-3,6) int by auto
      qed
    qed
    then show ?thesis
      using False incache_rep [OF R] by (simp add: async_read_no_copy_def p_def)
  next
    case True
    have rest: "runs (obind (read_ahead K True fd offset sz stride mx depth u) (\<lambda>w.
        obind (lend_data K ce w) (\<lambda>(retval, ub, w). Ret (c_int retval, ub, w)))) ?Q"
      if u: "same_req (fresh_ent K ce fd offset sz 0) x" "rep u (d(ce \<mapsto> x)) B [ce] [] us []" "lively u (d(ce \<mapsto> x)) [ce] []"
        "disk (a_os u) = disk (a_os w)" for ce x u d
    proof (rule runs_seq [OF read_ahead_runs [OF u(2,3) K]])
      fix t
      assume "extended u (d(ce \<mapsto> x)) B [ce] [] us [] t"
      then obtain c' zs where t: "rep t c' B ([] @ ce # zs) [] us []" "lively t c' ([] @ ce # zs) []"
        "c' ce = Some x" "disk (a_os t) = disk (a_os u)"
        using reads_only_lively [OF u(3)] by (auto simp: extended_def)
      have x: "ce_myaiocb x = \<lparr>aio_fildes = fd, aio_offset = offset, aio_buf = page_align K (ce + 1),
          aio_nbytes = word_of_int sz, aio_lio_opcode = 0\<rparr>" "ce_fd x = fd"
        using u(1) fd by (simp_all add: same_req_def fresh_ent_def)
      have rd: "\<exists>p. reading v B (p # us)" if "rep v c B zs [] (ce # us) []" "lively v c zs []" for v c
        using that by (blast intro: readingI)
      have T: "runs (lend_data K ce t) (\<lambda>(n, ub, w'). n = int (length bs) \<and>
        (bs \<noteq> [] \<longrightarrow> map (a_mem w') [ub..<ub + length bs] = bs) \<and> (bs = [] \<longrightarrow> ub = 0) \<and>
        (\<exists>c'. rep w' c' B ([] @ zs) [] (ce # us) [] \<and> lively w' c' ([] @ zs) []) \<and> disk (a_os w') = disk (a_os t))"
        using x off t(4) u(4) part
        by (intro lend_data_runs [OF t(1,2,3)]) (simp_all add: bs)
      show "runs (obind (lend_data K ce t) (\<lambda>(retval, ub, w). Ret (c_int retval, ub, w))) ?Q"
        by (rule runs_seq [OF T]) (use int t(4) u(4) rd in auto)
    qed
    have "runs (obind (del_cache K w) (\<lambda>w. obind (alloc_cache K fd offset sz 0 w) (\<lambda>(first_ce, w).
          obind (mark_ent True first_ce w) (\<lambda>w. obind (finishes (submit_read K first_ce w)) (\<lambda>w.
          obind (read_ahead K True fd offset sz stride mx depth w) (\<lambda>w.
          obind (lend_data K first_ce w) (\<lambda>(retval, ub, w). Ret (c_int retval, ub, w)))))))) ?Q"
    proof (rule runs_seq [OF del_cache_runs [OF R V z [OF True]]], elim conjE)
      fix v
      assume v: "rep v (without c ps) B [] [] us []" "lively v (without c ps) [] []"
        "reads_only (reqs (a_os w)) \<longrightarrow> disk (a_os v) = disk (a_os w)"
      have "reads_only (reqs (a_os v))" using reads_only_lively [OF v(2)] by simp
      then show "runs (obind (alloc_cache K fd offset sz 0 v) (\<lambda>(first_ce, w).
          obind (mark_ent True first_ce w) (\<lambda>w. obind (finishes (submit_read K first_ce w)) (\<lambda>w.
          obind (read_ahead K True fd offset sz stride mx depth w) (\<lambda>w.
          obind (lend_data K first_ce w) (\<lambda>(retval, ub, w). Ret (c_int retval, ub, w))))))) ?Q"
        using v(3) ro by (intro new_request_loop [OF v(1,2) K] rest) auto
    qed
    then show ?thesis
      using True incache_rep [OF R] by (simp add: async_read_no_copy_def)
  qed
qed

lemma release_runs:
  assumes "reading w B (p # us)"
  shows "runs (async_release w) (\<lambda>w'. reading w' B us \<and> frame w w')"
proof -
  from assms obtain c ps where R: "rep w c B ps [] (p # us) []" and V: "lively w c ps []"
    by (auto simp: reading_def)
  have "p \<notin> set (ps @ [])" using R by (auto simp: rep_def linked_def)
  then have "lively w' (c(p := None)) ps []" if "frame w w'" for w'
    using V that by (simp add: lively_def kinds_upd sent_upd frame_def)
  then show ?thesis
    by (intro runs_mono [OF release_rep [OF R]]) (auto intro: readingI)
qed

end

end
