(* ===== verification/Libasync_Properties.thy ===== *)
theory Libasync_Properties
  imports Libasync_Tail Libasync_Write Libasync_Lend
begin

text \<open>
  A small system with asynchronous I/O that keeps the laws of \<open>aio_files\<close>, two states of the
  library on it, and the properties of \<open>libasync.c\<close>.
\<close>

section \<open>A small system\<close>

text \<open>
  A request is under way for one wait. The bytes of a write reach the file when it is submitted.
\<close>

record demo_io =
  dq_reqs :: "ptr \<Rightarrow> (aiocb \<times> nat) option"
  dq_file :: "int \<Rightarrow> byte list"

definition aio_answer :: "int \<Rightarrow> byte list \<Rightarrow> aio_ret" where
  "aio_answer n bs = \<lparr>ar_ret = n, ar_errno = 0, ar_data = bs\<rparr>"

definition overwrite :: "nat \<Rightarrow> byte list \<Rightarrow> byte list \<Rightarrow> byte list" where
  "overwrite i d b = take i b @ replicate (i - length b) 0 @ d @ drop (i + length d) b"

fun demo_io_sys :: "aio_call \<Rightarrow> demo_io \<Rightarrow> aio_ret \<times> demo_io" where
  "demo_io_sys (Aio_read p cb) s = (aio_answer 0 [], s\<lparr>dq_reqs := (dq_reqs s)(p \<mapsto> (cb, 1))\<rparr>)"
| "demo_io_sys (Aio_write p cb bs) s = (aio_answer 0 [], s\<lparr>dq_reqs := (dq_reqs s)(p \<mapsto> (cb, 1)),
     dq_file := (dq_file s)(aio_fildes cb := overwrite (nat (aio_offset cb)) bs (dq_file s (aio_fildes cb)))\<rparr>)"
| "demo_io_sys (Aio_error p) s = (case dq_reqs s p of None \<Rightarrow> (aio_answer 22 [], s)
     | Some (cb, n) \<Rightarrow> (aio_answer (if n = 0 then 0 else 115) [], s))"
| "demo_io_sys (Aio_suspend p) s = (case dq_reqs s p of None \<Rightarrow> (aio_answer 0 [], s)
     | Some (cb, n) \<Rightarrow> (aio_answer 0 [], s\<lparr>dq_reqs := (dq_reqs s)(p \<mapsto> (cb, n - 1))\<rparr>))"
| "demo_io_sys (Aio_return p) s = (case dq_reqs s p of None \<Rightarrow> (aio_answer (- 1) [], s)
     | Some (cb, n) \<Rightarrow>
         let bs = (if aio_lio_opcode cb = 0 then file_part (dq_file s (aio_fildes cb)) cb else [])
         in (aio_answer (if aio_lio_opcode cb = 0 then int (length bs) else uint (aio_nbytes cb)) bs,
             s\<lparr>dq_reqs := (dq_reqs s)(p := None)\<rparr>))"
| "demo_io_sys (Aio_cancel d p) s = (case dq_reqs s p of None \<Rightarrow> (aio_answer 2 [], s)
     | Some (cb, n) \<Rightarrow> (aio_answer (if n = 0 then 2 else 1) [], s\<lparr>dq_reqs := (dq_reqs s)(p \<mapsto> (cb, n - 1))\<rparr>))"

definition demo_io_machine :: "demo_io aio" where
  "demo_io_machine = \<lparr>ak_sys = demo_io_sys, ak_nomem = (\<lambda>_ _. False), ak_page = 4, ak_max_depth = 16\<rparr>"

definition demo_reqs :: "demo_io \<Rightarrow> ptr \<Rightarrow> aiocb option" where
  "demo_reqs s p = map_option fst (dq_reqs s p)"

definition demo_busy :: "demo_io \<Rightarrow> ptr \<Rightarrow> nat" where
  "demo_busy s p = (case dq_reqs s p of None \<Rightarrow> 0 | Some (cb, n) \<Rightarrow> n)"

definition demo_fin :: "demo_io \<Rightarrow> ptr \<Rightarrow> bool" where
  "demo_fin s p = (case dq_reqs s p of None \<Rightarrow> False | Some (cb, n) \<Rightarrow> n = 0)"

interpretation demo_io: aio_files demo_io_machine demo_reqs demo_busy demo_fin demo_fin dq_file
proof (unfold_locales, goal_cases)
  case 1
  then show ?case by (auto simp: demo_io_machine_def demo_reqs_def aio_answer_def fun_eq_iff)
next
  case 2
  then show ?case by (auto simp: demo_io_machine_def demo_reqs_def aio_answer_def fun_eq_iff)
next
  case 3
  then show ?case
    by (auto simp: demo_io_machine_def demo_reqs_def demo_busy_def demo_fin_def aio_answer_def split: if_splits)
next
  case 4
  then show ?case
    by (auto simp: demo_io_machine_def demo_reqs_def demo_busy_def aio_answer_def fun_eq_iff)
next
  case 5
  then show ?case
    by (auto simp: demo_io_machine_def demo_reqs_def demo_busy_def demo_fin_def aio_answer_def fun_eq_iff split: if_splits)
next
  case 6
  then show ?case .
next
  case 7
  then show ?case
    by (auto simp: demo_io_machine_def demo_reqs_def demo_fin_def aio_answer_def fun_eq_iff Let_def file_part_def)
qed

section \<open>States\<close>

text \<open>
  A file of six bytes behind descriptor 3 and a buffer of eight bytes of the caller at address 100;
  the library after \<open>async_init\<close>.
\<close>

definition idle_io :: demo_io where
  "idle_io = \<lparr>dq_reqs = (\<lambda>_. None), dq_file = (\<lambda>_. [])(3 := [10, 11, 12, 13, 14, 15])\<rparr>"

definition idle_async :: "demo_io async" where
  "idle_async = \<lparr>a_os = idle_io, a_errno = 0, a_ents = (\<lambda>_. None), a_blocks = [(100, 8)], a_mem = (\<lambda>_. 7),
     a_next = 200, a_gc = Some (gc_of [] [] []), a_gc_set = True, a_max_depth = 16, a_calls = []\<rparr>"

lemma idle_rep: "rep idle_async (\<lambda>_. None) {(100, 8)} [] [] [] []"
  by (auto simp: rep_def linked_def idle_async_def own_def single_def reals_def buf_of_def pays_def)

lemma idle_lively: "demo_io.lively idle_async (\<lambda>_. None) [] []"
  by (simp add: demo_io.lively_def idle_async_def idle_io_def demo_reqs_def sent_def kinds_def fun_eq_iff)

lemma room_demo: "room demo_io_machine 2"
  by (simp add: room_def demo_io_machine_def)

text \<open>Two reads ahead, of the bytes at 2 and at 4.\<close>

definition ahead_ent :: "ptr \<Rightarrow> int \<Rightarrow> cache_ent" where
  "ahead_ent p offset = fresh_ent demo_io_machine p 3 offset 2 0"

definition ahead_pay :: "ptr \<Rightarrow> cache_ent option" where
  "ahead_pay = [200 \<mapsto> ahead_ent 200 2, 208 \<mapsto> ahead_ent 208 4]"

definition ahead_async :: "demo_io async" where
  "ahead_async = idle_async\<lparr>
     a_os := idle_io\<lparr>dq_reqs := [200 \<mapsto> (ce_myaiocb (ahead_ent 200 2), 1), 208 \<mapsto> (ce_myaiocb (ahead_ent 208 4), 1)]\<rparr>,
     a_ents := [200 \<mapsto> (ahead_ent 200 2)\<lparr>ce_forward := 208, ce_back := 0\<rparr>,
                208 \<mapsto> (ahead_ent 208 4)\<lparr>ce_forward := 0, ce_back := 200\<rparr>],
     a_blocks := [(209, 6), (201, 6), (100, 8)], a_next := 216, a_gc := Some (gc_of [200, 208] [] [])\<rparr>"

lemma ahead_ent_sel [simp]:
  "ce_real_address (ahead_ent p i) = p + 1" "ce_direct (ahead_ent p i) = 0" "ce_fd (ahead_ent p i) = 3"
  "ce_myaiocb (ahead_ent p i) = \<lparr>aio_fildes = 3, aio_offset = i, aio_buf = page_align demo_io_machine (p + 1),
     aio_nbytes = 2, aio_lio_opcode = 0\<rparr>"
  "pay (ahead_ent p i) = ahead_ent p i" "pay ((ahead_ent p i)\<lparr>ce_forward := x, ce_back := y\<rparr>) = ahead_ent p i"
  by (simp_all add: ahead_ent_def fresh_ent_def blank_ent_def pay_def)

lemma ahead_own: "own ahead_pay [(209, 6), (201, 6), (100, 8)] 216 {(100, 8)}"
proof -
  have b: "buf_of ahead_pay = (\<lambda>p. if p = 208 then 209 else if p = 200 then 201 else 0)"
    by (auto simp: ahead_pay_def buf_of_def)
  have r: "reals ahead_pay = {201, 209}"
    by (auto simp: reals_def b)
  have "single ahead_pay"
    by (auto simp: single_def b inj_on_def)
  moreover have "fst ` (set [(209 :: ptr, 6 :: nat), (201, 6), (100, 8)] - {(100, 8)}) = {201, 209}"
    by (simp add: insert_Diff_if insert_commute)
  moreover have "\<forall>p e. ahead_pay p = Some e \<longrightarrow> 0 < p \<and> p < 216"
    by (auto simp: ahead_pay_def split: if_splits)
  ultimately show ?thesis
    by (simp add: own_def r)
qed

lemma ahead_rep: "rep ahead_async ahead_pay {(100, 8)} [200, 208] [] [] []"
proof -
  have "pays (a_ents ahead_async) = ahead_pay"
    by (auto simp: ahead_async_def ahead_pay_def pays_def fun_eq_iff)
  moreover have "buffered ahead_pay [(209, 6), (201, 6), (100, 8)] p" if "p \<in> {200, 208}" for p
    using that by (auto simp: buffered_def ahead_pay_def page_align_def demo_io_machine_def)
  ultimately show ?thesis
    using ahead_own by (simp add: rep_def linked_def ahead_async_def ahead_pay_def insert_commute)
qed

lemma ahead_lively: "demo_io.lively ahead_async ahead_pay [200, 208] []"
  by (auto simp: demo_io.lively_def ahead_async_def demo_reqs_def sent_def kinds_def ahead_pay_def fun_eq_iff)

text \<open>One write in flight.\<close>

definition write_ent :: cache_ent where
  "write_ent = fresh_ent demo_io_machine 200 3 0 2 1"

definition queued_async :: "demo_io async" where
  "queued_async = idle_async\<lparr>
     a_os := idle_io\<lparr>dq_reqs := [200 \<mapsto> (ce_myaiocb write_ent, 1)]\<rparr>,
     a_ents := [200 \<mapsto> write_ent], a_blocks := [(201, 6), (100, 8)], a_next := 208,
     a_gc := Some (gc_of [] [200] [])\<rparr>"

lemma write_ent_sel [simp]:
  "ce_real_address write_ent = 201" "ce_direct write_ent = 0" "ce_forward write_ent = 0" "pay write_ent = write_ent"
  "aio_lio_opcode (ce_myaiocb write_ent) = 1"
  by (simp_all add: write_ent_def fresh_ent_def blank_ent_def pay_def)

lemma queued_rep: "rep queued_async [200 \<mapsto> write_ent] {(100, 8)} [] [200] [] []"
proof -
  have b: "buf_of (\<lambda>_. None) = (\<lambda>_. 0)"
    by (auto simp: buf_of_def)
  have "reals [200 \<mapsto> write_ent] = {201}" "single [200 \<mapsto> write_ent]"
    by (auto simp: reals_def single_def b inj_on_def)
  moreover have "fst ` (set [(201 :: ptr, 6 :: nat), (100, 8)] - {(100, 8)}) = {201}"
    by (simp add: insert_Diff_if)
  ultimately have "own [200 \<mapsto> write_ent] [(201, 6), (100, 8)] 208 {(100, 8)}"
    by (simp add: own_def)
  moreover have "pays [200 \<mapsto> write_ent] = [200 \<mapsto> write_ent]"
    by (auto simp: pays_def)
  ultimately show ?thesis
    by (simp add: rep_def linked_def queued_async_def)
qed

lemma queued_lively: "demo_io.lively queued_async [200 \<mapsto> write_ent] [] [200]"
  by (auto simp: demo_io.lively_def queued_async_def demo_reqs_def sent_def kinds_def fun_eq_iff)

section \<open>Properties\<close>

text \<open>
  C20: \<open>async_read\<close> keeps what its comment promises, on any asynchronous I/O that keeps its laws:
  whether the data are in the cache or not, the read returns, with the number of bytes of the file
  from the offset on, at most the size asked for, and with exactly these bytes in the caller's
  buffer. The read-ahead that it issues, for any stride, depth and limit, leaves a well-formed
  cache whose requests are all in flight. The entry that is hit must not be the last of several, and
  on a miss the requests that are dropped must be on descriptor 0, the one they are cancelled with
  (as they are when the cache is empty).
\<close>

theorem async_read_delivers:
  assumes "aio_files K reqs busy fin over disk" "rep w c B ps [] us []" "aio_files.lively reqs w c ps []"
    and "room K sz" "c_int fd = fd" "0 \<le> offset" "(ub, l) \<in> B" "nat sz \<le> l" "sz < 2 ^ 31"
    and "1 < length ps \<Longrightarrow> lookup c fd offset sz ps \<noteq> last ps"
    and "lookup c fd offset sz ps = 0 \<Longrightarrow> on_zero c ps"
    and "bs = take (nat sz) (drop (nat offset) (disk (a_os w) fd))"
  shows "\<exists>w' c' ps'. async_read K fd ub offset sz stride mx depth w = Ret (int (length bs), w') \<and>
    map (a_mem w') [ub..<ub + length bs] = bs \<and>
    rep w' c' B ps' [] us [] \<and> aio_files.lively reqs w' c' ps' []"
  using aio_files.async_read_runs [OF assms, of stride mx depth] assms(1)
  by (simp add: runs_def aio_files.reading_def) blast

theorem async_read_delivers_witness:
  "\<exists>w' c' ps'. async_read demo_io_machine 3 100 2 2 1 6 2 idle_async = Ret (2, w') \<and>
    map (a_mem w') [100..<102] = [12, 13] \<and>
    rep w' c' {(100, 8)} ps' [] [] [] \<and> demo_io.lively w' c' ps' []"
  using async_read_delivers [OF demo_io.aio_files_axioms idle_rep idle_lively room_demo, of 3 2 100 8 "[12, 13]" 1 6 2]
  by (simp add: idle_async_def idle_io_def)

text \<open>
  C21: A hit on the last of several entries of the cache ends in a use of freed memory.
  \<open>takeoff_cache\<close> moves \<open>gc->tail\<close> only when the entry is the first one, for its test \<open>gc->head ==
  ce\<close> comes after that case has returned; so the tail keeps pointing to the entry that is freed,
  and the first new request of the read-ahead is linked behind it.
\<close>

theorem async_read_last_hit_crashes:
  assumes "aio_files K reqs busy fin over disk" "rep w c B ps [] us []" "aio_files.lively reqs w c ps []"
    and "room K sz" "0 \<le> offset" "(ub, l) \<in> B" "nat sz \<le> l"
    and "1 < length ps" "lookup c fd offset sz ps = last ps"
    and "stride \<noteq> 0" "c_llong (offset + sz) \<le> mx" "0 < depth" "depth < a_max_depth w - 1"
    and "r = c_llong (offset + c_llong ((if 2 < length ps then depth else 1) * c_llong (stride * sz)))"
    and "0 \<le> r" "c_llong (r + sz) \<le> mx" "lookup c fd r sz (butlast ps) = 0"
  shows "async_read K fd ub offset sz stride mx depth w = Crash BadHandle"
  using assms by (rule aio_files.async_read_last_hit)

theorem async_read_last_hit_crashes_witness:
  "async_read demo_io_machine 3 100 4 2 1 10 2 ahead_async = Crash BadHandle"
proof (rule async_read_last_hit_crashes [OF demo_io.aio_files_axioms ahead_rep ahead_lively room_demo, of 4 100 8 3 1 10 2 6])
  show "lookup ahead_pay 3 4 2 [200, 208] = last [200, 208]" "lookup ahead_pay 3 6 2 (butlast [200, 208]) = 0"
    by (simp_all add: lookup_def wanted_def ahead_pay_def)
qed (simp_all add: c_llong_def signed_take_bit_int_eq_self ahead_async_def idle_async_def)

text \<open>
  C22: \<open>async_write\<close> refines the queue of writes in flight: it returns the size, takes the oldest
  write off the queue, waited for and freed, exactly when more than \<open>depth\<close> are in flight, and puts
  the new one at the end; the request it submits has the caller's descriptor, offset and size and
  carries the bytes that were in the caller's buffer. Never more than \<open>depth + 1\<close> writes are in
  flight, if there were no more before.
\<close>

theorem async_write_queues:
  assumes "aio_files K reqs busy fin over disk" "rep w c B ps qs us []" "aio_files.lively reqs w c ps qs"
    and "room K sz" "fd \<noteq> 0" "(ub, l) \<in> B" "nat sz \<le> l"
    and q: "qs' = (if depth < int (length qs) then tl qs else qs)"
  shows "\<exists>w' c' ce b. async_write K fd ub sz offset depth w = Ret (word_of_int sz, w') \<and>
    rep w' c' B ps (qs' @ [ce]) us [] \<and> aio_files.lively reqs w' c' ps (qs' @ [ce]) \<and>
    last (a_calls w') = Aio_write ce \<lparr>aio_fildes = c_int fd, aio_offset = offset, aio_buf = b,
      aio_nbytes = word_of_int sz, aio_lio_opcode = 1\<rparr> (map (a_mem w) [ub..<ub + nat sz]) \<and>
    int (length (qs' @ [ce])) \<le> max (max depth 0 + 1) (int (length qs))"
proof -
  have "int (length (qs' @ [ce])) \<le> max (max depth 0 + 1) (int (length qs))" for ce
    by (cases qs) (auto simp: q)
  then show ?thesis
    using aio_files.async_write_runs [OF assms, of offset]
    unfolding runs_def by (simp add: split_beta) (metis surjective_pairing)
qed

theorem async_write_queues_witness:
  "\<exists>w' c' ce b. async_write demo_io_machine 3 100 2 6 4 idle_async = Ret (2, w') \<and>
    rep w' c' {(100, 8)} [] [ce] [] [] \<and> demo_io.lively w' c' [] [ce] \<and>
    last (a_calls w') = Aio_write ce \<lparr>aio_fildes = 3, aio_offset = 6, aio_buf = b,
      aio_nbytes = 2, aio_lio_opcode = 1\<rparr> [7, 7]"
  using async_write_queues [OF demo_io.aio_files_axioms idle_rep idle_lively room_demo, of 3 100 8 "[]" 4 6]
  by (simp add: idle_async_def upt_rec)

text \<open>
  When the system has no room for a write and no other write is in flight, \<open>async_write\<close> never
  returns, whatever the system answers afterwards: the write is already on the queue, the wait for
  the oldest write waits for a request that was never submitted and frees it, and the loop then
  submits the freed entry.
\<close>

theorem async_write_alone_never_returns:
  assumes "rep w c B ps [] us []" "room K sz" "fd \<noteq> 0" "(ub, l) \<in> B" "nat sz \<le> l" "no_room K (a_os w)"
  shows "async_write K fd ub sz offset depth w \<noteq> Ret r"
  using async_write_alone [OF assms, of offset depth "\<lambda>_. True"] by (cases r) (auto simp: runs_def)

definition full_io_machine :: "demo_io aio" where
  "full_io_machine = demo_io_machine\<lparr>ak_sys := (\<lambda>c s. case c of
     Aio_write p cb bs \<Rightarrow> (\<lparr>ar_ret = - 1, ar_errno = 11, ar_data = []\<rparr>, s) | _ \<Rightarrow> demo_io_sys c s)\<rparr>"

theorem async_write_alone_never_returns_witness:
  "\<not> (\<exists>r. async_write full_io_machine 3 100 2 6 4 idle_async = Ret r)"
proof -
  have "room full_io_machine 2" "no_room full_io_machine (a_os idle_async)"
    by (simp_all add: room_def no_room_def full_io_machine_def demo_io_machine_def)
  then show ?thesis
    using async_write_alone_never_returns [OF idle_rep, of full_io_machine 2 3 100 8 6 4] by simp
qed

text \<open>
  C23: \<open>end_async\<close> returns and frees all that the library has allocated: the reads that are ahead,
  if they are on descriptor 0, the one they are cancelled with, are cancelled or waited for, every
  write on the queue is waited for, no entry is left, of the buffers only the caller's remain, and
  no request is left in the system. The loops that wait end because each wait brings the request
  nearer its end.
\<close>

theorem end_async_frees_all:
  assumes "aio_files K reqs busy fin over disk" "rep w c B ps qs [] []" "aio_files.lively reqs w c ps qs" "on_zero c ps"
  shows "\<exists>w'. end_async K w = Ret w' \<and> a_gc w' = None \<and> a_ents w' = (\<lambda>_. None) \<and> set (a_blocks w') = B \<and>
    reqs (a_os w') = (\<lambda>_. None)"
  using aio_files.end_async_runs [OF assms] by (auto simp: runs_def)

theorem end_async_frees_all_witness:
  "\<exists>w'. end_async demo_io_machine queued_async = Ret w' \<and> a_gc w' = None \<and> a_ents w' = (\<lambda>_. None) \<and>
    set (a_blocks w') = {(100, 8)} \<and> demo_reqs (a_os w') = (\<lambda>_. None)"
  by (rule end_async_frees_all [OF demo_io.aio_files_axioms queued_rep queued_lively on_zero_Nil])

text \<open>
  \<open>async_read_no_copy\<close> lends its buffer: it returns the number of bytes of the file, at most the
  size asked for, and an address at which exactly these bytes lie, or the null pointer when there
  are none; and \<open>async_release\<close> then gives back this buffer and leaves the library as it was, ready
  for the next read.
\<close>

theorem async_read_no_copy_lends:
  assumes "aio_files K reqs busy fin over disk" "rep w c B ps [] us []" "aio_files.lively reqs w c ps []"
    and "room K sz" "c_int fd = fd" "0 \<le> offset" "sz < 2 ^ 31"
    and "1 < length ps \<Longrightarrow> lookup c fd offset sz ps \<noteq> last ps"
    and "lookup c fd offset sz ps = 0 \<Longrightarrow> on_zero c ps"
    and "bs = take (nat sz) (drop (nat offset) (disk (a_os w) fd))"
  shows "\<exists>ub w' w''. async_read_no_copy K fd offset sz stride mx depth w = Ret (int (length bs), ub, w') \<and>
    (if bs = [] then ub = 0 else map (a_mem w') [ub..<ub + length bs] = bs) \<and>
    async_release w' = Ret w'' \<and> aio_files.reading reqs w'' B us"
proof -
  note A = assms(1)
  from aio_files.async_read_no_copy_runs [OF assms, of stride mx depth]
  obtain n ub w' where x: "async_read_no_copy K fd offset sz stride mx depth w = Ret (n, ub, w')"
    and y: "n = int (length bs) \<and> (bs \<noteq> [] \<longrightarrow> map (a_mem w') [ub..<ub + length bs] = bs) \<and> (bs = [] \<longrightarrow> ub = 0) \<and>
      (\<exists>p. aio_files.reading reqs w' B (p # us)) \<and> disk (a_os w') = disk (a_os w)"
    unfolding runs_def by auto
  then obtain p where
    w': "async_read_no_copy K fd offset sz stride mx depth w = Ret (int (length bs), ub, w')"
      "if bs = [] then ub = 0 else map (a_mem w') [ub..<ub + length bs] = bs" "aio_files.reading reqs w' B (p # us)"
    by auto
  from aio_files.release_runs [OF A w'(3)] obtain w'' where "async_release w' = Ret w''" "aio_files.reading reqs w'' B us"
    by (auto simp: runs_def)
  with w' show ?thesis by blast
qed

theorem async_read_no_copy_lends_witness:
  "\<exists>ub w' w''. async_read_no_copy demo_io_machine 3 2 2 1 6 2 idle_async = Ret (2, ub, w') \<and>
    map (a_mem w') [ub..<ub + 2] = [12, 13] \<and> async_release w' = Ret w'' \<and> demo_io.reading w'' {(100, 8)} []"
  using async_read_no_copy_lends [OF demo_io.aio_files_axioms idle_rep idle_lively room_demo, of 3 2 "[12, 13]" 1 6 2]
  by (simp add: idle_async_def idle_io_def)

end
