(* ===== verification/Iozone_Wire.thy ===== *)
theory Iozone_Wire
  imports C_Numerals
begin

text \<open>
  The text format of the messages that the distributed mode of \<open>iozone.c\<close> sends over its
  sockets. A message is a C structure of character arrays and nothing else, so its bytes are those
  of its arrays, one after the other: a structure is here the list of the sizes of its members,
  and a member is its position in that list. The sender fills the members in a fixed order with
  \<open>strcpy\<close> and \<open>sprintf\<close>, which write past the end of a member that is too small; the receiver
  reads them with \<open>sscanf\<close>, which reads up to the next null byte, wherever that is.
\<close>

section \<open>Loops that may not end\<close>

text \<open>A step of a loop that may not end.\<close>

primrec ostep :: "'a outcome \<Rightarrow> ('a \<Rightarrow> 'b outcome option) \<Rightarrow> 'b outcome option" where
  "ostep (Ret x) f = f x"
| "ostep (Crash c) f = Some (Crash c)"
| "ostep (Exit n) f = Some (Exit n)"
| "ostep Hang f = Some Hang"

definition loops :: "'a outcome option \<Rightarrow> 'a outcome" where
  "loops x = (case x of None \<Rightarrow> Hang | Some r \<Rightarrow> r)"

lemma ostep_mono [partial_function_mono]:
  "(\<And>x. mono_option (\<lambda>f. g x f)) \<Longrightarrow> mono_option (\<lambda>f. ostep p (\<lambda>x. g x f))"
  by (cases p) (auto intro: option.const_mono)

section \<open>Strings in memory\<close>

abbreviation nul :: char where
  "nul \<equiv> CHR 0x00"

definition put_string :: "nat \<Rightarrow> string \<Rightarrow> string \<Rightarrow> string outcome" where
  "put_string off s m =
     (if off + length s + 1 \<le> length m then Ret (buf_put off (s @ [nul]) m)
      else Crash BufferOverflow)"

definition c_string :: "nat \<Rightarrow> string \<Rightarrow> string" where
  "c_string off m = takeWhile (\<lambda>c. c \<noteq> nul) (drop off m)"

section \<open>The conversions of \<open>sscanf\<close>\<close>

text \<open>
  \<open>%d\<close> and \<open>%lld\<close> skip white space and read an optional sign and the longest run of digits; as in
  glibc the number saturates at 64 bits, and \<open>%d\<close> stores its low 32 bits. \<open>%s\<close> skips white space
  and reads up to the next white space. Without a digit or a character, nothing is stored.
\<close>

definition scan_number :: "string \<Rightarrow> int option" where
  "scan_number str =
     (let s = dropWhile is_space str;
          neg = (s \<noteq> [] \<and> hd s = CHR ''-'');
          s = (if s \<noteq> [] \<and> (hd s = CHR ''-'' \<or> hd s = CHR ''+'') then tl s else s);
          ds = takeWhile is_digit s;
          v = int (digits_val ds)
      in if ds = [] then None else Some (if neg then - v else v))"

definition saturate64 :: "int \<Rightarrow> int" where
  "saturate64 v = (if v < - (2 ^ 63) then - (2 ^ 63) else if 2 ^ 63 \<le> v then 2 ^ 63 - 1 else v)"

definition scan_d :: "string \<Rightarrow> int option" where
  "scan_d s = map_option (\<lambda>v. c_int (saturate64 v)) (scan_number s)"

definition scan_lld :: "string \<Rightarrow> int option" where
  "scan_lld s = map_option saturate64 (scan_number s)"

definition scan_s :: "string \<Rightarrow> string option" where
  "scan_s str =
     (let t = takeWhile (\<lambda>c. \<not> is_space c) (dropWhile is_space str)
      in if t = [] then None else Some t)"

lemma scan_number_show_int [simp]: "scan_number (show_int x) = Some x"
proof -
  obtain c cs where c: "show_nat (nat \<bar>x\<bar>) = c # cs" "is_digit c"
    using show_nat_Cons by blast
  then have "\<not> is_space c" "c \<noteq> CHR ''-''" "c \<noteq> CHR ''+''"
    using digit_not_special by blast+
  moreover have "takeWhile is_digit (c # cs) = c # cs" "digits_val (c # cs) = nat \<bar>x\<bar>"
    using takeWhile_show_nat [of "nat \<bar>x\<bar>"] digits_val_show_nat [of "nat \<bar>x\<bar>"]
    unfolding c(1) by simp_all
  moreover have "\<not> is_space (CHR ''-'')"
    by (simp add: is_space_def)
  ultimately show ?thesis
    using c(1) by (cases "x < 0") (simp_all add: show_int_def scan_number_def Let_def abs_if)
qed

lemma scan_number_digits:
  "\<forall>c \<in> set s. is_digit c \<Longrightarrow> s \<noteq> [] \<Longrightarrow> scan_number s = Some (int (digits_val s))"
proof (cases s)
  case (Cons c cs)
  assume "\<forall>c \<in> set s. is_digit c"
  with Cons have "is_digit c" "\<forall>c \<in> set cs. is_digit c"
    by auto
  with digit_not_special Cons show ?thesis
    by (auto simp: scan_number_def Let_def takeWhile_eq_all_conv [THEN iffD2])
qed simp

lemma saturate64_id [simp]: "- (2 ^ 63) \<le> v \<Longrightarrow> v < 2 ^ 63 \<Longrightarrow> saturate64 v = v"
  by (simp add: saturate64_def)

lemma scan_d_show_int: "- (2 ^ 31) \<le> x \<Longrightarrow> x < 2 ^ 31 \<Longrightarrow> scan_d (show_int x) = Some x"
  by (simp add: scan_d_def)

lemma scan_lld_show_int: "- (2 ^ 63) \<le> x \<Longrightarrow> x < 2 ^ 63 \<Longrightarrow> scan_lld (show_int x) = Some x"
  by (simp add: scan_lld_def)

lemma scan_s_word:
  assumes "s \<noteq> []" "\<forall>c \<in> set s. \<not> is_space c"
  shows "scan_s s = Some s"
proof -
  from assms have "dropWhile is_space s = s"
    by (cases s) auto
  with assms show ?thesis
    by (simp add: scan_s_def Let_def takeWhile_eq_all_conv [THEN iffD2])
qed

lemma scan_s_Nil [simp]: "scan_s [] = None"
  by (simp add: scan_s_def)

lemma nul_notin_show_nat [simp]: "nul \<notin> set (show_nat n)"
  using show_nat_digits [of n] by (auto simp: is_digit_def)

lemma nul_notin_show_int [simp]: "nul \<notin> set (show_int x)"
  by (simp add: show_int_def)

section \<open>Sending\<close>

text \<open>
  The conversion of a member: \<open>Text\<close> is \<open>strcpy\<close> and \<open>%s\<close>, \<open>D\<close> is \<open>%d\<close>, \<open>LLD\<close> is \<open>%lld\<close>, \<open>F\<close> is
  \<open>%f\<close>. The values of the members are functions of their positions. How \<open>%f\<close> prints and reads a
  \<open>float\<close> is left to the record \<open>float_io\<close> over any type of such numbers.
\<close>

datatype conv = Text | D | LLD | F

type_synonym item = "conv \<times> nat"

record 'f command =
  c_txt :: "nat \<Rightarrow> string"
  c_num :: "nat \<Rightarrow> int"
  c_flt :: "nat \<Rightarrow> 'f"

record 'f float_io =
  fl_zero :: 'f
  fl_print :: "'f \<Rightarrow> string"
  fl_scan :: "string \<Rightarrow> 'f option"

fun item_text :: "'f float_io \<Rightarrow> 'f command \<Rightarrow> item \<Rightarrow> string" where
  "item_text fio c (Text, k) = c_txt c k"
| "item_text fio c (D, k) = show_int (c_num c k)"
| "item_text fio c (LLD, k) = show_int (c_num c k)"
| "item_text fio c (F, k) = fl_print fio (c_flt c k)"

definition offset :: "nat list \<Rightarrow> nat \<Rightarrow> nat" where
  "offset sizes k = sum_list (take k sizes)"

definition blank :: "nat list \<Rightarrow> string" where
  "blank sizes = replicate (sum_list sizes) nul"

fun put_items :: "'f float_io \<Rightarrow> nat list \<Rightarrow> 'f command \<Rightarrow> item list \<Rightarrow> string \<Rightarrow> string outcome"
where
  "put_items fio sizes c [] m = Ret m"
| "put_items fio sizes c (it # its) m =
     obind (put_string (offset sizes (snd it)) (item_text fio c it) m) (put_items fio sizes c its)"

section \<open>Receiving\<close>

text \<open>
  \<open>bzero\<close> of the structure of values, and \<open>sscanf\<close> of the members in a fixed order. The arrays that
  \<open>%s\<close> stores into have the sizes of the members they are read from.
\<close>

definition zero_command :: "'f float_io \<Rightarrow> 'f command" where
  "zero_command fio = \<lparr>c_txt = \<lambda>_. [], c_num = \<lambda>_. 0, c_flt = \<lambda>_. fl_zero fio\<rparr>"

fun scan_item :: "'f float_io \<Rightarrow> nat list \<Rightarrow> item \<Rightarrow> string \<Rightarrow> 'f command \<Rightarrow> 'f command outcome" where
  "scan_item fio sizes (Text, k) s c =
     (case scan_s s of None \<Rightarrow> Ret c
      | Some t \<Rightarrow> obind (c_strcpy (sizes ! k) t) (\<lambda>t. Ret (c\<lparr>c_txt := (c_txt c)(k := t)\<rparr>)))"
| "scan_item fio sizes (D, k) s c =
     (case scan_d s of None \<Rightarrow> Ret c | Some v \<Rightarrow> Ret (c\<lparr>c_num := (c_num c)(k := v)\<rparr>))"
| "scan_item fio sizes (LLD, k) s c =
     (case scan_lld s of None \<Rightarrow> Ret c | Some v \<Rightarrow> Ret (c\<lparr>c_num := (c_num c)(k := v)\<rparr>))"
| "scan_item fio sizes (F, k) s c =
     (case fl_scan fio s of None \<Rightarrow> Ret c | Some v \<Rightarrow> Ret (c\<lparr>c_flt := (c_flt c)(k := v)\<rparr>))"

fun scan_items :: "'f float_io \<Rightarrow> nat list \<Rightarrow> item list \<Rightarrow> string \<Rightarrow> 'f command \<Rightarrow> 'f command outcome"
where
  "scan_items fio sizes [] buf c = Ret c"
| "scan_items fio sizes (it # its) buf c =
     obind (scan_item fio sizes it (c_string (offset sizes (snd it)) buf) c)
       (scan_items fio sizes its buf)"

section \<open>Members as padded strings\<close>

text \<open>
  The bytes of a structure are its members, each a string padded with null bytes. A member that is
  filled to its last byte has no terminator: its string goes on in the next member.
\<close>

definition pad :: "nat \<Rightarrow> string \<Rightarrow> string" where
  "pad n s = s @ replicate (n - length s) nul"

definition packed :: "nat list \<Rightarrow> (nat \<Rightarrow> string) \<Rightarrow> string" where
  "packed sizes f = concat (map (\<lambda>k. pad (sizes ! k) (f k)) [0..<length sizes])"

definition member_room :: "nat list \<Rightarrow> (nat \<Rightarrow> string) \<Rightarrow> bool" where
  "member_room sizes f \<longleftrightarrow> (\<forall>k < length sizes. length (f k) \<le> sizes ! k \<and> nul \<notin> set (f k))"

lemma length_pad [simp]: "length s \<le> n \<Longrightarrow> length (pad n s) = n"
  by (simp add: pad_def)

lemma concat_pads_length:
  "\<forall>k \<in> set ks. length (f k) \<le> sizes ! k \<Longrightarrow>
   length (concat (map (\<lambda>k. pad (sizes ! k) (f k)) ks)) = sum_list (map ((!) sizes) ks)"
  by (induction ks) auto

lemma offset_eq: "k \<le> length sizes \<Longrightarrow> offset sizes k = sum_list (map ((!) sizes) [0..<k])"
proof (induction k)
  case (Suc k)
  then show ?case by (simp add: offset_def take_Suc_conv_app_nth)
qed (simp add: offset_def)

lemma offset_Suc: "k < length sizes \<Longrightarrow> offset sizes (Suc k) = offset sizes k + sizes ! k"
  by (simp add: offset_def take_Suc_conv_app_nth)

lemma packed_split:
  assumes "k < length sizes" "member_room sizes f"
  obtains A B where "packed sizes f = A @ pad (sizes ! k) (f k) @ B"
    and "length A = offset sizes k"
    and "\<And>g. (\<And>j. j \<noteq> k \<Longrightarrow> g j = f j) \<Longrightarrow> packed sizes g = A @ pad (sizes ! k) (g k) @ B"
    and "B = (if Suc k < length sizes then pad (sizes ! Suc k) (f (Suc k)) else []) @
              concat (map (\<lambda>k. pad (sizes ! k) (f k)) [Suc (Suc k)..<length sizes])"
proof -
  let ?P = "\<lambda>g ks. concat (map (\<lambda>k. pad (sizes ! k) (g k)) ks)"
  have ks: "[0..<length sizes] = [0..<k] @ k # [Suc k..<length sizes]"
    using assms(1) upt_add_eq_append [of 0 k "length sizes - k"] by (simp add: upt_conv_Cons)
  have "length (?P f [0..<k]) = offset sizes k"
    using assms by (subst concat_pads_length) (auto simp: member_room_def offset_eq)
  moreover have "packed sizes g = ?P f [0..<k] @ pad (sizes ! k) (g k) @ ?P f [Suc k..<length sizes]"
    if "\<And>j. j \<noteq> k \<Longrightarrow> g j = f j" for g
  proof -
    have "?P g [0..<k] = ?P f [0..<k]" "?P g [Suc k..<length sizes] = ?P f [Suc k..<length sizes]"
      using that by (auto intro!: arg_cong [where f = concat] map_cong)
    then show ?thesis by (simp add: packed_def ks)
  qed
  moreover have "?P f [Suc k..<length sizes] =
      (if Suc k < length sizes then pad (sizes ! Suc k) (f (Suc k)) else []) @
      ?P f [Suc (Suc k)..<length sizes]"
    by (auto simp: upt_conv_Cons)
  ultimately show thesis using that by blast
qed

lemma c_string_packed:
  assumes "k < length sizes" "member_room sizes f"
  shows "c_string (offset sizes k) (packed sizes f @ rest) =
     (if length (f k) < sizes ! k then f k
      else f k @ c_string (offset sizes (Suc k)) (packed sizes f @ rest))"
proof -
  obtain A B where AB: "packed sizes f = A @ pad (sizes ! k) (f k) @ B" "length A = offset sizes k"
    using packed_split [OF assms] by blast
  have k: "length (f k) \<le> sizes ! k" "nul \<notin> set (f k)"
    using assms by (auto simp: member_room_def)
  then have c: "takeWhile (\<lambda>c. c \<noteq> nul) (f k @ xs) = f k @ takeWhile (\<lambda>c. c \<noteq> nul) xs" for xs
    by (intro takeWhile_append2) auto
  show ?thesis
  proof (cases "length (f k) < sizes ! k")
    case True
    then obtain n where "sizes ! k - length (f k) = Suc n"
      by (metis Suc_diff_Suc)
    with AB True show ?thesis
      by (simp add: c_string_def pad_def c)
  next
    case False
    with k have l: "length (f k) = sizes ! k" by simp
    have "drop (offset sizes (Suc k)) (packed sizes f @ rest) = B @ rest"
      using AB l assms(1) by (simp add: offset_Suc pad_def)
    with AB l show ?thesis
      by (simp add: c_string_def pad_def c)
  qed
qed

text \<open>
  Filling an empty member, with a string that fits or one that fills it exactly while the next
  member is still empty.
\<close>

lemma put_string_packed:
  assumes k: "k < length sizes" and f: "member_room sizes f" "f k = []"
    and s: "length s \<le> sizes ! k" "nul \<notin> set s"
    and full: "length s = sizes ! k \<Longrightarrow> Suc k < length sizes \<and> f (Suc k) = [] \<and> 0 < sizes ! Suc k"
  shows "put_string (offset sizes k) s (packed sizes f) = Ret (packed sizes (f(k := s)))"
proof -
  obtain A B where A: "packed sizes f = A @ pad (sizes ! k) (f k) @ B" "length A = offset sizes k"
    and g: "\<And>g. (\<And>j. j \<noteq> k \<Longrightarrow> g j = f j) \<Longrightarrow> packed sizes g = A @ pad (sizes ! k) (g k) @ B"
    and B: "B = (if Suc k < length sizes then pad (sizes ! Suc k) (f (Suc k)) else []) @
              concat (map (\<lambda>k. pad (sizes ! k) (f k)) [Suc (Suc k)..<length sizes])"
    using packed_split [OF k f(1)] by blast
  have p: "packed sizes (f(k := s)) = A @ pad (sizes ! k) s @ B"
    using g [of "f(k := s)"] by simp
  have e: "pad (sizes ! k) (f k) = replicate (sizes ! k) nul"
    by (simp add: pad_def f(2))
  have put: "put_string (offset sizes k) s (packed sizes f) =
      Ret (A @ s @ nul # drop (Suc (length s)) (replicate (sizes ! k) nul @ B))"
    if "Suc (length s) \<le> sizes ! k + length B"
    using that A by (simp add: put_string_def buf_put_def e)
  show ?thesis
  proof (cases "length s < sizes ! k")
    case True
    then obtain n where n: "sizes ! k = length s + Suc n"
      using less_imp_Suc_add by fastforce
    with put p show ?thesis by (simp add: pad_def)
  next
    case False
    with s full obtain n where n: "Suc k < length sizes" "f (Suc k) = []" "sizes ! Suc k = Suc n"
      by (metis le_neq_implies_less not0_implies_Suc not_less_zero)
    with B obtain C where "B = nul # C" by (simp add: pad_def)
    moreover have "length s = sizes ! k" using False s by simp
    ultimately show ?thesis using put p by (simp add: pad_def)
  qed
qed


section \<open>A message that fits\<close>

text \<open>
  The items \<open>land\<close> in the empty structure when no member is filled twice, each string fits into its
  member, and one that leaves no place for its terminator is followed by a member that is filled
  later.
\<close>

fun land :: "'f float_io \<Rightarrow> nat list \<Rightarrow> 'f command \<Rightarrow> item list \<Rightarrow> nat set \<Rightarrow> bool" where
  "land fio sizes c [] W = True"
| "land fio sizes c (it # its) W =
     (let k = snd it; s = item_text fio c it in
      k < length sizes \<and> k \<notin> W \<and> length s \<le> sizes ! k \<and> nul \<notin> set s \<and>
      (length s = sizes ! k \<longrightarrow> Suc k < length sizes \<and> Suc k \<notin> W \<and> 0 < sizes ! Suc k) \<and>
      land fio sizes c its (insert k W))"

definition member_text :: "'f float_io \<Rightarrow> 'f command \<Rightarrow> item list \<Rightarrow> nat \<Rightarrow> string" where
  "member_text fio c its k = (case filter (\<lambda>it. snd it = k) its of [] \<Rightarrow> [] | it # _ \<Rightarrow> item_text fio c it)"

lemma member_text_Nil [simp]: "member_text fio c [] = (\<lambda>_. [])"
  by (simp add: member_text_def fun_eq_iff)

lemma member_text_Cons: "member_text fio c (it # its) = (member_text fio c its)(snd it := item_text fio c it)"
  by (auto simp: member_text_def fun_eq_iff)

lemma member_text_in: "it \<in> set its \<Longrightarrow> distinct (map snd its) \<Longrightarrow>
    member_text fio c its (snd it) = item_text fio c it"
  by (induction its) (auto simp: member_text_Cons image_iff)

lemma land_append:
  "land fio sizes c (a @ b) W \<longleftrightarrow> land fio sizes c a W \<and> land fio sizes c b (W \<union> snd ` set a)"
  by (induction a arbitrary: W) (auto simp: Let_def)

lemma land_notin: "land fio sizes c its W \<Longrightarrow> k \<in> snd ` set its \<Longrightarrow> k \<notin> W"
  by (induction its arbitrary: W) (auto simp: Let_def)

lemma put_items_packed:
  assumes "land fio sizes c its W" "member_room sizes f" "\<And>k. k \<notin> W \<Longrightarrow> f k = []"
  shows "\<exists>g. put_items fio sizes c its (packed sizes f) = Ret (packed sizes g) \<and> member_room sizes g \<and>
     (\<forall>k. g k = (if k \<in> snd ` set its then member_text fio c its k else f k))"
  using assms
proof (induction its arbitrary: f W)
  case (Cons it its)
  define k s where "k = snd it" and "s = item_text fio c it"
  with Cons.prems(1) have k: "k < length sizes" "k \<notin> W" "length s \<le> sizes ! k" "nul \<notin> set s"
      "length s = sizes ! k \<Longrightarrow> Suc k < length sizes \<and> Suc k \<notin> W \<and> 0 < sizes ! Suc k"
      "land fio sizes c its (insert k W)"
    by (simp_all add: Let_def)
  have put: "put_string (offset sizes k) s (packed sizes f) = Ret (packed sizes (f(k := s)))"
    using k Cons.prems by (intro put_string_packed) auto
  have "member_room sizes (f(k := s))" using Cons.prems(2) k by (auto simp: member_room_def)
  moreover have "j \<notin> insert k W \<Longrightarrow> (f(k := s)) j = []" for j
    using Cons.prems(3) by simp
  ultimately obtain g where g: "put_items fio sizes c its (packed sizes (f(k := s))) = Ret (packed sizes g)"
      "member_room sizes g" "\<And>j. g j = (if j \<in> snd ` set its then member_text fio c its j else (f(k := s)) j)"
    using Cons.IH [OF k(6), of "f(k := s)"] by blast
  have "k \<notin> snd ` set its"
    using land_notin [OF k(6)] by blast
  then have "g j = (if j \<in> snd ` set (it # its) then member_text fio c (it # its) j else f j)" for j
    using g(3) [of j] by (simp add: member_text_Cons k_def s_def)
  moreover have "put_items fio sizes c (it # its) (packed sizes f) = Ret (packed sizes g)"
    using put g(1) unfolding k_def s_def by simp
  ultimately show ?case using g(2) by blast
qed auto

lemma packed_Nil: "packed sizes (\<lambda>_. []) = blank sizes"
proof -
  have "concat (map (\<lambda>k. replicate (sizes ! k) nul) ks) = replicate (sum_list (map ((!) sizes) ks)) nul"
    for ks by (induction ks) (simp_all add: replicate_add)
  then show ?thesis by (simp add: packed_def pad_def blank_def map_nth)
qed


definition encode :: "'f float_io \<Rightarrow> nat list \<Rightarrow> item list \<Rightarrow> 'f command \<Rightarrow> string outcome" where
  "encode fio sizes its c = put_items fio sizes c its (blank sizes)"

lemma member_room_Nil [simp]: "member_room sizes (\<lambda>_. [])"
  by (simp add: member_room_def)

lemma encode_packed:
  assumes "land fio sizes c its {}"
  shows "encode fio sizes its c = Ret (packed sizes (member_text fio c its))"
    and "member_room sizes (member_text fio c its)"
proof -
  obtain g where g: "put_items fio sizes c its (packed sizes (\<lambda>_. [])) = Ret (packed sizes g)"
      "member_room sizes g" "\<forall>k. g k = (if k \<in> snd ` set its then member_text fio c its k else [])"
    using put_items_packed [OF assms, of "\<lambda>_. []"] by auto
  have "member_text fio c its k = []" if "k \<notin> snd ` set its" for k
    using that by (induction its) (auto simp: member_text_Cons)
  with g(3) have "g = member_text fio c its" by fastforce
  with g(1,2) show "encode fio sizes its c = Ret (packed sizes (member_text fio c its))"
    "member_room sizes (member_text fio c its)"
    by (simp_all add: encode_def packed_Nil)
qed

lemma length_packed: "member_room sizes f \<Longrightarrow> length (packed sizes f) = sum_list sizes"
  unfolding packed_def by (subst concat_pads_length) (auto simp: member_room_def map_nth)

text \<open>The simple case: every string leaves place for its terminator.\<close>

definition msg_fits :: "'f float_io \<Rightarrow> nat list \<Rightarrow> 'f command \<Rightarrow> item list \<Rightarrow> bool" where
  "msg_fits fio sizes c its \<longleftrightarrow>
     (\<forall>it \<in> set its. length (item_text fio c it) < sizes ! snd it \<and> nul \<notin> set (item_text fio c it))"

lemma msg_fits_mono: "msg_fits fio sizes c its \<Longrightarrow> set its' \<subseteq> set its \<Longrightarrow> msg_fits fio sizes c its'"
  unfolding msg_fits_def by blast

lemma msg_fits_land:
  "msg_fits fio sizes c its \<Longrightarrow> distinct (map snd its) \<Longrightarrow>
   \<forall>it \<in> set its. snd it < length sizes \<and> snd it \<notin> W \<Longrightarrow> land fio sizes c its W"
proof (induction its arbitrary: W)
  case (Cons it its)
  then have "\<forall>it' \<in> set its. snd it' \<noteq> snd it"
    by (metis distinct.simps(2) image_eqI list.set_map list.simps(9))
  with Cons.prems have "\<forall>it' \<in> set its. snd it' < length sizes \<and> snd it' \<notin> insert (snd it) W"
    by simp
  with Cons show ?case by (simp add: msg_fits_def Let_def)
qed simp

lemma msg_fits_c_string:
  assumes "msg_fits fio sizes c its" "distinct (map snd its)" "it \<in> set its" "snd it < length sizes"
    and "member_room sizes (member_text fio c its)"
  shows "c_string (offset sizes (snd it)) (packed sizes (member_text fio c its) @ rest) = item_text fio c it"
  using assms by (simp add: c_string_packed member_text_in msg_fits_def)

lemma encode_fits:
  assumes "msg_fits fio sizes c its" "distinct (map snd its)" "\<forall>it \<in> set its. snd it < length sizes"
  shows "\<exists>m. encode fio sizes its c = Ret m \<and> length m = sum_list sizes \<and>
     (\<forall>it \<in> set its. \<forall>rest. c_string (offset sizes (snd it)) (m @ rest) = item_text fio c it)"
proof -
  have "land fio sizes c its {}"
    using assms by (intro msg_fits_land) auto
  note enc = encode_packed [OF this]
  with assms msg_fits_c_string [OF assms(1,2) _ _ enc(2)] show ?thesis
    by (simp add: length_packed)
qed

section \<open>Reading it back\<close>

text \<open>
  The numbers that come back are those in range, the words those without white space; an empty
  string stores nothing.
\<close>

fun readable :: "'f command \<Rightarrow> item \<Rightarrow> bool" where
  "readable c (Text, k) = (\<forall>x \<in> set (c_txt c k). \<not> is_space x)"
| "readable c (D, k) = (- (2 ^ 31) \<le> c_num c k \<and> c_num c k < 2 ^ 31)"
| "readable c (LLD, k) = (- (2 ^ 63) \<le> c_num c k \<and> c_num c k < 2 ^ 63)"
| "readable c (F, k) = True"

definition read_back :: "'f float_io \<Rightarrow> 'f command \<Rightarrow> item list \<Rightarrow> 'f command \<Rightarrow> 'f command" where
  "read_back fio c its d = \<lparr>
     c_txt = \<lambda>k. if (Text, k) \<in> set its \<and> c_txt c k \<noteq> [] then c_txt c k else c_txt d k,
     c_num = \<lambda>k. if (D, k) \<in> set its \<or> (LLD, k) \<in> set its then c_num c k else c_num d k,
     c_flt = \<lambda>k. if (F, k) \<in> set its
                  then case fl_scan fio (fl_print fio (c_flt c k)) of Some v \<Rightarrow> v | None \<Rightarrow> c_flt d k
                  else c_flt d k\<rparr>"

lemma scan_item_read_back:
  assumes "readable c it" "fst it = Text \<Longrightarrow> length (item_text fio c it) < sizes ! snd it"
  shows "scan_item fio sizes it (item_text fio c it) d = Ret (read_back fio c [it] d)"
proof (cases it)
  case (Pair cv k)
  show ?thesis
  proof (cases cv)
    case Text
    with assms Pair show ?thesis
      by (cases "c_txt c k = []") (auto simp: scan_s_word read_back_def fun_eq_iff c_strcpy_def)
  next
    case F
    with Pair show ?thesis by (auto simp: read_back_def fun_eq_iff split: option.splits)
  qed (use assms Pair in \<open>auto simp: scan_d_show_int scan_lld_show_int read_back_def fun_eq_iff\<close>)
qed

lemma read_back_Cons: "read_back fio c its (read_back fio c [it] d) = read_back fio c (it # its) d"
  by (auto simp: read_back_def fun_eq_iff split: option.splits)

lemma scan_items_read_back:
  assumes "\<forall>it \<in> set its. readable c it \<and> (fst it = Text \<longrightarrow> length (item_text fio c it) < sizes ! snd it) \<and>
     c_string (offset sizes (snd it)) buf = item_text fio c it"
  shows "scan_items fio sizes its buf d = Ret (read_back fio c its d)"
  using assms
proof (induction its arbitrary: d)
  case (Cons it its)
  then show ?case by (simp add: scan_item_read_back read_back_Cons)
qed (simp add: read_back_def)

end
