(* ===== verification/Iozone_Messages.thy ===== *)
theory Iozone_Messages
  imports Iozone_Wire
begin

text \<open>
  The messages of the distributed mode of \<open>example/iozone3_487/src/current/iozone.c\<close>: what the
  members of the structures are, which of them are sent and read in which order, how the master
  fills a command for a client with its settings (\<open>pick_client\<close>) and how the client takes them
  over (\<open>become_client\<close>). The branches are those of a system with a 64-bit \<open>long\<close> and \<open>%lld\<close>.
\<close>

section \<open>Values\<close>

text \<open>
  The integer types of the variables and the conversion to them. The settings are the global
  variables by name, \<open>s_flt\<close> is \<open>compute_time\<close>. Every slot of \<open>filearray\<close> points to \<open>tfile\<close> on a
  client, which is started without a file name.
\<close>

datatype ctype = CChar | CInt | CUInt | CLong

fun cast :: "ctype \<Rightarrow> int \<Rightarrow> int" where
  "cast CChar x = signed_take_bit 7 x"
| "cast CInt x = signed_take_bit 31 x"
| "cast CUInt x = take_bit 32 x"
| "cast CLong x = signed_take_bit 63 x"

record 'f settings =
  s_num :: "string \<Rightarrow> int"
  s_txt :: "string \<Rightarrow> string"
  s_flt :: 'f

record child_ident =
  ci_child_name :: string
  ci_workdir :: string
  ci_execute_path :: string
  ci_file_name :: string
  ci_state :: int
  ci_child_number :: int
  ci_child_port :: int
  ci_child_async_port :: int
  ci_master_socket_num :: int
  ci_master_async_socket_num :: int

section \<open>Members\<close>

text \<open>
  The members of \<open>struct client_command\<close> and \<open>struct client_neutral_command\<close>, which have the same
  names, and of \<open>struct master_command\<close> and \<open>struct master_neutral_command\<close>: their positions in
  the structure of character arrays.
\<close>

abbreviation (input) C_host_name :: nat where "C_host_name \<equiv> 0"
abbreviation (input) C_pit_hostname :: nat where "C_pit_hostname \<equiv> 1"
abbreviation (input) C_pit_service :: nat where "C_pit_service \<equiv> 2"
abbreviation (input) C_client_name :: nat where "C_client_name \<equiv> 3"
abbreviation (input) C_working_dir :: nat where "C_working_dir \<equiv> 4"
abbreviation (input) C_file_name :: nat where "C_file_name \<equiv> 5"
abbreviation (input) C_path_dir :: nat where "C_path_dir \<equiv> 6"
abbreviation (input) C_execute_name :: nat where "C_execute_name \<equiv> 7"
abbreviation (input) C_write_traj_filename :: nat where "C_write_traj_filename \<equiv> 8"
abbreviation (input) C_read_traj_filename :: nat where "C_read_traj_filename \<equiv> 9"
abbreviation (input) C_oflag :: nat where "C_oflag \<equiv> 10"
abbreviation (input) C_mfflag :: nat where "C_mfflag \<equiv> 11"
abbreviation (input) C_unbuffered :: nat where "C_unbuffered \<equiv> 12"
abbreviation (input) C_noretest :: nat where "C_noretest \<equiv> 13"
abbreviation (input) C_notruncate :: nat where "C_notruncate \<equiv> 14"
abbreviation (input) C_read_sync :: nat where "C_read_sync \<equiv> 15"
abbreviation (input) C_jflag :: nat where "C_jflag \<equiv> 16"
abbreviation (input) C_async_flag :: nat where "C_async_flag \<equiv> 17"
abbreviation (input) C_k_flag :: nat where "C_k_flag \<equiv> 18"
abbreviation (input) C_h_flag :: nat where "C_h_flag \<equiv> 19"
abbreviation (input) C_mflag :: nat where "C_mflag \<equiv> 20"
abbreviation (input) C_pflag :: nat where "C_pflag \<equiv> 21"
abbreviation (input) C_stride_flag :: nat where "C_stride_flag \<equiv> 22"
abbreviation (input) C_verify :: nat where "C_verify \<equiv> 23"
abbreviation (input) C_sverify :: nat where "C_sverify \<equiv> 24"
abbreviation (input) C_odsync :: nat where "C_odsync \<equiv> 25"
abbreviation (input) C_diag_v :: nat where "C_diag_v \<equiv> 26"
abbreviation (input) C_zero_pct :: nat where "C_zero_pct \<equiv> 27"
abbreviation (input) C_N_special :: nat where "C_N_special \<equiv> 28"
abbreviation (input) C_dedup_granule_size :: nat where "C_dedup_granule_size \<equiv> 29"
abbreviation (input) C_dedup :: nat where "C_dedup \<equiv> 30"
abbreviation (input) C_dedup_flag :: nat where "C_dedup_flag \<equiv> 31"
abbreviation (input) C_dedup_iflag :: nat where "C_dedup_iflag \<equiv> 32"
abbreviation (input) C_dedup_bflag :: nat where "C_dedup_bflag \<equiv> 33"
abbreviation (input) C_dedup_interior :: nat where "C_dedup_interior \<equiv> 34"
abbreviation (input) C_dedup_compress :: nat where "C_dedup_compress \<equiv> 35"
abbreviation (input) C_dedup_mseed :: nat where "C_dedup_mseed \<equiv> 36"
abbreviation (input) C_chid_skew :: nat where "C_chid_skew \<equiv> 37"
abbreviation (input) C_hist_summary :: nat where "C_hist_summary \<equiv> 38"
abbreviation (input) C_op_rate :: nat where "C_op_rate \<equiv> 39"
abbreviation (input) C_op_rate_flag :: nat where "C_op_rate_flag \<equiv> 40"
abbreviation (input) C_Q_flag :: nat where "C_Q_flag \<equiv> 41"
abbreviation (input) C_inc_think :: nat where "C_inc_think \<equiv> 42"
abbreviation (input) C_L_flag :: nat where "C_L_flag \<equiv> 43"
abbreviation (input) C_OPS_flag :: nat where "C_OPS_flag \<equiv> 44"
abbreviation (input) C_mmapflag :: nat where "C_mmapflag \<equiv> 45"
abbreviation (input) C_mmapasflag :: nat where "C_mmapasflag \<equiv> 46"
abbreviation (input) C_mmapnsflag :: nat where "C_mmapnsflag \<equiv> 47"
abbreviation (input) C_mmapssflag :: nat where "C_mmapssflag \<equiv> 48"
abbreviation (input) C_no_copy_flag :: nat where "C_no_copy_flag \<equiv> 49"
abbreviation (input) C_include_close :: nat where "C_include_close \<equiv> 50"
abbreviation (input) C_include_flush :: nat where "C_include_flush \<equiv> 51"
abbreviation (input) C_disrupt_flag :: nat where "C_disrupt_flag \<equiv> 52"
abbreviation (input) C_compute_flag :: nat where "C_compute_flag \<equiv> 53"
abbreviation (input) C_stop_flag :: nat where "C_stop_flag \<equiv> 54"
abbreviation (input) C_xflag :: nat where "C_xflag \<equiv> 55"
abbreviation (input) C_MS_flag :: nat where "C_MS_flag \<equiv> 56"
abbreviation (input) C_mmap_mix :: nat where "C_mmap_mix \<equiv> 57"
abbreviation (input) C_Kplus_flag :: nat where "C_Kplus_flag \<equiv> 58"
abbreviation (input) C_w_traj_flag :: nat where "C_w_traj_flag \<equiv> 59"
abbreviation (input) C_r_traj_flag :: nat where "C_r_traj_flag \<equiv> 60"
abbreviation (input) C_direct_flag :: nat where "C_direct_flag \<equiv> 61"
abbreviation (input) C_cpuutilflag :: nat where "C_cpuutilflag \<equiv> 62"
abbreviation (input) C_seq_mix :: nat where "C_seq_mix \<equiv> 63"
abbreviation (input) C_del_flag :: nat where "C_del_flag \<equiv> 64"
abbreviation (input) C_stride :: nat where "C_stride \<equiv> 65"
abbreviation (input) C_rest_val :: nat where "C_rest_val \<equiv> 66"
abbreviation (input) C_purge :: nat where "C_purge \<equiv> 67"
abbreviation (input) C_fetchon :: nat where "C_fetchon \<equiv> 68"
abbreviation (input) C_multiplier :: nat where "C_multiplier \<equiv> 69"
abbreviation (input) C_share_file :: nat where "C_share_file \<equiv> 70"
abbreviation (input) C_file_lock :: nat where "C_file_lock \<equiv> 71"
abbreviation (input) C_rec_lock :: nat where "C_rec_lock \<equiv> 72"
abbreviation (input) C_Kplus_readers :: nat where "C_Kplus_readers \<equiv> 73"
abbreviation (input) C_client_number :: nat where "C_client_number \<equiv> 74"
abbreviation (input) C_command :: nat where "C_command \<equiv> 75"
abbreviation (input) C_testnum :: nat where "C_testnum \<equiv> 76"
abbreviation (input) C_no_unlink :: nat where "C_no_unlink \<equiv> 77"
abbreviation (input) C_no_write :: nat where "C_no_write \<equiv> 78"
abbreviation (input) C_pattern :: nat where "C_pattern \<equiv> 79"
abbreviation (input) C_version :: nat where "C_version \<equiv> 80"
abbreviation (input) C_base_time :: nat where "C_base_time \<equiv> 81"
abbreviation (input) C_num_child :: nat where "C_num_child \<equiv> 82"
abbreviation (input) C_pct_read :: nat where "C_pct_read \<equiv> 83"
abbreviation (input) C_advise_op :: nat where "C_advise_op \<equiv> 84"
abbreviation (input) C_advise_flag :: nat where "C_advise_flag \<equiv> 85"
abbreviation (input) C_restf :: nat where "C_restf \<equiv> 86"
abbreviation (input) C_mygen :: nat where "C_mygen \<equiv> 87"
abbreviation (input) C_depth :: nat where "C_depth \<equiv> 88"
abbreviation (input) C_child_flag :: nat where "C_child_flag \<equiv> 89"
abbreviation (input) C_delay :: nat where "C_delay \<equiv> 90"
abbreviation (input) C_numrecs64 :: nat where "C_numrecs64 \<equiv> 91"
abbreviation (input) C_reclen :: nat where "C_reclen \<equiv> 92"
abbreviation (input) C_delay_start :: nat where "C_delay_start \<equiv> 93"
abbreviation (input) C_compute_time :: nat where "C_compute_time \<equiv> 94"

abbreviation (input) M_host_name :: nat where "M_host_name \<equiv> 0"
abbreviation (input) M_client_name :: nat where "M_client_name \<equiv> 1"
abbreviation (input) M_client_number :: nat where "M_client_number \<equiv> 2"
abbreviation (input) M_client_error :: nat where "M_client_error \<equiv> 3"
abbreviation (input) M_stop_flag :: nat where "M_stop_flag \<equiv> 4"
abbreviation (input) M_child_port :: nat where "M_child_port \<equiv> 5"
abbreviation (input) M_child_async_port :: nat where "M_child_async_port \<equiv> 6"
abbreviation (input) M_command :: nat where "M_command \<equiv> 7"
abbreviation (input) M_testnum :: nat where "M_testnum \<equiv> 8"
abbreviation (input) M_version :: nat where "M_version \<equiv> 9"
abbreviation (input) M_mygen :: nat where "M_mygen \<equiv> 10"
abbreviation (input) M_throughput :: nat where "M_throughput \<equiv> 11"
abbreviation (input) M_cputime :: nat where "M_cputime \<equiv> 12"
abbreviation (input) M_walltime :: nat where "M_walltime \<equiv> 13"
abbreviation (input) M_actual :: nat where "M_actual \<equiv> 14"
abbreviation (input) M_child_flag :: nat where "M_child_flag \<equiv> 15"

section \<open>The structures of character arrays\<close>

definition client_sizes :: "nat list" where
  "client_sizes =
    [100, 40, 8, 100, 200, 200, 200, 200, 200, 200, 2, 2, 2, 2, 2, 2, 2, 2, 2, 2, 2, 2, 2, 2, 2,
     2, 2, 4, 4, 8, 4, 4, 4, 4, 4, 4, 4, 4, 4, 4, 2, 2, 2, 2, 2, 2, 2, 2, 2, 2, 2, 2, 2, 2, 2,
     2, 2, 2, 2, 2, 2, 2, 2, 2, 2, 10, 10, 10, 10, 10, 10, 10, 10, 10, 20, 20, 20, 4, 4, 20, 20,
     20, 20, 6, 4, 4, 4, 20, 20, 40, 80, 80, 80, 80, 80]"

definition master_sizes :: "nat list" where
  "master_sizes = [100, 100, 20, 20, 4, 20, 20, 20, 20, 20, 20, 80, 80, 80, 80, 80]"

section \<open>What is sent, in the order of the code\<close>

definition client_items :: "item list" where
  "client_items =
    [(Text, C_host_name), (Text, C_pit_hostname), (Text, C_pit_service), (Text, C_client_name),
     (Text, C_working_dir), (Text, C_file_name), (Text, C_path_dir), (Text, C_execute_name),
     (Text, C_write_traj_filename), (Text, C_read_traj_filename), (D, C_oflag), (D, C_mfflag),
     (D, C_unbuffered), (D, C_noretest), (D, C_notruncate), (D, C_read_sync), (D, C_jflag),
     (D, C_async_flag), (D, C_mmapflag), (D, C_k_flag), (D, C_h_flag), (D, C_mflag),
     (D, C_pflag), (D, C_stride_flag), (D, C_verify), (D, C_sverify), (D, C_odsync),
     (D, C_diag_v), (D, C_zero_pct), (D, C_N_special), (D, C_dedup_granule_size), (D, C_dedup),
     (D, C_dedup_flag), (D, C_dedup_iflag), (D, C_dedup_bflag), (D, C_dedup_interior),
     (D, C_dedup_compress), (D, C_dedup_mseed), (D, C_chid_skew), (D, C_hist_summary),
     (D, C_op_rate), (D, C_op_rate_flag), (D, C_Q_flag), (D, C_inc_think), (D, C_L_flag),
     (D, C_include_flush), (D, C_OPS_flag), (D, C_mmapnsflag), (D, C_mmapssflag),
     (D, C_mmapasflag), (D, C_no_copy_flag), (D, C_include_close), (D, C_disrupt_flag),
     (D, C_compute_flag), (D, C_xflag), (D, C_MS_flag), (D, C_mmap_mix), (D, C_Kplus_flag),
     (D, C_w_traj_flag), (D, C_r_traj_flag), (D, C_direct_flag), (D, C_cpuutilflag),
     (D, C_seq_mix), (D, C_del_flag), (D, C_client_number), (D, C_command), (D, C_testnum),
     (D, C_no_unlink), (D, C_no_write), (D, C_file_lock), (D, C_rec_lock), (D, C_Kplus_readers),
     (D, C_multiplier), (D, C_share_file), (D, C_pattern), (D, C_version), (D, C_base_time),
     (D, C_num_child), (D, C_pct_read), (D, C_advise_op), (D, C_advise_flag), (D, C_restf),
     (D, C_mygen), (LLD, C_delay), (LLD, C_stride), (LLD, C_rest_val), (LLD, C_purge),
     (LLD, C_fetchon), (LLD, C_numrecs64), (LLD, C_reclen), (LLD, C_child_flag),
     (LLD, C_delay_start), (LLD, C_depth), (D, C_stop_flag), (F, C_compute_time)]"

definition master_items :: "item list" where
  "master_items =
    [(Text, M_host_name), (Text, M_client_name), (D, M_client_number), (D, M_client_error),
     (D, M_child_port), (D, M_child_async_port), (D, M_command), (D, M_testnum), (D, M_version),
     (D, M_mygen), (F, M_throughput), (F, M_cputime), (F, M_walltime), (D, M_stop_flag),
     (F, M_actual), (LLD, M_child_flag)]"

section \<open>What is read, in the order of the code\<close>

definition who_items :: "item list" where
  "who_items =
    [(D, C_command), (Text, C_client_name), (D, C_client_number), (Text, C_host_name),
     (Text, C_pit_hostname)]"

definition state_items :: "item list" where
  "state_items =
    [(LLD, C_numrecs64), (LLD, C_reclen), (LLD, C_fetchon), (LLD, C_purge), (LLD, C_delay),
     (LLD, C_stride), (LLD, C_rest_val), (LLD, C_delay_start), (LLD, C_depth),
     (Text, C_pit_hostname), (Text, C_pit_service), (D, C_testnum), (D, C_client_number),
     (Text, C_working_dir), (Text, C_file_name), (Text, C_write_traj_filename),
     (Text, C_read_traj_filename), (D, C_noretest), (D, C_notruncate), (D, C_read_sync),
     (D, C_jflag), (D, C_direct_flag), (D, C_cpuutilflag), (D, C_seq_mix), (D, C_del_flag),
     (D, C_async_flag), (D, C_k_flag), (D, C_h_flag), (D, C_mflag), (D, C_pflag),
     (D, C_stride_flag), (D, C_verify), (D, C_sverify), (D, C_odsync), (D, C_diag_v),
     (D, C_zero_pct), (D, C_N_special), (D, C_dedup_granule_size), (D, C_dedup_flag),
     (D, C_dedup_iflag), (D, C_dedup_bflag), (D, C_dedup), (D, C_dedup_interior),
     (D, C_dedup_compress), (D, C_dedup_mseed), (D, C_chid_skew), (D, C_hist_summary),
     (D, C_op_rate), (D, C_op_rate_flag), (D, C_file_lock), (D, C_rec_lock),
     (D, C_Kplus_readers), (D, C_multiplier), (D, C_share_file), (D, C_pattern), (D, C_version),
     (D, C_base_time), (D, C_num_child), (D, C_pct_read), (D, C_advise_op), (D, C_advise_flag),
     (D, C_restf), (D, C_mygen), (D, C_oflag), (D, C_mfflag), (D, C_unbuffered), (D, C_Q_flag),
     (D, C_inc_think), (D, C_L_flag), (D, C_xflag), (D, C_include_flush), (D, C_OPS_flag),
     (D, C_mmapflag), (D, C_mmapasflag), (D, C_mmapnsflag), (D, C_mmapssflag),
     (D, C_no_copy_flag), (D, C_w_traj_flag), (D, C_r_traj_flag), (D, C_no_unlink),
     (D, C_no_write), (D, C_include_close), (D, C_disrupt_flag), (D, C_compute_flag),
     (D, C_MS_flag), (D, C_mmap_mix), (D, C_Kplus_flag), (F, C_compute_time)]"

definition report_items :: "item list" where
  "report_items =
    [(D, M_command), (D, M_client_number), (D, M_client_error), (D, M_mygen), (D, M_version),
     (LLD, M_child_flag), (F, M_actual), (F, M_throughput), (F, M_cputime), (F, M_walltime),
     (D, M_stop_flag)]"

section \<open>The settings\<close>

definition sent_settings :: "(nat \<times> ctype \<times> string) list" where
  "sent_settings =
    [(C_oflag, CInt, ''oflag''), (C_mfflag, CInt, ''mfflag''),
     (C_unbuffered, CInt, ''unbuffered''), (C_noretest, CInt, ''noretest''),
     (C_notruncate, CInt, ''notruncate''), (C_read_sync, CInt, ''read_sync''),
     (C_jflag, CInt, ''jflag''), (C_direct_flag, CInt, ''direct_flag''),
     (C_cpuutilflag, CInt, ''cpuutilflag''), (C_seq_mix, CInt, ''seq_mix''),
     (C_del_flag, CInt, ''del_flag''), (C_async_flag, CInt, ''async_flag''),
     (C_k_flag, CInt, ''k_flag''), (C_h_flag, CInt, ''h_flag''), (C_mflag, CInt, ''mflag''),
     (C_pflag, CInt, ''pflag''), (C_stride_flag, CInt, ''stride_flag''),
     (C_fetchon, CLong, ''fetchon''), (C_verify, CInt, ''verify''),
     (C_sverify, CInt, ''sverify''), (C_odsync, CInt, ''odsync''), (C_diag_v, CInt, ''diag_v''),
     (C_zero_pct, CInt, ''zero_pct''), (C_N_special, CInt, ''N_special''),
     (C_dedup_granule_size, CInt, ''dedup_granule_size''), (C_dedup_flag, CInt, ''dedup_flag''),
     (C_dedup_iflag, CInt, ''dedup_iflag''), (C_dedup_bflag, CInt, ''dedup_bflag''),
     (C_dedup, CInt, ''dedup''), (C_dedup_interior, CInt, ''dedup_interior''),
     (C_dedup_compress, CInt, ''dedup_compress''), (C_dedup_mseed, CInt, ''dedup_mseed''),
     (C_chid_skew, CInt, ''chid_skew''), (C_hist_summary, CInt, ''hist_summary''),
     (C_op_rate, CInt, ''op_rate''), (C_op_rate_flag, CInt, ''op_rate_flag''),
     (C_file_lock, CInt, ''file_lock''), (C_rec_lock, CInt, ''rlocking''),
     (C_Kplus_readers, CInt, ''Kplus_readers''), (C_multiplier, CInt, ''multiplier''),
     (C_share_file, CInt, ''share_file''), (C_pattern, CInt, ''pattern''),
     (C_version, CInt, ''proto_version''), (C_base_time, CInt, ''base_time''),
     (C_num_child, CInt, ''num_child''), (C_pct_read, CInt, ''pct_read''),
     (C_advise_op, CInt, ''advise_op''), (C_advise_flag, CInt, ''advise_flag''),
     (C_restf, CInt, ''restf''), (C_mygen, CInt, ''mygen''), (C_Q_flag, CInt, ''Q_flag''),
     (C_inc_think, CInt, ''inc_think''), (C_L_flag, CInt, ''L_flag''),
     (C_xflag, CInt, ''xflag''), (C_w_traj_flag, CInt, ''w_traj_flag''),
     (C_r_traj_flag, CInt, ''r_traj_flag''), (C_include_flush, CInt, ''include_flush''),
     (C_OPS_flag, CInt, ''OPS_flag''), (C_purge, CLong, ''purge''),
     (C_mmapflag, CInt, ''mmapflag''), (C_mmapasflag, CInt, ''mmapasflag''),
     (C_mmapnsflag, CInt, ''mmapnsflag''), (C_mmapssflag, CInt, ''mmapssflag''),
     (C_no_copy_flag, CInt, ''no_copy_flag''), (C_no_unlink, CInt, ''no_unlink''),
     (C_no_write, CInt, ''no_write''), (C_include_close, CInt, ''include_close''),
     (C_disrupt_flag, CInt, ''disrupt_flag''), (C_compute_flag, CInt, ''compute_flag''),
     (C_delay, CLong, ''delay''), (C_stride, CLong, ''stride''),
     (C_rest_val, CLong, ''rest_val''), (C_delay_start, CLong, ''delay_start''),
     (C_depth, CLong, ''depth''), (C_MS_flag, CInt, ''MS_flag''),
     (C_mmap_mix, CInt, ''mmap_mix''), (C_Kplus_flag, CInt, ''Kplus_flag'')]"

definition imported_settings :: "(string \<times> ctype \<times> nat) list" where
  "imported_settings =
    [(''numrecs64'', CLong, C_numrecs64), (''reclen'', CLong, C_reclen),
     (''testnum'', CInt, C_testnum), (''oflag'', CChar, C_oflag), (''mfflag'', CChar, C_mfflag),
     (''unbuffered'', CChar, C_unbuffered), (''noretest'', CChar, C_noretest),
     (''notruncate'', CChar, C_notruncate), (''read_sync'', CChar, C_read_sync),
     (''jflag'', CChar, C_jflag), (''direct_flag'', CInt, C_direct_flag),
     (''cpuutilflag'', CChar, C_cpuutilflag), (''seq_mix'', CChar, C_seq_mix),
     (''del_flag'', CChar, C_del_flag), (''async_flag'', CChar, C_async_flag),
     (''k_flag'', CChar, C_k_flag), (''h_flag'', CChar, C_h_flag), (''mflag'', CChar, C_mflag),
     (''pflag'', CChar, C_pflag), (''stride_flag'', CChar, C_stride_flag),
     (''fetchon'', CLong, C_fetchon), (''verify'', CChar, C_verify),
     (''diag_v'', CChar, C_diag_v), (''zero_pct'', CInt, C_zero_pct),
     (''N_special'', CInt, C_N_special), (''dedup_granule_size'', CInt, C_dedup_granule_size),
     (''dedup'', CChar, C_dedup), (''dedup_flag'', CChar, C_dedup_flag),
     (''dedup_iflag'', CChar, C_dedup_iflag), (''dedup_bflag'', CChar, C_dedup_bflag),
     (''dedup_interior'', CChar, C_dedup_interior),
     (''dedup_compress'', CChar, C_dedup_compress), (''dedup_mseed'', CInt, C_dedup_mseed),
     (''chid_skew'', CInt, C_chid_skew), (''hist_summary'', CInt, C_hist_summary),
     (''op_rate'', CInt, C_op_rate), (''op_rate_flag'', CInt, C_op_rate_flag),
     (''file_lock'', CInt, C_file_lock), (''rlocking'', CInt, C_rec_lock),
     (''Kplus_readers'', CInt, C_Kplus_readers), (''multiplier'', CInt, C_multiplier),
     (''share_file'', CInt, C_share_file), (''pattern'', CUInt, C_pattern),
     (''base_time'', CLong, C_base_time), (''num_child'', CLong, C_num_child),
     (''pct_read'', CInt, C_pct_read), (''advise_op'', CInt, C_advise_op),
     (''advise_flag'', CInt, C_advise_flag), (''restf'', CInt, C_restf),
     (''mygen'', CInt, C_mygen), (''Q_flag'', CChar, C_Q_flag),
     (''inc_think'', CChar, C_inc_think), (''L_flag'', CChar, C_L_flag),
     (''xflag'', CChar, C_xflag), (''w_traj_flag'', CInt, C_w_traj_flag),
     (''r_traj_flag'', CInt, C_r_traj_flag), (''include_flush'', CChar, C_include_flush),
     (''OPS_flag'', CChar, C_OPS_flag), (''purge'', CLong, C_purge),
     (''mmapflag'', CChar, C_mmapflag), (''mmapasflag'', CChar, C_mmapasflag),
     (''mmapnsflag'', CChar, C_mmapnsflag), (''mmapssflag'', CChar, C_mmapssflag),
     (''no_copy_flag'', CChar, C_no_copy_flag), (''no_unlink'', CInt, C_no_unlink),
     (''no_write'', CInt, C_no_write), (''include_close'', CChar, C_include_close),
     (''disrupt_flag'', CChar, C_disrupt_flag), (''compute_flag'', CChar, C_compute_flag),
     (''MS_flag'', CChar, C_MS_flag), (''mmap_mix'', CChar, C_mmap_mix),
     (''Kplus_flag'', CChar, C_Kplus_flag), (''delay'', CLong, C_delay),
     (''stride'', CLong, C_stride), (''rest_val'', CLong, C_rest_val),
     (''depth'', CLong, C_depth), (''delay_start'', CLong, C_delay_start)]"

section \<open>The master fills a command\<close>

text \<open>Steps 4 of \<open>pick_client\<close>, for the client with number \<open>x - 1\<close>.\<close>

definition sent_number :: "'f settings \<Rightarrow> nat \<Rightarrow> int" where
  "sent_number G k = (case map_of sent_settings k of None \<Rightarrow> 0 | Some (t, v) \<Rightarrow> cast t (s_num G v))"

definition R_JOIN_ACK :: int where "R_JOIN_ACK = 4"

definition pick_command ::
  "'f float_io \<Rightarrow> 'f settings \<Rightarrow> child_ident \<Rightarrow> int \<Rightarrow> int \<Rightarrow> int \<Rightarrow> int \<Rightarrow> 'f command outcome"
where
  "pick_command fio G ci x testnum numrecs64 reclen =
     obind (c_strcpy 100 (s_txt G ''controlling_host_name'')) (\<lambda>host.
     obind (c_strcpy 40 (s_txt G ''pit_hostname'')) (\<lambda>pit.
     obind (c_strcpy 8 (s_txt G ''pit_service'')) (\<lambda>service.
     obind (c_strcpy 100 (ci_child_name ci)) (\<lambda>name.
     obind (c_strcpy 200 (ci_workdir ci)) (\<lambda>workdir.
     obind (c_strcpy 200 (ci_file_name ci)) (\<lambda>file_name.
     obind (c_strcpy 200 (s_txt G ''write_traj_filename'')) (\<lambda>wtraj.
     obind (c_strcpy 200 (s_txt G ''read_traj_filename'')) (\<lambda>rtraj.
     Ret \<lparr>c_txt = (\<lambda>_. [])(C_host_name := host, C_pit_hostname := pit, C_pit_service := service,
             C_client_name := name, C_working_dir := workdir, C_file_name := file_name,
             C_write_traj_filename := wtraj, C_read_traj_filename := rtraj),
          c_num = (sent_number G)(C_command := R_JOIN_ACK, C_client_number := x - 1,
             C_testnum := testnum, C_numrecs64 := numrecs64, C_reclen := reclen),
          c_flt = (\<lambda>_. fl_zero fio)(C_compute_time := s_flt G)\<rparr>))))))))"

definition encode_client :: "'f float_io \<Rightarrow> 'f command \<Rightarrow> string outcome" where
  "encode_client fio cc = encode fio client_sizes client_items cc"

definition encode_master :: "'f float_io \<Rightarrow> 'f command \<Rightarrow> string outcome" where
  "encode_master fio mc = encode fio master_sizes master_items mc"

section \<open>The client takes the settings over\<close>

definition assign :: "'f command \<Rightarrow> string \<times> ctype \<times> nat \<Rightarrow> (string \<Rightarrow> int) \<Rightarrow> string \<Rightarrow> int" where
  "assign cc e g = (case e of (v, t, k) \<Rightarrow> g(v := cast t (c_num cc k)))"

definition import_settings :: "'f command \<Rightarrow> 'f settings \<Rightarrow> 'f settings outcome" where
  "import_settings cc H =
     (let num = fold (assign cc) imported_settings (s_num H);
          num = num(''sverify'' := if num ''diag_v'' \<noteq> 0 then 0 else cast CChar (c_num cc C_sverify),
                    ''chid'' := c_num cc C_client_number);
          txt = (s_txt H)(''write_traj_filename'' := c_txt cc C_write_traj_filename,
                    ''read_traj_filename'' := c_txt cc C_read_traj_filename,
                    ''pit_hostname'' := c_txt cc C_pit_hostname,
                    ''pit_service'' := c_txt cc C_pit_service,
                    ''workdir'' := c_txt cc C_working_dir)
      in if num ''mfflag'' \<noteq> 0 \<and> \<not> (0 \<le> num ''chid'' \<and> num ''chid'' < 1024) then Crash BadHandle
         else Ret \<lparr>s_num = num,
                   s_txt = (if num ''mfflag'' \<noteq> 0 then txt(''tfile'' := c_txt cc C_file_name) else txt),
                   s_flt = c_flt cc C_compute_time\<rparr>)"

text \<open>
  From the receive buffer to the settings. A command that tells the client to end while it waits
  makes it exit.
\<close>

definition R_TERMINATE :: int where "R_TERMINATE = 6"
definition R_DEATH :: int where "R_DEATH = 7"

definition receive_state :: "'f float_io \<Rightarrow> string \<Rightarrow> 'f settings \<Rightarrow> 'f settings outcome" where
  "receive_state fio buf H =
     obind (scan_items fio client_sizes who_items buf (zero_command fio)) (\<lambda>cc.
     if c_num cc C_command = R_TERMINATE \<or> c_num cc C_command = R_DEATH then Exit 1
     else obind (scan_items fio client_sizes state_items buf cc) (\<lambda>cc. import_settings cc H))"

section \<open>Facts about the lists\<close>

lemma client_sizes_length [simp]: "length client_sizes = 95" "sum_list client_sizes = 2324"
  by (simp_all add: client_sizes_def)

lemma client_items_distinct: "distinct (map snd client_items)"
  by (simp add: client_items_def)

lemma client_items_bound: "\<forall>it \<in> set client_items. snd it < 95"
  by (simp add: client_items_def)

lemma state_items_sent: "set who_items \<union> set state_items \<subseteq> set client_items"
  by (simp add: who_items_def state_items_def client_items_def)

lemma imported_distinct: "distinct (map fst imported_settings)"
  by (simp add: imported_settings_def)

lemma imported_sent:
  "\<forall>(v, t, k) \<in> set imported_settings. (D, k) \<in> set state_items \<or> (LLD, k) \<in> set state_items"
  by (simp add: imported_settings_def state_items_def)

end
