(* ===== verification/Iozone_Settings.thy ===== *)
theory Iozone_Settings
  imports Iozone_Messages
begin

text \<open>
  The settings of the master arrive on the client: what \<open>pick_command\<close> fills in, sent as text and
  read back, is what \<open>import_settings\<close> assigns.
\<close>

declare split_paired_All [simp del]

section \<open>Lists of assignments\<close>

lemma fold_assign_other: "v \<notin> fst ` set es \<Longrightarrow> fold (assign cc) es g v = g v"
  by (induction es arbitrary: g) (auto simp: assign_def)

lemma fold_assign_in:
  "distinct (map fst es) \<Longrightarrow> (v, t, k) \<in> set es \<Longrightarrow> fold (assign cc) es g v = cast t (c_num cc k)"
proof (induction es arbitrary: g)
  case (Cons e es)
  then show ?case
  proof (cases "e = (v, t, k)")
    case True
    with Cons.prems have "v \<notin> fst ` set es" by auto
    with True show ?thesis by (simp add: fold_assign_other) (simp add: assign_def)
  qed auto
qed simp

text \<open>
  The settings of \<open>pick_client\<close> itself are its arguments; of those it sends, the client does not
  take over \<open>proto_version\<close>, \<open>odsync\<close> and, at once, \<open>sverify\<close>.
\<close>

abbreviation (input) argument_members :: "nat list" where
  "argument_members \<equiv> [C_numrecs64, C_reclen, C_testnum]"

lemma settings_match:
  "sort_key fst (map (\<lambda>(k, _, v). (k, v))
     (filter (\<lambda>(k, _). k \<notin> set [C_version, C_odsync, C_sverify]) sent_settings)) =
   sort_key fst (map (\<lambda>(v, _, k). (k, v))
     (filter (\<lambda>(_, _, k). k \<notin> set argument_members) imported_settings))"
  by code_simp

lemma sent_distinct: "distinct (map fst sent_settings)"
  by (simp add: sent_settings_def)

lemma imported_from_sent:
  assumes "(v, t, k) \<in> set imported_settings" "k \<notin> set argument_members"
  shows "\<exists>t'. map_of sent_settings k = Some (t', v)"
proof -
  have "(k, v) \<in> (\<lambda>(v, _, k). (k, v)) ` {(v, t, k) \<in> set imported_settings. k \<notin> set argument_members}"
    using assms by force
  then have "(k, v) \<in> set (map (\<lambda>(k, _, v). (k, v))
      (filter (\<lambda>(k, _). k \<notin> set [C_version, C_odsync, C_sverify]) sent_settings))"
    using arg_cong [OF settings_match, of set] by (auto simp: image_iff)
  then obtain t' where "(k, t', v) \<in> set sent_settings" by auto
  with sent_distinct show ?thesis by auto
qed

section \<open>A command that fits\<close>

lemma encode_client_fits:
  assumes "msg_fits fio client_sizes cc client_items"
  shows "\<exists>m. encode_client fio cc = Ret m \<and> length m = 2324 \<and>
     (\<forall>it \<in> set client_items. \<forall>rest. c_string (offset client_sizes (snd it)) (m @ rest) = item_text fio cc it)"
  using encode_fits [OF assms client_items_distinct] client_items_bound
  by (simp add: encode_client_def)

text \<open>For reading, only the size of the strings matters: \<open>%s\<close> copies them into arrays.\<close>

definition texts_fit :: "'f command \<Rightarrow> bool" where
  "texts_fit cc \<longleftrightarrow> (\<forall>k. (Text, k) \<in> set client_items \<longrightarrow> length (c_txt cc k) < client_sizes ! k)"

lemma msg_fits_texts: "msg_fits fio client_sizes cc client_items \<Longrightarrow> texts_fit cc"
  by (force simp: msg_fits_def texts_fit_def)

lemma scan_client_items:
  assumes "texts_fit cc" "\<forall>it \<in> set client_items. readable cc it"
    and "\<forall>it \<in> set client_items. c_string (offset client_sizes (snd it)) buf = item_text fio cc it"
    and "set its \<subseteq> set client_items"
  shows "scan_items fio client_sizes its buf d = Ret (read_back fio cc its d)"
  using assms by (intro scan_items_read_back) (auto simp: texts_fit_def)

lemma receive_state_fits:
  assumes msg_fits: "texts_fit cc" "\<forall>it \<in> set client_items. readable cc it"
    and buf: "\<forall>it \<in> set client_items. c_string (offset client_sizes (snd it)) buf = item_text fio cc it"
    and cmd: "c_num cc C_command \<noteq> R_TERMINATE" "c_num cc C_command \<noteq> R_DEATH"
  shows "receive_state fio buf H =
     import_settings (read_back fio cc state_items (read_back fio cc who_items (zero_command fio))) H"
proof -
  have sub: "set who_items \<subseteq> set client_items" "set state_items \<subseteq> set client_items"
    using state_items_sent by auto
  have "(D, C_command) \<in> set who_items" by (simp add: who_items_def)
  with cmd have "c_num (read_back fio cc who_items (zero_command fio)) C_command \<notin> {R_TERMINATE, R_DEATH}"
    by (simp add: read_back_def)
  then show ?thesis
    by (simp add: receive_state_def scan_client_items [OF msg_fits buf sub(1)] scan_client_items [OF msg_fits buf sub(2)])
qed

section \<open>The command of the master\<close>

lemma pick_command_Ret:
  "pick_command fio G ci x testnum numrecs64 reclen = Ret cc \<Longrightarrow>
   c_num cc = (sent_number G)(C_command := R_JOIN_ACK, C_client_number := x - 1,
             C_testnum := testnum, C_numrecs64 := numrecs64, C_reclen := reclen) \<and>
   c_txt cc = (\<lambda>_. [])(C_host_name := s_txt G ''controlling_host_name'',
             C_pit_hostname := s_txt G ''pit_hostname'', C_pit_service := s_txt G ''pit_service'',
             C_client_name := ci_child_name ci, C_working_dir := ci_workdir ci,
             C_file_name := ci_file_name ci, C_write_traj_filename := s_txt G ''write_traj_filename'',
             C_read_traj_filename := s_txt G ''read_traj_filename'') \<and>
   c_flt cc = (\<lambda>_. fl_zero fio)(C_compute_time := s_flt G)"
  by (auto simp: pick_command_def obind_eq_Ret)

lemma sent_number_setting:
  assumes "(v, t, k) \<in> set imported_settings" "k \<notin> set argument_members"
  shows "\<exists>t'. sent_number G k = cast t' (s_num G v) \<and> (k, t', v) \<in> set sent_settings"
proof -
  from imported_from_sent [OF assms] obtain t' where "map_of sent_settings k = Some (t', v)" ..
  then show ?thesis
    by (auto simp: sent_number_def dest: map_of_SomeD)
qed

text \<open>Every setting has a value that its variable and the member it travels in can hold.\<close>

definition settings_typed :: "'f settings \<Rightarrow> bool" where
  "settings_typed G \<longleftrightarrow>
     (\<forall>(v, t, k) \<in> set imported_settings. cast t (s_num G v) = s_num G v) \<and>
     (\<forall>(k, t, v) \<in> set sent_settings. cast t (s_num G v) = s_num G v) \<and>
     cast CChar (s_num G ''sverify'') = s_num G ''sverify''"

lemma sent_number_typed:
  assumes "settings_typed G" "(v, t, k) \<in> set imported_settings" "k \<notin> set argument_members"
  shows "cast t (sent_number G k) = s_num G v"
  using sent_number_setting [OF assms(2,3), of G] assms(1,2) by (fastforce simp: settings_typed_def)

lemma imported_members: "list_all (\<lambda>(_, _, k). k \<noteq> C_command \<and> k \<noteq> C_client_number) imported_settings"
  by (simp add: imported_settings_def)

lemma pick_number:
  assumes "pick_command fio G ci x testnum numrecs64 reclen = Ret cc"
    and "(v, t, k) \<in> set imported_settings" "k \<notin> set argument_members"
  shows "c_num cc k = sent_number G k"
  using pick_command_Ret [OF assms(1)] imported_members assms(2,3) by (auto simp: list_all_iff)

lemma imported_items: "(v, t, k) \<in> set imported_settings \<Longrightarrow>
    (D, k) \<in> set state_items \<or> (LLD, k) \<in> set state_items"
  using imported_sent by blast

text \<open>The variables that \<open>import_settings\<close> assigns by hand are not among those of the list.\<close>

lemma imported_names_list: "list_all (\<lambda>(v, _, _). v \<noteq> ''sverify'' \<and> v \<noteq> ''chid'' \<and> v \<noteq> ''odsync'') imported_settings"
  by (simp add: imported_settings_def)

lemma imported_names: "v \<in> fst ` set imported_settings \<Longrightarrow> v \<noteq> ''sverify'' \<and> v \<noteq> ''chid'' \<and> v \<noteq> ''odsync''"
  using imported_names_list by (auto simp: list_all_iff)

lemma import_settings_number:
  assumes "import_settings cc H = Ret H'" "(v, t, k) \<in> set imported_settings"
  shows "s_num H' v = cast t (c_num cc k)"
proof -
  have "v \<noteq> ''sverify''" "v \<noteq> ''chid''"
    using imported_names [of v] assms(2) by force+
  with assms(1) fold_assign_in [OF imported_distinct assms(2)] show ?thesis
    by (auto simp: import_settings_def Let_def split: if_splits)
qed

lemma import_settings_other:
  assumes "import_settings cc H = Ret H'" "v \<notin> fst ` set imported_settings" "v \<noteq> ''sverify''" "v \<noteq> ''chid''"
  shows "s_num H' v = s_num H v"
  using assms by (auto simp: import_settings_def Let_def fold_assign_other split: if_splits)

lemma sent_sverify: "map_of sent_settings C_sverify = Some (CInt, ''sverify'')"
  by (simp add: sent_settings_def)

lemma cast_readable: "readable cc (D, k) \<Longrightarrow> cast CInt (c_num cc k) = c_num cc k"
    "readable cc (LLD, k) \<Longrightarrow> cast CLong (c_num cc k) = c_num cc k"
  by (simp_all add: signed_take_bit_int_eq_self_iff)

lemma argument_items:
  "(''testnum'', CInt, C_testnum) \<in> set imported_settings"
  "(''numrecs64'', CLong, C_numrecs64) \<in> set imported_settings"
  "(''reclen'', CLong, C_reclen) \<in> set imported_settings"
  "(''diag_v'', CChar, C_diag_v) \<in> set imported_settings"
  "(''mfflag'', CChar, C_mfflag) \<in> set imported_settings"
  "{(D, C_testnum), (LLD, C_numrecs64), (LLD, C_reclen), (D, C_client_number), (D, C_sverify)}
     \<subseteq> set client_items"
  "{(D, C_testnum), (LLD, C_numrecs64), (LLD, C_reclen), (D, C_client_number), (D, C_sverify),
     (Text, C_working_dir), (Text, C_file_name), (Text, C_pit_hostname), (Text, C_pit_service),
     (Text, C_write_traj_filename), (Text, C_read_traj_filename)} \<subseteq> set state_items"
  by (simp_all add: imported_settings_def client_items_def state_items_def)

text \<open>What the client has read is what was sent, in the members that it uses.\<close>

lemma read_twice:
  fixes cc :: "'f command" and fio :: "'f float_io"
  defines "d \<equiv> read_back fio cc state_items (read_back fio cc who_items (zero_command fio))"
  shows "(v, t, k) \<in> set imported_settings \<Longrightarrow> c_num d k = c_num cc k"
    and "(D, k) \<in> set state_items \<Longrightarrow> c_num d k = c_num cc k"
    and "(Text, k) \<in> set state_items \<Longrightarrow> c_txt d k = c_txt cc k"
    and "c_flt d C_compute_time =
      (case fl_scan fio (fl_print fio (c_flt cc C_compute_time)) of Some t \<Rightarrow> t | None \<Rightarrow> fl_zero fio)"
proof -
  have "(F, C_compute_time) \<in> set state_items" "(F, C_compute_time) \<notin> set who_items"
    by (simp_all add: state_items_def who_items_def)
  then show "c_flt d C_compute_time =
      (case fl_scan fio (fl_print fio (c_flt cc C_compute_time)) of Some t \<Rightarrow> t | None \<Rightarrow> fl_zero fio)"
    by (auto simp: d_def read_back_def zero_command_def split: option.split)
qed (use imported_items in \<open>auto simp: d_def read_back_def zero_command_def\<close>)

text \<open>The variables that the client has in common with the master.\<close>

definition shared_settings :: "string list" where
  "shared_settings =
     map fst (filter (\<lambda>(_, _, k). k \<notin> set argument_members) imported_settings)"

theorem settings_arrive:
  assumes pick: "pick_command fio G ci x testnum numrecs64 reclen = Ret cc"
    and msg_fits: "msg_fits fio client_sizes cc client_items" "\<forall>it \<in> set client_items. readable cc it"
    and typed: "settings_typed G"
    and buf: "\<forall>it \<in> set client_items. c_string (offset client_sizes (snd it)) buf = item_text fio cc it"
    and chid: "0 < x" "x \<le> 1024"
  shows "\<exists>H'. receive_state fio buf H = Ret H' \<and>
     (\<forall>v \<in> set shared_settings. s_num H' v = s_num G v) \<and>
     s_num H' ''chid'' = x - 1 \<and> s_num H' ''testnum'' = testnum \<and>
     s_num H' ''numrecs64'' = numrecs64 \<and> s_num H' ''reclen'' = reclen \<and>
     s_num H' ''sverify'' = (if s_num G ''diag_v'' \<noteq> 0 then 0 else s_num G ''sverify'') \<and>
     s_num H' ''odsync'' = s_num H ''odsync'' \<and>
     s_txt H' ''workdir'' = ci_workdir ci \<and>
     s_txt H' ''pit_hostname'' = s_txt G ''pit_hostname'' \<and>
     s_txt H' ''pit_service'' = s_txt G ''pit_service'' \<and>
     s_txt H' ''write_traj_filename'' = s_txt G ''write_traj_filename'' \<and>
     s_txt H' ''read_traj_filename'' = s_txt G ''read_traj_filename'' \<and>
     s_flt H' = (case fl_scan fio (fl_print fio (s_flt G)) of Some t \<Rightarrow> t | None \<Rightarrow> fl_zero fio) \<and>
     (s_num G ''mfflag'' \<noteq> 0 \<longrightarrow> s_txt H' ''tfile'' = ci_file_name ci)"
proof -
  define d where "d = read_back fio cc state_items (read_back fio cc who_items (zero_command fio))"
  note d = read_twice [where fio = fio and cc = cc, folded d_def]
  note cc = pick_command_Ret [OF pick]
  have set1: "cast t (c_num d k) = s_num G v"
    if "(v, t, k) \<in> set imported_settings" "k \<notin> set argument_members" for v t k
    using sent_number_typed [OF typed that] pick_number [OF pick that] d(1) [OF that(1)] by simp
  have rec: "receive_state fio buf H = import_settings d H"
    using receive_state_fits [OF msg_fits_texts [OF msg_fits(1)] msg_fits(2) buf, of H] cc
    by (simp add: d_def R_JOIN_ACK_def R_TERMINATE_def R_DEATH_def)
  have num: "c_num d C_client_number = x - 1" "c_num d C_testnum = testnum"
      "c_num d C_numrecs64 = numrecs64" "c_num d C_reclen = reclen"
    using d argument_items cc by auto
  obtain H' where H': "import_settings d H = Ret H'"
    using num(1) chid by (auto simp: import_settings_def Let_def)
  have imp: "s_num H' v = cast t (c_num d k)" if "(v, t, k) \<in> set imported_settings" for v t k
    using import_settings_number [OF H' that] .
  have set2: "s_num H' v = s_num G v"
    if "(v, t, k) \<in> set imported_settings" "k \<notin> set argument_members" for v t k
    using imp [OF that(1)] set1 [OF that] by simp
  have "c_num cc C_testnum = testnum" "c_num cc C_numrecs64 = numrecs64" "c_num cc C_reclen = reclen"
    using cc by simp_all
  moreover have "readable cc (D, C_testnum)" "readable cc (LLD, C_numrecs64)" "readable cc (LLD, C_reclen)"
    using msg_fits(2) argument_items(6) by blast+
  ultimately have "cast CInt testnum = testnum" "cast CLong numrecs64 = numrecs64"
      "cast CLong reclen = reclen"
    using cast_readable by metis+
  then have args: "s_num H' ''testnum'' = testnum" "s_num H' ''numrecs64'' = numrecs64"
      "s_num H' ''reclen'' = reclen"
    using imp [OF argument_items(1)] imp [OF argument_items(2)] imp [OF argument_items(3)]
      num by simp_all
  have flags: "s_num H' ''diag_v'' = s_num G ''diag_v''" "s_num H' ''mfflag'' = s_num G ''mfflag''"
    using set2 [OF argument_items(4)] set2 [OF argument_items(5)] by simp_all
  have "cast CInt (s_num G ''sverify'') = s_num G ''sverify''"
    using typed map_of_SomeD [OF sent_sverify] unfolding settings_typed_def by blast
  then have "c_num d C_sverify = s_num G ''sverify''"
    using d(2) [of C_sverify] argument_items(7) cc sent_sverify by (simp add: sent_number_def)
  then have "s_num H' ''chid'' = x - 1"
      "s_num H' ''sverify'' = (if s_num G ''diag_v'' \<noteq> 0 then 0 else s_num G ''sverify'')"
    using H' num(1) flags typed
    by (auto simp: import_settings_def Let_def settings_typed_def split: if_splits)
  moreover have "s_num H' ''odsync'' = s_num H ''odsync''"
    using import_settings_other [OF H', of "''odsync''"] imported_names [of "''odsync''"] by fastforce
  moreover have "s_txt H' ''workdir'' = ci_workdir ci"
      "s_txt H' ''pit_hostname'' = s_txt G ''pit_hostname''"
      "s_txt H' ''pit_service'' = s_txt G ''pit_service''"
      "s_txt H' ''write_traj_filename'' = s_txt G ''write_traj_filename''"
      "s_txt H' ''read_traj_filename'' = s_txt G ''read_traj_filename''"
      "s_flt H' = (case fl_scan fio (fl_print fio (s_flt G)) of Some t \<Rightarrow> t | None \<Rightarrow> fl_zero fio)"
      "s_num G ''mfflag'' \<noteq> 0 \<longrightarrow> s_txt H' ''tfile'' = ci_file_name ci"
    using H' flags d(3,4) argument_items(7) cc
    by (auto simp: import_settings_def Let_def split: if_splits)
  moreover have "\<forall>v \<in> set shared_settings. s_num H' v = s_num G v"
    using set2 by (auto simp: shared_settings_def)
  ultimately show ?thesis
    unfolding rec H' using args by (intro exI [of _ H'] conjI refl)
qed


section \<open>A member that is too small\<close>

text \<open>
  \<open>c_op_rate\<close> has room for three digits and the terminator. A fourth digit takes the place of the
  terminator, and \<open>c_op_rate_flag\<close>, which is written next, follows it without a gap.
\<close>

lemma member_text_notin: "k \<notin> snd ` set its \<Longrightarrow> member_text fio c its k = []"
  by (induction its) (auto simp: member_text_Cons)

lemma client_sizes_pos: "k < 95 \<Longrightarrow> 0 < client_sizes ! k"
proof -
  have "list_all (\<lambda>n. 0 < n) client_sizes" by (simp add: client_sizes_def)
  then show "k < 95 \<Longrightarrow> 0 < client_sizes ! k" by (simp add: list_all_length)
qed

lemma client_items_split:
  "client_items = take 40 client_items @ (D, C_op_rate) # drop 41 client_items"
  "C_op_rate_flag \<notin> snd ` set (take 40 client_items)" "(D, C_op_rate_flag) \<in> set client_items"
  "C_op_rate \<notin> snd ` set (take 40 client_items)" "C_op_rate \<notin> snd ` set (drop 41 client_items)"
  by (simp_all add: client_items_def)

lemma length_show_int_4:
  assumes "1000 \<le> v" "v \<le> 9999"
  shows "length (show_int v) = 4"
proof -
  define n where "n = nat v"
  with assms have "1000 \<le> n" "n \<le> 9999" "show_int v = show_nat n"
    by (simp_all add: show_int_def)
  moreover from this have "\<not> n < 10" "\<not> n div 10 < 10" "\<not> n div 10 div 10 < 10" "n div 10 div 10 div 10 < 10"
    by linarith+
  ultimately show ?thesis
    by (simp add: show_nat.simps [of n] show_nat.simps [of "n div 10"]
        show_nat.simps [of "n div 10 div 10"] show_nat.simps [of "n div 10 div 10 div 10"]
        del: div_mult2_eq)
qed

lemma show_int_snoc:
  assumes "0 < v" "0 \<le> d" "d < 10"
  shows "show_int v @ show_int d = show_int (10 * v + d)"
proof -
  have "nat (10 * v + d) div 10 = nat v" "nat (10 * v + d) mod 10 = nat d"
      "\<not> nat (10 * v + d) < 10" "nat d < 10"
    using assms by (simp_all add: nat_add_distrib nat_mult_distrib)
  then show ?thesis
    using assms by (simp add: show_int_def show_nat.simps [of "nat (10 * v + d)"] show_nat.simps [of "nat d"])
qed

lemma rate_items:
  "(D, C_op_rate) \<in> set state_items" "(''op_rate'', CInt, C_op_rate) \<in> set imported_settings"
  by (simp_all add: state_items_def imported_settings_def)

theorem op_rate_gains_digit:
  assumes msg_fits: "msg_fits fio client_sizes cc (filter (\<lambda>it. snd it \<noteq> C_op_rate) client_items)"
    and v: "1000 \<le> c_num cc C_op_rate" "c_num cc C_op_rate \<le> 9999" "c_num cc C_op_rate_flag = 1"
    and read: "\<forall>it \<in> set client_items. readable cc it"
    and cmd: "c_num cc C_command \<noteq> R_TERMINATE" "c_num cc C_command \<noteq> R_DEATH"
    and chid: "0 \<le> c_num cc C_client_number" "c_num cc C_client_number < 1024"
  shows "\<exists>m. encode_client fio cc = Ret m \<and> (\<forall>rest. \<exists>H'. receive_state fio (m @ rest) H = Ret H' \<and>
     s_num H' ''op_rate'' = 10 * c_num cc C_op_rate + 1)"
proof -
  define v where "v = c_num cc C_op_rate"
  define f where "f = member_text fio cc client_items"
  define A B where "A = take 40 client_items" and "B = drop 41 client_items"
  note split = client_items_split [folded A_def B_def]
  have four: "length (show_int v) = 4" using v by (simp add: v_def length_show_int_4)
  have AB: "set A \<subseteq> set client_items" "set B \<subseteq> set client_items"
    "distinct (map snd A)" "distinct (map snd B)" "snd ` set A \<inter> snd ` set B = {}"
    using client_items_distinct unfolding split(1) by auto
  have "\<forall>it \<in> set A. snd it \<noteq> C_op_rate" and B_rate: "\<forall>it \<in> set B. snd it \<noteq> C_op_rate"
    using split(4,5) by (metis image_eqI)+
  with AB(1,2) have "set A \<subseteq> {it \<in> set client_items. snd it \<noteq> C_op_rate}"
      "set B \<subseteq> {it \<in> set client_items. snd it \<noteq> C_op_rate}"
    by blast+
  then have "msg_fits fio client_sizes cc A" "msg_fits fio client_sizes cc B"
    using msg_fits_mono [OF msg_fits] by simp_all
  moreover have "\<forall>it \<in> set A. snd it < length client_sizes \<and> snd it \<notin> {}"
    using AB(1) client_items_bound by simp blast
  moreover have "\<forall>it \<in> set B. snd it < length client_sizes \<and> snd it \<notin> insert C_op_rate (snd ` set A)"
    using AB(2,5) client_items_bound B_rate by simp blast
  ultimately have pre: "land fio client_sizes cc A {}"
    and post: "land fio client_sizes cc B (insert C_op_rate (snd ` set A))"
    using AB(3,4) msg_fits_land by blast+
  have land: "land fio client_sizes cc client_items {}"
    unfolding split(1)
    using pre post four split(2,4) by (simp add: land_append Let_def client_sizes_def flip: v_def)
  note enc = encode_packed [OF land, folded f_def]
  define cc' where "cc' = cc\<lparr>c_num := (c_num cc)(C_op_rate := 10 * v + 1)\<rparr>"
  have len: "length (f k) < client_sizes ! k" if "k < 95" "k \<noteq> C_op_rate" for k
  proof (cases "k \<in> snd ` set client_items")
    case True
    then obtain it where "it \<in> set client_items" "snd it = k" by auto
    with msg_fits that client_items_distinct show ?thesis
      by (auto simp: f_def msg_fits_def member_text_in)
  next
    case False
    then have "f k = []" unfolding f_def by (rule member_text_notin)
    with that show ?thesis using client_sizes_pos by simp
  qed
  have rest: "c_string (offset client_sizes (snd it)) (packed client_sizes f @ r) = item_text fio cc it"
    if "it \<in> set client_items" "snd it \<noteq> C_op_rate" for it r
    using that len [of "snd it"] client_items_bound client_items_distinct enc(2)
    by (simp add: c_string_packed member_text_in f_def)
  have in_rate: "(D, C_op_rate) \<in> set client_items" by (subst split(1)) simp
  have rate: "c_string (offset client_sizes C_op_rate) (packed client_sizes f @ r) = show_int (10 * v + 1)" for r
    using rest [OF split(3), of r] member_text_in [OF in_rate client_items_distinct, of fio cc, folded f_def]
      enc(2) four v(1,3) show_int_snoc [of v 1]
    by (subst c_string_packed) (simp_all add: v_def client_sizes_def)
  have buf: "c_string (offset client_sizes (snd it)) (packed client_sizes f @ r) = item_text fio cc' it"
    if "it \<in> set client_items" for it r
  proof (cases "snd it = C_op_rate")
    case True
    with that in_rate have "it = (D, C_op_rate)"
      using client_items_distinct by (auto simp: distinct_map inj_on_def)
    with rate show ?thesis by (simp add: cc'_def)
  next
    case False
    with rest [OF that False] show ?thesis
      by (cases "(fio, cc, it)" rule: item_text.cases) (simp_all add: cc'_def)
  qed
  have read': "\<forall>it \<in> set client_items. readable cc' it"
  proof
    fix it assume "it \<in> set client_items"
    with read have "readable cc it" by blast
    with v show "readable cc' it"
      by (cases "(cc, it)" rule: readable.cases) (auto simp: cc'_def v_def)
  qed
  have "texts_fit cc'"
    using msg_fits in_rate client_items_distinct
    by (force simp: texts_fit_def cc'_def msg_fits_def distinct_map inj_on_def)
  from receive_state_fits [OF this read'] buf cmd
  have rec: "receive_state fio (packed client_sizes f @ r) H =
      import_settings (read_back fio cc' state_items (read_back fio cc' who_items (zero_command fio))) H" for r
    by (simp add: cc'_def)
  let ?d = "read_back fio cc' state_items (read_back fio cc' who_items (zero_command fio))"
  have d: "c_num ?d C_op_rate = 10 * v + 1" "c_num ?d C_client_number = c_num cc C_client_number"
    using read_twice(2) [of C_op_rate fio cc'] read_twice(2) [of C_client_number fio cc'] argument_items(7)
      rate_items(1) by (simp_all add: cc'_def)
  with chid obtain H' where H': "import_settings ?d H = Ret H'"
    by (auto simp: import_settings_def Let_def)
  then have "s_num H' ''op_rate'' = 10 * v + 1"
    using import_settings_number [OF H' rate_items(2)] d(1) v
    by (simp add: v_def signed_take_bit_int_eq_self_iff)
  with enc(1) rec H' show ?thesis by (auto simp: encode_client_def v_def)
qed

end
