(* ===== verification/Iozone_Net.thy ===== *)
theory Iozone_Net
  imports Iozone_Messages
begin

text \<open>
  The sockets of the distributed mode of \<open>iozone.c\<close>: opening and connecting them, sending and
  receiving one message. The system is a parameter, an arbitrary function of the call and its own
  state. Delays, options of sockets and debugging output have no effect on the model, except that
  the calls of \<open>setsockopt\<close> are made.
\<close>

section \<open>The system\<close>

text \<open>
  \<open>nr_data\<close> is what a \<open>read\<close> delivers, whose result is then its length, and the value that
  \<open>getenv\<close> finds. A negative result is a failure.
\<close>

datatype net_call =
    Gethostbyname string
  | Socket
  | Setsockopt int
  | Bind int int
  | Listen int
  | Accept int
  | Connect int int
  | Close int
  | Read int nat
  | Write int string
  | Getenv string
  | System string
  | Fork
  | Chdir string
  | Stat_regular string
  | Unlink string

record net_ret =
  nr_ret :: int
  nr_errno :: int
  nr_data :: string

type_synonym 'os net = "net_call \<Rightarrow> 'os \<Rightarrow> net_ret \<times> 'os"

definition htons :: "int \<Rightarrow> int" where
  "htons p = p mod 65536"

definition EISCONN :: int where "EISCONN = 106"

section \<open>Opening\<close>

text \<open>The loop that tries one port after the other, without end.\<close>

partial_function (option) bind_loop :: "'os net \<Rightarrow> int \<Rightarrow> int \<Rightarrow> 'os \<Rightarrow> (int \<times> 'os) outcome option" where
  "bind_loop K s port os =
     (let (r, os) = K (Bind s (htons port)) os
      in if nr_ret r < 0 then bind_loop K s (port + 1) os else Some (Ret (port, os)))"

definition open_listener :: "'os net \<Rightarrow> nat \<Rightarrow> int \<Rightarrow> 'os \<Rightarrow> (int \<times> int \<times> 'os) outcome" where
  "open_listener K options port os =
     (let (r, os) = K Socket os; s = nr_ret r
      in if s < 0 then Exit 19
         else let os = ((\<lambda>os. snd (K (Setsockopt s) os)) ^^ options) os
              in obind (loops (bind_loop K s port os)) (\<lambda>(port, os). Ret (s, htons port, os)))"

abbreviation (input) HOST_LIST_PORT :: int where "HOST_LIST_PORT \<equiv> 20000"
abbreviation (input) HOST_ESEND_PORT :: int where "HOST_ESEND_PORT \<equiv> 21024"
abbreviation (input) HOST_ASEND_PORT :: int where "HOST_ASEND_PORT \<equiv> 22048"
abbreviation (input) CHILD_ESEND_PORT :: int where "CHILD_ESEND_PORT \<equiv> 23072"
abbreviation (input) CHILD_LIST_PORT :: int where "CHILD_LIST_PORT \<equiv> 24096"
abbreviation (input) CHILD_ALIST_PORT :: int where "CHILD_ALIST_PORT \<equiv> 25120"

text \<open>The results are the socket and the port that the listener was bound to.\<close>

definition start_master_listen :: "'os net \<Rightarrow> 'os \<Rightarrow> (int \<times> int \<times> 'os) outcome" where
  "start_master_listen K os = open_listener K 3 HOST_LIST_PORT os"

definition start_child_listen :: "'os net \<Rightarrow> int \<Rightarrow> 'os \<Rightarrow> (int \<times> int \<times> 'os) outcome" where
  "start_child_listen K chid os = open_listener K 3 (c_int (CHILD_LIST_PORT + chid)) os"

definition start_child_listen_async :: "'os net \<Rightarrow> 'os \<Rightarrow> (int \<times> int \<times> 'os) outcome" where
  "start_child_listen_async K os = open_listener K 2 CHILD_ALIST_PORT os"

definition child_attach :: "'os net \<Rightarrow> int \<Rightarrow> 'os \<Rightarrow> int \<times> 'os" where
  "child_attach K s os =
     (let (_, os) = K (Listen s) os; (r, os) = K (Accept s) os in (nr_ret r, os))"

section \<open>Connecting\<close>

text \<open>
  \<open>start_master_send\<close> gives up after 301 attempts, \<open>start_master_send_async\<close> starts over with a new
  socket. The first one resolves the name; the second is given the address.
\<close>

fun connect_retry :: "'os net \<Rightarrow> int \<Rightarrow> int \<Rightarrow> nat \<Rightarrow> 'os \<Rightarrow> bool \<times> 'os" where
  "connect_retry K s port n os =
     (let (r, os) = K (Connect s (htons port)) os
      in if nr_ret r < 0
         then (case n of 0 \<Rightarrow> (False, os) | Suc n \<Rightarrow> connect_retry K s port n os)
         else (True, os))"

definition start_master_send :: "'os net \<Rightarrow> string \<Rightarrow> int \<Rightarrow> 'os \<Rightarrow> (int \<times> 'os) outcome" where
  "start_master_send K name port os =
     (let (r, os) = K (Gethostbyname name) os
      in if nr_ret r < 0 then Exit 22
         else let (r, os) = K Socket os; s = nr_ret r
              in if s < 0 then Exit 23
                 else obind (loops (bind_loop K s HOST_ESEND_PORT os)) (\<lambda>(_, os).
                      let (connected, os) = connect_retry K s port 300 os
                      in if connected then Ret (s, os) else Exit 25))"

partial_function (option) start_async_loop :: "'os net \<Rightarrow> int \<Rightarrow> 'os \<Rightarrow> (int \<times> 'os) outcome option" where
  "start_async_loop K port os =
     (let (r, os) = K Socket os; s = nr_ret r
      in if s < 0 then Some (Exit 23)
         else ostep (loops (bind_loop K s HOST_ASEND_PORT os)) (\<lambda>(_, os).
              let (connected, os) = connect_retry K s port 300 os
              in if connected then Some (Ret (s, os))
                 else let (_, os) = K (Close s) os in start_async_loop K port os))"

definition start_master_send_async :: "'os net \<Rightarrow> int \<Rightarrow> 'os \<Rightarrow> (int \<times> 'os) outcome" where
  "start_master_send_async K port os = loops (start_async_loop K port os)"

section \<open>Sending\<close>

text \<open>
  A write that fails ends the process; one that is cut short does not. \<open>child_send\<close> counts its
  failed attempts in the global \<open>ecount\<close>, which is 0 whenever it begins.
\<close>

definition master_send :: "'os net \<Rightarrow> 'f float_io \<Rightarrow> int \<Rightarrow> 'f command \<Rightarrow> 'os \<Rightarrow> 'os outcome" where
  "master_send K fio s cc os =
     obind (encode_client fio cc) (\<lambda>m.
     let (r, os) = K (Write s m) os in if nr_ret r < 0 then Exit 26 else Ret os)"

fun child_connect :: "'os net \<Rightarrow> int \<Rightarrow> int \<Rightarrow> nat \<Rightarrow> 'os \<Rightarrow> bool \<times> 'os" where
  "child_connect K s port n os =
     (let (r, os) = K (Connect s (htons port)) os
      in if nr_ret r < 0
         then (case n of 0 \<Rightarrow> (False, os)
               | Suc n \<Rightarrow> if nr_errno r \<noteq> EISCONN then child_connect K s port n os else (False, os))
         else (True, os))"

partial_function (option) child_send_loop :: "'os net \<Rightarrow> int \<Rightarrow> 'os \<Rightarrow> (int \<times> 'os) outcome option" where
  "child_send_loop K port os =
     (let (r, os) = K Socket os; s = nr_ret r
      in if s < 0 then Some (Exit 23)
         else ostep (loops (bind_loop K s CHILD_ESEND_PORT os)) (\<lambda>(_, os).
              let (connected, os) = child_connect K s port 200 os
              in if connected then Some (Ret (s, os))
                 else let (_, os) = K (Close s) os in child_send_loop K port os))"

definition child_send :: "'os net \<Rightarrow> 'f float_io \<Rightarrow> string \<Rightarrow> int \<Rightarrow> 'f command \<Rightarrow> 'os \<Rightarrow> 'os outcome" where
  "child_send K fio host port mc os =
     (let (r, os) = K (Gethostbyname host) os
      in if nr_ret r < 0 then Exit 22
         else obind (loops (child_send_loop K port os)) (\<lambda>(s, os).
              obind (encode_master fio mc) (\<lambda>m.
              let (r, os) = K (Write s m) os
              in if nr_ret r < 0 then Exit 26 else Ret (snd (K (Close s) os)))))"

section \<open>Receiving\<close>

text \<open>
  The buffers have 4096 bytes. \<open>master_listen\<close> takes what a single \<open>read\<close> delivers and keeps the
  rest of its buffer; the clients read until they have as many bytes as a message has, and ask for
  a whole message each time. Only the asynchronous listener looks for the end of the stream.
\<close>

definition store :: "nat \<Rightarrow> string \<Rightarrow> string \<Rightarrow> string outcome" where
  "store at d buf = (if at + length d \<le> length buf then Ret (buf_put at d buf) else Crash BufferOverflow)"

partial_function (option) accept_loop :: "'os net \<Rightarrow> int \<Rightarrow> 'os \<Rightarrow> (int \<times> 'os) outcome option" where
  "accept_loop K s os =
     (let (_, os) = K (Listen s) os; (r, os) = K (Accept s) os
      in if nr_ret r < 0 then accept_loop K s os else Some (Ret (nr_ret r, os)))"

definition master_listen :: "'os net \<Rightarrow> int \<Rightarrow> string \<Rightarrow> 'os \<Rightarrow> (string \<times> 'os) outcome" where
  "master_listen K s buf os =
     obind (loops (accept_loop K s os)) (\<lambda>(ns, os).
     let (r, os) = K (Read ns (sum_list master_sizes)) os
     in obind (if nr_ret r < 0 then Ret buf else store 0 (nr_data r) buf) (\<lambda>buf.
        Ret (buf, snd (K (Close ns) os))))"

partial_function (option) child_listen_loop ::
  "'os net \<Rightarrow> int \<Rightarrow> nat \<Rightarrow> nat \<Rightarrow> string \<Rightarrow> 'os \<Rightarrow> (string \<times> 'os) outcome option" where
  "child_listen_loop K s n rcvd buf os =
     (if rcvd < n
      then let (r, os) = K (Read s n) os
           in if nr_ret r < 0 then Some (Exit 21)
              else ostep (store rcvd (nr_data r) buf) (\<lambda>buf.
                   child_listen_loop K s n (rcvd + length (nr_data r)) buf os)
      else Some (Ret (buf, os)))"

definition child_listen :: "'os net \<Rightarrow> int \<Rightarrow> nat \<Rightarrow> 'os \<Rightarrow> (string \<times> 'os) outcome" where
  "child_listen K s n os = loops (child_listen_loop K s n 0 (replicate 4096 nul) os)"

partial_function (option) listen_async_loop ::
  "'os net \<Rightarrow> int \<Rightarrow> nat \<Rightarrow> nat \<Rightarrow> string \<Rightarrow> 'os \<Rightarrow> (string \<times> 'os) outcome option" where
  "listen_async_loop K s n rcvd buf os =
     (if rcvd < n
      then let (r, os) = K (Read s n) os
           in if nr_ret r < 0 then Some (Exit 21)
              else if nr_data r = [] then Some (Exit 0)
              else ostep (store rcvd (nr_data r) buf) (\<lambda>buf.
                   listen_async_loop K s n (rcvd + length (nr_data r)) buf os)
      else Some (Ret (buf, os)))"

definition child_listen_async ::
  "'os net \<Rightarrow> int \<Rightarrow> nat \<Rightarrow> string \<Rightarrow> 'os \<Rightarrow> (string \<times> 'os) outcome" where
  "child_listen_async K s n buf os = loops (listen_async_loop K s n 0 buf os)"

end
