(* ===== verification/Iozone_Master.thy ===== *)
theory Iozone_Master
  imports Iozone_Net
begin

text \<open>
  The master of the distributed mode of \<open>iozone.c\<close>: it starts a client with a remote shell and
  leads it to the barrier (\<open>pick_client\<close>), tells all clients to begin, and collects their reports in
  a process of its own, whose loop is \<open>start_master_listen_loop\<close>.
\<close>

section \<open>State\<close>

record 'f child_stats =
  cs_flag :: int
  cs_walltime :: 'f
  cs_cputime :: 'f
  cs_throughput :: 'f
  cs_actual :: 'f

text \<open>
  The arrays have \<open>MAXSTREAMS\<close>, 1024, elements. The statistics \<open>shmaddr\<close> and the stop flag are in
  memory that the processes share.
\<close>

record ('f, 'os) master =
  ma_os :: 'os
  ma_rcv_buf :: string
  ma_idents :: "nat \<Rightarrow> child_ident"
  ma_current_client_number :: int
  ma_join_count :: int
  ma_sent_stop :: bool
  ma_stop_flag :: int
  ma_shmaddr :: "nat \<Rightarrow> 'f child_stats"
  ma_send_sockets :: "nat \<Rightarrow> int"
  ma_send_async_sockets :: "nat \<Rightarrow> int"
  ma_listen_socket :: int
  ma_listen_port :: int
  ma_settings :: "'f settings"

abbreviation (input) MAXSTREAMS :: int where "MAXSTREAMS \<equiv> 1024"

definition R_CHILD_JOIN :: int where "R_CHILD_JOIN = 1"
definition R_STAT_DATA :: int where "R_STAT_DATA = 2"
definition R_FLAG_DATA :: int where "R_FLAG_DATA = 3"
definition R_STOP_FLAG :: int where "R_STOP_FLAG = 5"

definition CHILD_STATE_READY :: int where "CHILD_STATE_READY = 1"
definition CHILD_STATE_BEGIN :: int where "CHILD_STATE_BEGIN = 2"

definition C_STATE_ZERO :: int where "C_STATE_ZERO = 1"
definition C_STATE_WAIT_WHO :: int where "C_STATE_WAIT_WHO = 2"
definition C_STATE_WAIT_BARRIER :: int where "C_STATE_WAIT_BARRIER = 3"

definition set_ident :: "nat \<Rightarrow> (child_ident \<Rightarrow> child_ident) \<Rightarrow> ('f, 'os) master \<Rightarrow> ('f, 'os) master" where
  "set_ident i f m = m\<lparr>ma_idents := (ma_idents m)(i := f (ma_idents m i))\<rparr>"

text \<open>The indices that come with a message are not checked against the size of the array.\<close>

definition set_stats ::
  "int \<Rightarrow> ('f child_stats \<Rightarrow> 'f child_stats) \<Rightarrow> ('f, 'os) master \<Rightarrow> ('f, 'os) master outcome" where
  "set_stats i f m =
     (if 0 \<le> i \<and> i < MAXSTREAMS
      then Ret (m\<lparr>ma_shmaddr := (ma_shmaddr m)(nat i := f (ma_shmaddr m (nat i)))\<rparr>)
      else Crash BadHandle)"

definition hear :: "'os net \<Rightarrow> ('f, 'os) master \<Rightarrow> ('f, 'os) master outcome" where
  "hear K m =
     obind (master_listen K (ma_listen_socket m) (ma_rcv_buf m) (ma_os m)) (\<lambda>(buf, os).
     Ret (m\<lparr>ma_rcv_buf := buf, ma_os := os\<rparr>))"

definition tell :: "'os net \<Rightarrow> 'f float_io \<Rightarrow> int \<Rightarrow> 'f command \<Rightarrow> ('f, 'os) master \<Rightarrow> ('f, 'os) master outcome"
where
  "tell K fio s cc m = obind (master_send K fio s cc (ma_os m)) (\<lambda>os. Ret (m\<lparr>ma_os := os\<rparr>))"

section \<open>Messages to the clients\<close>

text \<open>What the master sends outside \<open>pick_client\<close>: a command with a few settings.\<close>

definition short_command :: "'f float_io \<Rightarrow> 'f settings \<Rightarrow> int \<Rightarrow> 'f command" where
  "short_command fio G i = (zero_command fio)\<lparr>c_num := (\<lambda>_. 0)(C_client_number := i,
     C_zero_pct := s_num G ''zero_pct'', C_N_special := s_num G ''N_special'',
     C_dedup_granule_size := s_num G ''dedup_granule_size'')\<rparr>"

definition with_number :: "nat \<Rightarrow> int \<Rightarrow> 'f command \<Rightarrow> 'f command" where
  "with_number k v c = c\<lparr>c_num := (c_num c)(k := v)\<rparr>"

definition tell_children_begin :: "'os net \<Rightarrow> 'f float_io \<Rightarrow> int \<Rightarrow> ('f, 'os) master \<Rightarrow> ('f, 'os) master outcome"
where
  "tell_children_begin K fio childnum m =
     tell K fio (ma_send_sockets m (nat childnum))
       (with_number C_command R_FLAG_DATA (with_number C_child_flag CHILD_STATE_BEGIN
         (short_command fio (ma_settings m) childnum))) m"

fun for_children ::
  "(nat \<Rightarrow> ('f, 'os) master \<Rightarrow> ('f, 'os) master outcome) \<Rightarrow> nat list \<Rightarrow> ('f, 'os) master \<Rightarrow> ('f, 'os) master outcome"
where
  "for_children f [] m = Ret m"
| "for_children f (i # is) m = obind (f i m) (for_children f is)"

definition children :: "('f, 'os) master \<Rightarrow> nat list" where
  "children m = [0..<nat (s_num (ma_settings m) ''num_child'')]"

definition terminate_child_async :: "'os net \<Rightarrow> 'f float_io \<Rightarrow> ('f, 'os) master \<Rightarrow> ('f, 'os) master outcome" where
  "terminate_child_async K fio m =
     for_children (\<lambda>i m.
       let m = set_ident i (\<lambda>c. c\<lparr>ci_state := C_STATE_ZERO\<rparr>) m
       in tell K fio (ma_send_async_sockets m i)
            (with_number C_command R_TERMINATE (short_command fio (ma_settings m) (int i))) m)
     (children m) m"

definition distribute_stop :: "'os net \<Rightarrow> 'f float_io \<Rightarrow> ('f, 'os) master \<Rightarrow> ('f, 'os) master outcome" where
  "distribute_stop K fio m =
     (if ma_sent_stop m then Ret m
      else obind (for_children (\<lambda>i m. tell K fio (ma_send_async_sockets m i)
             (with_number C_command R_STOP_FLAG (with_number C_stop_flag 1
               (short_command fio (ma_settings m) (int i)))) m) (children m) m) (\<lambda>m.
           Ret (m\<lparr>ma_sent_stop := True\<rparr>)))"

text \<open>
  On a signal the master tells the clients to die, on the channels they have by then.
\<close>

definition cleanup_children :: "'os net \<Rightarrow> 'f float_io \<Rightarrow> ('f, 'os) master \<Rightarrow> ('f, 'os) master outcome" where
  "cleanup_children K fio m =
     for_children (\<lambda>i m.
       let cc = with_number C_command R_DEATH (with_number C_client_number (int i) (zero_command fio));
           st = ci_state (ma_idents m i)
       in obind (if st = C_STATE_WAIT_WHO then tell K fio (ma_send_sockets m i) cc m else Ret m) (\<lambda>m.
          if st = C_STATE_WAIT_BARRIER
          then obind (tell K fio (ma_send_sockets m i) cc m) (tell K fio (ma_send_async_sockets m i) cc)
          else Ret m))
     (children m) m"

definition cleanup_comm :: "'os net \<Rightarrow> ('f, 'os) master \<Rightarrow> ('f, 'os) master outcome" where
  "cleanup_comm K m =
     for_children (\<lambda>i m.
       let (_, os) = K (Close (ma_send_sockets m i)) (ma_os m);
           (_, os) = K (Close (ma_send_async_sockets m i)) os
       in Ret (m\<lparr>ma_os := os\<rparr>)) (children m) m"

text \<open>\<open>wait(0)\<close> waits for the listening process; its result is not used.\<close>

definition wait_dist_join :: "'os net \<Rightarrow> 'f float_io \<Rightarrow> ('f, 'os) master \<Rightarrow> ('f, 'os) master outcome" where
  "wait_dist_join K fio m =
     obind (terminate_child_async K fio m) (\<lambda>m. Ret (m\<lparr>ma_current_client_number := 0\<rparr>))"

section \<open>Starting a client\<close>

definition find_remote_shell :: "'os net \<Rightarrow> 'os \<Rightarrow> (string \<times> 'os) outcome" where
  "find_remote_shell K os =
     (let (r, os) = K (Getenv ''RSH'') os
      in obind (c_strcpy 256 (if nr_ret r < 0 then ''rsh'' else nr_data r)) (\<lambda>sh. Ret (sh, os)))"

definition remote_command :: "string \<Rightarrow> child_ident \<Rightarrow> string \<Rightarrow> int \<Rightarrow> string outcome" where
  "remote_command shell ci host port =
     c_strcpy 512 (shell @ '' '' @ ci_child_name ci @ '' -n '' @ [CHR 0x27] @ ci_execute_path ci @
       '' -+s -t 1 -r 4 -s 4 -+c '' @ host @
       (if port \<noteq> HOST_LIST_PORT then '' -+i '' @ show_int port else []) @ '' '' @ [CHR 0x27])"

text \<open>
  The values that \<open>sscanf\<close> does not find stay as they are in \<open>mc\<close>, which is not initialised: it is an
  argument. The items are those that the code reads in steps 2 and 5.
\<close>

definition join_items :: "item list" where
  "join_items = [(D, M_child_port), (D, M_child_async_port), (D, M_command), (D, M_version)]"

definition barrier_items :: "item list" where
  "barrier_items = [(D, M_client_number), (LLD, M_child_flag)]"

definition pick_client ::
  "'os net \<Rightarrow> 'f float_io \<Rightarrow> 'f command \<Rightarrow> int \<Rightarrow> int \<Rightarrow> int \<Rightarrow> ('f, 'os) master \<Rightarrow> (int \<times> ('f, 'os) master) outcome"
where
  "pick_client K fio mc testnum numrecs64 reclen m =
     (let x = ma_current_client_number m + 1; i = nat (x - 1);
          m = m\<lparr>ma_current_client_number := x\<rparr>
      in if \<not> (0 \<le> x - 1 \<and> x - 1 < MAXSTREAMS) then Crash BadHandle
      else let m = set_ident i (\<lambda>c. c\<lparr>ci_state := C_STATE_ZERO\<rparr>) m; G = ma_settings m
      in obind (find_remote_shell K (ma_os m)) (\<lambda>(shell, os).
         obind (remote_command shell (ma_idents m i) (s_txt G ''controlling_host_name'') (ma_listen_port m)) (\<lambda>cmd.
         let (_, os) = K (System cmd) os;
             m = set_ident i (\<lambda>c. c\<lparr>ci_state := C_STATE_WAIT_WHO\<rparr>) (m\<lparr>ma_os := os\<rparr>)
         in obind (hear K m) (\<lambda>m.
         obind (scan_items fio master_sizes join_items (ma_rcv_buf m) mc) (\<lambda>mc.
         obind (start_master_send K (ci_child_name (ma_idents m i)) (c_num mc M_child_port) (ma_os m)) (\<lambda>(s, os).
         obind (start_master_send_async K (c_num mc M_child_async_port) os) (\<lambda>(sa, os).
         let m = set_ident i (\<lambda>c. c\<lparr>ci_master_socket_num := s, ci_master_async_socket_num := sa,
                     ci_child_number := x - 1, ci_child_port := c_num mc M_child_port,
                     ci_child_async_port := c_num mc M_child_async_port\<rparr>)
                   (m\<lparr>ma_os := os, ma_send_sockets := (ma_send_sockets m)(i := s),
                      ma_send_async_sockets := (ma_send_async_sockets m)(i := sa)\<rparr>)
         in obind (pick_command fio G (ma_idents m i) x testnum numrecs64 reclen) (\<lambda>cc.
         obind (tell K fio s cc m) (\<lambda>m.
         obind (hear K (set_ident i (\<lambda>c. c\<lparr>ci_state := C_STATE_WAIT_BARRIER\<rparr>) m)) (\<lambda>m.
         obind (scan_items fio master_sizes barrier_items (ma_rcv_buf m) mc) (\<lambda>mc.
         obind (set_stats (c_num mc M_client_number) (\<lambda>s. s\<lparr>cs_flag := c_num mc M_child_flag\<rparr>) m) (\<lambda>m.
         Ret (x, m)))))))))))))"

section \<open>Collecting the reports\<close>

text \<open>
  A message of another generation, left over from another run, is ignored. The loop ends the
  process; the result is the state that it leaves in the shared memory.
\<close>

definition dispatch_report ::
  "'os net \<Rightarrow> 'f float_io \<Rightarrow> 'f command \<Rightarrow> ('f, 'os) master \<Rightarrow> ('f, 'os) master outcome"
where
  "dispatch_report K fio mc m =
     (let own = (c_num mc M_mygen = s_num (ma_settings m) ''mygen''); i = c_num mc M_client_number
      in if c_num mc M_command = R_STAT_DATA then
           if \<not> own then Ret m
           else obind (set_stats i (\<lambda>s. s\<lparr>cs_flag := c_num mc M_child_flag, cs_actual := c_flt mc M_actual,
                    cs_throughput := c_flt mc M_throughput, cs_cputime := c_flt mc M_cputime,
                    cs_walltime := c_flt mc M_walltime\<rparr>) m) (\<lambda>m.
                Ret (m\<lparr>ma_stop_flag := cast CChar (c_num mc M_stop_flag),
                       ma_join_count := ma_join_count m - 1\<rparr>))
         else if c_num mc M_command = R_FLAG_DATA then
           if \<not> own then Ret m else set_stats i (\<lambda>s. s\<lparr>cs_flag := c_num mc M_child_flag\<rparr>) m
         else if c_num mc M_command = R_STOP_FLAG then
           if \<not> own then Ret m else distribute_stop K fio (m\<lparr>ma_stop_flag := 1\<rparr>)
         else Ret m)"

partial_function (option) report_loop ::
  "'os net \<Rightarrow> 'f float_io \<Rightarrow> 'f command \<Rightarrow> ('f, 'os) master \<Rightarrow> ('f, 'os) master outcome option"
where
  "report_loop K fio mc m =
     (if ma_join_count m = 0 then Some (Ret m)
      else ostep (hear K m) (\<lambda>m.
           ostep (scan_items fio master_sizes report_items (ma_rcv_buf m) mc) (\<lambda>mc.
           ostep (dispatch_report K fio mc m) (\<lambda>m. report_loop K fio mc m))))"

definition start_master_listen_loop ::
  "'os net \<Rightarrow> 'f float_io \<Rightarrow> 'f command \<Rightarrow> int \<Rightarrow> ('f, 'os) master \<Rightarrow> ('f, 'os) master outcome"
where
  "start_master_listen_loop K fio mc num m = loops (report_loop K fio mc (m\<lparr>ma_join_count := num\<rparr>))"

end
