(* ===== verification/Iozone_Client.thy ===== *)
theory Iozone_Client
  imports Iozone_Net
begin

text \<open>
  The client of the distributed mode of \<open>iozone.c\<close>: it joins the master, takes over its settings,
  waits at the barrier and reports. A second process listens for messages to stop or to end.
\<close>

section \<open>State\<close>

record ('f, 'os) client =
  cl_os :: 'os
  cl_settings :: "'f settings"
  cl_client_error :: int
  cl_sock :: int
  cl_async_sock :: int
  cl_async_buf :: string
  cl_stop_flag :: int
  cl_sent_stop :: bool

section \<open>Messages to the master\<close>

definition report :: "'f float_io \<Rightarrow> int \<Rightarrow> ('f, 'os) client \<Rightarrow> 'f command" where
  "report fio command w = (zero_command fio)\<lparr>c_num := (\<lambda>_. 0)(M_command := command,
     M_mygen := s_num (cl_settings w) ''mygen'', M_version := s_num (cl_settings w) ''proto_version'',
     M_client_error := cl_client_error w)\<rparr>"

definition send_report :: "'os net \<Rightarrow> 'f float_io \<Rightarrow> 'f command \<Rightarrow> ('f, 'os) client \<Rightarrow> ('f, 'os) client outcome"
where
  "send_report K fio mc w =
     obind (child_send K fio (s_txt (cl_settings w) ''controlling_host_name'')
        (s_num (cl_settings w) ''controlling_host_port'') mc (cl_os w)) (\<lambda>os. Ret (w\<lparr>cl_os := os\<rparr>))"

definition stats_message ::
  "'f float_io \<Rightarrow> int \<Rightarrow> int \<Rightarrow> 'f \<Rightarrow> 'f \<Rightarrow> 'f \<Rightarrow> 'f \<Rightarrow> int \<Rightarrow> int \<Rightarrow> ('f, 'os) client \<Rightarrow> 'f command"
where
  "stats_message fio testnum chid throughput actual cpu_time wall_time stop child_flag w =
     (let mc = report fio 2 w
      in mc\<lparr>c_num := (c_num mc)(M_client_number := cast CInt chid, M_testnum := testnum,
             M_stop_flag := cast CChar stop, M_child_flag := child_flag),
            c_flt := (c_flt mc)(M_throughput := throughput, M_actual := actual,
             M_cputime := cpu_time, M_walltime := wall_time)\<rparr>)"

definition tell_master_stats ::
  "'os net \<Rightarrow> 'f float_io \<Rightarrow> int \<Rightarrow> int \<Rightarrow> 'f \<Rightarrow> 'f \<Rightarrow> 'f \<Rightarrow> 'f \<Rightarrow> int \<Rightarrow> int \<Rightarrow> ('f, 'os) client \<Rightarrow> ('f, 'os) client outcome"
where
  "tell_master_stats K fio testnum chid throughput actual cpu_time wall_time stop child_flag w =
     send_report K fio (stats_message fio testnum chid throughput actual cpu_time wall_time stop child_flag w) w"

definition ready_message :: "'f float_io \<Rightarrow> int \<Rightarrow> ('f, 'os) client \<Rightarrow> 'f command" where
  "ready_message fio chid w =
     (let mc = report fio 3 w
      in mc\<lparr>c_num := (c_num mc)(M_child_flag := 1, M_client_number := cast CInt chid)\<rparr>)"

definition tell_master_ready :: "'os net \<Rightarrow> 'f float_io \<Rightarrow> int \<Rightarrow> ('f, 'os) client \<Rightarrow> ('f, 'os) client outcome"
where
  "tell_master_ready K fio chid w = send_report K fio (ready_message fio chid w) w"

definition send_stop :: "'os net \<Rightarrow> 'f float_io \<Rightarrow> ('f, 'os) client \<Rightarrow> ('f, 'os) client outcome" where
  "send_stop K fio w =
     (let mc = report fio 5 w;
          mc = mc\<lparr>c_num := (c_num mc)(M_client_number := cast CInt (s_num (cl_settings w) ''chid''))\<rparr>
      in obind (send_report K fio mc w) (\<lambda>w. Ret (w\<lparr>cl_client_error := 0\<rparr>)))"

section \<open>The barrier\<close>

definition wait_for_master_go :: "'os net \<Rightarrow> 'f float_io \<Rightarrow> ('f, 'os) client \<Rightarrow> ('f, 'os) client outcome" where
  "wait_for_master_go K fio w =
     obind (child_listen K (cl_sock w) (sum_list client_sizes) (cl_os w)) (\<lambda>(buf, os).
     obind (scan_items fio client_sizes [(D, C_command)] buf (zero_command fio)) (\<lambda>cc.
     if c_num cc C_command = R_TERMINATE \<or> c_num cc C_command = R_DEATH then Exit 1
     else Ret (w\<lparr>cl_os := os\<rparr>)))"

section \<open>The listening process\<close>

text \<open>
  \<open>child_remove_files\<close> removes the file of the test: the name itself with \<open>mfflag\<close>, else with the
  suffix. \<open>Stat_regular\<close> is \<open>check_filename\<close>: whether the name is that of a regular file.
\<close>

definition child_remove_files :: "'os net \<Rightarrow> int \<Rightarrow> ('f, 'os) client \<Rightarrow> ('f, 'os) client outcome" where
  "child_remove_files K i w =
     (if \<not> (0 \<le> i \<and> i < 1024) then Crash BadHandle
      else let G = cl_settings w
      in obind (c_strcpy 1000 (if s_num G ''mfflag'' \<noteq> 0 then s_txt G ''tfile''
                else s_txt G ''tfile'' @ ''.DUMMY.'' @ show_int i)) (\<lambda>name.
         if name = [] then Ret w
         else let (r, os) = K (Stat_regular name) (cl_os w)
              in Ret (w\<lparr>cl_os := (if nr_ret r = 0 then os else snd (K (Unlink name) os))\<rparr>)))"

abbreviation (input) stop_items :: "item list" where
  "stop_items \<equiv> [(D, C_command), (D, C_client_number), (D, C_stop_flag)]"

partial_function (option) child_loop ::
  "'os net \<Rightarrow> 'f float_io \<Rightarrow> ('f, 'os) client \<Rightarrow> ('f, 'os) client outcome option"
where
  "child_loop K fio w =
     ostep (child_listen_async K (cl_async_sock w) (sum_list client_sizes) (cl_async_buf w) (cl_os w)) (\<lambda>(buf, os).
     let w = w\<lparr>cl_async_buf := buf, cl_os := os\<rparr>
     in ostep (scan_items fio client_sizes stop_items buf (zero_command fio)) (\<lambda>cc.
        if c_num cc C_command = 5 then
          child_loop K fio (w\<lparr>cl_stop_flag := cast CChar (c_num cc C_stop_flag), cl_sent_stop := True\<rparr>)
        else if c_num cc C_command = R_TERMINATE then
          Some (Ret (w\<lparr>cl_os := snd (K (Close (cl_async_sock w)) (cl_os w))\<rparr>))
        else if c_num cc C_command = R_DEATH then
          ostep (child_remove_files K (c_num cc C_client_number) w) (\<lambda>w.
          Some (Ret (w\<lparr>cl_os := snd (K (Close (cl_async_sock w)) (cl_os w))\<rparr>)))
        else child_loop K fio w))"

definition start_child_listen_loop :: "'os net \<Rightarrow> 'f float_io \<Rightarrow> ('f, 'os) client \<Rightarrow> ('f, 'os) client outcome"
where
  "start_child_listen_loop K fio w = loops (child_loop K fio w)"

section \<open>Joining\<close>

definition join_message :: "'f float_io \<Rightarrow> string \<Rightarrow> string \<Rightarrow> int \<Rightarrow> int \<Rightarrow> int \<Rightarrow> 'f command" where
  "join_message fio host name port async_port version = (zero_command fio)\<lparr>
     c_txt := (\<lambda>_. [])(M_host_name := host, M_client_name := name),
     c_num := (\<lambda>_. 0)(M_child_port := port, M_child_async_port := async_port, M_command := 1,
                M_version := version)\<rparr>"

text \<open>
  \<open>become_client\<close> up to the test: the process forks, the parent returns to the remote shell; the
  listeners are opened, the master is told their ports, the settings are received, and the working
  directory is entered. \<open>name\<close> is what \<open>gethostname\<close> finds. Left out are the buffers that the
  function prepares on the way, \<open>touch_dedup\<close> and \<open>alloc_pbuf\<close>, and its call that starts the second
  process, whose work is \<open>start_child_listen_loop\<close> above.
\<close>

definition become_client ::
  "'os net \<Rightarrow> 'f float_io \<Rightarrow> string \<Rightarrow> ('f, 'os) client \<Rightarrow> ('f, 'os) client outcome"
where
  "become_client K fio name w =
     (let (r, os) = K Fork (cl_os w); G = cl_settings w
      in if nr_ret r \<noteq> 0 then Exit 0
      else obind (start_child_listen K (s_num G ''chid'') os) (\<lambda>(s, port, os).
         obind (start_child_listen_async K os) (\<lambda>(sa, async_port, os).
         obind (c_strcpy 100 (s_txt G ''controlling_host_name'')) (\<lambda>host.
         obind (c_strcpy 100 name) (\<lambda>name.
         obind (send_report K fio (join_message fio host name port async_port (s_num G ''proto_version''))
                  (w\<lparr>cl_os := os\<rparr>)) (\<lambda>w.
         let (s, os) = child_attach K s (cl_os w); (sa, os) = child_attach K sa os
         in obind (child_listen K s (sum_list client_sizes) os) (\<lambda>(buf, os).
         obind (receive_state fio buf G) (\<lambda>H.
         let (r, os) = K (Chdir (s_txt H ''workdir'')) os
         in Ret (w\<lparr>cl_os := os, cl_settings := H, cl_sock := s, cl_async_sock := sa,
                   cl_client_error := (if nr_ret r < 0 then nr_errno r else cl_client_error w)\<rparr>)))))))))"

end
