(* ===== verification/Iozone_Exchange.thy ===== *)
theory Iozone_Exchange
  imports Iozone_Settings Iozone_Master Iozone_Client
begin

text \<open>
  What the two sides of the distributed mode make of the messages on their sockets: a client puts
  the pieces of a message together, and hangs when the stream ends early; the master's loop over
  the reports ends when all clients have reported, but takes a report that is cut short for a
  repetition of the one before it.
\<close>

section \<open>Streams\<close>

text \<open>The reads from a socket deliver the given pieces, however many bytes they ask for.\<close>

fun delivers :: "'os net \<Rightarrow> int \<Rightarrow> nat \<Rightarrow> 'os \<Rightarrow> string list \<Rightarrow> 'os \<Rightarrow> bool" where
  "delivers K s n os [] os' = (os' = os)"
| "delivers K s n os (d # ds) os' =
     (case K (Read s n) os of (r, os1) \<Rightarrow> 0 \<le> nr_ret r \<and> nr_data r = d \<and> delivers K s n os1 ds os')"

definition ended :: "'os net \<Rightarrow> int \<Rightarrow> nat \<Rightarrow> 'os set \<Rightarrow> bool" where
  "ended K s n E \<longleftrightarrow>
     (\<forall>os \<in> E. case K (Read s n) os of (r, os1) \<Rightarrow> nr_ret r = 0 \<and> nr_data r = [] \<and> os1 \<in> E)"

lemma store_append:
  "length a + length d + length z \<le> 4096 \<Longrightarrow>
   store (length a) d (a @ replicate (length d + length z) nul) = Ret ((a @ d) @ replicate (length z) nul)"
  by (simp add: store_def buf_put_def)

lemma store_next:
  assumes "length a + length d \<le> N"
  shows "store (length a) d (a @ replicate (N - length a) nul) = Ret ((a @ d) @ replicate (N - length (a @ d)) nul)"
proof -
  have "N - length a = length d + (N - length a - length d)" using assms by simp
  with assms show ?thesis by (simp add: store_def buf_put_def)
qed

lemma child_listen_loop_delivers:
  assumes "delivers K s n os ds os'" "\<forall>d \<in> set ds. d \<noteq> []" "length (a @ concat ds) = n" "n \<le> N"
  shows "child_listen_loop K s n (length a) (a @ replicate (N - length a) nul) os =
     Some (Ret ((a @ concat ds) @ replicate (N - n) nul, os'))"
  using assms
proof (induction ds arbitrary: a os)
  case Nil
  then show ?case by (subst child_listen_loop.simps) simp
next
  case (Cons d ds)
  obtain r os1 where r: "K (Read s n) os = (r, os1)" by force
  with Cons.prems have d: "\<not> nr_ret r < 0" "nr_data r = d" "delivers K s n os1 ds os'" by simp_all
  have "length a < n" using Cons.prems(2,3) by (cases d) auto
  then have "child_listen_loop K s n (length a) (a @ replicate (N - length a) nul) os =
      child_listen_loop K s n (length (a @ d)) ((a @ d) @ replicate (N - length (a @ d)) nul) os1"
    using r d Cons.prems(3,4) by (subst child_listen_loop.simps) (simp add: store_next)
  also have "\<dots> = Some (Ret (((a @ d) @ concat ds) @ replicate (N - n) nul, os'))"
    using Cons.prems d by (intro Cons.IH) auto
  finally show ?case by simp
qed

lemma child_listen_delivers:
  assumes "delivers K s n os ds os'" "\<forall>d \<in> set ds. d \<noteq> []" "length (concat ds) = n" "n \<le> 4096"
  shows "child_listen K s n os = Ret (concat ds @ replicate (4096 - n) nul, os')"
  using child_listen_loop_delivers [of K s n os ds os' "[]" 4096] assms
  by (simp add: child_listen_def loops_def)

section \<open>A stream that ends early\<close>

lemma child_listen_loop_stuck:
  assumes E: "ended K s n E" and "os \<in> E" "rcvd < n" "rcvd \<le> length buf"
  shows "child_listen_loop K s n rcvd buf os = None"
proof (rule ccontr)
  assume "\<not> ?thesis"
  then obtain z where z: "child_listen_loop K s n rcvd buf os = Some z" by blast
  have "\<not> (K = K \<and> s = s \<and> n = n \<and> os \<in> E \<and> rcvd < n \<and> rcvd \<le> length buf)"
  proof (rule child_listen_loop.raw_induct [where P = "\<lambda>K' s' n' rcvd buf os z.
        \<not> (K' = K \<and> s' = s \<and> n' = n \<and> os \<in> E \<and> rcvd < n \<and> rcvd \<le> length buf)", OF _ z])
    fix f K' s' n' rcvd' buf' os' z'
    assume IH: "\<And>K' s' n' rcvd buf os z. f K' s' n' rcvd buf os = Some z \<Longrightarrow>
        \<not> (K' = K \<and> s' = s \<and> n' = n \<and> os \<in> E \<and> rcvd < n \<and> rcvd \<le> length buf)"
      and step: "(if rcvd' < n'
         then let (r, os) = K' (Read s' n') os'
              in if nr_ret r < 0 then Some (Exit 21)
                 else ostep (store rcvd' (nr_data r) buf')
                        (\<lambda>buf. f K' s' n' (rcvd' + length (nr_data r)) buf os)
         else Some (Ret (buf', os'))) = Some z'"
    show "\<not> (K' = K \<and> s' = s \<and> n' = n \<and> os' \<in> E \<and> rcvd' < n \<and> rcvd' \<le> length buf')"
    proof
      assume a: "K' = K \<and> s' = s \<and> n' = n \<and> os' \<in> E \<and> rcvd' < n \<and> rcvd' \<le> length buf'"
      obtain r os1 where r: "K (Read s n) os' = (r, os1)" by force
      with E a have "nr_ret r = 0" "nr_data r = []" "os1 \<in> E" by (auto simp: ended_def)
      with step a r IH [of K s n rcvd' buf' os1 z'] show False
        by (simp add: store_def)
    qed
  qed
  with assms show False by simp
qed

lemma child_listen_loop_pieces:
  assumes "delivers K s n os ds os'" "length (a @ concat ds) < n" "n \<le> N"
  shows "child_listen_loop K s n (length a) (a @ replicate (N - length a) nul) os =
     child_listen_loop K s n (length (a @ concat ds))
       ((a @ concat ds) @ replicate (N - length (a @ concat ds)) nul) os'"
  using assms
proof (induction ds arbitrary: a os)
  case (Cons d ds)
  obtain r os1 where r: "K (Read s n) os = (r, os1)" by force
  with Cons.prems have d: "\<not> nr_ret r < 0" "nr_data r = d" "delivers K s n os1 ds os'" by simp_all
  have "child_listen_loop K s n (length a) (a @ replicate (N - length a) nul) os =
      child_listen_loop K s n (length (a @ d)) ((a @ d) @ replicate (N - length (a @ d)) nul) os1"
    using r d Cons.prems(2,3) by (subst child_listen_loop.simps) (simp add: store_next)
  also have "\<dots> = child_listen_loop K s n (length ((a @ d) @ concat ds))
       (((a @ d) @ concat ds) @ replicate (N - length ((a @ d) @ concat ds)) nul) os'"
    using Cons.prems d by (intro Cons.IH) auto
  finally show ?case by simp
qed simp

lemma child_listen_cut_short:
  assumes "delivers K s n os ds os'" "length (concat ds) < n" "n \<le> 4096"
    and "ended K s n E" "os' \<in> E"
  shows "child_listen K s n os = Hang"
  using child_listen_loop_pieces [of K s n os ds os' "[]" 4096] assms
    child_listen_loop_stuck [OF assms(4,5), of "length (concat ds)"]
  by (simp add: child_listen_def loops_def)


lemma listen_async_cut_short_aux:
  assumes "delivers K s n os ds os'" "\<forall>d \<in> set ds. d \<noteq> []" "rcvd + length (concat ds) < n"
    and "n \<le> length buf" "ended K s n E" "os' \<in> E"
  shows "listen_async_loop K s n rcvd buf os = Some (Exit 0)"
  using assms
proof (induction ds arbitrary: rcvd buf os)
  case Nil
  obtain r os1 where r: "K (Read s n) os = (r, os1)" by force
  with Nil have "nr_ret r = 0" "nr_data r = []" by (auto simp: ended_def)
  with r Nil show ?case by (subst listen_async_loop.simps) simp
next
  case (Cons d ds)
  obtain r os1 where r: "K (Read s n) os = (r, os1)" by force
  with Cons.prems have d: "\<not> nr_ret r < 0" "nr_data r = d" "delivers K s n os1 ds os'" by simp_all
  have "listen_async_loop K s n (rcvd + length d) (buf_put rcvd d buf) os1 = Some (Exit 0)"
    using Cons.prems d by (intro Cons.IH) (auto simp: buf_put_def)
  with r d Cons.prems show ?case
    by (subst listen_async_loop.simps) (simp add: store_def)
qed

lemma listen_async_cut_short:
  assumes "delivers K s n os ds os'" "length (concat ds) < n" "\<forall>d \<in> set ds. d \<noteq> []"
    and "n \<le> length buf" "ended K s n E" "os' \<in> E"
  shows "child_listen_async K s n buf os = Exit 0"
  using listen_async_cut_short_aux [of K s n os ds os' 0 buf E] assms
  by (simp add: child_listen_async_def loops_def)

section \<open>Reports\<close>

lemma master_sizes_length [simp]: "length master_sizes = 16" "sum_list master_sizes = 764"
  by (simp_all add: master_sizes_def)

lemma master_items_facts: "distinct (map snd master_items)" "\<forall>it \<in> set master_items. snd it < 16"
  "set report_items \<subseteq> set master_items"
  by (simp_all add: master_items_def report_items_def)

definition message_ok :: "'f float_io \<Rightarrow> 'f command \<Rightarrow> bool" where
  "message_ok fio c \<longleftrightarrow>
     msg_fits fio master_sizes c master_items \<and> (\<forall>it \<in> set master_items. readable c it)"

lemma encode_master_ok:
  assumes "message_ok fio c"
  shows "\<exists>bytes. encode_master fio c = Ret bytes \<and> length bytes = 764 \<and>
     (\<forall>its rest mc. set its \<subseteq> set master_items \<longrightarrow>
        scan_items fio master_sizes its (bytes @ rest) mc = Ret (read_back fio c its mc))"
proof -
  from assms have "msg_fits fio master_sizes c master_items" by (simp add: message_ok_def)
  from encode_fits [OF this] master_items_facts obtain bytes where
    bytes: "encode_master fio c = Ret bytes" "length bytes = 764"
      "\<forall>it \<in> set master_items. \<forall>rest. c_string (offset master_sizes (snd it)) (bytes @ rest) = item_text fio c it"
    by (auto simp: encode_master_def)
  have "scan_items fio master_sizes its (bytes @ rest) mc = Ret (read_back fio c its mc)"
    if "set its \<subseteq> set master_items" for its rest mc
    using assms bytes(3) that by (intro scan_items_read_back) (auto simp: message_ok_def msg_fits_def)
  with bytes show ?thesis by blast
qed

text \<open>
  The reports come one after the other: each is received whole, at whatever time the master gets to
  it.
\<close>

fun reports_come :: "'os net \<Rightarrow> 'f float_io \<Rightarrow> ('f, 'os) master \<Rightarrow> 'f command list \<Rightarrow> bool" where
  "reports_come K fio m [] = True"
| "reports_come K fio m (c # cs) =
     (\<exists>bytes os'. encode_master fio c = Ret bytes \<and>
        hear K m = Ret (m\<lparr>ma_rcv_buf := bytes @ drop 764 (ma_rcv_buf m), ma_os := os'\<rparr>) \<and>
        (\<forall>mc m2. dispatch_report K fio (read_back fio c report_items mc)
             (m\<lparr>ma_rcv_buf := bytes @ drop 764 (ma_rcv_buf m), ma_os := os'\<rparr>) = Ret m2 \<longrightarrow>
           reports_come K fio m2 cs))"

text \<open>The abstract effect of a report on the statistics of client \<open>i\<close> of generation \<open>gen\<close>.\<close>

definition wired :: "'f float_io \<Rightarrow> 'f \<Rightarrow> 'f" where
  "wired fio x = the (fl_scan fio (fl_print fio x))"

definition noted :: "'f float_io \<Rightarrow> int \<Rightarrow> nat \<Rightarrow> 'f command \<Rightarrow> 'f child_stats \<Rightarrow> 'f child_stats" where
  "noted fio gen i c s =
     (if c_num c M_mygen \<noteq> gen \<or> c_num c M_client_number \<noteq> int i then s
      else if c_num c M_command = R_STAT_DATA then
        \<lparr>cs_flag = c_num c M_child_flag, cs_walltime = wired fio (c_flt c M_walltime),
         cs_cputime = wired fio (c_flt c M_cputime), cs_throughput = wired fio (c_flt c M_throughput),
         cs_actual = wired fio (c_flt c M_actual)\<rparr>
      else if c_num c M_command = R_FLAG_DATA then s\<lparr>cs_flag := c_num c M_child_flag\<rparr>
      else s)"

definition final_report :: "int \<Rightarrow> 'f command \<Rightarrow> bool" where
  "final_report gen c \<longleftrightarrow> c_num c M_mygen = gen \<and> c_num c M_command = R_STAT_DATA"

text \<open>The stop flag reaches all clients when the writes succeed.\<close>

definition stop_command :: "'f float_io \<Rightarrow> 'f settings \<Rightarrow> nat \<Rightarrow> 'f command" where
  "stop_command fio G i = with_number C_command R_STOP_FLAG (with_number C_stop_flag 1 (short_command fio G (int i)))"

definition can_stop :: "'os net \<Rightarrow> 'f float_io \<Rightarrow> 'f settings \<Rightarrow> bool" where
  "can_stop K fio G \<longleftrightarrow> (\<forall>s b os. 0 \<le> nr_ret (fst (K (Write s b) os))) \<and>
     (\<forall>i < nat (s_num G ''num_child''). msg_fits fio client_sizes (stop_command fio G i) client_items)"

lemma tell_ok:
  assumes "\<forall>s b os. 0 \<le> nr_ret (fst (K (Write s b) os))" "msg_fits fio client_sizes cc client_items"
  shows "\<exists>os'. tell K fio s cc m = Ret (m\<lparr>ma_os := os'\<rparr>)"
proof -
  from encode_client_fits [OF assms(2)] obtain b where b: "encode_client fio cc = Ret b" by blast
  obtain r os' where "K (Write s b) (ma_os m) = (r, os')" by force
  moreover from this assms(1) have "0 \<le> nr_ret r" by (metis fst_conv)
  ultimately show ?thesis
    using b by (auto simp: tell_def master_send_def)
qed

lemma for_children_os:
  assumes "\<And>i m. i \<in> set is \<Longrightarrow> ma_settings m = G \<Longrightarrow> \<exists>os'. f i m = Ret (m\<lparr>ma_os := os'\<rparr>)"
    and "ma_settings m = G"
  shows "\<exists>os'. for_children f is m = Ret (m\<lparr>ma_os := os'\<rparr>)"
  using assms
proof (induction "is" arbitrary: m)
  case Nil
  show ?case by (intro exI [of _ "ma_os m"]) simp
next
  case (Cons i "is")
  from Cons.prems(1) [of i m] Cons.prems(2) obtain os' where "f i m = Ret (m\<lparr>ma_os := os'\<rparr>)"
    by auto
  moreover have "\<exists>os''. for_children f is (m\<lparr>ma_os := os'\<rparr>) = Ret (m\<lparr>ma_os := os'\<rparr>\<lparr>ma_os := os''\<rparr>)"
    using Cons.prems by (intro Cons.IH) simp_all
  ultimately show ?case by auto
qed

lemma distribute_stop_ok:
  assumes "can_stop K fio (ma_settings m)"
  shows "\<exists>os'. distribute_stop K fio m = Ret (m\<lparr>ma_os := os', ma_sent_stop := True\<rparr>)"
proof (cases "ma_sent_stop m")
  case True
  then show ?thesis by (auto simp: distribute_stop_def intro!: exI [of _ "ma_os m"])
next
  case False
  have "\<exists>os'. for_children (\<lambda>i m. tell K fio (ma_send_async_sockets m i)
       (stop_command fio (ma_settings m) i) m) (children m) m = Ret (m\<lparr>ma_os := os'\<rparr>)"
    using assms
    by (intro for_children_os [where G = "ma_settings m"] tell_ok) (auto simp: can_stop_def children_def)
  with False show ?thesis
    by (auto simp: distribute_stop_def stop_command_def)
qed

text \<open>One report: the join count and the statistics change as \<open>noted\<close> says.\<close>

lemma dispatch_report_noted:
  fixes m :: "('f, 'os) master"
  assumes stop: "can_stop K fio (ma_settings m)"
    and client: "0 \<le> c_num c M_client_number" "c_num c M_client_number < MAXSTREAMS"
    and scan: "\<forall>x. fl_scan fio (fl_print fio x) \<noteq> None"
  shows "\<exists>m2. dispatch_report K fio (read_back fio c report_items mc) m = Ret m2 \<and>
     ma_settings m2 = ma_settings m \<and>
     ma_join_count m2 = ma_join_count m - (if final_report (s_num (ma_settings m) ''mygen'') c then 1 else 0) \<and>
     (\<forall>i. ma_shmaddr m2 i = noted fio (s_num (ma_settings m) ''mygen'') i c (ma_shmaddr m i))"
proof -
  let ?c = "read_back fio c report_items mc"
  have num: "c_num ?c k = c_num c k" if "(D, k) \<in> set report_items \<or> (LLD, k) \<in> set report_items" for k
    using that by (simp add: read_back_def)
  have flt: "c_flt ?c k = wired fio (c_flt c k)" if "(F, k) \<in> set report_items" for k
    using that scan [rule_format, of "c_flt c k"] by (auto simp: read_back_def wired_def)
  have c: "c_num ?c M_mygen = c_num c M_mygen" "c_num ?c M_client_number = c_num c M_client_number"
    "c_num ?c M_command = c_num c M_command" "c_num ?c M_child_flag = c_num c M_child_flag"
    "c_flt ?c M_actual = wired fio (c_flt c M_actual)" "c_flt ?c M_throughput = wired fio (c_flt c M_throughput)"
    "c_flt ?c M_cputime = wired fio (c_flt c M_cputime)" "c_flt ?c M_walltime = wired fio (c_flt c M_walltime)"
    by (intro num flt; simp add: report_items_def)+
  obtain os' where "distribute_stop K fio (m\<lparr>ma_stop_flag := 1\<rparr>) =
      Ret (m\<lparr>ma_stop_flag := 1\<rparr>\<lparr>ma_os := os', ma_sent_stop := True\<rparr>)"
    using distribute_stop_ok [of K fio "m\<lparr>ma_stop_flag := 1\<rparr>"] stop by auto
  with c client show ?thesis
    by (auto simp: dispatch_report_def noted_def final_report_def set_stats_def Let_def
        R_STAT_DATA_def R_FLAG_DATA_def R_STOP_FLAG_def)
qed


lemma scan_report:
  assumes "message_ok fio c" "encode_master fio c = Ret bytes"
  shows "scan_items fio master_sizes report_items (bytes @ rest) mc = Ret (read_back fio c report_items mc)"
  using encode_master_ok [OF assms(1)] assms(2) master_items_facts(3) by auto

lemma report_loop_collects:
  fixes m :: "('f, 'os) master"
  assumes "reports_come K fio m cs" "cs \<noteq> []" "final_report (s_num (ma_settings m) ''mygen'') (last cs)"
    and "ma_join_count m = int (length (filter (final_report (s_num (ma_settings m) ''mygen'')) cs))"
    and "can_stop K fio (ma_settings m)" "\<forall>x. fl_scan fio (fl_print fio x) \<noteq> None"
    and "\<forall>c \<in> set cs. message_ok fio c \<and> 0 \<le> c_num c M_client_number \<and> c_num c M_client_number < MAXSTREAMS"
  shows "\<exists>m'. report_loop K fio mc m = Some (Ret m') \<and> ma_join_count m' = 0 \<and>
     (\<forall>i. ma_shmaddr m' i = fold (noted fio (s_num (ma_settings m) ''mygen'') i) cs (ma_shmaddr m i))"
  using assms
proof (induction cs arbitrary: m mc)
  case (Cons c cs)
  define gen where "gen = s_num (ma_settings m) ''mygen''"
  from Cons.prems(1) obtain bytes os' where
    enc: "encode_master fio c = Ret bytes"
    and hear: "hear K m = Ret (m\<lparr>ma_rcv_buf := bytes @ drop 764 (ma_rcv_buf m), ma_os := os'\<rparr>)"
    and come: "\<And>m2. dispatch_report K fio (read_back fio c report_items mc)
             (m\<lparr>ma_rcv_buf := bytes @ drop 764 (ma_rcv_buf m), ma_os := os'\<rparr>) = Ret m2 \<Longrightarrow>
           reports_come K fio m2 cs"
    by auto
  define m1 where "m1 = m\<lparr>ma_rcv_buf := bytes @ drop 764 (ma_rcv_buf m), ma_os := os'\<rparr>"
  have m1: "ma_settings m1 = ma_settings m" "ma_join_count m1 = ma_join_count m"
    "ma_shmaddr m1 = ma_shmaddr m" "ma_rcv_buf m1 = bytes @ drop 764 (ma_rcv_buf m)"
    by (simp_all add: m1_def)
  obtain m2 where m2: "dispatch_report K fio (read_back fio c report_items mc) m1 = Ret m2"
      "ma_settings m2 = ma_settings m" "ma_join_count m2 = ma_join_count m - (if final_report gen c then 1 else 0)"
      "\<forall>i. ma_shmaddr m2 i = noted fio gen i c (ma_shmaddr m i)"
    using dispatch_report_noted [of K fio m1 c mc] Cons.prems(5-7) m1 by (auto simp: gen_def)
  have "ma_join_count m \<noteq> 0"
    using Cons.prems(3,4) by (cases cs rule: rev_cases) (auto simp: gen_def split: if_splits)
  then have step: "report_loop K fio mc m = report_loop K fio (read_back fio c report_items mc) m2"
    using hear m2(1) m1(4) scan_report [OF _ enc] Cons.prems(7)
    by (subst report_loop.simps) (simp flip: m1_def)
  show ?case
  proof (cases "cs = []")
    case True
    with Cons.prems(3,4) m2(3) have "ma_join_count m2 = 0" by (simp add: gen_def)
    with True step m2(4) show ?thesis
      by (simp add: gen_def report_loop.simps)
  next
    case False
    have "\<exists>m'. report_loop K fio (read_back fio c report_items mc) m2 = Some (Ret m') \<and> ma_join_count m' = 0 \<and>
        (\<forall>i. ma_shmaddr m' i = fold (noted fio (s_num (ma_settings m2) ''mygen'') i) cs (ma_shmaddr m2 i))"
      using False come m2 Cons.prems m1_def by (intro Cons.IH) (auto simp: gen_def)
    with step m2 show ?thesis by (simp add: gen_def)
  qed
qed simp

section \<open>A report that is cut short\<close>

text \<open>
  Behind the two names, at byte 200, the numbers begin. If less than that arrives, all the numbers
  are those of the message before.
\<close>

lemma scan_numbers_suffix:
  assumes "\<forall>it \<in> set its. 200 \<le> offset sizes (snd it)" "drop 200 buf = drop 200 buf'"
  shows "scan_items fio sizes its buf c = scan_items fio sizes its buf' c"
  using assms(1)
proof (induction its arbitrary: c)
  case (Cons it its)
  have "drop (offset sizes (snd it)) buf = drop (offset sizes (snd it)) buf'"
    using Cons.prems assms(2) by (metis drop_drop le_add_diff_inverse2 list.set_intros(1))
  with Cons have "c_string (offset sizes (snd it)) buf = c_string (offset sizes (snd it)) buf'"
    by (simp add: c_string_def)
  moreover have "scan_items fio sizes its buf = scan_items fio sizes its buf'"
    using Cons by (auto simp: fun_eq_iff)
  ultimately show ?case by simp
qed simp

lemma report_items_offset: "\<forall>it \<in> set report_items. 200 \<le> offset master_sizes (snd it)"
  by (simp add: report_items_def offset_def master_sizes_def)

text \<open>
  One connection to the listener: \<open>accept\<close> returns \<open>ns\<close>, its one \<open>read\<close> the bytes \<open>d\<close>, and it is closed.
\<close>

definition connection :: "'os net \<Rightarrow> int \<Rightarrow> 'os \<Rightarrow> string \<Rightarrow> 'os \<Rightarrow> bool" where
  "connection K s os d os' \<longleftrightarrow>
     (\<exists>ns os1 r os2. accept_loop K s os = Some (Ret (ns, os1)) \<and> K (Read ns 764) os1 = (r, os2) \<and>
        0 \<le> nr_ret r \<and> nr_data r = d \<and> os' = snd (K (Close ns) os2))"

lemma hear_connection:
  assumes "connection K (ma_listen_socket m) (ma_os m) d os'" "length d \<le> length (ma_rcv_buf m)"
  shows "hear K m = Ret (m\<lparr>ma_rcv_buf := buf_put 0 d (ma_rcv_buf m), ma_os := os'\<rparr>)"
  using assms by (auto simp: connection_def hear_def master_listen_def loops_def store_def)

lemma scan_short:
  assumes "length d \<le> 200" "length d \<le> length buf"
  shows "scan_items fio master_sizes report_items (buf_put 0 d buf) mc =
     scan_items fio master_sizes report_items buf mc"
  using assms by (intro scan_numbers_suffix [OF report_items_offset]) (simp add: buf_put_def)

lemma dispatch_final:
  fixes m :: "('f, 'os) master"
  assumes "final_report (s_num (ma_settings m) ''mygen'') c"
    and "0 \<le> c_num c M_client_number" "c_num c M_client_number < MAXSTREAMS"
    and "\<forall>x. fl_scan fio (fl_print fio x) \<noteq> None"
  shows "\<exists>m2. dispatch_report K fio (read_back fio c report_items mc) m = Ret m2 \<and>
     ma_settings m2 = ma_settings m \<and> ma_os m2 = ma_os m \<and> ma_rcv_buf m2 = ma_rcv_buf m \<and>
     ma_listen_socket m2 = ma_listen_socket m \<and> ma_join_count m2 = ma_join_count m - 1 \<and>
     (\<forall>i. ma_shmaddr m2 i = noted fio (s_num (ma_settings m) ''mygen'') i c (ma_shmaddr m i))"
proof -
  let ?c = "read_back fio c report_items mc"
  have flt: "c_flt ?c k = wired fio (c_flt c k)" if "(F, k) \<in> set report_items" for k
    using that assms(4) [rule_format, of "c_flt c k"] by (auto simp: read_back_def wired_def)
  have c: "c_num ?c M_mygen = c_num c M_mygen" "c_num ?c M_client_number = c_num c M_client_number"
    "c_num ?c M_command = c_num c M_command" "c_num ?c M_child_flag = c_num c M_child_flag"
    by (simp_all add: read_back_def report_items_def)
  have f: "c_flt ?c M_actual = wired fio (c_flt c M_actual)" "c_flt ?c M_throughput = wired fio (c_flt c M_throughput)"
    "c_flt ?c M_cputime = wired fio (c_flt c M_cputime)" "c_flt ?c M_walltime = wired fio (c_flt c M_walltime)"
    by (intro flt; simp add: report_items_def)+
  show ?thesis
    using assms(1-3) c f
    by (auto simp: dispatch_report_def noted_def final_report_def set_stats_def Let_def R_STAT_DATA_def)
qed

lemma noted_twice: "noted fio gen i c (noted fio gen i c s) = noted fio gen i c s"
  by (simp add: noted_def)

text \<open>One pass of the loop over a final report, whole or repeated.\<close>

lemma final_pass:
  fixes m :: "('f, 'os) master"
  assumes "connection K (ma_listen_socket m) (ma_os m) d os'" "length d \<le> length (ma_rcv_buf m)"
    and "\<And>mc. scan_items fio master_sizes report_items (buf_put 0 d (ma_rcv_buf m)) mc =
       Ret (read_back fio c report_items mc)"
    and "final_report (s_num (ma_settings m) ''mygen'') c" "ma_join_count m \<noteq> 0"
    and "0 \<le> c_num c M_client_number" "c_num c M_client_number < MAXSTREAMS"
    and "\<forall>x. fl_scan fio (fl_print fio x) \<noteq> None"
  shows "\<exists>mc' m2. report_loop K fio mc m = report_loop K fio mc' m2 \<and>
     ma_settings m2 = ma_settings m \<and> ma_os m2 = os' \<and> ma_rcv_buf m2 = buf_put 0 d (ma_rcv_buf m) \<and>
     ma_listen_socket m2 = ma_listen_socket m \<and> ma_join_count m2 = ma_join_count m - 1 \<and>
     (\<forall>i. ma_shmaddr m2 i = noted fio (s_num (ma_settings m) ''mygen'') i c (ma_shmaddr m i))"
proof -
  define m1 where "m1 = m\<lparr>ma_rcv_buf := buf_put 0 d (ma_rcv_buf m), ma_os := os'\<rparr>"
  have m1: "ma_settings m1 = ma_settings m" "ma_join_count m1 = ma_join_count m" "ma_os m1 = os'"
    "ma_shmaddr m1 = ma_shmaddr m" "ma_rcv_buf m1 = buf_put 0 d (ma_rcv_buf m)"
    "ma_listen_socket m1 = ma_listen_socket m"
    by (simp_all add: m1_def)
  have hear: "hear K m = Ret m1"
    using hear_connection [OF assms(1,2)] by (simp add: m1_def)
  obtain m2 where m2: "dispatch_report K fio (read_back fio c report_items mc) m1 = Ret m2"
    "ma_settings m2 = ma_settings m" "ma_os m2 = os'" "ma_rcv_buf m2 = buf_put 0 d (ma_rcv_buf m)"
    "ma_listen_socket m2 = ma_listen_socket m" "ma_join_count m2 = ma_join_count m - 1"
    "\<forall>i. ma_shmaddr m2 i = noted fio (s_num (ma_settings m) ''mygen'') i c (ma_shmaddr m i)"
    using dispatch_final [of m1 c fio K mc] assms(4,6-8) m1 by auto
  have "report_loop K fio mc m = report_loop K fio (read_back fio c report_items mc) m2"
    using hear m2(1) m1(5) assms(3,5) by (subst report_loop.simps) simp
  with m2 show ?thesis by blast
qed

lemma short_report_counts:
  fixes m :: "('f, 'os) master"
  assumes "message_ok fio c" "encode_master fio c = Ret bytes"
    and "connection K (ma_listen_socket m) (ma_os m) bytes os1"
    and "connection K (ma_listen_socket m) os1 d os2" "length d \<le> 200"
    and "final_report (s_num (ma_settings m) ''mygen'') c" "length (ma_rcv_buf m) = 4096"
    and "0 \<le> c_num c M_client_number" "c_num c M_client_number < MAXSTREAMS"
    and "\<forall>x. fl_scan fio (fl_print fio x) \<noteq> None"
  shows "\<exists>m'. start_master_listen_loop K fio mc 2 m = Ret m' \<and> ma_join_count m' = 0 \<and> ma_os m' = os2 \<and>
     (\<forall>i. ma_shmaddr m' i = noted fio (s_num (ma_settings m) ''mygen'') i c (ma_shmaddr m i))"
proof -
  let ?m = "m\<lparr>ma_join_count := 2\<rparr>"
  have len: "length bytes = 764" using encode_master_ok [OF assms(1)] assms(2) by auto
  have whole: "scan_items fio master_sizes report_items (buf_put 0 bytes (ma_rcv_buf ?m)) mc =
      Ret (read_back fio c report_items mc)" for mc
    using scan_report [OF assms(1,2)] by (simp add: buf_put_def)
  obtain mc1 m1 where m1: "report_loop K fio mc ?m = report_loop K fio mc1 m1"
    "ma_settings m1 = ma_settings m" "ma_os m1 = os1" "ma_rcv_buf m1 = buf_put 0 bytes (ma_rcv_buf m)"
    "ma_listen_socket m1 = ma_listen_socket m" "ma_join_count m1 = 1"
    "\<forall>i. ma_shmaddr m1 i = noted fio (s_num (ma_settings m) ''mygen'') i c (ma_shmaddr m i)"
    using final_pass [of K ?m bytes os1 fio c mc] whole assms len by auto
  have again: "scan_items fio master_sizes report_items (buf_put 0 d (ma_rcv_buf m1)) mc =
      Ret (read_back fio c report_items mc)" for mc
    using scan_short [OF assms(5), of "ma_rcv_buf m1" fio mc] whole [of mc] m1(4) assms(5,7) len
    by (simp add: buf_put_def)
  obtain mc2 m2 where m2: "report_loop K fio mc1 m1 = report_loop K fio mc2 m2"
    "ma_os m2 = os2" "ma_join_count m2 = 0"
    "\<forall>i. ma_shmaddr m2 i = noted fio (s_num (ma_settings m) ''mygen'') i c (ma_shmaddr m1 i)"
    using final_pass [of K m1 d os2 fio c mc1] again assms len m1 by (auto simp: buf_put_def)
  have "report_loop K fio mc2 m2 = Some (Ret m2)"
    using m2(3) by (subst report_loop.simps) simp
  with m1 m2 show ?thesis
    by (simp add: start_master_listen_loop_def loops_def noted_twice)
qed

end
