(* ===== verification/Iozone_Properties.thy ===== *)
theory Iozone_Properties
  imports Iozone_Exchange
begin

text \<open>
  The properties of the distributed mode of \<open>iozone.c\<close>. The demonstration network holds a queue of
  pieces: each \<open>accept\<close> succeeds while there is one, each \<open>read\<close> delivers the next one, and reads
  end of file afterwards. A \<open>float\<close> of the demonstration is an integer printed in decimal.
\<close>

section \<open>A network and a pair of processes\<close>

definition fifo :: "string list net" where
  "fifo c os = (case c of
     Accept s \<Rightarrow> (\<lparr>nr_ret = (if os = [] then - 1 else 5), nr_errno = 0, nr_data = []\<rparr>, os)
   | Read s n \<Rightarrow> (case os of [] \<Rightarrow> (\<lparr>nr_ret = 0, nr_errno = 0, nr_data = []\<rparr>, [])
       | d # ds \<Rightarrow> (\<lparr>nr_ret = int (length d), nr_errno = 0, nr_data = d\<rparr>, ds))
   | Write s b \<Rightarrow> (\<lparr>nr_ret = int (length b), nr_errno = 0, nr_data = []\<rparr>, os)
   | _ \<Rightarrow> (\<lparr>nr_ret = 0, nr_errno = 0, nr_data = []\<rparr>, os))"

definition int_io :: "int float_io" where
  "int_io = \<lparr>fl_zero = 0, fl_print = show_int, fl_scan = scan_number\<rparr>"

definition demo_settings :: "int \<Rightarrow> int settings" where
  "demo_settings rate = \<lparr>s_num = (\<lambda>_. 0)(''op_rate'' := rate, ''op_rate_flag'' := 1),
     s_txt = (\<lambda>_. [])(''controlling_host_name'' := ''master''), s_flt = 3\<rparr>"

definition demo_ident :: child_ident where
  "demo_ident = \<lparr>ci_child_name = ''node1'', ci_workdir = ''/tmp'', ci_execute_path = ''/bin/iozone'',
     ci_file_name = [], ci_state = 0, ci_child_number = 0, ci_child_port = 0, ci_child_async_port = 0,
     ci_master_socket_num = 0, ci_master_async_socket_num = 0\<rparr>"

definition demo_command :: "int \<Rightarrow> int command" where
  "demo_command rate = \<lparr>c_txt = (\<lambda>_. [])(C_host_name := ''master'', C_client_name := ''node1'', C_working_dir := ''/tmp''),
     c_num = (sent_number (demo_settings rate))(C_command := R_JOIN_ACK, C_client_number := 0,
        C_testnum := 1, C_numrecs64 := 128, C_reclen := 4096),
     c_flt = (\<lambda>_. 0)(C_compute_time := 3)\<rparr>"

lemma demo_pick: "pick_command int_io (demo_settings r) demo_ident 1 1 128 4096 = Ret (demo_command r)"
  by (simp add: pick_command_def demo_settings_def demo_ident_def c_strcpy_def int_io_def demo_command_def)
    (simp add: fun_eq_iff)

lemma sent_rate:
  "list_all (\<lambda>(k, t, v). (v = ''op_rate'') = (k = C_op_rate) \<and> (v = ''op_rate_flag'') = (k = C_op_rate_flag))
     sent_settings"
  "map_of sent_settings C_op_rate = Some (CInt, ''op_rate'')"
  "map_of sent_settings C_op_rate_flag = Some (CInt, ''op_rate_flag'')"
  by (simp_all add: sent_settings_def)

lemma cast_0 [simp]: "cast t 0 = 0"
  by (cases t) simp_all

lemma demo_number:
  assumes "0 \<le> r" "r < 2 ^ 31"
  shows "c_num (demo_command r) k =
     (if k = C_command then 4 else if k = C_testnum then 1 else if k = C_numrecs64 then 128
      else if k = C_reclen then 4096 else if k = C_op_rate then r else if k = C_op_rate_flag then 1 else 0)"
proof -
  have "sent_number (demo_settings r) k = (if k = C_op_rate then r else if k = C_op_rate_flag then 1 else 0)"
  proof (cases "map_of sent_settings k")
    case None
    with sent_rate(2,3) have "k \<noteq> C_op_rate" "k \<noteq> C_op_rate_flag" by auto
    with None show ?thesis by (simp add: sent_number_def)
  next
    case (Some e)
    then obtain t v where e: "map_of sent_settings k = Some (t, v)" by (cases e) auto
    then have v: "(v = ''op_rate'') = (k = C_op_rate)" "(v = ''op_rate_flag'') = (k = C_op_rate_flag)"
      using sent_rate(1) map_of_SomeD [OF e] by (auto simp: list_all_iff)
    show ?thesis
    proof (cases "k = C_op_rate \<or> k = C_op_rate_flag")
      case True
      with sent_rate(2,3) assms show ?thesis
        by (auto simp: sent_number_def demo_settings_def signed_take_bit_int_eq_self_iff)
    next
      case False
      with e v show ?thesis by (simp add: sent_number_def demo_settings_def)
    qed
  qed
  then show ?thesis by (auto simp: demo_command_def R_JOIN_ACK_def)
qed

lemma demo_lengths:
  "length (show_int 0) = 1" "length (show_int 1) = 1" "length (show_int 2) = 1" "length (show_int 3) = 1" "length (show_int 4) = 1"
  "length (show_int 100) = 3" "length (show_int 128) = 3" "length (show_int 4096) = 4"
  by (simp_all add: show_int_def show_nat.simps)

lemma demo_text: "c_txt (demo_command r) = (\<lambda>_. [])(C_host_name := ''master'', C_client_name := ''node1'', C_working_dir := ''/tmp'')"
  "c_flt (demo_command r) k = (if k = C_compute_time then 3 else 0)"
  by (simp_all add: demo_command_def)

lemma demo_fits: "msg_fits int_io client_sizes (demo_command 100) client_items"
    "msg_fits int_io client_sizes (demo_command 1000) (filter (\<lambda>it. snd it \<noteq> C_op_rate) client_items)"
  by (simp_all add: msg_fits_def client_items_def demo_number demo_text demo_lengths client_sizes_def int_io_def)

lemma demo_readable:
  assumes "0 \<le> r" "r < 2 ^ 31"
  shows "\<forall>it \<in> set client_items. readable (demo_command r) it"
  using assms by (simp add: client_items_def demo_number demo_text is_space_def)

lemma demo_typed: "settings_typed (demo_settings 100)"
proof -
  have "cast t x = x" if "0 \<le> x" "x \<le> 100" for t x
    using that by (cases t) (simp_all add: signed_take_bit_int_eq_self_iff take_bit_int_eq_self_iff)
  moreover have "0 \<le> s_num (demo_settings 100) v \<and> s_num (demo_settings 100) v \<le> 100" for v
    by (simp add: demo_settings_def)
  ultimately have "cast t (s_num (demo_settings 100) v) = s_num (demo_settings 100) v" for t v
    by blast
  then show ?thesis by (auto simp: settings_typed_def)
qed

section \<open>Settings\<close>

text \<open>
  C24: A client of the distributed mode runs with the settings of its master. What \<open>pick_client\<close> sends
  as text arrives however the stream is cut into pieces, and after \<open>become_client\<close> has read it, every
  integer variable that the two have in common has the master's value, and so have the names of the
  time server, its service and the two telemetry files. The client's number, test, number and
  size of records, and working directory are those it was given, and the compute time is what the
  client's \<open>sscanf\<close> makes of the text that the master's \<open>sprintf\<close> made of its own. This holds as long
  as every value fits into its array and no word has white space in it. \<open>sverify\<close> is taken
  over only without \<open>diag_v\<close>, and the variable \<open>odsync\<close>, which is sent, never.
\<close>

theorem client_runs_with_master_settings:
  assumes "pick_command fio G ci x testnum numrecs64 reclen = Ret cc" "0 < x" "x \<le> 1024"
    and "msg_fits fio client_sizes cc client_items" "\<forall>it \<in> set client_items. readable cc it" "settings_typed G"
    and "encode_client fio cc = Ret (concat ds)" "\<forall>d \<in> set ds. d \<noteq> []" "delivers K s 2324 os ds os'"
  shows "\<exists>buf H'. child_listen K s 2324 os = Ret (buf, os') \<and> receive_state fio buf H = Ret H' \<and>
     (\<forall>v \<in> set shared_settings. s_num H' v = s_num G v) \<and>
     s_num H' ''chid'' = x - 1 \<and> s_num H' ''testnum'' = testnum \<and>
     s_num H' ''numrecs64'' = numrecs64 \<and> s_num H' ''reclen'' = reclen \<and>
     s_num H' ''sverify'' = (if s_num G ''diag_v'' \<noteq> 0 then 0 else s_num G ''sverify'') \<and>
     s_num H' ''odsync'' = s_num H ''odsync'' \<and>
     s_txt H' ''workdir'' = ci_workdir ci \<and>
     s_txt H' ''pit_hostname'' = s_txt G ''pit_hostname'' \<and>
     s_txt H' ''pit_service'' = s_txt G ''pit_service'' \<and>
     s_txt H' ''write_traj_filename'' = s_txt G ''write_traj_filename'' \<and>
     s_txt H' ''read_traj_filename'' = s_txt G ''read_traj_filename'' \<and>
     s_flt H' = (case fl_scan fio (fl_print fio (s_flt G)) of Some t \<Rightarrow> t | None \<Rightarrow> fl_zero fio) \<and>
     (s_num G ''mfflag'' \<noteq> 0 \<longrightarrow> s_txt H' ''tfile'' = ci_file_name ci)"
proof -
  from encode_client_fits [OF assms(4)] assms(7) have len: "length (concat ds) = 2324"
    and buf: "\<forall>it \<in> set client_items. c_string (offset client_sizes (snd it)) (concat ds @ rest) = item_text fio cc it"
    for rest by auto
  from child_listen_delivers [OF assms(9,8) len]
  have "child_listen K s 2324 os = Ret (concat ds @ replicate (4096 - 2324) nul, os')"
    by simp
  with settings_arrive [OF assms(1,4,5,6) buf assms(2,3), of _ H] show ?thesis
    by blast
qed

lemma client_runs_with_master_settings_witness:
  "\<exists>ds buf H'. length ds = 2 \<and> child_listen fifo 4 2324 ds = Ret (buf, []) \<and>
     receive_state int_io buf (demo_settings 5) = Ret H' \<and>
     s_num H' ''op_rate'' = 100 \<and> s_txt H' ''workdir'' = ''/tmp'' \<and> s_flt H' = 3"
proof -
  obtain m where m: "encode_client int_io (demo_command 100) = Ret m" "length m = 2324"
    using encode_client_fits [OF demo_fits(1)] by blast
  define ds where "ds = [take 1000 m, drop 1000 m]"
  have "ci_workdir demo_ident = ''/tmp''"
    by (simp add: demo_ident_def)
  moreover have "delivers fifo 4 2324 ds ds []"
    by (simp add: ds_def fifo_def)
  moreover have "encode_client int_io (demo_command 100) = Ret (concat ds)" "\<forall>d \<in> set ds. d \<noteq> []"
    using m by (simp_all add: ds_def) (metis length_take list.size(3) min_less_iff_conj zero_less_numeral less_numeral_extra(3))
  ultimately obtain buf H' where "child_listen fifo 4 2324 ds = Ret (buf, [])"
      "receive_state int_io buf (demo_settings 5) = Ret H'" "s_txt H' ''workdir'' = ''/tmp''"
      "s_flt H' = (case fl_scan int_io (fl_print int_io (s_flt (demo_settings 100))) of Some t \<Rightarrow> t | None \<Rightarrow> fl_zero int_io)"
      "\<forall>v \<in> set shared_settings. s_num H' v = s_num (demo_settings 100) v"
    using client_runs_with_master_settings [OF demo_pick _ _ demo_fits(1) demo_readable demo_typed, of ds fifo 4 ds "[]" "demo_settings 5"]
    by auto
  moreover have "''op_rate'' \<in> set shared_settings" "s_num (demo_settings 100) ''op_rate'' = 100"
    by (simp_all add: shared_settings_def imported_settings_def demo_settings_def)
  moreover have "(case fl_scan int_io (fl_print int_io (s_flt (demo_settings 100))) of Some t \<Rightarrow> t | None \<Rightarrow> fl_zero int_io) = 3"
    by (simp add: int_io_def demo_settings_def)
  moreover have "length ds = 2" by (simp add: ds_def)
  ultimately show ?thesis by metis
qed

text \<open>
  C32: A rate limit of four digits reaches the clients ten times as large and one more: from 1000 to
  9999 operations per second, \<open>sprintf\<close> fills the four bytes of \<open>c_op_rate\<close>, its terminator goes
  where the digit of \<open>c_op_rate_flag\<close> is written next, and the client reads the two as one number.
\<close>

theorem op_rate_of_four_digits_gains_one:
  assumes "msg_fits fio client_sizes cc (filter (\<lambda>it. snd it \<noteq> C_op_rate) client_items)"
    and "1000 \<le> c_num cc C_op_rate" "c_num cc C_op_rate \<le> 9999" "c_num cc C_op_rate_flag = 1"
    and "\<forall>it \<in> set client_items. readable cc it"
    and "c_num cc C_command = R_JOIN_ACK"
    and "0 \<le> c_num cc C_client_number" "c_num cc C_client_number < 1024"
  shows "\<exists>m. encode_client fio cc = Ret m \<and> (\<forall>rest. \<exists>H'. receive_state fio (m @ rest) H = Ret H' \<and>
     s_num H' ''op_rate'' = 10 * c_num cc C_op_rate + 1)"
  using assms by (intro op_rate_gains_digit) (simp_all add: R_JOIN_ACK_def R_TERMINATE_def R_DEATH_def)

lemma op_rate_of_four_digits_gains_one_witness:
  "\<exists>m H'. encode_client int_io (demo_command 1000) = Ret m \<and>
     receive_state int_io m (demo_settings 5) = Ret H' \<and> s_num H' ''op_rate'' = 10001"
proof -
  have "c_num (demo_command 1000) C_command = R_JOIN_ACK"
    by (simp add: demo_number R_JOIN_ACK_def)
  with op_rate_of_four_digits_gains_one [OF demo_fits(2) _ _ _ demo_readable, of "demo_settings 5"]
  show ?thesis by (auto simp: demo_number dest!: spec [of _ "[]"])
qed

section \<open>Streams\<close>

text \<open>
  C30: A client that waits for a message whose stream ends early never returns: \<open>child_listen\<close> takes
  the end of file for a read of no bytes and reads again for ever. \<open>child_listen_async\<close>, which looks
  for it, exits.
\<close>

theorem child_listen_hangs_at_end_of_file:
  assumes "delivers K s n os ds os'" "length (concat ds) < n" "n \<le> 4096" "\<forall>d \<in> set ds. d \<noteq> []"
    and "ended K s n E" "os' \<in> E" "length buf = 4096"
  shows "child_listen K s n os = Hang \<and> child_listen_async K s n buf os = Exit 0"
  using child_listen_cut_short [OF assms(1-3,5,6)] listen_async_cut_short [OF assms(1,2,4)] assms
  by simp

lemma child_listen_hangs_at_end_of_file_witness:
  "child_listen fifo 4 2324 [''abc''] = Hang \<and> child_listen_async fifo 4 2324 (replicate 4096 nul) [''abc''] = Exit 0"
proof (rule child_listen_hangs_at_end_of_file)
  show "delivers fifo 4 2324 [''abc''] [''abc''] []" "ended fifo 4 2324 {[]}"
    by (simp_all add: fifo_def ended_def)
qed simp_all

section \<open>Reports\<close>

definition demo_master :: "string list \<Rightarrow> (int, string list) master" where
  "demo_master os = \<lparr>ma_os = os, ma_rcv_buf = replicate 4096 nul, ma_idents = (\<lambda>_. demo_ident),
     ma_current_client_number = 2, ma_join_count = 0, ma_sent_stop = False, ma_stop_flag = 0,
     ma_shmaddr = (\<lambda>_. \<lparr>cs_flag = 0, cs_walltime = 0, cs_cputime = 0, cs_throughput = 0, cs_actual = 0\<rparr>),
     ma_send_sockets = (\<lambda>_. 0), ma_send_async_sockets = (\<lambda>_. 0), ma_listen_socket = 3, ma_listen_port = 20000,
     ma_settings = demo_settings 100\<rparr>"

definition demo_client :: "(int, string list) client" where
  "demo_client = \<lparr>cl_os = [], cl_settings = demo_settings 100, cl_client_error = 0, cl_sock = 4,
     cl_async_sock = 5, cl_async_buf = replicate 4096 nul, cl_stop_flag = 0, cl_sent_stop = False\<rparr>"

definition demo_report :: "int \<Rightarrow> int \<Rightarrow> int command" where
  "demo_report chid throughput = stats_message int_io 1 chid throughput 4 1 3 0 3 demo_client"

lemma fifo_hear:
  assumes "ma_os m = b # bs" "length b = 764" "length (ma_rcv_buf m) = 4096"
  shows "hear fifo m = Ret (m\<lparr>ma_rcv_buf := b @ drop 764 (ma_rcv_buf m), ma_os := bs\<rparr>)"
proof -
  have "accept_loop fifo (ma_listen_socket m) (b # bs) = Some (Ret (5, b # bs))"
    by (subst accept_loop.simps) (simp add: fifo_def)
  with assms show ?thesis
    by (simp add: hear_def master_listen_def loops_def) (simp add: fifo_def store_def buf_put_def)
qed

lemma fifo_reports_come:
  assumes "list_all2 (\<lambda>c b. message_ok fio c \<and> c_num c M_command \<noteq> R_STOP_FLAG \<and> encode_master fio c = Ret b) cs bs"
    and "ma_os m = bs" "length (ma_rcv_buf m) = 4096"
  shows "reports_come fifo fio m cs"
  using assms
proof (induction cs bs arbitrary: m rule: list_all2_induct)
  case (Cons c cs b bs)
  then have b: "length b = 764" using encode_master_ok [of fio c] by auto
  have "ma_os m2 = ma_os m1 \<and> length (ma_rcv_buf m2) = length (ma_rcv_buf m1)"
    if "dispatch_report fifo fio (read_back fio c report_items mc) m1 = Ret m2" for mc m1 m2
  proof -
    have "c_num (read_back fio c report_items mc) M_command = c_num c M_command"
      by (simp add: read_back_def report_items_def)
    with that Cons.hyps show ?thesis
      by (auto simp: dispatch_report_def set_stats_def Let_def split: if_splits)
  qed
  with Cons b fifo_hear [of m b bs] show ?case by (fastforce intro!: exI [of _ bs])
qed simp


text \<open>
  C25: The master's loop over the reports ends. When every client's final report of this generation
  arrives, in whatever order and mixed with whatever reports of state, requests to stop and messages
  of other runs, the loop returns with the last of them, and the statistics of each client are what
  its own reports say, one after the other; messages of other generations change nothing.
\<close>

theorem reports_are_collected:
  fixes m :: "('f, 'os) master"
  defines "gen \<equiv> s_num (ma_settings m) ''mygen''"
  assumes "reports_come K fio (m\<lparr>ma_join_count := num\<rparr>) cs" "cs \<noteq> []" "final_report gen (last cs)"
    and "num = int (length (filter (final_report gen) cs))"
    and "can_stop K fio (ma_settings m)" "\<forall>x. fl_scan fio (fl_print fio x) \<noteq> None"
    and "\<forall>c \<in> set cs. message_ok fio c \<and> 0 \<le> c_num c M_client_number \<and> c_num c M_client_number < 1024"
  shows "\<exists>m'. start_master_listen_loop K fio mc num m = Ret m' \<and> ma_join_count m' = 0 \<and>
     (\<forall>i. ma_shmaddr m' i = fold (noted fio gen i) cs (ma_shmaddr m i))"
  using report_loop_collects [of K fio "m\<lparr>ma_join_count := num\<rparr>" cs mc] assms
  by (auto simp: start_master_listen_loop_def loops_def)

lemma demo_report_number:
  "c_num (demo_report i t) k = (if k = M_command then 2 else if k = M_testnum then 1
     else if k = M_child_flag then 3 else if k = M_client_number then cast CInt i else 0)"
  "c_txt (demo_report i t) k = []"
  "c_flt (demo_report i t) k = (if k = M_throughput then t else if k = M_actual then 4
     else if k = M_cputime then 1 else if k = M_walltime then 3 else 0)"
  by (simp_all add: demo_report_def stats_message_def report_def demo_client_def demo_settings_def
      zero_command_def int_io_def)

lemma demo_report_ok:
  assumes "i \<in> {0, 1}"
  shows "message_ok int_io (demo_report i 100)"
  using assms
  by (auto simp: message_ok_def msg_fits_def master_items_def master_sizes_def demo_report_number demo_lengths int_io_def)

lemma reports_are_collected_witness:
  "\<exists>bs m'. length bs = 2 \<and> start_master_listen_loop fifo int_io (demo_command 0) 2 (demo_master bs) = Ret m' \<and>
     ma_join_count m' = 0 \<and> cs_throughput (ma_shmaddr m' 0) = 100 \<and> cs_throughput (ma_shmaddr m' 1) = 100"
proof -
  let ?cs = "[demo_report 0 100, demo_report 1 100]"
  obtain b1 b2 where b: "encode_master int_io (demo_report 0 100) = Ret b1"
      "encode_master int_io (demo_report 1 100) = Ret b2"
    using encode_master_ok [OF demo_report_ok [of 0]] encode_master_ok [OF demo_report_ok [of 1]] by auto
  have ok: "\<forall>c \<in> set ?cs. message_ok int_io c" by (simp add: demo_report_ok)
  have come: "reports_come fifo int_io ((demo_master [b1, b2])\<lparr>ma_join_count := 2\<rparr>) ?cs"
    using b ok by (intro fifo_reports_come [of _ _ "[b1, b2]"])
      (simp_all add: demo_master_def demo_report_number R_STOP_FLAG_def)
  have final: "final_report (s_num (ma_settings (demo_master [b1, b2])) ''mygen'') c" if "c \<in> set ?cs" for c
    using that by (auto simp: demo_master_def demo_settings_def final_report_def demo_report_number R_STAT_DATA_def)
  have "can_stop fifo int_io (ma_settings (demo_master [b1, b2]))"
    by (simp add: can_stop_def fifo_def demo_master_def demo_settings_def)
  moreover have "\<forall>x. fl_scan int_io (fl_print int_io x) \<noteq> None"
    by (simp add: int_io_def)
  moreover have "\<forall>c \<in> set ?cs. message_ok int_io c \<and> 0 \<le> c_num c M_client_number \<and> c_num c M_client_number < 1024"
    using ok by (simp add: demo_report_number)
  moreover have "final_report (s_num (ma_settings (demo_master [b1, b2])) ''mygen'') (last ?cs)"
    by (rule final) simp
  moreover have "(2 :: int) = int (length (filter (final_report (s_num (ma_settings (demo_master [b1, b2])) ''mygen'')) ?cs))"
    using final by simp
  ultimately obtain m' where
    m': "start_master_listen_loop fifo int_io (demo_command 0) 2 (demo_master [b1, b2]) = Ret m'" "ma_join_count m' = 0"
      "\<forall>i. ma_shmaddr m' i = fold (noted int_io (s_num (ma_settings (demo_master [b1, b2])) ''mygen'') i) ?cs
         (ma_shmaddr (demo_master [b1, b2]) i)"
    using reports_are_collected [OF come, of "demo_command 0"] by blast
  have "s_num (ma_settings (demo_master [b1, b2])) ''mygen'' = 0"
    by (simp add: demo_master_def demo_settings_def)
  with m' have "cs_throughput (ma_shmaddr m' 0) = 100" "cs_throughput (ma_shmaddr m' 1) = 100"
    by (simp_all add: noted_def demo_report_number wired_def int_io_def R_STAT_DATA_def)
  with m' show ?thesis
    by (intro exI [of _ "[b1, b2]"] exI [of _ m']) simp
qed

text \<open>
  C33: The master takes a report that is cut short for the one before it. \<open>master_listen\<close> reads once and
  goes on whatever it got: if the first piece of a connection ends within the names, all its numbers are
  those that the buffer still holds. So after one client's final report has arrived whole, a second
  connection that delivers at most 200 bytes is counted as that report once more: the loop that waits for
  two clients ends, and the statistics of the second one are those of before.
\<close>

theorem short_report_counted_twice:
  fixes m :: "('f, 'os) master"
  defines "gen \<equiv> s_num (ma_settings m) ''mygen''"
  assumes "message_ok fio c" "encode_master fio c = Ret bytes" "final_report gen c"
    and "connection K (ma_listen_socket m) (ma_os m) bytes os1"
    and "connection K (ma_listen_socket m) os1 d os2" "length d \<le> 200"
    and "length (ma_rcv_buf m) = 4096"
    and "0 \<le> c_num c M_client_number" "c_num c M_client_number < 1024"
    and "\<forall>x. fl_scan fio (fl_print fio x) \<noteq> None"
  shows "\<exists>m'. start_master_listen_loop K fio mc 2 m = Ret m' \<and> ma_join_count m' = 0 \<and> ma_os m' = os2 \<and>
     (\<forall>i. ma_shmaddr m' i = noted fio gen i c (ma_shmaddr m i)) \<and>
     (\<forall>i. int i \<noteq> c_num c M_client_number \<longrightarrow> ma_shmaddr m' i = ma_shmaddr m i)"
proof -
  obtain m' where "start_master_listen_loop K fio mc 2 m = Ret m'" "ma_join_count m' = 0" "ma_os m' = os2"
    "\<forall>i. ma_shmaddr m' i = noted fio gen i c (ma_shmaddr m i)"
    using short_report_counts [OF assms(2,3,5,6,7) _ assms(8-11)] assms(4) by (auto simp: gen_def)
  then show ?thesis by (intro exI [of _ m']) (auto simp: noted_def)
qed

lemma fifo_connection: "connection fifo s (d # ds) d ds"
proof -
  have "accept_loop fifo s (d # ds) = Some (Ret (5, d # ds))"
    by (subst accept_loop.simps) (simp add: fifo_def)
  then show ?thesis by (simp add: connection_def fifo_def)
qed

lemma short_report_counted_twice_witness:
  "\<exists>bytes m'. start_master_listen_loop fifo int_io (demo_command 0) 2 (demo_master [bytes, ''master'']) = Ret m' \<and>
     ma_join_count m' = 0 \<and> cs_throughput (ma_shmaddr m' 0) = 100 \<and> cs_throughput (ma_shmaddr m' 1) = 0"
proof -
  let ?c = "demo_report 0 100"
  obtain bytes where b: "encode_master int_io ?c = Ret bytes"
    using encode_master_ok [OF demo_report_ok [of 0]] by auto
  let ?m = "demo_master [bytes, ''master'']"
  have f: "final_report (s_num (ma_settings ?m) ''mygen'') ?c"
    by (simp add: demo_master_def demo_settings_def final_report_def demo_report_number R_STAT_DATA_def)
  have con: "connection fifo (ma_listen_socket ?m) (ma_os ?m) bytes [''master'']"
    "connection fifo (ma_listen_socket ?m) [''master''] ''master'' []"
    by (simp_all add: fifo_connection demo_master_def)
  have "message_ok int_io ?c" by (rule demo_report_ok) simp
  from short_report_counted_twice [OF this b f con, of "demo_command 0"] obtain m' where
    m': "start_master_listen_loop fifo int_io (demo_command 0) 2 ?m = Ret m'" "ma_join_count m' = 0"
      "\<forall>i. ma_shmaddr m' i = noted int_io (s_num (ma_settings ?m) ''mygen'') i ?c (ma_shmaddr ?m i)"
    by (auto simp: demo_report_number demo_master_def int_io_def)
  then have "cs_throughput (ma_shmaddr m' 0) = 100" "cs_throughput (ma_shmaddr m' 1) = 0"
    by (simp_all add: noted_def demo_report_number wired_def int_io_def R_STAT_DATA_def demo_master_def demo_settings_def)
  with m' show ?thesis by blast
qed

end
