(* ===== verification/Pit_Server.thy ===== *)
theory Pit_Server
  imports Iozone_Wire
begin

text \<open>
  \<open>example/iozone3_487/src/current/pit_server.c\<close>, the server that sends the time of day in
  microseconds as a decimal number to whoever connects to it or sends it a datagram, and its client
  in \<open>iozone.c\<close> (\<open>pit_gettimeofday\<close>). The branch is that of a system with \<open>IPV6_V6ONLY\<close> that is not
  Windows. The system is a parameter, an arbitrary function of the call and its own state; what the
  verbose mode prints about addresses is left out, the datagrams that it prints are kept.
\<close>

section \<open>The system\<close>

record addrinfo =
  ai_family :: int
  ai_socktype :: int
  ai_protocol :: int
  ai_addr :: nat

text \<open>
  \<open>Pit_poll\<close> is given the descriptors and answers with their \<open>revents\<close>; \<open>pr_addrs\<close> is the list of
  \<open>getaddrinfo\<close>, \<open>pr_data\<close> what a read or a datagram delivers, \<open>pr_time\<close> seconds and microseconds.
\<close>

datatype pit_call =
    Pit_getaddrinfo string string int int
  | Pit_socket int int int
  | Pit_setsockopt int
  | Pit_bind int nat
  | Pit_connect int nat
  | Pit_listen int
  | Pit_poll "int list"
  | Pit_gettimeofday
  | Pit_accept int
  | Pit_shutdown int
  | Pit_write int string
  | Pit_read int nat
  | Pit_close int
  | Pit_recvfrom int nat
  | Pit_sendto int string nat

record pit_ret =
  pr_ret :: int
  pr_errno :: int
  pr_data :: string
  pr_addrs :: "addrinfo list"
  pr_revents :: "int list"
  pr_time :: "int \<times> int"
  pr_from :: nat

type_synonym 'os pit_net = "pit_call \<Rightarrow> 'os \<Rightarrow> pit_ret \<times> 'os"

text \<open>
  \<open>ps_sent\<close> lists what has been put on the way, with the descriptor that the request came in on, for
  the theorems to speak of; no definition reads it.
\<close>

record 'os pit_server =
  ps_os :: 'os
  ps_verbose :: bool
  ps_service_name :: string
  ps_need :: int
  ps_timeStr :: string
  ps_stdout :: string
  ps_sent :: "(int \<times> string) list"

definition pcall :: "'os pit_net \<Rightarrow> pit_call \<Rightarrow> 'os pit_server \<Rightarrow> pit_ret \<times> 'os pit_server" where
  "pcall K c w = (case K c (ps_os w) of (r, os) \<Rightarrow> (r, w\<lparr>ps_os := os\<rparr>))"

text \<open>The macro \<open>CHK\<close>.\<close>

definition CHK :: "'os pit_net \<Rightarrow> pit_call \<Rightarrow> 'os pit_server \<Rightarrow> (pit_ret \<times> 'os pit_server) outcome" where
  "CHK K c w = (case pcall K c w of (r, w) \<Rightarrow> if pr_ret r = - 1 then Exit 1 else Ret (r, w))"

abbreviation (input) PF_INET :: int where "PF_INET \<equiv> 2"
abbreviation (input) PF_INET6 :: int where "PF_INET6 \<equiv> 10"
abbreviation (input) SOCK_STREAM :: int where "SOCK_STREAM \<equiv> 1"
abbreviation (input) SOCK_DGRAM :: int where "SOCK_DGRAM \<equiv> 2"
abbreviation (input) IPPROTO_TCP :: int where "IPPROTO_TCP \<equiv> 6"
abbreviation (input) IPPROTO_UDP :: int where "IPPROTO_UDP \<equiv> 17"
abbreviation (input) EINTR :: int where "EINTR \<equiv> 4"
abbreviation (input) POLLIN :: int where "POLLIN \<equiv> 1"
abbreviation (input) INVALID_DESC :: int where "INVALID_DESC \<equiv> - 1"

section \<open>\<open>openSckt\<close>\<close>

text \<open>The descriptor array is a list; the loop that clears it counts its size down to 0.\<close>

fun clear_desc :: "nat \<Rightarrow> int list \<Rightarrow> int list" where
  "clear_desc 0 desc = desc"
| "clear_desc (Suc n) desc = clear_desc n (desc[n := INVALID_DESC])"

fun open_records ::
  "'os pit_net \<Rightarrow> nat \<Rightarrow> addrinfo list \<Rightarrow> int list \<Rightarrow> nat \<Rightarrow> 'os pit_server \<Rightarrow> (int \<times> int list \<times> nat \<times> 'os pit_server) outcome"
where
  "open_records K maxDescs [] desc n w = Ret (0, desc, n, w)"
| "open_records K maxDescs (ai # ais) desc n w =
     (if \<not> n < maxDescs then Ret (0, desc, n, w)
      else if ps_verbose w \<and> ai_family ai \<noteq> PF_INET \<and> ai_family ai \<noteq> PF_INET6 then Ret (- 1, desc, n, w)
      else obind (CHK K (Pit_socket (ai_family ai) (ai_socktype ai) (ai_protocol ai)) w) (\<lambda>(r, w).
        let s = pr_ret r; desc = desc[n := s]
        in obind (if ai_family ai = PF_INET6 then CHK K (Pit_setsockopt s) w else Ret (r, w)) (\<lambda>(_, w).
           obind (CHK K (Pit_bind s (ai_addr ai)) w) (\<lambda>(r, w).
           obind (if ai_socktype ai = SOCK_STREAM then CHK K (Pit_listen s) w else Ret (r, w)) (\<lambda>(_, w).
           open_records K maxDescs ais desc (n + 1) w)))))"

definition openSckt ::
  "'os pit_net \<Rightarrow> string \<Rightarrow> string \<Rightarrow> int list \<Rightarrow> nat \<Rightarrow> 'os pit_server \<Rightarrow> (int \<times> int list \<times> nat \<times> 'os pit_server) outcome"
where
  "openSckt K service protocol desc maxDescs w =
     (let desc = clear_desc maxDescs desc;
          hints = (if protocol = ''tcp'' then Some (SOCK_STREAM, IPPROTO_TCP)
                   else if protocol = ''udp'' then Some (SOCK_DGRAM, IPPROTO_UDP) else None)
      in case hints of None \<Rightarrow> Ret (- 1, desc, 0, w)
         | Some (socktype, proto) \<Rightarrow>
             let (r, w) = pcall K (Pit_getaddrinfo [] service socktype proto) w
             in if pr_ret r \<noteq> 0 then Ret (- 1, desc, 0, w)
                else open_records K maxDescs (pr_addrs r) desc 0 w)"

section \<open>\<open>pit\<close>\<close>

text \<open>
  The loops over interrupted and partial calls. After a partial write the code starts again at the
  beginning of \<open>timeStr\<close>, with the number of bytes that are left.
\<close>

partial_function (option) again :: "'os pit_net \<Rightarrow> pit_call \<Rightarrow> 'os pit_server \<Rightarrow> (pit_ret \<times> 'os pit_server) outcome option"
where
  "again K c w =
     (let (r, w) = pcall K c w
      in if pr_ret r < 0 \<and> pr_errno r = EINTR then again K c w
         else Some (if pr_ret r = - 1 then Exit 1 else Ret (r, w)))"

definition put_on_way :: "int \<Rightarrow> string \<Rightarrow> 'os pit_server \<Rightarrow> 'os pit_server" where
  "put_on_way from s w = w\<lparr>ps_sent := ps_sent w @ [(from, s)]\<rparr>"

text \<open>\<open>send\<close> is the call that sends some bytes, \<open>from\<close> the descriptor that the request came in on.\<close>

partial_function (option) send_loop ::
  "'os pit_net \<Rightarrow> (string \<Rightarrow> pit_call) \<Rightarrow> int \<Rightarrow> int \<Rightarrow> 'os pit_server \<Rightarrow> 'os pit_server outcome option"
where
  "send_loop K send from wBytes w =
     (if 0 < wBytes then
        ostep (loops (again K (send (take (nat wBytes) (ps_timeStr w))) w)) (\<lambda>(r, w).
          send_loop K send from (wBytes - pr_ret r)
            (put_on_way from (take (nat (pr_ret r)) (ps_timeStr w)) w))
      else Some (Ret w))"

definition serve_tcp :: "'os pit_net \<Rightarrow> int \<Rightarrow> 'os pit_server \<Rightarrow> 'os pit_server outcome" where
  "serve_tcp K fd w =
     obind (CHK K (Pit_accept fd) w) (\<lambda>(r, w).
     let s = pr_ret r
     in obind (CHK K (Pit_shutdown s) w) (\<lambda>(_, w).
        obind (loops (send_loop K (Pit_write s) fd (int (length (ps_timeStr w))) w)) (\<lambda>w.
        obind (CHK K (Pit_close s) w) (\<lambda>(_, w). Ret w))))"

text \<open>
  In verbose mode the datagram is printed, and a newline unless its last byte is one: of an empty
  datagram the byte before the buffer is looked at.
\<close>

definition show_datagram :: "string \<Rightarrow> 'os pit_server \<Rightarrow> 'os pit_server outcome" where
  "show_datagram d w =
     (if \<not> ps_verbose w then Ret w
      else if d = [] then Crash OverRead
      else Ret (w\<lparr>ps_stdout := ps_stdout w @ d @ (if last d \<noteq> CHR 0x0A then [CHR 0x0A] else [])\<rparr>))"

definition serve_udp :: "'os pit_net \<Rightarrow> int \<Rightarrow> 'os pit_server \<Rightarrow> 'os pit_server outcome" where
  "serve_udp K fd w =
     obind (CHK K (Pit_recvfrom fd 256) w) (\<lambda>(r, w).
     obind (show_datagram (pr_data r) w) (\<lambda>w.
     loops (send_loop K (\<lambda>s. Pit_sendto fd s (pr_from r)) fd (int (length (ps_timeStr w))) w)))"

text \<open>The descriptors with their events, those of TCP first.\<close>

fun serve_ready :: "'os pit_net \<Rightarrow> (bool \<times> int \<times> int) list \<Rightarrow> 'os pit_server \<Rightarrow> 'os pit_server outcome" where
  "serve_ready K [] w = Ret w"
| "serve_ready K ((tcp, fd, revents) # ds) w =
     (if revents = 0 then serve_ready K ds w
      else if revents = POLLIN then
        obind (if tcp then serve_tcp K fd w else serve_udp K fd w) (serve_ready K ds)
      else Exit 1)"

definition time_text :: "int \<times> int \<Rightarrow> string" where
  "time_text t = show_nat (nat ((fst t * 1000000 + snd t) mod 2 ^ 64))"

definition pit_round :: "'os pit_net \<Rightarrow> int list \<Rightarrow> int list \<Rightarrow> 'os pit_server \<Rightarrow> 'os pit_server outcome" where
  "pit_round K tSckt uSckt w =
     obind (loops (again K (Pit_poll (tSckt @ uSckt)) w)) (\<lambda>(r, w).
     let (t, w) = pcall K Pit_gettimeofday w;
         tags = map (\<lambda>_. True) tSckt @ map (\<lambda>_. False) uSckt
     in serve_ready K (zip tags (zip (tSckt @ uSckt) (pr_revents r)))
          (w\<lparr>ps_timeStr := time_text (pr_time t)\<rparr>))"

partial_function (option) pit_loop :: "'os pit_net \<Rightarrow> int list \<Rightarrow> int list \<Rightarrow> 'os pit_server \<Rightarrow> 'os pit_server outcome option"
where
  "pit_loop K tSckt uSckt w = ostep (pit_round K tSckt uSckt w) (\<lambda>w. pit_loop K tSckt uSckt w)"

section \<open>\<open>main\<close>\<close>

text \<open>
  \<open>opts\<close> are the results of \<open>getopt\<close> with their arguments. \<open>service_name\<close> has 20 bytes.
\<close>

fun pit_options :: "(char \<times> string) list \<Rightarrow> 'os pit_server \<Rightarrow> 'os pit_server outcome" where
  "pit_options [] w = Ret w"
| "pit_options ((opt, optarg) # opts) w =
     (if opt = CHR ''v'' then pit_options opts (w\<lparr>ps_verbose := True\<rparr>)
      else if opt = CHR ''p'' then
        obind (c_strcpy 20 optarg) (\<lambda>s. pit_options opts (w\<lparr>ps_service_name := s, ps_need := ps_need w + 1\<rparr>))
      else Exit 127)"

definition pit_main :: "'os pit_net \<Rightarrow> (char \<times> string) list \<Rightarrow> 'os pit_server \<Rightarrow> (int \<times> 'os pit_server) outcome" where
  "pit_main K opts w =
     obind (pit_options opts (w\<lparr>ps_service_name := ''PIT''\<rparr>)) (\<lambda>w.
     if ps_need w < 1 then Exit 127
     else obind (openSckt K (ps_service_name w) ''tcp'' [0, 0] 2 w) (\<lambda>(r, tSckt, tSize, w).
       if r < 0 then Exit 1
       else obind (openSckt K (ps_service_name w) ''udp'' [0, 0] 2 w) (\<lambda>(r, uSckt, uSize, w).
         if r < 0 then Exit 1
         else if 0 < tSize \<or> 0 < uSize
         then obind (loops (pit_loop K (take tSize tSckt) (take uSize uSckt) w)) (\<lambda>w. Ret (0, w))
         else Ret (0, w))))"

section \<open>The client\<close>

text \<open>
  \<open>openSckt\<close> of \<open>iozone.c\<close> connects to the first address that takes the connection. \<open>pit\<close> sends 14
  bytes, reads once and converts what it got; a failed read would store in front of the buffer.
  \<open>value\<close> is what the variable holds before, which \<open>sscanf\<close> leaves if it finds no digits.
\<close>

fun connect_first :: "'os pit_net \<Rightarrow> addrinfo list \<Rightarrow> 'os \<Rightarrow> int \<times> 'os" where
  "connect_first K [] os = (INVALID_DESC, os)"
| "connect_first K (ai # ais) os =
     (let (r, os) = K (Pit_socket (ai_family ai) (ai_socktype ai) (ai_protocol ai)) os
      in if pr_ret r = - 1 then connect_first K ais os
         else let (c, os) = K (Pit_connect (pr_ret r) (ai_addr ai)) os
              in if pr_ret c \<noteq> 0 then connect_first K ais (snd (K (Pit_close (pr_ret r)) os))
                 else (pr_ret r, os))"

definition client_openSckt :: "'os pit_net \<Rightarrow> string \<Rightarrow> string \<Rightarrow> 'os \<Rightarrow> int \<times> 'os" where
  "client_openSckt K host service os =
     (let (r, os) = K (Pit_getaddrinfo host service SOCK_STREAM IPPROTO_TCP) os
      in if pr_ret r \<noteq> 0 then (INVALID_DESC, os) else connect_first K (pr_addrs r) os)"

definition to_timeval :: "int \<Rightarrow> string \<Rightarrow> int \<times> int" where
  "to_timeval value s =
     (let v = (case scan_number s of None \<Rightarrow> value
               | Some n \<Rightarrow> signed_take_bit 63 (if 2 ^ 64 \<le> \<bar>n\<bar> then 2 ^ 64 - 1 else n))
      in (sgn v * (\<bar>v\<bar> div 1000000), sgn v * (\<bar>v\<bar> mod 1000000)))"

definition client_pit :: "'os pit_net \<Rightarrow> int \<Rightarrow> int \<Rightarrow> 'os \<Rightarrow> ((int \<times> int) \<times> 'os) outcome" where
  "client_pit K value sckt os =
     (let (_, os) = K (Pit_write sckt ''Are you there?'') os;
          (r, os) = K (Pit_read sckt 256) os
      in if pr_ret r < 0 then Crash BufferOverflow
         else Ret (to_timeval value (takeWhile (\<lambda>c. c \<noteq> nul) (pr_data r)), os))"

definition pit_gettimeofday ::
  "'os pit_net \<Rightarrow> int \<Rightarrow> string \<Rightarrow> string \<Rightarrow> 'os \<Rightarrow> (int \<times> (int \<times> int) option \<times> 'os) outcome"
where
  "pit_gettimeofday K value host service os =
     (if host = []
      then let (r, os) = K Pit_gettimeofday os in Ret (pr_ret r, Some (pr_time r), os)
      else let (s, os) = client_openSckt K host service os
           in if s = INVALID_DESC then Ret (- 1, None, os)
              else obind (client_pit K value s os) (\<lambda>(tp, os).
                   Ret (0, Some tp, snd (K (Pit_close s) os))))"

end
