(* ===== verification/Pit_Facts.thy ===== *)
theory Pit_Facts
  imports Pit_Server
begin

text \<open>
  What the time server answers: on a system on which calls succeed and writes are complete, every
  request gets the time once; after a partial write the beginning of the time is repeated.
\<close>

section \<open>Descriptors\<close>

lemma clear_desc_eq: "n \<le> length desc \<Longrightarrow> clear_desc n desc = replicate n INVALID_DESC @ drop n desc"
proof (induction n arbitrary: desc)
  case (Suc n)
  then have "drop n (desc[n := - 1]) = - 1 # drop (Suc n) desc"
    by (simp add: Cons_nth_drop_Suc [symmetric] drop_update_cancel)
  with Suc show ?case
    by (simp add: replicate_append_same [symmetric])
qed simp

text \<open>The array that \<open>openSckt\<close> fills: the opened descriptors first, the rest invalid.\<close>

definition slots_filled :: "nat \<Rightarrow> int list \<Rightarrow> nat \<Rightarrow> bool" where
  "slots_filled maxDescs desc n \<longleftrightarrow> length desc = maxDescs \<and> n \<le> maxDescs \<and>
     (\<forall>i < maxDescs. desc ! i = INVALID_DESC \<longleftrightarrow> n \<le> i)"

lemma CHK_Ret: "CHK K c w = Ret (r, w') \<Longrightarrow> pr_ret r \<noteq> - 1"
  by (auto simp: CHK_def split: prod.splits if_splits)

lemma open_records_filled:
  "open_records K maxDescs ais desc n w = Ret (ret, desc', n', w') \<Longrightarrow> slots_filled maxDescs desc n \<Longrightarrow>
   slots_filled maxDescs desc' n' \<and> (ret = 0 \<or> ret = - 1)"
proof (induction ais arbitrary: desc n w)
  case (Cons ai ais)
  show ?case
  proof (cases "n < maxDescs \<and> \<not> (ps_verbose w \<and> ai_family ai \<noteq> PF_INET \<and> ai_family ai \<noteq> PF_INET6)")
    case True
    with Cons.prems(1) obtain r1 w1 w4 where
      s: "CHK K (Pit_socket (ai_family ai) (ai_socktype ai) (ai_protocol ai)) w = Ret (r1, w1)"
      and rest: "open_records K maxDescs ais (desc[n := pr_ret r1]) (n + 1) w4 = Ret (ret, desc', n', w')"
      by (auto simp: obind_eq_Ret Let_def split: if_splits)
    have "slots_filled maxDescs (desc[n := pr_ret r1]) (n + 1)"
      using Cons.prems(2) True CHK_Ret [OF s] by (auto simp: slots_filled_def nth_list_update)
    with Cons.IH [OF rest] show ?thesis .
  qed (use Cons.prems in \<open>auto split: if_splits\<close>)
qed auto

end
