(* ===== verification/Pit_Serving.thy ===== *)
theory Pit_Serving
  imports Pit_Facts
begin

text \<open>
  What the time server answers. On an obliging system calls succeed, writes are complete and \<open>poll\<close>
  reports nothing but input; then every request gets the time once, and the server never ends.
\<close>

section \<open>One answer\<close>

lemma again_once: "K c (ps_os w) = (r, os) \<Longrightarrow> 0 \<le> pr_ret r \<Longrightarrow> again K c w = Some (Ret (r, w\<lparr>ps_os := os\<rparr>))"
  by (subst again.simps) (simp add: pcall_def)

lemma send_loop_done [simp]: "n \<le> 0 \<Longrightarrow> send_loop K send from n w = Some (Ret w)"
  by (subst send_loop.simps) simp

lemma send_loop_step:
  assumes "K (send (take (nat n) (ps_timeStr w))) (ps_os w) = (r, os)" "0 \<le> pr_ret r" "0 < n"
  shows "send_loop K send from n w =
    send_loop K send from (n - pr_ret r) (put_on_way from (take (nat (pr_ret r)) (ps_timeStr w)) (w\<lparr>ps_os := os\<rparr>))"
  using assms by (subst send_loop.simps) (simp add: again_once loops_def)

text \<open>What \<open>send_loop\<close> puts on the way when the first write is cut short and the second is complete.\<close>

lemma send_loop_cut:
  assumes "K (send (ps_timeStr w)) (ps_os w) = (r1, os1)" "pr_ret r1 = int c"
    and "K (send (take (length (ps_timeStr w) - c) (ps_timeStr w))) os1 = (r2, os2)"
    and "pr_ret r2 = int (length (ps_timeStr w) - c)" "0 < c" "c < length (ps_timeStr w)"
  shows "send_loop K send from (int (length (ps_timeStr w))) w =
    Some (Ret (w\<lparr>ps_os := os2, ps_sent := ps_sent w @
      [(from, take c (ps_timeStr w)), (from, take (length (ps_timeStr w) - c) (ps_timeStr w))]\<rparr>))"
proof -
  let ?w = "put_on_way from (take c (ps_timeStr w)) (w\<lparr>ps_os := os1\<rparr>)"
  have n: "nat (int (length (ps_timeStr w)) - int c) = length (ps_timeStr w) - c"
    using assms(6) by simp
  have ne: "ps_timeStr w \<noteq> []"
    using assms(6) by auto
  have "send_loop K send from (int (length (ps_timeStr w))) w =
    send_loop K send from (int (length (ps_timeStr w)) - int c) ?w"
    using assms ne by (subst send_loop_step [where r = r1 and os = os1]) (simp_all add: put_on_way_def)
  also have "\<dots> = Some (Ret (put_on_way from (take (length (ps_timeStr w) - c) (ps_timeStr w)) (?w\<lparr>ps_os := os2\<rparr>)))"
    using assms n by (subst send_loop_step [where r = r2 and os = os2]) (simp_all add: put_on_way_def of_nat_diff)
  finally show ?thesis by (simp add: put_on_way_def)
qed

section \<open>An obliging system\<close>

fun obliges :: "pit_call \<Rightarrow> pit_ret \<Rightarrow> bool" where
  "obliges (Pit_write fd s) r = (pr_ret r = int (length s))"
| "obliges (Pit_sendto fd s to) r = (pr_ret r = int (length s))"
| "obliges (Pit_recvfrom fd n) r = (0 \<le> pr_ret r \<and> pr_data r \<noteq> [])"
| "obliges (Pit_poll fds) r = (0 \<le> pr_ret r \<and> length (pr_revents r) = length fds \<and>
     (\<forall>e \<in> set (pr_revents r). e = 0 \<or> e = POLLIN))"
| "obliges (Pit_getaddrinfo host service socktype proto) r = (pr_ret r = 0 \<and> pr_addrs r \<noteq> [])"
| "obliges c r = (0 \<le> pr_ret r)"

definition obliging :: "'os pit_net \<Rightarrow> bool" where
  "obliging K \<longleftrightarrow> (\<forall>c os. obliges c (fst (K c os)))"

lemma obligingD: "obliging K \<Longrightarrow> K c os = (r, os') \<Longrightarrow> obliges c r"
  by (metis obliging_def fst_conv)

text \<open>Nothing of the server but the state of the system, the printed text and the answers changes.\<close>

definition served :: "'os pit_server \<Rightarrow> (int \<times> string) list \<Rightarrow> 'os pit_server \<Rightarrow> bool" where
  "served w as w' \<longleftrightarrow> ps_verbose w' = ps_verbose w \<and> ps_service_name w' = ps_service_name w \<and>
     ps_need w' = ps_need w \<and> ps_timeStr w' = ps_timeStr w \<and> ps_sent w' = ps_sent w @ as"

lemma served_refl [simp]: "served w [] w"
  by (simp add: served_def)

lemma served_os [simp]: "served w as (w'\<lparr>ps_os := os\<rparr>) = served w as w'" "served (w\<lparr>ps_os := os\<rparr>) as w' = served w as w'"
  by (simp_all add: served_def)

lemma served_trans: "served w as w' \<Longrightarrow> served w' bs w'' \<Longrightarrow> served w (as @ bs) w''"
  by (simp add: served_def)

lemma CHK_obliging:
  assumes "obliging K" "\<And>r. obliges c r \<Longrightarrow> 0 \<le> pr_ret r"
  shows "\<exists>r os. obliges c r \<and> CHK K c w = Ret (r, w\<lparr>ps_os := os\<rparr>)"
proof -
  obtain r os where k: "K c (ps_os w) = (r, os)" by force
  with assms(1) have o: "obliges c r" by (rule obligingD)
  with assms(2) [OF this] k show ?thesis by (fastforce simp: CHK_def pcall_def)
qed

lemma send_loop_obliging:
  assumes ob: "obliging K" and wr: "\<And>s r. obliges (send s) r \<Longrightarrow> pr_ret r = int (length s)"
    and "ps_timeStr w \<noteq> []"
  shows "\<exists>w'. send_loop K send from (int (length (ps_timeStr w))) w = Some (Ret w') \<and>
    served w [(from, ps_timeStr w)] w'"
proof -
  obtain r os where k: "K (send (ps_timeStr w)) (ps_os w) = (r, os)" by force
  with wr [OF obligingD [OF ob]] have "pr_ret r = int (length (ps_timeStr w))" by blast
  with k assms(3) show ?thesis
    by (subst send_loop_step [where r = r and os = os]) (simp_all add: put_on_way_def served_def)
qed

lemma serve_tcp_obliging:
  assumes "obliging K" "ps_timeStr w \<noteq> []"
  shows "\<exists>w'. serve_tcp K fd w = Ret w' \<and> served w [(fd, ps_timeStr w)] w'"
proof -
  obtain r os where 1: "CHK K (Pit_accept fd) w = Ret (r, w\<lparr>ps_os := os\<rparr>)"
    using CHK_obliging [OF assms(1), of "Pit_accept fd" w] by auto
  obtain r' os' where 2: "CHK K (Pit_shutdown (pr_ret r)) (w\<lparr>ps_os := os\<rparr>) = Ret (r', w\<lparr>ps_os := os'\<rparr>)"
    using CHK_obliging [OF assms(1), of "Pit_shutdown (pr_ret r)" "w\<lparr>ps_os := os\<rparr>"] by auto
  obtain w1 where 3: "send_loop K (Pit_write (pr_ret r)) fd (int (length (ps_timeStr w))) (w\<lparr>ps_os := os'\<rparr>) = Some (Ret w1)"
    "served w [(fd, ps_timeStr w)] w1"
    using send_loop_obliging [OF assms(1), of "Pit_write (pr_ret r)" "w\<lparr>ps_os := os'\<rparr>" fd] assms(2) by auto
  obtain r4 os4 where "CHK K (Pit_close (pr_ret r)) w1 = Ret (r4, w1\<lparr>ps_os := os4\<rparr>)"
    using CHK_obliging [OF assms(1), of "Pit_close (pr_ret r)" w1] by auto
  with 1 2 3 show ?thesis by (simp add: serve_tcp_def loops_def)
qed

lemma show_datagram_served: "d \<noteq> [] \<Longrightarrow> \<exists>w'. show_datagram d w = Ret w' \<and> served w [] w'"
  by (simp add: show_datagram_def served_def)

lemma serve_udp_obliging:
  assumes "obliging K" "ps_timeStr w \<noteq> []"
  shows "\<exists>w'. serve_udp K fd w = Ret w' \<and> served w [(fd, ps_timeStr w)] w'"
proof -
  obtain r os where 1: "CHK K (Pit_recvfrom fd 256) w = Ret (r, w\<lparr>ps_os := os\<rparr>)" "pr_data r \<noteq> []"
    using CHK_obliging [OF assms(1), of "Pit_recvfrom fd 256" w] by auto
  then obtain w1 where 2: "show_datagram (pr_data r) (w\<lparr>ps_os := os\<rparr>) = Ret w1" "served w [] w1"
    using show_datagram_served [of "pr_data r" "w\<lparr>ps_os := os\<rparr>"] by auto
  then have t: "ps_timeStr w1 = ps_timeStr w" by (simp add: served_def)
  obtain w2 where "send_loop K (\<lambda>s. Pit_sendto fd s (pr_from r)) fd (int (length (ps_timeStr w1))) w1 = Some (Ret w2)"
    "served w1 [(fd, ps_timeStr w)] w2"
    using send_loop_obliging [OF assms(1), of "\<lambda>s. Pit_sendto fd s (pr_from r)" w1 fd] assms(2) t by auto
  with 1 2 t served_trans [of w "[]" w1 "[(fd, ps_timeStr w)]" w2] show ?thesis
    by (simp add: serve_udp_def loops_def)
qed

lemma serve_ready_obliging:
  assumes "obliging K" "ps_timeStr w \<noteq> []" "\<forall>(tcp, fd, e) \<in> set ds. e = 0 \<or> e = POLLIN"
  shows "\<exists>w'. serve_ready K ds w = Ret w' \<and>
    served w (map (\<lambda>(tcp, fd, e). (fd, ps_timeStr w)) (filter (\<lambda>(tcp, fd, e). e = POLLIN) ds)) w'"
  using assms(2, 3)
proof (induction ds arbitrary: w)
  case (Cons d ds)
  obtain tcp fd e where d: "d = (tcp, fd, e)" by (cases d) auto
  show ?case
  proof (cases "e = 0")
    case True
    with Cons d show ?thesis by simp
  next
    case False
    with Cons.prems d have e: "e = POLLIN" by auto
    obtain w1 where 1: "(if tcp then serve_tcp K fd w else serve_udp K fd w) = Ret w1"
      "served w [(fd, ps_timeStr w)] w1"
      using serve_tcp_obliging [OF assms(1) Cons.prems(1)] serve_udp_obliging [OF assms(1) Cons.prems(1)] by (metis (full_types))
    then have t: "ps_timeStr w1 = ps_timeStr w" by (simp add: served_def)
    with Cons.IH [of w1] Cons.prems obtain w2 where 2: "serve_ready K ds w1 = Ret w2"
      "served w1 (map (\<lambda>(tcp, fd, e). (fd, ps_timeStr w)) (filter (\<lambda>(tcp, fd, e). e = POLLIN) ds)) w2"
      by (auto split: prod.splits)
    from served_trans [OF 1(2) 2(2)] 1(1) 2(1) d e show ?thesis by simp
  qed
qed simp

section \<open>A round, and the rounds\<close>

definition answers :: "string \<Rightarrow> int list \<Rightarrow> int list \<Rightarrow> (int \<times> string) list" where
  "answers t fds evs = map (\<lambda>(fd, e). (fd, t)) (filter (\<lambda>(fd, e). e = POLLIN) (zip fds evs))"

lemma answers_tagged:
  "length tags = length fds \<Longrightarrow>
   map (\<lambda>(tcp, fd, e). (fd, t)) (filter (\<lambda>(tcp, fd, e). e = POLLIN) (zip tags (zip fds evs))) = answers t fds evs"
proof (induction tags fds arbitrary: evs rule: list_induct2)
  case (Cons x xs y ys)
  then show ?case by (cases evs) (auto simp: answers_def)
qed (simp add: answers_def)

lemma time_text_nonempty [simp]: "time_text t \<noteq> []"
  by (simp add: time_text_def)

lemma pit_round_obliging:
  assumes ob: "obliging K"
    and p: "K (Pit_poll (tSckt @ uSckt)) (ps_os w) = (r, os)" and t: "K Pit_gettimeofday os = (t, os')"
  shows "\<exists>w'. pit_round K tSckt uSckt w = Ret w' \<and> ps_verbose w' = ps_verbose w \<and>
    ps_sent w' = ps_sent w @ answers (time_text (pr_time t)) (tSckt @ uSckt) (pr_revents r)"
proof -
  let ?w = "w\<lparr>ps_os := os', ps_timeStr := time_text (pr_time t)\<rparr>"
  let ?tags = "map (\<lambda>_. True) tSckt @ map (\<lambda>_. False) uSckt"
  let ?ds = "zip ?tags (zip (tSckt @ uSckt) (pr_revents r))"
  from obligingD [OF ob p] have r: "0 \<le> pr_ret r" "\<forall>e \<in> set (pr_revents r). e = 0 \<or> e = POLLIN"
    by auto
  then have "\<forall>(tcp, fd, e) \<in> set ?ds. e = 0 \<or> e = POLLIN"
    by (auto dest!: set_zip_rightD)
  with serve_ready_obliging [OF ob, of ?w ?ds] obtain w' where
    w': "serve_ready K ?ds ?w = Ret w'"
      "served ?w (map (\<lambda>(tcp, fd, e). (fd, time_text (pr_time t))) (filter (\<lambda>(tcp, fd, e). e = POLLIN) ?ds)) w'"
    by auto
  have "pit_round K tSckt uSckt w = serve_ready K ?ds ?w"
    using p r t by (simp add: pit_round_def again_once loops_def pcall_def)
  with w' show ?thesis
    by (simp add: answers_tagged served_def)
qed

text \<open>
  The first \<open>n\<close> rounds of the loop. When somebody asks in every round, every round sends an answer.
\<close>

primrec rounds :: "'os pit_net \<Rightarrow> int list \<Rightarrow> int list \<Rightarrow> nat \<Rightarrow> 'os pit_server \<Rightarrow> 'os pit_server outcome" where
  "rounds K tSckt uSckt 0 w = Ret w"
| "rounds K tSckt uSckt (Suc n) w = obind (pit_round K tSckt uSckt w) (rounds K tSckt uSckt n)"

definition always_asked :: "'os pit_net \<Rightarrow> bool" where
  "always_asked K \<longleftrightarrow> (\<forall>fds os. fds \<noteq> [] \<longrightarrow> POLLIN \<in> set (pr_revents (fst (K (Pit_poll fds) os))))"

definition timely :: "int list \<Rightarrow> (int \<times> string) list \<Rightarrow> bool" where
  "timely fds as \<longleftrightarrow> (\<forall>(fd, s) \<in> set as. fd \<in> set fds \<and> (\<exists>t. s = time_text t))"

lemma timely_append [simp]: "timely fds (as @ bs) \<longleftrightarrow> timely fds as \<and> timely fds bs"
  by (simp add: timely_def ball_Un)

lemma timely_answers: "timely fds (answers (time_text t) fds evs)"
proof -
  have "\<exists>u. time_text t = time_text u" by blast
  then show ?thesis
    by (simp add: timely_def answers_def case_prod_beta) (metis prod.collapse set_zip_leftD)
qed

lemma answers_nonempty:
  assumes "POLLIN \<in> set evs" "length evs = length fds"
  shows "answers t fds evs \<noteq> []"
proof -
  from assms(1) obtain i where "i < length evs" "evs ! i = POLLIN"
    by (metis in_set_conv_nth)
  with assms(2) have "(fds ! i, POLLIN) \<in> set (zip fds evs)"
    by (metis in_set_zip fst_conv snd_conv)
  then show ?thesis by (auto simp: answers_def filter_empty_conv)
qed

lemma rounds_serve:
  assumes ob: "obliging K" and ask: "always_asked K" and some: "tSckt @ uSckt \<noteq> []"
  shows "\<exists>w' as. rounds K tSckt uSckt n w = Ret w' \<and> ps_sent w' = ps_sent w @ as \<and> n \<le> length as \<and>
     timely (tSckt @ uSckt) as \<and> pit_loop K tSckt uSckt w = pit_loop K tSckt uSckt w'"
proof (induction n arbitrary: w)
  case 0
  show ?case by (intro exI [of _ w] exI [of _ "[]"]) (simp add: timely_def)
next
  case (Suc n)
  obtain r os where p: "K (Pit_poll (tSckt @ uSckt)) (ps_os w) = (r, os)" by force
  obtain t os' where t: "K Pit_gettimeofday os = (t, os')" by force
  let ?as = "answers (time_text (pr_time t)) (tSckt @ uSckt) (pr_revents r)"
  from pit_round_obliging [OF ob p t] obtain w1 where
    w1: "pit_round K tSckt uSckt w = Ret w1" "ps_sent w1 = ps_sent w @ ?as" by blast
  have "POLLIN \<in> set (pr_revents r)"
    using ask some p unfolding always_asked_def by (metis fst_conv)
  moreover have "length (pr_revents r) = length (tSckt @ uSckt)"
    using obligingD [OF ob p] by simp
  ultimately have one: "1 \<le> length ?as"
    using answers_nonempty [of "pr_revents r" "tSckt @ uSckt" "time_text (pr_time t)"] by (simp add: Suc_le_eq)
  obtain w' as where w': "rounds K tSckt uSckt n w1 = Ret w'" "ps_sent w' = ps_sent w1 @ as" "n \<le> length as"
    "timely (tSckt @ uSckt) as" "pit_loop K tSckt uSckt w1 = pit_loop K tSckt uSckt w'"
    using Suc.IH [of w1] by blast
  have "pit_loop K tSckt uSckt w = pit_loop K tSckt uSckt w1"
    using w1(1) by (subst pit_loop.simps) simp
  with w1 w' one show ?case
    by (intro exI [of _ w'] exI [of _ "?as @ as"]) (simp add: timely_answers)
qed

lemma pit_loop_runs_on:
  assumes ob: "obliging K"
  shows "pit_loop K tSckt uSckt w = None"
proof (rule ccontr)
  assume "\<not> ?thesis"
  then obtain z where z: "pit_loop K tSckt uSckt w = Some z" by blast
  have "K \<noteq> K"
  proof (rule pit_loop.raw_induct [where P = "\<lambda>K' tSckt uSckt w z. K' \<noteq> K", OF _ z])
    fix f K' tS uS w z
    assume IH: "\<And>K' tS uS w z. f K' tS uS w = Some z \<Longrightarrow> K' \<noteq> K"
      and step: "ostep (pit_round K' tS uS w) (\<lambda>w. f K' tS uS w) = Some z"
    show "K' \<noteq> K"
    proof
      assume k: "K' = K"
      obtain r os where p: "K (Pit_poll (tS @ uS)) (ps_os w) = (r, os)" by force
      obtain t os' where t: "K Pit_gettimeofday os = (t, os')" by force
      from pit_round_obliging [OF ob p t] step IH [of K tS uS _ z] k show False by auto
    qed
  qed
  then show False by simp
qed

section \<open>Opening\<close>

lemma CHK_again:
  assumes "obliging K" "\<And>r. obliges c r \<Longrightarrow> 0 \<le> pr_ret r"
  shows "\<exists>r os. CHK K c w = Ret (r, w\<lparr>ps_os := os\<rparr>)"
  using CHK_obliging [OF assms] by blast

lemma ex_os [simp]: "\<exists>os. w = w\<lparr>ps_os := os\<rparr>"
  by (rule exI [of _ "ps_os w"]) simp

lemma CHK_if:
  assumes "obliging K" "\<And>r. obliges c r \<Longrightarrow> 0 \<le> pr_ret r"
  shows "\<exists>r' os'. (if b then CHK K c (w\<lparr>ps_os := os\<rparr>) else Ret (r, w\<lparr>ps_os := os\<rparr>)) = Ret (r', w\<lparr>ps_os := os'\<rparr>)"
  using CHK_again [OF assms, where w = "w\<lparr>ps_os := os\<rparr>"] by (cases b) auto

lemma open_records_obliging:
  assumes "obliging K" "\<not> ps_verbose w" "n \<le> maxDescs"
  shows "\<exists>desc' os. open_records K maxDescs ais desc n w =
    Ret (0, desc', min maxDescs (n + length ais), w\<lparr>ps_os := os\<rparr>)"
  using assms(2, 3)
proof (induction ais arbitrary: desc n w)
  case (Cons ai ais)
  show ?case
  proof (cases "n < maxDescs")
    case True
    obtain r1 os1 where 1: "CHK K (Pit_socket (ai_family ai) (ai_socktype ai) (ai_protocol ai)) w = Ret (r1, w\<lparr>ps_os := os1\<rparr>)"
      using CHK_again [OF assms(1), of "Pit_socket (ai_family ai) (ai_socktype ai) (ai_protocol ai)" w] by auto
    obtain r2 os2 where 2: "(if ai_family ai = PF_INET6 then CHK K (Pit_setsockopt (pr_ret r1)) (w\<lparr>ps_os := os1\<rparr>)
        else Ret (r1, w\<lparr>ps_os := os1\<rparr>)) = Ret (r2, w\<lparr>ps_os := os2\<rparr>)"
      using CHK_if [OF assms(1), where c = "Pit_setsockopt (pr_ret r1)" and b = "ai_family ai = PF_INET6" and r = r1
          and w = w and os = os1] by (simp del: if_split) blast
    obtain r3 os3 where 3: "CHK K (Pit_bind (pr_ret r1) (ai_addr ai)) (w\<lparr>ps_os := os2\<rparr>) = Ret (r3, w\<lparr>ps_os := os3\<rparr>)"
      using CHK_again [OF assms(1), of "Pit_bind (pr_ret r1) (ai_addr ai)" "w\<lparr>ps_os := os2\<rparr>"] by auto
    obtain r4 os4 where 4: "(if ai_socktype ai = SOCK_STREAM then CHK K (Pit_listen (pr_ret r1)) (w\<lparr>ps_os := os3\<rparr>)
        else Ret (r3, w\<lparr>ps_os := os3\<rparr>)) = Ret (r4, w\<lparr>ps_os := os4\<rparr>)"
      using CHK_if [OF assms(1), where c = "Pit_listen (pr_ret r1)" and b = "ai_socktype ai = SOCK_STREAM" and r = r3
          and w = w and os = os3] by (simp del: if_split) blast
    obtain desc' os where "open_records K maxDescs ais (desc[n := pr_ret r1]) (n + 1) (w\<lparr>ps_os := os4\<rparr>) =
        Ret (0, desc', min maxDescs (n + 1 + length ais), w\<lparr>ps_os := os\<rparr>)"
      using Cons.IH [of "w\<lparr>ps_os := os4\<rparr>" "n + 1" "desc[n := pr_ret r1]"] Cons.prems True by auto
    with 1 2 3 4 True Cons.prems show ?thesis by (simp add: Let_def) blast
  qed (use Cons.prems in \<open>auto simp: min_def\<close>)
qed simp

lemma openSckt_obliging:
  assumes "obliging K" "\<not> ps_verbose w" "0 < maxDescs" "protocol = ''tcp'' \<or> protocol = ''udp''"
  shows "\<exists>desc' n os. openSckt K service protocol desc maxDescs w = Ret (0, desc', n, w\<lparr>ps_os := os\<rparr>) \<and> 0 < n"
proof -
  obtain socktype proto where hints:
    "(if protocol = ''tcp'' then Some (SOCK_STREAM, IPPROTO_TCP)
      else if protocol = ''udp'' then Some (SOCK_DGRAM, IPPROTO_UDP) else None) = Some (socktype, proto)"
    using assms(4) by auto
  obtain r os where g: "K (Pit_getaddrinfo [] service socktype proto) (ps_os w) = (r, os)" by force
  from obligingD [OF assms(1) g] have r: "pr_ret r = 0" "pr_addrs r \<noteq> []" by auto
  from open_records_obliging [OF assms(1), of "w\<lparr>ps_os := os\<rparr>" 0 maxDescs "pr_addrs r" "clear_desc maxDescs desc"]
    assms(2, 3) g r hints show ?thesis
    by (auto simp: openSckt_def pcall_def)
qed

end
