(* ===== verification/Pit_Properties.thy ===== *)
theory Pit_Properties
  imports Pit_Serving
begin

text \<open>The properties of the time server of \<open>pit_server.c\<close> and of its client in \<open>iozone.c\<close>.\<close>

text \<open>
  A system on which everything goes well, for the witnesses: there is one address, input on every
  descriptor, the time is 3 s 250 us, writes are complete, and a read delivers the text of that time.
\<close>

definition fine_net :: "unit pit_net" where
  "fine_net c os = (
     let r = \<lparr>pr_ret = 0, pr_errno = 0, pr_data = ''3000250'',
           pr_addrs = [\<lparr>ai_family = PF_INET, ai_socktype = SOCK_STREAM, ai_protocol = IPPROTO_TCP, ai_addr = 1\<rparr>],
           pr_revents = [], pr_time = (3, 250), pr_from = 0\<rparr>
     in ((case c of Pit_write fd s \<Rightarrow> r\<lparr>pr_ret := int (length s)\<rparr>
          | Pit_sendto fd s to \<Rightarrow> r\<lparr>pr_ret := int (length s)\<rparr>
          | Pit_poll fds \<Rightarrow> r\<lparr>pr_revents := map (\<lambda>_. POLLIN) fds\<rparr>
          | _ \<Rightarrow> r), os))"

definition cut_net :: "unit pit_net" where
  "cut_net c os = (
     case c of Pit_write fd s \<Rightarrow>
       if length s = 7 then ((fst (fine_net c os))\<lparr>pr_ret := 3\<rparr>, os) else fine_net c os
     | _ \<Rightarrow> fine_net c os)"

definition fine_server :: "unit pit_server" where
  "fine_server = \<lparr>ps_os = (), ps_verbose = False, ps_service_name = [], ps_need = 0, ps_timeStr = ''3000250'',
     ps_stdout = [], ps_sent = []\<rparr>"

lemma obliging_fine: "obliging fine_net"
  unfolding obliging_def
proof (intro allI)
  fix c :: pit_call and os :: unit
  show "obliges c (fst (fine_net c os))"
    by (cases c) (auto simp: fine_net_def Let_def)
qed

text \<open>
  C26: on an obliging system a round of the server answers every descriptor on which \<open>poll\<close> reports
  input exactly once, TCP first, with the time in microseconds that it asks for after the \<open>poll\<close>;
  the same text goes to all of them, and nothing else is sent.
\<close>

theorem pit_round_answers_every_request:
  assumes "obliging K" "K (Pit_poll (tSckt @ uSckt)) (ps_os w) = (r, os)" "K Pit_gettimeofday os = (t, os')"
  shows "\<exists>w'. pit_round K tSckt uSckt w = Ret w' \<and>
    ps_sent w' = ps_sent w @ map (\<lambda>(fd, e). (fd, time_text (pr_time t)))
      (filter (\<lambda>(fd, e). e = POLLIN) (zip (tSckt @ uSckt) (pr_revents r)))"
  using pit_round_obliging [OF assms] by (auto simp: answers_def)

lemma pit_round_answers_every_request_witness:
  "\<exists>w'. pit_round fine_net [3] [4, 5] fine_server = Ret w' \<and>
    ps_sent w' = [(3, time_text (3, 250)), (4, time_text (3, 250)), (5, time_text (3, 250))]"
  using pit_round_answers_every_request [OF obliging_fine, of "[3]" "[4, 5]" fine_server _ _
      "fst (fine_net Pit_gettimeofday ())" "()"]
  by (auto simp: fine_net_def fine_server_def Let_def)

text \<open>
  C27: the time survives the way over the network: what the server prints of a time is converted by
  the client back into the same seconds and microseconds, as long as they are a time and the
  microseconds fit 63 bits, whatever the variable held before.
\<close>

theorem pit_time_roundtrip:
  assumes "0 \<le> s" "0 \<le> us" "us < 1000000" "s * 1000000 + us < 2 ^ 63"
    and "K (Pit_write sckt ''Are you there?'') os = (r1, os1)" "K (Pit_read sckt 256) os1 = (r2, os2)"
    and "0 \<le> pr_ret r2" "pr_data r2 = time_text (s, us)"
  shows "client_pit K value sckt os = Ret ((s, us), os2)"
proof -
  let ?v = "s * 1000000 + us"
  have v: "(?v :: int) mod 2 ^ 64 = ?v" "0 \<le> ?v"
    using assms(1-4) by (simp_all)
  then have t: "time_text (s, us) = show_int ?v"
    by (simp add: time_text_def show_int_def)
  have tw: "takeWhile (\<lambda>c. c \<noteq> nul) (show_int ?v) = show_int ?v"
    using nul_notin_show_int [of ?v] by (auto simp: takeWhile_eq_all_conv)
  have "signed_take_bit 63 ?v = ?v"
    using assms(1-4) v(2) by (intro signed_take_bit_int_eq_self) simp_all
  moreover have "?v div 1000000 = s" "?v mod 1000000 = us" "\<bar>?v\<bar> = ?v" "?v < 2 ^ 64"
    using assms(1-4) v(2) by simp_all
  moreover have "sgn ?v = 1 \<or> s = 0 \<and> us = 0"
    using assms(1-2) by (simp add: sgn_if)
  then have "sgn ?v * s = s" "sgn ?v * us = us"
    by (elim disjE; simp)+
  ultimately have "to_timeval value (show_int ?v) = (s, us)"
    by (simp add: to_timeval_def Let_def)
  with assms(5-8) show ?thesis
    by (simp add: client_pit_def t tw)
qed

lemma pit_time_roundtrip_witness:
  "client_pit fine_net 7 3 () = Ret ((3, 250), ())"
proof -
  have "time_text (3, 250) = ''3000250''"
    by (simp add: time_text_def show_nat.simps digit_char_def) code_simp
  then show ?thesis
    by (intro pit_time_roundtrip [where ?r1.0 = "fst (fine_net (Pit_write 3 ''Are you there?'') ())" and ?os1.0 = "()"
          and ?r2.0 = "fst (fine_net (Pit_read 3 256) ())"])
      (simp_all add: fine_net_def Let_def)
qed

text \<open>
  C31: when the system takes only the first c bytes of the time and then everything it is offered, the
  server has sent the first c bytes and after them again the beginning of the text, not the rest: the
  reader has the time only if the digits happen to repeat.
\<close>

theorem partial_write_repeats_beginning:
  assumes "K (Pit_write s (ps_timeStr w)) (ps_os w) = (r1, os1)" "pr_ret r1 = int c"
    and "K (Pit_write s (take (length (ps_timeStr w) - c) (ps_timeStr w))) os1 = (r2, os2)"
    and "pr_ret r2 = int (length (ps_timeStr w) - c)" "0 < c" "c < length (ps_timeStr w)"
  shows "\<exists>w'. send_loop K (Pit_write s) fd (int (length (ps_timeStr w))) w = Some (Ret w') \<and>
    ps_sent w' = ps_sent w @ [(fd, take c (ps_timeStr w)), (fd, take (length (ps_timeStr w) - c) (ps_timeStr w))] \<and>
    (take c (ps_timeStr w) @ take (length (ps_timeStr w) - c) (ps_timeStr w) = ps_timeStr w \<longleftrightarrow>
     take (length (ps_timeStr w) - c) (ps_timeStr w) = drop c (ps_timeStr w))"
proof -
  have "take c t @ u = t \<longleftrightarrow> u = drop c t" for t u :: string
    by (metis append_take_drop_id same_append_eq)
  with send_loop_cut [where send = "Pit_write s", OF assms(1-6)] show ?thesis by simp
qed

lemma partial_write_repeats_beginning_witness:
  "\<exists>w'. send_loop cut_net (Pit_write 5) 3 7 fine_server = Some (Ret w') \<and>
    ps_sent w' = [(3, ''300''), (3, ''3000'')]"
  using partial_write_repeats_beginning [where K = cut_net and w = fine_server and s = 5 and c = 3 and fd = 3
      and ?r1.0 = "fst (cut_net (Pit_write 5 ''3000250'') ())" and ?os1.0 = "()"
      and ?r2.0 = "fst (cut_net (Pit_write 5 ''3000'') ())" and ?os2.0 = "()"]
  by (auto simp: cut_net_def fine_net_def fine_server_def Let_def)

lemma openSckt_slots:
  assumes "openSckt K service protocol desc maxDescs w = Ret (ret, desc', n, w')" "length desc = maxDescs"
  shows "slots_filled maxDescs desc' n \<and> (ret = 0 \<or> ret = - 1)"
proof -
  have "slots_filled maxDescs (clear_desc maxDescs desc) 0"
    using assms(2) by (simp add: slots_filled_def clear_desc_eq)
  with assms(1) show ?thesis
    by (auto simp: openSckt_def Let_def dest: open_records_filled split: prod.splits if_splits)
qed

text \<open>
  C29: what \<open>openSckt\<close> promises of its result: whenever it returns, it returns 0 or -1, the array has
  its size, the number of descriptors is at most that size, the slots below it hold a descriptor and
  all others \<open>INVALID_DESC\<close>.
\<close>

theorem openSckt_result_well_formed:
  assumes "openSckt K service protocol desc maxDescs w = Ret (ret, desc', n, w')" "length desc = maxDescs"
  shows "(ret = 0 \<or> ret = - 1) \<and> length desc' = maxDescs \<and> n \<le> maxDescs \<and>
    (\<forall>i. i < maxDescs \<longrightarrow> (desc' ! i = INVALID_DESC \<longleftrightarrow> n \<le> i))"
  using openSckt_slots [OF assms] by (simp add: slots_filled_def)

lemma openSckt_result_well_formed_witness:
  "openSckt fine_net ''9'' ''tcp'' [0, 0] 2 fine_server = Ret (0, [0, - 1], 1, fine_server) \<and> [0, - 1] ! 1 = (- 1 :: int)"
proof -
  have *: "openSckt fine_net ''9'' ''tcp'' [0, 0] 2 fine_server = Ret (0, [0, - 1], 1, fine_server)"
    by (simp add: openSckt_def fine_net_def fine_server_def pcall_def CHK_def Let_def numeral_2_eq_2)
  from openSckt_result_well_formed [OF *] have "[0, - 1] ! 1 = (- 1 :: int)"
    by simp
  with * show ?thesis by (rule conjI)
qed

text \<open>
  C28: the server is a daemon. Started with a port of at most 19 characters on an obliging system, it
  opens its TCP and UDP sockets, at least one of each, and then goes from one round to the next for
  ever: for every number n, the rounds up to the n-th end and the program goes on from there, and it
  never returns, exits or crashes. When somebody asks in every round, at least n answers have been sent
  after n rounds, each a complete time sent for a request on one of the opened sockets.
\<close>

theorem pit_server_serves_for_ever:
  assumes "obliging K" "always_asked K" "\<not> ps_verbose w" "length port < 20" "0 \<le> ps_need w"
  shows "\<exists>td tn w1 ud un w2.
     openSckt K port ''tcp'' [0, 0] 2 (w\<lparr>ps_service_name := port, ps_need := ps_need w + 1\<rparr>) = Ret (0, td, tn, w1) \<and>
     openSckt K port ''udp'' [0, 0] 2 w1 = Ret (0, ud, un, w2) \<and> 0 < tn \<and> 0 < un \<and>
     pit_main K [(CHR ''p'', port)] w = Hang \<and>
     (\<forall>n. \<exists>wn as. rounds K (take tn td) (take un ud) n w2 = Ret wn \<and>
        pit_main K [(CHR ''p'', port)] w = obind (loops (pit_loop K (take tn td) (take un ud) wn)) (\<lambda>w. Ret (0, w)) \<and>
        ps_sent wn = ps_sent w @ as \<and> n \<le> length as \<and> timely (take tn td @ take un ud) as)"
proof -
  let ?w = "w\<lparr>ps_service_name := port, ps_need := ps_need w + 1\<rparr>"
  obtain td tn os where t: "openSckt K port ''tcp'' [0, 0] 2 ?w = Ret (0, td, tn, ?w\<lparr>ps_os := os\<rparr>)" "0 < tn"
    using openSckt_obliging [OF assms(1), of ?w 2 "''tcp''" port "[0, 0]"] assms(3) by auto
  obtain ud un os' where u: "openSckt K port ''udp'' [0, 0] 2 (?w\<lparr>ps_os := os\<rparr>) = Ret (0, ud, un, ?w\<lparr>ps_os := os'\<rparr>)" "0 < un"
    using openSckt_obliging [OF assms(1), of "?w\<lparr>ps_os := os\<rparr>" 2 "''udp''" port "[0, 0]"] assms(3) by auto
  have "length td = 2"
    using openSckt_slots [OF t(1)] by (simp add: slots_filled_def)
  with t(2) have some: "take tn td @ take un ud \<noteq> []" by auto
  have "pit_options [(CHR ''p'', port)] (w\<lparr>ps_service_name := ''PIT''\<rparr>) = Ret ?w"
    using assms(4) by (simp add: c_strcpy_def)
  with t u assms(5) have main: "pit_main K [(CHR ''p'', port)] w =
      obind (loops (pit_loop K (take tn td) (take un ud) (?w\<lparr>ps_os := os'\<rparr>))) (\<lambda>w. Ret (0, w))"
    by (simp add: pit_main_def)
  moreover have "pit_main K [(CHR ''p'', port)] w = Hang"
    unfolding main using pit_loop_runs_on [OF assms(1)] by (simp add: loops_def)
  moreover have "\<exists>wn as. rounds K (take tn td) (take un ud) n (?w\<lparr>ps_os := os'\<rparr>) = Ret wn \<and>
      pit_main K [(CHR ''p'', port)] w = obind (loops (pit_loop K (take tn td) (take un ud) wn)) (\<lambda>w. Ret (0, w)) \<and>
      ps_sent wn = ps_sent w @ as \<and> n \<le> length as \<and> timely (take tn td @ take un ud) as" for n
    unfolding main using rounds_serve [OF assms(1,2) some, of n "?w\<lparr>ps_os := os'\<rparr>"] by fastforce
  ultimately show ?thesis
    using t u by blast
qed

lemma asked_fine: "always_asked fine_net"
  by (auto simp: always_asked_def fine_net_def Let_def image_constant_conv)

lemma pit_server_serves_for_ever_witness:
  "pit_main fine_net [(CHR ''p'', ''9999'')] fine_server = Hang \<and>
   (\<exists>tSckt uSckt w wn. rounds fine_net tSckt uSckt 1000 w = Ret wn \<and> 1000 \<le> length (ps_sent wn))"
proof -
  have "\<not> ps_verbose fine_server" "0 \<le> ps_need fine_server" "length ''9999'' < 20" "ps_sent fine_server = []"
    by (simp_all add: fine_server_def)
  with pit_server_serves_for_ever [OF obliging_fine asked_fine, of fine_server "''9999''"]
  obtain td tn ud un w2 where "pit_main fine_net [(CHR ''p'', ''9999'')] fine_server = Hang"
    "\<forall>n. \<exists>wn as. rounds fine_net (take tn td) (take un ud) n w2 = Ret wn \<and> ps_sent wn = as \<and> n \<le> length as"
    by auto metis
  then show ?thesis by (metis (no_types))
qed

end
