(* ===== verification/Iozone_Text.thy ===== *)
theory Iozone_Text
  imports Iozone_Wire
begin

text \<open>
  Reading text files line by line, as \<open>iozone.c\<close> does for the list of clients and for telemetry
  files: \<open>fgets\<close>, \<open>strtok\<close> and \<open>sscanf\<close> with several conversions. An open file is the text that is
  still to be read.
\<close>

section \<open>Lines\<close>

abbreviation newline :: char where "newline \<equiv> CHR 0x0A"
abbreviation blank_char :: char where "blank_char \<equiv> CHR 0x20"

definition fgets :: "nat \<Rightarrow> string \<Rightarrow> (string \<times> string) option" where
  "fgets n f =
     (if f = [] then None
      else let k = min (n - 1) (length (takeWhile (\<lambda>c. c \<noteq> newline) f) + 1)
           in Some (take k f, drop k f))"

lemma fgets_shorter: "fgets (Suc (Suc n)) f = Some (l, f') \<Longrightarrow> length f' < length f"
  by (auto simp: fgets_def Let_def split: if_splits)

lemma fgets_Nil [simp]: "fgets n [] = None"
  by (simp add: fgets_def)

text \<open>A line that fits, with its newline, is read as a whole.\<close>

lemma fgets_line:
  assumes "newline \<notin> set l" "length l + 1 < n"
  shows "fgets n (l @ newline # f) = Some (l @ [newline], f)"
proof -
  have t: "takeWhile (\<lambda>c. c \<noteq> newline) (l @ newline # f) = l"
    using assms(1) by (subst takeWhile_append2) auto
  have k: "min (n - 1) (length l + 1) = length l + 1"
    using assms(2) by simp
  show ?thesis
    unfolding fgets_def t Let_def k by simp
qed

section \<open>\<open>strtok\<close>\<close>

text \<open>The pieces of a string between blanks. A newline is an ordinary character.\<close>

function pieces :: "string \<Rightarrow> string list" where
  "pieces s = (let s = dropWhile (\<lambda>c. c = blank_char) s
     in if s = [] then [] else takeWhile (\<lambda>c. c \<noteq> blank_char) s # pieces (dropWhile (\<lambda>c. c \<noteq> blank_char) s))"
  by auto
termination
proof (relation "measure length", goal_cases)
  case (2 s x)
  then obtain c cs where x: "x = c # cs" "c \<noteq> blank_char"
    using hd_dropWhile [of "\<lambda>c. c = blank_char" s] by (cases x) fastforce+
  have "length (dropWhile (\<lambda>c. c \<noteq> blank_char) x) \<le> length cs"
    using x by (simp add: length_dropWhile_le)
  also have "\<dots> < length x" using x by simp
  also have "length x \<le> length s" using 2 by (simp add: length_dropWhile_le)
  finally show ?case by simp
qed simp

declare pieces.simps [simp del]

text \<open>The count starts at one before the first call.\<close>

definition count_tokens :: "string \<Rightarrow> nat" where
  "count_tokens s = max 1 (length (pieces s))"

lemma pieces_Nil [simp]: "pieces [] = []"
  by (subst pieces.simps) simp

lemma pieces_word:
  assumes "w \<noteq> []" "blank_char \<notin> set w"
  shows "pieces w = [w]" "pieces (w @ blank_char # s) = w # pieces s"
proof -
  have d: "dropWhile (\<lambda>c. c = blank_char) (w @ s) = w @ s" for s
    using assms by (cases w) auto
  have t: "takeWhile (\<lambda>c. c \<noteq> blank_char) (w @ blank_char # s) = w"
    "dropWhile (\<lambda>c. c \<noteq> blank_char) (w @ blank_char # s) = blank_char # s"
    using assms(2) by (subst takeWhile_append2 dropWhile_append2; auto)+
  have u: "takeWhile (\<lambda>c. c \<noteq> blank_char) w = w" "dropWhile (\<lambda>c. c \<noteq> blank_char) w = []"
    using assms(2) by (auto simp: takeWhile_eq_all_conv dropWhile_eq_Nil_conv)
  have "pieces (dropWhile (\<lambda>c. c \<noteq> blank_char) w) = []"
    unfolding u(2) by (rule pieces_Nil)
  then show "pieces w = [w]"
    using assms(1) d [of "[]"] u(1) by (subst pieces.simps) simp
  have "pieces (blank_char # s) = pieces s"
    by (subst (1 2) pieces.simps) simp
  then show "pieces (w @ blank_char # s) = w # pieces s"
    using assms(1) d [of "blank_char # s"] t by (subst pieces.simps) simp
qed

section \<open>\<open>sscanf\<close>\<close>

text \<open>Up to \<open>k\<close> words or numbers, one after the other; a conversion that fails ends the scan.\<close>

fun scan_words :: "nat \<Rightarrow> string \<Rightarrow> string list" where
  "scan_words 0 s = []"
| "scan_words (Suc k) s =
     (let s = dropWhile is_space s; w = takeWhile (\<lambda>c. \<not> is_space c) s
      in if w = [] then [] else w # scan_words k (drop (length w) s))"

definition after_number :: "string \<Rightarrow> string" where
  "after_number str =
     (let s = dropWhile is_space str;
          s = (if s \<noteq> [] \<and> (hd s = CHR ''-'' \<or> hd s = CHR ''+'') then tl s else s)
      in dropWhile is_digit s)"

fun scan_numbers :: "nat \<Rightarrow> string \<Rightarrow> int list" where
  "scan_numbers 0 s = []"
| "scan_numbers (Suc k) s =
     (case scan_number s of None \<Rightarrow> [] | Some v \<Rightarrow> v # scan_numbers k (after_number s))"

lemma scan_words_word:
  assumes "w \<noteq> []" "\<forall>c \<in> set w. \<not> is_space c" "is_space b"
  shows "scan_words (Suc k) (w @ b # s) = w # scan_words k (b # s)"
proof -
  have "dropWhile is_space (w @ b # s) = w @ b # s"
    using assms by (cases w) auto
  moreover have "takeWhile (\<lambda>c. \<not> is_space c) (w @ b # s) = w"
    using assms(2, 3) by (subst takeWhile_append2) auto
  ultimately show ?thesis
    using assms(1) by (simp add: Let_def)
qed

lemma scan_words_space [simp]: "is_space b \<Longrightarrow> scan_words k (b # s) = scan_words k s"
  by (cases k) simp_all

lemma scan_words_Nil [simp]: "scan_words k [] = []"
  by (cases k) simp_all

lemma scan_number_space:
  assumes "is_space b"
  shows "scan_number (b # s) = scan_number s" "after_number (b # s) = after_number s"
proof -
  have d: "dropWhile is_space (b # s) = dropWhile is_space s" using assms by simp
  show "scan_number (b # s) = scan_number s" "after_number (b # s) = after_number s"
    unfolding scan_number_def after_number_def d by (rule refl)+
qed

lemma scan_numbers_space [simp]: "is_space b \<Longrightarrow> scan_numbers k (b # s) = scan_numbers k s"
  by (cases k) (simp_all add: scan_number_space split: option.split)

lemma scan_numbers_Nil [simp]: "scan_numbers k [] = []"
  by (cases k) (simp_all add: scan_number_def)

lemma scan_numbers_show_int:
  assumes "\<not> is_digit b"
  shows "scan_numbers (Suc k) (show_int x @ b # s) = x # scan_numbers k (b # s)"
proof -
  let ?n = "nat \<bar>x\<bar>"
  obtain c cs where c: "show_nat ?n = c # cs" "is_digit c"
    using show_nat_Cons by blast
  have sh: "show_int x = (if x < 0 then CHR ''-'' # show_nat ?n else show_nat ?n)"
    by (simp add: show_int_def)
  have d: "takeWhile is_digit (show_nat ?n @ b # s) = show_nat ?n"
    "dropWhile is_digit (show_nat ?n @ b # s) = b # s"
    using show_nat_digits [of ?n] assms by (auto simp: takeWhile_append2 dropWhile_append2)
  have m: "\<not> is_space (CHR ''-'')" by (simp add: is_space_def)
  have n: "\<not> is_space c" "c \<noteq> CHR ''-''" "c \<noteq> CHR ''+''"
    using digit_not_special [OF c(2)] by auto
  have "scan_number (show_int x @ b # s) = Some x" "after_number (show_int x @ b # s) = b # s"
    using d n m c(1) digits_val_show_nat [of ?n]
    by (auto simp: scan_number_def after_number_def sh Let_def)
  then show ?thesis by simp
qed

end
