(* ===== verification/Iozone_Roster.thy ===== *)
theory Iozone_Roster
  imports Iozone_Text Iozone_Messages
begin

text \<open>
  The list of clients of the distributed mode of \<open>iozone.c\<close>: \<open>get_client_info\<close> reads the file of
  the option \<open>-+m\<close> into the array \<open>child_idents\<close> of 1024 elements, one client a line.
\<close>

section \<open>The code\<close>

text \<open>
  The state is the array and the flag \<open>mfflag\<close>, a \<open>char\<close>, which counts the lines that name a file.
  The index is not checked; the members have 100, 200, 200 and 200 bytes.
\<close>

type_synonym roster = "(nat \<Rightarrow> child_ident) \<times> int"

definition fill_ident :: "string list \<Rightarrow> child_ident \<Rightarrow> child_ident outcome" where
  "fill_ident ws ci =
     (let field = (\<lambda>i cap old. if i < length ws then c_strcpy cap (ws ! i) else Ret old)
      in obind (field 0 100 (ci_child_name ci)) (\<lambda>name.
         obind (field 1 200 (ci_workdir ci)) (\<lambda>workdir.
         obind (field 2 200 (ci_execute_path ci)) (\<lambda>path.
         obind (field 3 200 (ci_file_name ci)) (\<lambda>file.
         Ret (ci\<lparr>ci_child_name := name, ci_workdir := workdir, ci_execute_path := path, ci_file_name := file\<rparr>))))))"

definition parse_client_line :: "string \<Rightarrow> nat \<Rightarrow> roster \<Rightarrow> (nat \<times> roster) outcome" where
  "parse_client_line buffer line_num st =
     (let s = takeWhile (\<lambda>c. c \<noteq> nul) buffer; ws = scan_words 4 s
      in if take 1 s = ''#'' then Ret (0, st)
         else if ws = [] then Exit 203
         else if \<not> line_num < 1024 then Crash BufferOverflow
         else obind (fill_ident ws (fst st line_num)) (\<lambda>ci.
              if length ws \<noteq> 3 \<and> length ws \<noteq> 4 then Exit 203
              else Ret (1, ((fst st)(line_num := ci),
                            if length ws = 4 then cast CChar (snd st + 1) else snd st))))"

function client_lines :: "string \<Rightarrow> nat \<Rightarrow> roster \<Rightarrow> (nat \<times> roster) outcome" where
  "client_lines f num st =
     (if 1024 < num then Exit 7
      else case fgets 800 f of None \<Rightarrow> Ret (num, st)
      | Some (buffer, f) \<Rightarrow> obind (parse_client_line buffer num st) (\<lambda>(n, st). client_lines f (num + n) st))"
  by auto
termination
  by (relation "measure (\<lambda>(f, num, st). length f)") (auto simp: numeral_eq_Suc dest!: fgets_shorter)

declare client_lines.simps [simp del]

text \<open>\<open>None\<close> is a file that cannot be opened.\<close>

definition get_client_info :: "string option \<Rightarrow> roster \<Rightarrow> (nat \<times> roster) outcome" where
  "get_client_info file st = (case file of None \<Rightarrow> Exit 176 | Some f \<Rightarrow> client_lines f 0 st)"

section \<open>What a file says\<close>

text \<open>A comment, or a client with its directory, the path of the program and perhaps a file.\<close>

datatype roster_line = Remark string | Client string string string "string option"

definition word :: "nat \<Rightarrow> string \<Rightarrow> bool" where
  "word cap w \<longleftrightarrow> w \<noteq> [] \<and> length w < cap \<and> (\<forall>c \<in> set w. \<not> is_space c \<and> c \<noteq> nul)"

fun line_ok :: "roster_line \<Rightarrow> bool" where
  "line_ok (Remark s) = (newline \<notin> set s \<and> length s < 798)"
| "line_ok (Client name dir path fo) =
     (word 100 name \<and> hd name \<noteq> CHR ''#'' \<and> word 200 dir \<and> word 200 path \<and>
      (case fo of None \<Rightarrow> True | Some w \<Rightarrow> word 200 w))"

fun line_text :: "roster_line \<Rightarrow> string" where
  "line_text (Remark s) = CHR ''#'' # s @ [newline]"
| "line_text (Client name dir path fo) = name @ blank_char # dir @ blank_char # path @
     (case fo of None \<Rightarrow> [] | Some w \<Rightarrow> blank_char # w) @ [newline]"

fun ident_of :: "roster_line \<Rightarrow> child_ident \<Rightarrow> child_ident" where
  "ident_of (Remark s) ci = ci"
| "ident_of (Client name dir path fo) ci = ci\<lparr>ci_child_name := name, ci_workdir := dir,
     ci_execute_path := path, ci_file_name := (case fo of None \<Rightarrow> ci_file_name ci | Some w \<Rightarrow> w)\<rparr>"

fun names_file :: "roster_line \<Rightarrow> bool" where
  "names_file (Client name dir path (Some w)) = True"
| "names_file _ = False"

definition is_client :: "roster_line \<Rightarrow> bool" where
  "is_client l \<longleftrightarrow> (\<forall>s. l \<noteq> Remark s)"

fun enter :: "roster_line list \<Rightarrow> nat \<Rightarrow> roster \<Rightarrow> roster" where
  "enter [] n st = st"
| "enter (Remark s # ls) n st = enter ls n st"
| "enter (l # ls) n st = enter ls (n + 1) ((fst st)(n := ident_of l (fst st n)),
     if names_file l then cast CChar (snd st + 1) else snd st)"

lemma wordD: "word cap w \<Longrightarrow> w \<noteq> [] \<and> length w < cap \<and> (\<forall>c \<in> set w. \<not> is_space c) \<and> nul \<notin> set w"
  by (auto simp: word_def)

lemma spaces [simp]: "is_space newline" "is_space blank_char" "is_space nul = False"
  by (simp_all add: is_space_def)

lemma newline_notin: "\<forall>c \<in> set w. \<not> is_space c \<Longrightarrow> newline \<notin> set w"
  by (metis spaces(1))

lemma line_text_fgets:
  assumes "line_ok l"
  shows "fgets 800 (line_text l @ f) = Some (line_text l, f)"
proof (cases l)
  case (Remark s)
  then show ?thesis
    using fgets_line [of "CHR ''#'' # s" 800 f] assms by simp
next
  case (Client name dir path fo)
  let ?l = "name @ blank_char # dir @ blank_char # path @ (case fo of None \<Rightarrow> [] | Some w \<Rightarrow> blank_char # w)"
  have "newline \<notin> set ?l" "length ?l + 1 < 800"
    using assms Client by (auto dest!: wordD newline_notin split: option.splits)
  from fgets_line [OF this, of f] Client show ?thesis by simp
qed

lemma scan_client:
  assumes "line_ok (Client name dir path fo)"
  shows "scan_words 4 (line_text (Client name dir path fo)) =
    name # dir # path # (case fo of None \<Rightarrow> [] | Some w \<Rightarrow> [w])"
proof -
  have w: "name \<noteq> []" "\<forall>c \<in> set name. \<not> is_space c" "dir \<noteq> []" "\<forall>c \<in> set dir. \<not> is_space c"
      "path \<noteq> []" "\<forall>c \<in> set path. \<not> is_space c"
    using assms by (auto dest!: wordD)
  show ?thesis
  proof (cases fo)
    case None
    then show ?thesis
      using w by (simp add: numeral_eq_Suc scan_words_word del: scan_words.simps)
  next
    case (Some u)
    then have "u \<noteq> []" "\<forall>c \<in> set u. \<not> is_space c"
      using assms by (auto dest!: wordD)
    with Some w show ?thesis
      by (simp add: numeral_eq_Suc scan_words_word del: scan_words.simps)
  qed
qed

lemma parse_line:
  assumes "line_ok l" "is_client l \<Longrightarrow> n < 1024"
  shows "parse_client_line (line_text l) n st =
    Ret (if is_client l then 1 else 0, enter [l] n st)"
proof (cases l)
  case (Remark s)
  then show ?thesis by (simp add: parse_client_line_def is_client_def)
next
  case (Client name dir path fo)
  have n: "nul \<notin> set (line_text l)"
    using assms(1) Client by (auto dest!: wordD split: option.splits)
  then have t: "takeWhile (\<lambda>c. c \<noteq> nul) (line_text l) = line_text l"
    by (auto simp: takeWhile_eq_all_conv)
  have h: "take 1 (line_text l) \<noteq> ''#''"
    using assms(1) Client by (cases name) (auto dest: wordD)
  have c: "is_client l" using Client by (simp add: is_client_def)
  have W: "scan_words 4 (takeWhile (\<lambda>c. c \<noteq> nul) (line_text l)) =
      name # dir # path # (case fo of None \<Rightarrow> [] | Some w \<Rightarrow> [w])"
    unfolding t unfolding Client by (rule scan_client [OF assms(1) [unfolded Client]])
  have e: "enter [l] n st = ((fst st)(n := (fst st n)\<lparr>ci_child_name := name, ci_workdir := dir,
       ci_execute_path := path, ci_file_name := (case fo of None \<Rightarrow> ci_file_name (fst st n) | Some w \<Rightarrow> w)\<rparr>),
     if fo \<noteq> None then cast CChar (snd st + 1) else snd st)"
    unfolding Client by (cases fo) simp_all
  have h': "take 1 (takeWhile (\<lambda>c. c \<noteq> nul) (line_text l)) \<noteq> ''#''"
    unfolding t by (rule h)
  have w: "length name < 100" "length dir < 200" "length path < 200" "\<And>w. fo = Some w \<Longrightarrow> length w < 200"
    using assms(1) Client by (auto dest!: wordD)
  show ?thesis
    using w c assms(2) h' unfolding parse_client_line_def Let_def W e
    by (cases fo) (auto simp: fill_ident_def c_strcpy_def)
qed

lemma client_lines_enter:
  assumes "\<forall>l \<in> set ls. line_ok l" "n + length (filter is_client ls) \<le> 1024"
  shows "client_lines (concat (map line_text ls)) n st =
    Ret (n + length (filter is_client ls), enter ls n st)"
  using assms
proof (induction ls arbitrary: n st)
  case Nil
  then show ?case by (simp add: client_lines.simps)
next
  case (Cons l ls)
  have "parse_client_line (line_text l) n st = Ret (if is_client l then 1 else 0, enter [l] n st)"
    using Cons.prems by (intro parse_line) (auto split: if_splits)
  moreover have "fgets 800 (line_text l @ concat (map line_text ls)) = Some (line_text l, concat (map line_text ls))"
    using Cons.prems by (intro line_text_fgets) simp
  moreover have "enter (l # ls) n st = enter ls (n + (if is_client l then 1 else 0)) (enter [l] n st)"
    by (cases l) (simp_all add: is_client_def)
  ultimately show ?case
    using Cons.prems Cons.IH [of "n + (if is_client l then 1 else 0)" "enter [l] n st"]
    by (subst client_lines.simps) (auto split: if_splits)
qed

text \<open>What the array holds after all lines: the k-th client at index k.\<close>

lemma enter_idents:
  "fst (enter ls n st) = (\<lambda>i. if n \<le> i \<and> i < n + length (filter is_client ls)
     then ident_of (filter is_client ls ! (i - n)) (fst st i) else fst st i)"
proof (induction ls n st rule: enter.induct)
  case (3 n st v va vb vc ls)
  then show ?case
    by (auto simp: is_client_def fun_eq_iff nth_Cons' Let_def)
qed (auto simp: is_client_def fun_eq_iff)

lemma cast_step: "cast CChar (cast CChar (x + 1) + y) = cast CChar (x + (1 + y))"
  using signed_take_bit_add [of 7 "signed_take_bit 7 (x + 1)" y] signed_take_bit_add [of 7 "x + 1" y]
  by (simp add: ac_simps)

lemma enter_flag:
  "snd (enter ls n st) = (if filter names_file ls = [] then snd st
     else cast CChar (snd st + int (length (filter names_file ls))))"
proof (induction ls n st rule: enter.induct)
  case (3 n st v va vb vc ls)
  then show ?case by (simp add: cast_step del: cast.simps)
qed simp_all

end
