(* ===== verification/Iozone_Telemetry.thy ===== *)
theory Iozone_Telemetry
  imports Iozone_Text
begin

text \<open>
  The telemetry files of \<open>iozone.c\<close>: an entry gives the offset and the size of an operation and
  perhaps a delay in milliseconds. \<open>r_traj_size\<close> and \<open>w_traj_size\<close> count the entries and find the
  size of the file in advance, the tests then ask \<open>get_traj\<close> for one entry after the other.
\<close>

section \<open>The code\<close>

text \<open>
  Lines are read into 200 bytes. A line that begins with \<open>#\<close> or is empty is skipped. \<open>signal_handler\<close>
  cleans up and ends the process with \<open>exit_code\<close>.
\<close>

definition c_text :: "string \<Rightarrow> string" where
  "c_text buf = takeWhile (\<lambda>c. c \<noteq> nul) buf"

definition skipped :: "string \<Rightarrow> bool" where
  "skipped s \<longleftrightarrow> take 1 s = ''#'' \<or> take 1 s = [newline]"

function next_entry :: "string \<Rightarrow> (string \<times> string) option" where
  "next_entry f =
     (case fgets 200 f of None \<Rightarrow> None
      | Some (buf, f) \<Rightarrow> if skipped (c_text buf) then next_entry f else Some (c_text buf, f))"
  by auto
termination
  by (relation "measure length") (auto simp: numeral_eq_Suc dest!: fgets_shorter)

declare next_entry.simps [simp del]

definition scanned :: "int list \<Rightarrow> nat \<Rightarrow> int \<Rightarrow> int" where
  "scanned ns i old = (if i < length ns then saturate64 (ns ! i) else old)"

text \<open>\<open>milli\<close> is the conversion of milliseconds to a \<open>float\<close>; the results are offset, size, delay.\<close>

definition get_traj :: "int \<Rightarrow> (int \<Rightarrow> 'f) \<Rightarrow> 'f \<Rightarrow> string \<Rightarrow> (int \<times> int \<times> 'f \<times> string) outcome" where
  "get_traj exit_code milli compute_time f =
     (case next_entry f of None \<Rightarrow> Exit exit_code
      | Some (s, f) \<Rightarrow>
          let tokens = count_tokens s; ns = scan_numbers tokens s
          in if tokens \<noteq> 2 \<and> tokens \<noteq> 3 then Exit 178
             else if dropWhile is_space s = [] then Exit exit_code
             else Ret (scanned ns 0 0, scanned ns 1 0,
               if tokens = 3 then milli (signed_take_bit 31 (scanned ns 2 0)) else compute_time, f))"

text \<open>The offset and the size of the line before stay when \<open>sscanf\<close> finds no number.\<close>

function traj_loop :: "int \<Rightarrow> int \<Rightarrow> string \<Rightarrow> int \<Rightarrow> int \<Rightarrow> int \<Rightarrow> int \<Rightarrow> (int \<times> int) outcome" where
  "traj_loop exit_code bad f traj_offset traj_size max_offset ops =
     (case fgets 200 f of None \<Rightarrow> Ret (max_offset, ops)
      | Some (buf, f) \<Rightarrow>
          let s = c_text buf; tokens = count_tokens s; ns = scan_numbers tokens s
          in if skipped s then traj_loop exit_code bad f traj_offset traj_size max_offset ops
             else if tokens = 1 then Exit exit_code
             else if tokens \<noteq> 2 \<and> tokens \<noteq> 3 then Exit bad
             else let traj_offset = scanned ns 0 traj_offset; traj_size = scanned ns 1 traj_size;
                      e = signed_take_bit 63 (traj_offset + traj_size)
                  in traj_loop exit_code bad f traj_offset traj_size (if max_offset < e then e else max_offset) (ops + 1))"
  by auto
termination
  by (relation "measure (\<lambda>(ec, bad, f, x, n, max_offset, ops). length f)")
    (auto simp: numeral_eq_Suc dest!: fgets_shorter)

declare traj_loop.simps [simp del]

text \<open>The results are the size of the file and the number of entries, which is added to the global's.\<close>

definition r_traj_size :: "int \<Rightarrow> string option \<Rightarrow> int \<Rightarrow> (int \<times> int) outcome" where
  "r_traj_size exit_code opened r_traj_ops =
     (case opened of None \<Rightarrow> Exit 174 | Some f \<Rightarrow> traj_loop exit_code 178 f 0 0 0 r_traj_ops)"

definition w_traj_size :: "int \<Rightarrow> string option \<Rightarrow> int \<Rightarrow> (int \<times> int) outcome" where
  "w_traj_size exit_code opened w_traj_ops =
     (case opened of None \<Rightarrow> Exit 174 | Some f \<Rightarrow> traj_loop exit_code 174 f 0 0 0 w_traj_ops)"

definition open_r_traj :: "string option \<Rightarrow> string outcome" where
  "open_r_traj opened = (case opened of None \<Rightarrow> Exit 174 | Some f \<Rightarrow> Ret f)"

definition open_w_traj :: "string option \<Rightarrow> string outcome" where
  "open_w_traj opened = (case opened of None \<Rightarrow> Exit 175 | Some f \<Rightarrow> Ret f)"

text \<open>A file for reading without an entry ends \<open>traj_vers\<close> before it looks at the other one.\<close>

definition traj_vers ::
  "bool \<Rightarrow> bool \<Rightarrow> string option \<Rightarrow> string option \<Rightarrow> nat \<times> nat \<Rightarrow> (nat \<times> nat) outcome"
where
  "traj_vers r_traj_flag w_traj_flag r_opened w_opened items =
     (let items_of = (\<lambda>f. map_option (\<lambda>(s, _). count_tokens s) (next_entry f));
          write = (\<lambda>items. if \<not> w_traj_flag then Ret items
            else case w_opened of None \<Rightarrow> Exit 174
              | Some f \<Rightarrow> (case items_of f of None \<Rightarrow> Ret items | Some n \<Rightarrow> Ret (fst items, n)))
      in if \<not> r_traj_flag then write items
         else case r_opened of None \<Rightarrow> Exit 174
           | Some f \<Rightarrow> (case items_of f of None \<Rightarrow> Ret items | Some n \<Rightarrow> write (n, snd items)))"

section \<open>What a file says\<close>

datatype traj_line = Skip string | Entry int int "int option"

definition entry_text :: "int \<Rightarrow> int \<Rightarrow> int option \<Rightarrow> string" where
  "entry_text x n d = show_int x @ blank_char # show_int n @
     (case d of None \<Rightarrow> [] | Some m \<Rightarrow> blank_char # show_int m)"

fun traj_text :: "traj_line \<Rightarrow> string" where
  "traj_text (Skip s) = s @ [newline]"
| "traj_text (Entry x n d) = entry_text x n d @ [newline]"

fun traj_ok :: "traj_line \<Rightarrow> bool" where
  "traj_ok (Skip s) = (newline \<notin> set s \<and> length s < 199 \<and> (s = [] \<or> hd s = CHR ''#''))"
| "traj_ok (Entry x n d) = (0 \<le> x \<and> 0 \<le> n \<and> x + n < 2 ^ 63 \<and>
     (case d of None \<Rightarrow> True | Some m \<Rightarrow> 0 \<le> m \<and> m < 2 ^ 31))"

fun entries :: "traj_line list \<Rightarrow> (int \<times> int \<times> int option) list" where
  "entries [] = []"
| "entries (Skip s # ls) = entries ls"
| "entries (Entry x n d # ls) = (x, n, d) # entries ls"

abbreviation traj_file :: "traj_line list \<Rightarrow> string" where
  "traj_file ls \<equiv> concat (map traj_text ls)"

section \<open>A line that is read\<close>

lemma length_show_nat: "n < 10 ^ k \<Longrightarrow> 0 < k \<Longrightarrow> length (show_nat n) \<le> k"
proof (induction n arbitrary: k rule: show_nat.induct)
  case (1 n)
  show ?case
  proof (cases "n < 10")
    case True
    then show ?thesis using 1 by (subst show_nat.simps) simp
  next
    case False
    with 1 have k: "1 < k" by (cases "k = 1") auto
    obtain j where j: "k = Suc j" using k by (cases k) auto
    then have "n div 10 < 10 ^ (k - 1)"
      using 1(2) by (intro less_mult_imp_div_less) (simp add: mult.commute)
    with 1(1) [OF False this] k have "length (show_nat (n div 10)) \<le> k - 1" by simp
    with False k show ?thesis by (subst show_nat.simps) simp
  qed
qed

lemma length_show_int: "0 \<le> x \<Longrightarrow> x < 2 ^ 63 \<Longrightarrow> length (show_int x) \<le> 19"
  using length_show_nat [of "nat x" 19] by (simp add: show_int_def)

lemma digit_chars [simp]: "\<not> is_digit newline" "\<not> is_digit blank_char" "\<not> is_digit nul" "\<not> is_digit (CHR ''#'')"
  "is_space newline" "is_space blank_char"
  by (simp_all add: is_digit_def is_space_def)

lemma show_int_word:
  assumes "0 \<le> x"
  shows "show_int x \<noteq> []" "\<forall>c \<in> set (show_int x). is_digit c" "newline \<notin> set (show_int x)"
    "blank_char \<notin> set (show_int x)" "nul \<notin> set (show_int x)" "is_digit (hd (show_int x))"
proof -
  have s: "show_int x = show_nat (nat x)" using assms by (simp add: show_int_def)
  show d: "\<forall>c \<in> set (show_int x). is_digit c" unfolding s by (rule show_nat_digits)
  show "show_int x \<noteq> []" unfolding s by simp
  then show "is_digit (hd (show_int x))" using d by simp
  show "newline \<notin> set (show_int x)" "blank_char \<notin> set (show_int x)" "nul \<notin> set (show_int x)"
    using d digit_chars by metis+
qed

lemma entry_facts:
  assumes "traj_ok (Entry x n d)"
  shows "newline \<notin> set (entry_text x n d)" "length (entry_text x n d) + 1 < 200"
    "nul \<notin> set (entry_text x n d)" "is_digit (hd (entry_text x n d))" "entry_text x n d \<noteq> []"
proof -
  have p: "0 \<le> x" "0 \<le> n" "x < 2 ^ 63" "n < 2 ^ 63" "\<And>m. d = Some m \<Longrightarrow> 0 \<le> m \<and> m < 2 ^ 63"
    using assms by (auto split: option.splits)
  note w = show_int_word [OF p(1)] show_int_word [OF p(2)]
  show "newline \<notin> set (entry_text x n d)" "nul \<notin> set (entry_text x n d)"
    using w p(5) show_int_word by (auto simp: entry_text_def split: option.splits)
  show "length (entry_text x n d) + 1 < 200"
    using length_show_int [OF p(1,3)] length_show_int [OF p(2,4)] length_show_int p(5)
    by (fastforce simp: entry_text_def split: option.splits)
  show "is_digit (hd (entry_text x n d))" "entry_text x n d \<noteq> []"
    using w by (simp_all add: entry_text_def)
qed

lemma entry_pieces:
  assumes "traj_ok (Entry x n d)"
  shows "count_tokens (entry_text x n d @ [newline]) = (if d = None then 2 else 3)"
proof -
  have "0 \<le> x" "0 \<le> n" using assms by auto
  note w = show_int_word [OF this(1)] show_int_word [OF this(2)]
  have x: "pieces (show_int x @ blank_char # s) = show_int x # pieces s" for s
    using w by (intro pieces_word(2))
  show ?thesis
  proof (cases d)
    case None
    have "pieces (show_int n @ [newline]) = [show_int n @ [newline]]"
      using w by (intro pieces_word(1)) auto
    with x None show ?thesis by (simp add: count_tokens_def entry_text_def)
  next
    case (Some m)
    with assms have m: "0 \<le> m" by simp
    have "pieces (show_int n @ blank_char # show_int m @ [newline]) = [show_int n, show_int m @ [newline]]"
      using w show_int_word [OF m] by (subst pieces_word(2), simp_all) (rule pieces_word(1), auto)
    with x Some show ?thesis by (simp add: count_tokens_def entry_text_def)
  qed
qed

lemma entry_numbers:
  assumes "traj_ok (Entry x n d)" "k = (if d = None then 2 else 3)"
  shows "scan_numbers k (entry_text x n d @ [newline]) = x # n # (case d of None \<Rightarrow> [] | Some m \<Rightarrow> [m])"
  using assms(2)
  by (cases d) (simp_all add: entry_text_def numeral_eq_Suc scan_numbers_show_int del: scan_numbers.simps)

lemma traj_line_fgets:
  assumes "traj_ok l"
  shows "fgets 200 (traj_text l @ f) = Some (traj_text l, f)"
proof (cases l)
  case (Skip s)
  then show ?thesis using fgets_line [of s 200 f] assms by simp
next
  case (Entry x n d)
  with assms have ok: "traj_ok (Entry x n d)" by simp
  from fgets_line [OF entry_facts(1,2) [OF ok], of f] Entry show ?thesis by simp
qed

lemma traj_line_skipped: "traj_ok (Skip s) \<Longrightarrow> skipped (c_text (s @ [newline]))"
  by (cases s) (auto simp: skipped_def c_text_def)

lemma traj_line_entry:
  assumes "traj_ok (Entry x n d)"
  shows "c_text (entry_text x n d @ [newline]) = entry_text x n d @ [newline]"
    "\<not> skipped (entry_text x n d @ [newline])" "dropWhile is_space (entry_text x n d @ [newline]) \<noteq> []"
proof -
  note e = entry_facts [OF assms]
  show "c_text (entry_text x n d @ [newline]) = entry_text x n d @ [newline]"
    using e(3) by (auto simp: c_text_def takeWhile_eq_all_conv)
  have "hd (entry_text x n d) \<noteq> CHR ''#''" "hd (entry_text x n d) \<noteq> newline" "\<not> is_space (hd (entry_text x n d))"
    using e(4) digit_not_special by auto
  then show "\<not> skipped (entry_text x n d @ [newline])" "dropWhile is_space (entry_text x n d @ [newline]) \<noteq> []"
    using e(5) by (cases "entry_text x n d"; auto simp: skipped_def)+
qed

lemma entry_scanned:
  assumes "traj_ok (Entry x n d)" "ns = x # n # (case d of None \<Rightarrow> [] | Some m \<Rightarrow> [m])"
  shows "scanned ns 0 a = x" "scanned ns 1 b = n" "d = Some m \<Longrightarrow> signed_take_bit 31 (scanned ns 2 c) = m"
  using assms by (auto simp: scanned_def signed_take_bit_int_eq_self)

section \<open>The whole file\<close>

lemma traj_loop_entries:
  assumes "\<forall>l \<in> set ls. traj_ok l"
  shows "traj_loop exit_code bad (traj_file ls) x0 n0 mx ops =
    Ret (fold (\<lambda>(x, n, d) m. max m (x + n)) (entries ls) mx, ops + int (length (entries ls)))"
  using assms
proof (induction ls arbitrary: x0 n0 mx ops)
  case Nil
  then show ?case by (simp add: traj_loop.simps)
next
  case (Cons l ls)
  have g: "fgets 200 (traj_text l @ traj_file ls) = Some (traj_text l, traj_file ls)"
    using Cons.prems by (intro traj_line_fgets) simp
  show ?case
  proof (cases l)
    case (Skip s)
    with Cons g traj_line_skipped [of s] show ?thesis
      by (subst traj_loop.simps) (simp add: Let_def)
  next
    case (Entry x n d)
    with Cons.prems have ok: "traj_ok (Entry x n d)" by simp
    then have e: "signed_take_bit 63 (x + n) = x + n"
      by (intro signed_take_bit_int_eq_self) auto
    have t: "(if d = None then 2 else 3 :: nat) \<noteq> 1" by simp
    from Cons Entry g e show ?thesis
      using traj_line_entry [OF ok] entry_pieces [OF ok] entry_numbers [OF ok refl]
        entry_scanned(1,2) [OF ok refl]
      by (subst traj_loop.simps) (simp add: Let_def max_def)
  qed
qed

text \<open>Asking for one entry after the other, as the tests do.\<close>

fun play :: "int \<Rightarrow> (int \<Rightarrow> 'f) \<Rightarrow> 'f \<Rightarrow> nat \<Rightarrow> string \<Rightarrow> (int \<times> int \<times> 'f) list outcome" where
  "play exit_code milli compute_time 0 f = Ret []"
| "play exit_code milli compute_time (Suc n) f =
     obind (get_traj exit_code milli compute_time f) (\<lambda>(x, s, d, f).
     obind (play exit_code milli compute_time n f) (\<lambda>es. Ret ((x, s, d) # es)))"

lemma get_traj_skip:
  assumes "traj_ok (Skip s)"
  shows "get_traj exit_code milli compute_time (s @ newline # f) = get_traj exit_code milli compute_time f"
proof -
  have "next_entry (s @ newline # f) = next_entry f"
    using traj_line_fgets [OF assms, of f] traj_line_skipped [OF assms]
    by (subst next_entry.simps) simp
  then show ?thesis by (simp add: get_traj_def)
qed

lemma get_traj_entry:
  assumes ok: "traj_ok (Entry x n d)"
  shows "get_traj exit_code milli compute_time (entry_text x n d @ newline # f) =
    Ret (x, n, case d of None \<Rightarrow> compute_time | Some m \<Rightarrow> milli m, f)"
proof -
  have "next_entry (entry_text x n d @ newline # f) = Some (entry_text x n d @ [newline], f)"
    using traj_line_fgets [OF ok, of f] traj_line_entry [OF ok]
    by (subst next_entry.simps) simp
  then show ?thesis
    using traj_line_entry [OF ok] entry_pieces [OF ok] entry_numbers [OF ok refl] entry_scanned [OF ok refl]
    by (cases d) (simp_all add: get_traj_def Let_def)
qed

lemma play_entries:
  assumes "\<forall>l \<in> set ls. traj_ok l"
  shows "play exit_code milli compute_time (length (entries ls)) (traj_file ls) =
    Ret (map (\<lambda>(x, n, d). (x, n, case d of None \<Rightarrow> compute_time | Some m \<Rightarrow> milli m)) (entries ls))"
  using assms
proof (induction ls)
  case (Cons l ls)
  show ?case
  proof (cases l)
    case (Skip s)
    with Cons show ?thesis by (cases "length (entries ls)") (simp_all add: get_traj_skip)
  next
    case (Entry x n d)
    with Cons show ?thesis by (simp add: get_traj_entry)
  qed
qed simp

lemma fold_max_bound:
  "m \<le> fold (\<lambda>(x, n, d) m. max m (x + n)) es (m :: int) \<and>
   (\<forall>(x, n, d) \<in> set es. x + n \<le> fold (\<lambda>(x, n, d) m. max m (x + n)) es m)"
proof (induction es arbitrary: m)
  case (Cons e es)
  obtain x n d where e: "e = (x, n, d)" by (cases e)
  from Cons [of "max m (x + n)"] e show ?case by auto
qed simp

lemma fold_max_attained:
  "fold (\<lambda>(x, n, d) m. max m (x + n)) es (m :: int) = m \<or>
   (\<exists>(x, n, d) \<in> set es. fold (\<lambda>(x, n, d) m. max m (x + n)) es m = x + n)"
proof (induction es arbitrary: m)
  case (Cons e es)
  obtain x n d where e: "e = (x, n, d)" by (cases e)
  from Cons [of "max m (x + n)"] e show ?case by (auto simp: max_def split: if_splits)
qed simp

end
