(* ===== verification/Iozone_Sizes.thy ===== *)
theory Iozone_Sizes
  imports Iozone_Wire
begin

text \<open>
  The automatic mode of \<open>iozone.c\<close>: \<open>auto_test\<close> runs \<open>begin\<close> for every size of file and every size of
  record. The branches are those of a Linux system with \<open>HAVE_PREAD\<close> and without \<open>HAVE_PREADV\<close>. The
  tests themselves are a parameter, and so are the calls that remove the test file.
\<close>

section \<open>The lists of sizes\<close>

text \<open>\<open>add_file_size\<close> and \<open>add_record_size\<close> append; \<open>malloc\<close> does not fail.\<close>

definition add_size :: "int \<Rightarrow> int list \<Rightarrow> int list" where
  "add_size n xs = xs @ [n]"

text \<open>The first entry that is larger than the current size, 0 if there is none.\<close>

fun get_next_size :: "int list \<Rightarrow> int \<Rightarrow> int" where
  "get_next_size [] n = 0"
| "get_next_size (x # xs) n = (if n < x then x else get_next_size xs n)"

abbreviation wrap64 :: "int \<Rightarrow> int" where
  "wrap64 x \<equiv> signed_take_bit 63 x"

partial_function (option) size_loop :: "int \<Rightarrow> int \<Rightarrow> int \<Rightarrow> int list \<Rightarrow> int list outcome option" where
  "size_loop multiplier n mx xs =
     (if n \<le> mx then size_loop multiplier (wrap64 (n * multiplier)) mx (add_size n xs) else Some (Ret xs))"

text \<open>\<open>range\<close> holds the sizes that were given one by one, if more than one was.\<close>

definition init_sizes :: "int list \<Rightarrow> int \<Rightarrow> int \<Rightarrow> int \<Rightarrow> int list \<Rightarrow> int list outcome" where
  "init_sizes given multiplier mn mx xs =
     (if 1 < length given then Ret (fold add_size given xs)
      else loops (size_loop multiplier mn mx xs))"

section \<open>State\<close>

definition c_div :: "int \<Rightarrow> int \<Rightarrow> int" where
  "c_div a b = sgn a * sgn b * (\<bar>a\<bar> div \<bar>b\<bar>)"

record 'os iozone =
  iz_os :: 'os
  iz_size_list :: "int list"
  rec_size_list :: "int list"
  min_file_size :: int
  max_file_size :: int
  min_rec_size :: int
  max_rec_size :: int
  orig_min_rec_size :: int
  orig_max_rec_size :: int
  xover :: int
  kilobytes64 :: int
  reclen :: int
  numrecs64 :: int
  report_array :: "nat \<Rightarrow> nat \<Rightarrow> int"
  current_x :: nat
  current_y :: nat
  max_x :: nat
  max_y :: nat
  iz_begun :: "(int \<times> int) list"

text \<open>
  \<open>iz_begun\<close> lists the calls of \<open>begin\<close> for the theorems to speak of; no definition reads it. The
  options, and the parts of the system: the tests with their number, \<open>sync\<close>, and \<open>check_filename\<close>
  with \<open>unlink\<close>.
\<close>

record iz_options =
  gflag :: bool
  nflag :: bool
  rflag :: bool
  sflag :: bool
  yflag :: bool
  qflag :: bool
  NOCROSSflag :: bool
  RWONLYflag :: bool
  Eflag :: bool
  mmap_or_async :: bool
  traj_flag :: bool
  include_tflag :: bool
  include_mask :: int
  no_unlink :: bool
  maximum_file_size :: int
  minimum_file_size :: int
  opt_multiplier :: int
  s_range :: "int list"
  r_range :: "int list"

record 'os iz_system =
  iz_func :: "nat \<Rightarrow> int \<Rightarrow> int \<Rightarrow> 'os iozone \<Rightarrow> 'os iozone outcome"
  iz_sync :: "'os \<Rightarrow> 'os"
  iz_check_filename :: "'os \<Rightarrow> bool \<times> 'os"
  iz_unlink :: "'os \<Rightarrow> 'os"

section \<open>The table\<close>

text \<open>The bounds are checked after the value has been stored.\<close>

definition store_value :: "int \<Rightarrow> 'os iozone \<Rightarrow> 'os iozone outcome" where
  "store_value v w =
     (let x = current_x w; y = current_y w
      in if \<not> (x < 100 \<and> y < 512) then Crash BufferOverflow
         else let w = w\<lparr>report_array := (report_array w)(x := (report_array w x)(y := v)),
                        current_x := x + 1, max_x := max (max_x w) (x + 1), max_y := max (max_y w) y\<rparr>
              in if 100 \<le> max_x w then Exit 117 else if 512 \<le> max_y w then Exit 118 else Ret w)"

fun store_values :: "int list \<Rightarrow> 'os iozone \<Rightarrow> 'os iozone outcome" where
  "store_values [] w = Ret w"
| "store_values (v # vs) w = obind (store_value v w) (store_values vs)"

section \<open>\<open>begin\<close>\<close>

text \<open>
  The advice that \<open>begin\<close> prints when a test was too quick, and its other output, are left out.
\<close>

definition test_soutput :: "nat list" where
  "test_soutput = [2,2,2,1,1,1,2,2,2,2,2,2,2,2]"

text \<open>\<open>func\<close> has 11 elements.\<close>

definition num_tests :: "iz_options \<Rightarrow> nat" where
  "num_tests opt =
     (let n = (if \<not> Eflag opt then 11 - 2 - (if mmap_or_async opt then 2 else 0)
               else 11 - (if mmap_or_async opt then 4 else 0))
      in if RWONLYflag opt then 2 else n)"

fun run_tests :: "'os iz_system \<Rightarrow> iz_options \<Rightarrow> nat list \<Rightarrow> 'os iozone \<Rightarrow> 'os iozone outcome" where
  "run_tests S opt [] w = Ret w"
| "run_tests S opt (i # is) w =
     obind (if \<not> include_tflag opt \<or> bit (include_mask opt) i
            then iz_func S i (kilobytes64 w) (reclen w) w
            else store_values (replicate (test_soutput ! i) 0) w) (run_tests S opt is)"

definition begin_tests :: "'os iz_system \<Rightarrow> iz_options \<Rightarrow> int \<Rightarrow> int \<Rightarrow> 'os iozone \<Rightarrow> 'os iozone outcome" where
  "begin_tests S opt kilos64 reclength w =
     (let w = w\<lparr>iz_os := iz_sync S (iz_sync S (iz_os w)), iz_begun := iz_begun w @ [(kilos64, reclength)]\<rparr>
      in if reclength = 0 then Crash DivByZero
         else let w = w\<lparr>kilobytes64 := kilos64, reclen := reclength,
                        numrecs64 := c_div (wrap64 (kilos64 * 1024)) reclength\<rparr>
      in obind (store_values [kilos64, if traj_flag opt then 0 else c_div reclength 1024] w) (\<lambda>w.
         obind (run_tests S opt [0..<num_tests opt] w) (\<lambda>w.
         if no_unlink opt then Ret w
         else let (regular, os) = iz_check_filename S (iz_os w)
              in Ret (w\<lparr>iz_os := if regular then iz_unlink S os else os\<rparr>))))"

section \<open>\<open>auto_test\<close>\<close>

text \<open>
  Beyond the crossover only large records are tested, and the rows of the others are filled with zeros.
\<close>

partial_function (option) dummy_rows :: "int \<Rightarrow> int \<Rightarrow> int \<Rightarrow> 'os iozone \<Rightarrow> 'os iozone outcome option" where
  "dummy_rows kilosi count1 m w =
     (if count1 \<noteq> orig_min_rec_size w \<and> m \<le> wrap64 (kilosi * 1024) then
        ostep (store_values (kilosi # m # replicate 20 0) (w\<lparr>current_x := 0\<rparr>)) (\<lambda>w.
        dummy_rows kilosi (count1 div 2) (wrap64 (m * 2))
          (w\<lparr>current_y := current_y w + 1, max_y := max (max_y w) (current_y w + 1), current_x := 0\<rparr>))
      else Some (Ret w))"

definition LARGE_REC :: int where "LARGE_REC = 65536"

definition cross_over :: "iz_options \<Rightarrow> int \<Rightarrow> 'os iozone \<Rightarrow> 'os iozone outcome" where
  "cross_over opt kilosi w =
     (if rflag opt \<or> sflag opt \<or> yflag opt \<or> qflag opt \<or> kilosi \<le> xover w then Ret w
      else obind (init_sizes (r_range opt) (opt_multiplier opt) LARGE_REC (max_rec_size w) []) (\<lambda>rs.
           loops (dummy_rows kilosi LARGE_REC (c_div (orig_min_rec_size w) 1024)
             (w\<lparr>min_rec_size := LARGE_REC, rec_size_list := rs\<rparr>))))"

partial_function (option) rec_loop ::
  "'os iz_system \<Rightarrow> iz_options \<Rightarrow> int \<Rightarrow> int \<Rightarrow> 'os iozone \<Rightarrow> 'os iozone outcome option"
where
  "rec_loop S opt kilosi recszi w =
     (if recszi = 0 \<or> wrap64 (kilosi * 1024) < recszi then Some (Ret w)
      else ostep (begin_tests S opt kilosi recszi w) (\<lambda>w.
           rec_loop S opt kilosi (get_next_size (rec_size_list w) recszi)
             (w\<lparr>current_x := 0, current_y := current_y w + 1\<rparr>)))"

partial_function (option) file_loop ::
  "'os iz_system \<Rightarrow> iz_options \<Rightarrow> int \<Rightarrow> 'os iozone \<Rightarrow> 'os iozone outcome option"
where
  "file_loop S opt kilosi w =
     (if kilosi \<le> 0 then Some (Ret w)
      else ostep (cross_over opt kilosi w) (\<lambda>w.
           ostep (loops (rec_loop S opt kilosi (get_next_size (rec_size_list w) 0) w)) (\<lambda>w.
           file_loop S opt (get_next_size (iz_size_list w) kilosi) w)))"

definition auto_settings :: "iz_options \<Rightarrow> 'os iozone \<Rightarrow> 'os iozone" where
  "auto_settings opt w =
     (let w = (if gflag opt then w\<lparr>max_file_size := maximum_file_size opt\<rparr> else w);
          w = (if nflag opt then w\<lparr>min_file_size := minimum_file_size opt\<rparr> else w)
      in if NOCROSSflag opt then w\<lparr>xover := max_file_size w\<rparr> else w)"

definition auto_test :: "'os iz_system \<Rightarrow> iz_options \<Rightarrow> 'os iozone \<Rightarrow> 'os iozone outcome" where
  "auto_test S opt w =
     (let w = auto_settings opt w
      in if wrap64 (min_file_size w * 1024) < min_rec_size w then Exit 23
         else obind (init_sizes (s_range opt) (opt_multiplier opt) (min_file_size w) (max_file_size w) (iz_size_list w)) (\<lambda>fs.
              obind (init_sizes (r_range opt) (opt_multiplier opt) (min_rec_size w) (max_rec_size w) []) (\<lambda>rs.
              loops (file_loop S opt (get_next_size fs 0)
                (w\<lparr>iz_size_list := fs, rec_size_list := rs,
                   orig_min_rec_size := min_rec_size w, orig_max_rec_size := max_rec_size w\<rparr>)))))"

section \<open>Walking a list\<close>

text \<open>
  What a walk with \<open>get_next_size\<close> from a size on visits: the entries that are larger than the size
  and than all entries in front of them. The rest of a list that is not sorted is passed over.
\<close>

fun rising :: "int \<Rightarrow> int list \<Rightarrow> int list" where
  "rising n [] = []"
| "rising n (x # xs) = (if n < x then x # rising x xs else rising n xs)"

lemma get_next_rising: "0 \<le> n \<Longrightarrow> get_next_size xs n = (case rising n xs of [] \<Rightarrow> 0 | x # _ \<Rightarrow> x)"
  by (induction n xs rule: rising.induct) auto

lemma rising_next: "rising n xs = x # ys \<Longrightarrow> n < x \<and> rising x xs = ys"
proof (induction xs arbitrary: n)
  case (Cons a xs)
  show ?case
  proof (cases "n < a")
    case False
    with Cons.IH [of n] Cons.prems show ?thesis by simp
  qed (use Cons.prems in auto)
qed simp

lemma rising_sorted: "sorted_wrt (<) xs \<Longrightarrow> \<forall>x \<in> set xs. n < x \<Longrightarrow> rising n xs = xs"
  by (induction xs arbitrary: n) auto

end
