(* ===== verification/Iozone_Auto.thy ===== *)
theory Iozone_Auto
  imports Iozone_Sizes
begin

text \<open>
  The order in which \<open>auto_test\<close> runs its tests, and the table that it leaves, when the tests do
  what they are meant to do: they store their results in the row that they are given.
\<close>

section \<open>Well-behaved tests\<close>

definition keeps_table :: "'os iozone \<Rightarrow> 'os iozone \<Rightarrow> bool" where
  "keeps_table w w' \<longleftrightarrow> iz_size_list w' = iz_size_list w \<and> rec_size_list w' = rec_size_list w \<and> xover w' = xover w \<and>
     current_y w' = current_y w \<and> max_y w' = max_y w \<and> iz_begun w' = iz_begun w \<and>
     (max_x w < 100 \<longrightarrow> max_x w' < 100) \<and>
     (\<forall>x y. x < 2 \<or> y \<noteq> current_y w \<longrightarrow> report_array w' x y = report_array w x y)"

text \<open>
  A test is called when the row holds the two sizes. It stores at most two results behind them, and it
  leaves the sizes, the other rows and the loops alone.
\<close>

definition in_row :: "nat \<Rightarrow> 'os iozone \<Rightarrow> bool" where
  "in_row n w \<longleftrightarrow> 2 \<le> current_x w \<and> current_x w + n < 100 \<and> max_x w < 100 \<and>
     current_y w \<le> max_y w \<and> max_y w < 512"

definition tame :: "'os iz_system \<Rightarrow> bool" where
  "tame S \<longleftrightarrow> (\<forall>i k r w. in_row 2 w \<longrightarrow> (\<exists>w'. iz_func S i k r w = Ret w' \<and> keeps_table w w' \<and>
     current_x w \<le> current_x w' \<and> current_x w' \<le> current_x w + 2))"

lemma keeps_table_refl: "keeps_table w w"
  by (simp add: keeps_table_def)

lemma keeps_trans: "keeps_table w w' \<Longrightarrow> keeps_table w' w'' \<Longrightarrow> keeps_table w w''"
  by (simp add: keeps_table_def)

lemma run_tests_keeps:
  assumes "tame S" "\<not> include_tflag opt" "in_row (2 * length is) w"
  shows "\<exists>w'. run_tests S opt is w = Ret w' \<and> keeps_table w w'"
  using assms(3)
proof (induction "is" arbitrary: w)
  case Nil
  then show ?case by (simp add: keeps_table_refl)
next
  case (Cons i "is")
  then have "in_row 2 w" by (simp add: in_row_def)
  with assms(1) obtain w1 where 1: "iz_func S i (kilobytes64 w) (reclen w) w = Ret w1" "keeps_table w w1"
    "current_x w \<le> current_x w1" "current_x w1 \<le> current_x w + 2"
    unfolding tame_def by blast
  then have "in_row (2 * length is) w1"
    using Cons.prems by (simp add: in_row_def keeps_table_def)
  from Cons.IH [OF this] obtain w2 where "run_tests S opt is w1 = Ret w2" "keeps_table w1 w2" by blast
  with 1 assms(2) keeps_trans [OF 1(2)] show ?case by auto
qed

lemma num_tests_bound: "num_tests opt \<le> 11"
  by (simp add: num_tests_def Let_def)

section \<open>What a sequence of runs leaves\<close>

definition row_of :: "iz_options \<Rightarrow> int \<times> int \<Rightarrow> nat \<Rightarrow> int" where
  "row_of opt kr x = (if x = 0 then fst kr else if traj_flag opt then 0 else snd kr div 1024)"

definition ran :: "iz_options \<Rightarrow> 'os iozone \<Rightarrow> (int \<times> int) list \<Rightarrow> 'os iozone \<Rightarrow> bool" where
  "ran opt w rs w' \<longleftrightarrow> iz_size_list w' = iz_size_list w \<and> rec_size_list w' = rec_size_list w \<and> xover w' = xover w \<and>
     current_y w' = current_y w + length rs \<and> iz_begun w' = iz_begun w @ rs \<and>
     current_x w' = 0 \<and> max_x w' < 100 \<and> max_y w' < 512 \<and>
     (\<forall>x < 2. \<forall>y. report_array w' x y =
        (if current_y w \<le> y \<and> y < current_y w + length rs then row_of opt (rs ! (y - current_y w)) x
         else report_array w x y))"

definition table_ready :: "'os iozone \<Rightarrow> bool" where
  "table_ready w \<longleftrightarrow> current_x w = 0 \<and> max_x w < 100 \<and> max_y w < 512"

lemma ran_Nil [simp]: "table_ready w \<Longrightarrow> ran opt w [] w"
  by (simp add: ran_def table_ready_def)

lemma ran_ready: "ran opt w rs w' \<Longrightarrow> table_ready w'"
  by (simp add: ran_def table_ready_def)

lemma ran_trans: "ran opt w rs w' \<Longrightarrow> ran opt w' rs' w'' \<Longrightarrow> ran opt w (rs @ rs') w''"
  by (auto simp: ran_def nth_append diff_add_assoc2 intro!: arg_cong2 [where f = "row_of opt"] arg_cong [where f = "(!) rs'"])

lemma c_div_pos: "0 < a \<Longrightarrow> c_div a 1024 = a div 1024"
  by (simp add: c_div_def)

lemma store_value_Ret:
  assumes "current_x w < 99" "current_y w < 512" "max_x w < 100" "max_y w < 512"
  shows "store_value v w = Ret (w\<lparr>report_array := (report_array w)(current_x w := (report_array w (current_x w))(current_y w := v)),
    current_x := current_x w + 1, max_x := max (max_x w) (current_x w + 1), max_y := max (max_y w) (current_y w)\<rparr>)"
  using assms by (simp add: store_value_def Let_def not_le)

lemma begin_ran:
  assumes "tame S" "\<not> include_tflag opt" "0 < r" "table_ready w" "current_y w < 512"
  shows "\<exists>w'. begin_tests S opt k r w = Ret w' \<and>
    ran opt w [(k, r)] (w'\<lparr>current_x := 0, current_y := current_y w' + 1\<rparr>)"
proof -
  let ?v = "if traj_flag opt then 0 else c_div r 1024"
  let ?w0 = "w\<lparr>iz_os := iz_sync S (iz_sync S (iz_os w)), iz_begun := iz_begun w @ [(k, r)],
    kilobytes64 := k, reclen := r, numrecs64 := c_div (wrap64 (k * 1024)) r\<rparr>"
  have "max_x w < 100" "max_y w < 512" "current_x w = 0"
    using assms(4) by (simp_all add: table_ready_def)
  then have "\<exists>w1. store_values [k, ?v] ?w0 = Ret w1 \<and>
    iz_size_list w1 = iz_size_list w \<and> rec_size_list w1 = rec_size_list w \<and> xover w1 = xover w \<and>
    current_y w1 = current_y w \<and> iz_begun w1 = iz_begun w @ [(k, r)] \<and> max_x w1 < 100 \<and> max_y w1 < 512 \<and>
    current_x w1 = 2 \<and> current_y w1 \<le> max_y w1 \<and>
    (\<forall>x < 2. \<forall>y. report_array w1 x y = (if y = current_y w then if x = 0 then k else ?v else report_array w x y))"
    using assms(5) by (simp add: store_value_Ret)
  then obtain w1 where 1: "store_values [k, ?v] ?w0 = Ret w1"
    "iz_size_list w1 = iz_size_list w" "rec_size_list w1 = rec_size_list w" "xover w1 = xover w"
    "current_y w1 = current_y w" "iz_begun w1 = iz_begun w @ [(k, r)]" "max_x w1 < 100" "max_y w1 < 512" "current_x w1 = 2" "current_y w1 \<le> max_y w1"
    "\<forall>x < 2. \<forall>y. report_array w1 x y = (if y = current_y w then if x = 0 then k else ?v else report_array w x y)"
    by blast
  then have "in_row (2 * length [0..<num_tests opt]) w1"
    using num_tests_bound [of opt] by (simp add: in_row_def)
  from run_tests_keeps [OF assms(1,2) this] obtain w2 where
    2: "run_tests S opt [0..<num_tests opt] w1 = Ret w2" "keeps_table w1 w2" by blast
  let ?w3 = "if no_unlink opt then w2 else case iz_check_filename S (iz_os w2) of
    (regular, os) \<Rightarrow> w2\<lparr>iz_os := if regular then iz_unlink S os else os\<rparr>"
  have "begin_tests S opt k r w = Ret ?w3"
    using 1(1) 2(1) assms(3) by (simp add: begin_tests_def Let_def split: prod.split)
  moreover have "ran opt w [(k, r)] (?w3\<lparr>current_x := 0, current_y := current_y ?w3 + 1\<rparr>)"
    using 1(2-) 2(2) assms(3)
    by (auto simp: ran_def keeps_table_def row_of_def c_div_pos less_Suc_eq_le split: prod.split)
  ultimately show ?thesis by blast
qed

section \<open>The loops\<close>

definition rec_runs :: "int \<Rightarrow> int list \<Rightarrow> (int \<times> int) list" where
  "rec_runs k rs = map (Pair k) (takeWhile (\<lambda>r. r \<le> k * 1024) rs)"

definition all_runs :: "int list \<Rightarrow> int list \<Rightarrow> (int \<times> int) list" where
  "all_runs ks rs = concat (map (\<lambda>k. rec_runs k rs) ks)"

lemma get_next_rec:
  "rising n xs = r # rs \<Longrightarrow> 0 \<le> n \<Longrightarrow> get_next_size xs n = r \<and> 0 < r \<and> rising r xs = rs"
  "rising n xs = [] \<Longrightarrow> 0 \<le> n \<Longrightarrow> get_next_size xs n = 0"
  using rising_next [of n xs r rs] by (auto simp: get_next_rising)

lemma rec_loop_ran:
  assumes "tame S" "\<not> include_tflag opt" "0 < k" "k < 2 ^ 53" "table_ready w" "0 \<le> n"
    and "rising n (rec_size_list w) = rs" "current_y w + length (rec_runs k rs) \<le> 512"
  shows "\<exists>w'. rec_loop S opt k (get_next_size (rec_size_list w) n) w = Some (Ret w') \<and> ran opt w (rec_runs k rs) w'"
  using assms(5-)
proof (induction rs arbitrary: n w)
  case Nil
  then show ?case
    using get_next_rec(2) [OF Nil.prems(3,2)] by (subst rec_loop.simps) (simp add: rec_runs_def)
next
  case (Cons r rs)
  have nx: "get_next_size (rec_size_list w) n = r" "0 < r" "rising r (rec_size_list w) = rs"
    using get_next_rec(1) [OF Cons.prems(3,2)] by simp_all
  have k: "wrap64 (k * 1024) = k * 1024"
    using assms(3,4) by (intro signed_take_bit_int_eq_self) simp_all
  show ?case
  proof (cases "r \<le> k * 1024")
    case False
    with k Cons.prems(1) nx show ?thesis
      by (subst rec_loop.simps) (simp add: rec_runs_def)
  next
    case True
    then have e: "rec_runs k (r # rs) = (k, r) # rec_runs k rs"
      by (simp add: rec_runs_def)
    with Cons.prems(4) have "current_y w < 512" by simp
    with begin_ran [OF assms(1,2) nx(2) Cons.prems(1), of k] obtain w1 where
      1: "begin_tests S opt k r w = Ret w1" "ran opt w [(k, r)] (w1\<lparr>current_x := 0, current_y := current_y w1 + 1\<rparr>)"
      by blast
    let ?w1 = "w1\<lparr>current_x := 0, current_y := current_y w1 + 1\<rparr>"
    from 1(2) have f: "rec_size_list ?w1 = rec_size_list w" "current_y ?w1 = current_y w + 1"
      by (simp_all add: ran_def)
    have "\<exists>w'. rec_loop S opt k (get_next_size (rec_size_list ?w1) r) ?w1 = Some (Ret w') \<and> ran opt ?w1 (rec_runs k rs) w'"
    proof (rule Cons.IH [OF ran_ready [OF 1(2)]])
      show "rising r (rec_size_list ?w1) = rs" unfolding f(1) by (rule nx(3))
      show "current_y ?w1 + length (rec_runs k rs) \<le> 512" unfolding f(2) using Cons.prems(4) e by simp
    qed (use nx(2) in simp)
    then obtain w2 where 2: "rec_loop S opt k (get_next_size (rec_size_list w) r) ?w1 = Some (Ret w2)"
      "ran opt ?w1 (rec_runs k rs) w2"
      unfolding f(1) by blast
    have "rec_loop S opt k (get_next_size (rec_size_list w) n) w = Some (Ret w2)"
      using 1(1) 2(1) f(1) True k nx by (subst rec_loop.simps) simp
    moreover have "ran opt w (rec_runs k (r # rs)) w2"
      using ran_trans [OF 1(2) 2(2)] e by simp
    ultimately show ?thesis by blast
  qed
qed

lemma file_loop_ran:
  assumes "tame S" "\<not> include_tflag opt" "table_ready w" "0 \<le> n"
    and "rising n (iz_size_list w) = ks" "rising 0 (rec_size_list w) = rs"
    and "\<forall>k \<in> set ks. k < 2 ^ 53 \<and> (rflag opt \<or> sflag opt \<or> yflag opt \<or> qflag opt \<or> k \<le> xover w)"
    and "current_y w + length (all_runs ks rs) \<le> 512"
  shows "\<exists>w'. file_loop S opt (get_next_size (iz_size_list w) n) w = Some (Ret w') \<and> ran opt w (all_runs ks rs) w'"
  using assms(3-)
proof (induction ks arbitrary: n w)
  case Nil
  then show ?case
    using get_next_rec(2) [OF Nil.prems(3,2)] by (subst file_loop.simps) (simp add: all_runs_def)
next
  case (Cons k ks)
  have nx: "get_next_size (iz_size_list w) n = k" "0 < k" "rising k (iz_size_list w) = ks"
    using get_next_rec(1) [OF Cons.prems(3,2)] by simp_all
  have e: "all_runs (k # ks) rs = rec_runs k rs @ all_runs ks rs"
    by (simp add: all_runs_def)
  have c: "cross_over opt k w = Ret w"
    using Cons.prems(5) by (auto simp: cross_over_def)
  have "current_y w + length (rec_runs k rs) \<le> 512" "k < 2 ^ 53"
    using Cons.prems(5,6) e by simp_all
  with rec_loop_ran [OF assms(1,2) nx(2) _ Cons.prems(1) order.refl Cons.prems(4)] obtain w1 where
    1: "rec_loop S opt k (get_next_size (rec_size_list w) 0) w = Some (Ret w1)" "ran opt w (rec_runs k rs) w1"
    by blast
  from 1(2) have f: "iz_size_list w1 = iz_size_list w" "rec_size_list w1 = rec_size_list w" "xover w1 = xover w"
    "current_y w1 = current_y w + length (rec_runs k rs)"
    by (simp_all add: ran_def)
  have "\<exists>w'. file_loop S opt (get_next_size (iz_size_list w1) k) w1 = Some (Ret w') \<and> ran opt w1 (all_runs ks rs) w'"
  proof (rule Cons.IH [OF ran_ready [OF 1(2)]])
    show "rising k (iz_size_list w1) = ks" unfolding f(1) by (rule nx(3))
    show "rising 0 (rec_size_list w1) = rs" unfolding f(2) by (rule Cons.prems(4))
  qed (use nx(2) f Cons.prems e in simp_all)
  then obtain w2 where 2: "file_loop S opt (get_next_size (iz_size_list w1) k) w1 = Some (Ret w2)" "ran opt w1 (all_runs ks rs) w2"
    by blast
  have "file_loop S opt (get_next_size (iz_size_list w) n) w = Some (Ret w2)"
    using c 1(1) 2(1) nx(1,2) by (subst file_loop.simps) (simp add: loops_def)
  moreover have "ran opt w (all_runs (k # ks) rs) w2"
    using ran_trans [OF 1(2) 2(2)] e by simp
  ultimately show ?case by blast
qed

section \<open>The lists\<close>

text \<open>The sizes between two bounds, each a multiple of the one before it.\<close>

function geometric :: "int \<Rightarrow> int \<Rightarrow> int \<Rightarrow> int list" where
  "geometric f n mx = (if 0 < n \<and> 1 < f \<and> n \<le> mx then n # geometric f (n * f) mx else [])"
  by auto
termination
  by (relation "measure (\<lambda>(f, n, mx). nat (mx + 1 - n))") auto

declare geometric.simps [simp del]

lemma size_loop_geometric:
  assumes "1 < f" "0 < n" "mx * f < 2 ^ 63"
  shows "size_loop f n mx xs = Some (Ret (xs @ geometric f n mx))"
  using assms
proof (induction f n mx arbitrary: xs rule: geometric.induct)
  case (1 f n mx)
  show ?case
  proof (cases "n \<le> mx")
    case False
    then show ?thesis by (subst size_loop.simps, subst geometric.simps) simp
  next
    case True
    then have "n * f \<le> mx * f" "0 < n * f" using 1 by simp_all
    then have "wrap64 (n * f) = n * f"
      using 1(4) by (intro signed_take_bit_int_eq_self) simp_all
    with 1 True \<open>0 < n * f\<close> show ?thesis
      by (subst size_loop.simps, subst geometric.simps) (simp add: add_size_def)
  qed
qed

lemma fold_add_size: "fold add_size xs ys = ys @ xs"
  by (induction xs arbitrary: ys) (simp_all add: add_size_def)

definition sizes_of :: "int list \<Rightarrow> int \<Rightarrow> int \<Rightarrow> int \<Rightarrow> int list" where
  "sizes_of given f mn mx = (if 1 < length given then given else geometric f mn mx)"

lemma init_sizes_of:
  assumes "1 < f" "0 < mn" "mx * f < 2 ^ 63"
  shows "init_sizes given f mn mx xs = Ret (xs @ sizes_of given f mn mx)"
  using assms by (simp add: init_sizes_def sizes_of_def fold_add_size size_loop_geometric loops_def)

lemma geometric_rising: "n0 < n \<Longrightarrow> rising n0 (geometric f n mx) = geometric f n mx"
proof (induction f n mx arbitrary: n0 rule: geometric.induct)
  case (1 f n mx)
  show ?case
  proof (cases "0 < n \<and> 1 < f \<and> n \<le> mx")
    case True
    then have "n < n * f" by simp
    with 1 True show ?thesis by (subst (1 2) geometric.simps) simp
  qed (subst (1 2) geometric.simps, auto)
qed

lemma rising_sizes:
  "0 < mn \<Longrightarrow> rising 0 (sizes_of given f mn mx) = (if 1 < length given then rising 0 given else geometric f mn mx)"
  by (simp add: sizes_of_def geometric_rising)

end
