(* ===== verification/Iozone_Load_Properties.thy ===== *)
theory Iozone_Load_Properties
  imports Iozone_Roster Iozone_Telemetry Iozone_Auto
begin

text \<open>
  The properties of the files that \<open>iozone.c\<close> reads and of its automatic mode.
\<close>

section \<open>The list of clients\<close>

definition blank_ident :: child_ident where
  "blank_ident = \<lparr>ci_child_name = [], ci_workdir = [], ci_execute_path = [], ci_file_name = ''old'', ci_state = 0,
     ci_child_number = 0, ci_child_port = 0, ci_child_async_port = 0, ci_master_socket_num = 0,
     ci_master_async_socket_num = 0\<rparr>"

text \<open>
  C36: the master knows exactly the clients that its file lists: every line that is not a comment fills
  the next element of the array with its name, directory, path and perhaps file, in order, whatever
  comments stand between; the other elements and members stay, the number of clients is returned, and
  \<open>mfflag\<close>, a \<open>char\<close>, has grown by the number of lines with a file.
\<close>

theorem client_file_fills_idents:
  assumes "\<forall>l \<in> set ls. line_ok l" "length (filter is_client ls) \<le> 1024"
  shows "get_client_info (Some (concat (map line_text ls))) (idents, mfflag) =
    Ret (length (filter is_client ls),
      (\<lambda>i. if i < length (filter is_client ls) then ident_of (filter is_client ls ! i) (idents i) else idents i),
      if filter names_file ls = [] then mfflag else cast CChar (mfflag + int (length (filter names_file ls))))"
  using client_lines_enter [of ls 0 "(idents, mfflag)"] enter_idents [of ls 0 "(idents, mfflag)"]
    enter_flag [of ls 0 "(idents, mfflag)"] assms
  by (cases "enter ls 0 (idents, mfflag)") (auto simp: get_client_info_def fun_eq_iff)

lemma client_file_fills_idents_witness:
  "get_client_info (Some (''#two'' @ [newline] @ ''a /d /p f'' @ [newline] @ ''b /e /q'' @ [newline])) (\<lambda>_. blank_ident, 0) =
    Ret (2, (\<lambda>i. if i < 2 then ident_of ([Client ''a'' ''/d'' ''/p'' (Some ''f''), Client ''b'' ''/e'' ''/q'' None] ! i) blank_ident
      else blank_ident), 1)"
proof -
  let ?ls = "[Remark ''two'', Client ''a'' ''/d'' ''/p'' (Some ''f''), Client ''b'' ''/e'' ''/q'' None]"
  have t: "concat (map line_text ?ls) = ''#two'' @ [newline] @ ''a /d /p f'' @ [newline] @ ''b /e /q'' @ [newline]"
    and g: "filter names_file ?ls = [Client ''a'' ''/d'' ''/p'' (Some ''f'')]"
    and f: "filter is_client ?ls = [Client ''a'' ''/d'' ''/p'' (Some ''f''), Client ''b'' ''/e'' ''/q'' None]"
    and ok: "\<forall>l \<in> set ?ls. line_ok l"
    by (simp_all add: is_client_def word_def is_space_def)
  have n: "length [Client ''a'' ''/d'' ''/p'' (Some ''f''), Client ''b'' ''/e'' ''/q'' None] = 2" by simp
  from client_file_fills_idents [OF ok, of "\<lambda>_. blank_ident" 0] show ?thesis
    unfolding t f g n by simp
qed

section \<open>Telemetry\<close>

text \<open>
  C37: what the scan of a telemetry file finds in advance is what the test will see: \<open>r_traj_size\<close>
  counts the entries and returns the largest end of an operation; asking \<open>get_traj\<close> that many times
  delivers the entries in order, with the delay of each, and none reaches beyond the size found.
\<close>

theorem telemetry_scan_agrees_with_replay:
  assumes "\<forall>l \<in> set ls. traj_ok l"
  shows "\<exists>fsize. r_traj_size exit_code (Some (traj_file ls)) ops = Ret (fsize, ops + int (length (entries ls))) \<and>
    play exit_code milli compute_time (length (entries ls)) (traj_file ls) =
      Ret (map (\<lambda>(x, n, d). (x, n, case d of None \<Rightarrow> compute_time | Some m \<Rightarrow> milli m)) (entries ls)) \<and>
    (\<forall>x n d. (x, n, d) \<in> set (entries ls) \<longrightarrow> x + n \<le> fsize) \<and>
    (fsize = 0 \<or> (\<exists>(x, n, d) \<in> set (entries ls). fsize = x + n))"
proof -
  let ?m = "fold (\<lambda>(x, n, d) m. max m (x + n)) (entries ls) 0"
  have "?m = 0 \<or> (\<exists>(x, n, d) \<in> set (entries ls). ?m = x + n)"
    by (rule fold_max_attained)
  then show ?thesis
    using traj_loop_entries [OF assms] play_entries [OF assms] fold_max_bound [of 0 "entries ls"]
    by (intro exI [of _ ?m]) (auto simp: r_traj_size_def)
qed

lemma telemetry_scan_agrees_with_replay_witness:
  "\<exists>fsize. r_traj_size 0 (Some (''#log'' @ [newline] @ ''100 20'' @ [newline] @ ''8 5 7'' @ [newline])) 0 = Ret (fsize, 2) \<and>
    play 0 (\<lambda>m. m) 9 2 (''#log'' @ [newline] @ ''100 20'' @ [newline] @ ''8 5 7'' @ [newline]) =
      Ret [(100, 20, 9), (8, 5, 7)]"
proof -
  let ?ls = "[Skip ''#log'', Entry 100 20 None, Entry 8 5 (Some 7)]"
  have "show_int 100 = ''100''" "show_int 20 = ''20''" "show_int 8 = ''8''" "show_int 5 = ''5''" "show_int 7 = ''7''"
    by code_simp+
  then have t: "traj_file ?ls = ''#log'' @ [newline] @ ''100 20'' @ [newline] @ ''8 5 7'' @ [newline]"
    by (simp add: entry_text_def)
  have ok: "\<forall>l \<in> set ?ls. traj_ok l" by simp
  have e: "entries ?ls = [(100, 20, None), (8, 5, Some 7)]" by simp
  have n: "length [(100, 20, None), (8, 5, Some 7)] = 2" by simp
  have m: "map (\<lambda>(x, n, d). (x, n, case d of None \<Rightarrow> 9 | Some m \<Rightarrow> m)) [(100, 20, None), (8, 5, Some 7)] =
    [(100, 20, 9), (8, 5, 7)]" by simp
  from telemetry_scan_agrees_with_replay [OF ok, of 0 0 "\<lambda>m. m" 9] show ?thesis
    unfolding t e n m by auto
qed

section \<open>The automatic mode\<close>

definition demo_system :: "unit iz_system" where
  "demo_system = \<lparr>iz_func = (\<lambda>i k r w. store_value (int i) w), iz_sync = (\<lambda>os. os), iz_check_filename = (\<lambda>os. (True, os)), iz_unlink = (\<lambda>os. os)\<rparr>"

definition auto_options :: iz_options where
  "auto_options = \<lparr>gflag = True, nflag = True, rflag = False, sflag = False, yflag = False, qflag = False, NOCROSSflag = False,
     RWONLYflag = False, Eflag = False, mmap_or_async = False, traj_flag = False, include_tflag = False, include_mask = 0,
     no_unlink = False, maximum_file_size = 256, minimum_file_size = 64, opt_multiplier = 2, s_range = [], r_range = [4096, 131072, 8192]\<rparr>"

definition demo_iozone :: "unit iozone" where
  "demo_iozone = \<lparr>iz_os = (), iz_size_list = [], rec_size_list = [], min_file_size = 64, max_file_size = 524288,
     min_rec_size = 4096, max_rec_size = 131072, orig_min_rec_size = 0, orig_max_rec_size = 0, xover = 16384,
     kilobytes64 = 0, reclen = 0, numrecs64 = 0, report_array = (\<lambda>_ _. 0), current_x = 0, current_y = 0, max_x = 0, max_y = 0,
     iz_begun = []\<rparr>"

text \<open>
  C35: the automatic mode runs every size of file with every size of record that is not larger, the
  files in the outer loop, each pair once, and the table has a row for each run that begins with its
  sizes, as long as the tests keep to their row and no file lies beyond the crossover. Of sizes that
  were given one by one only those are used that are larger than all before them.
\<close>

theorem auto_test_runs_every_size:
  fixes S :: "'os iz_system" and w :: "'os iozone" and opt :: iz_options
  defines "w0 \<equiv> auto_settings opt w"
  defines "ks \<equiv> if 1 < length (s_range opt) then rising 0 (s_range opt)
      else geometric (opt_multiplier opt) (min_file_size w0) (max_file_size w0)"
    and "rs \<equiv> if 1 < length (r_range opt) then rising 0 (r_range opt)
      else geometric (opt_multiplier opt) (min_rec_size w0) (max_rec_size w0)"
  defines "runs \<equiv> concat (map (\<lambda>k. map (Pair k) (takeWhile (\<lambda>r. r \<le> k * 1024) rs)) ks)"
  assumes "tame S" "\<not> include_tflag opt" "1 < opt_multiplier opt" "0 < min_file_size w0" "0 < min_rec_size w0"
    and "max_file_size w0 * opt_multiplier opt < 2 ^ 63" "max_rec_size w0 * opt_multiplier opt < 2 ^ 63"
    and "min_rec_size w0 \<le> wrap64 (min_file_size w0 * 1024)" "iz_size_list w = []" "table_ready w"
    and "\<forall>k \<in> set ks. k < 2 ^ 53 \<and> (rflag opt \<or> sflag opt \<or> yflag opt \<or> qflag opt \<or> k \<le> xover w0)"
    and "current_y w = 0" "length runs \<le> 512"
  shows "\<exists>w'. auto_test S opt w = Ret w' \<and> iz_begun w' = iz_begun w @ runs \<and> current_y w' = length runs \<and>
    (\<forall>y < length runs. report_array w' 0 y = fst (runs ! y) \<and>
       report_array w' 1 y = (if traj_flag opt then 0 else snd (runs ! y) div 1024))"
proof -
  let ?fs = "sizes_of (s_range opt) (opt_multiplier opt) (min_file_size w0) (max_file_size w0)"
  let ?rs = "sizes_of (r_range opt) (opt_multiplier opt) (min_rec_size w0) (max_rec_size w0)"
  let ?w1 = "w0\<lparr>iz_size_list := ?fs, rec_size_list := ?rs, orig_min_rec_size := min_rec_size w0,
    orig_max_rec_size := max_rec_size w0\<rparr>"
  have same: "iz_size_list w0 = []" "table_ready w0" "current_y w0 = 0" "iz_begun w0 = iz_begun w"
    using assms(13,14,16) by (simp_all add: w0_def auto_settings_def Let_def table_ready_def)
  have r: "rising 0 (iz_size_list ?w1) = ks" "rising 0 (rec_size_list ?w1) = rs"
    using assms(8,9) by (simp_all add: rising_sizes ks_def rs_def)
  have a: "all_runs ks rs = runs"
    by (simp add: all_runs_def rec_runs_def runs_def)
  have "table_ready ?w1" using same(2) by (simp add: table_ready_def)
  then obtain w' where w': "file_loop S opt (get_next_size (iz_size_list ?w1) 0) ?w1 = Some (Ret w')" "ran opt ?w1 runs w'"
    using file_loop_ran [OF assms(5,6) _ order.refl r] assms(15,17) same a by auto
  have "auto_test S opt w = Ret w'"
    unfolding auto_test_def Let_def w0_def [symmetric] using assms(7-12) same(1) w'(1)
    by (simp add: init_sizes_of loops_def not_less)
  moreover have "iz_begun w' = iz_begun w @ runs" "current_y w' = length runs"
    using w'(2) same by (simp_all add: ran_def)
  moreover have "\<forall>y < length runs. report_array w' 0 y = fst (runs ! y) \<and>
       report_array w' 1 y = (if traj_flag opt then 0 else snd (runs ! y) div 1024)"
    using w'(2) same by (simp add: ran_def row_of_def)
  ultimately show ?thesis by blast
qed

lemma auto_test_runs_every_size_witness:
  "\<exists>w'. auto_test demo_system auto_options demo_iozone = Ret w' \<and>
    iz_begun w' = [(64, 4096), (128, 4096), (128, 131072), (256, 4096), (256, 131072)]"
proof -
  let ?w0 = "auto_settings auto_options demo_iozone"
  have w0: "min_file_size ?w0 = 64" "max_file_size ?w0 = 256" "min_rec_size ?w0 = 4096" "max_rec_size ?w0 = 131072"
      "xover ?w0 = 16384"
    by (simp_all add: auto_settings_def auto_options_def demo_iozone_def)
  have g: "geometric 2 64 256 = [64, 128, 256]"
    by (simp add: geometric.simps)
  have d: "opt_multiplier auto_options = 2" "s_range auto_options = []" "r_range auto_options = [4096, 131072, 8192]"
      "\<not> include_tflag auto_options"
    by (simp_all add: auto_options_def)
  have t: "tame demo_system"
    by (auto simp: tame_def in_row_def demo_system_def store_value_Ret keeps_table_def)
  have "iz_size_list demo_iozone = []" "table_ready demo_iozone" "current_y demo_iozone = 0" "iz_begun demo_iozone = []"
    by (simp_all add: demo_iozone_def table_ready_def)
  with auto_test_runs_every_size [OF t d(4), of demo_iozone] show ?thesis
    unfolding w0 d g by (auto simp: signed_take_bit_int_eq_self)
qed

end
