(* ===== verification/Iozone_Buffers.thy ===== *)
theory Iozone_Buffers
  imports Iozone_Wire "HOL-Library.Word"
begin

unbundle bit_operations_syntax

text \<open>
  The data that \<open>iozone.c\<close> writes and checks: \<open>fill_buffer\<close>, \<open>verify_buffer\<close> and the generators of
  deduplicable data. All buffers lie in one memory, a list of bytes, so that those that overlap in the
  program do so here; an access outside it is a crash. Numbers are stored with the low byte first.
\<close>

section \<open>Memory\<close>

definition le_bytes :: "'a::len word \<Rightarrow> byte list" where
  "le_bytes w = map (\<lambda>i. ucast (drop_bit (8 * i) w)) [0..<LENGTH('a) div 8]"

definition from_le :: "byte list \<Rightarrow> 'a::len word" where
  "from_le bs = foldr (\<lambda>b x. push_bit 8 x OR ucast b) bs 0"

definition get64 :: "nat \<Rightarrow> byte list \<Rightarrow> 64 word outcome" where
  "get64 p m = (if p + 8 \<le> length m then Ret (from_le (slice p 8 m)) else Crash OverRead)"

definition put64 :: "nat \<Rightarrow> 64 word \<Rightarrow> byte list \<Rightarrow> byte list outcome" where
  "put64 p v m = (if p + 8 \<le> length m then Ret (buf_put p (le_bytes v) m) else Crash BufferOverflow)"

definition get32 :: "nat \<Rightarrow> byte list \<Rightarrow> 32 word outcome" where
  "get32 p m = (if p + 4 \<le> length m then Ret (from_le (slice p 4 m)) else Crash OverRead)"

definition put32 :: "nat \<Rightarrow> 32 word \<Rightarrow> byte list \<Rightarrow> byte list outcome" where
  "put32 p v m = (if p + 4 \<le> length m then Ret (buf_put p (le_bytes v) m) else Crash BufferOverflow)"

section \<open>Globals\<close>

text \<open>\<open>dg_rand\<close> gives the first number of \<open>rand\<close> after \<open>srand\<close> with a seed.\<close>

record data_globals =
  page_size :: nat
  cache_line_size :: nat
  chid :: int
  share_file :: bool
  diag_v :: bool
  dg_no_unlink :: bool
  base_time :: int
  dedup_flag :: bool
  N_special :: bool
  dedup :: int
  dedup_interior :: int
  dedup_compress :: int
  dedup_ibuf :: nat
  dedup_temp :: nat
  dedup_mseed :: int
  chid_skew :: int
  dg_numrecs64 :: int
  dg_reclen :: int
  zero_pct :: int
  dedup_granule_size :: int
  dedup_unit_step :: int
  blkidx :: "int \<Rightarrow> int"
  dg_rand :: "32 word \<Rightarrow> int"

section \<open>\<open>gen_new_buf\<close>\<close>

text \<open>
  How often a loop from \<open>x\<close> below \<open>lim\<close> in steps of \<open>st\<close> runs. The C integers divide towards 0.
\<close>

definition step_count :: "int \<Rightarrow> int \<Rightarrow> int \<Rightarrow> nat" where
  "step_count x lim st = nat ((lim - x + st - 1) div st)"

definition c_percent :: "int \<Rightarrow> int \<Rightarrow> int" where
  "c_percent n p = (let x = c_int (n * p) in sgn x * (\<bar>x\<bar> div 100))"

fun set_ints :: "nat \<Rightarrow> nat \<Rightarrow> nat \<Rightarrow> 32 word \<Rightarrow> byte list \<Rightarrow> byte list outcome" where
  "set_ints 0 op ip v m = Ret m"
| "set_ints (Suc n) op ip v m =
     obind (put32 op v m) (\<lambda>m. obind (put32 ip v m) (set_ints n (op + 4) (ip + 4) v))"

fun xor_ints :: "nat \<Rightarrow> nat \<Rightarrow> nat \<Rightarrow> 32 word \<Rightarrow> byte list \<Rightarrow> byte list outcome" where
  "xor_ints 0 op ip v m = Ret m"
| "xor_ints (Suc n) op ip v m =
     obind (get32 ip m) (\<lambda>x. obind (put32 op (x XOR v) m) (xor_ints n (op + 4) (ip + 4) v))"

definition rand32 :: "data_globals \<Rightarrow> int \<Rightarrow> 32 word" where
  "rand32 G seed = word_of_int (dg_rand G (word_of_int seed))"

definition plain_gen_new_buf ::
  "data_globals \<Rightarrow> nat \<Rightarrow> nat \<Rightarrow> int \<Rightarrow> int \<Rightarrow> int \<Rightarrow> int \<Rightarrow> int \<Rightarrow> bool \<Rightarrow> byte list \<Rightarrow> (int \<times> byte list) outcome"
where
  "plain_gen_new_buf G ibuf obuf seed sz percent percent_interior percent_compress everything m =
     (if 100 < percent \<or> percent < 0 \<or> sz = 0 then Ret (- 1, m)
      else let iseed = rand32 G (seed + 1 + c_int (dg_numrecs64 G) * dedup_mseed G);
               isize = c_percent sz percent;
               interior_size = c_percent isize percent_interior;
               compress_size = c_percent interior_size percent_compress;
               isize = (if everything then isize else 4);
               mark = word_of_int (0xdeadbeef + dedup_mseed G);
               w = interior_size - compress_size;
               at = (\<lambda>buf. nat (int buf + w))
           in obind (set_ints (step_count 0 interior_size 4) obuf ibuf mark m) (\<lambda>m.
              let cseed = rand32 G (chid G + chid_skew G + 1 + dedup_mseed G);
                  n2 = step_count w interior_size 4; n3 = step_count interior_size isize 8
              in obind (xor_ints n2 (at obuf) (at ibuf) cseed m) (\<lambda>m.
                 obind (xor_ints n3 (at obuf + 4 * n2) (at ibuf + 4 * n2) iseed m) (\<lambda>m.
                 if \<not> everything \<or> 100 - percent \<le> 0 then Ret (0, m)
                 else let v = rand32 G (1 + seed + (chid G + chid_skew G + 1) * c_int (dg_numrecs64 G) * dedup_mseed G);
                          x = interior_size + 8 * int n3; k = 4 * (n2 + n3)
                      in obind (xor_ints (step_count x sz 8) (at obuf + k) (at ibuf + k) v m) (\<lambda>m. Ret (0, m))))))"

section \<open>\<open>special_gen_new_buf\<close>\<close>

text \<open>
  At the start of every granule two integers are stored that tell the blocks apart; they depend on the
  position. Zeros of the input stay zeros when a percentage of zeros is asked for.
\<close>

partial_function (option) mark_units ::
  "data_globals \<Rightarrow> int \<Rightarrow> int \<Rightarrow> nat \<Rightarrow> nat \<Rightarrow> int \<Rightarrow> byte list \<Rightarrow> (int \<times> byte list) outcome option"
where
  "mark_units G w lim op ip blocks m =
     (if w < lim then
        ostep (put32 op (word_of_int (0xdeadbeef + dedup_mseed G)) m) (\<lambda>m.
        ostep (put32 ip (word_of_int (0xdeadbeef + dedup_mseed G)) m) (\<lambda>m.
        mark_units G (w + dedup_granule_size G) lim (nat (int op + 4 * dedup_unit_step G))
          (nat (int ip + 4 * dedup_unit_step G)) (blocks + 1) m))
      else Some (Ret (blocks, m)))"

partial_function (option) xor_units ::
  "data_globals \<Rightarrow> (int \<Rightarrow> 32 word \<times> 32 word) \<Rightarrow> 32 word \<Rightarrow> int \<Rightarrow> int \<Rightarrow> nat \<Rightarrow> nat \<Rightarrow> int \<Rightarrow> byte list \<Rightarrow>
     (int \<times> nat \<times> nat \<times> int \<times> byte list) outcome option"
where
  "xor_units G marks v x lim op ip blocks m =
     (if x < lim then
        ostep (get32 ip m) (\<lambda>i.
        ostep (if zero_pct G \<noteq> - 1 \<and> i = 0 then Ret m else put32 op (i XOR v) m) (\<lambda>m.
        if dedup_granule_size G = 0 then Some (Crash DivByZero)
        else if x mod dedup_granule_size G = 0
        then ostep (put32 op (fst (marks x)) m) (\<lambda>m. ostep (put32 (op + 4) (snd (marks x)) m) (\<lambda>m.
             xor_units G marks v (x + 8) lim (op + 8) (ip + 8) (blocks + 1) m))
        else xor_units G marks v (x + 4) lim (op + 4) (ip + 4) blocks m))
      else Some (Ret (x, op, ip, blocks, m)))"

definition special_gen_new_buf ::
  "data_globals \<Rightarrow> nat \<Rightarrow> nat \<Rightarrow> int \<Rightarrow> int \<Rightarrow> int \<Rightarrow> int \<Rightarrow> int \<Rightarrow> bool \<Rightarrow> byte list \<Rightarrow>
     (int \<times> data_globals \<times> byte list) outcome"
where
  "special_gen_new_buf G ibuf obuf seed sz percent percent_interior percent_compress everything m =
     (let base = c_int (seed * dg_reclen G)
      in if 100 < percent \<or> percent < 0 \<or> sz = 0 then Ret (- 1, G, m)
      else let iseed = rand32 G (seed + 1 + c_int (dg_numrecs64 G) * dedup_mseed G);
               isize = c_percent sz percent;
               interior_size = c_percent isize percent_interior;
               compress_size = c_percent interior_size percent_compress;
               isize = (if everything then isize else 4);
               w = interior_size - compress_size;
               block = (\<lambda>x. word_of_int (c_int (x + base) div 4096));
               done = (\<lambda>r blocks m. Ret (r, G\<lparr>blkidx := (blkidx G)(chid G := blkidx G (chid G) + blocks)\<rparr>, m))
           in obind (loops (mark_units G 0 w obuf ibuf 0 m)) (\<lambda>(n1, m).
              let cseed = rand32 G (chid G + 1 + dedup_mseed G)
              in obind (loops (xor_units G (\<lambda>_. (word_of_int (chid G), 0xbeef)) cseed w interior_size
                   (nat (int obuf + w)) (nat (int ibuf + w)) 0 m)) (\<lambda>(_, op, ip, n2, m).
                 obind (loops (xor_units G (\<lambda>x. (block x, 0xdead)) iseed interior_size isize op ip 0 m)) (\<lambda>(x, op, ip, n3, m).
                 if \<not> everything \<or> 100 - percent \<le> 0 then done 0 (n1 + n2 + n3) m
                 else let v = rand32 G (1 + seed + (chid G + 1) * c_int (dg_numrecs64 G) * dedup_mseed G)
                      in obind (loops (xor_units G (\<lambda>x. (word_of_int (chid G), block x)) v x sz op ip 0 m))
                           (\<lambda>(_, _, _, n4, m). done 0 (n1 + n2 + n3 + n4) m)))))"

definition gen_new_buf ::
  "data_globals \<Rightarrow> nat \<Rightarrow> nat \<Rightarrow> int \<Rightarrow> int \<Rightarrow> int \<Rightarrow> int \<Rightarrow> int \<Rightarrow> bool \<Rightarrow> byte list \<Rightarrow>
     (int \<times> data_globals \<times> byte list) outcome"
where
  "gen_new_buf G ibuf obuf seed sz percent percent_interior percent_compress everything m =
     (if N_special G
      then special_gen_new_buf G ibuf obuf seed sz percent percent_interior percent_compress everything m
      else obind (plain_gen_new_buf G ibuf obuf seed sz percent percent_interior percent_compress everything m)
             (\<lambda>(r, m). Ret (r, G, m)))"

section \<open>The patterns\<close>

definition seeded :: "data_globals \<Rightarrow> data_globals" where
  "seeded G = (if diag_v G \<and> dg_no_unlink G then G\<lparr>base_time := 0\<rparr> else G)"

text \<open>The pattern of the diagnostic mode: a random number, repeated, and an offset.\<close>

definition diag_pattern :: "data_globals \<Rightarrow> int \<Rightarrow> 64 word" where
  "diag_pattern G recnum =
     (let xx2 = (if share_file G then 0 else chid G);
          r = word_of_int (dg_rand G (word_of_int (base_time G + xx2 + recnum)))
      in (push_bit 48 r OR push_bit 32 r OR push_bit 16 r OR r) + 0x0102030405060708)"

definition doubled :: "64 word \<Rightarrow> 64 word" where
  "doubled p = push_bit 32 p OR p"

definition pages :: "data_globals \<Rightarrow> nat \<Rightarrow> nat" where
  "pages G len = (len + page_size G - 1) div page_size G"

definition words_per_line :: "data_globals \<Rightarrow> nat" where
  "words_per_line G = cache_line_size G div 8"

section \<open>\<open>fill_buffer\<close>\<close>

text \<open>
  \<open>n\<close> numbers, one every \<open>st\<close> bytes, from \<open>v\<close> on with the difference \<open>d\<close>. A page size of 0 would make
  the loop over pages endless.
\<close>

fun fill_words :: "nat \<Rightarrow> nat \<Rightarrow> nat \<Rightarrow> 64 word \<Rightarrow> 64 word \<Rightarrow> byte list \<Rightarrow> byte list outcome" where
  "fill_words 0 st p v d m = Ret m"
| "fill_words (Suc n) st p v d m = obind (put64 p v m) (fill_words n st (p + st) (v + d) d)"

definition fill_buffer ::
  "data_globals \<Rightarrow> nat \<Rightarrow> nat \<Rightarrow> 64 word \<Rightarrow> int \<Rightarrow> int \<Rightarrow> byte list \<Rightarrow> (data_globals \<times> byte list) outcome"
where
  "fill_buffer G buffer len pattern sverify recnum m =
     (if dedup_flag G then
        obind (gen_new_buf G (dedup_ibuf G) buffer recnum (c_int (int len)) (dedup G) (dedup_interior G)
                 (dedup_compress G) True m) (\<lambda>(_, G, m). Ret (G, m))
      else let G = seeded G
      in obind (if sverify = 1
           then if page_size G = 0 \<and> 0 < len then Hang
                else fill_words (pages G len) (page_size G div 8 * 8) buffer (doubled pattern) 0 m
           else if cache_line_size G = 0 then Crash DivByZero
           else fill_words (len div cache_line_size G * words_per_line G) 8 buffer
                  (if diag_v G then diag_pattern G recnum else doubled pattern)
                  (if diag_v G then 0x0101010101010101 else 0) m) (\<lambda>m. Ret (G, m)))"

section \<open>\<open>verify_buffer\<close>\<close>

text \<open>The index of the first number that is not the expected one, with both.\<close>

fun check_words :: "nat \<Rightarrow> nat \<Rightarrow> nat \<Rightarrow> 64 word \<Rightarrow> 64 word \<Rightarrow> nat \<Rightarrow> byte list \<Rightarrow>
    (nat \<times> 64 word \<times> 64 word) option outcome" where
  "check_words 0 st p v d i m = Ret None"
| "check_words (Suc n) st p v d i m =
     obind (get64 p m) (\<lambda>x. if x \<noteq> v then Ret (Some (i, x, v))
       else check_words n st (p + st) (v + d) d (i + 1) m)"

definition first_byte :: "64 word \<Rightarrow> 64 word \<Rightarrow> nat" where
  "first_byte x v = length (takeWhile (\<lambda>(a, b). a = b) (zip (le_bytes x) (le_bytes v)))"

text \<open>
  The result is 1 if the data is wrong, with the position in the file that is reported. Of
  deduplicable data eight bytes are compared.
\<close>

definition verify_buffer ::
  "data_globals \<Rightarrow> nat \<Rightarrow> nat \<Rightarrow> int \<Rightarrow> int \<Rightarrow> 64 word \<Rightarrow> int \<Rightarrow> byte list \<Rightarrow>
     (int \<times> int option \<times> data_globals \<times> byte list) outcome"
where
  "verify_buffer G buffer len recnum recsize patt sverify m =
     (if sverify = 2 then
        if page_size G = 0 \<and> 0 < len then Hang
        else if pages G len \<noteq> 0 \<and> length m < buffer + (pages G len - 1) * (page_size G div 8 * 8) + 8 then Crash OverRead
        else Ret (0, None, G, m)
      else if dedup_flag G then
        obind (gen_new_buf G (dedup_ibuf G) (dedup_temp G) recnum (c_int (int len)) (dedup G) (dedup_interior G)
                 (dedup_compress G) False m) (\<lambda>(_, G, m).
        obind (get64 buffer m) (\<lambda>x. obind (get64 (dedup_temp G) m) (\<lambda>v.
        if x \<noteq> v then Ret (1, Some (recnum * recsize), G, m) else Ret (0, None, G, m))))
      else let G = seeded G
      in if sverify = 1 then
           if page_size G = 0 \<and> 0 < len then Hang
           else obind (check_words (pages G len) (page_size G div 8 * 8) buffer (doubled patt) 0 0 m) (\<lambda>bad.
                case bad of None \<Rightarrow> Ret (0, None, G, m)
                | Some (i, x, v) \<Rightarrow> Ret (1, Some (recnum * recsize + int (i * page_size G)), G, m))
         else if sverify = 0 then
           if cache_line_size G = 0 then Crash DivByZero
           else obind (check_words (len div cache_line_size G * words_per_line G) 8 buffer
                  (if diag_v G then diag_pattern G recnum else doubled patt)
                  (if diag_v G then 0x0101010101010101 else 0) 0 m) (\<lambda>bad.
                case bad of None \<Rightarrow> Ret (0, None, G, m)
                | Some (t, x, v) \<Rightarrow> Ret (1, Some (recnum * recsize +
                    int (t div words_per_line G * cache_line_size G + t mod words_per_line G * 8 + first_byte x v)), G, m))
         else Ret (0, None, G, m))"

end
