(* ===== verification/Iozone_Checks.thy ===== *)
theory Iozone_Checks
  imports Iozone_Buffers
begin

unbundle bit_operations_syntax

text \<open>
  What \<open>fill_buffer\<close> writes, byte by byte, and what \<open>verify_buffer\<close> finds: the first byte that is not
  the expected one.
\<close>

section \<open>Bytes of words\<close>

lemma bit_from_le:
  "i < LENGTH('a) \<Longrightarrow> bit (from_le bs :: 'a::len word) i \<longleftrightarrow> i div 8 < length bs \<and> bit (bs ! (i div 8)) (i mod 8)"
proof (induction bs arbitrary: i)
  case (Cons b bs)
  show ?case
  proof (cases "i < 8")
    case True
    with Cons.prems show ?thesis by (simp add: from_le_def bit_or_iff bit_push_bit_iff bit_ucast_iff)
  next
    case False
    then have d: "i div 8 = Suc ((i - 8) div 8)" "i mod 8 = (i - 8) mod 8"
      by (simp_all add: div_if [of i] mod_if [of i])
    from False have "\<not> bit (ucast b :: 'a word) i"
      by (auto simp: bit_ucast_iff dest: bit_imp_le_length)
    with False Cons.prems Cons.IH [of "i - 8"] d show ?thesis
      by (auto simp: from_le_def bit_or_iff bit_push_bit_iff)
  qed
qed (simp add: from_le_def)

lemma length_le_bytes [simp]: "length (le_bytes (w :: 'a::len word)) = LENGTH('a) div 8"
  by (simp add: le_bytes_def)

lemma from_le_bytes:
  assumes "8 dvd LENGTH('a)"
  shows "from_le (le_bytes (w :: 'a::len word)) = w"
proof (rule bit_word_eqI)
  fix i assume i: "i < LENGTH('a)"
  then have "i div 8 < LENGTH('a) div 8"
    using assms by (auto simp: dvd_def less_mult_imp_div_less mult.commute)
  with i show "bit (from_le (le_bytes w) :: 'a word) i = bit w i"
    by (simp add: bit_from_le le_bytes_def bit_ucast_iff bit_drop_bit_eq)
qed

lemma le_from_bytes:
  assumes "length bs = LENGTH('a) div 8" "8 dvd LENGTH('a)"
  shows "le_bytes (from_le bs :: 'a::len word) = bs"
proof (rule nth_equalityI)
  show "length (le_bytes (from_le bs :: 'a word)) = length bs" using assms(1) by simp
  fix k assume "k < length (le_bytes (from_le bs :: 'a word))"
  then have k: "k < LENGTH('a) div 8" by simp
  then have "8 * k + 8 \<le> LENGTH('a)" using assms(2) by (auto simp: dvd_def)
  then show "le_bytes (from_le bs :: 'a word) ! k = bs ! k"
    using k assms(1) by (intro bit_word_eqI) (simp add: le_bytes_def bit_ucast_iff bit_drop_bit_eq bit_from_le)
qed

lemma from_le_eq_iff:
  "length bs = 8 \<Longrightarrow> (from_le bs = (v :: 64 word)) = (bs = le_bytes v)"
  using from_le_bytes [of v] le_from_bytes [of bs, where 'a = 64] by auto

section \<open>Memory\<close>

lemma nth_buf_put_in:
  "p + length d \<le> length m \<Longrightarrow> i < length m \<Longrightarrow>
   buf_put p d m ! i = (if p \<le> i \<and> i < p + length d then d ! (i - p) else m ! i)"
  by (auto simp: buf_put_def nth_append min_def)

lemma slice_eq_iff:
  "p + n \<le> length m \<Longrightarrow> length bs = n \<Longrightarrow> slice p n m = bs \<longleftrightarrow> (\<forall>j < n. m ! (p + j) = bs ! j)"
  by (auto simp: list_eq_iff_nth_eq)

text \<open>The bytes that differ from another memory lie in a set of addresses.\<close>

definition changes :: "nat set \<Rightarrow> byte list \<Rightarrow> byte list \<Rightarrow> bool" where
  "changes A m m' \<longleftrightarrow> length m' = length m \<and> (\<forall>i < length m. i \<notin> A \<longrightarrow> m' ! i = m ! i)"

lemma changes_refl [simp]: "changes A m m"
  by (simp add: changes_def)

lemma changes_trans: "changes A m m' \<Longrightarrow> changes B m' m'' \<Longrightarrow> changes (A \<union> B) m m''"
  by (auto simp: changes_def)

lemma changes_mono: "changes A m m' \<Longrightarrow> A \<subseteq> B \<Longrightarrow> changes B m m'"
  by (auto simp: changes_def)

lemma changes_put: "p + length d \<le> length m \<Longrightarrow> changes {p..<p + length d} m (buf_put p d m)"
  by (auto simp: changes_def nth_buf_put_in)

section \<open>Filling\<close>

lemma fill_words_spec:
  assumes "n = 0 \<or> p + (n - 1) * st + 8 \<le> length m" "8 \<le> st"
  shows "\<exists>m'. fill_words n st p v d m = Ret m' \<and> changes {p..<p + n * st} m m' \<and>
    (\<forall>t < n. \<forall>j < 8. m' ! (p + t * st + j) = le_bytes (v + of_nat t * d) ! j)"
  using assms(1)
proof (induction n arbitrary: p v m)
  case (Suc n)
  then have b: "p + 8 \<le> length m" "n = 0 \<or> p + st + (n - 1) * st + 8 \<le> length m"
    by (cases n; simp)+
  let ?m = "buf_put p (le_bytes v) m"
  have l: "length ?m = length m" using b(1) by (simp add: length_buf_put)
  from Suc.IH [of "p + st" ?m "v + d"] b(2) l obtain m' where
    m': "fill_words n st (p + st) (v + d) d ?m = Ret m'" "changes {p + st..<p + st + n * st} ?m m'"
      "\<forall>t < n. \<forall>j < 8. m' ! (p + st + t * st + j) = le_bytes (v + d + of_nat t * d) ! j"
    by auto
  have c: "changes {p..<p + 8} m ?m"
    using changes_put [of p "le_bytes v" m] b(1) by simp
  have "m' ! (p + t * st + j) = le_bytes (v + of_nat t * d) ! j" if "t < Suc n" "j < 8" for t j
  proof (cases t)
    case 0
    have "p + j < length m" "p + j \<notin> {p + st..<p + st + n * st}" using b(1) that(2) assms(2) by auto
    with m'(2) l have "m' ! (p + j) = ?m ! (p + j)" by (auto simp: changes_def)
    with 0 b(1) that(2) \<open>p + j < length m\<close> show ?thesis by (simp add: nth_buf_put_in)
  next
    case (Suc s)
    with m'(3) that show ?thesis by (simp add: algebra_simps)
  qed
  moreover have "changes {p..<p + Suc n * st} m m'"
    by (rule changes_mono [OF changes_trans [OF c m'(2)]]) (use assms(2) in auto)
  ultimately show ?case
    using m'(1) b(1) by (auto simp: put64_def)
qed simp

section \<open>Checking\<close>

lemma check_words_step:
  assumes "p + 8 \<le> length m"
  shows "check_words (Suc n) st p v d i m =
    (if slice p 8 m = le_bytes v then check_words n st (p + st) (v + d) d (i + 1) m
     else Ret (Some (i, from_le (slice p 8 m), v)))"
proof -
  have "(from_le (slice p 8 m) = v) = (slice p 8 m = le_bytes v)"
    using assms by (intro from_le_eq_iff) simp
  with assms show ?thesis by (simp add: get64_def)
qed

lemma check_bounds:
  "Suc n = 0 \<or> p + (Suc n - 1) * st + 8 \<le> length (m :: byte list) \<Longrightarrow>
   p + 8 \<le> length m \<and> (n = 0 \<or> p + st + (n - 1) * st + 8 \<le> length m)"
  by (cases n) simp_all

lemma check_words_good:
  assumes "n = 0 \<or> p + (n - 1) * st + 8 \<le> length m"
    and "\<And>t. t < n \<Longrightarrow> slice (p + t * st) 8 m = le_bytes (v + of_nat t * d)"
  shows "check_words n st p v d i m = Ret None"
  using assms
proof (induction n arbitrary: p v i)
  case (Suc n)
  from check_bounds [OF Suc.prems(1)] have b: "p + 8 \<le> length m" "n = 0 \<or> p + st + (n - 1) * st + 8 \<le> length m"
    by auto
  have "slice (p + st + t * st) 8 m = le_bytes (v + d + of_nat t * d)" if "t < n" for t
    using Suc.prems(2) [of "Suc t"] that by (simp add: algebra_simps)
  with Suc.IH [of "p + st" "v + d" "i + 1"] b(2) have "check_words n st (p + st) (v + d) d (i + 1) m = Ret None"
    by blast
  with Suc.prems(2) [of 0] show ?case by (simp add: check_words_step [OF b(1)] del: check_words.simps)
qed simp

lemma check_words_bad:
  assumes "n = 0 \<or> p + (n - 1) * st + 8 \<le> length m" "t < n"
    and "\<And>s. s < t \<Longrightarrow> slice (p + s * st) 8 m = le_bytes (v + of_nat s * d)"
    and "slice (p + t * st) 8 m \<noteq> le_bytes (v + of_nat t * d)"
  shows "check_words n st p v d i m = Ret (Some (i + t, from_le (slice (p + t * st) 8 m), v + of_nat t * d))"
  using assms
proof (induction n arbitrary: p v i t)
  case (Suc n)
  from check_bounds [OF Suc.prems(1)] have b: "p + 8 \<le> length m" "n = 0 \<or> p + st + (n - 1) * st + 8 \<le> length m"
    by auto
  show ?case
  proof (cases t)
    case 0
    with Suc.prems(4) show ?thesis by (simp add: check_words_step [OF b(1)] del: check_words.simps)
  next
    case (Suc s)
    have "slice (p + st + r * st) 8 m = le_bytes (v + d + of_nat r * d)" if "r < s" for r
      using Suc.prems(3) [of "Suc r"] that Suc by (simp add: algebra_simps)
    moreover have "slice (p + st + s * st) 8 m \<noteq> le_bytes (v + d + of_nat s * d)"
      using Suc.prems(4) Suc by (simp add: algebra_simps)
    moreover have "s < n" using Suc.prems(2) Suc by simp
    ultimately have "check_words n st (p + st) (v + d) d (i + 1) m =
        Ret (Some (i + 1 + s, from_le (slice (p + st + s * st) 8 m), v + d + of_nat s * d))"
      using Suc.IH [of "p + st" s "v + d" "i + 1"] b(2) by blast
    moreover have "slice p 8 m = le_bytes v"
      using Suc.prems(3) [of 0] Suc by simp
    ultimately show ?thesis
      using Suc by (simp add: check_words_step [OF b(1)] algebra_simps del: check_words.simps)
  qed
qed simp

section \<open>Bytes that are expected\<close>

text \<open>The i-th byte of the words from \<open>v\<close> on.\<close>

definition word_byte :: "64 word \<Rightarrow> 64 word \<Rightarrow> nat \<Rightarrow> byte" where
  "word_byte v d i = le_bytes (v + of_nat (i div 8) * d) ! (i mod 8)"

lemma word_bytes_slice:
  assumes "p + 8 * n \<le> length m"
  shows "(\<forall>i < 8 * n. m ! (p + i) = word_byte v d i) \<longleftrightarrow>
    (\<forall>t < n. slice (p + t * 8) 8 m = le_bytes (v + of_nat t * d))" (is "?L = ?R")
proof
  assume L: ?L
  show ?R
  proof (intro allI impI)
    fix t assume t: "t < n"
    show "slice (p + t * 8) 8 m = le_bytes (v + of_nat t * d)"
    proof (rule nth_equalityI)
      fix j assume "j < length (slice (p + t * 8) 8 m)"
      then have j: "j < 8" "t * 8 + j < 8 * n" using assms t by (simp_all add: min_def split: if_splits)
      have "(t * 8 + j) div 8 = t" "(t * 8 + j) mod 8 = j" using j(1) by simp_all
      with L j t assms show "slice (p + t * 8) 8 m ! j = le_bytes (v + of_nat t * d) ! j"
        using L [rule_format, OF j(2)] by (simp add: word_byte_def add.assoc)
    qed (use assms t in simp)
  qed
next
  assume R: ?R
  show ?L
  proof (intro allI impI)
    fix i assume i: "i < 8 * n"
    then have t: "i div 8 < n" by auto
    have e: "p + i div 8 * 8 + i mod 8 = p + i" by simp
    have "slice (p + i div 8 * 8) 8 m ! (i mod 8) = m ! (p + i div 8 * 8 + i mod 8)"
      using assms t by (intro nth_slice) simp_all
    with R t e show "m ! (p + i) = word_byte v d i" by (simp add: word_byte_def add.commute)
  qed
qed

lemma first_byte_at:
  assumes "length bs = 8" "length cs = 8" "k < 8" "\<forall>j < k. bs ! j = cs ! j" "bs ! k \<noteq> cs ! k"
  shows "length (takeWhile (\<lambda>(a, b). a = b) (zip bs cs)) = k"
proof -
  have "takeWhile (\<lambda>(a, b). a = b) (zip bs cs) = take k (zip bs cs)"
    using assms by (intro takeWhile_eq_take_P_nth) auto
  with assms(1-3) show ?thesis by simp
qed

section \<open>The two routines\<close>

definition first_word :: "data_globals \<Rightarrow> 64 word \<Rightarrow> int \<Rightarrow> 64 word" where
  "first_word G pattern recnum = (if diag_v G then diag_pattern (seeded G) recnum else doubled pattern)"

definition word_step :: "data_globals \<Rightarrow> 64 word" where
  "word_step G = (if diag_v G then 0x0101010101010101 else 0)"

lemma seeded_simps [simp]:
  "seeded (seeded G) = seeded G" "diag_v (seeded G) = diag_v G" "dedup_flag (seeded G) = dedup_flag G"
  "page_size (seeded G) = page_size G" "cache_line_size (seeded G) = cache_line_size G"
  "pages (seeded G) = pages G" "words_per_line (seeded G) = words_per_line G"
  by (auto simp: seeded_def pages_def words_per_line_def fun_eq_iff)

text \<open>\<open>n\<close> is the number of bytes that are checked: whole cache lines.\<close>

lemma line_words:
  assumes "8 dvd cache_line_size G"
  shows "8 * (len div cache_line_size G * words_per_line G) = len div cache_line_size G * cache_line_size G"
  using assms by (auto simp: words_per_line_def dvd_def)

lemma fill_buffer_bytes:
  assumes "\<not> dedup_flag G" "sverify \<noteq> 1" "0 < cache_line_size G" "8 dvd cache_line_size G"
    and "buffer + len \<le> length m"
  defines "n \<equiv> len div cache_line_size G * cache_line_size G"
  shows "\<exists>m'. fill_buffer G buffer len pattern sverify recnum m = Ret (seeded G, m') \<and>
    changes {buffer..<buffer + n} m m' \<and>
    (\<forall>i < n. m' ! (buffer + i) = word_byte (first_word G pattern recnum) (word_step G) i)"
proof -
  let ?k = "len div cache_line_size G * words_per_line G"
  have k: "8 * ?k = n" unfolding n_def by (rule line_words [OF assms(4)])
  have "n \<le> len" unfolding n_def by simp
  with k assms(5) have b: "buffer + 8 * ?k \<le> length m" by simp
  then have "?k = 0 \<or> buffer + (?k - 1) * 8 + 8 \<le> length m" by (cases ?k) simp_all
  from fill_words_spec [OF this order.refl] obtain m' where
    m': "fill_words ?k 8 buffer (first_word G pattern recnum) (word_step G) m = Ret m'"
      "changes {buffer..<buffer + ?k * 8} m m'"
      "\<forall>t < ?k. \<forall>j < 8. m' ! (buffer + t * 8 + j) = le_bytes (first_word G pattern recnum + of_nat t * word_step G) ! j"
    by blast
  have "m' ! (buffer + i) = word_byte (first_word G pattern recnum) (word_step G) i" if "i < n" for i
  proof -
    have "i div 8 < ?k" using that k by auto
    with m'(3) [rule_format, of "i div 8" "i mod 8"] show ?thesis
      by (simp add: word_byte_def ac_simps)
  qed
  moreover have "changes {buffer..<buffer + n} m m'"
    using m'(2) k by (simp add: mult.commute)
  ultimately show ?thesis
    using m'(1) assms(1-3) by (simp add: fill_buffer_def first_word_def word_step_def Let_def)
qed

lemma verify_buffer_bytes:
  fixes recnum :: int and patt :: "64 word"
  assumes "\<not> dedup_flag G" "0 < cache_line_size G" "8 dvd cache_line_size G" "buffer + len \<le> length m"
  defines "n \<equiv> len div cache_line_size G * cache_line_size G"
    and "want \<equiv> word_byte (first_word G patt recnum) (word_step G)"
  shows "\<forall>i < n. m ! (buffer + i) = want i \<Longrightarrow>
      verify_buffer G buffer len recnum recsize patt 0 m = Ret (0, None, seeded G, m)"
    and "i < n \<Longrightarrow> \<forall>j < i. m ! (buffer + j) = want j \<Longrightarrow> m ! (buffer + i) \<noteq> want i \<Longrightarrow>
      verify_buffer G buffer len recnum recsize patt 0 m = Ret (1, Some (recnum * recsize + int i), seeded G, m)"
proof -
  let ?k = "len div cache_line_size G * words_per_line G"
  let ?v = "first_word G patt recnum" and ?d = "word_step G"
  have k: "8 * ?k = n" unfolding n_def by (rule line_words [OF assms(3)])
  have "n \<le> len" unfolding n_def by simp
  with k assms(4) have b: "buffer + 8 * ?k \<le> length m" by simp
  then have b': "?k = 0 \<or> buffer + (?k - 1) * 8 + 8 \<le> length m" by (cases ?k) simp_all
  have u: "verify_buffer G buffer len recnum recsize patt 0 m =
    obind (check_words ?k 8 buffer ?v ?d 0 m) (\<lambda>bad. case bad of None \<Rightarrow> Ret (0, None, seeded G, m)
      | Some (t, x, v) \<Rightarrow> Ret (1, Some (recnum * recsize + int (t div words_per_line G * cache_line_size G +
          t mod words_per_line G * 8 + first_byte x v)), seeded G, m))"
    using assms(1,2) by (simp add: verify_buffer_def first_word_def word_step_def Let_def
      del: of_nat_add of_nat_mult of_nat_numeral cong: option.case_cong)
  {
    assume "\<forall>i < n. m ! (buffer + i) = want i"
    with word_bytes_slice [OF b, of ?v ?d] k have "\<forall>t < ?k. slice (buffer + t * 8) 8 m = le_bytes (?v + of_nat t * ?d)"
      by (simp add: want_def)
    with check_words_good [OF b', of ?v ?d 0] u show "verify_buffer G buffer len recnum recsize patt 0 m = Ret (0, None, seeded G, m)"
      by simp
  }
  assume i: "i < n" and good: "\<forall>j < i. m ! (buffer + j) = want j" and bad: "m ! (buffer + i) \<noteq> want i"
  let ?t = "i div 8" and ?j = "i mod 8"
  have t: "?t < ?k" using i k by auto
  have bt: "buffer + 8 * ?t \<le> length m" using b t by simp
  have "\<forall>j < 8 * ?t. m ! (buffer + j) = want j" using good by auto
  with word_bytes_slice [OF bt, of ?v ?d] have pre: "\<forall>s < ?t. slice (buffer + s * 8) 8 m = le_bytes (?v + of_nat s * ?d)"
    by (simp add: want_def)
  have s: "slice (buffer + ?t * 8) 8 m ! j = m ! (buffer + (8 * ?t + j))" if "j < 8" for j
    using that b t by (subst nth_slice) (simp_all add: ac_simps)
  have w: "want (8 * ?t + j) = le_bytes (?v + of_nat ?t * ?d) ! j" if "j < 8" for j
    using that by (simp add: want_def word_byte_def)
  have diff: "slice (buffer + ?t * 8) 8 m ! ?j \<noteq> le_bytes (?v + of_nat ?t * ?d) ! ?j"
    using s [of ?j] w [of ?j] bad by simp
  have same: "\<forall>j < ?j. slice (buffer + ?t * 8) 8 m ! j = le_bytes (?v + of_nat ?t * ?d) ! j"
  proof (intro allI impI)
    fix j assume "j < ?j"
    moreover have "i mod 8 < 8" "8 * ?t + ?j = i" by simp_all
    ultimately have "j < 8" "8 * ?t + j < i" by linarith+
    with s [of j] w [of j] good show "slice (buffer + ?t * 8) 8 m ! j = le_bytes (?v + of_nat ?t * ?d) ! j" by simp
  qed
  have len: "length (slice (buffer + ?t * 8) 8 m) = 8" using b t by simp
  have "first_byte (from_le (slice (buffer + ?t * 8) 8 m)) (?v + of_nat ?t * ?d) = ?j"
    unfolding first_byte_def using len le_from_bytes [of "slice (buffer + ?t * 8) 8 m", where 'a = 64]
    by (intro first_byte_at) (use diff same in simp_all)
  moreover have "slice (buffer + ?t * 8) 8 m \<noteq> le_bytes (?v + of_nat ?t * ?d)"
    using diff by auto
  ultimately have "verify_buffer G buffer len recnum recsize patt 0 m =
    Ret (1, Some (recnum * recsize + int (?t div words_per_line G * cache_line_size G + ?t mod words_per_line G * 8 + ?j)), seeded G, m)"
    using check_words_bad [OF b' t, of ?v ?d 0] pre u by simp
  moreover have "?t div words_per_line G * cache_line_size G + ?t mod words_per_line G * 8 + ?j = i"
  proof -
    from assms(3) have c: "cache_line_size G = words_per_line G * 8" by (simp add: words_per_line_def)
    have "?t div words_per_line G * cache_line_size G + ?t mod words_per_line G * 8 =
      (?t div words_per_line G * words_per_line G + ?t mod words_per_line G) * 8"
      unfolding c by (simp only: add_mult_distrib mult.assoc)
    also have "\<dots> = ?t * 8" by (simp only: div_mult_mod_eq)
    finally show ?thesis by simp
  qed
  ultimately show "verify_buffer G buffer len recnum recsize patt 0 m = Ret (1, Some (recnum * recsize + int i), seeded G, m)"
    by simp
qed

section \<open>Deduplicable data\<close>

lemma xor_ints_spec:
  assumes "op + 4 * n \<le> length m" "ip + 4 * n \<le> length m"
  shows "\<exists>m'. xor_ints n op ip v m = Ret m' \<and> changes {op..<op + 4 * n} m m' \<and>
    (0 < n \<longrightarrow> slice op 4 m' = le_bytes (from_le (slice ip 4 m) XOR v :: 32 word))"
  using assms
proof (induction n arbitrary: op ip m)
  case (Suc n)
  let ?x = "from_le (slice ip 4 m) XOR v :: 32 word"
  let ?m = "buf_put op (le_bytes ?x) m"
  have b: "op + 4 \<le> length m" "ip + 4 \<le> length m" using Suc.prems by simp_all
  have c: "changes {op..<op + 4} m ?m" "length ?m = length m"
    using changes_put [of op "le_bytes ?x" m] b(1) by simp_all
  have "op + 4 + 4 * n \<le> length ?m" "ip + 4 + 4 * n \<le> length ?m" using Suc.prems c(2) by simp_all
  from Suc.IH [OF this] obtain m' where
    m': "xor_ints n (op + 4) (ip + 4) v ?m = Ret m'" "changes {op + 4..<op + 4 + 4 * n} ?m m'"
    by blast
  have "slice op 4 m' = le_bytes ?x"
  proof (rule nth_equalityI)
    fix j assume "j < length (slice op 4 m')"
    then have "j < 4" using length_slice_le [of op 4 m'] by simp
    with m'(2) b(1) c(2) show "slice op 4 m' ! j = le_bytes ?x ! j"
      by (simp add: changes_def nth_buf_put_in)
  qed (use m'(2) b(1) c(2) in \<open>simp add: changes_def\<close>)
  moreover have "changes {op..<op + 4 * Suc n} m m'"
    by (rule changes_mono [OF changes_trans [OF c(1) m'(2)]]) auto
  ultimately show ?case
    using m'(1) b by (auto simp: get32_def put32_def)
qed simp

lemma c_percent_bounds:
  assumes "0 \<le> n" "n * 100 < 2 ^ 31" "0 \<le> p" "p \<le> 100"
  shows "c_percent n p = n * p div 100" "0 \<le> n * p div 100" "n * p div 100 \<le> n"
proof -
  have "n * p \<le> n * 100" using assms(1,4) by (rule mult_left_mono [rotated])
  moreover have "0 \<le> n * p" using assms(1,3) by simp
  ultimately have "c_int (n * p) = n * p" using assms(2) by (intro c_int_id) auto
  with \<open>0 \<le> n * p\<close> show "c_percent n p = n * p div 100"
    by (auto simp: c_percent_def Let_def sgn_if)
  show "0 \<le> n * p div 100" using \<open>0 \<le> n * p\<close> by simp
  show "n * p div 100 \<le> n" using \<open>n * p \<le> n * 100\<close> by linarith
qed

lemma c_percent_0 [simp]: "c_percent n 0 = 0" "c_percent 0 p = 0"
  by (simp_all add: c_percent_def c_int_def)

lemma steps_0 [simp]: "step_count 0 0 4 = 0" "step_count 0 4 8 = 1"
  by (simp_all add: step_count_def)

text \<open>Without data that is the same within a file, the generator has two loops of four bytes in eight.\<close>

lemma plain_gen_spec:
  assumes "0 < sz" "8 dvd sz" "int sz * 100 < 2 ^ 31" "0 \<le> percent" "percent \<le> 100"
    and "obuf + sz \<le> length m" "ibuf + sz \<le> length m"
  shows "\<exists>m'. plain_gen_new_buf G ibuf obuf seed (int sz) percent 0 pc True m = Ret (0, m') \<and>
    changes {obuf..<obuf + sz div 2} m m' \<and>
    (100 \<le> int sz * percent \<longrightarrow> slice obuf 4 m' = le_bytes (from_le (slice ibuf 4 m) XOR
      rand32 G (seed + 1 + c_int (dg_numrecs64 G) * dedup_mseed G)))"
proof -
  let ?isize = "int sz * percent div 100"
  let ?iseed = "rand32 G (seed + 1 + c_int (dg_numrecs64 G) * dedup_mseed G)"
  let ?v = "rand32 G (1 + seed + (chid G + chid_skew G + 1) * c_int (dg_numrecs64 G) * dedup_mseed G)"
  note p = c_percent_bounds [OF _ assms(3,4,5)]
  have iz: "c_percent (int sz) percent = ?isize" "0 \<le> ?isize" "?isize \<le> int sz"
    using p by simp_all
  obtain q where q: "sz = 8 * q" using assms(2) by (auto simp: dvd_def)
  define n3 where "n3 = step_count 0 ?isize 8"
  have n3: "n3 \<le> q"
    using iz(2,3) q by (simp add: n3_def step_count_def nat_le_iff)
  have n4: "step_count (8 * int n3) (int sz) 8 = q - n3"
    using n3 q by (simp add: step_count_def of_nat_diff [symmetric])
  have half: "sz div 2 = 4 * q" using q by simp
  have b3: "obuf + 4 * n3 \<le> length m" "ibuf + 4 * n3 \<le> length m" using n3 q assms(6,7) by simp_all
  from xor_ints_spec [OF b3, of ?iseed] obtain m3 where
    m3: "xor_ints n3 obuf ibuf ?iseed m = Ret m3" "changes {obuf..<obuf + 4 * n3} m m3"
      "0 < n3 \<longrightarrow> slice obuf 4 m3 = le_bytes (from_le (slice ibuf 4 m) XOR ?iseed)" by blast
  have l3: "length m3 = length m" using m3(2) by (simp add: changes_def)
  let ?k = "4 * n3"
  have b4: "obuf + ?k + 4 * (q - n3) \<le> length m3" "ibuf + ?k + 4 * (q - n3) \<le> length m3"
    using n3 q assms(6,7) l3 by simp_all
  from xor_ints_spec [OF b4, of ?v] obtain m4 where
    m4: "xor_ints (q - n3) (obuf + ?k) (ibuf + ?k) ?v m3 = Ret m4"
      "changes {obuf + ?k..<obuf + ?k + 4 * (q - n3)} m3 m4" by blast
  let ?m = "if 100 - percent \<le> 0 then m3 else m4"
  have "plain_gen_new_buf G ibuf obuf seed (int sz) percent 0 pc True m = Ret (0, ?m)"
    using assms(1,4,5) iz(1) m3(1) m4(1) n4 unfolding n3_def [symmetric]
    by (simp add: plain_gen_new_buf_def Let_def n3_def [symmetric] add.assoc)
  moreover have "changes {obuf..<obuf + sz div 2} m ?m"
  proof -
    have "changes {obuf..<obuf + sz div 2} m m3"
      by (rule changes_mono [OF m3(2)]) (use n3 half in auto)
    moreover have "changes {obuf..<obuf + sz div 2} m m4"
      by (rule changes_mono [OF changes_trans [OF m3(2) m4(2)]]) (use n3 half in auto)
    ultimately show ?thesis by simp
  qed
  moreover have "slice obuf 4 ?m = le_bytes (from_le (slice ibuf 4 m) XOR ?iseed)" if "100 \<le> int sz * percent"
  proof -
    have "0 < n3" using that by (simp add: n3_def step_count_def)
    with m3(3) have s: "slice obuf 4 m3 = le_bytes (from_le (slice ibuf 4 m) XOR ?iseed)" by simp
    have "slice obuf 4 m4 = slice obuf 4 m3"
    proof (rule nth_equalityI)
      fix j assume "j < length (slice obuf 4 m4)"
      then have "j < 4" using length_slice_le [of obuf 4 m4] by simp
      with m4(2) b3 l3 \<open>0 < n3\<close> show "slice obuf 4 m4 ! j = slice obuf 4 m3 ! j"
        by (simp add: changes_def)
    qed (use m4(2) in \<open>simp add: changes_def slice_def\<close>)
    with s show ?thesis by simp
  qed
  ultimately show ?thesis by blast
qed

lemma plain_gen_verify:
  assumes "0 < sz" "0 \<le> percent" "percent \<le> 100" "obuf + 4 \<le> length m" "ibuf + 4 \<le> length m"
  shows "\<exists>m'. plain_gen_new_buf G ibuf obuf seed sz percent 0 pc False m = Ret (0, m') \<and>
    changes {obuf..<obuf + 4} m m' \<and>
    slice obuf 4 m' = le_bytes (from_le (slice ibuf 4 m) XOR rand32 G (seed + 1 + c_int (dg_numrecs64 G) * dedup_mseed G))"
proof -
  have b: "obuf + 4 * 1 \<le> length m" "ibuf + 4 * 1 \<le> length m" using assms(4,5) by simp_all
  from xor_ints_spec [OF b, of "rand32 G (seed + 1 + c_int (dg_numrecs64 G) * dedup_mseed G)"] assms(1-3)
  show ?thesis by (auto simp: plain_gen_new_buf_def Let_def simp del: xor_ints.simps(2))
qed

lemma takeWhile_short: "x \<in> set xs \<Longrightarrow> \<not> P x \<Longrightarrow> length (takeWhile P xs) < length xs"
  by (induction xs) auto

lemma slice_8: "p + 8 \<le> length m \<Longrightarrow> slice p 8 m = slice p 4 m @ slice (p + 4) 4 m"
  by (simp add: slice_def add.commute take_add [of 4 4, simplified])

lemma slice_changes:
  assumes "changes A m m'" "{p..<p + n} \<inter> A = {}" "p + n \<le> length m"
  shows "slice p n m' = slice p n m"
proof (rule nth_equalityI)
  have l: "length m' = length m" using assms(1) by (simp add: changes_def)
  then show "length (slice p n m') = length (slice p n m)" using assms(3) by simp
  fix j assume "j < length (slice p n m')"
  then have "j < n" using length_slice_le [of p n m'] by simp
  moreover from this assms(2) have "p + j \<in> {p..<p + n}" by simp
  then have "p + j \<notin> A" using assms(2) by blast
  ultimately show "slice p n m' ! j = slice p n m ! j"
    using assms l by (simp add: changes_def)
qed

end
