(* ===== verification/Iozone_Data_Properties.thy ===== *)
theory Iozone_Data_Properties
  imports Iozone_Checks
begin

text \<open>
  The properties of the data that \<open>iozone.c\<close> writes and checks.
\<close>

definition demo_data :: data_globals where
  "demo_data = \<lparr>page_size = 16, cache_line_size = 8, chid = 0, share_file = False, diag_v = True, dg_no_unlink = False,
     base_time = 5, dedup_flag = False, N_special = False, dedup = 50, dedup_interior = 0, dedup_compress = 0,
     dedup_ibuf = 16, dedup_temp = 32, dedup_mseed = 1, chid_skew = 0, dg_numrecs64 = 1, dg_reclen = 16, zero_pct = - 1,
     dedup_granule_size = 4096, dedup_unit_step = 1024, blkidx = (\<lambda>_. 0), dg_rand = (\<lambda>s. uint s * 7)\<rparr>"





text \<open>
  The check of deduplicable data can fail on good data. \<open>verify_buffer\<close> generates four bytes of
  the data that it expects but compares eight: right after \<open>fill_buffer\<close> with the same record it
  accepts the buffer only if the next four bytes of \<open>dedup_temp\<close>, left over from elsewhere, agree too.
\<close>

theorem dedup_verify_compares_leftover_bytes:
  assumes "dedup_flag G" "\<not> N_special G" "dedup_interior G = 0" "0 \<le> dedup G" "dedup G \<le> 100"
    and "0 < len" "8 dvd len" "int len * 100 < 2 ^ 31" "100 \<le> int len * dedup G"
    and "buffer + len \<le> length m" "dedup_ibuf G + len \<le> length m" "dedup_temp G + len \<le> length m"
    and "{buffer..<buffer + len} \<inter> {dedup_ibuf G..<dedup_ibuf G + len} = {}"
    and "{buffer..<buffer + len} \<inter> {dedup_temp G..<dedup_temp G + len} = {}"
    and "fill_buffer G buffer len pattern sverify recnum m = Ret (G, m')"
  shows "\<exists>m''. verify_buffer G buffer len recnum recsize patt 0 m' =
    (if slice (buffer + 4) 4 m' = slice (dedup_temp G + 4) 4 m then Ret (0, None, G, m'')
     else Ret (1, Some (recnum * recsize), G, m''))"
proof -
  have c: "c_int (int len) = int len" using assms(8) by (intro c_int_id) simp_all
  have l8: "8 \<le> len" using assms(6,7) by (auto simp: dvd_def)
  let ?i = "dedup_ibuf G" and ?t = "dedup_temp G"
  let ?s = "rand32 G (recnum + 1 + c_int (dg_numrecs64 G) * dedup_mseed G)"
  from plain_gen_spec [OF assms(6,7,8,4,5,10,11), of G recnum "dedup_compress G"] assms(1-3,9,15) c have
    m': "changes {buffer..<buffer + len div 2} m m'" "slice buffer 4 m' = le_bytes (from_le (slice ?i 4 m) XOR ?s)"
    by (auto simp: fill_buffer_def gen_new_buf_def)
  have l: "length m' = length m" using m'(1) by (simp add: changes_def)
  have b: "?t + 4 \<le> length m'" "?i + 4 \<le> length m'" using assms(11,12) l l8 by simp_all
  from plain_gen_verify [OF _ assms(4,5) b, of "int len" G recnum "dedup_compress G"] assms(6) obtain m'' where
    m'': "plain_gen_new_buf G ?i ?t recnum (int len) (dedup G) 0 (dedup_compress G) False m' = Ret (0, m'')"
      "changes {?t..<?t + 4} m' m''" "slice ?t 4 m'' = le_bytes (from_le (slice ?i 4 m') XOR ?s)"
    by auto
  have l2: "length m'' = length m" using m''(2) l by (simp add: changes_def)
  have i: "slice ?i 4 m' = slice ?i 4 m"
    by (rule slice_changes [OF m'(1)]) (use assms(11,13) l8 in auto)
  have bu: "slice buffer 4 m'' = slice buffer 4 m'" "slice (buffer + 4) 4 m'' = slice (buffer + 4) 4 m'"
    by (rule slice_changes [OF m''(2)]; use assms(10,14) l l8 in auto)+
  have te: "slice (?t + 4) 4 m'' = slice (?t + 4) 4 m"
  proof -
    have "slice (?t + 4) 4 m'' = slice (?t + 4) 4 m'"
      by (rule slice_changes [OF m''(2)]) (use assms(12) l l8 in auto)
    also have "\<dots> = slice (?t + 4) 4 m"
      by (rule slice_changes [OF m'(1)]) (use assms(12,14) l8 in auto)
    finally show ?thesis .
  qed
  have b8: "buffer + 8 \<le> length m''" "?t + 8 \<le> length m''" using assms(10,12) l2 l8 by simp_all
  have "from_le (slice buffer 8 m'') = (from_le (slice ?t 8 m'') :: 64 word) \<longleftrightarrow> slice buffer 8 m'' = slice ?t 8 m''"
    using b8 from_le_eq_iff [of "slice buffer 8 m''" "from_le (slice ?t 8 m'')"] le_from_bytes [of "slice ?t 8 m''", where 'a = 64]
    by simp
  also have "\<dots> \<longleftrightarrow> slice (buffer + 4) 4 m' = slice (?t + 4) 4 m"
    using slice_8 [OF b8(1)] slice_8 [OF b8(2)] bu te m'(2) m''(3) i by simp
  finally have "(if from_le (slice buffer 8 m'') \<noteq> (from_le (slice ?t 8 m'') :: 64 word)
      then Ret (1, Some (recnum * recsize), G, m'') else Ret (0, None, G, m'')) =
    (if slice (buffer + 4) 4 m' = slice (?t + 4) 4 m then Ret (0, None, G, m'')
     else Ret (1, Some (recnum * recsize), G, m''))"
    by simp
  then have "verify_buffer G buffer len recnum recsize patt 0 m' =
    (if slice (buffer + 4) 4 m' = slice (?t + 4) 4 m then Ret (0, None, G, m'')
     else Ret (1, Some (recnum * recsize), G, m''))"
    using assms(1-3) c m''(1) b8 by (simp add: verify_buffer_def gen_new_buf_def get64_def)
  then show ?thesis by blast
qed

lemma dedup_verify_compares_leftover_bytes_witness:
  "\<exists>m' m''. fill_buffer (demo_data\<lparr>dedup_flag := True\<rparr>) 0 16 7 0 1 (replicate 64 9) = Ret (demo_data\<lparr>dedup_flag := True\<rparr>, m') \<and>
    verify_buffer (demo_data\<lparr>dedup_flag := True\<rparr>) 0 16 1 16 7 0 m' =
      (if slice 4 4 m' = replicate 4 9 then Ret (0, None, demo_data\<lparr>dedup_flag := True\<rparr>, m'')
       else Ret (1, Some 16, demo_data\<lparr>dedup_flag := True\<rparr>, m''))"
proof -
  let ?G = "demo_data\<lparr>dedup_flag := True\<rparr>"
  have d: "dedup_flag ?G" "\<not> N_special ?G" "dedup_interior ?G = 0" "dedup ?G = 50" "dedup_ibuf ?G = 16" "dedup_temp ?G = 32"
    by (simp_all add: demo_data_def)
  obtain m' where f: "fill_buffer ?G 0 16 7 0 1 (replicate 64 9) = Ret (?G, m')"
    using plain_gen_spec [of 16 50 0 "replicate 64 9" 16 ?G 1 0] d
    by (auto simp: fill_buffer_def gen_new_buf_def demo_data_def)
  have "slice (dedup_temp ?G + 4) 4 (replicate 64 9) = replicate 4 (9 :: byte)"
    unfolding d(6) by (simp add: slice_def)
  with dedup_verify_compares_leftover_bytes [OF d(1-3) _ _ _ _ _ _ _ _ _ _ _ f, of 16 7] d(4-6) f show ?thesis
    by auto
qed

end
