(* ===== verification/Spec2Isabelle.thy ===== *)
theory Spec2Isabelle
  imports Cache_Help Cfs_Paths Meta_Properties Mount_Properties Xls_Reader Midi_Encoder Fileop_Properties Libasync_Properties
    Iozone_Properties Pit_Properties Iozone_Load_Properties Iozone_Data_Properties
begin

text \<open>
  CacheFS: a FUSE file system that passes requests to a directory mounted from a NAS and keeps
  blocks of the files it reads and writes in a local cache directory. This library models the C
  code under \<open>src/\<close> of the repository and proves what it keeps, what it delivers, and where it
  does not do what it means to.

  \<^bold>\<open>The program.\<close> \<open>src/cachefs.c\<close> holds \<open>main\<close> and the handlers of the FUSE requests,
  \<open>src/metadata/meta.c\<close> the record of the cached files and blocks in an SQLite database,
  \<open>src/cacheHelp.c\<close> the alignment of offsets to blocks, \<open>src/log.c\<close> the log. A handler turns the
  path of its request into a path below the NAS directory and, by removing the slashes, into a
  name in the cache directory; \<open>cfs_open\<close> pairs a descriptor of each; \<open>cfs_read\<close> and \<open>cfs_write\<close>
  ask the metadata which blocks are cached, transfer whole blocks, and record them through
  \<open>cfs_cacheWrite\<close>.

  \<^bold>\<open>What is a parameter.\<close> SQLite, the operating system, FUSE and the C library are not part of
  the repository. SQLite is the record \<open>sqlite3\<close> of interface functions over an arbitrary
  connection state (\<open>Sqlite_Api\<close>), the system the record \<open>kernel\<close>, an arbitrary function of the
  call and the state (\<open>Posix_Api\<close>). Their documented behaviour is stated by locales:
  \<open>sqlite_engine\<close> (a statement that succeeds does what its text says, one that fails changes
  nothing, any step may fail), \<open>sqlite_reliable\<close> (no failure without a reason in the tables),
  \<open>posix_files\<close> and \<open>posix_reliable\<close> (what reads and writes do to the contents of files),
  \<open>dir_streams\<close> (directory streams), and \<open>file_cache\<close>, which joins SQLite and files. Each is
  interpreted on executable definitions: \<open>Sqlite_Engine\<close> is a small engine for the statements of
  the program with injected faults, \<open>Posix_Files\<close> a small file system.

  \<^bold>\<open>The model.\<close> A C function is a HOL function that takes the interfaces it uses and the state
  and returns its C result with the new state. The state of \<open>meta.c\<close> is the record \<open>meta\<close>
  (connection, \<open>meta_block_size\<close>, \<open>cache_used_size\<close>); the handlers work on \<open>world\<close>, which extends
  it by the globals of \<open>cacheHelp.h\<close>, \<open>struct cfs_state\<close>, \<open>errno\<close>, the allocated handles and the
  state of the system, and by a list of the calls made that no definition reads. \<open>size_t\<close> and
  \<open>off_t\<close> are 64-bit words with wrap-around, an \<open>int\<close> result is converted by \<open>c_int\<close>. A function
  that can crash, exit or loop for ever returns an \<open>outcome\<close> (\<open>Ret\<close>, \<open>Crash\<close>, \<open>Exit\<close>, \<open>Hang\<close>):
  division by zero, a copy into or out of a buffer beyond its end, and a bad handle are crashes.
  Loops that may not end are partial functions whose \<open>None\<close> is not returning; no fuel is used.

  \<^bold>\<open>The theories.\<close>
  \<^item> \<open>Cfs_Prelude\<close>: outcomes, C integers, C strings, buffers. \<open>C_Numerals\<close>: decimal numbers and
    \<open>strtoul\<close>. \<open>Cache_Help\<close>: \<open>src/cacheHelp.c\<close>. \<open>Cfs_Paths\<close>: the path helpers, with the in-place
    removal of slashes against its specification.
  \<^item> \<open>Sqlite_Api\<close>, \<open>Sqlite_Engine\<close>: the interface of SQLite, its laws, the executable engine.
  \<^item> \<open>Cache_Tables\<close>: the abstract cache, a set of known files and a set of cached blocks, read off
    the tables. \<open>Meta_Store\<close>: the functions of \<open>meta.c\<close>. \<open>Meta_Facts\<close>, \<open>Meta_Ops\<close>, \<open>Meta_Blocks\<close>,
    \<open>Meta_Evict\<close>, \<open>Meta_Trace\<close>, \<open>Meta_Frame\<close>: the store's invariant and the refinement of each
    function by an operation on the abstract cache, on every branch. \<open>Meta_Properties\<close>: the
    properties of the metadata.
  \<^item> \<open>Posix_Api\<close>: system calls, the world, \<open>src/log.c\<close>. \<open>Cfs_Handlers\<close>, \<open>Cfs_Files\<close>: the handlers.
    \<open>Cfs_Main\<close>: the request table and \<open>main\<close>.
  \<^item> \<open>Cfs_Frames\<close>: what every handler keeps. \<open>Posix_Files\<close>, \<open>Cfs_Coherence\<close>, \<open>Cfs_Transfers\<close>: the
    agreement of cached blocks with the NAS file through reads and writes. \<open>Cfs_Opening\<close>: what
    opening does to the metadata. \<open>Cfs_Listing\<close>: directories. \<open>Cfs_Mounting\<close>: start-up.
    \<open>Cfs_Demo\<close>, \<open>Meta_Demo\<close>: the concrete states of the witnesses. \<open>Cfs_Properties\<close>,
    \<open>Mount_Properties\<close>: the properties of the handlers and of \<open>main\<close>.

  \<^item> The example load under \<open>example/\<close>, the programs the file system is exercised with.
    \<open>Load_Api\<close>: their system, the records \<open>machine\<close> and the world of the calls made. \<open>Xls_Writer\<close>:
    \<open>libbif.c\<close>, the writer of BIFF2 spreadsheets, record by record and byte by byte; \<open>Xls_Reader\<close>:
    a reader written from the format and the round trip through it. \<open>Midi_Encoder\<close>:
    \<open>midiEncoder.c\<close>. \<open>Fileop\<close>, \<open>Fileop_Main\<close>: \<open>fileop.c\<close>, every test, the options, the rounds and
    \<open>main\<close>; the results of \<open>getopt\<close> are an argument, the arithmetic of \<open>double\<close> a part of the
    parameter \<open>fop_machine\<close>. \<open>Fileop_Counts\<close>: how often each operation is counted, on any system.
    \<open>Fileop_Tree\<close>: the promises of a file system as the locale \<open>tree_files\<close>, with an executable
    tree as its interpretation; \<open>Fileop_Walk\<close>, \<open>Fileop_One\<close>, \<open>Fileop_Dirs\<close>, \<open>Fileop_Files\<close>: total
    correctness of the tests over trees; \<open>Fileop_Properties\<close>: the properties.
  \<^item> \<open>Libasync\<close>: \<open>libasync.c\<close>, the read-ahead cache and the write queue that \<open>iozone\<close> uses, with
    its list nodes in a heap and its data buffers in a flat memory; \<open>malloc\<close> never uses an address
    twice. \<open>Libasync_Lists\<close>: \<open>rep\<close>, the doubly linked cache, the queue and the lent buffers as lists
    of addresses, with the ownership of memory. \<open>Libasync_Aio\<close>: the laws of asynchronous I/O, the
    locale \<open>aio_files\<close>. \<open>Libasync_Read\<close>, \<open>Libasync_Lend\<close>, \<open>Libasync_Write\<close>: the operations under
    these laws. \<open>Libasync_Tail\<close>: the hit on the last entry. \<open>Libasync_Properties\<close>: a system that
    keeps the laws, and the properties.
  \<^item> \<open>iozone.c\<close>, in parts. The distributed mode: \<open>Iozone_Wire\<close>, \<open>Iozone_Messages\<close>: the messages, whose
    members are numbers printed into small arrays of characters; \<open>Iozone_Net\<close>: sockets;
    \<open>Iozone_Master\<close>, \<open>Iozone_Client\<close>: the two sides; \<open>Iozone_Settings\<close>, \<open>Iozone_Exchange\<close>: what arrives;
    \<open>Iozone_Properties\<close>: the properties. The files it reads: \<open>Iozone_Text\<close>: lines, tokens and numbers of
    a text; \<open>Iozone_Roster\<close>: the list of clients; \<open>Iozone_Telemetry\<close>: the files of operations to replay.
    The automatic mode: \<open>Iozone_Sizes\<close>, \<open>Iozone_Auto\<close>: the lists of sizes, \<open>begin\<close>, \<open>auto_test\<close> and the
    order in which they run; the tests are a parameter. \<open>Iozone_Load_Properties\<close>: the properties of
    files and of the automatic mode. The test data: \<open>Iozone_Buffers\<close>: \<open>fill_buffer\<close>, \<open>verify_buffer\<close> and the
    generators of deduplicable data on one memory; \<open>Iozone_Checks\<close>, \<open>Iozone_Data_Properties\<close>: what the
    check accepts and reports.
  \<^item> \<open>Pit_Server\<close>: \<open>pit_server.c\<close>, the server of the time of day, with its client in \<open>iozone.c\<close>.
    \<open>Pit_Facts\<close>, \<open>Pit_Serving\<close>: a round of the server and all its rounds; \<open>Pit_Properties\<close>: the
    properties.

  \<^bold>\<open>What is shown.\<close> A read that fits into its aligned area returns the bytes of the NAS file, with
  the count of the area, and such a write keeps the cache coherent (\<open>cfs_read_returns_nas_bytes\<close>,
  \<open>cfs_write_keeps_coherence\<close>); opening drops copies that are stale or gone; every operation of the
  metadata refines one on the abstract cache or fails with the tables as stated, and no request
  breaks the constraints of the schema; the file names that requests use lie below the two
  directories (descriptors are passed through, and one shell command is not quoted); a mount on an
  existing database recovers the invariant. A spreadsheet that \<open>libbif.c\<close> writes reads back cell by
  cell; \<open>fileop.c\<close>, on a file system that keeps its promises, goes through its force factors and
  leaves it as it was. \<open>async_read\<close> delivers the bytes of the file and \<open>async_write\<close> keeps a queue of
  bounded length. The clients of \<open>iozone.c\<close> run with the settings of the master, its reports are all
  collected; the list of clients, the telemetry files and the sizes of the automatic mode are read
  and walked as they say, and the check of the data reports the first byte that changed. The time
  server answers every request, round after round.

  Other theorems show where the code does not do what it means to. Requests that do not fit crash, a
  full cache blocks \<open>cfs_cacheWrite\<close> for ever, an unaligned write leaves a stale block, the end of a
  file is cached with junk; a hit on the last entry of the read-ahead cache uses freed memory; a
  report that is cut short is counted as another one; a partial answer of the time server is begun
  again; deduplicable data fills half of a record. The findings in the manifest list these and the
  smaller ones.

  \<^bold>\<open>Not modelled.\<close> The text of messages; \<open>formatdate\<close>, which formats such a text; failing
  \<open>malloc\<close>; concurrent requests (FUSE may serve requests in parallel, the code has no locks;
  \<open>serve\<close> runs them in sequence); more blocks in a request than an \<open>int\<close> can count (\<open>write_blks\<close>
  counts a \<open>size_t\<close> with an \<open>int\<close>); a NAS directory for which \<open>realpath\<close> fails (\<open>main\<close> does not
  check it); \<open>src/metadata/hash.h\<close>, which is unfinished and included nowhere. Of \<open>iozone.c\<close> the tests
  and what they measure, the options, the throughput mode and the reports. In the modelled files the
  branches for other systems than Linux and the fixed text of the reports; the build files and the
  generated documentation.
\<close>

end
